(* ===== verification/Prelude.thy ===== *)
theory Prelude
  imports Main "HOL-Library.Word"
begin

unbundle bit_operations_syntax

text \<open>
  The prelude of the development: the theorem collections the component theories fill and
  use, the names of the C types the model shares, and generic lemmas on lists, options and
  words that more than one component needs.
\<close>

section \<open>Theorem collections\<close>

named_theorems frame_simps \<open>what an operation leaves unchanged\<close>
named_theorems acc_simps \<open>reading a state component after an update of it\<close>

section \<open>C types\<close>

text \<open>
  \<open>uint32\<close> and its kin are words, so that arithmetic wraps as it does in C; \<open>int\<close> values
  whose overflow plays no role are mathematical integers.
\<close>

type_synonym uint8 = "8 word"
type_synonym uint16 = "16 word"
type_synonym uint32 = "32 word"
type_synonym uint64 = "64 word"
type_synonym TransactionId = "32 word"
type_synonym CommandId = "32 word"
type_synonym Oid = "32 word"

section \<open>Errors\<close>

text \<open>Going on only when a step raised no error.\<close>

definition bindE :: "'e + 'a \<Rightarrow> ('a \<Rightarrow> 'e + 'b) \<Rightarrow> 'e + 'b" where
  "bindE r f = (case r of Inl e \<Rightarrow> Inl e | Inr x \<Rightarrow> f x)"

lemma bindE_simps [simp]: "bindE (Inl e) f = Inl e" "bindE (Inr x) f = f x"
  by (simp_all add: bindE_def)

section \<open>Lists\<close>

lemma find_map_upd:
  "find (\<lambda>p. fst p = k) (map (\<lambda>p. if fst p = k' then (fst p, f (snd p)) else p) ps) =
   map_option (\<lambda>p. if fst p = k' then (fst p, f (snd p)) else p) (find (\<lambda>p. fst p = k) ps)"
  by (induction ps) auto

lemma find_Some_fst: "find (\<lambda>p. fst p = k) ps = Some p \<Longrightarrow> fst p = k \<and> p \<in> set ps"
  by (induction ps) (auto split: if_splits)

lemma find_append:
  "find P (xs @ ys) = (case find P xs of None \<Rightarrow> find P ys | Some x \<Rightarrow> Some x)"
  by (induction xs) auto

lemma find_None_iff_fst: "find (\<lambda>p. fst p = k) ps = None \<longleftrightarrow> k \<notin> fst ` set ps"
  by (induction ps) auto

lemma find_distinct:
  "distinct (map fst ps) \<Longrightarrow> p \<in> set ps \<Longrightarrow> find (\<lambda>q. fst q = fst p) ps = Some p"
  by (induction ps) (auto simp: image_iff)

text \<open>Removing position \<open>i\<close> by moving the last element into it.\<close>

definition swap_remove :: "'a list \<Rightarrow> nat \<Rightarrow> 'a list" where
  "swap_remove xs i = butlast (xs[i := last xs])"

lemma length_swap_remove [simp]: "length (swap_remove xs i) = length xs - 1"
  by (simp add: swap_remove_def)

lemma mset_swap_remove_set:
  assumes "i < length xs" "distinct xs"
  shows "set (swap_remove xs i) = set xs - {xs ! i}" "distinct (swap_remove xs i)"
proof -
  have ne: "xs \<noteq> []" using assms(1) by auto
  obtain ys z where xs: "xs = ys @ [z]" using ne by (metis append_butlast_last_id)
  have "swap_remove xs i = (if i = length ys then ys else ys[i := z])"
    using assms(1) xs
    by (auto simp: swap_remove_def list_update_append butlast_append)
  moreover have "set (ys[i := z]) = insert z (set ys - {ys ! i})"
    if "i < length ys" using that assms(2) xs
    by (auto simp: set_update_distinct)
  moreover have "distinct (ys[i := z])" if "i < length ys"
    using that assms(2) xs by (auto simp: distinct_list_update)
  moreover have "ys ! i \<in> set ys" if "i < length ys" using that by simp
  ultimately show "set (swap_remove xs i) = set xs - {xs ! i}" "distinct (swap_remove xs i)"
    using assms xs by (auto simp: nth_append split: if_splits)
qed

lemma map_swap_remove: "i < length xs \<Longrightarrow> map f (swap_remove xs i) = swap_remove (map f xs) i"
  by (cases xs rule: rev_cases) (simp_all add: swap_remove_def map_butlast map_update)

section \<open>32-bit words read as signed\<close>

lemma sint32: "sint (w :: uint32) = (if uint w < 2 ^ 31 then uint w else uint w - 2 ^ 32)"
proof -
  have b: "0 \<le> uint w" "uint w < 2 ^ 32" using uint_lt2p [of w] by simp_all
  have "uint w div 2 ^ 31 = (if uint w < 2 ^ 31 then 0 else 1)"
    using b by auto
  then have "bit (uint w) 31 \<longleftrightarrow> \<not> uint w < 2 ^ 31" by (simp add: bit_iff_odd)
  moreover have "take_bit 32 (uint w) = uint w" using b by (intro take_bit_int_eq_self) simp_all
  ultimately show ?thesis by (simp add: sint_uint signed_take_bit_eq_take_bit_minus)
qed

lemma uint_lt_unat: "uint (w :: uint32) < 2 ^ 31 \<longleftrightarrow> unat w < 2 ^ 31"
  unfolding uint_nat by (simp only: of_nat_less_numeral_power_cancel_iff)

lemma sint_diff32:
  fixes p q :: uint32
  assumes "unat p < 2 ^ 31" "unat q < 2 ^ 31"
  shows "sint (p - q) = int (unat p) - int (unat q)"
proof -
  have b: "uint p < 2 ^ 31" "uint q < 2 ^ 31" "0 \<le> uint p" "0 \<le> uint q"
    using assms by (simp_all only: uint_lt_unat uint_ge_0)
  then have "sint p = uint p" "sint q = uint q" by (simp_all add: sint32)
  then have "sint (p - q) = signed_take_bit 31 (uint p - uint q)" by (simp add: sint_word_diff)
  also have "\<dots> = uint p - uint q" 
  proof (rule signed_take_bit_int_eq_self)
    show "- (2 ^ 31) \<le> uint p - uint q" "uint p - uint q < 2 ^ 31" using b by linarith+
  qed
  finally show ?thesis unfolding uint_nat .
qed

lemma sint_neg32: "sint (w :: uint32) < 0 \<longleftrightarrow> \<not> unat w < 2 ^ 31"
proof -
  have "uint w < 2 ^ 32" "0 \<le> uint w" using uint_lt2p [of w] by simp_all
  moreover have "unat w < 2 ^ 31 \<longleftrightarrow> uint w < 2 ^ 31" by (simp only: uint_lt_unat)
  ultimately show ?thesis unfolding sint32 by auto
qed

end
