(* ===== verification/PgList.thy ===== *)
theory PgList
  imports Prelude
begin

text \<open>
  The part of \<open>nodes/list.c\<close> the other components call, on the values a \<open>List\<close> holds: \<open>NIL\<close>
  is the empty list, a \<open>ListCell\<close> is a position of the list, and an operation that modifies
  the list in place returns the new list, as the C functions do.  A pointer is compared by
  its address, which \<open>addr\<close> reads.
\<close>

section \<open>Operations\<close>

definition list_length :: "'a list \<Rightarrow> int" where
  "list_length list = int (length list)"

definition lappend :: "'a list \<Rightarrow> 'a \<Rightarrow> 'a list" where
  "lappend list datum = (if list = [] then [datum] else list @ [datum])"

definition lappend_int :: "int list \<Rightarrow> int \<Rightarrow> int list" where
  "lappend_int list datum = (if list = [] then [datum] else list @ [datum])"

fun list_member_int :: "int list \<Rightarrow> int \<Rightarrow> bool" where
  "list_member_int [] datum = False"
| "list_member_int (x # list) datum = (if x = datum then True else list_member_int list datum)"

text \<open>
  \<open>list_delete_cell\<close>: the list is \<open>prevs @ cell # rest\<close>, with \<open>prevs\<close> the cells up to
  \<open>prev\<close> (\<open>[]\<close> when \<open>prev\<close> is \<open>NULL\<close>); deleting the only cell gives \<open>NIL\<close>.
\<close>

definition list_delete_cell :: "'a list \<Rightarrow> 'a list \<Rightarrow> 'a list" where
  "list_delete_cell prevs cells =
     (if length prevs + length cells = 1 then [] else prevs @ tl cells)"

text \<open>The \<open>foreach\<close> loop of \<open>list_delete_ptr\<close>, with the cells already passed in \<open>prevs\<close>.\<close>

fun list_delete_ptr_from :: "('a \<Rightarrow> 'p) \<Rightarrow> 'a list \<Rightarrow> 'a list \<Rightarrow> 'p \<Rightarrow> 'a list" where
  "list_delete_ptr_from addr prevs [] datum = prevs"
| "list_delete_ptr_from addr prevs (x # cells) datum =
     (if addr x = datum then list_delete_cell prevs (x # cells)
      else list_delete_ptr_from addr (prevs @ [x]) cells datum)"

definition list_delete_ptr :: "('a \<Rightarrow> 'p) \<Rightarrow> 'a list \<Rightarrow> 'p \<Rightarrow> 'a list" where
  "list_delete_ptr addr list datum = list_delete_ptr_from addr [] list datum"

section \<open>What they compute\<close>

lemma lappend_eq [simp]: "lappend list datum = list @ [datum]"
  by (simp add: lappend_def)

lemma lappend_int_eq [simp]: "lappend_int list datum = list @ [datum]"
  by (simp add: lappend_int_def)

lemma list_length_eq_0 [simp]: "list_length list = 0 \<longleftrightarrow> list = []"
  by (simp add: list_length_def)

lemma list_member_int_iff [simp]: "list_member_int list datum \<longleftrightarrow> datum \<in> set list"
  by (induction list) auto

lemma list_delete_cell_eq [simp]:
  "cells \<noteq> [] \<Longrightarrow> list_delete_cell prevs cells = prevs @ tl cells"
  by (cases cells) (auto simp: list_delete_cell_def)

lemma list_delete_ptr_from_notin:
  "datum \<notin> addr ` set cells \<Longrightarrow> list_delete_ptr_from addr prevs cells datum = prevs @ cells"
  by (induction addr prevs cells datum rule: list_delete_ptr_from.induct) auto

lemma list_delete_ptr_from_eq:
  "distinct (map addr cells) \<Longrightarrow> list_delete_ptr_from addr prevs cells datum =
     prevs @ filter (\<lambda>x. addr x \<noteq> datum) cells"
proof (induction addr prevs cells datum rule: list_delete_ptr_from.induct)
  case (2 addr prevs x cells datum)
  show ?case
  proof (cases "addr x = datum")
    case True
    with 2(2) have "filter (\<lambda>y. addr y \<noteq> datum) cells = cells"
      by (auto simp: filter_id_conv image_iff)
    with True show ?thesis by simp
  qed (use 2 in auto)
qed simp

text \<open>On a list of distinct pointers the scan removes exactly the pointer asked for.\<close>

lemma list_delete_ptr_eq:
  "distinct (map addr list) \<Longrightarrow>
     list_delete_ptr addr list datum = filter (\<lambda>x. addr x \<noteq> datum) list"
  by (simp add: list_delete_ptr_def list_delete_ptr_from_eq)

end
