(* ===== verification/Gdd_Map.thy ===== *)
theory Gdd_Map
  imports Prelude
begin

text \<open>
  The \<open>GddMap\<close> of \<open>utils/gdd/gdddetector.c\<close>: a map from \<open>int\<close> to pointers kept as an array of
  pairs in insertion order.  \<open>map_pairs\<close> is the used part \<open>pairs[0 .. length)\<close> of the array and
  \<open>map_capacity\<close> the number of slots allocated.  The struct behind a \<open>ptr\<close> is stored in the
  pair itself; a write through the pointer is \<open>gddMapWrite\<close>.
\<close>

section \<open>Operations\<close>

record 'v GddMap =
  map_capacity :: int
  map_pairs :: "(int \<times> 'v) list"

definition gddMapInit :: "'v GddMap" where
  "gddMapInit = \<lparr>map_capacity = 4, map_pairs = []\<rparr>"

definition gddMapEnsureCapacity :: "'v GddMap \<Rightarrow> int \<Rightarrow> 'v GddMap" where
  "gddMapEnsureCapacity m capacity =
     (if capacity \<le> map_capacity m then m
      else m\<lparr>map_capacity := push_bit 1 capacity\<rparr>)"

text \<open>The scan of \<open>gddMapGetPair\<close> from position \<open>i\<close>.\<close>

fun gddMapGetPair_from :: "(int \<times> 'v) list \<Rightarrow> int \<Rightarrow> (int \<times> 'v) option" where
  "gddMapGetPair_from [] key = None"
| "gddMapGetPair_from (pair # rest) key =
     (if fst pair = key then Some pair else gddMapGetPair_from rest key)"

definition gddMapGetPair :: "'v GddMap \<Rightarrow> int \<Rightarrow> (int \<times> 'v) option" where
  "gddMapGetPair m key = gddMapGetPair_from (map_pairs m) key"

definition gddMapGet :: "'v GddMap \<Rightarrow> int \<Rightarrow> 'v option" where
  "gddMapGet m key =
     (case gddMapGetPair m key of Some pair \<Rightarrow> Some (snd pair) | None \<Rightarrow> None)"

definition gddMapSetUnsafe :: "'v GddMap \<Rightarrow> int \<Rightarrow> 'v \<Rightarrow> 'v GddMap" where
  "gddMapSetUnsafe m key ptr =
     (let map1 = gddMapEnsureCapacity m (int (length (map_pairs m)) + 1)
      in map1\<lparr>map_pairs := map_pairs map1 @ [(key, ptr)]\<rparr>)"

text \<open>A write through the pointer stored under \<open>key\<close>.\<close>

definition gddMapWrite :: "'v GddMap \<Rightarrow> int \<Rightarrow> ('v \<Rightarrow> 'v) \<Rightarrow> 'v GddMap" where
  "gddMapWrite m key f =
     m\<lparr>map_pairs := map (\<lambda>p. if fst p = key then (fst p, f (snd p)) else p) (map_pairs m)\<rparr>"

text \<open>
  \<open>gdd_map_iter_delete\<close>: \<open>pairs[pos--] = pairs[--length]\<close>.  The loop's \<open>pos++\<close> cancels the
  \<open>pos--\<close>, so a loop that deletes goes on at the same position.
\<close>

definition gdd_map_iter_delete :: "'v GddMap \<Rightarrow> nat \<Rightarrow> 'v GddMap" where
  "gdd_map_iter_delete m pos = m\<lparr>map_pairs := swap_remove (map_pairs m) pos\<rparr>"

section \<open>Invariant and laws\<close>

definition map_keys :: "'v GddMap \<Rightarrow> int list" where
  "map_keys m = map fst (map_pairs m)"

text \<open>Keys are distinct and the used part fits the array.\<close>

definition map_ok :: "'v GddMap \<Rightarrow> bool" where
  "map_ok m \<longleftrightarrow> distinct (map_keys m) \<and> int (length (map_pairs m)) \<le> map_capacity m"

lemma gddMapGetPair_from_find: "gddMapGetPair_from ps key = find (\<lambda>p. fst p = key) ps"
  by (induction ps) auto

lemma gddMapGet_find: "gddMapGet m key = map_option snd (find (\<lambda>p. fst p = key) (map_pairs m))"
  by (simp add: gddMapGet_def gddMapGetPair_def gddMapGetPair_from_find split: option.split)

lemma gddMapGet_None_iff: "gddMapGet m key = None \<longleftrightarrow> key \<notin> set (map_keys m)"
  by (simp add: gddMapGet_find map_keys_def find_None_iff_fst)

lemma gddMapGet_Some_key: "gddMapGet m key = Some v \<Longrightarrow> key \<in> set (map_keys m)"
  using gddMapGet_None_iff [of m key] by auto

lemma gddMapGet_nth:
  "map_ok m \<Longrightarrow> i < length (map_pairs m) \<Longrightarrow>
     gddMapGet m (map_keys m ! i) = Some (snd (map_pairs m ! i))"
  using find_distinct [of "map_pairs m" "map_pairs m ! i"]
  by (simp add: gddMapGet_find map_keys_def map_ok_def)

lemma gddMapGet_Init [simp]: "gddMapGet gddMapInit key = None"
  by (simp add: gddMapGet_find gddMapInit_def)

lemma map_ok_Init [simp]: "map_ok gddMapInit"
  by (simp add: map_ok_def gddMapInit_def map_keys_def)

lemma pairs_EnsureCapacity [simp]: "map_pairs (gddMapEnsureCapacity m c) = map_pairs m"
  by (simp add: gddMapEnsureCapacity_def)

lemma map_keys_SetUnsafe [simp]: "map_keys (gddMapSetUnsafe m key v) = map_keys m @ [key]"
  by (simp add: gddMapSetUnsafe_def map_keys_def Let_def)

lemma gddMapGet_SetUnsafe [acc_simps]:
  "gddMapGet m key = None \<Longrightarrow>
     gddMapGet (gddMapSetUnsafe m key v) k = (if k = key then Some v else gddMapGet m k)"
  by (auto simp: gddMapGet_find gddMapSetUnsafe_def Let_def find_append split: option.splits)

lemma map_ok_SetUnsafe:
  "map_ok m \<Longrightarrow> gddMapGet m key = None \<Longrightarrow> map_ok (gddMapSetUnsafe m key v)"
  unfolding map_ok_def gddMapGet_None_iff
  by (auto simp: gddMapSetUnsafe_def gddMapEnsureCapacity_def push_bit_eq_mult Let_def map_keys_def)

lemma map_keys_Write [simp]: "map_keys (gddMapWrite m key f) = map_keys m"
  by (auto simp: map_keys_def gddMapWrite_def comp_def)

lemma map_ok_Write [simp]: "map_ok (gddMapWrite m key f) = map_ok m"
  using map_keys_Write [of m key f]
  by (simp add: map_ok_def) (simp add: gddMapWrite_def)

lemma gddMapGet_Write [acc_simps]:
  "gddMapGet (gddMapWrite m key f) k =
     (if k = key then map_option f (gddMapGet m k) else gddMapGet m k)"
  by (auto simp: gddMapGet_find gddMapWrite_def find_map_upd option.map_comp comp_def
      dest!: find_Some_fst intro!: option.map_cong0)

lemma gddMapGet_in_pairs: "map_ok m \<Longrightarrow> gddMapGet m k = Some v \<longleftrightarrow> (k, v) \<in> set (map_pairs m)"
  using find_distinct [of "map_pairs m" "(k, v)"]
  by (auto simp: gddMapGet_find map_ok_def map_keys_def dest: find_Some_fst)

lemma map_keys_iter_delete:
  "pos < length (map_pairs m) \<Longrightarrow>
     map_keys (gdd_map_iter_delete m pos) = swap_remove (map_keys m) pos"
  by (simp add: gdd_map_iter_delete_def map_keys_def map_swap_remove)

lemma map_ok_iter_delete:
  "map_ok m \<Longrightarrow> pos < length (map_pairs m) \<Longrightarrow> map_ok (gdd_map_iter_delete m pos)"
  using mset_swap_remove_set(2) [of pos "map_keys m"]
  unfolding map_ok_def map_keys_iter_delete
  by (auto simp: map_keys_iter_delete) (auto simp: gdd_map_iter_delete_def map_keys_def)

lemma gddMapGet_iter_delete:
  assumes "map_ok m" "pos < length (map_pairs m)"
  shows "gddMapGet (gdd_map_iter_delete m pos) k =
     (if k = map_keys m ! pos then None else gddMapGet m k)"
proof -
  let ?ps = "map_pairs m"
  have d: "distinct ?ps" "distinct (map_keys m)"
    using assms(1) by (auto simp: map_ok_def map_keys_def distinct_map)
  have s: "set (swap_remove ?ps pos) = set ?ps - {?ps ! pos}"
    using mset_swap_remove_set(1) [OF assms(2) d(1)] .
  have key: "(k, v) = ?ps ! pos" if "(k, v) \<in> set ?ps" "k = map_keys m ! pos" for v
    using that assms gddMapGet_nth [OF assms] gddMapGet_in_pairs [OF assms(1), of k v]
    by (auto simp: map_keys_def prod_eq_iff)
  have "gddMapGet (gdd_map_iter_delete m pos) k = Some v \<longleftrightarrow>
      k \<noteq> map_keys m ! pos \<and> gddMapGet m k = Some v" for v
    using key s assms(2) gddMapGet_in_pairs [OF assms(1)]
      gddMapGet_in_pairs [OF map_ok_iter_delete [OF assms]]
    by (auto simp: gdd_map_iter_delete_def map_keys_def) (metis fst_conv)
  then show ?thesis by (metis not_None_eq)
qed

section \<open>The interface the detector relies on\<close>

text \<open>
  A finite map with a lookup, an insertion that is only allowed on a fresh key (\<open>Unsafe\<close>), an
  update in place and a well-formedness predicate.  The detector's three get-or-create functions
  are \<open>ensure\<close> on it.
\<close>

locale ptr_map =
  fixes empty :: "'m"
    and get :: "'m \<Rightarrow> int \<Rightarrow> 'v option"
    and set_unsafe :: "'m \<Rightarrow> int \<Rightarrow> 'v \<Rightarrow> 'm"
    and update :: "'m \<Rightarrow> int \<Rightarrow> ('v \<Rightarrow> 'v) \<Rightarrow> 'm"
    and valid :: "'m \<Rightarrow> bool"
  assumes get_empty: "get empty k = None"
    and valid_empty: "valid empty"
    and get_set_unsafe: "get m k = None \<Longrightarrow> get (set_unsafe m k v) k' = (if k' = k then Some v else get m k')"
    and valid_set_unsafe: "valid m \<Longrightarrow> get m k = None \<Longrightarrow> valid (set_unsafe m k v)"
    and get_update: "get (update m k f) k' = (if k' = k then map_option f (get m k') else get m k')"
    and valid_update: "valid m \<Longrightarrow> valid (update m k f)"
begin

definition ensure :: "'m \<Rightarrow> int \<Rightarrow> 'v \<Rightarrow> 'm" where
  "ensure m k v = (case get m k of Some _ \<Rightarrow> m | None \<Rightarrow> set_unsafe m k v)"

lemma get_ensure:
  "get (ensure m k v) k' =
     (if k' = k then Some (case get m k of None \<Rightarrow> v | Some w \<Rightarrow> w) else get m k')"
  by (simp add: ensure_def get_set_unsafe split: option.split)

lemma valid_ensure: "valid m \<Longrightarrow> valid (ensure m k v)"
  by (simp add: ensure_def valid_set_unsafe split: option.split)

lemma ensure_idem: "ensure (ensure m k v) k w = ensure m k v"
  by (simp add: ensure_def get_set_unsafe split: option.split)

end

interpretation gm: ptr_map gddMapInit gddMapGet gddMapSetUnsafe gddMapWrite map_ok
  by unfold_locales (simp_all add: gddMapGet_SetUnsafe map_ok_SetUnsafe gddMapGet_Write)

end
