(* ===== verification/Gdd.thy ===== *)
theory Gdd
  imports PgList Gdd_Map
begin

text \<open>
  The global deadlock detector: \<open>utils/gdd/gdddetector.c\<close> with the iterator macros of
  \<open>gdddetectorpriv.h\<close>, and the detection cycle of \<open>gddbackend.c\<close>.

  A vertex struct is addressed by its segment and its vertex id: \<open>gddGraphGetVert\<close> makes at
  most one per graph and id, and the \<open>from\<close>/\<open>to\<close> pointers of an edge point into the edge's
  own graph.  An edge struct never changes once made, so the lists hold the struct itself with
  the address \<open>palloc\<close> gave it (\<open>edge_addr\<close>), which is what pointer comparisons look at.
  \<open>vert_global\<close> is the key of the \<open>GddStat\<close> that \<open>vert->global\<close> points at.
  The satellite \<open>data\<close> pointers, which the algorithm never reads, are left out.
\<close>

section \<open>Data\<close>

record GddStat =
  stat_id :: int
  indeg :: int
  outdeg :: int

record GddEdge =
  edge_addr :: nat
  solid :: bool
  from_v :: int
  to_v :: int

record GddVert =
  vert_id :: int
  vert_global :: int
  edgesIn :: "GddEdge list"
  edgesOut :: "GddEdge list"

record GddGraph =
  graph_id :: int
  verts :: "GddVert GddMap"

record GddCtx =
  topstat :: GddStat
  globals :: "GddStat GddMap"
  graphs :: "GddGraph GddMap"
  next_addr :: nat

text \<open>
  The list iterator of \<open>gdd_list_foreach_safe\<close>: \<open>iter_prevs\<close> are the cells up to \<open>prev\<close>,
  \<open>iter_cells\<close> the current cell and what follows it.
\<close>

record GddListIter =
  iter_prevs :: "GddEdge list"
  iter_cells :: "GddEdge list"

definition gdd_list_iter_get_list :: "GddListIter \<Rightarrow> GddEdge list" where
  "gdd_list_iter_get_list iter = iter_prevs iter @ iter_cells iter"

text \<open>
  \<open>gdd_list_iter_delete\<close> puts \<open>cell\<close> back on \<open>prev\<close>, and the loop's step from there reaches the
  cell after the deleted one, or the new head: a loop that deletes goes on with the rest.
\<close>

definition gdd_list_iter_delete :: "GddListIter \<Rightarrow> GddListIter" where
  "gdd_list_iter_delete iter =
     iter\<lparr>iter_cells :=
       drop (length (iter_prevs iter)) (list_delete_cell (iter_prevs iter) (iter_cells iter))\<rparr>"

section \<open>Stats, verts and edges\<close>

definition gddStatInit :: "int \<Rightarrow> GddStat" where
  "gddStatInit vid = \<lparr>stat_id = vid, indeg = 0, outdeg = 0\<rparr>"

definition gddStatNew :: "int \<Rightarrow> GddStat" where
  "gddStatNew vid = gddStatInit vid"

text \<open>\<open>gddVertNew\<close> leaves \<open>global\<close> unset; \<open>gddVertBindStats\<close> sets it.\<close>

definition gddVertNew :: "int \<Rightarrow> GddVert" where
  "gddVertNew vid = \<lparr>vert_id = vid, vert_global = 0, edgesIn = [], edgesOut = []\<rparr>"

definition gddGraphNew :: "int \<Rightarrow> GddGraph" where
  "gddGraphNew segid = \<lparr>graph_id = segid, verts = gddMapInit\<rparr>"

definition GddCtxNew :: GddCtx where
  "GddCtxNew = \<lparr>topstat = gddStatInit 0, globals = gddMapInit, graphs = gddMapInit, next_addr = 0\<rparr>"

definition gddVertGetInDegree :: "GddVert \<Rightarrow> int" where
  "gddVertGetInDegree vert = list_length (edgesIn vert)"

definition gddVertGetOutDegree :: "GddVert \<Rightarrow> int" where
  "gddVertGetOutDegree vert = list_length (edgesOut vert)"

text \<open>Dereferencing a vertex pointer, and writing through it.\<close>

definition vert_of :: "GddCtx \<Rightarrow> int \<Rightarrow> int \<Rightarrow> GddVert option" where
  "vert_of ctx s v =
     (case gddMapGet (graphs ctx) s of None \<Rightarrow> None | Some g \<Rightarrow> gddMapGet (verts g) v)"

definition vert_write :: "GddCtx \<Rightarrow> int \<Rightarrow> int \<Rightarrow> (GddVert \<Rightarrow> GddVert) \<Rightarrow> GddCtx" where
  "vert_write ctx s v f =
     ctx\<lparr>graphs := gddMapWrite (graphs ctx) s (\<lambda>g. g\<lparr>verts := gddMapWrite (verts g) v f\<rparr>)\<rparr>"

text \<open>Writing through \<open>vert->global\<close>.\<close>

definition global_write :: "GddCtx \<Rightarrow> int \<Rightarrow> int \<Rightarrow> (GddStat \<Rightarrow> GddStat) \<Rightarrow> GddCtx" where
  "global_write ctx s v f =
     (case vert_of ctx s v of
        None \<Rightarrow> ctx
      | Some vert \<Rightarrow> ctx\<lparr>globals := gddMapWrite (globals ctx) (vert_global vert) f\<rparr>)"

section \<open>Building the graphs\<close>

definition gddCtxGetGraph :: "GddCtx \<Rightarrow> int \<Rightarrow> GddCtx" where
  "gddCtxGetGraph ctx segid =
     (case gddMapGet (graphs ctx) segid of
        Some _ \<Rightarrow> ctx
      | None \<Rightarrow> ctx\<lparr>graphs := gddMapSetUnsafe (graphs ctx) segid (gddGraphNew segid)\<rparr>)"

definition gddCtxGetGlobalStat :: "GddCtx \<Rightarrow> int \<Rightarrow> GddCtx" where
  "gddCtxGetGlobalStat ctx vid =
     (case gddMapGet (globals ctx) vid of
        Some _ \<Rightarrow> ctx
      | None \<Rightarrow> ctx\<lparr>globals := gddMapSetUnsafe (globals ctx) vid (gddStatNew vid)\<rparr>)"

definition gddGraphGetVert :: "GddCtx \<Rightarrow> int \<Rightarrow> int \<Rightarrow> GddCtx" where
  "gddGraphGetVert ctx segid vid =
     (case vert_of ctx segid vid of
        Some _ \<Rightarrow> ctx
      | None \<Rightarrow> ctx\<lparr>graphs := gddMapWrite (graphs ctx) segid
          (\<lambda>g. g\<lparr>verts := gddMapSetUnsafe (verts g) vid (gddVertNew vid)\<rparr>)\<rparr>)"

definition gddEdgeNew :: "GddCtx \<Rightarrow> int \<Rightarrow> int \<Rightarrow> bool \<Rightarrow> GddEdge \<times> GddCtx" where
  "gddEdgeNew ctx from to solid' =
     (\<lparr>edge_addr = next_addr ctx, solid = solid', from_v = from, to_v = to\<rparr>,
      ctx\<lparr>next_addr := Suc (next_addr ctx)\<rparr>)"

definition gddGraphMakeEdge :: "GddCtx \<Rightarrow> int \<Rightarrow> int \<Rightarrow> int \<Rightarrow> bool \<Rightarrow> GddEdge \<times> GddCtx" where
  "gddGraphMakeEdge ctx segid from to solid' =
     (let ctx1 = gddGraphGetVert ctx segid from;
          ctx2 = gddGraphGetVert ctx1 segid to
      in gddEdgeNew ctx2 from to solid')"

definition gddVertBindStats :: "GddCtx \<Rightarrow> int \<Rightarrow> int \<Rightarrow> int \<Rightarrow> GddCtx" where
  "gddVertBindStats ctx s v global = vert_write ctx s v (\<lambda>vert. vert\<lparr>vert_global := global\<rparr>)"

definition gddEdgeLink :: "GddCtx \<Rightarrow> int \<Rightarrow> GddEdge \<Rightarrow> GddCtx" where
  "gddEdgeLink ctx s e =
     (let ctx1 = ctx\<lparr>topstat := (topstat ctx)\<lparr>outdeg := outdeg (topstat ctx) + 1\<rparr>\<rparr>;
          ctx2 = ctx1\<lparr>topstat := (topstat ctx1)\<lparr>indeg := indeg (topstat ctx1) + 1\<rparr>\<rparr>;
          ctx3 = global_write ctx2 s (from_v e) (\<lambda>st. st\<lparr>outdeg := outdeg st + 1\<rparr>);
          ctx4 = global_write ctx3 s (to_v e) (\<lambda>st. st\<lparr>indeg := indeg st + 1\<rparr>);
          ctx5 = vert_write ctx4 s (from_v e) (\<lambda>vert. vert\<lparr>edgesOut := lappend (edgesOut vert) e\<rparr>)
      in vert_write ctx5 s (to_v e) (\<lambda>vert. vert\<lparr>edgesIn := lappend (edgesIn vert) e\<rparr>))"

definition GddCtxAddEdge :: "GddCtx \<Rightarrow> int \<Rightarrow> int \<Rightarrow> int \<Rightarrow> bool \<Rightarrow> GddCtx" where
  "GddCtxAddEdge ctx segid from to solid' =
     (let ctx1 = gddCtxGetGraph ctx segid;
          (edge, ctx2) = gddGraphMakeEdge ctx1 segid from to solid';
          ctx3 = gddCtxGetGlobalStat ctx2 from;
          ctx4 = gddVertBindStats ctx3 segid from from;
          ctx5 = gddCtxGetGlobalStat ctx4 to;
          ctx6 = gddVertBindStats ctx5 segid to to
      in gddEdgeLink ctx6 segid edge)"

section \<open>Unlinking edges\<close>

definition gddEdgeUnlinkFrom :: "GddCtx \<Rightarrow> int \<Rightarrow> GddEdge \<Rightarrow> GddListIter option \<Rightarrow> GddCtx" where
  "gddEdgeUnlinkFrom ctx s e fromiter =
     (let ctx1 = ctx\<lparr>topstat := (topstat ctx)\<lparr>outdeg := outdeg (topstat ctx) - 1\<rparr>\<rparr>;
          ctx2 = global_write ctx1 s (from_v e) (\<lambda>st. st\<lparr>outdeg := outdeg st - 1\<rparr>)
      in vert_write ctx2 s (from_v e) (\<lambda>vert. vert\<lparr>edgesOut :=
           (case fromiter of
              Some iter \<Rightarrow> gdd_list_iter_get_list (gdd_list_iter_delete iter)
            | None \<Rightarrow> list_delete_ptr edge_addr (edgesOut vert) (edge_addr e))\<rparr>))"

definition gddEdgeUnlinkTo :: "GddCtx \<Rightarrow> int \<Rightarrow> GddEdge \<Rightarrow> GddListIter option \<Rightarrow> GddCtx" where
  "gddEdgeUnlinkTo ctx s e toiter =
     (let ctx1 = ctx\<lparr>topstat := (topstat ctx)\<lparr>indeg := indeg (topstat ctx) - 1\<rparr>\<rparr>;
          ctx2 = global_write ctx1 s (to_v e) (\<lambda>st. st\<lparr>indeg := indeg st - 1\<rparr>)
      in vert_write ctx2 s (to_v e) (\<lambda>vert. vert\<lparr>edgesIn :=
           (case toiter of
              Some iter \<Rightarrow> gdd_list_iter_get_list (gdd_list_iter_delete iter)
            | None \<Rightarrow> list_delete_ptr edge_addr (edgesIn vert) (edge_addr e))\<rparr>))"

definition gddEdgeUnlink ::
  "GddCtx \<Rightarrow> int \<Rightarrow> GddEdge \<Rightarrow> GddListIter option \<Rightarrow> GddListIter option \<Rightarrow> GddCtx" where
  "gddEdgeUnlink ctx s e fromiter toiter =
     gddEdgeUnlinkTo (gddEdgeUnlinkFrom ctx s e fromiter) s e toiter"

text \<open>
  The edge loops: \<open>prevs\<close> and \<open>cells\<close> are the iterator, the flag is \<open>dirty\<close>.  The first two
  are the loops of \<open>gddVertUnlinkAll\<close>, the third the loop of \<open>gddVertReduce\<close> that keeps the
  solid edges.
\<close>

fun unlink_in_edges ::
  "GddCtx \<Rightarrow> int \<Rightarrow> GddEdge list \<Rightarrow> GddEdge list \<Rightarrow> bool \<Rightarrow> GddCtx \<times> bool" where
  "unlink_in_edges ctx s prevs [] dirty = (ctx, dirty)"
| "unlink_in_edges ctx s prevs (e # cells) dirty =
     unlink_in_edges
       (gddEdgeUnlink ctx s e None (Some \<lparr>iter_prevs = prevs, iter_cells = e # cells\<rparr>))
       s prevs cells True"

fun unlink_out_edges ::
  "GddCtx \<Rightarrow> int \<Rightarrow> GddEdge list \<Rightarrow> GddEdge list \<Rightarrow> bool \<Rightarrow> GddCtx \<times> bool" where
  "unlink_out_edges ctx s prevs [] dirty = (ctx, dirty)"
| "unlink_out_edges ctx s prevs (e # cells) dirty =
     unlink_out_edges
       (gddEdgeUnlink ctx s e (Some \<lparr>iter_prevs = prevs, iter_cells = e # cells\<rparr>) None)
       s prevs cells True"

fun unlink_dotted_in_edges ::
  "GddCtx \<Rightarrow> int \<Rightarrow> GddEdge list \<Rightarrow> GddEdge list \<Rightarrow> bool \<Rightarrow> GddCtx \<times> bool" where
  "unlink_dotted_in_edges ctx s prevs [] dirty = (ctx, dirty)"
| "unlink_dotted_in_edges ctx s prevs (e # cells) dirty =
     (if solid e then unlink_dotted_in_edges ctx s (prevs @ [e]) cells dirty
      else unlink_dotted_in_edges
        (gddEdgeUnlink ctx s e None (Some \<lparr>iter_prevs = prevs, iter_cells = e # cells\<rparr>))
        s prevs cells True)"

definition in_edges :: "GddCtx \<Rightarrow> int \<Rightarrow> int \<Rightarrow> GddEdge list" where
  "in_edges ctx s v = (case vert_of ctx s v of None \<Rightarrow> [] | Some vert \<Rightarrow> edgesIn vert)"

definition out_edges :: "GddCtx \<Rightarrow> int \<Rightarrow> int \<Rightarrow> GddEdge list" where
  "out_edges ctx s v = (case vert_of ctx s v of None \<Rightarrow> [] | Some vert \<Rightarrow> edgesOut vert)"

definition gddVertUnlinkAll :: "GddCtx \<Rightarrow> int \<Rightarrow> int \<Rightarrow> GddCtx \<times> bool" where
  "gddVertUnlinkAll ctx s v =
     (let (ctx1, dirty) = unlink_in_edges ctx s [] (in_edges ctx s v) False
      in unlink_out_edges ctx1 s [] (out_edges ctx1 s v) dirty)"

definition gddVertReduce :: "GddCtx \<Rightarrow> int \<Rightarrow> int \<Rightarrow> GddCtx \<times> bool" where
  "gddVertReduce ctx s v =
     (case vert_of ctx s v of
        None \<Rightarrow> (ctx, False)
      | Some vert \<Rightarrow>
         (case gddMapGet (globals ctx) (vert_global vert) of
            None \<Rightarrow> (ctx, False)
          | Some global \<Rightarrow>
             if indeg global = 0 \<or> outdeg global = 0 then gddVertUnlinkAll ctx s v
             else if gddVertGetOutDegree vert = 0
             then unlink_dotted_in_edges ctx s [] (edgesIn vert) False
             else (ctx, False)))"

section \<open>No step of the reduction changes which verts a graph has\<close>

definition graph_keys :: "GddCtx \<Rightarrow> int \<Rightarrow> int list" where
  "graph_keys ctx s =
     (case gddMapGet (graphs ctx) s of None \<Rightarrow> [] | Some g \<Rightarrow> map_keys (verts g))"

lemma graph_keys_vert_write [frame_simps]: "graph_keys (vert_write ctx s v f) s' = graph_keys ctx s'"
  by (simp add: graph_keys_def vert_write_def gddMapGet_Write split: option.split)

lemma graph_keys_global_write [frame_simps]: "graph_keys (global_write ctx s v f) s' = graph_keys ctx s'"
  by (simp add: graph_keys_def global_write_def split: option.split)

lemma graph_keys_topstat [frame_simps]: "graph_keys (ctx\<lparr>topstat := t\<rparr>) s' = graph_keys ctx s'"
  by (simp add: graph_keys_def)

lemma graph_keys_Unlink [frame_simps]: "graph_keys (gddEdgeUnlink ctx s e i j) s' = graph_keys ctx s'"
  by (simp add: gddEdgeUnlink_def gddEdgeUnlinkFrom_def gddEdgeUnlinkTo_def frame_simps Let_def)

lemma graph_keys_unlink_in [frame_simps]:
  "graph_keys (fst (unlink_in_edges ctx s prevs cells d)) s' = graph_keys ctx s'"
  by (induction ctx s prevs cells d rule: unlink_in_edges.induct) (simp_all add: frame_simps)

lemma graph_keys_unlink_out [frame_simps]:
  "graph_keys (fst (unlink_out_edges ctx s prevs cells d)) s' = graph_keys ctx s'"
  by (induction ctx s prevs cells d rule: unlink_out_edges.induct) (simp_all add: frame_simps)

lemma graph_keys_unlink_dotted [frame_simps]:
  "graph_keys (fst (unlink_dotted_in_edges ctx s prevs cells d)) s' = graph_keys ctx s'"
  by (induction ctx s prevs cells d rule: unlink_dotted_in_edges.induct) (simp_all add: frame_simps)

lemma graph_keys_UnlinkAll [frame_simps]: "graph_keys (fst (gddVertUnlinkAll ctx s v)) s' = graph_keys ctx s'"
  by (simp add: gddVertUnlinkAll_def frame_simps case_prod_unfold Let_def)

lemma graph_keys_VertReduce [frame_simps]: "graph_keys (fst (gddVertReduce ctx s v)) s' = graph_keys ctx s'"
  by (simp add: gddVertReduce_def frame_simps split: option.split)

section \<open>Reduction\<close>

text \<open>\<open>gdd_map_iter_delete\<close> on the verts of one graph.\<close>

definition vert_delete :: "GddCtx \<Rightarrow> int \<Rightarrow> nat \<Rightarrow> GddCtx" where
  "vert_delete ctx s pos =
     ctx\<lparr>graphs := gddMapWrite (graphs ctx) s (\<lambda>g. g\<lparr>verts := gdd_map_iter_delete (verts g) pos\<rparr>)\<rparr>"

lemma length_graph_keys_vert_delete [frame_simps]:
  "length (graph_keys (vert_delete ctx s pos) s) = length (graph_keys ctx s) - 1"
  by (simp add: graph_keys_def vert_delete_def gddMapGet_Write gdd_map_iter_delete_def map_keys_def
      split: option.split)

text \<open>The loop of \<open>GddCtxReduce\<close> over the verts of one graph, from position \<open>pos\<close>.\<close>

function reduce_verts :: "GddCtx \<Rightarrow> int \<Rightarrow> nat \<Rightarrow> bool \<Rightarrow> GddCtx \<times> bool" where
  "reduce_verts ctx s pos dirty =
     (if pos < length (graph_keys ctx s)
      then let v = graph_keys ctx s ! pos;
               ctx1 = fst (gddVertReduce ctx s v);
               dirty1 = (if snd (gddVertReduce ctx s v) then True else dirty)
           in if list_length (in_edges ctx1 s v) = 0 \<and> list_length (out_edges ctx1 s v) = 0
              then reduce_verts (vert_delete ctx1 s pos) s pos dirty1
              else reduce_verts ctx1 s (Suc pos) dirty1
      else (ctx, dirty))"
  by pat_completeness auto
termination
  by (relation "measure (\<lambda>(ctx, s, pos, dirty). length (graph_keys ctx s) - pos)")
     (auto simp: frame_simps)

text \<open>The loop over the graphs; \<open>GddCtxReduce\<close> never changes which graphs there are.\<close>

fun reduce_graphs :: "GddCtx \<Rightarrow> int list \<Rightarrow> bool \<Rightarrow> GddCtx \<times> bool" where
  "reduce_graphs ctx [] dirty = (ctx, dirty)"
| "reduce_graphs ctx (s # segids) dirty =
     (let (ctx1, dirty1) = reduce_verts ctx s 0 dirty in reduce_graphs ctx1 segids dirty1)"

text \<open>\<open>None\<close> stands for a loop that does not end.\<close>

partial_function (option) GddCtxReduce :: "GddCtx \<Rightarrow> GddCtx option" where
  "GddCtxReduce ctx =
     (case reduce_graphs ctx (map_keys (graphs ctx)) False of
        (ctx1, dirty) \<Rightarrow> if dirty then GddCtxReduce ctx1 else Some ctx1)"

declare GddCtxReduce.simps [code]

definition GddCtxEmpty :: "GddCtx \<Rightarrow> bool" where
  "GddCtxEmpty ctx \<longleftrightarrow> indeg (topstat ctx) = 0"

section \<open>Breaking deadlocks\<close>

fun max_vid_verts :: "(int \<times> GddVert) list \<Rightarrow> int \<Rightarrow> int" where
  "max_vid_verts [] maxvid = maxvid"
| "max_vid_verts (p # ps) maxvid =
     max_vid_verts ps
       (if gddVertGetInDegree (snd p) \<noteq> 0 \<or> gddVertGetOutDegree (snd p) \<noteq> 0
        then max maxvid (vert_id (snd p)) else maxvid)"

fun max_vid_graphs :: "(int \<times> GddGraph) list \<Rightarrow> int \<Rightarrow> int" where
  "max_vid_graphs [] maxvid = maxvid"
| "max_vid_graphs (p # ps) maxvid =
     max_vid_graphs ps (max_vid_verts (map_pairs (verts (snd p))) maxvid)"

definition gddCtxGetMaxVid :: "GddCtx \<Rightarrow> int" where
  "gddCtxGetMaxVid ctx = max_vid_graphs (map_pairs (graphs ctx)) 0"

text \<open>The loop of \<open>gddGraphRemoveVid\<close>: the first vert with the id is unlinked and deleted.\<close>

fun remove_vid_from :: "GddCtx \<Rightarrow> int \<Rightarrow> int \<Rightarrow> nat \<Rightarrow> (int \<times> GddVert) list \<Rightarrow> GddCtx" where
  "remove_vid_from ctx s vid pos [] = ctx"
| "remove_vid_from ctx s vid pos (p # ps) =
     (if vert_id (snd p) \<noteq> vid then remove_vid_from ctx s vid (Suc pos) ps
      else vert_delete (fst (gddVertUnlinkAll ctx s (fst p))) s pos)"

definition gddGraphRemoveVid :: "GddCtx \<Rightarrow> int \<Rightarrow> int \<Rightarrow> GddCtx" where
  "gddGraphRemoveVid ctx s vid =
     (case gddMapGet (graphs ctx) s of
        None \<Rightarrow> ctx
      | Some g \<Rightarrow> remove_vid_from ctx s vid 0 (map_pairs (verts g)))"

fun remove_vid_graphs :: "GddCtx \<Rightarrow> int list \<Rightarrow> int \<Rightarrow> GddCtx" where
  "remove_vid_graphs ctx [] vid = ctx"
| "remove_vid_graphs ctx (s # segids) vid =
     remove_vid_graphs (gddGraphRemoveVid ctx s vid) segids vid"

definition gddCtxRemoveVid :: "GddCtx \<Rightarrow> int \<Rightarrow> GddCtx" where
  "gddCtxRemoveVid ctx vid = remove_vid_graphs ctx (map_keys (graphs ctx)) vid"

partial_function (option) break_loop :: "GddCtx \<Rightarrow> int list \<Rightarrow> (int list \<times> GddCtx) option" where
  "break_loop ctx vids =
     (if GddCtxEmpty ctx then Some (vids, ctx)
      else Option.bind (GddCtxReduce (gddCtxRemoveVid ctx (gddCtxGetMaxVid ctx)))
             (\<lambda>ctx1. break_loop ctx1 (lappend_int vids (gddCtxGetMaxVid ctx))))"

declare break_loop.simps [code]

definition GddCtxBreakDeadLock :: "GddCtx \<Rightarrow> (int list \<times> GddCtx) option" where
  "GddCtxBreakDeadLock ctx = break_loop ctx []"

section \<open>The detection cycle\<close>

text \<open>
  A row of \<open>gp_dist_wait_status()\<close> as \<open>buildWaitGraph\<close> reads it.  The xids are unsigned; passing
  one as an \<open>int\<close> argument converts it to two's complement.
\<close>

record WaitRow =
  row_segid :: int
  waiter_xid :: TransactionId
  holder_xid :: TransactionId
  solidedge :: bool

definition add_wait_row :: "int list \<Rightarrow> GddCtx \<Rightarrow> WaitRow \<Rightarrow> GddCtx" where
  "add_wait_row gxids ctx row =
     (if \<not> list_member_int gxids (sint (waiter_xid row)) \<or>
         \<not> list_member_int gxids (sint (holder_xid row)) then ctx
      else GddCtxAddEdge ctx (row_segid row) (sint (waiter_xid row)) (sint (holder_xid row))
             (solidedge row))"

fun buildWaitGraph :: "int list \<Rightarrow> GddCtx \<Rightarrow> WaitRow list \<Rightarrow> GddCtx" where
  "buildWaitGraph gxids ctx [] = ctx"
| "buildWaitGraph gxids ctx (row # rows) = buildWaitGraph gxids (add_wait_row gxids ctx row) rows"

text \<open>
  One detection cycle: the transactions to cancel, in order.  \<open>gxids\<close> is the result of
  \<open>ListAllGxid()\<close>, \<open>rows\<close> that of the query; \<open>None\<close> is a cycle that does not end.
\<close>

definition doDeadLockCheck :: "int list \<Rightarrow> WaitRow list \<Rightarrow> int list option" where
  "doDeadLockCheck gxids rows =
     (let ctx = buildWaitGraph gxids GddCtxNew rows
      in case GddCtxReduce ctx of
           None \<Rightarrow> None
         | Some ctx1 \<Rightarrow>
             if \<not> GddCtxEmpty ctx1 then map_option fst (GddCtxBreakDeadLock ctx1) else Some [])"

end
