(* ===== verification/Gdd_Rel.thy ===== *)
theory Gdd_Rel
  imports Gdd
begin

text \<open>
  The relation between a detector context and the set of wait-for edges it stands for, and
  that every operation on one edge acts on that set: adding an edge inserts it, unlinking an
  edge removes it, and the degree counters always count the set.
\<close>

section \<open>The abstract state\<close>

text \<open>An edge of the global graph: the segment it lives on, and the edge.\<close>

type_synonym gedge = "int \<times> GddEdge"

definition out_of :: "gedge set \<Rightarrow> int \<Rightarrow> gedge set" where
  "out_of E v = {p \<in> E. from_v (snd p) = v}"

definition into :: "gedge set \<Rightarrow> int \<Rightarrow> gedge set" where
  "into E v = {p \<in> E. to_v (snd p) = v}"

lemma into_insert:
  "into {} v = {}" "into (insert p E) v = (if to_v (snd p) = v then insert p (into E v) else into E v)"
  by (auto simp: into_def)

lemma out_of_insert:
  "out_of {} v = {}"
  "out_of (insert p E) v = (if from_v (snd p) = v then insert p (out_of E v) else out_of E v)"
  by (auto simp: out_of_def)

definition maps_ok :: "GddCtx \<Rightarrow> bool" where
  "maps_ok ctx \<longleftrightarrow> map_ok (globals ctx) \<and> map_ok (graphs ctx) \<and>
     (\<forall>s g. gddMapGet (graphs ctx) s = Some g \<longrightarrow> map_ok (verts g))"

definition vert_ok :: "GddCtx \<Rightarrow> gedge set \<Rightarrow> int \<Rightarrow> int \<Rightarrow> GddVert \<Rightarrow> bool" where
  "vert_ok ctx E s v vt \<longleftrightarrow>
     vert_id vt = v \<and> vert_global vt = v \<and> gddMapGet (globals ctx) v \<noteq> None \<and>
     distinct (map edge_addr (edgesIn vt)) \<and> distinct (map edge_addr (edgesOut vt)) \<and>
     set (edgesIn vt) = {e. (s, e) \<in> E \<and> to_v e = v} \<and>
     set (edgesOut vt) = {e. (s, e) \<in> E \<and> from_v e = v}"

definition stat_ok :: "gedge set \<Rightarrow> int \<Rightarrow> GddStat \<Rightarrow> bool" where
  "stat_ok E v st \<longleftrightarrow> indeg st = int (card (into E v)) \<and> outdeg st = int (card (out_of E v))"

text \<open>
  \<open>gdd_rel ctx E\<close>: the context represents the edges \<open>E\<close>.  Both end points of every edge have a
  vert on the edge's segment, each vert lists exactly its edges, and all counters are exact.
\<close>

definition gdd_rel :: "GddCtx \<Rightarrow> gedge set \<Rightarrow> bool" where
  "gdd_rel ctx E \<longleftrightarrow>
     finite E \<and> inj_on (edge_addr \<circ> snd) E \<and> (\<forall>p \<in> E. edge_addr (snd p) < next_addr ctx) \<and>
     maps_ok ctx \<and>
     (\<forall>s v vt. vert_of ctx s v = Some vt \<longrightarrow> vert_ok ctx E s v vt) \<and>
     (\<forall>p \<in> E. vert_of ctx (fst p) (from_v (snd p)) \<noteq> None \<and>
              vert_of ctx (fst p) (to_v (snd p)) \<noteq> None) \<and>
     indeg (topstat ctx) = int (card E) \<and> outdeg (topstat ctx) = int (card E) \<and>
     (\<forall>v st. gddMapGet (globals ctx) v = Some st \<longrightarrow> stat_ok E v st)"

section \<open>Accessors after writes\<close>

lemma vert_of_vert_write [acc_simps]:
  "vert_of (vert_write ctx s v f) s' v' =
     (if s' = s \<and> v' = v then map_option f (vert_of ctx s' v') else vert_of ctx s' v')"
  by (auto simp: vert_of_def vert_write_def gddMapGet_Write split: option.splits)

lemma vert_of_global_write [acc_simps]: "vert_of (global_write ctx s v f) s' v' = vert_of ctx s' v'"
  by (simp add: global_write_def vert_of_def split: option.split)

lemma vert_of_update [acc_simps]:
  "vert_of (ctx\<lparr>topstat := t\<rparr>) s v = vert_of ctx s v"
  "vert_of (ctx\<lparr>globals := m\<rparr>) s v = vert_of ctx s v"
  "vert_of (ctx\<lparr>next_addr := n\<rparr>) s v = vert_of ctx s v"
  by (simp_all add: vert_of_def)

lemma vert_write_fields [acc_simps]:
  "topstat (vert_write ctx s v f) = topstat ctx"
  "globals (vert_write ctx s v f) = globals ctx"
  "next_addr (vert_write ctx s v f) = next_addr ctx"
  by (simp_all add: vert_write_def)

lemma global_write_fields [acc_simps]:
  "topstat (global_write ctx s v f) = topstat ctx"
  "graphs (global_write ctx s v f) = graphs ctx"
  "next_addr (global_write ctx s v f) = next_addr ctx"
  by (simp_all add: global_write_def split: option.split)

lemma globals_global_write [acc_simps]:
  "gddMapGet (globals (global_write ctx s v f)) k =
     (if map_option vert_global (vert_of ctx s v) = Some k
      then map_option f (gddMapGet (globals ctx) k) else gddMapGet (globals ctx) k)"
  by (auto simp: global_write_def gddMapGet_Write split: option.splits)

lemma map_keys_graphs_vert_write [frame_simps]:
  "map_keys (graphs (vert_write ctx s v f)) = map_keys (graphs ctx)"
  by (simp add: vert_write_def)

lemma maps_ok_writes [simp]:
  "maps_ok (vert_write ctx s v f) = maps_ok ctx"
  "maps_ok (global_write ctx s v h) = maps_ok ctx"
  "maps_ok (ctx\<lparr>topstat := t\<rparr>) = maps_ok ctx"
  "maps_ok (ctx\<lparr>next_addr := n\<rparr>) = maps_ok ctx"
  by (auto simp: maps_ok_def vert_write_def global_write_def gddMapGet_Write split: option.splits)

section \<open>Unlinking one edge\<close>

text \<open>An iterator that stands on \<open>e\<close> in the list \<open>xs\<close>, or no iterator.\<close>

fun iter_at :: "GddListIter option \<Rightarrow> GddEdge \<Rightarrow> GddEdge list \<Rightarrow> bool" where
  "iter_at None e xs = True"
| "iter_at (Some it) e xs =
     (iter_cells it \<noteq> [] \<and> hd (iter_cells it) = e \<and> gdd_list_iter_get_list it = xs)"

lemma iter_delete_filter:
  assumes "iter_at i e xs" "distinct (map edge_addr xs)"
  shows "(case i of Some it \<Rightarrow> gdd_list_iter_get_list (gdd_list_iter_delete it)
          | None \<Rightarrow> list_delete_ptr edge_addr xs (edge_addr e)) =
         filter (\<lambda>x. edge_addr x \<noteq> edge_addr e) xs"
proof (cases i)
  case None
  with assms show ?thesis by (simp add: list_delete_ptr_eq)
next
  case (Some it)
  with assms(1) obtain cs where it: "iter_cells it = e # cs" "xs = iter_prevs it @ e # cs"
    by (cases "iter_cells it") (auto simp: gdd_list_iter_get_list_def)
  have "filter (\<lambda>x. edge_addr x \<noteq> edge_addr e) (iter_prevs it) = iter_prevs it"
    "filter (\<lambda>x. edge_addr x \<noteq> edge_addr e) cs = cs"
    using assms(2) it(2) by (auto simp: filter_id_conv image_iff)
  with Some it show ?thesis
    by (simp add: gdd_list_iter_get_list_def gdd_list_iter_delete_def)
qed

definition vert_without :: "int \<Rightarrow> gedge \<Rightarrow> GddVert \<Rightarrow> GddVert" where
  "vert_without s p vt = vt\<lparr>edgesOut := filter (\<lambda>x. (s, x) \<noteq> p) (edgesOut vt),
                            edgesIn := filter (\<lambda>x. (s, x) \<noteq> p) (edgesIn vt)\<rparr>"

definition stat_without :: "GddEdge \<Rightarrow> int \<Rightarrow> GddStat \<Rightarrow> GddStat" where
  "stat_without e v st = st\<lparr>indeg := indeg st - (if to_v e = v then 1 else 0),
                            outdeg := outdeg st - (if from_v e = v then 1 else 0)\<rparr>"

lemma gdd_rel_vert: "gdd_rel ctx E \<Longrightarrow> vert_of ctx s v = Some vt \<Longrightarrow> vert_ok ctx E s v vt"
  by (simp add: gdd_rel_def)

lemma gdd_rel_ends:
  assumes "gdd_rel ctx E" "(s, e) \<in> E"
  obtains vf vt where "vert_of ctx s (from_v e) = Some vf" "vert_of ctx s (to_v e) = Some vt"
  using assms by (fastforce simp: gdd_rel_def)

lemma filter_addr_eq:
  assumes "gdd_rel ctx E" "(s, e) \<in> E" "\<forall>x \<in> set xs. (s, x) \<in> E"
  shows "filter (\<lambda>x. edge_addr x \<noteq> edge_addr e) xs = filter (\<lambda>x. (s, x) \<noteq> (s, e)) xs"
proof (rule filter_cong [OF refl])
  fix x assume "x \<in> set xs"
  with assms have "edge_addr x = edge_addr e \<longrightarrow> (s, x) = (s, e)"
    unfolding gdd_rel_def inj_on_def by (metis comp_apply snd_conv)
  then show "(edge_addr x \<noteq> edge_addr e) = ((s, x) \<noteq> (s, e))" by auto
qed

text \<open>The state after an unlink, read off vert by vert and counter by counter.\<close>

lemma unlink_fields [acc_simps]:
  "indeg (topstat (gddEdgeUnlink ctx s e fi ti)) = indeg (topstat ctx) - 1"
  "outdeg (topstat (gddEdgeUnlink ctx s e fi ti)) = outdeg (topstat ctx) - 1"
  "next_addr (gddEdgeUnlink ctx s e fi ti) = next_addr ctx"
  "maps_ok (gddEdgeUnlink ctx s e fi ti) = maps_ok ctx"
  by (simp_all add: gddEdgeUnlink_def gddEdgeUnlinkFrom_def gddEdgeUnlinkTo_def Let_def acc_simps)

lemma unlink_globals:
  assumes "gdd_rel ctx E" "(s, e) \<in> E"
  shows "gddMapGet (globals (gddEdgeUnlink ctx s e fi ti)) v =
         map_option (stat_without e v) (gddMapGet (globals ctx) v)"
proof -
  obtain vf vt where v: "vert_of ctx s (from_v e) = Some vf" "vert_of ctx s (to_v e) = Some vt"
    using gdd_rel_ends [OF assms] .
  have "vert_global vf = from_v e" "vert_global vt = to_v e"
    using gdd_rel_vert [OF assms(1)] v by (auto simp: vert_ok_def)
  with v show ?thesis
    by (cases "gddMapGet (globals ctx) v")
       (auto simp: gddEdgeUnlink_def gddEdgeUnlinkFrom_def gddEdgeUnlinkTo_def Let_def acc_simps
         stat_without_def)
qed

lemma vert_without_other:
  assumes "vert_ok ctx E s v vt" "s = s' \<longrightarrow> v \<noteq> from_v e \<and> v \<noteq> to_v e"
  shows "vert_without s (s', e) vt = vt"
proof -
  have "\<forall>x \<in> set (edgesIn vt). (s, x) \<noteq> (s', e)" "\<forall>x \<in> set (edgesOut vt). (s, x) \<noteq> (s', e)"
    using assms by (auto simp: vert_ok_def)
  then have "filter (\<lambda>x. (s, x) \<noteq> (s', e)) (edgesIn vt) = edgesIn vt"
    "filter (\<lambda>x. (s, x) \<noteq> (s', e)) (edgesOut vt) = edgesOut vt"
    by (simp_all add: filter_id_conv)
  then show ?thesis by (simp add: vert_without_def)
qed

lemma unlink_vert:
  assumes rel: "gdd_rel ctx E" and e: "(s, e) \<in> E"
    and fi: "iter_at fi e (out_edges ctx s (from_v e))"
    and ti: "iter_at ti e (in_edges ctx s (to_v e))"
  shows "vert_of (gddEdgeUnlink ctx s e fi ti) s' v = map_option (vert_without s' (s, e)) (vert_of ctx s' v)"
proof -
  obtain vf vt where v: "vert_of ctx s (from_v e) = Some vf" "vert_of ctx s (to_v e) = Some vt"
    using gdd_rel_ends [OF rel e] .
  have ok: "vert_ok ctx E s (from_v e) vf" "vert_ok ctx E s (to_v e) vt"
    using gdd_rel_vert [OF rel] v by auto
  have out: "(case fi of Some it \<Rightarrow> gdd_list_iter_get_list (gdd_list_iter_delete it)
      | None \<Rightarrow> list_delete_ptr edge_addr (edgesOut vf) (edge_addr e)) =
      filter (\<lambda>x. (s, x) \<noteq> (s, e)) (edgesOut vf)"
    using iter_delete_filter [of fi e "edgesOut vf"] fi v ok(1) filter_addr_eq [OF rel e, of "edgesOut vf"]
    by (auto simp: out_edges_def vert_ok_def)
  have inn: "(case ti of Some it \<Rightarrow> gdd_list_iter_get_list (gdd_list_iter_delete it)
      | None \<Rightarrow> list_delete_ptr edge_addr (edgesIn vt) (edge_addr e)) =
      filter (\<lambda>x. (s, x) \<noteq> (s, e)) (edgesIn vt)"
    using iter_delete_filter [of ti e "edgesIn vt"] ti v ok(2) filter_addr_eq [OF rel e, of "edgesIn vt"]
    by (auto simp: in_edges_def vert_ok_def)
  have keepo: "filter (\<lambda>x. (s, x) \<noteq> (s, e)) (edgesOut vt) = edgesOut vt" if "to_v e \<noteq> from_v e"
    using ok(2) that by (auto simp: filter_id_conv vert_ok_def)
  have keepi: "filter (\<lambda>x. (s, x) \<noteq> (s, e)) (edgesIn vf) = edgesIn vf" if "to_v e \<noteq> from_v e"
    using ok(1) that by (auto simp: filter_id_conv vert_ok_def)
  show ?thesis
  proof (cases "s' = s \<and> (v = from_v e \<or> v = to_v e)")
    case True
    then show ?thesis
      using v out inn keepo keepi
      by (cases "to_v e = from_v e")
         (auto simp: gddEdgeUnlink_def gddEdgeUnlinkFrom_def gddEdgeUnlinkTo_def Let_def acc_simps
           vert_without_def cong: option.case_cong)
  next
    case False
    then have "vert_of (gddEdgeUnlink ctx s e fi ti) s' v = vert_of ctx s' v"
      by (auto simp: gddEdgeUnlink_def gddEdgeUnlinkFrom_def gddEdgeUnlinkTo_def Let_def acc_simps)
    then show ?thesis
      using vert_without_other [OF gdd_rel_vert [OF rel], of s' v _ s e] False
      by (cases "vert_of ctx s' v") auto
  qed
qed

lemma card_Diff_one:
  "finite E \<Longrightarrow> p \<in> E \<Longrightarrow>
     int (card {q \<in> E - {p}. P q}) = int (card {q \<in> E. P q}) - (if P p then 1 else 0)"
proof (cases "P p")
  assume fin: "finite E" and p: "p \<in> E"
  have eq: "{q \<in> E - {p}. P q} = {q \<in> E. P q} - {p}" by auto
  case True
  then have "card {q \<in> E. P q} = Suc (card ({q \<in> E. P q} - {p}))"
    using fin p by (intro card.remove) auto
  with True show ?thesis unfolding eq by simp
next
  case False
  then have "{q \<in> E - {p}. P q} = {q \<in> E. P q}" by auto
  with False show ?thesis by simp
qed

lemma gdd_rel_unlink:
  assumes rel: "gdd_rel ctx E" and e: "(s, e) \<in> E"
    and fi: "iter_at fi e (out_edges ctx s (from_v e))"
    and ti: "iter_at ti e (in_edges ctx s (to_v e))"
  shows "gdd_rel (gddEdgeUnlink ctx s e fi ti) (E - {(s, e)})"
proof -
  let ?c = "gddEdgeUnlink ctx s e fi ti"
  have fin: "finite E" using rel by (simp add: gdd_rel_def)
  note vert = unlink_vert [OF assms] and glob = unlink_globals [OF rel e]
  have "vert_ok ?c (E - {(s, e)}) s' v vt" if "vert_of ?c s' v = Some vt" for s' v vt
  proof -
    from that obtain vt0 where "vert_of ctx s' v = Some vt0" "vt = vert_without s' (s, e) vt0"
      by (auto simp: vert)
    with gdd_rel_vert [OF rel] show ?thesis
      by (auto simp: vert_ok_def vert_without_def glob distinct_map inj_on_def)
  qed
  moreover have "stat_ok (E - {(s, e)}) v st" if "gddMapGet (globals ?c) v = Some st" for v st
  proof -
    from that obtain st0 where "gddMapGet (globals ctx) v = Some st0" "st = stat_without e v st0"
      by (auto simp: glob)
    with rel show ?thesis
      using card_Diff_one [OF fin e, of "\<lambda>p. to_v (snd p) = v"]
        card_Diff_one [OF fin e, of "\<lambda>p. from_v (snd p) = v"]
      by (auto simp: gdd_rel_def stat_ok_def stat_without_def into_def out_of_def)
  qed
  moreover have "int (card (E - {(s, e)})) = int (card E) - 1"
    using card.remove [OF fin e] by simp
  moreover have "inj_on (edge_addr \<circ> snd) (E - {(s, e)})"
    using rel by (auto simp: gdd_rel_def inj_on_diff)
  moreover have "vert_of ?c (fst p) (from_v (snd p)) \<noteq> None \<and> vert_of ?c (fst p) (to_v (snd p)) \<noteq> None"
    if "p \<in> E" for p using that rel by (auto simp: gdd_rel_def vert)
  ultimately show ?thesis using rel
    unfolding gdd_rel_def by (simp add: acc_simps)
qed

section \<open>The edge loops\<close>

lemma gdd_rel_in_edges:
  "gdd_rel ctx E \<Longrightarrow> e \<in> set (in_edges ctx s v) \<longleftrightarrow> vert_of ctx s v \<noteq> None \<and> (s, e) \<in> E \<and> to_v e = v"
  using gdd_rel_vert [of ctx E s v]
  by (cases "vert_of ctx s v") (auto simp: in_edges_def vert_ok_def)

lemma gdd_rel_out_edges:
  "gdd_rel ctx E \<Longrightarrow> e \<in> set (out_edges ctx s v) \<longleftrightarrow> vert_of ctx s v \<noteq> None \<and> (s, e) \<in> E \<and> from_v e = v"
  using gdd_rel_vert [of ctx E s v]
  by (cases "vert_of ctx s v") (auto simp: out_edges_def vert_ok_def)

lemma in_edges_mem:
  assumes "gdd_rel ctx E"
  shows "set (in_edges ctx s v) = {e. (s, e) \<in> E \<and> to_v e = v}"
    and "distinct (in_edges ctx s v)"
proof -
  show "set (in_edges ctx s v) = {e. (s, e) \<in> E \<and> to_v e = v}"
    using assms gdd_rel_in_edges [OF assms] by (fastforce simp: gdd_rel_def)
  show "distinct (in_edges ctx s v)"
    using gdd_rel_vert [OF assms, of s v]
    by (auto simp: in_edges_def vert_ok_def distinct_map split: option.splits)
qed

lemma out_edges_mem:
  assumes "gdd_rel ctx E"
  shows "set (out_edges ctx s v) = {e. (s, e) \<in> E \<and> from_v e = v}"
    and "distinct (out_edges ctx s v)"
proof -
  show "set (out_edges ctx s v) = {e. (s, e) \<in> E \<and> from_v e = v}"
    using assms gdd_rel_out_edges [OF assms] by (fastforce simp: gdd_rel_def)
  show "distinct (out_edges ctx s v)"
    using gdd_rel_vert [OF assms, of s v]
    by (auto simp: out_edges_def vert_ok_def distinct_map split: option.splits)
qed

lemma in_edges_unlink:
  assumes "gdd_rel ctx E" "(s, e) \<in> E"
    "iter_at fi e (out_edges ctx s (from_v e))" "iter_at ti e (in_edges ctx s (to_v e))"
  shows "in_edges (gddEdgeUnlink ctx s e fi ti) s v = filter (\<lambda>x. x \<noteq> e) (in_edges ctx s v)"
  using unlink_vert [OF assms, of s v]
  by (auto simp: in_edges_def vert_without_def split: option.splits)

lemma out_edges_unlink:
  assumes "gdd_rel ctx E" "(s, e) \<in> E"
    "iter_at fi e (out_edges ctx s (from_v e))" "iter_at ti e (in_edges ctx s (to_v e))"
  shows "out_edges (gddEdgeUnlink ctx s e fi ti) s v = filter (\<lambda>x. x \<noteq> e) (out_edges ctx s v)"
  using unlink_vert [OF assms, of s v]
  by (auto simp: out_edges_def vert_without_def split: option.splits)

lemma filter_neq_distinct: "distinct (xs @ e # ys) \<Longrightarrow> filter (\<lambda>x. x \<noteq> e) (xs @ e # ys) = xs @ ys"
proof -
  assume d: "distinct (xs @ e # ys)"
  have "filter (\<lambda>x. x \<noteq> e) xs = xs" "filter (\<lambda>x. x \<noteq> e) ys = ys"
    using d by (auto intro!: filter_True)
  then show ?thesis by simp
qed

text \<open>Each loop, from any position of the iteration.\<close>

lemma gdd_rel_unlink_dotted:
  "gdd_rel ctx E \<Longrightarrow> in_edges ctx s v = prevs @ cells \<Longrightarrow>
   gdd_rel (fst (unlink_dotted_in_edges ctx s prevs cells d))
     (E - {p. fst p = s \<and> snd p \<in> set cells \<and> \<not> solid (snd p)}) \<and>
   (snd (unlink_dotted_in_edges ctx s prevs cells d) \<longleftrightarrow> d \<or> (\<exists>e \<in> set cells. \<not> solid e))"
proof (induction ctx s prevs cells d arbitrary: E rule: unlink_dotted_in_edges.induct)
  case (2 ctx s prevs e cells d)
  show ?case
  proof (cases "solid e")
    case True
    have "{p. fst p = s \<and> snd p \<in> set (e # cells) \<and> \<not> solid (snd p)} =
          {p. fst p = s \<and> snd p \<in> set cells \<and> \<not> solid (snd p)}" using True by auto
    with True 2 show ?thesis by auto
  next
    case False
    let ?it = "Some \<lparr>iter_prevs = prevs, iter_cells = e # cells\<rparr>"
    let ?c = "gddEdgeUnlink ctx s e None ?it"
    have e: "(s, e) \<in> E" "to_v e = v"
      using in_edges_mem(1) [OF "2.prems"(1), of s v] "2.prems"(2) by auto
    have it: "iter_at None e (out_edges ctx s (from_v e))" "iter_at ?it e (in_edges ctx s (to_v e))"
      using "2.prems"(2) e(2) by (simp_all add: gdd_list_iter_get_list_def)
    have "in_edges ?c s v = prevs @ cells"
      using in_edges_unlink [OF "2.prems"(1) e(1) it, of v] in_edges_mem(2) [OF "2.prems"(1), of s v]
        "2.prems"(2) filter_neq_distinct by metis
    moreover have "E - {(s, e)} - {p. fst p = s \<and> snd p \<in> set cells \<and> \<not> solid (snd p)} =
        E - {p. fst p = s \<and> snd p \<in> set (e # cells) \<and> \<not> solid (snd p)}" using False by auto
    ultimately show ?thesis
      using "2.IH"(2) [OF False gdd_rel_unlink [OF "2.prems"(1) e(1) it]] False by simp
  qed
qed simp

lemma gdd_rel_unlink_in:
  "gdd_rel ctx E \<Longrightarrow> in_edges ctx s v = prevs @ cells \<Longrightarrow>
   gdd_rel (fst (unlink_in_edges ctx s prevs cells d)) (E - {p. fst p = s \<and> snd p \<in> set cells}) \<and>
   (snd (unlink_in_edges ctx s prevs cells d) \<longleftrightarrow> d \<or> cells \<noteq> [])"
proof (induction ctx s prevs cells d arbitrary: E rule: unlink_in_edges.induct)
  case (2 ctx s prevs e cells d)
  let ?it = "Some \<lparr>iter_prevs = prevs, iter_cells = e # cells\<rparr>"
  have e: "(s, e) \<in> E" "to_v e = v"
    using in_edges_mem(1) [OF "2.prems"(1), of s v] "2.prems"(2) by auto
  have it: "iter_at None e (out_edges ctx s (from_v e))" "iter_at ?it e (in_edges ctx s (to_v e))"
    using "2.prems"(2) e(2) by (simp_all add: gdd_list_iter_get_list_def)
  have "in_edges (gddEdgeUnlink ctx s e None ?it) s v = prevs @ cells"
    using in_edges_unlink [OF "2.prems"(1) e(1) it, of v] in_edges_mem(2) [OF "2.prems"(1), of s v]
      "2.prems"(2) filter_neq_distinct by metis
  moreover have "E - {(s, e)} - {p. fst p = s \<and> snd p \<in> set cells} =
      E - {p. fst p = s \<and> snd p \<in> set (e # cells)}" by auto
  ultimately show ?case
    using "2.IH" [OF gdd_rel_unlink [OF "2.prems"(1) e(1) it]] by simp
qed simp

lemma gdd_rel_unlink_out:
  "gdd_rel ctx E \<Longrightarrow> out_edges ctx s v = prevs @ cells \<Longrightarrow>
   gdd_rel (fst (unlink_out_edges ctx s prevs cells d)) (E - {p. fst p = s \<and> snd p \<in> set cells}) \<and>
   (snd (unlink_out_edges ctx s prevs cells d) \<longleftrightarrow> d \<or> cells \<noteq> [])"
proof (induction ctx s prevs cells d arbitrary: E rule: unlink_out_edges.induct)
  case (2 ctx s prevs e cells d)
  let ?it = "Some \<lparr>iter_prevs = prevs, iter_cells = e # cells\<rparr>"
  have e: "(s, e) \<in> E" "from_v e = v"
    using out_edges_mem(1) [OF "2.prems"(1), of s v] "2.prems"(2) by auto
  have it: "iter_at ?it e (out_edges ctx s (from_v e))" "iter_at None e (in_edges ctx s (to_v e))"
    using "2.prems"(2) e(2) by (simp_all add: gdd_list_iter_get_list_def)
  have "out_edges (gddEdgeUnlink ctx s e ?it None) s v = prevs @ cells"
    using out_edges_unlink [OF "2.prems"(1) e(1) it, of v] out_edges_mem(2) [OF "2.prems"(1), of s v]
      "2.prems"(2) filter_neq_distinct by metis
  moreover have "E - {(s, e)} - {p. fst p = s \<and> snd p \<in> set cells} =
      E - {p. fst p = s \<and> snd p \<in> set (e # cells)}" by auto
  ultimately show ?case
    using "2.IH" [OF gdd_rel_unlink [OF "2.prems"(1) e(1) it]] by simp
qed simp

text \<open>The edges of vertex \<open>v\<close> on segment \<open>s\<close>.\<close>

definition edges_at :: "gedge set \<Rightarrow> int \<Rightarrow> int \<Rightarrow> gedge set" where
  "edges_at E s v = {p \<in> E. fst p = s \<and> (from_v (snd p) = v \<or> to_v (snd p) = v)}"

lemma gdd_rel_UnlinkAll:
  assumes "gdd_rel ctx E"
  shows "gdd_rel (fst (gddVertUnlinkAll ctx s v)) (E - edges_at E s v)"
    and "snd (gddVertUnlinkAll ctx s v) \<longleftrightarrow> edges_at E s v \<noteq> {}"
proof -
  let ?r1 = "unlink_in_edges ctx s [] (in_edges ctx s v) False"
  let ?E1 = "E - {p. fst p = s \<and> snd p \<in> set (in_edges ctx s v)}"
  have 1: "gdd_rel (fst ?r1) ?E1" "snd ?r1 \<longleftrightarrow> in_edges ctx s v \<noteq> []"
    using gdd_rel_unlink_in [OF assms, of s v "[]"] by auto
  let ?out = "out_edges (fst ?r1) s v"
  have 2: "gdd_rel (fst (unlink_out_edges (fst ?r1) s [] ?out d)) (?E1 - {p. fst p = s \<and> snd p \<in> set ?out})"
    "snd (unlink_out_edges (fst ?r1) s [] ?out d) \<longleftrightarrow> d \<or> ?out \<noteq> []" for d
    using gdd_rel_unlink_out [OF 1(1), of s v "[]" ?out d] by auto
  have inn: "set (in_edges ctx s v) = {e. (s, e) \<in> E \<and> to_v e = v}"
    by (rule in_edges_mem(1) [OF assms])
  have out: "set ?out = {e. (s, e) \<in> E \<and> to_v e \<noteq> v \<and> from_v e = v}"
    unfolding out_edges_mem(1) [OF 1(1)] inn by auto
  have E: "?E1 - {p. fst p = s \<and> snd p \<in> set ?out} = E - edges_at E s v"
    unfolding out inn edges_at_def by auto
  have "in_edges ctx s v \<noteq> [] \<or> ?out \<noteq> [] \<longleftrightarrow> set (in_edges ctx s v) \<noteq> {} \<or> set ?out \<noteq> {}" by simp
  also have "\<dots> \<longleftrightarrow> edges_at E s v \<noteq> {}"
    unfolding out inn edges_at_def by auto
  finally have D: "in_edges ctx s v \<noteq> [] \<or> ?out \<noteq> [] \<longleftrightarrow> edges_at E s v \<noteq> {}" .
  show "gdd_rel (fst (gddVertUnlinkAll ctx s v)) (E - edges_at E s v)"
    using 2(1) unfolding E by (simp add: gddVertUnlinkAll_def case_prod_unfold Let_def)
  show "snd (gddVertUnlinkAll ctx s v) \<longleftrightarrow> edges_at E s v \<noteq> {}"
    using 2(2) 1(2) D by (simp add: gddVertUnlinkAll_def case_prod_unfold Let_def)
qed

section \<open>Reducing one vertex\<close>

text \<open>What \<open>gddVertReduce\<close> unlinks at vertex \<open>v\<close> of segment \<open>s\<close> when the edges are \<open>E\<close>.\<close>

definition reducible :: "gedge set \<Rightarrow> int \<Rightarrow> int \<Rightarrow> gedge set" where
  "reducible E s v =
     (if into E v = {} \<or> out_of E v = {} then edges_at E s v
      else if {p \<in> E. fst p = s \<and> from_v (snd p) = v} = {}
      then {p \<in> E. fst p = s \<and> to_v (snd p) = v \<and> \<not> solid (snd p)}
      else {})"

lemma vert_of_keys: "vert_of ctx s v \<noteq> None \<longleftrightarrow> v \<in> set (graph_keys ctx s)"
  using gddMapGet_None_iff [of "verts (the (gddMapGet (graphs ctx) s))" v]
  by (cases "gddMapGet (graphs ctx) s") (auto simp: vert_of_def graph_keys_def)

lemma no_edges_without_vert:
  "gdd_rel ctx E \<Longrightarrow> vert_of ctx s v = None \<Longrightarrow> edges_at E s v = {}"
  by (fastforce simp: gdd_rel_def edges_at_def)

lemma reducible_subset: "reducible E s v \<subseteq> edges_at E s v"
  by (auto simp: reducible_def edges_at_def)

lemma gdd_rel_finite: "gdd_rel ctx E \<Longrightarrow> finite E"
  by (simp add: gdd_rel_def)

lemma gdd_rel_global:
  assumes rel: "gdd_rel ctx E" and v: "vert_of ctx s v = Some vt"
  obtains st where "gddMapGet (globals ctx) (vert_global vt) = Some st"
    "indeg st = 0 \<longleftrightarrow> into E v = {}" "outdeg st = 0 \<longleftrightarrow> out_of E v = {}"
proof -
  have ok: "vert_ok ctx E s v vt" using gdd_rel_vert [OF rel v] .
  then obtain st where st: "gddMapGet (globals ctx) v = Some st" by (auto simp: vert_ok_def)
  then have "stat_ok E v st" using rel by (simp add: gdd_rel_def)
  moreover have "finite (into E v)" "finite (out_of E v)"
    using gdd_rel_finite [OF rel] by (simp_all add: into_def out_of_def)
  ultimately show ?thesis using that [of st] st ok by (simp add: stat_ok_def vert_ok_def)
qed

lemma gdd_rel_VertReduce:
  assumes rel: "gdd_rel ctx E"
  shows "gdd_rel (fst (gddVertReduce ctx s v)) (E - reducible E s v)"
    and "snd (gddVertReduce ctx s v) \<longleftrightarrow> reducible E s v \<noteq> {}"
proof -
  have "gdd_rel (fst (gddVertReduce ctx s v)) (E - reducible E s v) \<and>
        (snd (gddVertReduce ctx s v) \<longleftrightarrow> reducible E s v \<noteq> {})"
  proof (cases "vert_of ctx s v")
    case None
    then show ?thesis
      using rel no_edges_without_vert [OF rel None] reducible_subset [of E s v]
      by (simp add: gddVertReduce_def)
  next
    case (Some vt)
    obtain st where st: "gddMapGet (globals ctx) (vert_global vt) = Some st"
      "indeg st = 0 \<longleftrightarrow> into E v = {}" "outdeg st = 0 \<longleftrightarrow> out_of E v = {}"
      using gdd_rel_global [OF rel Some] .
    have ine: "edgesIn vt = in_edges ctx s v" "edgesOut vt = out_edges ctx s v"
      using Some by (simp_all add: in_edges_def out_edges_def)
    have outd: "gddVertGetOutDegree vt = 0 \<longleftrightarrow> {p \<in> E. fst p = s \<and> from_v (snd p) = v} = {}"
      using out_edges_mem(1) [OF rel, of s v] unfolding gddVertGetOutDegree_def ine
      by (auto simp flip: set_empty)
    let ?D = "{p. fst p = s \<and> snd p \<in> set (in_edges ctx s v) \<and> \<not> solid (snd p)}"
    have D: "?D = {p \<in> E. fst p = s \<and> to_v (snd p) = v \<and> \<not> solid (snd p)}"
      unfolding in_edges_mem(1) [OF rel] by auto
    have D': "(\<exists>e \<in> set (in_edges ctx s v). \<not> solid e) \<longleftrightarrow> ?D \<noteq> {}" by auto
    show ?thesis
    proof (cases "into E v = {} \<or> out_of E v = {}")
      case True
      then show ?thesis using gdd_rel_UnlinkAll [OF rel, of s v] Some st
        by (simp add: gddVertReduce_def reducible_def)
    next
      case False
      note dot = gdd_rel_unlink_dotted [OF rel, of s v "[]" "in_edges ctx s v" False]
      show ?thesis
        using False Some st outd dot rel unfolding reducible_def D [symmetric]
        by (auto simp: gddVertReduce_def ine D')
    qed
  qed
  then show "gdd_rel (fst (gddVertReduce ctx s v)) (E - reducible E s v)"
    "snd (gddVertReduce ctx s v) \<longleftrightarrow> reducible E s v \<noteq> {}" by auto
qed

section \<open>Deleting a vertex without edges\<close>

lemma graph_keys_distinct: "gdd_rel ctx E \<Longrightarrow> distinct (graph_keys ctx s)"
  by (auto simp: gdd_rel_def maps_ok_def map_ok_def graph_keys_def split: option.splits)

lemma vert_of_vert_delete:
  assumes "maps_ok ctx" "pos < length (graph_keys ctx s)"
  shows "vert_of (vert_delete ctx s pos) s' v =
     (if s' = s \<and> v = graph_keys ctx s ! pos then None else vert_of ctx s' v)"
  using assms
  by (auto simp: vert_of_def vert_delete_def graph_keys_def gddMapGet_Write maps_ok_def map_keys_def
      gddMapGet_iter_delete split: option.splits)

lemma maps_ok_vert_delete:
  "maps_ok ctx \<Longrightarrow> pos < length (graph_keys ctx s) \<Longrightarrow> maps_ok (vert_delete ctx s pos)"
  by (auto simp: maps_ok_def vert_delete_def graph_keys_def gddMapGet_Write map_keys_def
      intro!: map_ok_iter_delete split: option.splits)

lemma graph_keys_vert_delete:
  assumes "pos < length (graph_keys ctx s)"
  shows "graph_keys (vert_delete ctx s pos) s' =
     (if s' = s then swap_remove (graph_keys ctx s) pos else graph_keys ctx s')"
  using assms
  by (auto simp: vert_delete_def graph_keys_def gddMapGet_Write map_keys_iter_delete map_keys_def
      gdd_map_iter_delete_def map_swap_remove split: option.splits)

lemma vert_delete_fields [acc_simps]:
  "topstat (vert_delete ctx s pos) = topstat ctx"
  "globals (vert_delete ctx s pos) = globals ctx"
  "next_addr (vert_delete ctx s pos) = next_addr ctx"
  "map_keys (graphs (vert_delete ctx s pos)) = map_keys (graphs ctx)"
  by (simp_all add: vert_delete_def)

lemma gdd_rel_vert_delete:
  assumes rel: "gdd_rel ctx E" and pos: "pos < length (graph_keys ctx s)"
    and none: "edges_at E s (graph_keys ctx s ! pos) = {}"
  shows "gdd_rel (vert_delete ctx s pos) E"
proof -
  have mo: "maps_ok ctx" using rel by (simp add: gdd_rel_def)
  note vert = vert_of_vert_delete [OF mo pos]
  have "vert_of (vert_delete ctx s pos) (fst p) (from_v (snd p)) \<noteq> None \<and>
        vert_of (vert_delete ctx s pos) (fst p) (to_v (snd p)) \<noteq> None" if "p \<in> E" for p
    using that rel none by (auto simp: vert gdd_rel_def edges_at_def)
  moreover have "vert_ok (vert_delete ctx s pos) E s' v vt"
    if "vert_of (vert_delete ctx s pos) s' v = Some vt" for s' v vt
    using that gdd_rel_vert [OF rel, of s' v vt] by (auto simp: vert vert_ok_def acc_simps split: if_splits)
  ultimately show ?thesis
    using rel maps_ok_vert_delete [OF mo pos] unfolding gdd_rel_def by (simp add: acc_simps)
qed

section \<open>Adding an edge\<close>

definition has_graph :: "GddCtx \<Rightarrow> int \<Rightarrow> bool" where
  "has_graph ctx s \<longleftrightarrow> gddMapGet (graphs ctx) s \<noteq> None"

definition vert_or_new :: "GddVert option \<Rightarrow> int \<Rightarrow> GddVert" where
  "vert_or_new o' v = (case o' of None \<Rightarrow> gddVertNew v | Some vt \<Rightarrow> vt)"

definition stat_or_new :: "GddStat option \<Rightarrow> int \<Rightarrow> GddStat" where
  "stat_or_new o' v = (case o' of None \<Rightarrow> gddStatNew v | Some st \<Rightarrow> st)"

text \<open>The get-or-create functions are the map interface's \<open>ensure\<close>.\<close>

lemma gddCtxGetGraph_ensure:
  "gddCtxGetGraph ctx s = ctx\<lparr>graphs := gm.ensure (graphs ctx) s (gddGraphNew s)\<rparr>"
  by (simp add: gddCtxGetGraph_def gm.ensure_def split: option.split)

lemma gddCtxGetGlobalStat_ensure:
  "gddCtxGetGlobalStat ctx v = ctx\<lparr>globals := gm.ensure (globals ctx) v (gddStatNew v)\<rparr>"
  by (simp add: gddCtxGetGlobalStat_def gm.ensure_def split: option.split)

lemma GetGraph_acc [acc_simps]:
  "vert_of (gddCtxGetGraph ctx s) s' v = vert_of ctx s' v"
  "globals (gddCtxGetGraph ctx s) = globals ctx"
  "topstat (gddCtxGetGraph ctx s) = topstat ctx"
  "next_addr (gddCtxGetGraph ctx s) = next_addr ctx"
  "has_graph (gddCtxGetGraph ctx s) s"
  by (auto simp: gddCtxGetGraph_ensure vert_of_def has_graph_def gm.get_ensure gddGraphNew_def
      split: option.splits)

lemma maps_ok_GetGraph: "maps_ok ctx \<Longrightarrow> maps_ok (gddCtxGetGraph ctx s)"
  by (auto simp: gddCtxGetGraph_ensure maps_ok_def gm.get_ensure gm.valid_ensure gddGraphNew_def
      split: option.splits if_splits)

lemma GetVert_acc [acc_simps]:
  "globals (gddGraphGetVert ctx s v) = globals ctx"
  "topstat (gddGraphGetVert ctx s v) = topstat ctx"
  "next_addr (gddGraphGetVert ctx s v) = next_addr ctx"
  "has_graph (gddGraphGetVert ctx s v) s' = has_graph ctx s'"
  by (auto simp: gddGraphGetVert_def has_graph_def gddMapGet_Write split: option.splits)

lemma vert_of_GetVert [acc_simps]:
  "has_graph ctx s \<Longrightarrow> vert_of (gddGraphGetVert ctx s v) s' v' =
     (if s' = s \<and> v' = v then Some (vert_or_new (vert_of ctx s v) v) else vert_of ctx s' v')"
  by (auto simp: gddGraphGetVert_def vert_of_def has_graph_def gddMapGet_Write gddMapGet_SetUnsafe
      vert_or_new_def split: option.splits)

lemma maps_ok_GetVert: "maps_ok ctx \<Longrightarrow> maps_ok (gddGraphGetVert ctx s v)"
  by (auto simp: gddGraphGetVert_def maps_ok_def gddMapGet_Write map_ok_SetUnsafe vert_of_def
      split: option.splits if_splits)

lemma GetGlobalStat_acc [acc_simps]:
  "vert_of (gddCtxGetGlobalStat ctx v) s' v' = vert_of ctx s' v'"
  "topstat (gddCtxGetGlobalStat ctx v) = topstat ctx"
  "next_addr (gddCtxGetGlobalStat ctx v) = next_addr ctx"
  "gddMapGet (globals (gddCtxGetGlobalStat ctx v)) k =
     (if k = v then Some (stat_or_new (gddMapGet (globals ctx) v) v) else gddMapGet (globals ctx) k)"
  by (auto simp: gddCtxGetGlobalStat_ensure vert_of_def gm.get_ensure stat_or_new_def
      split: option.splits)

lemma maps_ok_GetGlobalStat: "maps_ok ctx \<Longrightarrow> maps_ok (gddCtxGetGlobalStat ctx v)"
  by (auto simp: gddCtxGetGlobalStat_ensure maps_ok_def gm.valid_ensure)

definition new_edge :: "GddCtx \<Rightarrow> int \<Rightarrow> int \<Rightarrow> bool \<Rightarrow> GddEdge" where
  "new_edge ctx from to solid' =
     \<lparr>edge_addr = next_addr ctx, solid = solid', from_v = from, to_v = to\<rparr>"

lemma AddEdge_acc:
  shows "vert_of (GddCtxAddEdge ctx s f t b) s' v =
      (if s' = s \<and> (v = f \<or> v = t) then
         Some (let vt = vert_or_new (vert_of ctx s v) v
               in vt\<lparr>vert_global := v,
                     edgesOut := edgesOut vt @ (if v = f then [new_edge ctx f t b] else []),
                     edgesIn := edgesIn vt @ (if v = t then [new_edge ctx f t b] else [])\<rparr>)
       else vert_of ctx s' v)" (is ?vert)
    and "gddMapGet (globals (GddCtxAddEdge ctx s f t b)) k =
      (if k = f \<or> k = t then
         Some (let st = stat_or_new (gddMapGet (globals ctx) k) k
               in st\<lparr>outdeg := outdeg st + (if k = f then 1 else 0),
                     indeg := indeg st + (if k = t then 1 else 0)\<rparr>)
       else gddMapGet (globals ctx) k)" (is ?glob)
    and "indeg (topstat (GddCtxAddEdge ctx s f t b)) = indeg (topstat ctx) + 1" (is ?top1)
    and "outdeg (topstat (GddCtxAddEdge ctx s f t b)) = outdeg (topstat ctx) + 1" (is ?top2)
    and "next_addr (GddCtxAddEdge ctx s f t b) = Suc (next_addr ctx)" (is ?addr)
    and "maps_ok ctx \<Longrightarrow> maps_ok (GddCtxAddEdge ctx s f t b)" (is "_ \<Longrightarrow> ?ok")
proof -
  note defs = GddCtxAddEdge_def gddGraphMakeEdge_def gddEdgeNew_def gddVertBindStats_def gddEdgeLink_def
  show ?vert by (auto simp: defs Let_def acc_simps vert_or_new_def gddVertNew_def new_edge_def
        split: option.splits)
  show ?glob by (auto simp: defs Let_def acc_simps stat_or_new_def new_edge_def split: option.splits)
  show ?top1 ?top2 ?addr by (simp_all add: defs Let_def acc_simps)
  show ?ok if "maps_ok ctx" using that
    by (simp add: defs Let_def maps_ok_GetGraph maps_ok_GetVert maps_ok_GetGlobalStat)
qed

lemma card_insert_one:
  assumes "finite E" "p \<notin> E"
  shows "int (card {q \<in> insert p E. P q}) = int (card {q \<in> E. P q}) + (if P p then 1 else 0)"
proof (cases "P p")
  case True
  then have "{q \<in> insert p E. P q} = insert p {q \<in> E. P q}" by auto
  with assms True show ?thesis by simp
next
  case False
  then have "{q \<in> insert p E. P q} = {q \<in> E. P q}" by auto
  with False show ?thesis by simp
qed

lemma gdd_rel_New: "gdd_rel GddCtxNew {}"
  by (simp add: gdd_rel_def GddCtxNew_def maps_ok_def vert_of_def gddStatInit_def)

lemma stat_ok_or_new:
  "gdd_rel ctx E \<Longrightarrow> into E v = {} \<and> out_of E v = {} \<or> gddMapGet (globals ctx) v \<noteq> None \<Longrightarrow>
     stat_ok E v (stat_or_new (gddMapGet (globals ctx) v) v)"
  by (auto simp: gdd_rel_def stat_or_new_def stat_ok_def gddStatNew_def gddStatInit_def
      split: option.splits)

lemma no_stat_no_edges:
  assumes rel: "gdd_rel ctx E" and none: "gddMapGet (globals ctx) v = None"
  shows "into E v = {}" "out_of E v = {}"
proof -
  have "vert_of ctx s v = None" for s
    using gdd_rel_vert [OF rel, of s v] none by (cases "vert_of ctx s v") (auto simp: vert_ok_def)
  then show "into E v = {}" "out_of E v = {}"
    using rel by (auto simp: gdd_rel_def into_def out_of_def)
qed

lemma vert_ok_or_new:
  assumes rel: "gdd_rel ctx E"
  shows "let vt = vert_or_new (vert_of ctx s v) v in vert_id vt = v \<and>
    distinct (map edge_addr (edgesIn vt)) \<and> distinct (map edge_addr (edgesOut vt)) \<and>
    set (edgesIn vt) = {e. (s, e) \<in> E \<and> to_v e = v} \<and>
    set (edgesOut vt) = {e. (s, e) \<in> E \<and> from_v e = v}"
proof (cases "vert_of ctx s v")
  case None
  then have "{e. (s, e) \<in> E \<and> to_v e = v} = {}" "{e. (s, e) \<in> E \<and> from_v e = v} = {}"
    using no_edges_without_vert [OF rel None] by (auto simp: edges_at_def)
  with None show ?thesis by (simp add: vert_or_new_def gddVertNew_def)
next
  case (Some vt)
  with gdd_rel_vert [OF rel Some] show ?thesis by (simp add: vert_or_new_def vert_ok_def)
qed

lemma gdd_rel_AddEdge:
  assumes rel: "gdd_rel ctx E"
  shows "gdd_rel (GddCtxAddEdge ctx s f t b) (insert (s, new_edge ctx f t b) E)"
proof -
  let ?c = "GddCtxAddEdge ctx s f t b" and ?e = "new_edge ctx f t b"
  let ?E = "insert (s, ?e) E"
  note vert = AddEdge_acc(1) [of ctx s f t b] and glob = AddEdge_acc(2) [of ctx s f t b]
  have fin: "finite E" and bound: "\<forall>p \<in> E. edge_addr (snd p) < next_addr ctx"
    using rel by (auto simp: gdd_rel_def)
  have addr: "edge_addr ?e = next_addr ctx" "from_v ?e = f" "to_v ?e = t"
    by (simp_all add: new_edge_def)
  have new: "(s', e) \<in> E \<Longrightarrow> edge_addr e \<noteq> next_addr ctx" for s' e using bound by fastforce
  have notin: "(s, ?e) \<notin> E" using new addr by blast
  have "vert_ok ?c ?E s' v vt" if vt: "vert_of ?c s' v = Some vt" for s' v vt
  proof (cases "s' = s \<and> (v = f \<or> v = t)")
    case True
    then show ?thesis
      using vt vert_ok_or_new [OF rel, of s v] addr new
      by (fastforce simp: vert glob vert_ok_def Let_def)
  next
    case False
    then have "vert_ok ctx E s' v vt" using vt gdd_rel_vert [OF rel] by (auto simp: vert split: if_splits)
    with False addr show ?thesis by (auto simp: vert_ok_def glob)
  qed
  moreover have "stat_ok ?E v st" if "gddMapGet (globals ?c) v = Some st" for v st
  proof -
    have "stat_ok E v (stat_or_new (gddMapGet (globals ctx) v) v)"
      using stat_ok_or_new [OF rel, of v] no_stat_no_edges [OF rel, of v]
      by (cases "gddMapGet (globals ctx) v") auto
    moreover have "gddMapGet (globals ctx) v = Some st \<Longrightarrow> stat_ok E v st"
      using rel by (simp add: gdd_rel_def)
    ultimately show ?thesis using that addr
        card_insert_one [OF fin notin, of "\<lambda>p. to_v (snd p) = v"]
        card_insert_one [OF fin notin, of "\<lambda>p. from_v (snd p) = v"]
      by (auto simp: glob stat_ok_def into_def out_of_def Let_def split: if_splits)
  qed
  moreover have "inj_on (edge_addr \<circ> snd) ?E"
    using rel addr new by (fastforce simp: gdd_rel_def inj_on_def)
  moreover have "vert_of ?c (fst p) (from_v (snd p)) \<noteq> None \<and> vert_of ?c (fst p) (to_v (snd p)) \<noteq> None"
    if "p \<in> ?E" for p using that rel addr by (auto simp: gdd_rel_def vert)
  moreover have "\<forall>p \<in> ?E. edge_addr (snd p) < next_addr ?c"
    using bound addr by (auto simp: AddEdge_acc)
  ultimately show ?thesis
    using rel notin unfolding gdd_rel_def by (simp add: AddEdge_acc)
qed

end
