(* ===== verification/Gdd_Reduce.thy ===== *)
theory Gdd_Reduce
  imports Gdd_Rel
begin

text \<open>
  Correctness of the reduction and of the choice of victims.  The abstract meaning of a
  deadlock is a \<open>stable\<close> set of edges: one none of whose edges the rules of the detector allow
  to go away.  \<open>GddCtxReduce\<close> leaves exactly the largest stable set of edges (\<open>core\<close>), in whatever
  order the edges were added and the graphs are visited.
\<close>

section \<open>Stable edge sets\<close>

text \<open>
  Rule 1: the holder of a stable edge itself waits somewhere.  Rule 2: the waiter is itself
  waited for.  Rule 3: a dotted edge is only stable if its holder waits on the same segment.
\<close>

definition stable :: "gedge set \<Rightarrow> bool" where
  "stable S \<longleftrightarrow> (\<forall>p \<in> S. into S (from_v (snd p)) \<noteq> {} \<and> out_of S (to_v (snd p)) \<noteq> {} \<and>
     (\<not> solid (snd p) \<longrightarrow> (\<exists>q \<in> S. fst q = fst p \<and> from_v (snd q) = to_v (snd p))))"

definition core :: "gedge set \<Rightarrow> gedge set" where
  "core E = \<Union>{S. S \<subseteq> E \<and> stable S}"

lemma into_mono: "S \<subseteq> T \<Longrightarrow> into S v \<subseteq> into T v"
  by (auto simp: into_def)

lemma out_of_mono: "S \<subseteq> T \<Longrightarrow> out_of S v \<subseteq> out_of T v"
  by (auto simp: out_of_def)

lemma stable_Union: "(\<And>S. S \<in> F \<Longrightarrow> stable S) \<Longrightarrow> stable (\<Union>F)"
  unfolding stable_def into_def out_of_def by blast

lemma core_subset: "core E \<subseteq> E"
  by (auto simp: core_def)

lemma core_stable: "stable (core E)"
  unfolding core_def by (rule stable_Union) auto

lemma core_greatest: "S \<subseteq> E \<Longrightarrow> stable S \<Longrightarrow> S \<subseteq> core E"
  by (auto simp: core_def)

lemma core_mono: "E \<subseteq> F \<Longrightarrow> core E \<subseteq> core F"
  by (auto simp: core_def)

lemma core_id: "stable E \<Longrightarrow> core E = E"
  using core_subset core_greatest by blast

lemma core_remove:
  assumes "X \<inter> core E = {}"
  shows "core (E - X) = core E"
proof (rule antisym)
  show "core (E - X) \<subseteq> core E" by (rule core_mono) auto
  have "core E \<subseteq> E - X" using core_subset [of E] assms by auto
  then show "core E \<subseteq> core (E - X)" by (rule core_greatest [OF _ core_stable])
qed

text \<open>What one vertex loses is never part of the core.\<close>

lemma reducible_not_core: "reducible E s v \<inter> core E = {}"
proof -
  have "p \<notin> core E" if p: "p \<in> reducible E s v" for p
  proof
    assume pc: "p \<in> core E"
    have st: "into (core E) (from_v (snd p)) \<noteq> {}" "out_of (core E) (to_v (snd p)) \<noteq> {}"
      "\<not> solid (snd p) \<Longrightarrow> \<exists>q \<in> core E. fst q = fst p \<and> from_v (snd q) = to_v (snd p)"
      using core_stable [of E] pc unfolding stable_def by auto
    have own: "out_of (core E) (from_v (snd p)) \<noteq> {}" "into (core E) (to_v (snd p)) \<noteq> {}"
      using pc unfolding out_of_def into_def by blast+
    note mono = into_mono [OF core_subset, of E v] out_of_mono [OF core_subset, of E v]
    show False
    proof (cases "into E v = {} \<or> out_of E v = {}")
      case True
      then have "from_v (snd p) = v \<or> to_v (snd p) = v"
        using p by (auto simp: reducible_def edges_at_def)
      then show False using True st(1,2) own mono by blast
    next
      case False
      then have "\<not> solid (snd p)" "fst p = s" "to_v (snd p) = v"
        "{p \<in> E. fst p = s \<and> from_v (snd p) = v} = {}"
        using p by (auto simp: reducible_def split: if_splits)
      then show False using st(3) core_subset [of E] by blast
    qed
  qed
  then show ?thesis by auto
qed

text \<open>A set no vertex of which is reducible is stable.\<close>

lemma not_reducible_stable:
  assumes "\<And>s v. edges_at E s v \<noteq> {} \<Longrightarrow> reducible E s v = {}"
  shows "stable E"
  unfolding stable_def
proof (intro ballI conjI impI)
  fix p assume p: "p \<in> E"
  have ea: "p \<in> edges_at E (fst p) (from_v (snd p))" "p \<in> edges_at E (fst p) (to_v (snd p))"
    using p by (auto simp: edges_at_def)
  then have ne: "edges_at E (fst p) (from_v (snd p)) \<noteq> {}" "edges_at E (fst p) (to_v (snd p)) \<noteq> {}"
    by blast+
  note red = assms [OF ne(1)] assms [OF ne(2)]
  show "into E (from_v (snd p)) \<noteq> {}"
    using red(1) ea(1) by (auto simp: reducible_def)
  show out: "out_of E (to_v (snd p)) \<noteq> {}"
    using red(2) ea(2) by (auto simp: reducible_def)
  have inn: "into E (to_v (snd p)) \<noteq> {}" using p unfolding into_def by blast
  assume dotted: "\<not> solid (snd p)"
  show "\<exists>q \<in> E. fst q = fst p \<and> from_v (snd q) = to_v (snd p)"
  proof (rule ccontr)
    assume "\<not> (\<exists>q \<in> E. fst q = fst p \<and> from_v (snd q) = to_v (snd p))"
    then have "{q \<in> E. fst q = fst p \<and> from_v (snd q) = to_v (snd p)} = {}" by auto
    then have "p \<in> reducible E (fst p) (to_v (snd p))"
      using p dotted out inn by (simp add: reducible_def)
    with red(2) show False by simp
  qed
qed

section \<open>The loops of the reduction\<close>

lemma drop_swap_remove:
  assumes "pos < length xs" "distinct xs"
  shows "set (drop pos xs) = insert (xs ! pos) (set (drop pos (swap_remove xs pos)))"
proof (cases xs rule: rev_cases)
  case Nil
  with assms show ?thesis by simp
next
  case (snoc ys z)
  show ?thesis
  proof (cases "pos = length ys")
    case True
    with snoc show ?thesis by (simp add: swap_remove_def)
  next
    case False
    then have pos: "pos < length ys" using assms snoc by simp
    then have "swap_remove xs pos = ys[pos := z]"
      using snoc by (simp add: swap_remove_def list_update_append butlast_append)
    moreover have "drop pos (ys[pos := z]) = z # drop (Suc pos) ys"
      using pos by (simp add: drop_update_swap Cons_nth_drop_Suc [symmetric])
    moreover have "drop pos ys = ys ! pos # drop (Suc pos) ys"
      using pos by (simp add: Cons_nth_drop_Suc)
    ultimately show ?thesis using snoc pos by (auto simp: nth_append)
  qed
qed

text \<open>
  What one pass guarantees, from \<open>E\<close> to \<open>E'\<close>: nothing of the core is lost; a pass that reports
  nothing changed nothing, and then no vertex it looked at (those of \<open>V\<close>) is reducible.
\<close>

definition pass :: "gedge set \<Rightarrow> bool \<Rightarrow> (int \<times> int) set \<Rightarrow> gedge set \<Rightarrow> bool \<Rightarrow> bool" where
  "pass E d V E' d' \<longleftrightarrow> E' \<subseteq> E \<and> core E' = core E \<and> (d \<longrightarrow> d') \<and> (d' \<longrightarrow> d \<or> E' \<noteq> E) \<and>
     (\<not> d' \<longrightarrow> E' = E \<and> (\<forall>(s, v) \<in> V. reducible E s v = {}))"

lemma pass_refl: "pass E d {} E d"
  by (simp add: pass_def)

lemma pass_trans: "pass E d V E' d' \<Longrightarrow> pass E' d' W E'' d'' \<Longrightarrow> pass E d (V \<union> W) E'' d''"
  unfolding pass_def by blast

lemma pass_vert:
  "pass E d {(s, v)} (E - reducible E s v) (if reducible E s v \<noteq> {} then True else d)"
  using core_remove [OF reducible_not_core] reducible_subset [of E s v]
  by (auto simp: pass_def edges_at_def)


text \<open>Which graphs there are, and the verts of the other graphs, are not touched by a pass.\<close>

lemma map_keys_graphs_Unlink [frame_simps]:
  "map_keys (graphs (gddEdgeUnlink ctx s e i j)) = map_keys (graphs ctx)"
  by (simp add: gddEdgeUnlink_def gddEdgeUnlinkFrom_def gddEdgeUnlinkTo_def frame_simps acc_simps Let_def)

lemma map_keys_graphs_unlink_loops [frame_simps]:
  "map_keys (graphs (fst (unlink_in_edges ctx s prevs cells d))) = map_keys (graphs ctx)"
  "map_keys (graphs (fst (unlink_out_edges ctx s prevs cells d))) = map_keys (graphs ctx)"
  "map_keys (graphs (fst (unlink_dotted_in_edges ctx s prevs cells d))) = map_keys (graphs ctx)"
  by (induction cells arbitrary: ctx prevs d) (simp_all add: frame_simps)

lemma map_keys_graphs_VertReduce [frame_simps]:
  "map_keys (graphs (fst (gddVertUnlinkAll ctx s v))) = map_keys (graphs ctx)"
  "map_keys (graphs (fst (gddVertReduce ctx s v))) = map_keys (graphs ctx)"
  by (simp_all add: gddVertReduce_def gddVertUnlinkAll_def frame_simps case_prod_unfold Let_def
      split: option.split)

declare reduce_verts.simps [simp del]

lemma reduce_verts_frame:
  "map_keys (graphs (fst (reduce_verts ctx s pos d))) = map_keys (graphs ctx) \<and>
   (s' \<noteq> s \<longrightarrow> graph_keys (fst (reduce_verts ctx s pos d)) s' = graph_keys ctx s')"
proof (induction ctx s pos d rule: reduce_verts.induct)
  case (1 ctx s pos d)
  then show ?case
    by (subst (1 2) reduce_verts.simps)
       (auto simp: Let_def frame_simps acc_simps graph_keys_vert_delete)
qed

lemma gdd_rel_reduce_verts:
  "gdd_rel ctx E \<Longrightarrow>
   \<exists>E'. gdd_rel (fst (reduce_verts ctx s pos d)) E' \<and>
        pass E d ({s} \<times> set (drop pos (graph_keys ctx s))) E' (snd (reduce_verts ctx s pos d))"
proof (induction ctx s pos d arbitrary: E rule: reduce_verts.induct)
  case (1 ctx s pos d)
  show ?case
  proof (cases "pos < length (graph_keys ctx s)")
    case False
    with "1.prems" pass_refl show ?thesis by (subst (1 2) reduce_verts.simps) auto
  next
    case True
    define v where "v = graph_keys ctx s ! pos"
    define ctx1 where "ctx1 = fst (gddVertReduce ctx s v)"
    define d1 where "d1 = (if snd (gddVertReduce ctx s v) then True else d)"
    define E1 where "E1 = E - reducible E s v"
    have rel1: "gdd_rel ctx1 E1" and p1: "pass E d {(s, v)} E1 d1"
      using gdd_rel_VertReduce [OF "1.prems", of s v] pass_vert [of E d s v]
      by (simp_all add: ctx1_def E1_def d1_def)
    have keys: "graph_keys ctx1 s = graph_keys ctx s" by (simp add: ctx1_def frame_simps)
    let ?del = "list_length (in_edges ctx1 s v) = 0 \<and> list_length (out_edges ctx1 s v) = 0"
    have step: "reduce_verts ctx s pos d =
        (if ?del then reduce_verts (vert_delete ctx1 s pos) s pos d1 else reduce_verts ctx1 s (Suc pos) d1)"
      using True by (subst reduce_verts.simps) (simp add: v_def ctx1_def d1_def Let_def)
    note IH = "1.IH" [OF True v_def ctx1_def d1_def]
    show ?thesis
    proof (cases ?del)
      case del: True
      then have "in_edges ctx1 s v = []" "out_edges ctx1 s v = []" by auto
      then have "edges_at E1 s v = {}"
        using in_edges_mem(1) [OF rel1, of s v] out_edges_mem(1) [OF rel1, of s v]
        by (auto simp: edges_at_def)
      then have rel2: "gdd_rel (vert_delete ctx1 s pos) E1"
        using gdd_rel_vert_delete [OF rel1, of pos s] True by (simp add: keys v_def)
      have "{s} \<times> set (drop pos (graph_keys ctx s)) =
          {(s, v)} \<union> {s} \<times> set (drop pos (graph_keys (vert_delete ctx1 s pos) s))"
        using drop_swap_remove [OF True graph_keys_distinct [OF "1.prems"]] True
        by (auto simp: graph_keys_vert_delete keys v_def)
      with IH(1) [OF del rel2] pass_trans [OF p1] show ?thesis
        unfolding step using del by fastforce
    next
      case del: False
      have "drop pos (graph_keys ctx s) = v # drop (Suc pos) (graph_keys ctx s)"
        using True by (simp add: Cons_nth_drop_Suc v_def)
      then have "{s} \<times> set (drop pos (graph_keys ctx s)) =
          {(s, v)} \<union> {s} \<times> set (drop (Suc pos) (graph_keys ctx1 s))"
        by (auto simp: keys)
      with IH(2) [OF del rel1] pass_trans [OF p1] show ?thesis
        unfolding step using del by fastforce
    qed
  qed
qed

lemma gdd_rel_reduce_graphs:
  "gdd_rel ctx E \<Longrightarrow> distinct segids \<Longrightarrow>
   \<exists>E'. gdd_rel (fst (reduce_graphs ctx segids d)) E' \<and>
        pass E d (SIGMA s : set segids. set (graph_keys ctx s)) E' (snd (reduce_graphs ctx segids d))"
proof (induction segids arbitrary: ctx d E)
  case Nil
  then show ?case using pass_refl by auto
next
  case (Cons s segids)
  let ?r = "reduce_verts ctx s 0 d"
  obtain E1 where E1: "gdd_rel (fst ?r) E1" "pass E d ({s} \<times> set (graph_keys ctx s)) E1 (snd ?r)"
    using gdd_rel_reduce_verts [OF Cons.prems(1), of s 0 d] by auto
  obtain E2 where E2: "gdd_rel (fst (reduce_graphs (fst ?r) segids (snd ?r))) E2"
    "pass E1 (snd ?r) (SIGMA s : set segids. set (graph_keys (fst ?r) s)) E2
       (snd (reduce_graphs (fst ?r) segids (snd ?r)))"
    using Cons.IH [OF E1(1)] Cons.prems(2) by auto
  have keep: "graph_keys (fst ?r) s' = graph_keys ctx s'" if "s' \<in> set segids" for s'
    using reduce_verts_frame [of ctx s 0 d s'] that Cons.prems(2) by auto
  have "(SIGMA s : set (s # segids). set (graph_keys ctx s)) =
     {s} \<times> set (graph_keys ctx s) \<union> (SIGMA s : set segids. set (graph_keys (fst ?r) s))"
    using keep by auto
  with pass_trans [OF E1(2) E2(2)] E2(1) show ?case
    by (auto simp: case_prod_unfold Let_def intro!: exI [of _ E2])
qed

lemma reduce_graphs_frame:
  "map_keys (graphs (fst (reduce_graphs ctx segids d))) = map_keys (graphs ctx)"
  by (induction segids arbitrary: ctx d) (simp_all add: case_prod_unfold Let_def reduce_verts_frame)

lemma graph_keys_segs: "v \<in> set (graph_keys ctx s) \<Longrightarrow> s \<in> set (map_keys (graphs ctx))"
  by (auto simp: graph_keys_def dest: gddMapGet_Some_key [OF sym] split: option.splits)

text \<open>A full pass that reports nothing has met a stable set.\<close>

lemma quiet_pass_stable:
  assumes rel: "gdd_rel ctx E"
    and pass: "pass E d (SIGMA s : set (map_keys (graphs ctx)). set (graph_keys ctx s)) E' False"
  shows "E' = E \<and> stable E"
proof -
  have "E' = E" and red: "\<And>s v. s \<in> set (map_keys (graphs ctx)) \<Longrightarrow> v \<in> set (graph_keys ctx s) \<Longrightarrow>
      reducible E s v = {}"
    using pass by (auto simp: pass_def)
  moreover have "stable E"
  proof (rule not_reducible_stable)
    fix s v assume "edges_at E s v \<noteq> {}"
    then have "v \<in> set (graph_keys ctx s)"
      using no_edges_without_vert [OF rel, of s v] vert_of_keys [of ctx s v] by blast
    then show "reducible E s v = {}" using red graph_keys_segs by blast
  qed
  ultimately show ?thesis by simp
qed

lemma GddCtxReduce_core:
  "gdd_rel ctx E \<Longrightarrow>
   \<exists>ctx'. GddCtxReduce ctx = Some ctx' \<and> gdd_rel ctx' (core E)"
proof (induction "card E" arbitrary: ctx E rule: less_induct)
  case less
  let ?r = "reduce_graphs ctx (map_keys (graphs ctx)) False"
  have dist: "distinct (map_keys (graphs ctx))"
    using less.prems by (simp add: gdd_rel_def maps_ok_def map_ok_def)
  obtain E' where E': "gdd_rel (fst ?r) E'"
    "pass E False (SIGMA s : set (map_keys (graphs ctx)). set (graph_keys ctx s)) E' (snd ?r)"
    using gdd_rel_reduce_graphs [OF less.prems dist, of False] by auto
  have step: "GddCtxReduce ctx = (if snd ?r then GddCtxReduce (fst ?r) else Some (fst ?r))"
    by (subst GddCtxReduce.simps) (simp add: case_prod_unfold)
  show ?case
  proof (cases "snd ?r")
    case True
    then have "E' \<subset> E" "core E' = core E" using E'(2) by (auto simp: pass_def)
    moreover have "card E' < card E"
      using psubset_card_mono gdd_rel_finite [OF less.prems] \<open>E' \<subset> E\<close> by blast
    ultimately show ?thesis using less.hyps [OF _ E'(1)] step True by simp
  next
    case False
    then have "E' = E" "stable E" using quiet_pass_stable [OF less.prems] E'(2) by auto
    with E'(1) core_id [of E] step False show ?thesis by simp
  qed
qed

lemma GddCtxEmpty_iff: "gdd_rel ctx E \<Longrightarrow> GddCtxEmpty ctx \<longleftrightarrow> E = {}"
  by (auto simp: GddCtxEmpty_def gdd_rel_def)

end
