(* ===== verification/Gdd_Break.thy ===== *)
theory Gdd_Break
  imports Gdd_Reduce
begin

text \<open>
  Correctness of \<open>GddCtxBreakDeadLock\<close> and of the whole detection cycle: which transactions are
  cancelled, that cancelling them leaves no deadlock, that the loop ends when the transaction
  ids are positive as \<open>int\<close>s, and that it does not end when they are all negative.
\<close>

section \<open>Vertices of an edge set\<close>

definition endpoints :: "gedge set \<Rightarrow> int set" where
  "endpoints E = (from_v \<circ> snd) ` E \<union> (to_v \<circ> snd) ` E"

definition touching :: "gedge set \<Rightarrow> int \<Rightarrow> gedge set" where
  "touching E v = {p \<in> E. from_v (snd p) = v \<or> to_v (snd p) = v}"

lemma endpoints_iff: "v \<in> endpoints E \<longleftrightarrow> (\<exists>s. edges_at E s v \<noteq> {})"
  unfolding endpoints_def edges_at_def comp_def by blast

lemma endpoints_touching: "v \<in> endpoints E \<longleftrightarrow> touching E v \<noteq> {}"
  unfolding endpoints_def touching_def comp_def by blast

lemma finite_endpoints: "finite E \<Longrightarrow> finite (endpoints E)"
  by (simp add: endpoints_def)

lemma endpoints_mono: "E \<subseteq> F \<Longrightarrow> endpoints E \<subseteq> endpoints F"
  by (auto simp: endpoints_def)

lemma endpoints_empty: "endpoints E = {} \<longleftrightarrow> E = {}"
  by (auto simp: endpoints_def)

section \<open>The largest vertex with edges\<close>

definition busy :: "GddVert \<Rightarrow> bool" where
  "busy vt \<longleftrightarrow> gddVertGetInDegree vt \<noteq> 0 \<or> gddVertGetOutDegree vt \<noteq> 0"

definition busy_ids :: "(int \<times> GddVert) list \<Rightarrow> int set" where
  "busy_ids ps = (vert_id \<circ> snd) ` {p \<in> set ps. busy (snd p)}"

lemma busy_ids_iff: "v \<in> busy_ids ps \<longleftrightarrow> (\<exists>k vt. (k, vt) \<in> set ps \<and> busy vt \<and> vert_id vt = v)"
  by (force simp: busy_ids_def)

lemma max_vid_verts_Max: "max_vid_verts ps m = Max (insert m (busy_ids ps))"
proof (induction ps arbitrary: m)
  case (Cons p ps)
  have "busy_ids (p # ps) = (if busy (snd p) then insert (vert_id (snd p)) (busy_ids ps) else busy_ids ps)"
    by (auto simp: busy_ids_def)
  moreover have "finite (busy_ids ps)" by (simp add: busy_ids_def)
  ultimately show ?case
    using Cons.IH by (cases "busy_ids ps = {}") (simp_all add: busy_def max.assoc)
qed (simp add: busy_ids_def)

definition busy_graphs :: "(int \<times> GddGraph) list \<Rightarrow> int set" where
  "busy_graphs ps = (\<Union>p \<in> set ps. busy_ids (map_pairs (verts (snd p))))"

lemma max_vid_graphs_Max: "max_vid_graphs ps m = Max (insert m (busy_graphs ps))"
proof (induction ps arbitrary: m)
  case (Cons p ps)
  let ?A = "busy_ids (map_pairs (verts (snd p)))" and ?B = "busy_graphs ps"
  have fin: "finite ?A" "finite ?B" by (simp_all add: busy_graphs_def busy_ids_def)
  have "max_vid_graphs (p # ps) m = Max (insert (Max (insert m ?A)) ?B)"
    by (simp add: Cons.IH max_vid_verts_Max)
  also have "\<dots> = Max (insert m ?A \<union> ?B)"
    using fin by (cases "?B = {}") (simp_all add: Max_Un max.assoc del: Un_insert_left)
  finally show ?case by (simp add: busy_graphs_def)
qed (simp add: busy_graphs_def)

lemma busy_iff:
  assumes rel: "gdd_rel ctx E" and v: "vert_of ctx s v = Some vt"
  shows "busy vt \<longleftrightarrow> edges_at E s v \<noteq> {}" "vert_id vt = v"
proof -
  have ok: "vert_ok ctx E s v vt" using gdd_rel_vert [OF rel v] .
  have "busy vt \<longleftrightarrow> set (edgesIn vt) \<noteq> {} \<or> set (edgesOut vt) \<noteq> {}"
    by (simp add: busy_def gddVertGetInDegree_def gddVertGetOutDegree_def)
  also have "\<dots> \<longleftrightarrow> edges_at E s v \<noteq> {}"
  proof -
    have "edges_at E s v \<noteq> {} \<longleftrightarrow> (\<exists>e. (s, e) \<in> E \<and> (from_v e = v \<or> to_v e = v))"
      by (auto simp: edges_at_def)
    moreover have "set (edgesIn vt) = {e. (s, e) \<in> E \<and> to_v e = v}"
      "set (edgesOut vt) = {e. (s, e) \<in> E \<and> from_v e = v}" using ok by (simp_all add: vert_ok_def)
    ultimately show ?thesis by (auto simp del: set_empty set_empty2)
  qed
  finally show "busy vt \<longleftrightarrow> edges_at E s v \<noteq> {}" .
  show "vert_id vt = v" using ok by (simp add: vert_ok_def)
qed

lemma busy_graphs_endpoints:
  assumes rel: "gdd_rel ctx E"
  shows "busy_graphs (map_pairs (graphs ctx)) = endpoints E"
proof -
  have ok: "map_ok (graphs ctx)" and oks: "\<And>s g. gddMapGet (graphs ctx) s = Some g \<Longrightarrow> map_ok (verts g)"
    using rel by (auto simp: gdd_rel_def maps_ok_def)
  have vert: "vert_of ctx s v = Some vt \<longleftrightarrow>
      (\<exists>g. (s, g) \<in> set (map_pairs (graphs ctx)) \<and> (v, vt) \<in> set (map_pairs (verts g)))" for s v vt
  proof -
    have "vert_of ctx s v = Some vt \<longleftrightarrow>
        (\<exists>g. gddMapGet (graphs ctx) s = Some g \<and> gddMapGet (verts g) v = Some vt)"
      by (simp add: vert_of_def split: option.split)
    then show ?thesis using gddMapGet_in_pairs [OF ok] gddMapGet_in_pairs [OF oks] by blast
  qed
  have "v \<in> busy_graphs (map_pairs (graphs ctx)) \<longleftrightarrow>
      (\<exists>s k vt. vert_of ctx s k = Some vt \<and> busy vt \<and> vert_id vt = v)" for v
    unfolding busy_graphs_def vert by (simp add: busy_ids_iff Bex_def) blast
  moreover have "(\<exists>s k vt. vert_of ctx s k = Some vt \<and> busy vt \<and> vert_id vt = v) \<longleftrightarrow>
      (\<exists>s. edges_at E s v \<noteq> {})" for v
  proof
    assume "\<exists>s k vt. vert_of ctx s k = Some vt \<and> busy vt \<and> vert_id vt = v"
    then show "\<exists>s. edges_at E s v \<noteq> {}" using busy_iff [OF rel] by blast
  next
    assume "\<exists>s. edges_at E s v \<noteq> {}"
    then obtain s where s: "edges_at E s v \<noteq> {}" by blast
    then obtain vt where "vert_of ctx s v = Some vt"
      using no_edges_without_vert [OF rel, of s v] by (cases "vert_of ctx s v") auto
    with busy_iff [OF rel this] s
    show "\<exists>s k vt. vert_of ctx s k = Some vt \<and> busy vt \<and> vert_id vt = v" by blast
  qed
  ultimately show ?thesis by (auto simp: endpoints_iff)
qed

lemma MaxVid_Max: "gdd_rel ctx E \<Longrightarrow> gddCtxGetMaxVid ctx = Max (insert 0 (endpoints E))"
  by (simp add: gddCtxGetMaxVid_def max_vid_graphs_Max busy_graphs_endpoints)

section \<open>Removing a vertex\<close>

lemma map_keys_graphs_RemoveVid [frame_simps]:
  "map_keys (graphs (remove_vid_from ctx s vid pos ps)) = map_keys (graphs ctx)"
  "map_keys (graphs (gddGraphRemoveVid ctx s vid)) = map_keys (graphs ctx)"
proof -
  show from': "map_keys (graphs (remove_vid_from ctx s vid pos ps)) = map_keys (graphs ctx)" for pos ps
    by (induction ps arbitrary: pos) (simp_all add: acc_simps frame_simps)
  show "map_keys (graphs (gddGraphRemoveVid ctx s vid)) = map_keys (graphs ctx)"
    by (simp add: gddGraphRemoveVid_def from' split: option.split)
qed

lemma gdd_rel_remove_vid_from:
  assumes rel: "gdd_rel ctx E" and g: "gddMapGet (graphs ctx) s = Some g"
  shows "map_pairs (verts g) = pre @ ps \<Longrightarrow> vid \<notin> fst ` set pre \<Longrightarrow>
    gdd_rel (remove_vid_from ctx s vid (length pre) ps) (E - edges_at E s vid)"
proof (induction ps arbitrary: pre)
  case Nil
  then have "vert_of ctx s vid = None"
    using gddMapGet_None_iff [of "verts g" vid] g by (simp add: vert_of_def map_keys_def)
  then have "edges_at E s vid = {}" by (rule no_edges_without_vert [OF rel])
  with rel show ?case by simp
next
  case (Cons p ps)
  have mo: "map_ok (verts g)" using rel g by (auto simp: gdd_rel_def maps_ok_def)
  have "vert_of ctx s (fst p) = Some (snd p)"
    using gddMapGet_in_pairs [OF mo, of "fst p" "snd p"] Cons.prems(1) g by (simp add: vert_of_def)
  then have id: "vert_id (snd p) = fst p" using busy_iff(2) [OF rel] by blast
  show ?case
  proof (cases "fst p = vid")
    case False
    with Cons.IH [of "pre @ [p]"] Cons.prems id show ?thesis by simp
  next
    case True
    let ?c = "fst (gddVertUnlinkAll ctx s vid)"
    have keys: "graph_keys ?c s = map fst pre @ vid # map fst ps"
      using True Cons.prems(1) g by (simp add: frame_simps) (simp add: graph_keys_def map_keys_def)
    have "edges_at (E - edges_at E s vid) s vid = {}" by (auto simp: edges_at_def)
    with gdd_rel_vert_delete [OF gdd_rel_UnlinkAll(1) [OF rel, of s vid], of "length pre" s]
    have "gdd_rel (vert_delete ?c s (length pre)) (E - edges_at E s vid)"
      by (simp add: keys nth_append)
    with True id show ?thesis by simp
  qed
qed

lemma gdd_rel_GraphRemoveVid:
  assumes "gdd_rel ctx E"
  shows "gdd_rel (gddGraphRemoveVid ctx s vid) (E - edges_at E s vid)"
proof (cases "gddMapGet (graphs ctx) s")
  case None
  then have "edges_at E s vid = {}" by (intro no_edges_without_vert [OF assms]) (simp add: vert_of_def)
  with assms None show ?thesis by (simp add: gddGraphRemoveVid_def)
next
  case (Some g)
  with gdd_rel_remove_vid_from [OF assms Some, of "[]"] show ?thesis
    by (simp add: gddGraphRemoveVid_def)
qed

lemma gdd_rel_remove_vid_graphs:
  "gdd_rel ctx E \<Longrightarrow>
   gdd_rel (remove_vid_graphs ctx segids vid) (E - {p \<in> touching E vid. fst p \<in> set segids})"
proof (induction segids arbitrary: ctx E)
  case (Cons s segids)
  let ?E = "E - edges_at E s vid"
  have "?E - {p \<in> touching ?E vid. fst p \<in> set segids} =
      E - {p \<in> touching E vid. fst p \<in> set (s # segids)}"
    by (auto simp: edges_at_def touching_def)
  with Cons.IH [OF gdd_rel_GraphRemoveVid [OF Cons.prems, of s vid]] show ?case by simp
qed simp

lemma gdd_rel_RemoveVid:
  assumes "gdd_rel ctx E"
  shows "gdd_rel (gddCtxRemoveVid ctx vid) (E - touching E vid)"
proof -
  have "fst p \<in> set (map_keys (graphs ctx))" if "p \<in> E" for p
    using that assms vert_of_keys [of ctx "fst p"] graph_keys_segs by (fastforce simp: gdd_rel_def)
  then have "{p \<in> touching E vid. fst p \<in> set (map_keys (graphs ctx))} = touching E vid"
    by (auto simp: touching_def)
  with gdd_rel_remove_vid_graphs [OF assms, of "map_keys (graphs ctx)" vid] show ?thesis
    by (simp add: gddCtxRemoveVid_def)
qed


section \<open>The victims\<close>

text \<open>
  The specification of the loop on edge sets: as long as there is a deadlock, the transaction
  with the largest id among the deadlocked ones goes, and with it what then is no longer stuck.
\<close>

inductive breaks :: "gedge set \<Rightarrow> int list \<Rightarrow> bool" where
  none: "breaks {} []"
| victim: "E \<noteq> {} \<Longrightarrow> breaks (core (E - touching E (Max (endpoints E)))) vids \<Longrightarrow>
    breaks E (Max (endpoints E) # vids)"

inductive_cases breaks_NilE: "breaks E []"
inductive_cases breaks_ConsE: "breaks E (v # vids)"

definition without :: "gedge set \<Rightarrow> int set \<Rightarrow> gedge set" where
  "without E V = {p \<in> E. from_v (snd p) \<notin> V \<and> to_v (snd p) \<notin> V}"

lemma break_loop_refines:
  "gdd_rel ctx E \<Longrightarrow> \<forall>v \<in> endpoints E. 0 < v \<Longrightarrow>
   \<exists>ws ctx'. break_loop ctx vids = Some (vids @ ws, ctx') \<and> gdd_rel ctx' {} \<and> breaks E ws"
proof (induction "card E" arbitrary: ctx E vids rule: less_induct)
  case less
  have fin: "finite E" using gdd_rel_finite [OF less.prems(1)] .
  show ?case
  proof (cases "E = {}")
    case True
    with less.prems(1) GddCtxEmpty_iff [OF less.prems(1)] show ?thesis
      by (subst break_loop.simps) (auto intro: breaks.none)
  next
    case False
    define m where "m = Max (endpoints E)"
    have ne: "endpoints E \<noteq> {}" "finite (endpoints E)"
      using False fin by (simp_all add: endpoints_empty finite_endpoints)
    then have m: "m \<in> endpoints E" "gddCtxGetMaxVid ctx = m"
      using less.prems(2) by (auto simp: m_def MaxVid_Max [OF less.prems(1)])
    let ?F = "core (E - touching E m)"
    obtain ctx1 where c1: "GddCtxReduce (gddCtxRemoveVid ctx m) = Some ctx1" "gdd_rel ctx1 ?F"
      using GddCtxReduce_core [OF gdd_rel_RemoveVid [OF less.prems(1)]] by blast
    have sub: "?F \<subseteq> E - touching E m" by (rule core_subset)
    also have "touching E m \<subseteq> E" by (auto simp: touching_def)
    then have "E - touching E m \<subset> E" using m(1) unfolding endpoints_touching by blast
    finally have "card ?F < card E" by (rule psubset_card_mono [OF fin])
    moreover have "\<forall>v \<in> endpoints ?F. 0 < v" using less.prems(2) endpoints_mono [of ?F E] sub by blast
    ultimately obtain ws ctx' where ws: "break_loop ctx1 (vids @ [m]) = Some ((vids @ [m]) @ ws, ctx')"
      "gdd_rel ctx' {}" "breaks ?F ws"
      using less.hyps [OF _ c1(2)] by blast
    have "break_loop ctx vids = Some (vids @ (m # ws), ctx')"
      using ws(1) c1(1) m(2) False GddCtxEmpty_iff [OF less.prems(1)]
      by (subst break_loop.simps) (simp add: lappend_int_def)
    moreover have "breaks E (m # ws)" using ws(3) False unfolding m_def by (rule breaks.victim [rotated])
    ultimately show ?thesis using ws(2) by blast
  qed
qed

lemma without_insert: "without (E - touching E v) V = without E (insert v V)"
  by (auto simp: without_def touching_def)

lemma core_without: "core (without E V) \<subseteq> core (without (core E) V)"
proof (rule core_greatest [OF _ core_stable])
  have "core (without E V) \<subseteq> core E" by (rule core_mono) (auto simp: without_def)
  then show "core (without E V) \<subseteq> without (core E) V"
    using core_subset [of "without E V"] by (auto simp: without_def)
qed

lemma breaks_endpoints: "breaks E ws \<Longrightarrow> finite E \<Longrightarrow> set ws \<subseteq> endpoints E"
proof (induction rule: breaks.induct)
  case (victim E vids)
  let ?F = "core (E - touching E (Max (endpoints E)))"
  have F: "?F \<subseteq> E" using core_subset by blast
  then have "set vids \<subseteq> endpoints E"
    using victim.IH victim.prems finite_subset [OF F] endpoints_mono [OF F] by blast
  moreover have "Max (endpoints E) \<in> endpoints E"
    using victim.hyps(1) victim.prems by (simp add: endpoints_empty finite_endpoints)
  ultimately show ?case by simp
qed simp

text \<open>The victims come in decreasing order, so none is named twice.\<close>

lemma breaks_decreasing: "breaks E ws \<Longrightarrow> finite E \<Longrightarrow> sorted_wrt (>) ws"
proof (induction rule: breaks.induct)
  case (victim E vids)
  let ?m = "Max (endpoints E)"
  let ?F = "core (E - touching E ?m)"
  have F: "?F \<subseteq> E - touching E ?m" by (rule core_subset)
  have finF: "finite ?F" using victim.prems finite_subset [OF F] by blast
  have "v < ?m" if "v \<in> set vids" for v
  proof -
    have "v \<in> endpoints (E - touching E ?m)"
      using that breaks_endpoints [OF victim.hyps(2) finF] endpoints_mono [OF F] by blast
    then have "v \<in> endpoints E" "v \<noteq> ?m" by (auto simp: endpoints_def touching_def)
    then show ?thesis using Max_ge [of "endpoints E" v] finite_endpoints [OF victim.prems] by linarith
  qed
  with victim.IH finF show ?case by simp
qed simp

text \<open>Without the victims nothing is stuck any more.\<close>

lemma breaks_no_core: "breaks E ws \<Longrightarrow> core (without E (set ws)) = {}"
proof (induction rule: breaks.induct)
  case none
  then show ?case using core_subset [of "{}"] by (simp add: without_def)
next
  case (victim E vids)
  let ?G = "E - touching E (Max (endpoints E))"
  have "core (without E (set (Max (endpoints E) # vids))) = core (without ?G (set vids))"
    by (simp add: without_insert)
  also have "\<dots> \<subseteq> core (without (core ?G) (set vids))" by (rule core_without)
  finally show ?case using victim.IH by simp
qed

section \<open>Negative vertex ids\<close>

lemma break_loop_stuck:
  assumes "break_loop ctx vids = Some r"
  shows "gdd_rel ctx E \<Longrightarrow> stable E \<Longrightarrow> E \<noteq> {} \<Longrightarrow> \<forall>v \<in> endpoints E. v < 0 \<Longrightarrow> False"
proof (induction arbitrary: E rule: break_loop.raw_induct [OF _ assms])
  case (1 loop ctx vids r)
  have "Max (insert 0 (endpoints E)) = 0"
    using 1(6) finite_endpoints [OF gdd_rel_finite [OF 1(3)]] by (intro Max_eqI) force+
  then have m: "gddCtxGetMaxVid ctx = 0" using MaxVid_Max [OF 1(3)] by simp
  have "touching E 0 = {}" using 1(6) endpoints_touching [of 0 E] by auto
  then have "gdd_rel (gddCtxRemoveVid ctx 0) E" using gdd_rel_RemoveVid [OF 1(3), of 0] by simp
  then obtain ctx1 where "GddCtxReduce (gddCtxRemoveVid ctx 0) = Some ctx1" "gdd_rel ctx1 E"
    using GddCtxReduce_core core_id [OF 1(4)] by metis
  with 1 m GddCtxEmpty_iff [OF 1(3)] show False by simp
qed

section \<open>What a core means\<close>

text \<open>The wait-for relation between transactions, and its part that only the end of a transaction ends.\<close>

definition waits :: "gedge set \<Rightarrow> (int \<times> int) set" where
  "waits E = (\<lambda>p. (from_v (snd p), to_v (snd p))) ` E"

definition solids :: "gedge set \<Rightarrow> gedge set" where
  "solids E = {p \<in> E. solid (snd p)}"

lemma stable_cycle:
  assumes "stable S" "finite S" "S \<noteq> {}"
  shows "\<not> acyclic (waits S)"
proof
  assume "acyclic (waits S)"
  then have wf: "wf ((waits S)\<inverse>)" using assms(2) by (simp add: waits_def finite_acyclic_wf_converse)
  obtain p where "p \<in> S" using assms(3) by blast
  then have "to_v (snd p) \<in> (to_v \<circ> snd) ` S" by auto
  then obtain z where z: "z \<in> (to_v \<circ> snd) ` S" "\<And>y. (y, z) \<in> (waits S)\<inverse> \<Longrightarrow> y \<notin> (to_v \<circ> snd) ` S"
    using wfE_min [OF wf, of "to_v (snd p)" "(to_v \<circ> snd) ` S"] by metis
  then obtain q where q: "q \<in> S" "to_v (snd q) = z" by auto
  then have "out_of S z \<noteq> {}" using assms(1) by (auto simp: stable_def)
  then obtain r where "r \<in> S" "from_v (snd r) = z" by (auto simp: out_of_def)
  then have "(to_v (snd r), z) \<in> (waits S)\<inverse>" "to_v (snd r) \<in> (to_v \<circ> snd) ` S"
    by (auto simp: waits_def image_iff)
  with z(2) show False by blast
qed

lemma core_cycle: "finite E \<Longrightarrow> core E \<noteq> {} \<Longrightarrow> \<not> acyclic (waits E)"
proof -
  assume "finite E" "core E \<noteq> {}"
  then have "\<not> acyclic (waits (core E))"
    using stable_cycle [OF core_stable] finite_subset [OF core_subset] by blast
  moreover have "waits (core E) \<subseteq> waits E" using core_subset by (auto simp: waits_def)
  ultimately show "\<not> acyclic (waits E)" using acyclic_subset by blast
qed

text \<open>Edges on a cycle of solid edges can never go away by themselves.\<close>

definition on_solid_cycle :: "gedge set \<Rightarrow> gedge set" where
  "on_solid_cycle E = {p \<in> solids E. (to_v (snd p), from_v (snd p)) \<in> (waits (solids E))\<^sup>*}"

lemma on_cycle_next:
  assumes p: "p \<in> solids E" and ret: "(to_v (snd p), from_v (snd p)) \<in> (waits (solids E))\<^sup>*"
  obtains q where "q \<in> on_solid_cycle E" "from_v (snd q) = to_v (snd p)"
proof -
  have pw: "(from_v (snd p), to_v (snd p)) \<in> waits (solids E)" using p by (auto simp: waits_def)
  from ret show ?thesis
  proof (cases rule: converse_rtranclE)
    case base
    then show ?thesis by (intro that [of p]) (simp_all add: on_solid_cycle_def p)
  next
    case (step y)
    then obtain q where q: "q \<in> solids E" "from_v (snd q) = to_v (snd p)" "to_v (snd q) = y"
      by (auto simp: waits_def)
    have "(y, to_v (snd p)) \<in> (waits (solids E))\<^sup>*" using step(2) pw by (rule rtrancl_into_rtrancl)
    with q show ?thesis by (intro that [of q]) (simp_all add: on_solid_cycle_def)
  qed
qed

lemma on_cycle_prev:
  assumes p: "p \<in> solids E" and ret: "(to_v (snd p), from_v (snd p)) \<in> (waits (solids E))\<^sup>*"
  obtains q where "q \<in> on_solid_cycle E" "to_v (snd q) = from_v (snd p)"
proof -
  have pw: "(from_v (snd p), to_v (snd p)) \<in> waits (solids E)" using p by (auto simp: waits_def)
  from ret show ?thesis
  proof (cases rule: rtranclE)
    case base
    then show ?thesis by (intro that [of p]) (simp_all add: on_solid_cycle_def p)
  next
    case (step y)
    then obtain q where q: "q \<in> solids E" "from_v (snd q) = y" "to_v (snd q) = from_v (snd p)"
      by (auto simp: waits_def)
    have "(from_v (snd p), y) \<in> (waits (solids E))\<^sup>*" using pw step(1) by (rule converse_rtrancl_into_rtrancl)
    with q show ?thesis by (intro that [of q]) (simp_all add: on_solid_cycle_def)
  qed
qed

lemma on_solid_cycle_stable: "stable (on_solid_cycle E)"
  unfolding stable_def
proof (intro ballI conjI impI)
  fix p assume "p \<in> on_solid_cycle E"
  then have p: "p \<in> solids E" "(to_v (snd p), from_v (snd p)) \<in> (waits (solids E))\<^sup>*"
    by (auto simp: on_solid_cycle_def)
  show "into (on_solid_cycle E) (from_v (snd p)) \<noteq> {}"
    using on_cycle_prev [OF p] unfolding into_def by blast
  show "out_of (on_solid_cycle E) (to_v (snd p)) \<noteq> {}"
    using on_cycle_next [OF p] unfolding out_of_def by blast
  show "\<exists>q \<in> on_solid_cycle E. fst q = fst p \<and> from_v (snd q) = to_v (snd p)" if "\<not> solid (snd p)"
    using that p(1) by (simp add: solids_def)
qed

lemma no_core_no_solid_cycle:
  assumes "core E = {}"
  shows "acyclic (waits (solids E))"
proof (rule acyclicI, intro allI notI)
  fix v assume "(v, v) \<in> (waits (solids E))\<^sup>+"
  then obtain w where w: "(v, w) \<in> waits (solids E)" "(w, v) \<in> (waits (solids E))\<^sup>*"
    by (meson tranclD)
  then obtain p where "p \<in> on_solid_cycle E" by (auto simp: waits_def on_solid_cycle_def)
  moreover have "on_solid_cycle E \<subseteq> core E"
    by (rule core_greatest [OF _ on_solid_cycle_stable]) (auto simp: on_solid_cycle_def solids_def)
  ultimately show False using assms by blast
qed


section \<open>The detection cycle\<close>

text \<open>
  The edges a query result stands for: one per row whose two transactions are still running on
  the coordinator, numbered from \<open>n\<close> in the order of the rows.
\<close>

definition row_running :: "int list \<Rightarrow> WaitRow \<Rightarrow> bool" where
  "row_running gxids row \<longleftrightarrow> sint (waiter_xid row) \<in> set gxids \<and> sint (holder_xid row) \<in> set gxids"

fun wait_edges :: "int list \<Rightarrow> nat \<Rightarrow> WaitRow list \<Rightarrow> gedge set" where
  "wait_edges gxids n [] = {}"
| "wait_edges gxids n (row # rows) =
     (if row_running gxids row
      then insert (row_segid row, \<lparr>edge_addr = n, solid = solidedge row,
             from_v = sint (waiter_xid row), to_v = sint (holder_xid row)\<rparr>) (wait_edges gxids (Suc n) rows)
      else wait_edges gxids n rows)"

lemma gdd_rel_buildWaitGraph:
  "gdd_rel ctx E \<Longrightarrow>
     gdd_rel (buildWaitGraph gxids ctx rows) (E \<union> wait_edges gxids (next_addr ctx) rows)"
proof (induction rows arbitrary: ctx E)
  case (Cons row rows)
  show ?case
  proof (cases "row_running gxids row")
    case True
    let ?c = "GddCtxAddEdge ctx (row_segid row) (sint (waiter_xid row)) (sint (holder_xid row)) (solidedge row)"
    have "add_wait_row gxids ctx row = ?c"
      using True by (simp add: add_wait_row_def row_running_def list_member_int_iff)
    moreover have "next_addr ?c = Suc (next_addr ctx)" by (simp add: AddEdge_acc)
    ultimately show ?thesis
      using Cons.IH [OF gdd_rel_AddEdge [OF Cons.prems, of "row_segid row" "sint (waiter_xid row)"
          "sint (holder_xid row)" "solidedge row"]] True
      by (simp add: new_edge_def)
  next
    case False
    then have "add_wait_row gxids ctx row = ctx"
      by (auto simp: add_wait_row_def row_running_def list_member_int_iff)
    with Cons False show ?thesis by simp
  qed
qed simp

definition wait_graph :: "int list \<Rightarrow> WaitRow list \<Rightarrow> gedge set" where
  "wait_graph gxids rows = wait_edges gxids 0 rows"

lemma gdd_rel_wait_graph: "gdd_rel (buildWaitGraph gxids GddCtxNew rows) (wait_graph gxids rows)"
  using gdd_rel_buildWaitGraph [OF gdd_rel_New, of gxids rows]
  by (simp add: wait_graph_def GddCtxNew_def)

lemma endpoints_wait_edges:
  "v \<in> endpoints (wait_edges gxids n rows) \<longleftrightarrow>
     (\<exists>row \<in> set rows. row_running gxids row \<and> (v = sint (waiter_xid row) \<or> v = sint (holder_xid row)))"
  by (induction rows arbitrary: n) (auto simp: endpoints_def)

lemma doDeadLockCheck_cases:
  obtains ctx1 where "gdd_rel ctx1 (core (wait_graph gxids rows))"
    "doDeadLockCheck gxids rows =
       (if core (wait_graph gxids rows) = {} then Some [] else map_option fst (break_loop ctx1 []))"
proof -
  obtain ctx1 where "GddCtxReduce (buildWaitGraph gxids GddCtxNew rows) = Some ctx1"
    "gdd_rel ctx1 (core (wait_graph gxids rows))"
    using GddCtxReduce_core [OF gdd_rel_wait_graph] by blast
  with GddCtxEmpty_iff that show ?thesis
    by (simp add: doDeadLockCheck_def GddCtxBreakDeadLock_def)
qed

lemma doDeadLockCheck_breaks:
  assumes "\<forall>row \<in> set rows. 0 < sint (waiter_xid row) \<and> 0 < sint (holder_xid row)"
  obtains ws where "doDeadLockCheck gxids rows = Some ws" "breaks (core (wait_graph gxids rows)) ws"
    "core (without (wait_graph gxids rows) (set ws)) = {}"
proof -
  let ?E = "wait_graph gxids rows"
  obtain ctx1 where c: "gdd_rel ctx1 (core ?E)" "doDeadLockCheck gxids rows =
      (if core ?E = {} then Some [] else map_option fst (break_loop ctx1 []))"
    using doDeadLockCheck_cases .
  have "\<forall>v \<in> endpoints ?E. 0 < v"
    using assms by (auto simp: wait_graph_def endpoints_wait_edges)
  then have pos: "\<forall>v \<in> endpoints (core ?E). 0 < v"
    using endpoints_mono [OF core_subset, of ?E] by blast
  obtain ws where ws: "doDeadLockCheck gxids rows = Some ws" "breaks (core ?E) ws"
    using break_loop_refines [OF c(1) pos, of "[]"] c(2) breaks.none by (cases "core ?E = {}") auto
  then show ?thesis using that breaks_no_core [OF ws(2)] core_without [of ?E "set ws"] by simp
qed

lemma acyclic_empty_rel: "acyclic {}"
  by (simp add: acyclic_def)

section \<open>Properties\<close>

text \<open>
  C13.  A detection cycle over positive transaction ids always ends; its victims are exactly
  those of the specification \<open>breaks\<close> on the deadlocked part of the wait-for graph, come in
  strictly decreasing order, are all themselves deadlocked, and once their edges are gone
  nothing is deadlocked any more.
\<close>

theorem doDeadLockCheck_correct:
  assumes "\<forall>row \<in> set rows. 0 < sint (waiter_xid row) \<and> 0 < sint (holder_xid row)"
  shows "\<exists>ws. doDeadLockCheck gxids rows = Some ws \<and> breaks (core (wait_graph gxids rows)) ws \<and>
    sorted_wrt (>) ws \<and> set ws \<subseteq> endpoints (core (wait_graph gxids rows)) \<and>
    core (without (wait_graph gxids rows) (set ws)) = {}"
proof -
  have "finite (core (wait_graph gxids rows))"
    using finite_subset [OF core_subset gdd_rel_finite [OF gdd_rel_wait_graph]] .
  then show ?thesis
    using doDeadLockCheck_breaks [OF assms] breaks_decreasing breaks_endpoints by metis
qed

text \<open>Two transactions that wait for each other on two segments.\<close>

definition two_way :: "TransactionId \<Rightarrow> TransactionId \<Rightarrow> WaitRow list" where
  "two_way a b =
     [\<lparr>row_segid = 0, waiter_xid = a, holder_xid = b, solidedge = True\<rparr>,
      \<lparr>row_segid = 1, waiter_xid = b, holder_xid = a, solidedge = True\<rparr>]"

theorem doDeadLockCheck_correct_witness:
  "doDeadLockCheck [1, 2] (two_way 1 2) = Some [2] \<and>
   core (without (wait_graph [1, 2] (two_way 1 2)) {2}) = {}"
proof -
  have run: "doDeadLockCheck [1, 2] (two_way 1 2) = Some [2]" by code_simp
  moreover have "\<forall>row \<in> set (two_way 1 2). 0 < sint (waiter_xid row) \<and> 0 < sint (holder_xid row)"
    by (simp add: two_way_def)
  ultimately show ?thesis using doDeadLockCheck_correct [of "two_way 1 2" "[1, 2]"] by auto
qed

text \<open>
  No false alarm: when the wait-for graph has no cycle, a detection cycle ends and cancels
  nothing, whatever the transaction ids.
\<close>

theorem doDeadLockCheck_no_false_alarm:
  assumes "acyclic (waits (wait_graph gxids rows))"
  shows "doDeadLockCheck gxids rows = Some []"
proof -
  have "core (wait_graph gxids rows) = {}"
    using core_cycle assms gdd_rel_finite [OF gdd_rel_wait_graph] by blast
  then show ?thesis using doDeadLockCheck_cases [of gxids rows] by fastforce
qed

theorem doDeadLockCheck_no_false_alarm_witness:
  "doDeadLockCheck [1, 2] [\<lparr>row_segid = 0, waiter_xid = 1, holder_xid = 2, solidedge = True\<rparr>] = Some []"
proof (rule doDeadLockCheck_no_false_alarm)
  show "acyclic (waits (wait_graph [1, 2]
      [\<lparr>row_segid = 0, waiter_xid = 1, holder_xid = 2, solidedge = True\<rparr>]))"
    by (simp add: wait_graph_def row_running_def waits_def acyclic_insert acyclic_empty_rel)
qed

text \<open>
  C14.  Every deadlock that only the end of a transaction can resolve is broken: the waits that
  remain once the victims are gone have no cycle of solid edges, and a cycle of solid edges always
  has a victim.
\<close>

theorem doDeadLockCheck_breaks_solid_cycles:
  assumes "\<forall>row \<in> set rows. 0 < sint (waiter_xid row) \<and> 0 < sint (holder_xid row)"
  shows "\<exists>ws. doDeadLockCheck gxids rows = Some ws \<and>
    acyclic (waits (solids (without (wait_graph gxids rows) (set ws)))) \<and>
    (\<not> acyclic (waits (solids (wait_graph gxids rows))) \<longrightarrow> ws \<noteq> [])"
proof -
  let ?E = "wait_graph gxids rows"
  obtain ws where ws: "doDeadLockCheck gxids rows = Some ws" "core (without ?E (set ws)) = {}"
    using doDeadLockCheck_breaks [OF assms] by metis
  moreover have "without ?E {} = ?E" by (simp add: without_def)
  ultimately show ?thesis using no_core_no_solid_cycle [of "without ?E (set ws)"] by auto
qed

theorem doDeadLockCheck_breaks_solid_cycles_witness:
  "\<exists>ws. doDeadLockCheck [5, 9] (two_way 5 9) = Some ws \<and>
    acyclic (waits (solids (without (wait_graph [5, 9] (two_way 5 9)) (set ws))))"
  using doDeadLockCheck_breaks_solid_cycles [of "two_way 5 9" "[5, 9]"] by (auto simp: two_way_def)

text \<open>
  C15.  On any context that represents a set of edges the reduction ends, and leaves a context
  that represents the largest stable part of that set: the outcome does not depend on the order
  in which graphs, vertices and edges are visited.
\<close>

theorem GddCtxReduce_refines_core:
  assumes "gdd_rel ctx E"
  shows "\<exists>ctx'. GddCtxReduce ctx = Some ctx' \<and> gdd_rel ctx' (core E)"
  by (rule GddCtxReduce_core [OF assms])

theorem GddCtxReduce_refines_core_witness:
  "\<exists>ctx'. GddCtxReduce (buildWaitGraph [1, 2] GddCtxNew (two_way 1 2)) = Some ctx' \<and>
     gdd_rel ctx' (core (wait_graph [1, 2] (two_way 1 2)))"
  by (rule GddCtxReduce_refines_core [OF gdd_rel_wait_graph])

text \<open>
  C16.  When every deadlocked transaction id is negative as an \<open>int\<close> (a distributed transaction
  id from \<open>2 ^ 31\<close> on), \<open>gddCtxGetMaxVid\<close> returns its initial value 0, nothing is ever removed,
  and the detection cycle does not end.
\<close>

theorem doDeadLockCheck_diverges_on_negative_vids:
  assumes "core (wait_graph gxids rows) \<noteq> {}" "\<forall>v \<in> endpoints (core (wait_graph gxids rows)). v < 0"
  shows "doDeadLockCheck gxids rows = None"
proof -
  obtain ctx1 where c: "gdd_rel ctx1 (core (wait_graph gxids rows))"
    "doDeadLockCheck gxids rows = map_option fst (break_loop ctx1 [])"
    using doDeadLockCheck_cases [of gxids rows] assms(1) by metis
  with break_loop_stuck [of ctx1 "[]" _ "core (wait_graph gxids rows)"] assms core_stable
  show ?thesis by (cases "break_loop ctx1 []") auto
qed

theorem doDeadLockCheck_diverges_on_negative_vids_witness:
  "doDeadLockCheck [- 2147483647, - 2147483646] (two_way 0x80000001 0x80000002) = None"
proof -
  let ?g = "[- 2147483647, - 2147483646 :: int]"
  let ?E = "wait_graph ?g (two_way 0x80000001 0x80000002)"
  have E: "?E =
    {(0, \<lparr>edge_addr = 0, solid = True, from_v = - 2147483647, to_v = - 2147483646\<rparr>),
     (1, \<lparr>edge_addr = 1, solid = True, from_v = - 2147483646, to_v = - 2147483647\<rparr>)}"
    by (simp add: wait_graph_def two_way_def row_running_def)
  have "stable ?E" unfolding E by (simp add: stable_def into_insert out_of_insert)
  then have "core ?E = ?E" by (rule core_id)
  then show ?thesis
    using E by (intro doDeadLockCheck_diverges_on_negative_vids) (simp_all add: endpoints_def)
qed

end
