(* ===== verification/Clog.thy ===== *)
theory Clog
  imports Prelude
begin

text \<open>
  The commit log (\<open>access/transam/clog.c\<close>): two status bits per transaction, four transactions
  to a byte, and one LSN per group of 32 transactions.  A page is addressed by its page
  number: the SLRU slot that holds it, its replacement and its I/O are not modelled, so
  \<open>slotno\<close> is the page number.  Everything between taking and releasing \<open>CLogControlLock\<close> is one
  step, and the functions that touch several pages have the states after each of their steps.
\<close>

section \<open>Layout\<close>

type_synonym XidStatus = uint8
type_synonym XLogRecPtr = uint64

definition TRANSACTION_STATUS_IN_PROGRESS :: XidStatus where
  "TRANSACTION_STATUS_IN_PROGRESS = 0"

definition TRANSACTION_STATUS_COMMITTED :: XidStatus where
  "TRANSACTION_STATUS_COMMITTED = 1"

definition TRANSACTION_STATUS_ABORTED :: XidStatus where
  "TRANSACTION_STATUS_ABORTED = 2"

definition TRANSACTION_STATUS_SUB_COMMITTED :: XidStatus where
  "TRANSACTION_STATUS_SUB_COMMITTED = 3"

lemmas xid_status_defs = TRANSACTION_STATUS_IN_PROGRESS_def TRANSACTION_STATUS_COMMITTED_def
  TRANSACTION_STATUS_ABORTED_def TRANSACTION_STATUS_SUB_COMMITTED_def

text \<open>With the block size of the default configuration, 32 kB.\<close>

definition CLOG_XACTS_PER_PAGE :: uint32 where
  "CLOG_XACTS_PER_PAGE = 32768 * 4"

definition TransactionIdToPage :: "TransactionId \<Rightarrow> uint32" where
  "TransactionIdToPage xid = xid div CLOG_XACTS_PER_PAGE"

definition TransactionIdToPgIndex :: "TransactionId \<Rightarrow> uint32" where
  "TransactionIdToPgIndex xid = xid mod CLOG_XACTS_PER_PAGE"

definition TransactionIdToByte :: "TransactionId \<Rightarrow> uint32" where
  "TransactionIdToByte xid = TransactionIdToPgIndex xid div 4"

definition TransactionIdToBIndex :: "TransactionId \<Rightarrow> uint32" where
  "TransactionIdToBIndex xid = xid mod 4"

definition GetLSNIndex :: "TransactionId \<Rightarrow> uint32" where
  "GetLSNIndex xid = (xid mod CLOG_XACTS_PER_PAGE) div 32"

definition bshift :: "TransactionId \<Rightarrow> nat" where
  "bshift xid = unat (TransactionIdToBIndex xid) * 2"

record ClogCtl =
  page_buffer :: "uint32 \<Rightarrow> uint32 \<Rightarrow> uint8"
  group_lsn :: "uint32 \<Rightarrow> uint32 \<Rightarrow> XLogRecPtr"

section \<open>Operations\<close>

definition TransactionIdGetStatus :: "ClogCtl \<Rightarrow> TransactionId \<Rightarrow> XidStatus \<times> XLogRecPtr" where
  "TransactionIdGetStatus c xid =
     (let pageno = TransactionIdToPage xid;
          status = drop_bit (bshift xid) (page_buffer c pageno (TransactionIdToByte xid)) AND 3
      in (status, group_lsn c pageno (GetLSNIndex xid)))"

definition TransactionIdSetStatusBit ::
  "bool \<Rightarrow> ClogCtl \<Rightarrow> TransactionId \<Rightarrow> XidStatus \<Rightarrow> XLogRecPtr \<Rightarrow> uint32 \<Rightarrow> ClogCtl" where
  "TransactionIdSetStatusBit InRecovery c xid status lsn slotno =
     (let byteno = TransactionIdToByte xid;
          curval = drop_bit (bshift xid) (page_buffer c slotno byteno) AND 3
      in if InRecovery \<and> status = TRANSACTION_STATUS_SUB_COMMITTED \<and>
            curval = TRANSACTION_STATUS_COMMITTED then c
         else
           let byteval = page_buffer c slotno byteno;
               byteval1 = byteval AND NOT (push_bit (bshift xid) 3);
               byteval2 = byteval1 OR push_bit (bshift xid) status;
               c1 = c\<lparr>page_buffer := (page_buffer c)(slotno := (page_buffer c slotno)(byteno := byteval2))\<rparr>
           in if lsn \<noteq> 0 \<and> group_lsn c1 slotno (GetLSNIndex xid) < lsn
              then c1\<lparr>group_lsn := (group_lsn c1)(slotno := (group_lsn c1 slotno)(GetLSNIndex xid := lsn))\<rparr>
              else c1)"

fun set_status_bits ::
  "bool \<Rightarrow> ClogCtl \<Rightarrow> TransactionId list \<Rightarrow> XidStatus \<Rightarrow> XLogRecPtr \<Rightarrow> uint32 \<Rightarrow> ClogCtl" where
  "set_status_bits InRecovery c [] status lsn slotno = c"
| "set_status_bits InRecovery c (x # xs) status lsn slotno =
     set_status_bits InRecovery (TransactionIdSetStatusBit InRecovery c x status lsn slotno) xs status lsn slotno"

definition TransactionIdSetPageStatus ::
  "bool \<Rightarrow> ClogCtl \<Rightarrow> TransactionId \<Rightarrow> TransactionId list \<Rightarrow> XidStatus \<Rightarrow> XLogRecPtr \<Rightarrow> uint32 \<Rightarrow> ClogCtl" where
  "TransactionIdSetPageStatus InRecovery c xid subxids status lsn pageno =
     (let c1 = (if xid \<noteq> 0
                then let c0 = (if status = TRANSACTION_STATUS_COMMITTED
                               then set_status_bits InRecovery c subxids TRANSACTION_STATUS_SUB_COMMITTED lsn pageno
                               else c)
                     in TransactionIdSetStatusBit InRecovery c0 xid status lsn pageno
                else c)
      in set_status_bits InRecovery c1 subxids status lsn pageno)"

text \<open>The states after each page, in order.\<close>

function set_status_by_pages ::
  "bool \<Rightarrow> ClogCtl \<Rightarrow> TransactionId list \<Rightarrow> XidStatus \<Rightarrow> XLogRecPtr \<Rightarrow> ClogCtl list" where
  "set_status_by_pages InRecovery c [] status lsn = []"
| "set_status_by_pages InRecovery c (x # xs) status lsn =
     (let pageno = TransactionIdToPage x;
          on_page = takeWhile (\<lambda>y. TransactionIdToPage y = pageno) (x # xs);
          rest = dropWhile (\<lambda>y. TransactionIdToPage y = pageno) (x # xs);
          c1 = TransactionIdSetPageStatus InRecovery c 0 on_page status lsn pageno
      in c1 # set_status_by_pages InRecovery c1 rest status lsn)"
  by pat_completeness auto
termination
  by (relation "measure (\<lambda>(r, c, xs, s, l). length xs)") (auto simp: le_imp_less_Suc length_dropWhile_le)

text \<open>The states \<open>TransactionIdSetTreeStatus\<close> goes through, after each step.\<close>

definition tree_status_steps ::
  "bool \<Rightarrow> ClogCtl \<Rightarrow> TransactionId \<Rightarrow> TransactionId list \<Rightarrow> XidStatus \<Rightarrow> XLogRecPtr \<Rightarrow> ClogCtl list" where
  "tree_status_steps InRecovery c xid subxids status lsn =
     (let pageno = TransactionIdToPage xid;
          first = takeWhile (\<lambda>y. TransactionIdToPage y = pageno) subxids;
          others = dropWhile (\<lambda>y. TransactionIdToPage y = pageno) subxids
      in if others = [] then [TransactionIdSetPageStatus InRecovery c xid subxids status lsn pageno]
         else
           let t1 = (if status = TRANSACTION_STATUS_COMMITTED
                     then set_status_by_pages InRecovery c others TRANSACTION_STATUS_SUB_COMMITTED lsn
                     else []);
               c2 = TransactionIdSetPageStatus InRecovery (last (c # t1)) xid first status lsn pageno;
               t3 = set_status_by_pages InRecovery c2 others status lsn
           in t1 @ c2 # t3)"

definition TransactionIdSetTreeStatus ::
  "bool \<Rightarrow> ClogCtl \<Rightarrow> TransactionId \<Rightarrow> TransactionId list \<Rightarrow> XidStatus \<Rightarrow> XLogRecPtr \<Rightarrow> ClogCtl" where
  "TransactionIdSetTreeStatus InRecovery c xid subxids status lsn =
     last (tree_status_steps InRecovery c xid subxids status lsn)"

section \<open>Reading back\<close>

definition status_of :: "ClogCtl \<Rightarrow> TransactionId \<Rightarrow> XidStatus" where
  "status_of c xid = fst (TransactionIdGetStatus c xid)"

text \<open>Two transactions share a byte and a position in it only if they are the same.\<close>

lemma unat_xid_parts:
  "unat xid = unat (TransactionIdToPage xid) * 131072 + unat (TransactionIdToByte xid) * 4 +
     unat (TransactionIdToBIndex xid)"
proof -
  have m: "unat xid mod 131072 mod 4 = unat xid mod 4" by (rule mod_mod_cancel) simp
  have "unat xid = unat xid div 131072 * 131072 + unat xid mod 131072" by simp
  also have "unat xid mod 131072 = (unat xid mod 131072) div 4 * 4 + (unat xid mod 131072) mod 4" by simp
  finally show ?thesis
    by (simp add: TransactionIdToPage_def TransactionIdToByte_def TransactionIdToPgIndex_def
        TransactionIdToBIndex_def CLOG_XACTS_PER_PAGE_def unat_div unat_mod m)
qed

lemma bshift_bound: "bshift xid \<in> {0, 2, 4, 6}"
proof -
  have "unat (TransactionIdToBIndex xid) < 4"
    by (simp add: TransactionIdToBIndex_def unat_mod)
  then show ?thesis by (auto simp: bshift_def numeral_eq_Suc less_Suc_eq)
qed

lemma xid_position_inj:
  "TransactionIdToPage x = TransactionIdToPage y \<Longrightarrow> TransactionIdToByte x = TransactionIdToByte y \<Longrightarrow>
     bshift x = bshift y \<Longrightarrow> x = y"
  using unat_xid_parts [of x] unat_xid_parts [of y]
  by (simp add: bshift_def word_unat_eq_iff)

lemma bit_3: "bit (3 :: uint8) n \<longleftrightarrow> n < 2"
proof (cases "n < 8")
  case True
  then have "n = 0 \<or> n = 1 \<or> n = 2 \<or> n = 3 \<or> n = 4 \<or> n = 5 \<or> n = 6 \<or> n = 7" by linarith
  then show ?thesis by (elim disjE) simp_all
next
  case False
  then show ?thesis using bit_imp_le_length [of "3 :: uint8" n] by auto
qed

lemma bit_3_int: "bit (3 :: int) n \<longleftrightarrow> n < 2"
  by (cases n) (auto simp: bit_1_iff)

definition is_status :: "XidStatus \<Rightarrow> bool" where
  "is_status s \<longleftrightarrow> s AND 3 = s"

lemma is_status_values [simp]:
  "is_status TRANSACTION_STATUS_IN_PROGRESS" "is_status TRANSACTION_STATUS_COMMITTED"
  "is_status TRANSACTION_STATUS_ABORTED" "is_status TRANSACTION_STATUS_SUB_COMMITTED"
  by (simp_all add: is_status_def xid_status_defs)

lemma is_status_bit: "is_status s \<Longrightarrow> bit s n \<Longrightarrow> n < 2"
  unfolding is_status_def by (metis bit_3 bit_and_iff)

lemma status_bits_put:
  fixes b s :: uint8
  assumes "is_status s" "k \<in> {0, 2, 4, 6}" "l \<in> {0, 2, 4, 6}"
  shows "drop_bit l (b AND NOT (push_bit k 3) OR push_bit k s) AND 3 =
    (if k = l then s else drop_bit l b AND 3)"
proof (rule bit_word_eqI)
  fix n assume n: "n < LENGTH(8)"
  show "bit (drop_bit l (b AND NOT (push_bit k 3) OR push_bit k s) AND 3) n =
      bit (if k = l then s else drop_bit l b AND 3) n"
  proof (cases "n < 2")
    case True
    then have "l + n < 8" using assms(3) by auto
    moreover have "k \<le> l + n \<and> l + n - k < 2 \<longleftrightarrow> k = l"
      using True assms(2,3) by auto
    ultimately show ?thesis
      using True is_status_bit [OF assms(1), of "l + n - k"]
      by (auto simp: bit_and_iff bit_or_iff bit_not_iff bit_push_bit_iff bit_drop_bit_eq bit_3 bit_3_int)
  next
    case False
    then show ?thesis using is_status_bit [OF assms(1), of n] by (auto simp: bit_and_iff bit_3 bit_3_int)
  qed
qed

lemma status_of_bits:
  "status_of c y = drop_bit (bshift y) (page_buffer c (TransactionIdToPage y) (TransactionIdToByte y)) AND 3"
  by (simp add: status_of_def TransactionIdGetStatus_def Let_def)

lemma status_of_SetStatusBit:
  assumes "is_status s"
  shows "status_of (TransactionIdSetStatusBit r c x s lsn (TransactionIdToPage x)) y =
    (if y = x \<and> \<not> (r \<and> s = TRANSACTION_STATUS_SUB_COMMITTED \<and> status_of c x = TRANSACTION_STATUS_COMMITTED)
     then s else status_of c y)"
proof (cases "r \<and> s = TRANSACTION_STATUS_SUB_COMMITTED \<and> status_of c x = TRANSACTION_STATUS_COMMITTED")
  case True
  then have "TransactionIdSetStatusBit r c x s lsn (TransactionIdToPage x) = c"
    by (simp add: status_of_bits TransactionIdSetStatusBit_def Let_def)
  with True show ?thesis by simp
next
  case False
  let ?new = "page_buffer c (TransactionIdToPage x) (TransactionIdToByte x) AND NOT (push_bit (bshift x) 3) OR
      push_bit (bshift x) s"
  have pb: "page_buffer (TransactionIdSetStatusBit r c x s lsn (TransactionIdToPage x)) (TransactionIdToPage y)
      (TransactionIdToByte y) =
    (if TransactionIdToPage y = TransactionIdToPage x \<and> TransactionIdToByte y = TransactionIdToByte x
     then ?new else page_buffer c (TransactionIdToPage y) (TransactionIdToByte y))"
    using False by (auto simp: status_of_bits TransactionIdSetStatusBit_def Let_def)
  show ?thesis
  proof (cases "TransactionIdToPage y = TransactionIdToPage x \<and> TransactionIdToByte y = TransactionIdToByte x")
    case True
    then have "status_of (TransactionIdSetStatusBit r c x s lsn (TransactionIdToPage x)) y =
        (if bshift x = bshift y then s else status_of c y)"
      unfolding status_of_bits pb using status_bits_put [OF assms bshift_bound [of x] bshift_bound [of y]] by simp
    moreover have "bshift x = bshift y \<longleftrightarrow> y = x" using True xid_position_inj [of y x] by auto
    ultimately show ?thesis using False by auto
  next
    case other: False
    then show ?thesis unfolding status_of_bits pb by auto
  qed
qed

text \<open>Outside recovery a write is always done.\<close>

lemma status_of_set_status_bits:
  "is_status s \<Longrightarrow> \<forall>x \<in> set xs. TransactionIdToPage x = p \<Longrightarrow>
   status_of (set_status_bits False c xs s lsn p) y = (if y \<in> set xs then s else status_of c y)"
proof (induction xs arbitrary: c)
  case (Cons x xs)
  have "TransactionIdToPage x = p" using Cons.prems(2) by simp
  then have "status_of (TransactionIdSetStatusBit False c x s lsn p) y = (if y = x then s else status_of c y)"
    using status_of_SetStatusBit [OF Cons.prems(1), of False c x lsn y] by simp
  with Cons show ?case by auto
qed simp

lemma status_of_SetPageStatus:
  assumes "is_status s" "\<forall>x \<in> set subs. TransactionIdToPage x = p" "xid \<noteq> 0 \<Longrightarrow> TransactionIdToPage xid = p"
  shows "status_of (TransactionIdSetPageStatus False c xid subs s lsn p) y =
    (if y \<in> set subs \<or> y = xid \<and> xid \<noteq> 0 then s else status_of c y)"
proof (cases "xid = 0")
  case True
  with assms show ?thesis by (simp add: TransactionIdSetPageStatus_def status_of_set_status_bits)
next
  case False
  have "status_of (TransactionIdSetStatusBit False c0 xid s lsn p) z = (if z = xid then s else status_of c0 z)" for c0 z
    using status_of_SetStatusBit [OF assms(1), of False c0 xid lsn z] assms(3) [OF False] by simp
  with False assms show ?thesis by (simp add: TransactionIdSetPageStatus_def Let_def status_of_set_status_bits)
qed

text \<open>One step of the page loop.\<close>

lemma set_status_by_pages_step:
  assumes "is_status s" "xs \<noteq> []"
  obtains on rest c1 where "set on \<union> set rest = set xs" "length rest < length xs"
    "set_status_by_pages False c xs s lsn = c1 # set_status_by_pages False c1 rest s lsn"
    "\<forall>y. status_of c1 y = (if y \<in> set on then s else status_of c y)"
proof -
  obtain x xs' where xs: "xs = x # xs'" using assms(2) by (cases xs) auto
  let ?P = "\<lambda>y. TransactionIdToPage y = TransactionIdToPage x"
  let ?on = "takeWhile ?P xs" and ?rest = "dropWhile ?P xs"
  let ?c1 = "TransactionIdSetPageStatus False c 0 ?on s lsn (TransactionIdToPage x)"
  have on: "\<forall>y \<in> set ?on. TransactionIdToPage y = TransactionIdToPage x" by (meson set_takeWhileD)
  show ?thesis
  proof (rule that)
    show "set ?on \<union> set ?rest = set xs" by (metis set_append takeWhile_dropWhile_id)
    show "length ?rest < length xs" using xs by (simp add: le_imp_less_Suc length_dropWhile_le)
    show "set_status_by_pages False c xs s lsn = ?c1 # set_status_by_pages False ?c1 ?rest s lsn"
      unfolding xs by (simp add: Let_def)
    show "\<forall>y. status_of ?c1 y = (if y \<in> set ?on then s else status_of c y)"
      using status_of_SetPageStatus [OF assms(1) on, of 0 c lsn] by simp
  qed
qed

text \<open>After any number of pages, the transactions written so far have the new status, the others the old one.\<close>

lemma set_status_by_pages_states:
  assumes s: "is_status s"
  shows "c' \<in> set (set_status_by_pages False c xs s lsn) \<Longrightarrow>
   \<exists>W. W \<subseteq> set xs \<and> (\<forall>y. status_of c' y = (if y \<in> W then s else status_of c y))"
proof (induction "length xs" arbitrary: c xs rule: less_induct)
  case less
  then have "xs \<noteq> []" by auto
  from set_status_by_pages_step [OF s this, of c lsn]
  obtain on rest c1 where st: "set on \<union> set rest = set xs" "length rest < length xs"
    "set_status_by_pages False c xs s lsn = c1 # set_status_by_pages False c1 rest s lsn"
    "\<forall>y. status_of c1 y = (if y \<in> set on then s else status_of c y)" .
  consider "c' = c1" | "c' \<in> set (set_status_by_pages False c1 rest s lsn)"
    using less.prems st(3) by auto
  then show ?case
  proof cases
    case 1
    with st show ?thesis by blast
  next
    case 2
    from less.hyps [OF st(2) this]
    obtain W where "W \<subseteq> set rest" "\<forall>y. status_of c' y = (if y \<in> W then s else status_of c1 y)" by blast
    with st show ?thesis by (intro exI [of _ "W \<union> set on"]) auto
  qed
qed

lemma status_of_set_status_by_pages:
  assumes s: "is_status s"
  shows "status_of (last (c # set_status_by_pages False c xs s lsn)) y =
    (if y \<in> set xs then s else status_of c y)"
proof (induction "length xs" arbitrary: c xs rule: less_induct)
  case less
  show ?case
  proof (cases "xs = []")
    case False
    from set_status_by_pages_step [OF s this, of c lsn]
    obtain on rest c1 where st: "set on \<union> set rest = set xs" "length rest < length xs"
      "set_status_by_pages False c xs s lsn = c1 # set_status_by_pages False c1 rest s lsn"
      "\<forall>y. status_of c1 y = (if y \<in> set on then s else status_of c y)" .
    then show ?thesis using less.hyps [OF st(2), of c1] by auto
  qed simp
qed

text \<open>Marking a whole tree.\<close>

lemma tree_status_steps_cases:
  obtains first others t1 c2 where "subs = first @ others"
    "\<forall>z \<in> set first. TransactionIdToPage z = TransactionIdToPage xid"
    "t1 = (if s = TRANSACTION_STATUS_COMMITTED
      then set_status_by_pages InRec c others TRANSACTION_STATUS_SUB_COMMITTED lsn else [])"
    "c2 = TransactionIdSetPageStatus InRec (last (c # t1)) xid first s lsn (TransactionIdToPage xid)"
    "tree_status_steps InRec c xid subs s lsn =
      (if others = [] then [TransactionIdSetPageStatus InRec c xid subs s lsn (TransactionIdToPage xid)]
       else t1 @ c2 # set_status_by_pages InRec c2 others s lsn)"
proof -
  let ?P = "\<lambda>y. TransactionIdToPage y = TransactionIdToPage xid"
  have "\<forall>z \<in> set (takeWhile ?P subs). ?P z" by (meson set_takeWhileD)
  then show ?thesis
    by (rule that [of "takeWhile ?P subs" "dropWhile ?P subs", rotated])
       (rule refl, rule refl, simp only: tree_status_steps_def Let_def, simp)
qed

lemma status_of_SetTreeStatus:
  assumes s: "is_status s" and x: "xid \<noteq> 0"
  shows "status_of (TransactionIdSetTreeStatus False c xid subs s lsn) y =
    (if y = xid \<or> y \<in> set subs then s else status_of c y)"
proof -
  obtain first others t1 c2 where st: "subs = first @ others"
    "\<forall>z \<in> set first. TransactionIdToPage z = TransactionIdToPage xid"
    "t1 = (if s = TRANSACTION_STATUS_COMMITTED
      then set_status_by_pages False c others TRANSACTION_STATUS_SUB_COMMITTED lsn else [])"
    "c2 = TransactionIdSetPageStatus False (last (c # t1)) xid first s lsn (TransactionIdToPage xid)"
    "tree_status_steps False c xid subs s lsn =
      (if others = [] then [TransactionIdSetPageStatus False c xid subs s lsn (TransactionIdToPage xid)]
       else t1 @ c2 # set_status_by_pages False c2 others s lsn)"
    by (rule tree_status_steps_cases)
  show ?thesis
  proof (cases "others = []")
    case True
    with st status_of_SetPageStatus [OF s, of subs _ xid c lsn y] x show ?thesis
      by (simp add: TransactionIdSetTreeStatus_def)
  next
    case False
    have "last (tree_status_steps False c xid subs s lsn) =
        last (c2 # set_status_by_pages False c2 others s lsn)"
      unfolding st(5) using False by (simp only: if_False last_append list.simps simp_thms)
    then have "status_of (TransactionIdSetTreeStatus False c xid subs s lsn) y =
        (if y \<in> set others then s else status_of c2 y)"
      unfolding TransactionIdSetTreeStatus_def using status_of_set_status_by_pages [OF s] by metis
    moreover have "status_of c2 y = (if y \<in> set first \<or> y = xid then s else status_of (last (c # t1)) y)"
      unfolding st(4) using status_of_SetPageStatus [OF s st(2), of xid "last (c # t1)" lsn y] x by simp
    moreover have "status_of (last (c # t1)) y =
        (if y \<in> set others \<and> s = TRANSACTION_STATUS_COMMITTED then TRANSACTION_STATUS_SUB_COMMITTED else status_of c y)"
      unfolding st(3) using status_of_set_status_by_pages [of TRANSACTION_STATUS_SUB_COMMITTED c others lsn y]
      by (cases "s = TRANSACTION_STATUS_COMMITTED") (simp_all del: last.simps, simp)
    ultimately show ?thesis using st(1) by auto
  qed
qed

text \<open>
  What an observer can see of a commit while it is under way, if a reader asks between any two
  steps: \<open>W\<close> are the subtransactions already marked committed, and they only ever are once the
  main transaction is.
\<close>

lemma commit_steps_states:
  assumes x: "xid \<noteq> 0"
    and c': "c' \<in> set (tree_status_steps False c xid subs TRANSACTION_STATUS_COMMITTED lsn)"
  shows "(\<exists>W \<subseteq> set subs. \<forall>y. status_of c' y =
        (if y \<in> W then TRANSACTION_STATUS_SUB_COMMITTED else status_of c y)) \<or>
    (\<exists>W \<subseteq> set subs. \<forall>y. status_of c' y =
        (if y = xid \<or> y \<in> W then TRANSACTION_STATUS_COMMITTED
         else if y \<in> set subs then TRANSACTION_STATUS_SUB_COMMITTED else status_of c y))"
    (is "?before \<or> ?after")
proof -
  let ?C = TRANSACTION_STATUS_COMMITTED and ?S = TRANSACTION_STATUS_SUB_COMMITTED
  obtain first others t1 c2 where st: "subs = first @ others"
    "\<forall>z \<in> set first. TransactionIdToPage z = TransactionIdToPage xid"
    "t1 = (if ?C = ?C then set_status_by_pages False c others ?S lsn else [])"
    "c2 = TransactionIdSetPageStatus False (last (c # t1)) xid first ?C lsn (TransactionIdToPage xid)"
    "tree_status_steps False c xid subs ?C lsn =
      (if others = [] then [TransactionIdSetPageStatus False c xid subs ?C lsn (TransactionIdToPage xid)]
       else t1 @ c2 # set_status_by_pages False c2 others ?C lsn)"
    by (rule tree_status_steps_cases)
  have t1: "status_of (last (c # t1)) y = (if y \<in> set others then ?S else status_of c y)" for y
    unfolding st(3) using status_of_set_status_by_pages [of ?S c others lsn y] by simp
  have c2: "status_of c2 y = (if y \<in> set first \<or> y = xid then ?C else if y \<in> set others then ?S else status_of c y)" for y
    unfolding st(4) using status_of_SetPageStatus [OF _ st(2), of ?C xid "last (c # t1)" lsn y] x t1 by simp
  show ?thesis
  proof (cases "others = []")
    case True
    then have "c' = TransactionIdSetPageStatus False c xid subs ?C lsn (TransactionIdToPage xid)"
      using c' st(5) by simp
    moreover have "\<forall>z \<in> set subs. TransactionIdToPage z = TransactionIdToPage xid" using True st(1,2) by simp
    ultimately have "status_of c' y = (if y \<in> set subs \<or> y = xid then ?C else status_of c y)" for y
      using status_of_SetPageStatus [of ?C subs _ xid c lsn y] x by simp
    then have ?after by (intro exI [of _ "set subs"]) auto
    then show ?thesis ..
  next
    case False
    consider "c' \<in> set t1" | "c' = c2" | "c' \<in> set (set_status_by_pages False c2 others ?C lsn)"
      using c' False unfolding st(5) by auto
    then show ?thesis
    proof cases
      case 1
      then obtain W where "W \<subseteq> set others" "\<forall>y. status_of c' y = (if y \<in> W then ?S else status_of c y)"
        using set_status_by_pages_states [of ?S c' c others lsn] st(3) by auto
      then have ?before using st(1) by (intro exI [of _ W]) auto
      then show ?thesis ..
    next
      case 2
      then have ?after using c2 st(1) by (intro exI [of _ "set first"]) auto
      then show ?thesis ..
    next
      case 3
      then obtain W where "W \<subseteq> set others" "\<forall>y. status_of c' y = (if y \<in> W then ?C else status_of c2 y)"
        using set_status_by_pages_states [of ?C c' c2 others lsn] by auto
      then have ?after using c2 st(1) by (intro exI [of _ "W \<union> set first"]) auto
      then show ?thesis ..
    qed
  qed
qed

section \<open>Properties\<close>

text \<open>
  C29.  Setting the status of a transaction tree, page by page, gives every transaction of the
  tree that status and leaves the two bits of every other transaction as they were.
\<close>

theorem SetTreeStatus_roundtrip:
  assumes "is_status s" "xid \<noteq> 0"
  shows "fst (TransactionIdGetStatus (TransactionIdSetTreeStatus False c xid subs s lsn) y) =
    (if y = xid \<or> y \<in> set subs then s else fst (TransactionIdGetStatus c y))"
  using status_of_SetTreeStatus [OF assms, of c subs lsn y] by (simp add: status_of_def)

text \<open>A tree over two pages, next to a transaction that shares a byte with it.\<close>

theorem SetTreeStatus_roundtrip_witness:
  "(let c = TransactionIdSetTreeStatus False \<lparr>page_buffer = (\<lambda>p b. 255), group_lsn = (\<lambda>p g. 0)\<rparr> 131070 [131071, 131072]
      TRANSACTION_STATUS_COMMITTED 0
    in fst (TransactionIdGetStatus c 131072) = TRANSACTION_STATUS_COMMITTED \<and>
       fst (TransactionIdGetStatus c 131073) = TRANSACTION_STATUS_SUB_COMMITTED)"
proof -
  have "fst (TransactionIdGetStatus \<lparr>page_buffer = (\<lambda>p b. 255), group_lsn = (\<lambda>p g. 0)\<rparr> 131073) =
      TRANSACTION_STATUS_SUB_COMMITTED" by code_simp
  then show ?thesis by (simp add: Let_def SetTreeStatus_roundtrip)
qed

end
