(* ===== verification/Transam.thy ===== *)
theory Transam
  imports Clog
begin

text \<open>
  Transaction ids and their fate: the comparisons of \<open>access/transam/transam.c\<close>, the parent
  links of \<open>subtrans.c\<close>, and the status functions that read the commit log through the
  backend's one-entry cache.
\<close>

section \<open>Transaction ids\<close>

definition InvalidTransactionId :: TransactionId where
  "InvalidTransactionId = 0"

definition BootstrapTransactionId :: TransactionId where
  "BootstrapTransactionId = 1"

definition FrozenTransactionId :: TransactionId where
  "FrozenTransactionId = 2"

definition FirstNormalTransactionId :: TransactionId where
  "FirstNormalTransactionId = 3"

lemmas xid_defs = InvalidTransactionId_def BootstrapTransactionId_def FrozenTransactionId_def
  FirstNormalTransactionId_def

definition TransactionIdIsValid :: "TransactionId \<Rightarrow> bool" where
  "TransactionIdIsValid xid \<longleftrightarrow> xid \<noteq> InvalidTransactionId"

definition TransactionIdIsNormal :: "TransactionId \<Rightarrow> bool" where
  "TransactionIdIsNormal xid \<longleftrightarrow> xid \<ge> FirstNormalTransactionId"

definition TransactionIdAdvance :: "TransactionId \<Rightarrow> TransactionId" where
  "TransactionIdAdvance dest =
     (let dest1 = dest + 1 in if dest1 < FirstNormalTransactionId then FirstNormalTransactionId else dest1)"

text \<open>The comparison subtracts as \<open>uint32\<close> and reads the difference as \<open>int32\<close>.\<close>

definition TransactionIdPrecedes :: "TransactionId \<Rightarrow> TransactionId \<Rightarrow> bool" where
  "TransactionIdPrecedes id1 id2 =
     (if \<not> TransactionIdIsNormal id1 \<or> \<not> TransactionIdIsNormal id2 then id1 < id2
      else sint (id1 - id2) < 0)"

definition TransactionIdPrecedesOrEquals :: "TransactionId \<Rightarrow> TransactionId \<Rightarrow> bool" where
  "TransactionIdPrecedesOrEquals id1 id2 =
     (if \<not> TransactionIdIsNormal id1 \<or> \<not> TransactionIdIsNormal id2 then id1 \<le> id2
      else sint (id1 - id2) \<le> 0)"

definition TransactionIdFollows :: "TransactionId \<Rightarrow> TransactionId \<Rightarrow> bool" where
  "TransactionIdFollows id1 id2 =
     (if \<not> TransactionIdIsNormal id1 \<or> \<not> TransactionIdIsNormal id2 then id1 > id2
      else sint (id1 - id2) > 0)"

definition TransactionIdFollowsOrEquals :: "TransactionId \<Rightarrow> TransactionId \<Rightarrow> bool" where
  "TransactionIdFollowsOrEquals id1 id2 =
     (if \<not> TransactionIdIsNormal id1 \<or> \<not> TransactionIdIsNormal id2 then id1 \<ge> id2
      else sint (id1 - id2) \<ge> 0)"

text \<open>The loop of \<open>TransactionIdLatest\<close> goes from the last child to the first.\<close>

fun latest_from :: "TransactionId \<Rightarrow> TransactionId list \<Rightarrow> TransactionId" where
  "latest_from result [] = result"
| "latest_from result (x # rev_xids) =
     latest_from (if TransactionIdPrecedes result x then x else result) rev_xids"

definition TransactionIdLatest :: "TransactionId \<Rightarrow> TransactionId list \<Rightarrow> TransactionId" where
  "TransactionIdLatest mainxid xids = latest_from mainxid (rev xids)"

section \<open>Parents of subtransactions\<close>

record SubTransData =
  parent :: TransactionId
  topMostParent :: TransactionId

type_synonym SubTrans = "TransactionId \<Rightarrow> SubTransData"

definition SubTransGetData :: "SubTrans \<Rightarrow> TransactionId \<Rightarrow> SubTransData" where
  "SubTransGetData st xid =
     (if \<not> TransactionIdIsNormal xid then \<lparr>parent = InvalidTransactionId, topMostParent = xid\<rparr>
      else
        let ptr = st xid
        in \<lparr>parent = parent ptr,
            topMostParent = (if topMostParent ptr = InvalidTransactionId then xid else topMostParent ptr)\<rparr>)"

definition SubTransSetParent :: "SubTrans \<Rightarrow> TransactionId \<Rightarrow> TransactionId \<Rightarrow> SubTrans" where
  "SubTransSetParent st xid par =
     (let top = (if par \<noteq> InvalidTransactionId then topMostParent (SubTransGetData st par)
                 else InvalidTransactionId)
      in st(xid := \<lparr>parent = par, topMostParent = top\<rparr>))"

definition SubTransGetParent :: "SubTrans \<Rightarrow> TransactionId \<Rightarrow> TransactionId" where
  "SubTransGetParent st xid = parent (SubTransGetData st xid)"

definition SubTransGetTopmostTransaction :: "SubTrans \<Rightarrow> TransactionId \<Rightarrow> TransactionId" where
  "SubTransGetTopmostTransaction st xid = topMostParent (SubTransGetData st xid)"

section \<open>Status\<close>

record FetchCache =
  cachedFetchXid :: TransactionId
  cachedFetchXidStatus :: XidStatus
  cachedCommitLSN :: XLogRecPtr

record XactLog =
  clog :: ClogCtl
  subtrans :: SubTrans
  TransactionXmin :: TransactionId

definition TransactionLogFetch ::
  "XactLog \<Rightarrow> FetchCache \<Rightarrow> TransactionId \<Rightarrow> XidStatus \<times> FetchCache" where
  "TransactionLogFetch l ca transactionId =
     (if transactionId = cachedFetchXid ca then (cachedFetchXidStatus ca, ca)
      else if \<not> TransactionIdIsNormal transactionId
      then (if transactionId = BootstrapTransactionId then TRANSACTION_STATUS_COMMITTED
            else if transactionId = FrozenTransactionId then TRANSACTION_STATUS_COMMITTED
            else TRANSACTION_STATUS_ABORTED, ca)
      else
        let (xidstatus, xidlsn) = TransactionIdGetStatus (clog l) transactionId
        in if xidstatus \<noteq> TRANSACTION_STATUS_IN_PROGRESS \<and> xidstatus \<noteq> TRANSACTION_STATUS_SUB_COMMITTED
           then (xidstatus, \<lparr>cachedFetchXid = transactionId, cachedFetchXidStatus = xidstatus,
                             cachedCommitLSN = xidlsn\<rparr>)
           else (xidstatus, ca))"

text \<open>The recursion to the parent; \<open>None\<close> stands for one that does not end.\<close>

partial_function (option) TransactionIdDidCommit ::
  "XactLog \<Rightarrow> FetchCache \<Rightarrow> TransactionId \<Rightarrow> (bool \<times> FetchCache) option" where
  "TransactionIdDidCommit l ca transactionId =
     (case TransactionLogFetch l ca transactionId of (xidstatus, ca1) \<Rightarrow>
        if xidstatus = TRANSACTION_STATUS_COMMITTED then Some (True, ca1)
        else if xidstatus = TRANSACTION_STATUS_SUB_COMMITTED
        then if TransactionIdPrecedes transactionId (TransactionXmin l) then Some (False, ca1)
             else if \<not> TransactionIdIsValid (SubTransGetParent (subtrans l) transactionId) then Some (False, ca1)
             else TransactionIdDidCommit l ca1 (SubTransGetParent (subtrans l) transactionId)
        else Some (False, ca1))"

declare TransactionIdDidCommit.simps [code]

partial_function (option) TransactionIdDidAbort ::
  "XactLog \<Rightarrow> FetchCache \<Rightarrow> TransactionId \<Rightarrow> (bool \<times> FetchCache) option" where
  "TransactionIdDidAbort l ca transactionId =
     (case TransactionLogFetch l ca transactionId of (xidstatus, ca1) \<Rightarrow>
        if xidstatus = TRANSACTION_STATUS_ABORTED then Some (True, ca1)
        else if xidstatus = TRANSACTION_STATUS_SUB_COMMITTED
        then if TransactionIdPrecedes transactionId (TransactionXmin l) then Some (True, ca1)
             else if \<not> TransactionIdIsValid (SubTransGetParent (subtrans l) transactionId) then Some (True, ca1)
             else TransactionIdDidAbort l ca1 (SubTransGetParent (subtrans l) transactionId)
        else Some (False, ca1))"

declare TransactionIdDidAbort.simps [code]

definition TransactionIdDidAbortForReader ::
  "XactLog \<Rightarrow> FetchCache \<Rightarrow> TransactionId \<Rightarrow> bool \<times> FetchCache" where
  "TransactionIdDidAbortForReader l ca transactionId =
     (case TransactionLogFetch l ca transactionId of (status, ca1) \<Rightarrow>
        (status = TRANSACTION_STATUS_ABORTED, ca1))"

definition TransactionIdIsKnownCompleted :: "FetchCache \<Rightarrow> TransactionId \<Rightarrow> bool" where
  "TransactionIdIsKnownCompleted ca transactionId = (if transactionId = cachedFetchXid ca then True else False)"

definition TransactionIdCommitTree :: "bool \<Rightarrow> ClogCtl \<Rightarrow> TransactionId \<Rightarrow> TransactionId list \<Rightarrow> ClogCtl" where
  "TransactionIdCommitTree InRecovery c xid xids =
     TransactionIdSetTreeStatus InRecovery c xid xids TRANSACTION_STATUS_COMMITTED 0"

definition TransactionIdAsyncCommitTree ::
  "bool \<Rightarrow> ClogCtl \<Rightarrow> TransactionId \<Rightarrow> TransactionId list \<Rightarrow> XLogRecPtr \<Rightarrow> ClogCtl" where
  "TransactionIdAsyncCommitTree InRecovery c xid xids lsn =
     TransactionIdSetTreeStatus InRecovery c xid xids TRANSACTION_STATUS_COMMITTED lsn"

definition TransactionIdAbortTree :: "bool \<Rightarrow> ClogCtl \<Rightarrow> TransactionId \<Rightarrow> TransactionId list \<Rightarrow> ClogCtl" where
  "TransactionIdAbortTree InRecovery c xid xids =
     TransactionIdSetTreeStatus InRecovery c xid xids TRANSACTION_STATUS_ABORTED 0"

definition TransactionIdGetCommitLSN :: "XactLog \<Rightarrow> FetchCache \<Rightarrow> TransactionId \<Rightarrow> XLogRecPtr" where
  "TransactionIdGetCommitLSN l ca xid =
     (if xid = cachedFetchXid ca then cachedCommitLSN ca
      else if \<not> TransactionIdIsNormal xid then 0
      else snd (TransactionIdGetStatus (clog l) xid))"

section \<open>The order of transaction ids\<close>

text \<open>
  Within a window of \<open>2 ^ 31\<close> ids from a base \<open>b\<close> the comparisons agree with the distance from
  the base, and so are a linear order there; across windows they are not transitive.
\<close>

definition dist :: "TransactionId \<Rightarrow> TransactionId \<Rightarrow> nat" where
  "dist b x = unat (x - b)"

definition in_window :: "TransactionId \<Rightarrow> TransactionId \<Rightarrow> bool" where
  "in_window b x \<longleftrightarrow> TransactionIdIsNormal x \<and> dist b x < 2 ^ 31"

lemma dist_inj: "dist b x = dist b y \<longleftrightarrow> x = y"
  by (metis dist_def diff_add_cancel word_unat_eq_iff)

lemma sint_diff_window:
  "dist b x < 2 ^ 31 \<Longrightarrow> dist b y < 2 ^ 31 \<Longrightarrow> sint (x - y) = int (dist b x) - int (dist b y)"
  using sint_diff32 [of "x - b" "y - b"] by (simp add: dist_def)

lemma window_order:
  assumes "in_window b x" "in_window b y"
  shows "TransactionIdPrecedes x y \<longleftrightarrow> dist b x < dist b y"
    and "TransactionIdPrecedesOrEquals x y \<longleftrightarrow> dist b x \<le> dist b y"
    and "TransactionIdFollows x y \<longleftrightarrow> dist b y < dist b x"
    and "TransactionIdFollowsOrEquals x y \<longleftrightarrow> dist b y \<le> dist b x"
  using assms sint_diff_window [of b x y]
  by (auto simp: in_window_def TransactionIdPrecedes_def TransactionIdPrecedesOrEquals_def
      TransactionIdFollows_def TransactionIdFollowsOrEquals_def)

lemma not_normal_precedes: "\<not> TransactionIdIsNormal x \<Longrightarrow> TransactionIdIsNormal y \<Longrightarrow> TransactionIdPrecedes x y"
  by (auto simp: TransactionIdPrecedes_def TransactionIdIsNormal_def)

lemma normal_window:
  "TransactionIdIsNormal x \<Longrightarrow> TransactionIdIsNormal b \<Longrightarrow> \<not> TransactionIdPrecedes x b \<longleftrightarrow> in_window b x"
  by (simp add: in_window_def TransactionIdPrecedes_def dist_def sint_neg32)

section \<open>The status functions against their specification\<close>

definition log_status :: "XactLog \<Rightarrow> TransactionId \<Rightarrow> XidStatus" where
  "log_status l x =
     (if \<not> TransactionIdIsNormal x
      then if x = BootstrapTransactionId \<or> x = FrozenTransactionId then TRANSACTION_STATUS_COMMITTED
           else TRANSACTION_STATUS_ABORTED
      else status_of (clog l) x)"

text \<open>The cache is empty or holds the final status of a normal transaction.\<close>

definition cache_ok :: "XactLog \<Rightarrow> FetchCache \<Rightarrow> bool" where
  "cache_ok l ca \<longleftrightarrow> cachedFetchXid ca = InvalidTransactionId \<or>
     TransactionIdIsNormal (cachedFetchXid ca) \<and>
     TransactionIdGetStatus (clog l) (cachedFetchXid ca) = (cachedFetchXidStatus ca, cachedCommitLSN ca) \<and>
     cachedFetchXidStatus ca \<in> {TRANSACTION_STATUS_COMMITTED, TRANSACTION_STATUS_ABORTED}"

text \<open>Parents are older than their children, as far back as \<open>TransactionXmin\<close>.\<close>

definition log_ok :: "XactLog \<Rightarrow> bool" where
  "log_ok l \<longleftrightarrow> TransactionIdIsNormal (TransactionXmin l) \<and>
     (\<forall>x. in_window (TransactionXmin l) x \<and> TransactionIdIsValid (parent (subtrans l x)) \<longrightarrow>
        TransactionIdPrecedes (parent (subtrans l x)) (TransactionXmin l) \<or>
        in_window (TransactionXmin l) (parent (subtrans l x)) \<and>
        dist (TransactionXmin l) (parent (subtrans l x)) < dist (TransactionXmin l) x)"

lemma status_of_values:
  "status_of c x \<in> {TRANSACTION_STATUS_IN_PROGRESS, TRANSACTION_STATUS_COMMITTED,
     TRANSACTION_STATUS_ABORTED, TRANSACTION_STATUS_SUB_COMMITTED}"
proof -
  have "unat (status_of c x) \<le> unat (3 :: uint8)"
    unfolding status_of_bits by (meson word_and_le1 word_le_nat_alt)
  then have "unat (status_of c x) \<in> {0, 1, 2, 3}" by auto
  then show ?thesis by (auto simp: xid_status_defs word_unat_eq_iff)
qed

lemma TransactionLogFetch_log_status:
  assumes "cache_ok l ca" "x \<noteq> InvalidTransactionId"
  shows "fst (TransactionLogFetch l ca x) = log_status l x \<and> cache_ok l (snd (TransactionLogFetch l ca x))"
proof (cases "x = cachedFetchXid ca")
  case True
  with assms show ?thesis by (auto simp: TransactionLogFetch_def log_status_def cache_ok_def status_of_def)
next
  case False
  with assms status_of_values [of "clog l" x] show ?thesis
    by (auto simp: TransactionLogFetch_def log_status_def cache_ok_def status_of_def case_prod_unfold Let_def)
qed

inductive commits :: "XactLog \<Rightarrow> TransactionId \<Rightarrow> bool" for l where
  committed: "log_status l x = TRANSACTION_STATUS_COMMITTED \<Longrightarrow> commits l x"
| through_parent: "log_status l x = TRANSACTION_STATUS_SUB_COMMITTED \<Longrightarrow>
    \<not> TransactionIdPrecedes x (TransactionXmin l) \<Longrightarrow>
    TransactionIdIsValid (SubTransGetParent (subtrans l) x) \<Longrightarrow>
    commits l (SubTransGetParent (subtrans l) x) \<Longrightarrow> commits l x"

inductive aborts :: "XactLog \<Rightarrow> TransactionId \<Rightarrow> bool" for l where
  aborted: "log_status l x = TRANSACTION_STATUS_ABORTED \<Longrightarrow> aborts l x"
| forgotten: "log_status l x = TRANSACTION_STATUS_SUB_COMMITTED \<Longrightarrow>
    TransactionIdPrecedes x (TransactionXmin l) \<or> \<not> TransactionIdIsValid (SubTransGetParent (subtrans l) x) \<Longrightarrow>
    aborts l x"
| parent_aborted: "log_status l x = TRANSACTION_STATUS_SUB_COMMITTED \<Longrightarrow>
    \<not> TransactionIdPrecedes x (TransactionXmin l) \<Longrightarrow>
    TransactionIdIsValid (SubTransGetParent (subtrans l) x) \<Longrightarrow>
    aborts l (SubTransGetParent (subtrans l) x) \<Longrightarrow> aborts l x"

inductive_simps commits_iff: "commits l x"
inductive_simps aborts_iff: "aborts l x"

lemma SUB_COMMITTED_normal: "log_status l x = TRANSACTION_STATUS_SUB_COMMITTED \<Longrightarrow> TransactionIdIsNormal x"
  by (auto simp: log_status_def xid_status_defs split: if_splits)

text \<open>Induction along the parents of a subcommitted transaction.\<close>

lemma parent_induct [consumes 1, case_names step]:
  assumes ok: "log_ok l"
    and step: "\<And>x. (log_status l x = TRANSACTION_STATUS_SUB_COMMITTED \<Longrightarrow>
        \<not> TransactionIdPrecedes x (TransactionXmin l) \<Longrightarrow>
        TransactionIdIsValid (SubTransGetParent (subtrans l) x) \<Longrightarrow> P (SubTransGetParent (subtrans l) x)) \<Longrightarrow> P x"
  shows "P x"
proof -
  let ?m = "TransactionXmin l"
  let ?d = "\<lambda>x. if in_window ?m x then Suc (dist ?m x) else 0"
  show ?thesis
  proof (induction "?d x" arbitrary: x rule: less_induct)
    case less
    show ?case
    proof (rule step)
      assume sub: "log_status l x = TRANSACTION_STATUS_SUB_COMMITTED"
        and old: "\<not> TransactionIdPrecedes x ?m" and val: "TransactionIdIsValid (SubTransGetParent (subtrans l) x)"
      have nx: "TransactionIdIsNormal x" using SUB_COMMITTED_normal [OF sub] .
      have nm: "TransactionIdIsNormal ?m" using ok by (simp add: log_ok_def)
      have wx: "in_window ?m x" using normal_window [OF nx nm] old by simp
      have p: "SubTransGetParent (subtrans l) x = parent (subtrans l x)"
        using nx by (simp add: SubTransGetParent_def SubTransGetData_def Let_def)
      let ?p = "parent (subtrans l x)"
      have "TransactionIdPrecedes ?p ?m \<or> in_window ?m ?p \<and> dist ?m ?p < dist ?m x"
        using ok wx val unfolding log_ok_def p by blast
      then have "?d ?p < ?d x"
        using wx normal_window [of ?p ?m] nm by (auto simp: in_window_def)
      then show "P (SubTransGetParent (subtrans l) x)" unfolding p by (rule less)
    qed
  qed
qed

lemma TransactionIdDidCommit_commits:
  assumes "log_ok l"
  shows "cache_ok l ca \<Longrightarrow> x \<noteq> InvalidTransactionId \<Longrightarrow>
    \<exists>ca'. TransactionIdDidCommit l ca x = Some (commits l x, ca') \<and> cache_ok l ca'"
  using assms
proof (induction x arbitrary: ca rule: parent_induct)
  case (step x)
  obtain ca1 where f: "TransactionLogFetch l ca x = (log_status l x, ca1)" "cache_ok l ca1"
    using TransactionLogFetch_log_status [OF step.prems] by (metis prod.collapse)
  show ?case
  proof (cases "log_status l x = TRANSACTION_STATUS_SUB_COMMITTED \<and> \<not> TransactionIdPrecedes x (TransactionXmin l) \<and>
      TransactionIdIsValid (SubTransGetParent (subtrans l) x)")
    case True
    then have "\<exists>ca'. TransactionIdDidCommit l ca1 (SubTransGetParent (subtrans l) x) =
        Some (commits l (SubTransGetParent (subtrans l) x), ca') \<and> cache_ok l ca'"
      using step.IH f(2) by (simp add: TransactionIdIsValid_def)
    with True f show ?thesis
      by (subst TransactionIdDidCommit.simps) (auto simp: commits_iff [of l x] xid_status_defs)
  next
    case False
    with f show ?thesis
      by (subst TransactionIdDidCommit.simps) (auto simp: commits_iff [of l x] xid_status_defs)
  qed
qed

lemma TransactionIdDidAbort_aborts:
  assumes "log_ok l"
  shows "cache_ok l ca \<Longrightarrow> x \<noteq> InvalidTransactionId \<Longrightarrow>
    \<exists>ca'. TransactionIdDidAbort l ca x = Some (aborts l x, ca') \<and> cache_ok l ca'"
  using assms
proof (induction x arbitrary: ca rule: parent_induct)
  case (step x)
  obtain ca1 where f: "TransactionLogFetch l ca x = (log_status l x, ca1)" "cache_ok l ca1"
    using TransactionLogFetch_log_status [OF step.prems] by (metis prod.collapse)
  show ?case
  proof (cases "log_status l x = TRANSACTION_STATUS_SUB_COMMITTED \<and> \<not> TransactionIdPrecedes x (TransactionXmin l) \<and>
      TransactionIdIsValid (SubTransGetParent (subtrans l) x)")
    case True
    then have "\<exists>ca'. TransactionIdDidAbort l ca1 (SubTransGetParent (subtrans l) x) =
        Some (aborts l (SubTransGetParent (subtrans l) x), ca') \<and> cache_ok l ca'"
      using step.IH f(2) by (simp add: TransactionIdIsValid_def)
    with True f show ?thesis
      by (subst TransactionIdDidAbort.simps) (auto simp: aborts_iff [of l x] xid_status_defs)
  next
    case False
    with f show ?thesis
      by (subst TransactionIdDidAbort.simps) (auto simp: aborts_iff [of l x] xid_status_defs)
  qed
qed

lemma commits_not_aborts: "commits l x \<Longrightarrow> \<not> aborts l x"
proof (induction rule: commits.induct)
  case (committed x)
  then show ?case unfolding aborts_iff [of l x] by (simp add: xid_status_defs)
next
  case (through_parent x)
  then show ?case unfolding aborts_iff [of l x] by (simp add: xid_status_defs)
qed

section \<open>Topmost parents\<close>

text \<open>
  Every entry either has no parent and is its own topmost transaction, or has the topmost
  transaction of its parent.
\<close>

definition tops_ok :: "SubTrans \<Rightarrow> bool" where
  "tops_ok st \<longleftrightarrow> (\<forall>x. TransactionIdIsNormal x \<longrightarrow>
     SubTransGetTopmostTransaction st x =
       (if SubTransGetParent st x = InvalidTransactionId then x
        else SubTransGetTopmostTransaction st (SubTransGetParent st x)))"

lemma SubTransGetData_SetParent:
  assumes "TransactionIdIsNormal xid" "par \<noteq> InvalidTransactionId"
  shows "SubTransGetData (SubTransSetParent st xid par) y =
    (if y = xid then
       \<lparr>parent = par, topMostParent = (let top = topMostParent (SubTransGetData st par)
          in if top = InvalidTransactionId then xid else top)\<rparr>
     else SubTransGetData st y)"
  using assms by (auto simp: SubTransGetData_def SubTransSetParent_def Let_def)

lemma topmost_valid: "x \<noteq> InvalidTransactionId \<Longrightarrow> SubTransGetTopmostTransaction st x \<noteq> InvalidTransactionId"
  by (auto simp: SubTransGetTopmostTransaction_def SubTransGetData_def Let_def)

lemma tops_ok_SetParent:
  assumes tops: "tops_ok st" and xid: "TransactionIdIsNormal xid" and par: "par \<noteq> InvalidTransactionId" "par \<noteq> xid"
    and fresh: "\<And>y. TransactionIdIsNormal y \<Longrightarrow> SubTransGetParent st y \<noteq> xid"
  shows "tops_ok (SubTransSetParent st xid par)"
    and "SubTransGetTopmostTransaction (SubTransSetParent st xid par) xid = SubTransGetTopmostTransaction st par"
    and "y \<noteq> xid \<Longrightarrow> SubTransGetTopmostTransaction (SubTransSetParent st xid par) y = SubTransGetTopmostTransaction st y"
proof -
  note data = SubTransGetData_SetParent [OF xid par(1), of st]
  show top: "SubTransGetTopmostTransaction (SubTransSetParent st xid par) xid = SubTransGetTopmostTransaction st par"
    using topmost_valid [OF par(1), of st] by (simp add: SubTransGetTopmostTransaction_def data Let_def)
  show oth: "y \<noteq> xid \<Longrightarrow> SubTransGetTopmostTransaction (SubTransSetParent st xid par) y = SubTransGetTopmostTransaction st y"
    for y by (simp add: SubTransGetTopmostTransaction_def data)
  have parents: "SubTransGetParent (SubTransSetParent st xid par) y = (if y = xid then par else SubTransGetParent st y)" for y
    by (simp add: SubTransGetParent_def data)
  show "tops_ok (SubTransSetParent st xid par)"
    unfolding tops_ok_def
  proof (intro allI impI)
    fix y assume y: "TransactionIdIsNormal y"
    have "SubTransGetTopmostTransaction st y =
        (if SubTransGetParent st y = InvalidTransactionId then y
         else SubTransGetTopmostTransaction st (SubTransGetParent st y))"
      using tops y unfolding tops_ok_def by blast
    then show "SubTransGetTopmostTransaction (SubTransSetParent st xid par) y =
        (if SubTransGetParent (SubTransSetParent st xid par) y = InvalidTransactionId then y
         else SubTransGetTopmostTransaction (SubTransSetParent st xid par)
           (SubTransGetParent (SubTransSetParent st xid par) y))"
      using top oth fresh [OF y] par by (cases "y = xid") (simp_all add: parents)
  qed
qed

section \<open>Commit of a tree\<close>

text \<open>A transaction and its subtransactions, which lead to it by their parent links.\<close>

definition tree_ok :: "XactLog \<Rightarrow> TransactionId \<Rightarrow> TransactionId list \<Rightarrow> bool" where
  "tree_ok l xid subs \<longleftrightarrow> TransactionIdIsNormal xid \<and>
     (\<forall>s \<in> set subs. TransactionIdIsNormal s \<and> \<not> TransactionIdPrecedes s (TransactionXmin l) \<and>
        SubTransGetParent (subtrans l) s \<in> insert xid (set subs))"

lemma normal_valid: "TransactionIdIsNormal x \<Longrightarrow> TransactionIdIsValid x"
  by (auto simp: TransactionIdIsValid_def TransactionIdIsNormal_def xid_defs)

lemma tree_parent_valid:
  assumes "tree_ok l xid subs" "s \<in> set subs"
  shows "TransactionIdIsValid (SubTransGetParent (subtrans l) s)"
proof -
  have "SubTransGetParent (subtrans l) s \<in> insert xid (set subs)" using assms by (simp add: tree_ok_def)
  then have "TransactionIdIsNormal (SubTransGetParent (subtrans l) s)" using assms(1) by (auto simp: tree_ok_def)
  then show ?thesis by (rule normal_valid)
qed

lemma log_status_normal: "TransactionIdIsNormal x \<Longrightarrow> log_status l x = status_of (clog l) x"
  by (simp add: log_status_def)

lemma tree_running:
  assumes tree: "tree_ok l xid subs" and x: "log_status l xid = TRANSACTION_STATUS_IN_PROGRESS"
    and subs: "\<forall>s \<in> set subs. log_status l s \<noteq> TRANSACTION_STATUS_COMMITTED"
  shows "y \<in> insert xid (set subs) \<Longrightarrow> \<not> commits l y"
proof
  assume "commits l y" "y \<in> insert xid (set subs)"
  then show False
  proof (induction rule: commits.induct)
    case (committed y)
    then show ?case using x subs by (auto simp: xid_status_defs)
  next
    case (through_parent y)
    then have "y \<in> set subs" using x by (auto simp: xid_status_defs)
    with through_parent.IH tree show ?case by (auto simp: tree_ok_def)
  qed
qed

lemma tree_committed:
  assumes ok: "log_ok l" and tree: "tree_ok l xid subs" and x: "log_status l xid = TRANSACTION_STATUS_COMMITTED"
    and subs: "\<forall>s \<in> set subs. log_status l s \<in> {TRANSACTION_STATUS_COMMITTED, TRANSACTION_STATUS_SUB_COMMITTED}"
  shows "y \<in> insert xid (set subs) \<Longrightarrow> commits l y"
  using ok
proof (induction y rule: parent_induct)
  case (step y)
  show ?case
  proof (cases "log_status l y = TRANSACTION_STATUS_COMMITTED")
    case True
    then show ?thesis by (rule commits.committed)
  next
    case False
    then have y: "y \<in> set subs" "log_status l y = TRANSACTION_STATUS_SUB_COMMITTED" using step.prems x subs by auto
    have old: "\<not> TransactionIdPrecedes y (TransactionXmin l)"
      and par: "SubTransGetParent (subtrans l) y \<in> insert xid (set subs)" using tree y(1) by (auto simp: tree_ok_def)
    note val = tree_parent_valid [OF tree y(1)]
    show ?thesis by (rule commits.through_parent [OF y(2) old val step.IH [OF y(2) old val par]])
  qed
qed

lemma commit_steps_all_or_nothing:
  assumes ok: "log_ok l" and tree: "tree_ok l xid subs"
    and run: "status_of (clog l) xid = TRANSACTION_STATUS_IN_PROGRESS"
    and subs: "\<forall>s \<in> set subs. status_of (clog l) s \<noteq> TRANSACTION_STATUS_COMMITTED"
    and c': "c' \<in> set (tree_status_steps False (clog l) xid subs TRANSACTION_STATUS_COMMITTED lsn)"
  shows "(\<forall>y \<in> insert xid (set subs). commits (l\<lparr>clog := c'\<rparr>) y) \<or>
    (\<forall>y \<in> insert xid (set subs). \<not> commits (l\<lparr>clog := c'\<rparr>) y)"
proof -
  let ?l = "l\<lparr>clog := c'\<rparr>"
  have tree': "tree_ok ?l xid subs" and ok': "log_ok ?l" using tree ok by (simp_all add: tree_ok_def log_ok_def)
  have n: "TransactionIdIsNormal xid" "\<And>s. s \<in> set subs \<Longrightarrow> TransactionIdIsNormal s" using tree by (auto simp: tree_ok_def)
  then have st: "log_status ?l y = status_of c' y" if "y \<in> insert xid (set subs)" for y
    using that by (auto simp: log_status_normal)
  have x0: "xid \<noteq> 0" using n(1) by (auto simp: TransactionIdIsNormal_def xid_defs)
  from commit_steps_states [OF x0 c'] show ?thesis
  proof
    assume "\<exists>W \<subseteq> set subs. \<forall>y. status_of c' y =
        (if y \<in> W then TRANSACTION_STATUS_SUB_COMMITTED else status_of (clog l) y)"
    then obtain W where W: "W \<subseteq> set subs" "\<forall>y. status_of c' y =
        (if y \<in> W then TRANSACTION_STATUS_SUB_COMMITTED else status_of (clog l) y)" by blast
    show ?thesis
    proof (cases "xid \<in> set subs")
      case False
      then have "log_status ?l xid = TRANSACTION_STATUS_IN_PROGRESS" using W run st by auto
      moreover have "\<forall>s \<in> set subs. log_status ?l s \<noteq> TRANSACTION_STATUS_COMMITTED"
        using W subs st by (auto simp: xid_status_defs)
      ultimately show ?thesis using tree_running [OF tree'] by blast
    next
      case True
      have "\<not> commits ?l y" if y: "y \<in> insert xid (set subs)" for y
      proof
        assume "commits ?l y"
        then show False using y
        proof (induction rule: commits.induct)
          case (committed y)
          then show ?case using W subs True st [of y] by (auto simp: xid_status_defs split: if_splits)
        next
          case (through_parent y)
          then show ?case using True tree' by (auto simp: tree_ok_def)
        qed
      qed
      then show ?thesis by blast
    qed
  next
    assume "\<exists>W \<subseteq> set subs. \<forall>y. status_of c' y =
        (if y = xid \<or> y \<in> W then TRANSACTION_STATUS_COMMITTED
         else if y \<in> set subs then TRANSACTION_STATUS_SUB_COMMITTED else status_of (clog l) y)"
    then obtain W where W: "W \<subseteq> set subs" "\<forall>y. status_of c' y =
        (if y = xid \<or> y \<in> W then TRANSACTION_STATUS_COMMITTED
         else if y \<in> set subs then TRANSACTION_STATUS_SUB_COMMITTED else status_of (clog l) y)" by blast
    then have "log_status ?l xid = TRANSACTION_STATUS_COMMITTED"
      "\<forall>s \<in> set subs. log_status ?l s \<in> {TRANSACTION_STATUS_COMMITTED, TRANSACTION_STATUS_SUB_COMMITTED}"
      using st by auto
    then show ?thesis using tree_committed [OF ok' tree'] by blast
  qed
qed

section \<open>Properties\<close>

text \<open>
  C20.  A commit is atomic for readers: after every step of \<open>TransactionIdSetTreeStatus\<close>, also
  between the pages of the commit log, \<open>TransactionIdDidCommit\<close> ends and gives the same answer
  for the transaction and for each of its subtransactions.
\<close>

theorem commit_is_atomic:
  assumes "log_ok l" "tree_ok l xid subs" "s \<in> set subs"
    and "fst (TransactionIdGetStatus (clog l) xid) = TRANSACTION_STATUS_IN_PROGRESS"
    and "\<forall>s \<in> set subs. fst (TransactionIdGetStatus (clog l) s) \<noteq> TRANSACTION_STATUS_COMMITTED"
    and "c' \<in> set (tree_status_steps False (clog l) xid subs TRANSACTION_STATUS_COMMITTED lsn)"
    and "cache_ok (l\<lparr>clog := c'\<rparr>) ca"
  shows "\<exists>b ca1 ca2. TransactionIdDidCommit (l\<lparr>clog := c'\<rparr>) ca s = Some (b, ca1) \<and>
    TransactionIdDidCommit (l\<lparr>clog := c'\<rparr>) ca xid = Some (b, ca2)"
proof -
  let ?l = "l\<lparr>clog := c'\<rparr>"
  have ok: "log_ok ?l" using assms(1) by (simp add: log_ok_def)
  have ne: "y \<noteq> InvalidTransactionId" if "y \<in> insert xid (set subs)" for y
    using assms(2) that by (auto simp: tree_ok_def TransactionIdIsNormal_def xid_defs)
  have "commits ?l s = commits ?l xid"
    using commit_steps_all_or_nothing [OF assms(1,2) _ _ assms(6)] assms(3-5) by (auto simp: status_of_def)
  then show ?thesis
    using TransactionIdDidCommit_commits [OF ok assms(7) ne, of s] TransactionIdDidCommit_commits [OF ok assms(7) ne, of xid]
      assms(3) by auto
qed

text \<open>Transaction 131070 with subtransactions on two pages; the state after the first step.\<close>

definition example_tree :: XactLog where
  "example_tree = \<lparr>clog = \<lparr>page_buffer = (\<lambda>p b. 0), group_lsn = (\<lambda>p g. 0)\<rparr>,
     subtrans = (\<lambda>x. if x = 131071 then \<lparr>parent = 131070, topMostParent = 131070\<rparr>
       else if x = 131072 then \<lparr>parent = 131071, topMostParent = 131070\<rparr>
       else \<lparr>parent = 0, topMostParent = 0\<rparr>), TransactionXmin = 100\<rparr>"

theorem commit_is_atomic_witness:
  "\<exists>c'. c' = hd (tree_status_steps False (clog example_tree) 131070 [131071, 131072] TRANSACTION_STATUS_COMMITTED 0) \<and>
     fst (TransactionIdGetStatus c' 131072) = TRANSACTION_STATUS_SUB_COMMITTED \<and>
     (\<exists>b ca1 ca2. TransactionIdDidCommit (example_tree\<lparr>clog := c'\<rparr>)
         \<lparr>cachedFetchXid = 0, cachedFetchXidStatus = 0, cachedCommitLSN = 0\<rparr> 131072 = Some (b, ca1) \<and>
       TransactionIdDidCommit (example_tree\<lparr>clog := c'\<rparr>)
         \<lparr>cachedFetchXid = 0, cachedFetchXidStatus = 0, cachedCommitLSN = 0\<rparr> 131070 = Some (b, ca2))"
proof -
  let ?ca = "\<lparr>cachedFetchXid = 0, cachedFetchXidStatus = 0, cachedCommitLSN = 0\<rparr>"
  let ?steps = "tree_status_steps False (clog example_tree) 131070 [131071, 131072] TRANSACTION_STATUS_COMMITTED 0"
  have l: "log_ok example_tree"
    by (simp add: log_ok_def example_tree_def in_window_def dist_def TransactionIdIsNormal_def TransactionIdIsValid_def xid_defs)
  have t: "tree_ok example_tree 131070 [131071, 131072]"
    by (simp add: tree_ok_def example_tree_def SubTransGetParent_def SubTransGetData_def TransactionIdIsNormal_def
        TransactionIdPrecedes_def xid_defs)
  have "?steps \<noteq> []" by (simp add: tree_status_steps_def Let_def)
  then have h: "hd ?steps \<in> set ?steps" by (rule hd_in_set)
  have c: "cache_ok (example_tree\<lparr>clog := hd ?steps\<rparr>) ?ca" by (simp add: cache_ok_def xid_defs)
  have s: "fst (TransactionIdGetStatus (clog example_tree) x) = TRANSACTION_STATUS_IN_PROGRESS" for x
    by (simp add: example_tree_def TransactionIdGetStatus_def Let_def xid_status_defs)
  have "fst (TransactionIdGetStatus (hd ?steps) 131072) = TRANSACTION_STATUS_SUB_COMMITTED" by code_simp
  moreover have "\<exists>b ca1 ca2. TransactionIdDidCommit (example_tree\<lparr>clog := hd ?steps\<rparr>) ?ca 131072 = Some (b, ca1) \<and>
      TransactionIdDidCommit (example_tree\<lparr>clog := hd ?steps\<rparr>) ?ca 131070 = Some (b, ca2)"
    by (rule commit_is_atomic [OF l t _ _ _ h c]) (simp_all add: s, simp add: xid_status_defs)
  ultimately show ?thesis by blast
qed

text \<open>
  C28.  \<open>TransactionIdDidCommit\<close> and \<open>TransactionIdDidAbort\<close> end on every id, are never both true, and
  with the one-entry cache answer as the log does without it; the cache stays sound.
\<close>

theorem DidCommit_DidAbort_correct:
  assumes "log_ok l" "cache_ok l ca" "x \<noteq> InvalidTransactionId"
  shows "\<exists>c a ca1 ca2. TransactionIdDidCommit l ca x = Some (c, ca1) \<and> TransactionIdDidAbort l ca x = Some (a, ca2) \<and>
    \<not> (c \<and> a) \<and> (c \<longleftrightarrow> commits l x) \<and> (a \<longleftrightarrow> aborts l x) \<and> cache_ok l ca1 \<and> cache_ok l ca2"
  using TransactionIdDidCommit_commits [OF assms] TransactionIdDidAbort_aborts [OF assms] commits_not_aborts [of l x] by blast

theorem DidCommit_DidAbort_correct_witness:
  "\<exists>c a ca1 ca2. TransactionIdDidCommit example_tree \<lparr>cachedFetchXid = 0, cachedFetchXidStatus = 0, cachedCommitLSN = 0\<rparr> 2 =
     Some (c, ca1) \<and> TransactionIdDidAbort example_tree \<lparr>cachedFetchXid = 0, cachedFetchXidStatus = 0, cachedCommitLSN = 0\<rparr> 2 =
     Some (a, ca2) \<and> commits example_tree 2 \<and> \<not> aborts example_tree 2"
proof -
  have l: "log_ok example_tree"
    by (simp add: log_ok_def example_tree_def in_window_def dist_def TransactionIdIsNormal_def TransactionIdIsValid_def xid_defs)
  have c: "cache_ok example_tree \<lparr>cachedFetchXid = 0, cachedFetchXidStatus = 0, cachedCommitLSN = 0\<rparr>"
    by (simp add: cache_ok_def xid_defs)
  have "commits example_tree 2"
    by (rule commits.committed) (simp add: log_status_def TransactionIdIsNormal_def xid_defs)
  then show ?thesis using DidCommit_DidAbort_correct [OF l c, of 2] by (auto simp: xid_defs)
qed

text \<open>
  C30.  On the ids of a window of \<open>2 ^ 31\<close>, the comparison of transaction ids modulo \<open>2 ^ 32\<close> is a
  strict linear order, and the four comparisons agree with each other.
\<close>

theorem xid_order_in_window:
  assumes "in_window b x" "in_window b y" "in_window b z"
  shows "\<not> TransactionIdPrecedes x x \<and>
    (TransactionIdPrecedes x y \<and> TransactionIdPrecedes y z \<longrightarrow> TransactionIdPrecedes x z) \<and>
    (TransactionIdPrecedes x y \<or> x = y \<or> TransactionIdPrecedes y x) \<and>
    (TransactionIdFollows x y \<longleftrightarrow> TransactionIdPrecedes y x) \<and>
    (TransactionIdPrecedesOrEquals x y \<longleftrightarrow> TransactionIdPrecedes x y \<or> x = y) \<and>
    (TransactionIdFollowsOrEquals x y \<longleftrightarrow> \<not> TransactionIdPrecedes x y)"
  using assms dist_inj [of b x y] by (auto simp: window_order [of b])

text \<open>A window across the end of the id space.\<close>

theorem xid_order_in_window_witness:
  "TransactionIdPrecedes 0xFFFFFFF0 5 \<and> TransactionIdPrecedes 5 100 \<and> TransactionIdPrecedes 0xFFFFFFF0 100 \<and>
   TransactionIdFollows 5 0xFFFFFFF0"
proof -
  have w: "in_window 0xFFFFFF00 0xFFFFFFF0" "in_window 0xFFFFFF00 5" "in_window 0xFFFFFF00 100"
    by (simp_all add: in_window_def dist_def TransactionIdIsNormal_def xid_defs)
  have "TransactionIdPrecedes 0xFFFFFFF0 5" "TransactionIdPrecedes 5 100" by code_simp+
  with xid_order_in_window [OF w] xid_order_in_window [OF w(2,1,3)] show ?thesis by blast
qed

text \<open>
  Recording a parent keeps the topmost links right: the new subtransaction gets the topmost
  transaction of its parent, every other transaction keeps its own.
\<close>

theorem SubTransSetParent_keeps_tops:
  assumes "tops_ok st" "TransactionIdIsNormal xid" "par \<noteq> InvalidTransactionId" "par \<noteq> xid"
    and "\<And>y. TransactionIdIsNormal y \<Longrightarrow> SubTransGetParent st y \<noteq> xid"
  shows "tops_ok (SubTransSetParent st xid par) \<and> SubTransGetParent (SubTransSetParent st xid par) xid = par \<and>
    SubTransGetTopmostTransaction (SubTransSetParent st xid par) y =
      SubTransGetTopmostTransaction st (if y = xid then par else y)"
  using tops_ok_SetParent [OF assms] SubTransGetData_SetParent [OF assms(2,3), of st] by (simp add: SubTransGetParent_def)

theorem SubTransSetParent_keeps_tops_witness:
  "tops_ok (SubTransSetParent (SubTransSetParent (\<lambda>x. \<lparr>parent = 0, topMostParent = 0\<rparr>) 11 10) 12 11) \<and>
   SubTransGetTopmostTransaction (SubTransSetParent (SubTransSetParent (\<lambda>x. \<lparr>parent = 0, topMostParent = 0\<rparr>) 11 10) 12 11) 12 = 10"
proof -
  let ?s0 = "\<lambda>x. \<lparr>parent = 0, topMostParent = 0\<rparr>" and ?s1 = "SubTransSetParent (\<lambda>x. \<lparr>parent = 0, topMostParent = 0\<rparr>) 11 10"
  have n: "TransactionIdIsNormal 11" "TransactionIdIsNormal 12" by (simp_all add: TransactionIdIsNormal_def xid_defs)
  have p0: "SubTransGetParent ?s0 y = 0" for y
    by (simp add: SubTransGetParent_def SubTransGetData_def xid_defs)
  then have "tops_ok ?s0"
    by (simp add: tops_ok_def SubTransGetTopmostTransaction_def SubTransGetData_def xid_defs)
  moreover have "SubTransGetTopmostTransaction ?s0 10 = 10"
    by (simp add: SubTransGetTopmostTransaction_def SubTransGetData_def xid_defs)
  ultimately have s1: "tops_ok ?s1" "SubTransGetTopmostTransaction ?s1 11 = 10"
    using SubTransSetParent_keeps_tops [of ?s0 11 10 11] n(1) p0 by (simp_all add: xid_defs)
  have p1: "SubTransGetParent ?s1 y \<noteq> 12" for y
    using SubTransGetData_SetParent [OF n(1), of 10 ?s0 y]
    by (simp add: SubTransGetParent_def xid_defs) (simp add: SubTransGetData_def xid_defs)
  from SubTransSetParent_keeps_tops [OF s1(1) n(2) _ _ p1, of 11 12] s1(2) show ?thesis by (simp add: xid_defs)
qed

end
