(* ===== verification/XactStack.thy ===== *)
theory XactStack
  imports Transam
begin

text \<open>
  The transaction state stack of \<open>access/transam/xact.c\<close>: what pushes, pops and subcommits do
  to it, and the search for a transaction id with its skip links and binary search.  The stack
  is a list with \<open>TopTransactionStateData\<close> first and \<open>CurrentTransactionState\<close> last; a
  \<open>TransactionState\<close> pointer is a position in it.  Fields the search never reads (names, memory
  contexts, resource owners, user ids) are left out.
\<close>

section \<open>State\<close>

datatype TransState =
  TRANS_DEFAULT | TRANS_START | TRANS_INPROGRESS | TRANS_COMMIT | TRANS_ABORT | TRANS_PREPARE

record TransactionStateData =
  transactionId :: TransactionId
  subTransactionId :: uint32
  state :: TransState
  nestingLevel :: int
  childXids :: "TransactionId list"
  fastLink :: "nat option"

record XactStack =
  nodes :: "TransactionStateData list"
  fastNodeCount :: int
  previousFastLink :: "nat option"
  currentSubTransactionId :: uint32

datatype XactError =
  ProgramLimitExceeded
| NoParent
| NoWriterProc
| InvalidWriterProc

section \<open>Operations\<close>

definition PushTransaction :: "XactStack \<Rightarrow> XactError + XactStack" where
  "PushTransaction st =
     (if currentSubTransactionId st + 1 = 0 then Inl ProgramLimitExceeded
      else
        let p = last (nodes st);
            pos = length (nodes st);
            count = fastNodeCount st + 1;
            fast = (count = 100);
            s = \<lparr>transactionId = InvalidTransactionId,
                 subTransactionId = currentSubTransactionId st + 1,
                 state = TRANS_DEFAULT,
                 nestingLevel = nestingLevel p + 1,
                 childXids = [],
                 fastLink = (if fast then previousFastLink st else None)\<rparr>
        in Inr \<lparr>nodes = nodes st @ [s],
                fastNodeCount = (if fast then 0 else count),
                previousFastLink = (if fast then Some pos else previousFastLink st),
                currentSubTransactionId = currentSubTransactionId st + 1\<rparr>)"

definition PopTransaction :: "XactStack \<Rightarrow> XactError + XactStack" where
  "PopTransaction st =
     (let s = last (nodes st); pos = length (nodes st) - 1
      in if pos = 0 then Inl NoParent
         else
           let count = (if fastNodeCount st \<noteq> 0 then fastNodeCount st - 1 else fastNodeCount st)
           in Inr (st\<lparr>nodes := butlast (nodes st),
                      fastNodeCount := (if previousFastLink st = Some pos then 100 - 1 else count),
                      previousFastLink := (if previousFastLink st = Some pos then fastLink s
                                           else previousFastLink st)\<rparr>))"

text \<open>
  The child's id and its children's ids go to the end of the parent's array.  The limit is what
  \<open>MaxAllocSize\<close> leaves for the array.
\<close>

definition max_child_xids :: int where
  "max_child_xids = 0x3fffffff div 4"

definition AtSubCommit_childXids :: "XactStack \<Rightarrow> XactError + XactStack" where
  "AtSubCommit_childXids st =
     (let s = last (nodes st); pos = length (nodes st) - 1;
          par = nodes st ! (pos - 1);
          new_nChildXids = int (length (childXids par)) + int (length (childXids s)) + 1
      in if new_nChildXids > max_child_xids then Inl ProgramLimitExceeded
         else Inr (st\<lparr>nodes := (nodes st)
           [pos - 1 := par\<lparr>childXids := childXids par @ transactionId s # childXids s\<rparr>,
            pos := s\<lparr>childXids := []\<rparr>]\<rparr>))"

definition AtSubAbort_childXids :: "XactStack \<Rightarrow> XactStack" where
  "AtSubAbort_childXids st =
     (let s = last (nodes st); pos = length (nodes st) - 1
      in st\<lparr>nodes := (nodes st)[pos := s\<lparr>childXids := []\<rparr>]\<rparr>)"

text \<open>The binary search in one node's children, between \<open>low\<close> and \<open>high\<close>.\<close>

function search_children :: "TransactionId list \<Rightarrow> TransactionId \<Rightarrow> int \<Rightarrow> int \<Rightarrow> bool" where
  "search_children cs xid low high =
     (if low \<le> high
      then let middle = low + (high - low) div 2;
               probe = cs ! nat middle
           in if probe = xid then True
              else if TransactionIdPrecedes probe xid then search_children cs xid (middle + 1) high
              else search_children cs xid low (middle - 1)
      else False)"
  by pat_completeness auto
termination
  by (relation "measure (\<lambda>(c, x, low, high). nat (high - low + 1))") auto

declare search_children.simps [simp del]

text \<open>
  The loop over the stack.  \<open>n\<close> is one more than the position of \<open>s\<close>, 0 for \<open>NULL\<close>; \<open>None\<close> stands
  for a loop that does not end.
\<close>

definition next_node :: "TransactionStateData list \<Rightarrow> TransactionId \<Rightarrow> nat \<Rightarrow> nat" where
  "next_node ns xid n =
     (case fastLink (ns ! (n - 1)) of
        Some j \<Rightarrow> if TransactionIdPrecedesOrEquals xid (transactionId (ns ! j)) then Suc j else n - 1
      | None \<Rightarrow> n - 1)"

partial_function (option) search_stack ::
  "TransactionStateData list \<Rightarrow> TransactionId \<Rightarrow> nat \<Rightarrow> bool option" where
  "search_stack ns xid n =
     (if n = 0 then Some False
      else
        let s = ns ! (n - 1)
        in if state s \<noteq> TRANS_ABORT \<and> TransactionIdIsValid (transactionId s)
           then if xid = transactionId s then Some True
                else if search_children (childXids s) xid 0 (int (length (childXids s)) - 1) then Some True
                else if TransactionIdFollows xid (transactionId s) then Some False
                else search_stack ns xid (next_node ns xid n)
           else search_stack ns xid (next_node ns xid n))"

declare search_stack.simps [code]

definition TransactionIdIsCurrentTransactionIdInternal :: "XactStack \<Rightarrow> TransactionId \<Rightarrow> bool option" where
  "TransactionIdIsCurrentTransactionIdInternal st xid = search_stack (nodes st) xid (length (nodes st))"

section \<open>The invariant\<close>

text \<open>The ids a node answers for when it is not being aborted.\<close>

definition node_xids :: "TransactionStateData \<Rightarrow> TransactionId set" where
  "node_xids s = insert (transactionId s) (set (childXids s))"

definition live_xids :: "TransactionStateData \<Rightarrow> TransactionId set" where
  "live_xids s = (if state s \<noteq> TRANS_ABORT \<and> TransactionIdIsValid (transactionId s) then node_xids s else {})"

text \<open>
  From a base \<open>b\<close>: a node without an id has no children; ids are in the window of \<open>b\<close>; a node's
  own id comes before its children's, which are in strictly increasing order; and everything of
  a lower node comes before the id of a higher one.
\<close>

definition node_ok :: "TransactionId \<Rightarrow> TransactionStateData \<Rightarrow> bool" where
  "node_ok b s \<longleftrightarrow>
     (if TransactionIdIsValid (transactionId s)
      then (\<forall>x \<in> node_xids s. in_window b x) \<and>
           sorted_wrt (\<lambda>x y. dist b x < dist b y) (transactionId s # childXids s)
      else childXids s = [])"

definition stack_ok :: "TransactionId \<Rightarrow> TransactionStateData list \<Rightarrow> bool" where
  "stack_ok b ns \<longleftrightarrow>
     (\<forall>s \<in> set ns. node_ok b s) \<and>
     (\<forall>j < length ns. \<forall>i < j. TransactionIdIsValid (transactionId (ns ! j)) \<longrightarrow>
        TransactionIdIsValid (transactionId (ns ! i)) \<and>
        (\<forall>x \<in> node_xids (ns ! i). dist b x < dist b (transactionId (ns ! j)))) \<and>
     (\<forall>i < length ns. \<forall>j. fastLink (ns ! i) = Some j \<longrightarrow> j < i)"

section \<open>The search is a membership test\<close>

lemma search_children_sound: "search_children cs xid low high \<Longrightarrow> 0 \<le> low \<Longrightarrow> high < int (length cs) \<Longrightarrow> xid \<in> set cs"
proof (induction cs xid low high rule: search_children.induct)
  case (1 cs xid low high)
  show ?case
  proof (cases "low \<le> high")
    case True
    let ?m = "low + (high - low) div 2"
    have m: "low \<le> ?m" "?m \<le> high" using True by auto
    then have "cs ! nat ?m \<in> set cs" using "1.prems"(2,3) by (intro nth_mem) linarith
    with 1 True m show ?thesis
      by (subst (asm) search_children.simps) (auto simp: Let_def split: if_splits)
  next
    case False
    with "1.prems"(1) show ?thesis by (subst (asm) search_children.simps) simp
  qed
qed

lemma search_children_complete:
  assumes win: "\<forall>x \<in> set cs. in_window b x" and sorted: "sorted_wrt (\<lambda>x y. dist b x < dist b y) cs"
    and k: "k < length cs"
  shows "0 \<le> low \<Longrightarrow> low \<le> int k \<Longrightarrow> int k \<le> high \<Longrightarrow> high < int (length cs) \<Longrightarrow>
    search_children cs (cs ! k) low high"
proof (induction "nat (high - low + 1)" arbitrary: low high rule: less_induct)
  case less
  let ?m = "low + (high - low) div 2"
  have m: "low \<le> ?m" "?m \<le> high" using less.prems by auto
  then have nm: "nat ?m < length cs" using less.prems by linarith
  have lt: "i < j \<Longrightarrow> j < length cs \<Longrightarrow> dist b (cs ! i) < dist b (cs ! j)" for i j
    using sorted by (simp add: sorted_wrt_iff_nth_less)
  have prec: "TransactionIdPrecedes (cs ! nat ?m) (cs ! k) \<longleftrightarrow> nat ?m < k"
    using window_order(1) [of b "cs ! nat ?m" "cs ! k"] win nm k lt [of "nat ?m" k] lt [of k "nat ?m"]
    by (metis linorder_neqE_nat nth_mem order_less_asym order_less_irrefl)
  consider "nat ?m = k" | "nat ?m < k" | "k < nat ?m" by linarith
  then show ?case
  proof cases
    case 1
    then show ?thesis using less.prems by (subst search_children.simps) (simp add: Let_def)
  next
    case 2
    then have "search_children cs (cs ! k) (?m + 1) high" using less.prems m by (intro less.hyps) linarith+
    with 2 prec less.prems show ?thesis by (subst search_children.simps) (simp add: Let_def)
  next
    case 3
    then have "search_children cs (cs ! k) low (?m - 1)" using less.prems m by (intro less.hyps) linarith+
    with 3 prec less.prems show ?thesis by (subst search_children.simps) (simp add: Let_def)
  qed
qed

lemma search_children_iff:
  assumes "\<forall>x \<in> set cs. in_window b x" "sorted_wrt (\<lambda>x y. dist b x < dist b y) cs"
  shows "search_children cs xid 0 (int (length cs) - 1) \<longleftrightarrow> xid \<in> set cs"
  using search_children_sound [of cs xid 0 "int (length cs) - 1"] search_children_complete [OF assms]
  by (auto simp: in_set_conv_nth)


lemma live_xidsD:
  assumes "xid \<in> live_xids s" "node_ok b s"
  shows "xid \<in> node_xids s" "TransactionIdIsValid (transactionId s)" "in_window b xid"
    "dist b (transactionId s) \<le> dist b xid"
  using assms by (auto simp: live_xids_def node_ok_def node_xids_def split: if_splits)

lemma stack_okD:
  assumes "stack_ok b ns" "i < j" "j < length ns" "TransactionIdIsValid (transactionId (ns ! j))"
  shows "TransactionIdIsValid (transactionId (ns ! i))"
    "x \<in> node_xids (ns ! i) \<Longrightarrow> dist b x < dist b (transactionId (ns ! j))"
  using assms by (auto simp: stack_ok_def)

lemma node_own_window: "node_ok b s \<Longrightarrow> TransactionIdIsValid (transactionId s) \<Longrightarrow> in_window b (transactionId s)"
  by (simp add: node_ok_def node_xids_def)

lemma stack_ok_node: "stack_ok b ns \<Longrightarrow> i < length ns \<Longrightarrow> node_ok b (ns ! i)"
  by (simp add: stack_ok_def)

lemma search_children_node:
  assumes "node_ok b s" "TransactionIdIsValid (transactionId s)"
  shows "search_children (childXids s) xid 0 (int (length (childXids s)) - 1) \<longleftrightarrow> xid \<in> set (childXids s)"
  using assms by (intro search_children_iff [of _ b]) (auto simp: node_ok_def node_xids_def)

text \<open>What the early exit skips.\<close>

lemma break_skips:
  assumes ok: "stack_ok b ns" and n: "i < n - 1" "n \<le> length ns"
    and val: "TransactionIdIsValid (transactionId (ns ! (n - 1)))"
    and f: "TransactionIdFollows xid (transactionId (ns ! (n - 1)))"
  shows "xid \<notin> live_xids (ns ! i)"
proof
  assume "xid \<in> live_xids (ns ! i)"
  moreover have "node_ok b (ns ! i)" using stack_ok_node [OF ok, of i] n by simp
  ultimately have m: "xid \<in> node_xids (ns ! i)" "in_window b xid" by (rule live_xidsD)+
  then have "dist b xid < dist b (transactionId (ns ! (n - 1)))"
    using stack_okD(2) [OF ok n(1) _ val] n by simp
  moreover have "in_window b (transactionId (ns ! (n - 1)))"
    using node_own_window [OF stack_ok_node [OF ok] val] n by simp
  ultimately show False using window_order(3) [OF m(2)] f by auto
qed

text \<open>What the skip link skips.\<close>

lemma link_skips:
  assumes ok: "stack_ok b ns" and ij: "j < i" "i < length ns"
    and xid: "TransactionIdIsNormal xid" and le: "TransactionIdPrecedesOrEquals xid (transactionId (ns ! j))"
  shows "xid \<notin> live_xids (ns ! i)"
proof
  assume m: "xid \<in> live_xids (ns ! i)"
  note d = live_xidsD [OF m stack_ok_node [OF ok ij(2)]]
  have val: "TransactionIdIsValid (transactionId (ns ! j))" using stack_okD(1) [OF ok ij d(2)] .
  have w: "in_window b (transactionId (ns ! j))"
    using node_own_window [OF stack_ok_node [OF ok] val] ij by simp
  have "dist b (transactionId (ns ! j)) < dist b (transactionId (ns ! i))"
    using stack_okD(2) [OF ok ij d(2)] by (simp add: node_xids_def)
  with d(4) window_order(2) [OF d(3) w] le show False by simp
qed

lemma fastLink_less: "stack_ok b ns \<Longrightarrow> i < length ns \<Longrightarrow> fastLink (ns ! i) = Some j \<Longrightarrow> j < i"
  by (simp add: stack_ok_def)

lemma next_node_less: "stack_ok b ns \<Longrightarrow> 0 < n \<Longrightarrow> n \<le> length ns \<Longrightarrow> next_node ns xid n < n"
  using fastLink_less [of b ns "n - 1"] by (cases "fastLink (ns ! (n - 1))") (fastforce simp: next_node_def)+

lemma next_node_members:
  assumes ok: "stack_ok b ns" and n: "0 < n" "n \<le> length ns" and xid: "TransactionIdIsNormal xid"
  shows "(\<exists>i < next_node ns xid n. xid \<in> live_xids (ns ! i)) \<longleftrightarrow> (\<exists>i < n - 1. xid \<in> live_xids (ns ! i))"
proof -
  have "xid \<notin> live_xids (ns ! i)" if "next_node ns xid n \<le> i" "i < n - 1" for i
  proof -
    note gap = that
    obtain j where "next_node ns xid n = Suc j" "TransactionIdPrecedesOrEquals xid (transactionId (ns ! j))"
      using gap by (cases "fastLink (ns ! (n - 1))") (auto simp: next_node_def split: if_splits)
    with gap n xid link_skips [OF ok, of j i xid] show ?thesis by auto
  qed
  moreover have "next_node ns xid n \<le> n - 1" using next_node_less [OF ok n, of xid] by linarith
  ultimately show ?thesis by (meson leI less_le_trans)
qed

lemma search_stack_iff:
  assumes ok: "stack_ok b ns" and xid: "TransactionIdIsNormal xid"
  shows "n \<le> length ns \<Longrightarrow> search_stack ns xid n = Some (\<exists>i < n. xid \<in> live_xids (ns ! i))"
proof (induction n rule: less_induct)
  case (less n)
  show ?case
  proof (cases "n = 0")
    case True
    then show ?thesis by (subst search_stack.simps) simp
  next
    case False
    then have n: "0 < n" by simp
    let ?s = "ns ! (n - 1)"
    have split: "(\<exists>i < n. xid \<in> live_xids (ns ! i)) \<longleftrightarrow>
        xid \<in> live_xids ?s \<or> (\<exists>i < n - 1. xid \<in> live_xids (ns ! i))"
      using n by (metis Suc_pred' less_Suc_eq)
    have IH: "search_stack ns xid (next_node ns xid n) = Some (\<exists>i < n - 1. xid \<in> live_xids (ns ! i))"
      using less.IH [OF next_node_less [OF ok n less.prems]] next_node_less [OF ok n less.prems, of xid]
        next_node_members [OF ok n less.prems xid] less.prems by simp
    show ?thesis
    proof (cases "state ?s \<noteq> TRANS_ABORT \<and> TransactionIdIsValid (transactionId ?s)")
      case True
      have "search_children (childXids ?s) xid 0 (int (length (childXids ?s)) - 1) \<longleftrightarrow> xid \<in> set (childXids ?s)"
        using search_children_node [OF stack_ok_node [OF ok]] True n less.prems by simp
      moreover have "live_xids ?s = insert (transactionId ?s) (set (childXids ?s))"
        using True by (simp add: live_xids_def node_xids_def)
      moreover have "TransactionIdFollows xid (transactionId ?s) \<Longrightarrow> \<not> (\<exists>i < n - 1. xid \<in> live_xids (ns ! i))"
        using break_skips [OF ok _ less.prems] True by blast
      ultimately show ?thesis
        using True n IH unfolding split by (subst search_stack.simps) (auto simp: Let_def)
    next
      case no: False
      then have "live_xids ?s = {}" by (auto simp: live_xids_def)
      with no n IH show ?thesis unfolding split by (subst search_stack.simps) (auto simp: Let_def)
    qed
  qed
qed

section \<open>What keeps the invariant\<close>

definition xact_ok :: "TransactionId \<Rightarrow> XactStack \<Rightarrow> bool" where
  "xact_ok b st \<longleftrightarrow> nodes st \<noteq> [] \<and> stack_ok b (nodes st) \<and>
     (\<forall>j. previousFastLink st = Some j \<longrightarrow> j < length (nodes st))"

definition current_xids :: "XactStack \<Rightarrow> TransactionId set" where
  "current_xids st = (\<Union>s \<in> set (nodes st). live_xids s)"

lemma current_xids_nth: "xid \<in> current_xids st \<longleftrightarrow> (\<exists>i < length (nodes st). xid \<in> live_xids (nodes st ! i))"
  unfolding current_xids_def UN_iff by (metis in_set_conv_nth)

lemma stack_ok_append:
  assumes "stack_ok b ns" "\<not> TransactionIdIsValid (transactionId s)" "childXids s = []"
    "\<forall>j. fastLink s = Some j \<longrightarrow> j < length ns"
  shows "stack_ok b (ns @ [s])"
proof -
  have "node_ok b s" using assms(2,3) by (simp add: node_ok_def)
  with assms show ?thesis
    unfolding stack_ok_def by (auto simp: nth_append less_Suc_eq)
qed

lemma stack_ok_take:
  assumes "stack_ok b ns"
  shows "stack_ok b (take k ns)"
proof -
  have "node_ok b s" if "s \<in> set (take k ns)" for s
    using assms that by (auto simp: stack_ok_def dest: in_set_takeD)
  with assms show ?thesis unfolding stack_ok_def by auto
qed

lemma stack_ok_butlast: "stack_ok b ns \<Longrightarrow> stack_ok b (butlast ns)"
  using stack_ok_take by (simp add: butlast_conv_take)

lemma PushTransaction_ok:
  assumes "xact_ok b st" "PushTransaction st = Inr st'"
  shows "xact_ok b st' \<and> current_xids st' = current_xids st"
  using assms
  by (auto simp: PushTransaction_def xact_ok_def current_xids_def Let_def live_xids_def
      TransactionIdIsValid_def less_Suc_eq intro!: stack_ok_append split: if_splits)

lemma PopTransaction_ok:
  assumes ok: "xact_ok b st" and pop: "PopTransaction st = Inr st'"
  shows "xact_ok b st'"
proof -
  let ?pos = "length (nodes st) - 1"
  have pos: "0 < ?pos" and ns: "nodes st' = butlast (nodes st)"
    and pf: "previousFastLink st' =
      (if previousFastLink st = Some ?pos then fastLink (nodes st ! ?pos) else previousFastLink st)"
    using pop ok by (auto simp: PopTransaction_def xact_ok_def Let_def last_conv_nth split: if_splits)
  have "j < ?pos" if "previousFastLink st' = Some j" for j
  proof (cases "previousFastLink st = Some ?pos")
    case True
    then have "fastLink (nodes st ! ?pos) = Some j" using that pf by simp
    then show ?thesis using ok pos by (simp add: xact_ok_def stack_ok_def)
  next
    case False
    then have "j < length (nodes st)" "j \<noteq> ?pos" using that pf ok by (auto simp: xact_ok_def)
    then show ?thesis by simp
  qed
  moreover have "butlast (nodes st) \<noteq> []" using pos by (metis length_butlast less_irrefl list.size(3))
  ultimately show ?thesis using ok ns stack_ok_butlast by (simp add: xact_ok_def)
qed


text \<open>
  The end of \<open>CommitSubTransaction\<close> as far as the stack goes: the ids go to the parent, then the
  node goes.
\<close>

lemma subcommit_nodes:
  assumes ns: "nodes st = ns @ [p, s]" and c: "AtSubCommit_childXids st = Inr st1"
    and pop: "PopTransaction st1 = Inr st2"
  shows "nodes st2 = ns @ [p\<lparr>childXids := childXids p @ transactionId s # childXids s\<rparr>]"
    and "previousFastLink st2 = (if previousFastLink st = Some (Suc (length ns)) then fastLink s
      else previousFastLink st)"
  using c pop
  by (auto simp: AtSubCommit_childXids_def PopTransaction_def ns Let_def nth_append list_update_append
      butlast_append split: if_splits)

lemma stack_ok_last_parent:
  assumes ok: "stack_ok b (ns @ [p, s])" and val: "TransactionIdIsValid (transactionId s)"
  shows "stack_ok b (ns @ [p\<lparr>childXids := childXids p @ transactionId s # childXids s\<rparr>])"
proof -
  let ?p = "p\<lparr>childXids := childXids p @ transactionId s # childXids s\<rparr>"
  have np: "node_ok b p" and nsok: "node_ok b s" using ok by (auto simp: stack_ok_def)
  have below: "TransactionIdIsValid (transactionId p)" "\<forall>x \<in> node_xids p. dist b x < dist b (transactionId s)"
    using stack_okD [OF ok, of "length ns" "Suc (length ns)"] val by (auto simp: nth_append)
  have "\<forall>x \<in> node_xids s. dist b (transactionId s) \<le> dist b x"
    using nsok val by (auto simp: node_ok_def node_xids_def)
  then have "node_ok b ?p"
    using np nsok below val by (fastforce simp: node_ok_def node_xids_def sorted_wrt_append)
  moreover have "stack_ok b (ns @ [p])" using stack_ok_take [OF ok, of "Suc (length ns)"] by simp
  ultimately show ?thesis
    unfolding stack_ok_def by (auto simp: nth_append less_Suc_eq split: if_splits)
qed

lemma subcommit_ok:
  assumes ok: "xact_ok b st" and ns: "nodes st = ns @ [p, s]" and val: "TransactionIdIsValid (transactionId s)"
    and c: "AtSubCommit_childXids st = Inr st1" and pop: "PopTransaction st1 = Inr st2"
  shows "xact_ok b st2"
proof -
  note n = subcommit_nodes [OF ns c pop]
  have "stack_ok b (nodes st2)" using stack_ok_last_parent [of b ns p s] ok val by (simp add: n ns xact_ok_def)
  moreover have "j < Suc (length ns)" if "previousFastLink st2 = Some j" for j
  proof (cases "previousFastLink st = Some (Suc (length ns))")
    case True
    then have "fastLink ((ns @ [p, s]) ! Suc (length ns)) = Some j" using that n(2) by (simp add: nth_append)
    then show ?thesis using fastLink_less [of b "ns @ [p, s]" "Suc (length ns)" j] ok ns by (simp add: xact_ok_def)
  next
    case False
    then have "j < Suc (Suc (length ns))" "j \<noteq> Suc (length ns)" using that n(2) ok ns by (auto simp: xact_ok_def)
    then show ?thesis by simp
  qed
  ultimately show ?thesis by (simp add: xact_ok_def n(1))
qed

text \<open>The search finds exactly the current ids.\<close>

lemma Internal_iff_current:
  assumes "xact_ok b st" "TransactionIdIsNormal xid"
  shows "TransactionIdIsCurrentTransactionIdInternal st xid = Some (xid \<in> current_xids st)"
  using search_stack_iff [of b "nodes st" xid "length (nodes st)"] assms
  by (simp add: TransactionIdIsCurrentTransactionIdInternal_def xact_ok_def current_xids_nth)

section \<open>Properties\<close>

text \<open>
  C27.  With its early exit, skip links and binary search, the search for a normal transaction
  id in the state stack ends and answers exactly whether the id belongs to a node that is not
  being aborted, or to one of its subcommitted children.
\<close>

theorem IsCurrent_is_membership:
  assumes "xact_ok b st" "TransactionIdIsNormal xid"
  shows "TransactionIdIsCurrentTransactionIdInternal st xid = Some (xid \<in> current_xids st)"
  using assms by (rule Internal_iff_current)

text \<open>A transaction with a live subtransaction and one that was subcommitted before it.\<close>

definition example_stack :: XactStack where
  "example_stack =
     \<lparr>nodes = [\<lparr>transactionId = 100, subTransactionId = 1, state = TRANS_INPROGRESS, nestingLevel = 1,
                childXids = [101], fastLink = None\<rparr>,
               \<lparr>transactionId = 102, subTransactionId = 3, state = TRANS_INPROGRESS, nestingLevel = 2,
                childXids = [103, 104], fastLink = None\<rparr>],
      fastNodeCount = 1, previousFastLink = None, currentSubTransactionId = 5\<rparr>"

lemma example_stack_ok: "xact_ok 100 example_stack"
  by (simp add: example_stack_def xact_ok_def stack_ok_def node_ok_def node_xids_def in_window_def dist_def
      TransactionIdIsNormal_def TransactionIdIsValid_def xid_defs less_Suc_eq nth_Cons')

theorem IsCurrent_is_membership_witness:
  "TransactionIdIsCurrentTransactionIdInternal example_stack 101 = Some True \<and>
   TransactionIdIsCurrentTransactionIdInternal example_stack 99 = Some False"
proof -
  have "101 \<in> current_xids example_stack" "99 \<notin> current_xids example_stack"
    by (simp_all add: current_xids_def live_xids_def node_xids_def example_stack_def TransactionIdIsValid_def xid_defs)
  moreover have "TransactionIdIsNormal 101" "TransactionIdIsNormal 99"
    by (simp_all add: TransactionIdIsNormal_def xid_defs)
  ultimately show ?thesis
    using IsCurrent_is_membership [OF example_stack_ok, of 101] IsCurrent_is_membership [OF example_stack_ok, of 99]
    by simp
qed

text \<open>
  Subcommitting (moving the ids to the parent and popping the node) keeps the stack
  well formed and changes nothing in which transaction ids are current.
\<close>

theorem subcommit_keeps_current_xids:
  assumes "xact_ok b st" "nodes st = ns @ [p, s]" "TransactionIdIsValid (transactionId s)"
    "state p \<noteq> TRANS_ABORT" "state s \<noteq> TRANS_ABORT"
    "AtSubCommit_childXids st = Inr st1" "PopTransaction st1 = Inr st2"
  shows "xact_ok b st2 \<and> current_xids st2 = current_xids st"
proof -
  have "TransactionIdIsValid (transactionId p)"
    using stack_okD(1) [of b "ns @ [p, s]" "length ns" "Suc (length ns)"] assms(1,2,3)
    by (simp add: xact_ok_def nth_append)
  then show ?thesis
    using subcommit_ok [OF assms(1,2,3,6,7)] assms(2-5) subcommit_nodes(1) [OF assms(2,6,7)]
    by (auto simp: current_xids_def live_xids_def node_xids_def)
qed

theorem subcommit_keeps_current_xids_witness:
  "\<exists>st1 st2. AtSubCommit_childXids example_stack = Inr st1 \<and> PopTransaction st1 = Inr st2 \<and>
     xact_ok 100 st2 \<and> current_xids st2 = current_xids example_stack"
proof -
  obtain ns p s where ns: "nodes example_stack = ns @ [p, s]" "ns = []" "state p \<noteq> TRANS_ABORT"
    "state s \<noteq> TRANS_ABORT" "TransactionIdIsValid (transactionId s)"
    by (simp add: example_stack_def TransactionIdIsValid_def xid_defs)
  obtain st1 where st1: "AtSubCommit_childXids example_stack = Inr st1"
    by (simp add: AtSubCommit_childXids_def example_stack_def max_child_xids_def Let_def)
  then obtain st2 where st2: "PopTransaction st1 = Inr st2"
    by (auto simp: AtSubCommit_childXids_def PopTransaction_def example_stack_def max_child_xids_def Let_def)
  show ?thesis
    using subcommit_keeps_current_xids [OF example_stack_ok ns(1,5,3,4) st1 st2] st1 st2 by blast
qed

text \<open>
  Between the two steps of a subcommit the early exit is wrong: a subtransaction that was
  already subcommitted into the node (104 here) is in the parent's array, but the search stops at
  the node because the id follows the node's own id, and says it is not current.
\<close>

theorem IsCurrent_misses_child_during_subcommit:
  "TransactionIdIsCurrentTransactionIdInternal example_stack 104 = Some True \<and>
   (\<exists>st1. AtSubCommit_childXids example_stack = Inr st1 \<and> 104 \<in> current_xids st1 \<and>
      TransactionIdIsCurrentTransactionIdInternal st1 104 = Some False)"
proof -
  have "TransactionIdIsCurrentTransactionIdInternal example_stack 104 = Some True" by code_simp
  moreover have "TransactionIdIsCurrentTransactionIdInternal (projr (AtSubCommit_childXids example_stack)) 104 = Some False"
    by code_simp
  moreover have "AtSubCommit_childXids example_stack = Inr (projr (AtSubCommit_childXids example_stack))"
    by (simp add: AtSubCommit_childXids_def example_stack_def max_child_xids_def Let_def)
  moreover have "104 \<in> current_xids (projr (AtSubCommit_childXids example_stack))"
    by (simp add: current_xids_def live_xids_def node_xids_def AtSubCommit_childXids_def example_stack_def
        max_child_xids_def Let_def TransactionIdIsValid_def xid_defs)
  ultimately show ?thesis by metis
qed

end
