(* ===== verification/ProcArray.thy ===== *)
theory ProcArray
  imports XactStack
begin

text \<open>
  What a backend knows of transactions: the state it reads (\<open>XactSys\<close>), whether an id is its own
  transaction's (\<open>xact.c\<close>), whether it is running in some backend (\<open>storage/ipc/procarray.c\<close>),
  and the interface of these questions that the visibility rules rely on.
\<close>

section \<open>State\<close>

datatype DtxContext =
  DTX_CONTEXT_LOCAL_ONLY
| DTX_CONTEXT_QD_DISTRIBUTED_CAPABLE
| DTX_CONTEXT_QD_RETRY_PHASE_2
| DTX_CONTEXT_QE_ENTRY_DB_SINGLETON
| DTX_CONTEXT_QE_AUTO_COMMIT_IMPLICIT
| DTX_CONTEXT_QE_TWO_PHASE_EXPLICIT_WRITER
| DTX_CONTEXT_QE_TWO_PHASE_IMPLICIT_WRITER
| DTX_CONTEXT_QE_READER
| DTX_CONTEXT_QE_PREPARED
| DTX_CONTEXT_QE_FINISH_PREPARED

text \<open>
  The fields of a backend's \<open>PGXACT\<close> and \<open>PGPROC\<close> that are read here; \<open>proc_subxids\<close> are the first
  \<open>nxids\<close> entries of the subtransaction cache.
\<close>

record PGXACT =
  proc_pid :: int
  proc_xid :: TransactionId
  proc_subxids :: "TransactionId list"
  proc_overflowed :: bool

text \<open>
  The process array in the order of \<open>pgprocnos\<close>, the position of this backend in it if it has one,
  and the array of transaction ids known to run on the master during recovery.
\<close>

record ProcArrayStruct =
  procs :: "PGXACT list"
  MyProc :: "nat option"
  KnownAssignedXids :: "TransactionId list"
  KnownAssignedXidsValid :: "bool list"
  tailKnownAssignedXids :: int
  headKnownAssignedXids :: int
  lastOverflowedXid :: TransactionId

record XactSys =
  xlog :: XactLog
  fetch_cache :: FetchCache
  xstack :: XactStack
  DistributedTransactionContext :: DtxContext
  writer_proc :: "PGXACT option"
  RecentXmin :: TransactionId
  latestCompletedXid :: TransactionId
  procArray :: ProcArrayStruct
  RecoveryInProgress :: bool

section \<open>Is it mine?\<close>

text \<open>The loop over the writer's cached subtransactions, from latest to earliest.\<close>

fun scan_subxids :: "TransactionId list \<Rightarrow> TransactionId \<Rightarrow> bool" where
  "scan_subxids [] xid = False"
| "scan_subxids (x # rev_xids) xid = (if x = xid then True else scan_subxids rev_xids xid)"

definition IsCurrentTransactionIdForReader :: "XactSys \<Rightarrow> TransactionId \<Rightarrow> XactError + bool" where
  "IsCurrentTransactionIdForReader sys xid =
     (case writer_proc sys of
        None \<Rightarrow> Inl NoWriterProc
      | Some w \<Rightarrow>
          if proc_pid w = 0 then Inl InvalidWriterProc
          else
            let isCurrent = (if TransactionIdIsValid (proc_xid w)
                             then if xid = proc_xid w then True else scan_subxids (rev (proc_subxids w)) xid
                             else False)
            in Inr (if \<not> isCurrent \<and> proc_overflowed w
                    then if TransactionIdFollowsOrEquals xid (TransactionXmin (xlog sys)) \<and>
                            SubTransGetTopmostTransaction (subtrans (xlog sys)) xid = proc_xid w
                         then \<not> fst (TransactionIdDidAbortForReader (xlog sys) (fetch_cache sys) xid)
                         else isCurrent
                    else isCurrent))"

definition TransactionIdIsCurrentTransactionId :: "XactSys \<Rightarrow> TransactionId \<Rightarrow> XactError + bool" where
  "TransactionIdIsCurrentTransactionId sys xid =
     (if \<not> TransactionIdIsNormal xid then Inr False
      else if DistributedTransactionContext sys = DTX_CONTEXT_QE_READER \<or>
              DistributedTransactionContext sys = DTX_CONTEXT_QE_ENTRY_DB_SINGLETON
      then IsCurrentTransactionIdForReader sys xid
      else Inr (TransactionIdIsCurrentTransactionIdInternal (xstack sys) xid = Some True))"

text \<open>
  The answers as conditions of the code: the function returned, and returned true.  \<open>DidCommit\<close>
  and \<open>DidAbort\<close> start from the backend's cache; what the calls do to the cache changes no later
  answer.
\<close>

definition IsCurrent :: "XactSys \<Rightarrow> TransactionId \<Rightarrow> bool" where
  "IsCurrent sys xid \<longleftrightarrow> TransactionIdIsCurrentTransactionId sys xid = Inr True"

definition DidCommit :: "XactSys \<Rightarrow> TransactionId \<Rightarrow> bool" where
  "DidCommit sys xid \<longleftrightarrow>
     (case TransactionIdDidCommit (xlog sys) (fetch_cache sys) xid of None \<Rightarrow> False | Some r \<Rightarrow> fst r)"

definition DidAbort :: "XactSys \<Rightarrow> TransactionId \<Rightarrow> bool" where
  "DidAbort sys xid \<longleftrightarrow>
     (case TransactionIdDidAbort (xlog sys) (fetch_cache sys) xid of None \<Rightarrow> False | Some r \<Rightarrow> fst r)"

section \<open>Is it running?\<close>

text \<open>The binary search of \<open>KnownAssignedXidsSearch\<close>, between \<open>first\<close> and \<open>last\<close>.\<close>

function known_assigned_index :: "TransactionId list \<Rightarrow> TransactionId \<Rightarrow> int \<Rightarrow> int \<Rightarrow> int option" where
  "known_assigned_index xs xid first last' =
     (if first \<le> last'
      then let mid_index = (first + last') div 2;
               mid_xid = xs ! nat mid_index
           in if xid = mid_xid then Some mid_index
              else if TransactionIdPrecedes xid mid_xid then known_assigned_index xs xid first (mid_index - 1)
              else known_assigned_index xs xid (mid_index + 1) last'
      else None)"
  by pat_completeness auto
termination
  by (relation "measure (\<lambda>(xs, x, first, last'). nat (last' - first + 1))") auto

declare known_assigned_index.simps [simp del]

definition KnownAssignedXidExists :: "ProcArrayStruct \<Rightarrow> TransactionId \<Rightarrow> bool" where
  "KnownAssignedXidExists pa xid =
     (case known_assigned_index (KnownAssignedXids pa) xid (tailKnownAssignedXids pa) (headKnownAssignedXids pa - 1) of
        None \<Rightarrow> False
      | Some i \<Rightarrow> KnownAssignedXidsValid pa ! nat i)"

text \<open>The loop of \<open>KnownAssignedXidsGetAndSetXmin\<close> over the positions \<open>is\<close>; \<open>out\<close> is the array so far.\<close>

fun known_assigned_get ::
  "ProcArrayStruct \<Rightarrow> TransactionId \<Rightarrow> nat list \<Rightarrow> TransactionId list \<Rightarrow> TransactionId \<Rightarrow>
     TransactionId list \<times> TransactionId" where
  "known_assigned_get pa xmax [] out xmin = (out, xmin)"
| "known_assigned_get pa xmax (i # is) out xmin =
     (if KnownAssignedXidsValid pa ! i
      then let knownXid = KnownAssignedXids pa ! i;
               xmin1 = (if out = [] \<and> TransactionIdPrecedes knownXid xmin then knownXid else xmin)
           in if TransactionIdIsValid xmax \<and> TransactionIdFollowsOrEquals knownXid xmax then (out, xmin1)
              else known_assigned_get pa xmax is (out @ [knownXid]) xmin1
      else known_assigned_get pa xmax is out xmin)"

definition KnownAssignedXidsGetAndSetXmin ::
  "ProcArrayStruct \<Rightarrow> TransactionId \<Rightarrow> TransactionId \<Rightarrow> TransactionId list \<times> TransactionId" where
  "KnownAssignedXidsGetAndSetXmin pa xmin xmax =
     known_assigned_get pa xmax [nat (tailKnownAssignedXids pa) ..< nat (headKnownAssignedXids pa)] [] xmin"

definition KnownAssignedXidsGet :: "ProcArrayStruct \<Rightarrow> TransactionId \<Rightarrow> TransactionId list" where
  "KnownAssignedXidsGet pa xmax = fst (KnownAssignedXidsGetAndSetXmin pa InvalidTransactionId xmax)"

text \<open>
  The loop over the process array: \<open>None\<close> when the transaction was found running, otherwise the
  main ids of the backends whose subtransaction cache overflowed.
\<close>

fun scan_procs ::
  "TransactionId \<Rightarrow> nat option \<Rightarrow> nat \<Rightarrow> PGXACT list \<Rightarrow> TransactionId list \<Rightarrow> TransactionId list option" where
  "scan_procs xid my i [] xids = Some xids"
| "scan_procs xid my i (proc # ps) xids =
     (if my = Some i then scan_procs xid my (Suc i) ps xids
      else
        let pxid = proc_xid proc
        in if \<not> TransactionIdIsValid pxid then scan_procs xid my (Suc i) ps xids
           else if pxid = xid then None
           else if TransactionIdPrecedes xid pxid then scan_procs xid my (Suc i) ps xids
           else if scan_subxids (rev (proc_subxids proc)) xid then None
           else scan_procs xid my (Suc i) ps (if proc_overflowed proc then xids @ [pxid] else xids))"

definition TransactionIdIsInProgress :: "XactSys \<Rightarrow> TransactionId \<Rightarrow> bool" where
  "TransactionIdIsInProgress sys xid =
     (if TransactionIdPrecedes xid (RecentXmin sys) then False
      else if TransactionIdIsKnownCompleted (fetch_cache sys) xid then False
      else if IsCurrent sys xid then True
      else if TransactionIdPrecedes (latestCompletedXid sys) xid then True
      else
        case scan_procs xid (MyProc (procArray sys)) 0 (procs (procArray sys)) [] of
          None \<Rightarrow> True
        | Some xids \<Rightarrow>
            if RecoveryInProgress sys \<and> KnownAssignedXidExists (procArray sys) xid then True
            else
              let xids1 = (if RecoveryInProgress sys \<and>
                              TransactionIdPrecedesOrEquals xid (lastOverflowedXid (procArray sys))
                           then KnownAssignedXidsGet (procArray sys) xid else xids)
              in if xids1 = [] then False
                 else if DidAbort sys xid then False
                 else
                   let topxid = SubTransGetTopmostTransaction (subtrans (xlog sys)) xid
                   in topxid \<noteq> xid \<and> topxid \<in> set xids1)"

section \<open>The interface of the status functions\<close>

datatype fate = Mine | Running | Committed | Aborted

text \<open>
  What the visibility rules rely on: an id of the own transaction counts as running, and special
  ids are never running.  Nothing is assumed on how \<open>did_commit\<close> relates to \<open>in_progress\<close>: a
  transaction is marked committed before it stops running, and the rules ask in that order.
\<close>

locale xact_status =
  fixes ok :: "'s \<Rightarrow> bool"
    and is_current :: "'s \<Rightarrow> TransactionId \<Rightarrow> bool"
    and in_progress :: "'s \<Rightarrow> TransactionId \<Rightarrow> bool"
    and did_commit :: "'s \<Rightarrow> TransactionId \<Rightarrow> bool"
  assumes current_in_progress: "ok s \<Longrightarrow> is_current s x \<Longrightarrow> in_progress s x"
    and special_not_current: "\<not> TransactionIdIsNormal x \<Longrightarrow> \<not> is_current s x"
    and special_not_in_progress: "ok s \<Longrightarrow> \<not> TransactionIdIsNormal x \<Longrightarrow> \<not> in_progress s x"
begin

definition fate_of :: "'s \<Rightarrow> TransactionId \<Rightarrow> fate" where
  "fate_of s x = (if is_current s x then Mine else if in_progress s x then Running
                  else if did_commit s x then Committed else Aborted)"

lemma fate_Mine_iff: "fate_of s x = Mine \<longleftrightarrow> is_current s x"
  by (simp add: fate_of_def)

lemma in_progress_iff: "ok s \<Longrightarrow> in_progress s x \<longleftrightarrow> fate_of s x \<in> {Mine, Running}"
  by (auto simp: fate_of_def current_in_progress)

lemma finished_iff:
  "ok s \<Longrightarrow> \<not> in_progress s x \<and> did_commit s x \<longleftrightarrow> fate_of s x = Committed"
  "ok s \<Longrightarrow> \<not> in_progress s x \<and> \<not> did_commit s x \<longleftrightarrow> fate_of s x = Aborted"
  by (auto simp: fate_of_def current_in_progress)

lemma fate_special: "ok s \<Longrightarrow> \<not> TransactionIdIsNormal x \<Longrightarrow> fate_of s x \<in> {Committed, Aborted}"
  by (simp add: fate_of_def special_not_current special_not_in_progress)

end

text \<open>
  The state in which these laws hold: the own transaction's ids are not older than \<open>RecentXmin\<close>,
  and the cache holds a finished transaction.
\<close>

definition sys_ok :: "XactSys \<Rightarrow> bool" where
  "sys_ok sys \<longleftrightarrow> TransactionIdIsNormal (RecentXmin sys) \<and>
     (\<forall>x. IsCurrent sys x \<longrightarrow> \<not> TransactionIdPrecedes x (RecentXmin sys) \<and> x \<noteq> cachedFetchXid (fetch_cache sys))"

interpretation xs: xact_status sys_ok IsCurrent TransactionIdIsInProgress DidCommit
proof unfold_locales
  fix s x
  show "sys_ok s \<Longrightarrow> IsCurrent s x \<Longrightarrow> TransactionIdIsInProgress s x"
    by (simp add: TransactionIdIsInProgress_def sys_ok_def TransactionIdIsKnownCompleted_def)
  show "\<not> TransactionIdIsNormal x \<Longrightarrow> \<not> IsCurrent s x"
    by (simp add: IsCurrent_def TransactionIdIsCurrentTransactionId_def)
  show "sys_ok s \<Longrightarrow> \<not> TransactionIdIsNormal x \<Longrightarrow> \<not> TransactionIdIsInProgress s x"
    using not_normal_precedes by (simp add: TransactionIdIsInProgress_def sys_ok_def)
qed

section \<open>Running transactions\<close>














section \<open>An example system\<close>

text \<open>
  Our own transaction is 100 with the subtransactions of \<open>example_stack\<close>; another backend runs 200
  with subtransaction 201; 50 committed and 60 aborted; 300 was the last to end.
\<close>

definition example_log :: XactLog where
  "example_log =
     \<lparr>clog = \<lparr>page_buffer = (\<lambda>p b. if p = 0 \<and> b = 12 then 16 else if p = 0 \<and> b = 15 then 2 else 0), group_lsn = (\<lambda>p g. 0)\<rparr>,
      subtrans = (\<lambda>x. \<lparr>parent = 0, topMostParent = 0\<rparr>), TransactionXmin = 40\<rparr>"

definition example_sys :: XactSys where
  "example_sys =
     \<lparr>xlog = example_log,
      fetch_cache = \<lparr>cachedFetchXid = 0, cachedFetchXidStatus = 0, cachedCommitLSN = 0\<rparr>,
      xstack = example_stack, DistributedTransactionContext = DTX_CONTEXT_LOCAL_ONLY, writer_proc = None,
      RecentXmin = 40, latestCompletedXid = 300,
      procArray = \<lparr>procs = [\<lparr>proc_pid = 7, proc_xid = 200, proc_subxids = [201], proc_overflowed = False\<rparr>],
        MyProc = None, KnownAssignedXids = [], KnownAssignedXidsValid = [], tailKnownAssignedXids = 0,
        headKnownAssignedXids = 0, lastOverflowedXid = 0\<rparr>,
      RecoveryInProgress = False\<rparr>"

lemma example_current: "IsCurrent example_sys x \<longleftrightarrow> x \<in> {100, 101, 102, 103, 104}"
proof (cases "TransactionIdIsNormal x")
  case True
  have "current_xids example_stack = {100, 101, 102, 103, 104}"
    by (auto simp: current_xids_def live_xids_def node_xids_def example_stack_def TransactionIdIsValid_def xid_defs)
  with True Internal_iff_current [OF example_stack_ok True] show ?thesis
    by (simp add: IsCurrent_def TransactionIdIsCurrentTransactionId_def example_sys_def)
next
  case False
  then show ?thesis
    by (auto simp: IsCurrent_def TransactionIdIsCurrentTransactionId_def TransactionIdIsNormal_def xid_defs)
qed

lemma example_sys_ok: "sys_ok example_sys"
  unfolding sys_ok_def example_current
  by (simp add: example_sys_def TransactionIdIsNormal_def TransactionIdPrecedes_def xid_defs)


section \<open>Properties\<close>



end
