(* ===== verification/DistribSnapshot.thy ===== *)
theory DistribSnapshot
  imports Transam
begin

text \<open>
  Distributed snapshots: the test of \<open>cdb/cdbdistributedsnapshot.c\<close> that says how a committed local
  transaction looks in a distributed snapshot, the distributed log it consults
  (\<open>access/transam/distributedlog.c\<close>) and the two caches it goes through: the local ids already
  found in progress, kept with the snapshot, and the backend's cache of local-distributed pairs
  with its LRU replacement (\<open>cdb/cdblocaldistribxact.c\<close>).
\<close>

section \<open>State\<close>

type_synonym DistributedTransactionId = uint32
type_synonym DistributedTransactionTimeStamp = uint32

record DistributedSnapshot =
  distribTransactionTimeStamp :: DistributedTransactionTimeStamp
  xminAllDistributedSnapshots :: DistributedTransactionId
  ds_xmin :: DistributedTransactionId
  ds_xmax :: DistributedTransactionId
  inProgressXidArray :: "DistributedTransactionId list"

text \<open>\<open>inProgressMappedLocalXids\<close> is the used part of the array, \<open>currentLocalXidsCount\<close> long.\<close>

record DistributedSnapshotWithLocalMapping =
  ds :: DistributedSnapshot
  minCachedLocalXid :: TransactionId
  maxCachedLocalXid :: TransactionId
  maxLocalXidsCount :: nat
  inProgressMappedLocalXids :: "TransactionId list"

datatype DistributedSnapshotCommitted =
  DISTRIBUTEDSNAPSHOT_COMMITTED_NONE
| DISTRIBUTEDSNAPSHOT_COMMITTED_INPROGRESS
| DISTRIBUTEDSNAPSHOT_COMMITTED_VISIBLE
| DISTRIBUTEDSNAPSHOT_COMMITTED_IGNORE

record DistributedLogEntry =
  distribTimeStamp :: DistributedTransactionTimeStamp
  distribXid :: DistributedTransactionId

record DistributedLog =
  oldestXmin :: TransactionId
  log_entry :: "TransactionId \<Rightarrow> DistributedLogEntry"

text \<open>
  The local-distributed cache: its entries, most recently used first, and the configured
  maximum.  The statistics counters are left out.
\<close>

record LocalDistribXactCache =
  lru :: "(TransactionId \<times> DistributedTransactionId) list"
  gp_max_local_distributed_cache :: nat

datatype DistribError =
  OldestXminNotInitialized
| ZeroTimestamp
| ZeroDistributedXid
| AlreadyCached

section \<open>Operations\<close>

definition LocalDistribXactCache_CommittedFind ::
  "LocalDistribXactCache \<Rightarrow> TransactionId \<Rightarrow> DistributedTransactionId option \<times> LocalDistribXactCache" where
  "LocalDistribXactCache_CommittedFind ca localXid =
     (if gp_max_local_distributed_cache ca = 0 then (None, ca)
      else case find (\<lambda>e. fst e = localXid) (lru ca) of
             Some entry \<Rightarrow> (Some (snd entry), ca\<lparr>lru := entry # filter (\<lambda>e. fst e \<noteq> localXid) (lru ca)\<rparr>)
           | None \<Rightarrow> (None, ca))"

definition LocalDistribXactCache_AddCommitted ::
  "LocalDistribXactCache \<Rightarrow> TransactionId \<Rightarrow> DistributedTransactionId \<Rightarrow> DistribError + LocalDistribXactCache" where
  "LocalDistribXactCache_AddCommitted ca localXid dxid =
     (if gp_max_local_distributed_cache ca = 0 then Inr ca
      else
        let kept = (if length (lru ca) \<ge> gp_max_local_distributed_cache ca then butlast (lru ca) else lru ca)
        in if find (\<lambda>e. fst e = localXid) kept \<noteq> None then Inl AlreadyCached
           else Inr (ca\<lparr>lru := (localXid, dxid) # kept\<rparr>))"

text \<open>The timestamp and distributed id of a committed transaction, if the log has them.\<close>

definition DistributedLog_CommittedCheck ::
  "DistributedLog \<Rightarrow> TransactionId \<Rightarrow>
     DistribError + (DistributedTransactionTimeStamp \<times> DistributedTransactionId) option" where
  "DistributedLog_CommittedCheck dl localXid =
     (if oldestXmin dl = InvalidTransactionId then Inl OldestXminNotInitialized
      else if TransactionIdPrecedes localXid (oldestXmin dl) then Inr None
      else
        let ptr = log_entry dl localXid
        in if distribTimeStamp ptr \<noteq> 0 \<and> distribXid ptr \<noteq> 0
           then Inr (Some (distribTimeStamp ptr, distribXid ptr))
           else if distribTimeStamp ptr = 0 \<and> distribXid ptr = 0 then Inr None
           else if distribTimeStamp ptr = 0 then Inl ZeroTimestamp
           else Inl ZeroDistributedXid)"

text \<open>The loop over the in-progress array; it stops at the first larger id.\<close>

fun in_progress_scan :: "DistributedTransactionId list \<Rightarrow> DistributedTransactionId \<Rightarrow> bool" where
  "in_progress_scan [] dxid = False"
| "in_progress_scan (x # xs) dxid =
     (if dxid = x then True else if dxid < x then False else in_progress_scan xs dxid)"

text \<open>Remembering a local id found in progress, as long as there is room.\<close>

definition remember_local_xid ::
  "DistributedSnapshotWithLocalMapping \<Rightarrow> TransactionId \<Rightarrow> DistributedSnapshotWithLocalMapping" where
  "remember_local_xid dslm localXid =
     (if length (inProgressMappedLocalXids dslm) < maxLocalXidsCount dslm
      then dslm\<lparr>inProgressMappedLocalXids := inProgressMappedLocalXids dslm @ [localXid],
                minCachedLocalXid :=
                  (if \<not> TransactionIdIsValid (minCachedLocalXid dslm) \<or>
                      TransactionIdPrecedes localXid (minCachedLocalXid dslm)
                   then localXid else minCachedLocalXid dslm),
                maxCachedLocalXid :=
                  (if \<not> TransactionIdIsValid (maxCachedLocalXid dslm) \<or>
                      TransactionIdFollows localXid (maxCachedLocalXid dslm)
                   then localXid else maxCachedLocalXid dslm)\<rparr>
      else dslm)"

text \<open>The first cache.\<close>

definition mapped_in_progress :: "DistributedSnapshotWithLocalMapping \<Rightarrow> TransactionId \<Rightarrow> bool" where
  "mapped_in_progress dslm localXid \<longleftrightarrow>
     inProgressMappedLocalXids dslm \<noteq> [] \<and>
     (localXid = minCachedLocalXid dslm \<or> localXid = maxCachedLocalXid dslm \<or>
      TransactionIdFollows localXid (minCachedLocalXid dslm) \<and>
      TransactionIdPrecedes localXid (maxCachedLocalXid dslm) \<and>
      localXid \<in> set (inProgressMappedLocalXids dslm))"

text \<open>The second half of the test, on a distributed id of this start of the DTM.\<close>

definition distributed_xid_test ::
  "DistributedSnapshotWithLocalMapping \<Rightarrow> TransactionId \<Rightarrow> DistributedTransactionId \<Rightarrow> bool \<Rightarrow>
     DistributedSnapshotCommitted \<times> DistributedSnapshotWithLocalMapping" where
  "distributed_xid_test dslm localXid dxid isVacuumCheck =
     (if dxid < xminAllDistributedSnapshots (ds dslm) then (DISTRIBUTEDSNAPSHOT_COMMITTED_IGNORE, dslm)
      else if isVacuumCheck then (DISTRIBUTEDSNAPSHOT_COMMITTED_INPROGRESS, dslm)
      else if dxid < ds_xmin (ds dslm) then (DISTRIBUTEDSNAPSHOT_COMMITTED_VISIBLE, dslm)
      else if dxid \<ge> ds_xmax (ds dslm) then (DISTRIBUTEDSNAPSHOT_COMMITTED_INPROGRESS, dslm)
      else if in_progress_scan (inProgressXidArray (ds dslm)) dxid
      then (DISTRIBUTEDSNAPSHOT_COMMITTED_INPROGRESS, remember_local_xid dslm localXid)
      else (DISTRIBUTEDSNAPSHOT_COMMITTED_VISIBLE, dslm))"

definition DistributedSnapshotWithLocalMapping_CommittedTest ::
  "DistributedLog \<Rightarrow> LocalDistribXactCache \<Rightarrow> DistributedSnapshotWithLocalMapping \<Rightarrow> TransactionId \<Rightarrow> bool \<Rightarrow>
     DistribError + DistributedSnapshotCommitted \<times> DistributedSnapshotWithLocalMapping \<times> LocalDistribXactCache" where
  "DistributedSnapshotWithLocalMapping_CommittedTest dl ca dslm localXid isVacuumCheck =
     (if \<not> TransactionIdIsNormal localXid then Inr (DISTRIBUTEDSNAPSHOT_COMMITTED_IGNORE, dslm, ca)
      else if mapped_in_progress dslm localXid then Inr (DISTRIBUTEDSNAPSHOT_COMMITTED_INPROGRESS, dslm, ca)
      else
        case LocalDistribXactCache_CommittedFind ca localXid of
          (Some dxid, ca1) \<Rightarrow>
            if dxid = 0 then Inr (DISTRIBUTEDSNAPSHOT_COMMITTED_IGNORE, dslm, ca1)
            else (case distributed_xid_test dslm localXid dxid isVacuumCheck of (r, dslm1) \<Rightarrow> Inr (r, dslm1, ca1))
        | (None, ca1) \<Rightarrow>
            (case DistributedLog_CommittedCheck dl localXid of
               Inl e \<Rightarrow> Inl e
             | Inr (Some (ts, dxid)) \<Rightarrow>
                 if ts \<noteq> distribTransactionTimeStamp (ds dslm)
                 then Inr (DISTRIBUTEDSNAPSHOT_COMMITTED_IGNORE, dslm, ca1)
                 else (case LocalDistribXactCache_AddCommitted ca1 localXid dxid of
                         Inl e \<Rightarrow> Inl e
                       | Inr ca2 \<Rightarrow>
                           (case distributed_xid_test dslm localXid dxid isVacuumCheck of
                              (r, dslm1) \<Rightarrow> Inr (r, dslm1, ca2)))
             | Inr None \<Rightarrow>
                 (case LocalDistribXactCache_AddCommitted ca1 localXid 0 of
                    Inl e \<Rightarrow> Inl e
                  | Inr ca2 \<Rightarrow> Inr (DISTRIBUTEDSNAPSHOT_COMMITTED_IGNORE, dslm, ca2))))"

section \<open>The test without caches\<close>

definition distributed_verdict ::
  "DistributedLog \<Rightarrow> DistributedSnapshot \<Rightarrow> TransactionId \<Rightarrow> bool \<Rightarrow> DistributedSnapshotCommitted" where
  "distributed_verdict dl d localXid isVacuumCheck =
     (if \<not> TransactionIdIsNormal localXid then DISTRIBUTEDSNAPSHOT_COMMITTED_IGNORE
      else case DistributedLog_CommittedCheck dl localXid of
             Inr (Some (ts, dxid)) \<Rightarrow>
               if ts \<noteq> distribTransactionTimeStamp d \<or> dxid < xminAllDistributedSnapshots d
               then DISTRIBUTEDSNAPSHOT_COMMITTED_IGNORE
               else if isVacuumCheck \<or> ds_xmin d \<le> dxid \<and> (ds_xmax d \<le> dxid \<or> dxid \<in> set (inProgressXidArray d))
               then DISTRIBUTEDSNAPSHOT_COMMITTED_INPROGRESS
               else DISTRIBUTEDSNAPSHOT_COMMITTED_VISIBLE
           | _ \<Rightarrow> DISTRIBUTEDSNAPSHOT_COMMITTED_IGNORE)"

text \<open>The log has no torn entries and knows its oldest entry.\<close>

definition dlog_ok :: "DistributedLog \<Rightarrow> bool" where
  "dlog_ok dl \<longleftrightarrow> oldestXmin dl \<noteq> InvalidTransactionId \<and>
     (\<forall>x. distribTimeStamp (log_entry dl x) = 0 \<longleftrightarrow> distribXid (log_entry dl x) = 0)"

text \<open>
  The pair cache tells what the log says for this start of the DTM; the mapped local ids are
  those of distributed transactions in progress in the snapshot.
\<close>

definition pair_cache_ok :: "DistributedLog \<Rightarrow> DistributedSnapshot \<Rightarrow> LocalDistribXactCache \<Rightarrow> bool" where
  "pair_cache_ok dl d ca \<longleftrightarrow> distinct (map fst (lru ca)) \<and>
     length (lru ca) \<le> gp_max_local_distributed_cache ca \<and>
     (\<forall>(x, dxid) \<in> set (lru ca). DistributedLog_CommittedCheck dl x =
        Inr (if dxid = 0 then None else Some (distribTransactionTimeStamp d, dxid)))"

definition mapping_ok :: "DistributedLog \<Rightarrow> DistributedSnapshotWithLocalMapping \<Rightarrow> bool" where
  "mapping_ok dl dslm \<longleftrightarrow> sorted (inProgressXidArray (ds dslm)) \<and>
     xminAllDistributedSnapshots (ds dslm) \<le> ds_xmin (ds dslm) \<and>
     (\<forall>x \<in> set (inProgressMappedLocalXids dslm). TransactionIdIsNormal x \<and>
        distributed_verdict dl (ds dslm) x False = DISTRIBUTEDSNAPSHOT_COMMITTED_INPROGRESS) \<and>
     (if inProgressMappedLocalXids dslm = []
      then minCachedLocalXid dslm = InvalidTransactionId \<and> maxCachedLocalXid dslm = InvalidTransactionId
      else minCachedLocalXid dslm \<in> set (inProgressMappedLocalXids dslm) \<and>
           maxCachedLocalXid dslm \<in> set (inProgressMappedLocalXids dslm))"

lemma in_progress_scan_iff: "sorted xs \<Longrightarrow> in_progress_scan xs dxid \<longleftrightarrow> dxid \<in> set xs"
  by (induction xs) auto

lemma verdict_vacuum:
  "distributed_verdict dl d x False = DISTRIBUTEDSNAPSHOT_COMMITTED_INPROGRESS \<Longrightarrow>
   distributed_verdict dl d x v = DISTRIBUTEDSNAPSHOT_COMMITTED_INPROGRESS"
  by (auto simp: distributed_verdict_def split: sum.splits option.splits if_splits)

lemma mapped_in_progress_sound:
  "mapping_ok dl dslm \<Longrightarrow> mapped_in_progress dslm x \<Longrightarrow>
   distributed_verdict dl (ds dslm) x v = DISTRIBUTEDSNAPSHOT_COMMITTED_INPROGRESS"
  by (rule verdict_vacuum) (auto simp: mapping_ok_def mapped_in_progress_def split: if_splits)

lemma remember_ok:
  assumes "mapping_ok dl dslm" "TransactionIdIsNormal x"
    "distributed_verdict dl (ds dslm) x False = DISTRIBUTEDSNAPSHOT_COMMITTED_INPROGRESS"
  shows "mapping_ok dl (remember_local_xid dslm x) \<and> ds (remember_local_xid dslm x) = ds dslm"
  using assms by (auto simp: mapping_ok_def remember_local_xid_def TransactionIdIsValid_def split: if_splits)

lemma distributed_xid_test_verdict:
  assumes map: "mapping_ok dl dslm" and x: "TransactionIdIsNormal x"
    and log: "DistributedLog_CommittedCheck dl x = Inr (Some (distribTransactionTimeStamp (ds dslm), dxid))"
  shows "fst (distributed_xid_test dslm x dxid v) = distributed_verdict dl (ds dslm) x v"
    and "mapping_ok dl (snd (distributed_xid_test dslm x dxid v))"
    and "ds (snd (distributed_xid_test dslm x dxid v)) = ds dslm"
proof -
  have sorted: "sorted (inProgressXidArray (ds dslm))" using map by (simp add: mapping_ok_def)
  show "fst (distributed_xid_test dslm x dxid v) = distributed_verdict dl (ds dslm) x v"
    using x log by (auto simp: distributed_xid_test_def distributed_verdict_def in_progress_scan_iff [OF sorted])
  have "mapping_ok dl (remember_local_xid dslm x) \<and> ds (remember_local_xid dslm x) = ds dslm"
    if "\<not> dxid < xminAllDistributedSnapshots (ds dslm)" "\<not> dxid < ds_xmin (ds dslm)"
      "in_progress_scan (inProgressXidArray (ds dslm)) dxid"
    using that x log by (intro remember_ok [OF map x]) (auto simp: distributed_verdict_def in_progress_scan_iff [OF sorted])
  then show "mapping_ok dl (snd (distributed_xid_test dslm x dxid v))"
    "ds (snd (distributed_xid_test dslm x dxid v)) = ds dslm"
    using map by (auto simp: distributed_xid_test_def)
qed


lemma CommittedFind_ok:
  assumes ok: "pair_cache_ok dl d ca" and r: "LocalDistribXactCache_CommittedFind ca x = (r, ca1)"
  shows "pair_cache_ok dl d ca1"
    and "r = Some dxid \<Longrightarrow>
      DistributedLog_CommittedCheck dl x = Inr (if dxid = 0 then None else Some (distribTransactionTimeStamp d, dxid))"
    and "r = None \<Longrightarrow> ca1 = ca \<and> x \<notin> fst ` set (lru ca)"
proof -
  have r_None: "x \<notin> fst ` set (lru ca)" if "r = None"
  proof (cases "gp_max_local_distributed_cache ca = 0")
    case True
    then show ?thesis using ok by (simp add: pair_cache_ok_def)
  next
    case False
    then show ?thesis using that r
      by (auto simp: LocalDistribXactCache_CommittedFind_def find_None_iff_fst split: option.splits)
  qed
  show "r = None \<Longrightarrow> ca1 = ca \<and> x \<notin> fst ` set (lru ca)"
    using r r_None by (auto simp: LocalDistribXactCache_CommittedFind_def split: if_splits option.splits)
  have found: "\<exists>e \<in> set (lru ca). fst e = x \<and> r = Some (snd e) \<and> ca1 = ca\<lparr>lru := e # filter (\<lambda>e. fst e \<noteq> x) (lru ca)\<rparr>"
    if "r \<noteq> None"
    using that r find_Some_fst [of x "lru ca"]
    by (auto simp: LocalDistribXactCache_CommittedFind_def split: if_splits option.splits)
  show "r = Some dxid \<Longrightarrow>
      DistributedLog_CommittedCheck dl x = Inr (if dxid = 0 then None else Some (distribTransactionTimeStamp d, dxid))"
    using found ok by (fastforce simp: pair_cache_ok_def)
  show "pair_cache_ok dl d ca1"
  proof (cases "r = None")
    case True
    then show ?thesis using ok r by (auto simp: LocalDistribXactCache_CommittedFind_def split: if_splits option.splits)
  next
    case False
    then obtain e where e: "e \<in> set (lru ca)" "fst e = x" "ca1 = ca\<lparr>lru := e # filter (\<lambda>e. fst e \<noteq> x) (lru ca)\<rparr>"
      using found by blast
    have "length (filter (\<lambda>e. fst e \<noteq> x) (lru ca)) < length (lru ca)"
      using e(1,2) by (auto intro: length_filter_less)
    moreover have "distinct (map fst (filter (\<lambda>e. fst e \<noteq> x) (lru ca)))"
      using ok by (simp add: pair_cache_ok_def distinct_map_filter)
    ultimately show ?thesis using ok e by (auto simp: pair_cache_ok_def)
  qed
qed

lemma AddCommitted_ok:
  assumes ok: "pair_cache_ok dl d ca" and x: "x \<notin> fst ` set (lru ca)"
    and log: "DistributedLog_CommittedCheck dl x = Inr (if dxid = 0 then None else Some (distribTransactionTimeStamp d, dxid))"
  shows "\<exists>ca'. LocalDistribXactCache_AddCommitted ca x dxid = Inr ca' \<and> pair_cache_ok dl d ca'"
proof (cases "gp_max_local_distributed_cache ca = 0")
  case True
  with ok show ?thesis by (simp add: LocalDistribXactCache_AddCommitted_def)
next
  case False
  define kept where "kept = (if length (lru ca) \<ge> gp_max_local_distributed_cache ca then butlast (lru ca) else lru ca)"
  have sub: "set kept \<subseteq> set (lru ca)" by (auto simp: kept_def dest: in_set_butlastD)
  then have new: "x \<notin> fst ` set kept" using x by blast
  have "distinct (map fst kept)" using ok by (auto simp: kept_def pair_cache_ok_def map_butlast distinct_butlast)
  moreover have "length kept < gp_max_local_distributed_cache ca" using ok False by (auto simp: kept_def pair_cache_ok_def)
  moreover have "\<forall>(y, g) \<in> set kept. DistributedLog_CommittedCheck dl y =
      Inr (if g = 0 then None else Some (distribTransactionTimeStamp d, g))"
    using ok sub unfolding pair_cache_ok_def by blast
  ultimately have "pair_cache_ok dl d (ca\<lparr>lru := (x, dxid) # kept\<rparr>)"
    using new log by (simp add: pair_cache_ok_def)
  moreover have "find (\<lambda>e. fst e = x) kept = None" using new by (simp add: find_None_iff_fst)
  then have "LocalDistribXactCache_AddCommitted ca x dxid = Inr (ca\<lparr>lru := (x, dxid) # kept\<rparr>)"
    using False by (simp add: LocalDistribXactCache_AddCommitted_def Let_def kept_def [symmetric])
  ultimately show ?thesis by blast
qed

lemma CommittedCheck_total: "dlog_ok dl \<Longrightarrow> \<exists>r. DistributedLog_CommittedCheck dl x = Inr r"
  by (auto simp: DistributedLog_CommittedCheck_def dlog_ok_def Let_def)

lemma CommittedCheck_nonzero:
  "DistributedLog_CommittedCheck dl x = Inr (Some (ts, dxid)) \<Longrightarrow> dxid \<noteq> 0"
  by (auto simp: DistributedLog_CommittedCheck_def Let_def split: if_splits)

lemma CommittedTest_verdict:
  assumes dl: "dlog_ok dl" and ca: "pair_cache_ok dl (ds dslm) ca" and map: "mapping_ok dl dslm"
  shows "\<exists>dslm' ca'. DistributedSnapshotWithLocalMapping_CommittedTest dl ca dslm x v =
      Inr (distributed_verdict dl (ds dslm) x v, dslm', ca') \<and>
    pair_cache_ok dl (ds dslm') ca' \<and> mapping_ok dl dslm' \<and> ds dslm' = ds dslm"
proof (cases "TransactionIdIsNormal x \<and> \<not> mapped_in_progress dslm x")
  case False
  then show ?thesis using ca map mapped_in_progress_sound [OF map, of x v]
    by (auto simp: DistributedSnapshotWithLocalMapping_CommittedTest_def distributed_verdict_def)
next
  case True
  obtain r ca1 where f: "LocalDistribXactCache_CommittedFind ca x = (r, ca1)" by (cases "LocalDistribXactCache_CommittedFind ca x")
  note fok = CommittedFind_ok [OF ca f]
  let ?ts = "distribTransactionTimeStamp (ds dslm)"
  have xt: ?thesis if "DistributedLog_CommittedCheck dl x = Inr (Some (?ts, dxid))" "pair_cache_ok dl (ds dslm) ca'"
    "DistributedSnapshotWithLocalMapping_CommittedTest dl ca dslm x v =
       (case distributed_xid_test dslm x dxid v of (r, dslm1) \<Rightarrow> Inr (r, dslm1, ca'))" for dxid ca'
    using distributed_xid_test_verdict [OF map _ that(1)] True that(2,3) by (auto simp: case_prod_unfold)
  obtain lr where lr: "DistributedLog_CommittedCheck dl x = Inr lr" using CommittedCheck_total [OF dl] by blast
  show ?thesis
  proof (cases r)
    case (Some dxid)
    then show ?thesis using True f fok(1) fok(2) [OF Some] map xt [of dxid ca1]
      by (cases "dxid = 0") (auto simp: DistributedSnapshotWithLocalMapping_CommittedTest_def distributed_verdict_def)
  next
    case None
    have ca1: "pair_cache_ok dl (ds dslm) ca1" "x \<notin> fst ` set (lru ca1)" using fok None by auto
    show ?thesis
    proof (cases lr)
      case lrN: None
      then obtain ca2 where "LocalDistribXactCache_AddCommitted ca1 x 0 = Inr ca2" "pair_cache_ok dl (ds dslm) ca2"
        using AddCommitted_ok [OF ca1, of 0] lr by auto
      then show ?thesis using True f None lr lrN map
        by (auto simp: DistributedSnapshotWithLocalMapping_CommittedTest_def distributed_verdict_def)
    next
      case (Some p)
      obtain ts dxid where p: "p = (ts, dxid)" by (cases p)
      show ?thesis
      proof (cases "ts = ?ts")
        case False
        then show ?thesis using True f None lr Some p map ca1
          by (auto simp: DistributedSnapshotWithLocalMapping_CommittedTest_def distributed_verdict_def)
      next
        case ts: True
        have log: "DistributedLog_CommittedCheck dl x = Inr (Some (?ts, dxid))" using lr Some p ts by simp
        then obtain ca2 where ca2: "LocalDistribXactCache_AddCommitted ca1 x dxid = Inr ca2" "pair_cache_ok dl (ds dslm) ca2"
          using AddCommitted_ok [OF ca1, of dxid] CommittedCheck_nonzero [OF log] by auto
        show ?thesis using xt [OF log ca2(2)] True f None log ca2(1)
          by (auto simp: DistributedSnapshotWithLocalMapping_CommittedTest_def)
      qed
    qed
  qed
qed

section \<open>Properties\<close>

text \<open>
  C26.  The test of a committed transaction against a distributed snapshot, with its two caches,
  its LRU replacement and its early exit from the sorted array, never fails on a sound log, gives
  the verdict the log and the snapshot alone determine, and leaves both caches sound.
\<close>

theorem CommittedTest_is_verdict:
  assumes "dlog_ok dl" "pair_cache_ok dl (ds dslm) ca" "mapping_ok dl dslm"
  shows "\<exists>dslm' ca'. DistributedSnapshotWithLocalMapping_CommittedTest dl ca dslm x v =
      Inr (distributed_verdict dl (ds dslm) x v, dslm', ca') \<and>
    pair_cache_ok dl (ds dslm') ca' \<and> mapping_ok dl dslm' \<and> ds dslm' = ds dslm"
  by (rule CommittedTest_verdict [OF assms])

text \<open>Local transaction 50 committed as distributed transaction 7, which is in progress in the snapshot.\<close>

definition example_dlog :: DistributedLog where
  "example_dlog = \<lparr>oldestXmin = 10, log_entry = (\<lambda>x. if x = 50 then \<lparr>distribTimeStamp = 1, distribXid = 7\<rparr>
     else \<lparr>distribTimeStamp = 0, distribXid = 0\<rparr>)\<rparr>"

definition example_dslm :: DistributedSnapshotWithLocalMapping where
  "example_dslm = \<lparr>ds = \<lparr>distribTransactionTimeStamp = 1, xminAllDistributedSnapshots = 4, ds_xmin = 5, ds_xmax = 9,
       inProgressXidArray = [5, 7]\<rparr>,
     minCachedLocalXid = 0, maxCachedLocalXid = 0, maxLocalXidsCount = 4, inProgressMappedLocalXids = []\<rparr>"

theorem CommittedTest_is_verdict_witness:
  "\<exists>dslm' ca'. DistributedSnapshotWithLocalMapping_CommittedTest example_dlog
      \<lparr>lru = [], gp_max_local_distributed_cache = 1\<rparr> example_dslm 50 False =
    Inr (DISTRIBUTEDSNAPSHOT_COMMITTED_INPROGRESS, dslm', ca') \<and> mapping_ok example_dlog dslm'"
proof -
  have "dlog_ok example_dlog" "mapping_ok example_dlog example_dslm"
    "pair_cache_ok example_dlog (ds example_dslm) \<lparr>lru = [], gp_max_local_distributed_cache = 1\<rparr>"
    by (simp_all add: dlog_ok_def mapping_ok_def pair_cache_ok_def example_dlog_def example_dslm_def xid_defs)
  from CommittedTest_is_verdict [OF this(1,3,2), of 50 False]
  have "\<exists>dslm' ca'. DistributedSnapshotWithLocalMapping_CommittedTest example_dlog
      \<lparr>lru = [], gp_max_local_distributed_cache = 1\<rparr> example_dslm 50 False =
      Inr (distributed_verdict example_dlog (ds example_dslm) 50 False, dslm', ca') \<and> mapping_ok example_dlog dslm'"
    by blast
  moreover have "distributed_verdict example_dlog (ds example_dslm) 50 False = DISTRIBUTEDSNAPSHOT_COMMITTED_INPROGRESS"
    by code_simp
  ultimately show ?thesis by simp
qed

end
