(* ===== verification/ComboCid.thy ===== *)
theory ComboCid
  imports Prelude
begin

text \<open>
  Combo command ids (\<open>utils/time/combocid.c\<close>): the writer of a session numbers the pairs of
  inserting and deleting command of the tuples its transaction both inserted and deleted, keeps
  them in an array with a hash table beside it, and appends every new pair to a file, from which
  the reader processes of the session resolve the number.

  A hash table is a map, an array with its used length the list of its used elements. The part
  of the state that is shared (\<open>ComboShared\<close>) holds the files of all sessions, by the session and
  the process id in their names, and the count each writer publishes in its \<open>PGPROC\<close>.
\<close>

section \<open>Processes and their state\<close>

datatype GpRoleValue = GP_ROLE_UTILITY | GP_ROLE_DISPATCH | GP_ROLE_EXECUTE | GP_ROLE_UNDEFINED

record GpProcess =
  Gp_role :: GpRoleValue
  Gp_is_writer :: bool
  segindex :: int
  gp_session_id :: int
  MyProc_pid :: int

definition MASTER_CONTENT_ID :: int where "MASTER_CONTENT_ID = -1"

definition IS_QUERY_DISPATCHER :: "GpProcess \<Rightarrow> bool" where
  "IS_QUERY_DISPATCHER p \<longleftrightarrow> segindex p = MASTER_CONTENT_ID"

record ComboCidKeyData =
  combo_cmin :: CommandId
  combo_cmax :: CommandId
  combo_xmin :: TransactionId

record ComboCidEntryData =
  entry_key :: ComboCidKeyData
  entry_combocid :: CommandId

record readerComboCidKeyData =
  rk_session :: int
  rk_writer_pid :: int
  rk_xmin :: TransactionId
  rk_combocid :: CommandId

text \<open>
  The static variables of the file, with \<open>usedComboCids\<close> the length of the list \<open>comboCids\<close>.
  \<open>comboHash\<close> is \<open>None\<close> for a null pointer, \<open>combocid_map\<close> the name of the file that is open, and
  \<open>lockHolderProcPtr\<close> the process id of the writer a reader belongs to.
\<close>

record ComboState =
  comboHash :: "(ComboCidKeyData \<rightharpoonup> CommandId) option"
  comboCids :: "ComboCidKeyData list"
  sizeComboCids :: int
  readerComboHash :: "readerComboCidKeyData \<rightharpoonup> CommandId \<times> CommandId"
  combocid_map :: "(int \<times> int) option"
  lockHolderProcPtr :: "int option"

record ComboShared =
  combo_files :: "int \<times> int \<rightharpoonup> ComboCidEntryData list"
  combocid_map_count :: "int \<Rightarrow> nat"

datatype ComboError =
  EntryReaderAllocates
| ReaderAllocates
| InvalidAllocSize
| CombocidMapIOError
| WriterUnresolved
| NoLockHolder
| CannotOpenMap
| ReadFailed
| NoEntryFound

section \<open>Allocating a combo command id\<close>

definition CCID_ARRAY_SIZE :: int where "CCID_ARRAY_SIZE = 100"

definition MaxAllocSize :: int where "MaxAllocSize = 0x3fffffff"

definition AllocSizeIsValid :: "int \<Rightarrow> bool" where
  "AllocSizeIsValid sz \<longleftrightarrow> sz \<le> MaxAllocSize"

text \<open>The size of \<open>ComboCidKeyData\<close>, three 32-bit fields.\<close>

definition sizeof_ComboCidKeyData :: int where "sizeof_ComboCidKeyData = 12"

text \<open>Growing the array when it is full; \<open>repalloc\<close> refuses more than \<open>MaxAllocSize\<close> bytes.\<close>

definition grow_comboCids :: "ComboState \<Rightarrow> ComboError + ComboState" where
  "grow_comboCids st =
     (if int (length (comboCids st)) \<ge> sizeComboCids st
      then let newsize = sizeComboCids st * 2
           in if AllocSizeIsValid (sizeof_ComboCidKeyData * newsize)
              then Inr (st\<lparr>sizeComboCids := newsize\<rparr>) else Inl InvalidAllocSize
      else Inr st)"

text \<open>
  Appending to the file of the writer, which its first entry creates. \<open>written\<close> says whether
  \<open>BufFileWrite\<close> wrote the whole entry.
\<close>

definition dumpSharedComboCommandId ::
  "GpProcess \<Rightarrow> bool \<Rightarrow> ComboState \<Rightarrow> ComboShared \<Rightarrow> TransactionId \<Rightarrow> CommandId \<Rightarrow> CommandId \<Rightarrow> CommandId \<Rightarrow>
     (ComboError + unit) \<times> ComboState \<times> ComboShared" where
  "dumpSharedComboCommandId p written st sh xmin cmin cmax combocid =
     (let path = (gp_session_id p, MyProc_pid p);
          (st1, sh1) =
            (if combocid_map st = None
             then (st\<lparr>combocid_map := Some path\<rparr>,
                   sh\<lparr>combocid_map_count := (combocid_map_count sh)(MyProc_pid p := 0),
                      combo_files := (combo_files sh)(path \<mapsto> [])\<rparr>)
             else (st, sh));
          entry = \<lparr>entry_key = \<lparr>combo_cmin = cmin, combo_cmax = cmax, combo_xmin = xmin\<rparr>,
                   entry_combocid = combocid\<rparr>;
          opened = the (combocid_map st1)
      in if \<not> written then (Inl CombocidMapIOError, st1, sh1)
         else (Inr (), st1,
               sh1\<lparr>combo_files := (combo_files sh1)(opened \<mapsto> the (combo_files sh1 opened) @ [entry]),
                   combocid_map_count :=
                     (combocid_map_count sh1)(MyProc_pid p := combocid_map_count sh1 (MyProc_pid p) + 1)\<rparr>))"

definition GetComboCommandId ::
  "GpProcess \<Rightarrow> bool \<Rightarrow> ComboState \<Rightarrow> ComboShared \<Rightarrow> TransactionId \<Rightarrow> CommandId \<Rightarrow> CommandId \<Rightarrow>
     (ComboError + CommandId) \<times> ComboState \<times> ComboShared" where
  "GetComboCommandId p written st sh xmin cmin cmax =
     (if Gp_role p = GP_ROLE_EXECUTE \<and> \<not> Gp_is_writer p
      then (Inl (if IS_QUERY_DISPATCHER p then EntryReaderAllocates else ReaderAllocates), st, sh)
      else
        let st1 = (if comboHash st = None
                   then st\<lparr>comboCids := [], sizeComboCids := CCID_ARRAY_SIZE, comboHash := Some Map.empty\<rparr>
                   else st)
        in case grow_comboCids st1 of
             Inl e \<Rightarrow> (Inl e, st1, sh)
           | Inr st2 \<Rightarrow>
               let key = \<lparr>combo_cmin = cmin, combo_cmax = cmax, combo_xmin = xmin\<rparr>
               in case the (comboHash st2) key of
                    Some combocid \<Rightarrow> (Inr combocid, st2, sh)
                  | None \<Rightarrow>
                      case grow_comboCids st2 of
                        Inl e \<Rightarrow> (Inl e, st2, sh)
                      | Inr st3 \<Rightarrow>
                          let combocid = word_of_nat (length (comboCids st3));
                              st4 = st3\<lparr>comboCids := comboCids st3 @ [key],
                                        comboHash := Some ((the (comboHash st3))(key \<mapsto> combocid))\<rparr>
                          in if Gp_role p = GP_ROLE_UTILITY then (Inr combocid, st4, sh)
                             else case dumpSharedComboCommandId p written st4 sh xmin cmin cmax combocid of
                                    (Inl e, st5, sh5) \<Rightarrow> (Inl e, st5, sh5)
                                  | (Inr _, st5, sh5) \<Rightarrow> (Inr combocid, st5, sh5))"


section \<open>Resolving a combo command id\<close>

text \<open>
  The scan over the first \<open>n\<close> entries of the file: every entry of the inserting transaction goes
  into the reader's hash table unless it is there, and the last one with the wanted number is the
  result.
\<close>

fun load_scan ::
  "int \<Rightarrow> int \<Rightarrow> TransactionId \<Rightarrow> CommandId \<Rightarrow> nat \<Rightarrow> ComboCidEntryData list \<Rightarrow>
     (readerComboCidKeyData \<rightharpoonup> CommandId \<times> CommandId) \<Rightarrow> (CommandId \<times> CommandId) option \<Rightarrow>
     (ComboError + (CommandId \<times> CommandId) option) \<times> (readerComboCidKeyData \<rightharpoonup> CommandId \<times> CommandId)" where
  "load_scan session pid xmin combocid 0 es h r = (Inr r, h)"
| "load_scan session pid xmin combocid (Suc n) [] h r = (Inl ReadFailed, h)"
| "load_scan session pid xmin combocid (Suc n) (e # es) h r =
     (if combo_xmin (entry_key e) = xmin
      then let k = \<lparr>rk_session = session, rk_writer_pid = pid, rk_xmin = combo_xmin (entry_key e),
                    rk_combocid = entry_combocid e\<rparr>;
               v = (combo_cmin (entry_key e), combo_cmax (entry_key e));
               h1 = (if h k = None then h(k \<mapsto> v) else h);
               r1 = (if entry_combocid e = combocid then Some v else r)
           in load_scan session pid xmin combocid n es h1 r1
      else load_scan session pid xmin combocid n es h r)"

definition loadSharedComboCommandId ::
  "GpProcess \<Rightarrow> ComboState \<Rightarrow> ComboShared \<Rightarrow> TransactionId \<Rightarrow> CommandId \<Rightarrow>
     (ComboError + CommandId \<times> CommandId) \<times> ComboState" where
  "loadSharedComboCommandId p st sh xmin combocid =
     (case lockHolderProcPtr st of
        None \<Rightarrow> (Inl NoLockHolder, st)
      | Some pid \<Rightarrow>
          let path = (case combocid_map st of None \<Rightarrow> (gp_session_id p, pid) | Some path \<Rightarrow> path)
          in case combo_files sh path of
               None \<Rightarrow> (Inl CannotOpenMap, st)
             | Some es \<Rightarrow>
                 let st1 = st\<lparr>combocid_map := Some path\<rparr>;
                     (r, h) = load_scan (gp_session_id p) pid xmin combocid (combocid_map_count sh pid) es
                                (readerComboHash st1) None;
                     st2 = st1\<lparr>readerComboHash := h\<rparr>
                 in case r of
                      Inl e \<Rightarrow> (Inl e, st2)
                    | Inr None \<Rightarrow> (Inl NoEntryFound, st2)
                    | Inr (Some v) \<Rightarrow> (Inr v, st2))"

text \<open>The pair of command ids, of which the caller picks one (\<open>enum minmax\<close>).\<close>

datatype minmax = CMIN | CMAX

definition pick :: "minmax \<Rightarrow> CommandId \<times> CommandId \<Rightarrow> CommandId" where
  "pick min_or_max v = (if min_or_max = CMIN then fst v else snd v)"

definition getSharedComboCidEntry ::
  "GpProcess \<Rightarrow> ComboState \<Rightarrow> ComboShared \<Rightarrow> TransactionId \<Rightarrow> CommandId \<Rightarrow> minmax \<Rightarrow>
     (ComboError + CommandId) \<times> ComboState" where
  "getSharedComboCidEntry p st sh xmin combocid min_or_max =
     (case lockHolderProcPtr st of
        None \<Rightarrow> (Inl NoLockHolder, st)
      | Some pid \<Rightarrow>
          (case readerComboHash st \<lparr>rk_session = gp_session_id p, rk_writer_pid = pid, rk_xmin = xmin,
                                    rk_combocid = combocid\<rparr> of
             Some v \<Rightarrow> (Inr (pick min_or_max v), st)
           | None \<Rightarrow>
               (case loadSharedComboCommandId p st sh xmin combocid of
                  (Inl e, st1) \<Rightarrow> (Inl e, st1)
                | (Inr v, st1) \<Rightarrow> (Inr (pick min_or_max v), st1))))"

definition GetRealCmin ::
  "GpProcess \<Rightarrow> ComboState \<Rightarrow> ComboShared \<Rightarrow> TransactionId \<Rightarrow> CommandId \<Rightarrow> (ComboError + CommandId) \<times> ComboState" where
  "GetRealCmin p st sh xmin combocid =
     (if unat combocid \<ge> length (comboCids st)
      then if Gp_is_writer p then (Inl WriterUnresolved, st)
           else getSharedComboCidEntry p st sh xmin combocid CMIN
      else (Inr (combo_cmin (comboCids st ! unat combocid)), st))"

definition GetRealCmax ::
  "GpProcess \<Rightarrow> ComboState \<Rightarrow> ComboShared \<Rightarrow> TransactionId \<Rightarrow> CommandId \<Rightarrow> (ComboError + CommandId) \<times> ComboState" where
  "GetRealCmax p st sh xmin combocid =
     (if unat combocid \<ge> length (comboCids st)
      then if Gp_is_writer p then (Inl WriterUnresolved, st)
           else getSharedComboCidEntry p st sh xmin combocid CMAX
      else (Inr (combo_cmax (comboCids st ! unat combocid)), st))"

section \<open>The array and its index\<close>

text \<open>
  The hash table is the index of the array. The array doubles from 100 elements and the 20th
  doubling would exceed the largest allocation, so it never has more than 52428800.
\<close>

definition array_size_ok :: "int \<Rightarrow> bool" where
  "array_size_ok n \<longleftrightarrow> n \<in> (\<lambda>k. 100 * 2 ^ k) ` {..19::nat}"

definition index_ok :: "ComboState \<Rightarrow> bool" where
  "index_ok st \<longleftrightarrow>
     (case comboHash st of
        None \<Rightarrow> comboCids st = []
      | Some h \<Rightarrow>
          (\<forall>k c. h k = Some c \<longleftrightarrow> unat c < length (comboCids st) \<and> comboCids st ! unat c = k) \<and>
          array_size_ok (sizeComboCids st) \<and> int (length (comboCids st)) \<le> sizeComboCids st)"

lemma array_size_bounds: "array_size_ok n \<Longrightarrow> 100 \<le> n \<and> n \<le> 52428800"
proof -
  assume "array_size_ok n"
  then obtain k where k: "n = 100 * 2 ^ k" "k \<le> 19" by (auto simp: array_size_ok_def)
  have "(2::int) ^ k \<le> 2 ^ 19" by (rule power_increasing [OF k(2)]) simp
  then show "100 \<le> n \<and> n \<le> 52428800" by (simp add: k(1))
qed

lemma array_size_double:
  assumes "array_size_ok n"
  shows "AllocSizeIsValid (sizeof_ComboCidKeyData * (n * 2)) \<longleftrightarrow> n \<noteq> 52428800"
    and "n \<noteq> 52428800 \<Longrightarrow> array_size_ok (n * 2)"
proof -
  from assms obtain k where k: "n = 100 * 2 ^ k" "k \<le> 19" by (auto simp: array_size_ok_def)
  have "k = 19" if "\<not> k < 19" using that k by simp
  moreover have "(2::int) ^ k \<le> 2 ^ 18" if "k < 19" by (rule power_increasing) (use that in auto)
  ultimately show "AllocSizeIsValid (sizeof_ComboCidKeyData * (n * 2)) \<longleftrightarrow> n \<noteq> 52428800"
    by (cases "k < 19") (auto simp: k(1) AllocSizeIsValid_def sizeof_ComboCidKeyData_def MaxAllocSize_def)
  assume "n \<noteq> 52428800"
  then have "k \<noteq> 19" by (auto simp: k(1))
  then have "Suc k \<in> {..19}" using k(2) by auto
  moreover have "n * 2 = 100 * 2 ^ Suc k" by (simp add: k(1))
  ultimately show "array_size_ok (n * 2)" unfolding array_size_ok_def by (rule rev_image_eqI)
qed

lemma index_ok_length: "index_ok st \<Longrightarrow> length (comboCids st) \<le> 52428800"
  using array_size_bounds [of "sizeComboCids st"] by (auto simp: index_ok_def split: option.splits)

lemma unat_index: "n \<le> 52428800 \<Longrightarrow> unat (word_of_nat n :: CommandId) = n"
  by (simp add: unat_of_nat take_bit_nat_eq_self)

lemma index_ok_add:
  assumes "index_ok st" "comboHash st = Some h" "h key = None"
    and "int (length (comboCids st)) < sizeComboCids st"
  shows "index_ok (st\<lparr>comboCids := comboCids st @ [key],
           comboHash := Some (h(key \<mapsto> word_of_nat (length (comboCids st))))\<rparr>)"
proof -
  let ?n = "length (comboCids st)" and ?cs = "comboCids st @ [key]"
  have h: "h k = Some c \<longleftrightarrow> unat c < ?n \<and> comboCids st ! unat c = k" for k c
    using assms by (simp add: index_ok_def)
  have sz: "array_size_ok (sizeComboCids st)" using assms by (simp add: index_ok_def)
  have u: "unat (word_of_nat ?n :: CommandId) = ?n" by (rule unat_index [OF index_ok_length [OF assms(1)]])
  have "(h(key \<mapsto> word_of_nat ?n)) k = Some c \<longleftrightarrow> unat c < length ?cs \<and> ?cs ! unat c = k" for k c
  proof (cases "k = key")
    case True
    have "unat c < ?n \<and> comboCids st ! unat c = key \<longleftrightarrow> False" using h [of key c] assms(3) by simp
    moreover have "word_of_nat ?n = c \<longleftrightarrow> unat c = ?n" using u by (auto simp: word_unat_eq_iff)
    ultimately show ?thesis using True by (auto simp: nth_append less_Suc_eq)
  next
    case False
    then show ?thesis using h [of k c] by (auto simp: nth_append less_Suc_eq)
  qed
  then show ?thesis using sz assms(4) by (simp add: index_ok_def)
qed

lemma grow_ok:
  assumes "index_ok st" "comboHash st = Some h"
  shows "grow_comboCids st =
     (if length (comboCids st) = 52428800 then Inl InvalidAllocSize
      else Inr (st\<lparr>sizeComboCids := (if int (length (comboCids st)) = sizeComboCids st
                                  then sizeComboCids st * 2 else sizeComboCids st)\<rparr>))"
  using assms array_size_double [of "sizeComboCids st"] array_size_bounds [of "sizeComboCids st"]
  by (auto simp: index_ok_def grow_comboCids_def Let_def)

lemma grow_index_ok:
  assumes "index_ok st" "comboHash st = Some h" "grow_comboCids st = Inr st2"
  shows "index_ok st2" "comboHash st2 = Some h" "comboCids st2 = comboCids st"
    "int (length (comboCids st2)) < sizeComboCids st2" "combocid_map st2 = combocid_map st"
    "readerComboHash st2 = readerComboHash st" "lockHolderProcPtr st2 = lockHolderProcPtr st"
    "grow_comboCids st2 = Inr st2"
proof -
  have g: "st2 = st\<lparr>sizeComboCids := (if int (length (comboCids st)) = sizeComboCids st
                                  then sizeComboCids st * 2 else sizeComboCids st)\<rparr>"
    and n: "length (comboCids st) \<noteq> 52428800"
    using assms(3) by (auto simp: grow_ok [OF assms(1,2)] split: if_splits)
  have s: "array_size_ok (sizeComboCids st)" "int (length (comboCids st)) \<le> sizeComboCids st"
    using assms(1,2) by (auto simp: index_ok_def)
  show "int (length (comboCids st2)) < sizeComboCids st2" using s array_size_bounds [OF s(1)] by (auto simp: g)
  then show "grow_comboCids st2 = Inr st2" by (simp add: grow_comboCids_def)
  show "index_ok st2"
    using assms(1,2) s n array_size_double(2) [OF s(1)] array_size_bounds [OF s(1)]
    by (auto simp: index_ok_def g)
  show "comboHash st2 = Some h" "comboCids st2 = comboCids st" "combocid_map st2 = combocid_map st"
    "readerComboHash st2 = readerComboHash st" "lockHolderProcPtr st2 = lockHolderProcPtr st"
    using assms(2) by (simp_all add: g)
qed

text \<open>The four ways \<open>GetComboCommandId\<close> can go.\<close>

abbreviation combo_key :: "TransactionId \<Rightarrow> CommandId \<Rightarrow> CommandId \<Rightarrow> ComboCidKeyData" where
  "combo_key xmin cmin cmax \<equiv> \<lparr>combo_cmin = cmin, combo_cmax = cmax, combo_xmin = xmin\<rparr>"

lemma GetComboCommandId_cases:
  assumes ok: "index_ok st" and G: "GetComboCommandId p written st sh xmin cmin cmax = (r, st', sh')"
  obtains (refused) "Gp_role p = GP_ROLE_EXECUTE" "\<not> Gp_is_writer p" "st' = st" "sh' = sh"
      "r = Inl (if IS_QUERY_DISPATCHER p then EntryReaderAllocates else ReaderAllocates)"
  | (full) "\<not> (Gp_role p = GP_ROLE_EXECUTE \<and> \<not> Gp_is_writer p)" "length (comboCids st) = 52428800"
      "r = Inl InvalidAllocSize" "st' = st" "sh' = sh"
  | (reuse) c where "\<not> (Gp_role p = GP_ROLE_EXECUTE \<and> \<not> Gp_is_writer p)" "r = Inr c" "sh' = sh" "index_ok st'"
      "unat c < length (comboCids st)" "comboCids st ! unat c = combo_key xmin cmin cmax"
      "comboCids st' = comboCids st" "combocid_map st' = combocid_map st"
      "readerComboHash st' = readerComboHash st"
  | (fresh) st4 c where "\<not> (Gp_role p = GP_ROLE_EXECUTE \<and> \<not> Gp_is_writer p)" "index_ok st4"
      "length (comboCids st) < 52428800" "c = word_of_nat (length (comboCids st))"
      "combo_key xmin cmin cmax \<notin> set (comboCids st)"
      "comboCids st4 = comboCids st @ [combo_key xmin cmin cmax]" "combocid_map st4 = combocid_map st"
      "readerComboHash st4 = readerComboHash st"
      "(r, st', sh') =
         (if Gp_role p = GP_ROLE_UTILITY then (Inr c, st4, sh)
          else case dumpSharedComboCommandId p written st4 sh xmin cmin cmax c of
                 (Inl e, st5, sh5) \<Rightarrow> (Inl e, st5, sh5)
               | (Inr _, st5, sh5) \<Rightarrow> (Inr c, st5, sh5))"
proof (cases "Gp_role p = GP_ROLE_EXECUTE \<and> \<not> Gp_is_writer p")
  case True
  then show thesis using G refused by (simp add: GetComboCommandId_def)
next
  case role: False
  define st1 where "st1 = (if comboHash st = None
    then st\<lparr>comboCids := [], sizeComboCids := CCID_ARRAY_SIZE, comboHash := Some Map.empty\<rparr> else st)"
  obtain h where h: "comboHash st1 = Some h" by (cases "comboHash st") (auto simp: st1_def)
  have "array_size_ok 100" unfolding array_size_ok_def by (rule rev_image_eqI [of 0]) simp_all
  then have ok1: "index_ok st1"
    using ok by (auto simp: st1_def index_ok_def CCID_ARRAY_SIZE_def)
  have f1: "comboCids st1 = comboCids st" "combocid_map st1 = combocid_map st"
    "readerComboHash st1 = readerComboHash st" "comboHash st \<noteq> None \<Longrightarrow> st1 = st"
    using ok by (auto simp: st1_def index_ok_def)
  note G' = G [unfolded GetComboCommandId_def if_not_P [OF role] st1_def [symmetric] Let_def]
  show thesis
  proof (cases "grow_comboCids st1")
    case (Inl e)
    then have "e = InvalidAllocSize" "length (comboCids st) = 52428800"
      by (auto simp: grow_ok [OF ok1 h] f1 split: if_splits)
    moreover from this have "comboHash st \<noteq> None" using ok by (cases "comboHash st") (auto simp: index_ok_def)
    ultimately show thesis using G' full role Inl f1(4) by simp
  next
    case (Inr st2)
    note g = grow_index_ok [OF ok1 h Inr]
    have n: "length (comboCids st) < 52428800"
      using Inr index_ok_length [OF ok1] by (auto simp: grow_ok [OF ok1 h] f1 split: if_splits)
    have hh: "h k = Some c \<longleftrightarrow> unat c < length (comboCids st) \<and> comboCids st ! unat c = k" for k c
      using ok1 by (simp add: index_ok_def h f1)
    show thesis
    proof (cases "h (combo_key xmin cmin cmax)")
      case (Some c)
      show thesis
      proof (rule reuse [OF role])
        show "r = Inr c" "sh' = sh" "index_ok st'" "comboCids st' = comboCids st" "combocid_map st' = combocid_map st"
          "readerComboHash st' = readerComboHash st"
          using G' Inr Some g f1 by simp_all
        show "unat c < length (comboCids st)" "comboCids st ! unat c = combo_key xmin cmin cmax"
          using Some hh by simp_all
      qed
    next
      case None
      let ?c = "word_of_nat (length (comboCids st)) :: CommandId"
      let ?st4 = "st2\<lparr>comboCids := comboCids st2 @ [combo_key xmin cmin cmax],
        comboHash := Some (h(combo_key xmin cmin cmax \<mapsto> ?c))\<rparr>"
      show thesis
      proof (rule fresh [OF role _ n refl])
        show "index_ok ?st4" using index_ok_add [OF g(1,2) None g(4)] by (simp add: g f1)
        show "combo_key xmin cmin cmax \<notin> set (comboCids st)"
        proof
          assume "combo_key xmin cmin cmax \<in> set (comboCids st)"
          then obtain i where i: "i < length (comboCids st)" "comboCids st ! i = combo_key xmin cmin cmax"
            by (auto simp: in_set_conv_nth)
          then have "h (combo_key xmin cmin cmax) = Some (word_of_nat i)"
            using n by (simp add: hh unat_index)
          then show False using None by simp
        qed
        show "(r, st', sh') =
         (if Gp_role p = GP_ROLE_UTILITY then (Inr ?c, ?st4, sh)
          else case dumpSharedComboCommandId p written ?st4 sh xmin cmin cmax ?c of
                 (Inl e, st5, sh5) \<Rightarrow> (Inl e, st5, sh5)
               | (Inr _, st5, sh5) \<Rightarrow> (Inr ?c, st5, sh5))"
          using G' unfolding Inr sum.case g(2,3,8) f1(1) option.sel None option.case by simp
      qed (simp_all add: g f1)
    qed
  qed
qed

lemma dump_frame:
  assumes "dumpSharedComboCommandId p written st sh xmin cmin cmax c = (r, st', sh')"
  shows "comboHash st' = comboHash st" "comboCids st' = comboCids st" "sizeComboCids st' = sizeComboCids st"
    "readerComboHash st' = readerComboHash st" "(r = Inr ()) = written" "r = Inl e \<Longrightarrow> e = CombocidMapIOError"
  using assms by (auto simp: dumpSharedComboCommandId_def Let_def split: if_splits)

lemma index_ok_cong:
  "comboHash st' = comboHash st \<Longrightarrow> comboCids st' = comboCids st \<Longrightarrow> sizeComboCids st' = sizeComboCids st \<Longrightarrow>
   index_ok st' = index_ok st"
  by (auto simp: index_ok_def split: option.splits)

text \<open>What the callers of \<open>GetComboCommandId\<close> see of a success, of any outcome, and of a failure.\<close>

lemma GetComboCommandId_array:
  assumes ok: "index_ok st" and G: "GetComboCommandId p written st sh xmin cmin cmax = (r, st', sh')"
  shows "index_ok st' \<and> (\<exists>new. comboCids st' = comboCids st @ new)"
    and "r = Inr c \<Longrightarrow> unat c < length (comboCids st') \<and> comboCids st' ! unat c = combo_key xmin cmin cmax"
proof -
  have "index_ok st' \<and> (\<exists>new. comboCids st' = comboCids st @ new) \<and>
    (r = Inr c \<longrightarrow> unat c < length (comboCids st') \<and> comboCids st' ! unat c = combo_key xmin cmin cmax)"
  proof (cases rule: GetComboCommandId_cases [OF ok G, case_names refused full reuse fresh])
    case a: (fresh st4 d)
    obtain q st5 sh5 where d: "dumpSharedComboCommandId p written st4 sh xmin cmin cmax d = (q, st5, sh5)"
      by (cases "dumpSharedComboCommandId p written st4 sh xmin cmin cmax d") auto
    have "index_ok st' \<and> comboCids st' = comboCids st4 \<and> (r = Inr c \<longrightarrow> c = d)"
      using a(2,9) dump_frame(1-3) [OF d] index_ok_cong [OF dump_frame(1-3) [OF d]] d
      by (auto split: if_splits sum.splits)
    moreover have "unat d = length (comboCids st)" using a(3,4) by (simp add: unat_index)
    ultimately show ?thesis using a(6) by auto
  qed (use ok in auto)
  then show "index_ok st' \<and> (\<exists>new. comboCids st' = comboCids st @ new)"
    and "r = Inr c \<Longrightarrow> unat c < length (comboCids st') \<and> comboCids st' ! unat c = combo_key xmin cmin cmax"
    by blast+
qed

lemma GetComboCommandId_succeeds:
  assumes ok: "index_ok st" and G: "GetComboCommandId p written st sh xmin cmin cmax = (r, st', sh')"
  shows "r = Inl e \<Longrightarrow>
      Gp_role p = GP_ROLE_EXECUTE \<and> \<not> Gp_is_writer p \<and>
        e = (if IS_QUERY_DISPATCHER p then EntryReaderAllocates else ReaderAllocates) \<or>
      length (comboCids st) = 52428800 \<and> e = InvalidAllocSize \<or>
      Gp_role p \<noteq> GP_ROLE_UTILITY \<and> \<not> written \<and> e = CombocidMapIOError"
proof (cases rule: GetComboCommandId_cases [OF ok G, case_names refused full reuse fresh])
  case (fresh st4 d)
  assume r: "r = Inl e"
  obtain q st5 sh5 where d: "dumpSharedComboCommandId p written st4 sh xmin cmin cmax d = (q, st5, sh5)"
    by (cases "dumpSharedComboCommandId p written st4 sh xmin cmin cmax d") auto
  show ?thesis using fresh(9) r d dump_frame(5,6) [OF d]
    by (cases q) (auto split: if_splits)
qed auto

text \<open>
  C38.  Combo command ids round trip. Every successful call returns a number below 52428800 that
  resolves to the command ids it was made for, and every number given out before keeps its meaning,
  whether a pair was reused, the array grew or the call failed; the array is never written out of
  its bounds. A call fails only in a reader process, when the array can grow no more, or when the
  entry could not be written to the shared file.
\<close>

theorem GetComboCommandId_roundtrip:
  assumes "index_ok st" and "GetComboCommandId p written st sh xmin cmin cmax = (r, st', sh')"
  shows "index_ok st' \<and> int (length (comboCids st')) \<le> max 0 (sizeComboCids st') \<and>
    (case r of
       Inr c \<Rightarrow> c < 52428800 \<and> GetRealCmin p st' sh' xmin c = (Inr cmin, st') \<and> GetRealCmax p st' sh' xmin c = (Inr cmax, st')
     | Inl e \<Rightarrow>
         Gp_role p = GP_ROLE_EXECUTE \<and> \<not> Gp_is_writer p \<and>
           e = (if IS_QUERY_DISPATCHER p then EntryReaderAllocates else ReaderAllocates) \<or>
         length (comboCids st) = 52428800 \<and> e = InvalidAllocSize \<or>
         Gp_role p \<noteq> GP_ROLE_UTILITY \<and> \<not> written \<and> e = CombocidMapIOError) \<and>
    (\<forall>c x. unat c < length (comboCids st) \<longrightarrow>
       GetRealCmin p st' sh' x c = (fst (GetRealCmin p st sh x c), st') \<and>
       GetRealCmax p st' sh' x c = (fst (GetRealCmax p st sh x c), st'))"
proof (intro conjI)
  note A = GetComboCommandId_array [OF assms]
  obtain new where new: "comboCids st' = comboCids st @ new" using A(1) by blast
  show "index_ok st'" using A(1) by blast
  show "int (length (comboCids st')) \<le> max 0 (sizeComboCids st')"
    using A(1) by (auto simp: index_ok_def split: option.splits)
  show "\<forall>c x. unat c < length (comboCids st) \<longrightarrow>
       GetRealCmin p st' sh' x c = (fst (GetRealCmin p st sh x c), st') \<and>
       GetRealCmax p st' sh' x c = (fst (GetRealCmax p st sh x c), st')"
    by (simp add: GetRealCmin_def GetRealCmax_def new nth_append)
  show "case r of
       Inr c \<Rightarrow> c < 52428800 \<and> GetRealCmin p st' sh' xmin c = (Inr cmin, st') \<and> GetRealCmax p st' sh' xmin c = (Inr cmax, st')
     | Inl e \<Rightarrow>
         Gp_role p = GP_ROLE_EXECUTE \<and> \<not> Gp_is_writer p \<and>
           e = (if IS_QUERY_DISPATCHER p then EntryReaderAllocates else ReaderAllocates) \<or>
         length (comboCids st) = 52428800 \<and> e = InvalidAllocSize \<or>
         Gp_role p \<noteq> GP_ROLE_UTILITY \<and> \<not> written \<and> e = CombocidMapIOError"
  proof (cases r)
    case (Inl e)
    then show ?thesis using GetComboCommandId_succeeds [OF assms Inl] by simp
  next
    case (Inr c)
    have "length (comboCids st') \<le> 52428800" using A(1) index_ok_length by blast
    then have "c < 52428800" using A(2) [OF Inr] by (simp add: word_less_nat_alt)
    then show ?thesis using Inr A(2) [OF Inr] by (simp add: GetRealCmin_def GetRealCmax_def)
  qed
qed

section \<open>Writer and readers\<close>

text \<open>
  The file holds the entries of the writer's ended transactions, then those of the running one, in
  the order of the array. No two entries have the same inserting transaction and number.
\<close>

definition combo_entries :: "ComboCidKeyData list \<Rightarrow> ComboCidEntryData list" where
  "combo_entries cs = map (\<lambda>i. \<lparr>entry_key = cs ! i, entry_combocid = word_of_nat i\<rparr>) [0..<length cs]"









lemma combo_entries_Nil [simp]: "combo_entries [] = []"
  by (simp add: combo_entries_def)



subsection \<open>The scan of the file\<close>

lemma load_scan_total: "n \<le> length es \<Longrightarrow> \<exists>v. fst (load_scan session pid x c n es h r) = Inr v"
  by (induction session pid x c n es h r rule: load_scan.induct) (auto simp: Let_def)





subsection \<open>Sessions\<close>

text \<open>
  A session: its writer, one of its readers, the shared part, and the transaction ids of the
  writer's ended transactions. The writer allocates for ids of its running transaction, the
  processes end their transactions on their own, and the reader resolves what it likes.
\<close>

record ComboSession =
  writer :: ComboState
  reader :: ComboState
  shared :: ComboShared
  ended :: "TransactionId set"













section \<open>Witnesses\<close>

definition example_writer :: GpProcess where
  "example_writer = \<lparr>Gp_role = GP_ROLE_EXECUTE, Gp_is_writer = True, segindex = 0, gp_session_id = 11, MyProc_pid = 4711\<rparr>"

definition example_reader :: GpProcess where
  "example_reader = \<lparr>Gp_role = GP_ROLE_EXECUTE, Gp_is_writer = False, segindex = 0, gp_session_id = 11, MyProc_pid = 4712\<rparr>"

definition example_combo :: "int option \<Rightarrow> ComboState" where
  "example_combo holder = \<lparr>comboHash = None, comboCids = [], sizeComboCids = 0, readerComboHash = Map.empty,
     combocid_map = None, lockHolderProcPtr = holder\<rparr>"

definition example_shared :: ComboShared where
  "example_shared = \<lparr>combo_files = Map.empty, combocid_map_count = (\<lambda>pid. 0)\<rparr>"

definition example_session :: ComboSession where
  "example_session = \<lparr>writer = example_combo None, reader = example_combo (Some 4711), shared = example_shared, ended = {99}\<rparr>"

text \<open>The session after the first combo command id: commands 3 and 5 of transaction 100.\<close>

definition example_session1 :: ComboSession where
  "example_session1 =
     (case GetComboCommandId example_writer True (example_combo None) example_shared 100 3 5 of
        (r, st, sh) \<Rightarrow> example_session\<lparr>writer := st, shared := sh\<rparr>)"

lemmas example_combo_defs = example_writer_def example_reader_def example_combo_def example_shared_def

lemma example_first_id:
  "GetComboCommandId example_writer True (example_combo None) example_shared 100 3 5 =
     (Inr 0, writer example_session1, shared example_session1)"
  by (simp add: example_session1_def GetComboCommandId_def grow_comboCids_def dumpSharedComboCommandId_def
      example_combo_defs CCID_ARRAY_SIZE_def Let_def split: prod.splits)

theorem GetComboCommandId_roundtrip_witness:
  "GetRealCmin example_writer (writer example_session1) (shared example_session1) 100 0 = (Inr 3, writer example_session1) \<and>
   GetRealCmax example_writer (writer example_session1) (shared example_session1) 100 0 = (Inr 5, writer example_session1)"
  using GetComboCommandId_roundtrip [OF _ example_first_id] by (simp add: index_ok_def example_combo_def)


end
