(* ===== verification/Tqual.thy ===== *)
theory Tqual
  imports ProcArray DistribSnapshot ComboCid
begin

text \<open>
  The tuple visibility rules of \<open>utils/time/tqual.c\<close>, with the header macros of
  \<open>htup_details.h\<close>, the command ids of \<open>combocid.c\<close> and the multixact questions of
  \<open>multixact.c\<close> and \<open>heapam.c\<close> that they ask.

  One call of a visibility function reads one state of the system (\<open>TqEnv\<close>) and may change the
  tuple header: it returns the header with its hint bits, and whether \<open>MarkBufferDirtyHint\<close> was
  called on the buffer.
\<close>

section \<open>Tuple headers\<close>

text \<open>\<open>t_field3\<close> is the union of \<open>t_cid\<close> and \<open>t_xvac\<close>.\<close>

record HeapTupleHeader =
  t_xmin :: TransactionId
  t_xmax :: TransactionId
  t_field3 :: uint32
  t_infomask :: uint16
  t_infomask2 :: uint16

definition HEAP_XMAX_KEYSHR_LOCK :: uint16 where "HEAP_XMAX_KEYSHR_LOCK = 0x0010"
definition HEAP_COMBOCID :: uint16 where "HEAP_COMBOCID = 0x0020"
definition HEAP_XMAX_EXCL_LOCK :: uint16 where "HEAP_XMAX_EXCL_LOCK = 0x0040"
definition HEAP_XMAX_LOCK_ONLY :: uint16 where "HEAP_XMAX_LOCK_ONLY = 0x0080"
definition HEAP_XMAX_SHR_LOCK :: uint16 where
  "HEAP_XMAX_SHR_LOCK = HEAP_XMAX_EXCL_LOCK OR HEAP_XMAX_KEYSHR_LOCK"
definition HEAP_LOCK_MASK :: uint16 where
  "HEAP_LOCK_MASK = HEAP_XMAX_SHR_LOCK OR HEAP_XMAX_EXCL_LOCK OR HEAP_XMAX_KEYSHR_LOCK"
definition HEAP_XMIN_COMMITTED :: uint16 where "HEAP_XMIN_COMMITTED = 0x0100"
definition HEAP_XMIN_INVALID :: uint16 where "HEAP_XMIN_INVALID = 0x0200"
definition HEAP_XMIN_FROZEN :: uint16 where "HEAP_XMIN_FROZEN = HEAP_XMIN_COMMITTED OR HEAP_XMIN_INVALID"
definition HEAP_XMAX_COMMITTED :: uint16 where "HEAP_XMAX_COMMITTED = 0x0400"
definition HEAP_XMAX_INVALID :: uint16 where "HEAP_XMAX_INVALID = 0x0800"
definition HEAP_XMAX_IS_MULTI :: uint16 where "HEAP_XMAX_IS_MULTI = 0x1000"
definition HEAP_MOVED_OFF :: uint16 where "HEAP_MOVED_OFF = 0x4000"
definition HEAP_MOVED_IN :: uint16 where "HEAP_MOVED_IN = 0x8000"
definition HEAP_MOVED :: uint16 where "HEAP_MOVED = HEAP_MOVED_OFF OR HEAP_MOVED_IN"
definition HEAP_XMIN_DISTRIBUTED_SNAPSHOT_IGNORE :: uint16 where
  "HEAP_XMIN_DISTRIBUTED_SNAPSHOT_IGNORE = 0x0800"
definition HEAP_XMAX_DISTRIBUTED_SNAPSHOT_IGNORE :: uint16 where
  "HEAP_XMAX_DISTRIBUTED_SNAPSHOT_IGNORE = 0x1000"

lemmas heap_mask_defs = HEAP_XMAX_KEYSHR_LOCK_def HEAP_COMBOCID_def HEAP_XMAX_EXCL_LOCK_def
  HEAP_XMAX_LOCK_ONLY_def HEAP_XMAX_SHR_LOCK_def HEAP_LOCK_MASK_def HEAP_XMIN_COMMITTED_def
  HEAP_XMIN_INVALID_def HEAP_XMIN_FROZEN_def HEAP_XMAX_COMMITTED_def HEAP_XMAX_INVALID_def
  HEAP_XMAX_IS_MULTI_def HEAP_MOVED_OFF_def HEAP_MOVED_IN_def HEAP_MOVED_def

text \<open>\<open>tup->t_infomask & k\<close> as a condition.\<close>

definition has :: "HeapTupleHeader \<Rightarrow> uint16 \<Rightarrow> bool" where
  "has t k \<longleftrightarrow> t_infomask t AND k \<noteq> 0"

definition HEAP_XMAX_IS_LOCKED_ONLY :: "uint16 \<Rightarrow> bool" where
  "HEAP_XMAX_IS_LOCKED_ONLY infomask \<longleftrightarrow>
     infomask AND HEAP_XMAX_LOCK_ONLY \<noteq> 0 \<or>
     infomask AND (HEAP_XMAX_IS_MULTI OR HEAP_LOCK_MASK) = HEAP_XMAX_EXCL_LOCK"

definition HEAP_LOCKED_UPGRADED :: "uint16 \<Rightarrow> bool" where
  "HEAP_LOCKED_UPGRADED infomask \<longleftrightarrow>
     infomask AND HEAP_XMAX_IS_MULTI \<noteq> 0 \<and> infomask AND HEAP_XMAX_LOCK_ONLY \<noteq> 0 \<and>
     infomask AND (HEAP_XMAX_EXCL_LOCK OR HEAP_XMAX_KEYSHR_LOCK) = 0"

definition HeapTupleHeaderXminCommitted :: "HeapTupleHeader \<Rightarrow> bool" where
  "HeapTupleHeaderXminCommitted tup \<longleftrightarrow> t_infomask tup AND HEAP_XMIN_COMMITTED \<noteq> 0"

definition HeapTupleHeaderXminInvalid :: "HeapTupleHeader \<Rightarrow> bool" where
  "HeapTupleHeaderXminInvalid tup \<longleftrightarrow>
     t_infomask tup AND (HEAP_XMIN_COMMITTED OR HEAP_XMIN_INVALID) = HEAP_XMIN_INVALID"

definition HeapTupleHeaderXminFrozen :: "HeapTupleHeader \<Rightarrow> bool" where
  "HeapTupleHeaderXminFrozen tup \<longleftrightarrow> t_infomask tup AND HEAP_XMIN_FROZEN = HEAP_XMIN_FROZEN"

definition HeapTupleHeaderGetRawXmin :: "HeapTupleHeader \<Rightarrow> TransactionId" where
  "HeapTupleHeaderGetRawXmin tup = t_xmin tup"

definition HeapTupleHeaderGetXmin :: "HeapTupleHeader \<Rightarrow> TransactionId" where
  "HeapTupleHeaderGetXmin tup =
     (if HeapTupleHeaderXminFrozen tup then FrozenTransactionId else HeapTupleHeaderGetRawXmin tup)"

definition HeapTupleHeaderGetRawXmax :: "HeapTupleHeader \<Rightarrow> TransactionId" where
  "HeapTupleHeaderGetRawXmax tup = t_xmax tup"

definition HeapTupleHeaderGetRawCommandId :: "HeapTupleHeader \<Rightarrow> CommandId" where
  "HeapTupleHeaderGetRawCommandId tup = t_field3 tup"

definition HeapTupleHeaderGetXvac :: "HeapTupleHeader \<Rightarrow> TransactionId" where
  "HeapTupleHeaderGetXvac tup = (if has tup HEAP_MOVED then t_field3 tup else InvalidTransactionId)"

lemmas raw_defs = HeapTupleHeaderGetRawXmin_def HeapTupleHeaderGetRawXmax_def
  HeapTupleHeaderGetRawCommandId_def

section \<open>The system a check reads\<close>

datatype MultiXactStatus =
  MultiXactStatusForKeyShare
| MultiXactStatusForShare
| MultiXactStatusForNoKeyUpdate
| MultiXactStatusForUpdate
| MultiXactStatusNoKeyUpdate
| MultiXactStatusUpdate

record MultiXactMember =
  mx_xid :: TransactionId
  mx_status :: MultiXactStatus

text \<open>
  What \<open>XLogNeedsFlush\<close> reads: the recovery settings of the process, its copies of the minimum
  recovery point and of the flush position with the shared values behind them, and whether
  \<open>ControlFileLock\<close> is free.
\<close>

record XLogCtlState =
  InRecovery :: bool
  updateMinRecoveryPoint :: bool
  minRecoveryPoint :: XLogRecPtr
  ControlFileLock_free :: bool
  ControlFile_minRecoveryPoint :: XLogRecPtr
  LogwrtResult_Flush :: XLogRecPtr
  XLogCtl_LogwrtResult_Flush :: XLogRecPtr

text \<open>
  \<open>multi_members\<close> is what \<open>GetMultiXactIdMembers\<close> finds in its cache or reads from the multixact
  log.
  \<open>rel_oid\<close>, \<open>rel_namespace\<close> and \<open>buffer_permanent\<close> are of the tuple's relation and buffer.
\<close>

record TqEnv =
  sys :: XactSys
  multi_members :: "TransactionId \<Rightarrow> MultiXactMember list"
  gp :: GpProcess
  combo :: ComboState
  combo_shared :: ComboShared
  nextXid :: TransactionId
  NBuffers :: nat
  xlog_ctl :: XLogCtlState
  gp_disable_tuple_hints :: bool
  rel_oid :: Oid
  rel_namespace :: Oid
  buffer_permanent :: bool
  distributed_log :: DistributedLog

datatype TqError =
  DistribErr DistribError
| ComboErr ComboError
| UnexpectedInfomask
| UnrecognizedCommittedTest
| UnresolvedTupleCids

abbreviation current :: "TqEnv \<Rightarrow> TransactionId \<Rightarrow> bool" where
  "current env \<equiv> IsCurrent (sys env)"

abbreviation in_progress :: "TqEnv \<Rightarrow> TransactionId \<Rightarrow> bool" where
  "in_progress env \<equiv> TransactionIdIsInProgress (sys env)"

abbreviation did_commit :: "TqEnv \<Rightarrow> TransactionId \<Rightarrow> bool" where
  "did_commit env \<equiv> DidCommit (sys env)"

section \<open>Multixacts and command ids\<close>

definition ISUPDATE_from_mxstatus :: "MultiXactStatus \<Rightarrow> bool" where
  "ISUPDATE_from_mxstatus status \<longleftrightarrow> status = MultiXactStatusNoKeyUpdate \<or> status = MultiXactStatusUpdate"

text \<open>No members, also for the answer -1.\<close>

definition GetMultiXactIdMembers :: "TqEnv \<Rightarrow> TransactionId \<Rightarrow> MultiXactMember list" where
  "GetMultiXactIdMembers env multi = (if \<not> TransactionIdIsValid multi then [] else multi_members env multi)"

fun first_updater :: "MultiXactMember list \<Rightarrow> TransactionId" where
  "first_updater [] = InvalidTransactionId"
| "first_updater (m # ms) = (if \<not> ISUPDATE_from_mxstatus (mx_status m) then first_updater ms else mx_xid m)"

definition MultiXactIdGetUpdateXid :: "TqEnv \<Rightarrow> TransactionId \<Rightarrow> TransactionId" where
  "MultiXactIdGetUpdateXid env xmax = first_updater (GetMultiXactIdMembers env xmax)"

definition HeapTupleGetUpdateXid :: "TqEnv \<Rightarrow> HeapTupleHeader \<Rightarrow> TransactionId" where
  "HeapTupleGetUpdateXid env tup = MultiXactIdGetUpdateXid env (HeapTupleHeaderGetRawXmax tup)"

definition HeapTupleHeaderGetUpdateXid :: "TqEnv \<Rightarrow> HeapTupleHeader \<Rightarrow> TransactionId" where
  "HeapTupleHeaderGetUpdateXid env tup =
     (if \<not> has tup HEAP_XMAX_INVALID \<and> has tup HEAP_XMAX_IS_MULTI \<and> \<not> has tup HEAP_XMAX_LOCK_ONLY
      then HeapTupleGetUpdateXid env tup else HeapTupleHeaderGetRawXmax tup)"

fun any_member :: "(TransactionId \<Rightarrow> bool) \<Rightarrow> MultiXactMember list \<Rightarrow> bool" where
  "any_member P [] = False"
| "any_member P (m # ms) = (if P (mx_xid m) then True else any_member P ms)"

definition MultiXactIdIsRunning :: "TqEnv \<Rightarrow> TransactionId \<Rightarrow> bool" where
  "MultiXactIdIsRunning env multi =
     (if any_member (current env) (GetMultiXactIdMembers env multi) then True
      else any_member (in_progress env) (GetMultiXactIdMembers env multi))"

definition MultiXactHasRunningRemoteMembers :: "TqEnv \<Rightarrow> TransactionId \<Rightarrow> bool" where
  "MultiXactHasRunningRemoteMembers env multi =
     any_member (\<lambda>x. \<not> current env x \<and> in_progress env x) (GetMultiXactIdMembers env multi)"

text \<open>
  The command ids of a tuple. What the resolution caches in the reader's hash table is not part of
  the answer (\<open>ComboCid\<close> shows that it does not change later answers).
\<close>

definition combo_result :: "(ComboError + CommandId) \<times> ComboState \<Rightarrow> TqError + CommandId" where
  "combo_result r = (case fst r of Inl e \<Rightarrow> Inl (ComboErr e) | Inr c \<Rightarrow> Inr c)"

definition HeapTupleHeaderGetCmin :: "TqEnv \<Rightarrow> HeapTupleHeader \<Rightarrow> TqError + CommandId" where
  "HeapTupleHeaderGetCmin env tup =
     (let cid = HeapTupleHeaderGetRawCommandId tup
      in if has tup HEAP_COMBOCID
         then combo_result (GetRealCmin (gp env) (combo env) (combo_shared env) (HeapTupleHeaderGetXmin tup) cid)
         else Inr cid)"

definition HeapTupleHeaderGetCmax :: "TqEnv \<Rightarrow> HeapTupleHeader \<Rightarrow> TqError + CommandId" where
  "HeapTupleHeaderGetCmax env tup =
     (let cid = HeapTupleHeaderGetRawCommandId tup
      in if has tup HEAP_COMBOCID
         then combo_result (GetRealCmax (gp env) (combo env) (combo_shared env) (HeapTupleHeaderGetXmin tup) cid)
         else Inr cid)"

section \<open>Hint bits\<close>

record TupleBuf =
  hdr :: HeapTupleHeader
  dirty_hint :: bool

definition MarkBufferDirtyHint :: "TupleBuf \<Rightarrow> TupleBuf" where
  "MarkBufferDirtyHint tb = tb\<lparr>dirty_hint := True\<rparr>"

definition CLOGShmemBuffers :: "TqEnv \<Rightarrow> nat" where
  "CLOGShmemBuffers env = min 32 (max 4 (NBuffers env div 512))"

definition CLOGTransactionIsOld :: "TqEnv \<Rightarrow> TransactionId \<Rightarrow> bool" where
  "CLOGTransactionIsOld env xid =
     (if nextXid env < xid then False
      else
        let pagesBack = (nextXid env - xid) div CLOG_XACTS_PER_PAGE
        in unat pagesBack > CLOGShmemBuffers env div 2)"

definition FirstNormalObjectId :: Oid where
  "FirstNormalObjectId = 16384"

definition PG_AOSEGMENT_NAMESPACE :: Oid where
  "PG_AOSEGMENT_NAMESPACE = 6104"

definition markDirty :: "TqEnv \<Rightarrow> TupleBuf \<Rightarrow> bool \<Rightarrow> TupleBuf" where
  "markDirty env tb isXmin =
     (if \<not> gp_disable_tuple_hints env then MarkBufferDirtyHint tb
      else if rel_oid env < FirstNormalObjectId \<or> rel_namespace env = PG_AOSEGMENT_NAMESPACE
      then MarkBufferDirtyHint tb
      else
        let xid = (if isXmin then HeapTupleHeaderGetXmin (hdr tb) else HeapTupleHeaderGetRawXmax (hdr tb))
        in if xid = InvalidTransactionId then MarkBufferDirtyHint tb
           else if CLOGTransactionIsOld env xid then MarkBufferDirtyHint tb
           else tb)"

text \<open>
  Whether WAL up to \<open>record\<close> still has to be flushed; during recovery, whether the minimum
  recovery point is behind it.  That the call refreshes the local copies is left out.
\<close>

definition XLogNeedsFlush :: "TqEnv \<Rightarrow> XLogRecPtr \<Rightarrow> bool" where
  "XLogNeedsFlush env record =
     (let xl = xlog_ctl env
      in if RecoveryInProgress (sys env)
         then let update = (if minRecoveryPoint xl = 0 \<and> InRecovery xl then False else updateMinRecoveryPoint xl)
              in if record \<le> minRecoveryPoint xl \<or> \<not> update then False
                 else if \<not> ControlFileLock_free xl then True
                 else
                   let update1 = (if ControlFile_minRecoveryPoint xl = 0 then False else update)
                   in if record \<le> ControlFile_minRecoveryPoint xl \<or> \<not> update1 then False else True
         else if record \<le> LogwrtResult_Flush xl then False
         else if record \<le> XLogCtl_LogwrtResult_Flush xl then False
         else True)"

definition set_infomask :: "TupleBuf \<Rightarrow> uint16 \<Rightarrow> TupleBuf" where
  "set_infomask tb m = tb\<lparr>hdr := (hdr tb)\<lparr>t_infomask := t_infomask (hdr tb) OR m\<rparr>\<rparr>"

definition HeapTupleSetHintBits ::
  "TqEnv \<Rightarrow> TupleBuf \<Rightarrow> uint16 \<Rightarrow> TransactionId \<Rightarrow> TqError + TupleBuf" where
  "HeapTupleSetHintBits env tb infomask xid =
     (if TransactionIdIsValid xid \<and>
         XLogNeedsFlush env (TransactionIdGetCommitLSN (xlog (sys env)) (fetch_cache (sys env)) xid) \<and>
         buffer_permanent env
      then Inr tb
      else
        let tb1 = set_infomask tb infomask
        in if infomask = HEAP_XMIN_INVALID \<or> infomask = HEAP_XMIN_COMMITTED
           then Inr (markDirty env tb1 True)
           else if infomask = HEAP_XMAX_INVALID \<or> infomask = HEAP_XMAX_COMMITTED
           then Inr (markDirty env tb1 False)
           else Inl UnexpectedInfomask)"

text \<open>The calls below all pass one of the four masks, so that no error arises.\<close>

definition SetHintBits :: "TqEnv \<Rightarrow> TupleBuf \<Rightarrow> uint16 \<Rightarrow> TransactionId \<Rightarrow> TupleBuf" where
  "SetHintBits env tb infomask xid =
     (case HeapTupleSetHintBits env tb infomask xid of Inl _ \<Rightarrow> tb | Inr tb1 \<Rightarrow> tb1)"


section \<open>The parts the visibility functions share\<close>

text \<open>
  The block on tuples moved by an old-style VACUUM FULL, which is the same in all the boolean
  functions and in \<open>HeapTupleSatisfiesUpdate\<close>: \<open>None\<close> when the tuple was not moved, otherwise
  whether the function goes on to look at xmax, or returns that the tuple is invisible.
\<close>

definition moved_check :: "TqEnv \<Rightarrow> TupleBuf \<Rightarrow> (bool \<times> TupleBuf) option" where
  "moved_check env tb =
     (let xvac = HeapTupleHeaderGetXvac (hdr tb)
      in if has (hdr tb) HEAP_MOVED_OFF
         then if current env xvac then Some (False, tb)
              else if \<not> in_progress env xvac
              then if did_commit env xvac
                   then Some (False, SetHintBits env tb HEAP_XMIN_INVALID InvalidTransactionId)
                   else Some (True, SetHintBits env tb HEAP_XMIN_COMMITTED InvalidTransactionId)
              else Some (True, tb)
         else if has (hdr tb) HEAP_MOVED_IN
         then if \<not> current env xvac
              then if in_progress env xvac then Some (False, tb)
                   else if did_commit env xvac
                   then Some (True, SetHintBits env tb HEAP_XMIN_COMMITTED InvalidTransactionId)
                   else Some (False, SetHintBits env tb HEAP_XMIN_INVALID InvalidTransactionId)
              else Some (True, tb)
         else None)"

section \<open>HeapTupleSatisfiesSelf\<close>

text \<open>The branch of a tuple inserted by the current transaction.\<close>

definition self_own :: "TqEnv \<Rightarrow> TupleBuf \<Rightarrow> bool \<times> TupleBuf" where
  "self_own env tb =
     (let t = hdr tb
      in if has t HEAP_XMAX_INVALID then (True, tb)
         else if HEAP_XMAX_IS_LOCKED_ONLY (t_infomask t) then (True, tb)
         else if has t HEAP_XMAX_IS_MULTI
         then let xmax = HeapTupleGetUpdateXid env t
              in if \<not> current env xmax then (True, tb) else (False, tb)
         else if \<not> current env (HeapTupleHeaderGetRawXmax t)
         then (True, SetHintBits env tb HEAP_XMAX_INVALID InvalidTransactionId)
         else (False, tb))"

text \<open>From \<open>by here, the inserting transaction has committed\<close> on.\<close>

definition self_xmax :: "TqEnv \<Rightarrow> TupleBuf \<Rightarrow> bool \<times> TupleBuf" where
  "self_xmax env tb =
     (let t = hdr tb
      in if has t HEAP_XMAX_INVALID then (True, tb)
         else if has t HEAP_XMAX_COMMITTED
         then if HEAP_XMAX_IS_LOCKED_ONLY (t_infomask t) then (True, tb) else (False, tb)
         else if has t HEAP_XMAX_IS_MULTI
         then if HEAP_XMAX_IS_LOCKED_ONLY (t_infomask t) then (True, tb)
              else
                let xmax = HeapTupleGetUpdateXid env t
                in if current env xmax then (False, tb)
                   else if in_progress env xmax then (True, tb)
                   else if did_commit env xmax then (False, tb)
                   else (True, tb)
         else if current env (HeapTupleHeaderGetRawXmax t)
         then if HEAP_XMAX_IS_LOCKED_ONLY (t_infomask t) then (True, tb) else (False, tb)
         else if in_progress env (HeapTupleHeaderGetRawXmax t) then (True, tb)
         else if \<not> did_commit env (HeapTupleHeaderGetRawXmax t)
         then (True, SetHintBits env tb HEAP_XMAX_INVALID InvalidTransactionId)
         else if HEAP_XMAX_IS_LOCKED_ONLY (t_infomask t)
         then (True, SetHintBits env tb HEAP_XMAX_INVALID InvalidTransactionId)
         else (False, SetHintBits env tb HEAP_XMAX_COMMITTED (HeapTupleHeaderGetRawXmax t)))"

definition HeapTupleSatisfiesSelf :: "TqEnv \<Rightarrow> TupleBuf \<Rightarrow> bool \<times> TupleBuf" where
  "HeapTupleSatisfiesSelf env tb =
     (let t = hdr tb; xmin = HeapTupleHeaderGetRawXmin t
      in if \<not> HeapTupleHeaderXminCommitted t
         then if HeapTupleHeaderXminInvalid t then (False, tb)
              else case moved_check env tb of
                     Some (goes_on, tb1) \<Rightarrow> if goes_on then self_xmax env tb1 else (False, tb1)
                   | None \<Rightarrow>
                       if current env xmin then self_own env tb
                       else if in_progress env xmin then (False, tb)
                       else if did_commit env xmin then self_xmax env (SetHintBits env tb HEAP_XMIN_COMMITTED xmin)
                       else (False, SetHintBits env tb HEAP_XMIN_INVALID InvalidTransactionId)
         else self_xmax env tb)"

section \<open>HeapTupleSatisfiesAny and HeapTupleSatisfiesToast\<close>

definition HeapTupleSatisfiesAny :: "TqEnv \<Rightarrow> TupleBuf \<Rightarrow> bool \<times> TupleBuf" where
  "HeapTupleSatisfiesAny env tb = (True, tb)"

definition HeapTupleSatisfiesToast :: "TqEnv \<Rightarrow> TupleBuf \<Rightarrow> bool \<times> TupleBuf" where
  "HeapTupleSatisfiesToast env tb =
     (if \<not> HeapTupleHeaderXminCommitted (hdr tb)
      then if HeapTupleHeaderXminInvalid (hdr tb) then (False, tb)
           else case moved_check env tb of Some (goes_on, tb1) \<Rightarrow> (goes_on, tb1) | None \<Rightarrow> (True, tb)
      else (True, tb))"

section \<open>HeapTupleSatisfiesUpdate\<close>

datatype HTSU_Result =
  HeapTupleMayBeUpdated
| HeapTupleInvisible
| HeapTupleSelfUpdated
| HeapTupleUpdated
| HeapTupleBeingUpdated

text \<open>\<open>if (HeapTupleHeaderGetCmax(tuple) >= curcid) return a; else return b;\<close>\<close>

definition by_cmax :: "TqEnv \<Rightarrow> TupleBuf \<Rightarrow> CommandId \<Rightarrow> 'r \<Rightarrow> 'r \<Rightarrow> TqError + 'r \<times> TupleBuf" where
  "by_cmax env tb curcid a b =
     bindE (HeapTupleHeaderGetCmax env (hdr tb)) (\<lambda>cmax. Inr (if cmax \<ge> curcid then a else b, tb))"

definition update_own :: "TqEnv \<Rightarrow> CommandId \<Rightarrow> TupleBuf \<Rightarrow> TqError + HTSU_Result \<times> TupleBuf" where
  "update_own env curcid tb =
     bindE (HeapTupleHeaderGetCmin env (hdr tb)) (\<lambda>cmin.
       let t = hdr tb
       in if cmin \<ge> curcid then Inr (HeapTupleInvisible, tb)
          else if has t HEAP_XMAX_INVALID then Inr (HeapTupleMayBeUpdated, tb)
          else if HEAP_XMAX_IS_LOCKED_ONLY (t_infomask t)
          then let xmax = HeapTupleHeaderGetRawXmax t
               in if has t HEAP_XMAX_IS_MULTI
                  then if HEAP_LOCKED_UPGRADED (t_infomask t) then Inr (HeapTupleMayBeUpdated, tb)
                       else if MultiXactHasRunningRemoteMembers env xmax then Inr (HeapTupleBeingUpdated, tb)
                       else Inr (HeapTupleMayBeUpdated, tb)
                  else if \<not> in_progress env xmax then Inr (HeapTupleMayBeUpdated, tb)
                  else if \<not> current env xmax then Inr (HeapTupleBeingUpdated, tb)
                  else Inr (HeapTupleMayBeUpdated, tb)
          else if has t HEAP_XMAX_IS_MULTI
          then let xmax = HeapTupleGetUpdateXid env t
               in if \<not> current env xmax
                  then if MultiXactHasRunningRemoteMembers env (HeapTupleHeaderGetRawXmax t)
                       then Inr (HeapTupleBeingUpdated, tb) else Inr (HeapTupleMayBeUpdated, tb)
                  else by_cmax env tb curcid HeapTupleSelfUpdated HeapTupleInvisible
          else if \<not> current env (HeapTupleHeaderGetRawXmax t)
          then Inr (HeapTupleMayBeUpdated, SetHintBits env tb HEAP_XMAX_INVALID InvalidTransactionId)
          else by_cmax env tb curcid HeapTupleSelfUpdated HeapTupleInvisible)"

definition update_xmax :: "TqEnv \<Rightarrow> CommandId \<Rightarrow> TupleBuf \<Rightarrow> TqError + HTSU_Result \<times> TupleBuf" where
  "update_xmax env curcid tb =
     (let t = hdr tb; rawxmax = HeapTupleHeaderGetRawXmax t
      in if has t HEAP_XMAX_INVALID then Inr (HeapTupleMayBeUpdated, tb)
         else if has t HEAP_XMAX_COMMITTED
         then if HEAP_XMAX_IS_LOCKED_ONLY (t_infomask t) then Inr (HeapTupleMayBeUpdated, tb)
              else Inr (HeapTupleUpdated, tb)
         else if has t HEAP_XMAX_IS_MULTI
         then if HEAP_LOCKED_UPGRADED (t_infomask t) then Inr (HeapTupleMayBeUpdated, tb)
              else if HEAP_XMAX_IS_LOCKED_ONLY (t_infomask t)
              then if MultiXactIdIsRunning env rawxmax then Inr (HeapTupleBeingUpdated, tb)
                   else Inr (HeapTupleMayBeUpdated, SetHintBits env tb HEAP_XMAX_INVALID InvalidTransactionId)
              else
                let xmax = HeapTupleGetUpdateXid env t
                in if current env xmax then by_cmax env tb curcid HeapTupleSelfUpdated HeapTupleInvisible
                   else if in_progress env xmax then Inr (HeapTupleBeingUpdated, tb)
                   else if did_commit env xmax then Inr (HeapTupleUpdated, tb)
                   else if \<not> MultiXactIdIsRunning env rawxmax
                   then Inr (HeapTupleMayBeUpdated, SetHintBits env tb HEAP_XMAX_INVALID InvalidTransactionId)
                   else Inr (HeapTupleBeingUpdated, tb)
         else if current env rawxmax
         then if HEAP_XMAX_IS_LOCKED_ONLY (t_infomask t) then Inr (HeapTupleMayBeUpdated, tb)
              else by_cmax env tb curcid HeapTupleSelfUpdated HeapTupleInvisible
         else if in_progress env rawxmax then Inr (HeapTupleBeingUpdated, tb)
         else if \<not> did_commit env rawxmax
         then Inr (HeapTupleMayBeUpdated, SetHintBits env tb HEAP_XMAX_INVALID InvalidTransactionId)
         else if HEAP_XMAX_IS_LOCKED_ONLY (t_infomask t)
         then Inr (HeapTupleMayBeUpdated, SetHintBits env tb HEAP_XMAX_INVALID InvalidTransactionId)
         else Inr (HeapTupleUpdated, SetHintBits env tb HEAP_XMAX_COMMITTED rawxmax))"

definition HeapTupleSatisfiesUpdate ::
  "TqEnv \<Rightarrow> CommandId \<Rightarrow> TupleBuf \<Rightarrow> TqError + HTSU_Result \<times> TupleBuf" where
  "HeapTupleSatisfiesUpdate env curcid tb =
     (let t = hdr tb; xmin = HeapTupleHeaderGetRawXmin t
      in if \<not> HeapTupleHeaderXminCommitted t
         then if HeapTupleHeaderXminInvalid t then Inr (HeapTupleInvisible, tb)
              else case moved_check env tb of
                     Some (goes_on, tb1) \<Rightarrow>
                       if goes_on then update_xmax env curcid tb1 else Inr (HeapTupleInvisible, tb1)
                   | None \<Rightarrow>
                       if current env xmin then update_own env curcid tb
                       else if in_progress env xmin then Inr (HeapTupleInvisible, tb)
                       else if did_commit env xmin
                       then update_xmax env curcid (SetHintBits env tb HEAP_XMIN_COMMITTED xmin)
                       else Inr (HeapTupleInvisible, SetHintBits env tb HEAP_XMIN_INVALID InvalidTransactionId)
         else update_xmax env curcid tb)"

section \<open>Snapshots\<close>

text \<open>
  The arrays are lists of their used length.  \<open>satisfies\<close>, \<open>copied\<close> and the reference counts
  play no role in the tests.
\<close>

record SnapshotData =
  snap_xmin :: TransactionId
  snap_xmax :: TransactionId
  xip :: "TransactionId list"
  subxip :: "TransactionId list"
  suboverflowed :: bool
  takenDuringRecovery :: bool
  haveDistribSnapshot :: bool
  snap_curcid :: CommandId
  distribSnapshotWithLocalMapping :: DistributedSnapshotWithLocalMapping

section \<open>HeapTupleSatisfiesDirty\<close>

text \<open>From \<open>by here, the inserting transaction has committed\<close> on.\<close>

definition dirty_xmax :: "TqEnv \<Rightarrow> TupleBuf \<Rightarrow> SnapshotData \<Rightarrow> bool \<times> TupleBuf \<times> SnapshotData" where
  "dirty_xmax env tb snapshot =
     (let t = hdr tb; rawxmax = HeapTupleHeaderGetRawXmax t
      in if has t HEAP_XMAX_INVALID then (True, tb, snapshot)
         else if has t HEAP_XMAX_COMMITTED
         then if HEAP_XMAX_IS_LOCKED_ONLY (t_infomask t) then (True, tb, snapshot) else (False, tb, snapshot)
         else if has t HEAP_XMAX_IS_MULTI
         then if HEAP_XMAX_IS_LOCKED_ONLY (t_infomask t) then (True, tb, snapshot)
              else
                let xmax = HeapTupleGetUpdateXid env t
                in if current env xmax then (False, tb, snapshot)
                   else if in_progress env xmax then (True, tb, snapshot\<lparr>snap_xmax := xmax\<rparr>)
                   else if did_commit env xmax then (False, tb, snapshot)
                   else (True, tb, snapshot)
         else if current env rawxmax
         then if HEAP_XMAX_IS_LOCKED_ONLY (t_infomask t) then (True, tb, snapshot) else (False, tb, snapshot)
         else if in_progress env rawxmax
         then if \<not> HEAP_XMAX_IS_LOCKED_ONLY (t_infomask t) then (True, tb, snapshot\<lparr>snap_xmax := rawxmax\<rparr>)
              else (True, tb, snapshot)
         else if \<not> did_commit env rawxmax
         then (True, SetHintBits env tb HEAP_XMAX_INVALID InvalidTransactionId, snapshot)
         else if HEAP_XMAX_IS_LOCKED_ONLY (t_infomask t)
         then (True, SetHintBits env tb HEAP_XMAX_INVALID InvalidTransactionId, snapshot)
         else (False, SetHintBits env tb HEAP_XMAX_COMMITTED rawxmax, snapshot))"

text \<open>The branch of a tuple inserted by the current transaction is that of \<open>HeapTupleSatisfiesSelf\<close>.\<close>

definition HeapTupleSatisfiesDirty ::
  "TqEnv \<Rightarrow> TupleBuf \<Rightarrow> SnapshotData \<Rightarrow> bool \<times> TupleBuf \<times> SnapshotData" where
  "HeapTupleSatisfiesDirty env tb snapshot0 =
     (let t = hdr tb; xmin = HeapTupleHeaderGetRawXmin t;
          snapshot = snapshot0\<lparr>snap_xmin := InvalidTransactionId, snap_xmax := InvalidTransactionId\<rparr>
      in if \<not> HeapTupleHeaderXminCommitted t
         then if HeapTupleHeaderXminInvalid t then (False, tb, snapshot)
              else case moved_check env tb of
                     Some (goes_on, tb1) \<Rightarrow> if goes_on then dirty_xmax env tb1 snapshot else (False, tb1, snapshot)
                   | None \<Rightarrow>
                       if current env xmin then (case self_own env tb of (r, tb1) \<Rightarrow> (r, tb1, snapshot))
                       else if in_progress env xmin then (True, tb, snapshot\<lparr>snap_xmin := xmin\<rparr>)
                       else if did_commit env xmin
                       then dirty_xmax env (SetHintBits env tb HEAP_XMIN_COMMITTED xmin) snapshot
                       else (False, SetHintBits env tb HEAP_XMIN_INVALID InvalidTransactionId, snapshot)
         else dirty_xmax env tb snapshot)"

section \<open>MVCC snapshots\<close>

fun in_xid_array :: "TransactionId \<Rightarrow> TransactionId list \<Rightarrow> bool" where
  "in_xid_array xid [] = False"
| "in_xid_array xid (x # xs) = (if xid = x then True else in_xid_array xid xs)"

definition XidInMVCCSnapshot_Local :: "SubTrans \<Rightarrow> TransactionId \<Rightarrow> SnapshotData \<Rightarrow> bool" where
  "XidInMVCCSnapshot_Local st xid snapshot =
     (if TransactionIdPrecedes xid (snap_xmin snapshot) then False
      else if TransactionIdFollowsOrEquals xid (snap_xmax snapshot) then True
      else if \<not> takenDuringRecovery snapshot
      then if \<not> suboverflowed snapshot
           then if in_xid_array xid (subxip snapshot) then True else in_xid_array xid (xip snapshot)
           else
             let xid1 = SubTransGetTopmostTransaction st xid
             in if TransactionIdPrecedes xid1 (snap_xmin snapshot) then False
                else in_xid_array xid1 (xip snapshot)
      else if suboverflowed snapshot
      then let xid1 = SubTransGetTopmostTransaction st xid
           in if TransactionIdPrecedes xid1 (snap_xmin snapshot) then False
              else in_xid_array xid1 (subxip snapshot)
      else in_xid_array xid (subxip snapshot))"

text \<open>The answer, \<open>*setDistributedSnapshotIgnore\<close>, and the snapshot and pair cache after the test.\<close>

definition XidInMVCCSnapshot ::
  "TqEnv \<Rightarrow> LocalDistribXactCache \<Rightarrow> TransactionId \<Rightarrow> SnapshotData \<Rightarrow> bool \<Rightarrow>
     TqError + bool \<times> bool \<times> SnapshotData \<times> LocalDistribXactCache" where
  "XidInMVCCSnapshot env ca xid snapshot distributedSnapshotIgnore =
     (let st = subtrans (xlog (sys env))
      in if haveDistribSnapshot snapshot \<and> \<not> distributedSnapshotIgnore \<and> \<not> IS_QUERY_DISPATCHER (gp env)
         then case DistributedSnapshotWithLocalMapping_CommittedTest (distributed_log env) ca
                (distribSnapshotWithLocalMapping snapshot) xid False of
                Inl e \<Rightarrow> Inl (DistribErr e)
              | Inr (r, dslm, ca1) \<Rightarrow>
                  let snapshot1 = snapshot\<lparr>distribSnapshotWithLocalMapping := dslm\<rparr>
                  in (case r of
                        DISTRIBUTEDSNAPSHOT_COMMITTED_INPROGRESS \<Rightarrow> Inr (True, False, snapshot1, ca1)
                      | DISTRIBUTEDSNAPSHOT_COMMITTED_VISIBLE \<Rightarrow> Inr (False, False, snapshot1, ca1)
                      | DISTRIBUTEDSNAPSHOT_COMMITTED_IGNORE \<Rightarrow>
                          Inr (XidInMVCCSnapshot_Local st xid snapshot1, True, snapshot1, ca1)
                      | _ \<Rightarrow> Inl UnrecognizedCommittedTest)
         else Inr (XidInMVCCSnapshot_Local st xid snapshot, False, snapshot, ca))"

section \<open>HeapTupleSatisfiesMVCC\<close>

type_synonym mvcc_result = "TqError + bool \<times> TupleBuf \<times> SnapshotData \<times> LocalDistribXactCache"

text \<open>\<open>tuple->t_infomask2 |= mask; markDirty(...)\<close>\<close>

definition set_ignore :: "TqEnv \<Rightarrow> TupleBuf \<Rightarrow> uint16 \<Rightarrow> bool \<Rightarrow> TupleBuf" where
  "set_ignore env tb m isXmin =
     markDirty env (tb\<lparr>hdr := (hdr tb)\<lparr>t_infomask2 := t_infomask2 (hdr tb) OR m\<rparr>\<rparr>) isXmin"

text \<open>
  The test of xmin or xmax against the snapshot with what follows it in the code: the ignore bit
  is read from the tuple and set in it when the test says so.
\<close>

definition snapshot_check ::
  "TqEnv \<Rightarrow> bool \<Rightarrow> TransactionId \<Rightarrow> TupleBuf \<Rightarrow> SnapshotData \<Rightarrow> LocalDistribXactCache \<Rightarrow> mvcc_result" where
  "snapshot_check env isXmin xid tb snapshot ca =
     (let m = (if isXmin then HEAP_XMIN_DISTRIBUTED_SNAPSHOT_IGNORE else HEAP_XMAX_DISTRIBUTED_SNAPSHOT_IGNORE)
      in bindE (XidInMVCCSnapshot env ca xid snapshot (t_infomask2 (hdr tb) AND m \<noteq> 0))
           (\<lambda>(inSnapshot, setDistributedSnapshotIgnore, snapshot1, ca1).
              Inr (inSnapshot,
                   if setDistributedSnapshotIgnore then set_ignore env tb m isXmin else tb,
                   snapshot1, ca1)))"

definition mvcc_own :: "TqEnv \<Rightarrow> TupleBuf \<Rightarrow> SnapshotData \<Rightarrow> TqError + bool \<times> TupleBuf" where
  "mvcc_own env tb snapshot =
     bindE (HeapTupleHeaderGetCmin env (hdr tb)) (\<lambda>cmin.
       let t = hdr tb
       in if cmin \<ge> snap_curcid snapshot then Inr (False, tb)
          else if has t HEAP_XMAX_INVALID then Inr (True, tb)
          else if HEAP_XMAX_IS_LOCKED_ONLY (t_infomask t) then Inr (True, tb)
          else if has t HEAP_XMAX_IS_MULTI
          then let xmax = HeapTupleGetUpdateXid env t
               in if \<not> current env xmax then Inr (True, tb)
                  else by_cmax env tb (snap_curcid snapshot) True False
          else if \<not> current env (HeapTupleHeaderGetRawXmax t)
          then Inr (True, SetHintBits env tb HEAP_XMAX_INVALID InvalidTransactionId)
          else by_cmax env tb (snap_curcid snapshot) True False)"

definition with_snapshot :: "SnapshotData \<Rightarrow> LocalDistribXactCache \<Rightarrow> TqError + bool \<times> TupleBuf \<Rightarrow> mvcc_result" where
  "with_snapshot snapshot ca r = bindE r (\<lambda>(b, tb). Inr (b, tb, snapshot, ca))"

text \<open>From the look at xmax on.\<close>

definition mvcc_xmax :: "TqEnv \<Rightarrow> TupleBuf \<Rightarrow> SnapshotData \<Rightarrow> LocalDistribXactCache \<Rightarrow> mvcc_result" where
  "mvcc_xmax env tb snapshot ca =
     (let t = hdr tb; rawxmax = HeapTupleHeaderGetRawXmax t
      in if has t HEAP_XMAX_INVALID then Inr (True, tb, snapshot, ca)
         else if HEAP_XMAX_IS_LOCKED_ONLY (t_infomask t) then Inr (True, tb, snapshot, ca)
         else if has t HEAP_XMAX_IS_MULTI
         then let xmax = HeapTupleGetUpdateXid env t
              in if current env xmax
                 then with_snapshot snapshot ca (by_cmax env tb (snap_curcid snapshot) True False)
                 else if in_progress env xmax then Inr (True, tb, snapshot, ca)
                 else if did_commit env xmax then snapshot_check env False xmax tb snapshot ca
                 else Inr (True, tb, snapshot, ca)
         else if \<not> has t HEAP_XMAX_COMMITTED
         then if current env rawxmax
              then with_snapshot snapshot ca (by_cmax env tb (snap_curcid snapshot) True False)
              else if in_progress env rawxmax then Inr (True, tb, snapshot, ca)
              else if \<not> did_commit env rawxmax
              then Inr (True, SetHintBits env tb HEAP_XMAX_INVALID InvalidTransactionId, snapshot, ca)
              else snapshot_check env False rawxmax (SetHintBits env tb HEAP_XMAX_COMMITTED rawxmax) snapshot ca
         else snapshot_check env False rawxmax tb snapshot ca)"

text \<open>From \<open>the inserting transaction has committed - have to check when\<close> on.\<close>

definition mvcc_committed :: "TqEnv \<Rightarrow> TupleBuf \<Rightarrow> SnapshotData \<Rightarrow> LocalDistribXactCache \<Rightarrow> mvcc_result" where
  "mvcc_committed env tb snapshot ca =
     (if \<not> HeapTupleHeaderXminFrozen (hdr tb)
      then bindE (snapshot_check env True (HeapTupleHeaderGetRawXmin (hdr tb)) tb snapshot ca)
             (\<lambda>(inSnapshot, tb1, snapshot1, ca1).
                if inSnapshot then Inr (False, tb1, snapshot1, ca1) else mvcc_xmax env tb1 snapshot1 ca1)
      else mvcc_xmax env tb snapshot ca)"

definition HeapTupleSatisfiesMVCC ::
  "TqEnv \<Rightarrow> TupleBuf \<Rightarrow> SnapshotData \<Rightarrow> LocalDistribXactCache \<Rightarrow> mvcc_result" where
  "HeapTupleSatisfiesMVCC env tb snapshot ca =
     (let t = hdr tb; xmin = HeapTupleHeaderGetRawXmin t
      in if \<not> HeapTupleHeaderXminCommitted t
         then if HeapTupleHeaderXminInvalid t then Inr (False, tb, snapshot, ca)
              else case moved_check env tb of
                     Some (goes_on, tb1) \<Rightarrow>
                       if goes_on then mvcc_committed env tb1 snapshot ca else Inr (False, tb1, snapshot, ca)
                   | None \<Rightarrow>
                       if current env xmin then with_snapshot snapshot ca (mvcc_own env tb snapshot)
                       else if in_progress env xmin then Inr (False, tb, snapshot, ca)
                       else if did_commit env xmin
                       then mvcc_committed env (SetHintBits env tb HEAP_XMIN_COMMITTED xmin) snapshot ca
                       else Inr (False, SetHintBits env tb HEAP_XMIN_INVALID InvalidTransactionId, snapshot, ca)
         else mvcc_committed env tb snapshot ca)"

section \<open>HeapTupleSatisfiesVacuum\<close>

datatype HTSV_Result =
  HEAPTUPLE_DEAD
| HEAPTUPLE_LIVE
| HEAPTUPLE_RECENTLY_DEAD
| HEAPTUPLE_INSERT_IN_PROGRESS
| HEAPTUPLE_DELETE_IN_PROGRESS

definition HeapTupleHeaderIsOnlyLocked :: "TqEnv \<Rightarrow> HeapTupleHeader \<Rightarrow> bool" where
  "HeapTupleHeaderIsOnlyLocked env t =
     (if has t HEAP_XMAX_INVALID then True
      else if has t HEAP_XMAX_LOCK_ONLY then True
      else if \<not> TransactionIdIsValid (HeapTupleHeaderGetRawXmax t) then True
      else if \<not> has t HEAP_XMAX_IS_MULTI then False
      else
        let xmax = HeapTupleGetUpdateXid env t
        in if current env xmax then False
           else if in_progress env xmax then False
           else if did_commit env xmax then False
           else True)"

text \<open>The block of moved tuples; \<open>Inr\<close> goes on, \<open>Inl\<close> returns.\<close>

definition vacuum_moved :: "TqEnv \<Rightarrow> TupleBuf \<Rightarrow> (HTSV_Result \<times> TupleBuf + TupleBuf) option" where
  "vacuum_moved env tb =
     (let xvac = HeapTupleHeaderGetXvac (hdr tb)
      in if has (hdr tb) HEAP_MOVED_OFF
         then if current env xvac then Some (Inl (HEAPTUPLE_DELETE_IN_PROGRESS, tb))
              else if in_progress env xvac then Some (Inl (HEAPTUPLE_DELETE_IN_PROGRESS, tb))
              else if did_commit env xvac
              then Some (Inl (HEAPTUPLE_DEAD, SetHintBits env tb HEAP_XMIN_INVALID InvalidTransactionId))
              else Some (Inr (SetHintBits env tb HEAP_XMIN_COMMITTED InvalidTransactionId))
         else if has (hdr tb) HEAP_MOVED_IN
         then if current env xvac then Some (Inl (HEAPTUPLE_INSERT_IN_PROGRESS, tb))
              else if in_progress env xvac then Some (Inl (HEAPTUPLE_INSERT_IN_PROGRESS, tb))
              else if did_commit env xvac
              then Some (Inr (SetHintBits env tb HEAP_XMIN_COMMITTED InvalidTransactionId))
              else Some (Inl (HEAPTUPLE_DEAD, SetHintBits env tb HEAP_XMIN_INVALID InvalidTransactionId))
         else None)"

definition vacuum_own :: "TqEnv \<Rightarrow> HeapTupleHeader \<Rightarrow> HTSV_Result" where
  "vacuum_own env t =
     (if has t HEAP_XMAX_INVALID then HEAPTUPLE_INSERT_IN_PROGRESS
      else if HEAP_XMAX_IS_LOCKED_ONLY (t_infomask t) \<or> HeapTupleHeaderIsOnlyLocked env t
      then HEAPTUPLE_INSERT_IN_PROGRESS
      else if current env (HeapTupleHeaderGetUpdateXid env t) then HEAPTUPLE_DELETE_IN_PROGRESS
      else HEAPTUPLE_INSERT_IN_PROGRESS)"

text \<open>From \<open>the inserter committed, so it was good at some point\<close> on.\<close>

definition vacuum_locked :: "TqEnv \<Rightarrow> TupleBuf \<Rightarrow> HTSV_Result \<times> TupleBuf" where
  "vacuum_locked env tb =
     (let t = hdr tb; rawxmax = HeapTupleHeaderGetRawXmax t
      in if \<not> has t HEAP_XMAX_COMMITTED
         then if has t HEAP_XMAX_IS_MULTI
              then if \<not> HEAP_LOCKED_UPGRADED (t_infomask t) \<and> MultiXactIdIsRunning env rawxmax
                   then (HEAPTUPLE_LIVE, tb)
                   else (HEAPTUPLE_LIVE, SetHintBits env tb HEAP_XMAX_INVALID InvalidTransactionId)
              else if in_progress env rawxmax then (HEAPTUPLE_LIVE, tb)
              else (HEAPTUPLE_LIVE, SetHintBits env tb HEAP_XMAX_INVALID InvalidTransactionId)
         else (HEAPTUPLE_LIVE, tb))"

definition vacuum_xmax :: "TqEnv \<Rightarrow> TransactionId \<Rightarrow> TupleBuf \<Rightarrow> HTSV_Result \<times> TupleBuf" where
  "vacuum_xmax env OldestXmin tb =
     (let t = hdr tb; rawxmax = HeapTupleHeaderGetRawXmax t
      in if has t HEAP_XMAX_INVALID then (HEAPTUPLE_LIVE, tb)
         else if HEAP_XMAX_IS_LOCKED_ONLY (t_infomask t) then vacuum_locked env tb
         else if has t HEAP_XMAX_IS_MULTI
         then let xmax = HeapTupleGetUpdateXid env t
              in if in_progress env xmax then (HEAPTUPLE_DELETE_IN_PROGRESS, tb)
                 else if did_commit env xmax
                 then if \<not> TransactionIdPrecedes xmax OldestXmin then (HEAPTUPLE_RECENTLY_DEAD, tb)
                      else (HEAPTUPLE_DEAD, tb)
                 else
                   let tb1 = (if \<not> MultiXactIdIsRunning env rawxmax
                              then SetHintBits env tb HEAP_XMAX_INVALID InvalidTransactionId else tb)
                   in (HEAPTUPLE_LIVE, SetHintBits env tb1 HEAP_XMAX_INVALID InvalidTransactionId)
         else if \<not> has t HEAP_XMAX_COMMITTED
         then if in_progress env rawxmax then (HEAPTUPLE_DELETE_IN_PROGRESS, tb)
              else if did_commit env rawxmax
              then let tb1 = SetHintBits env tb HEAP_XMAX_COMMITTED rawxmax
                   in if \<not> TransactionIdPrecedes rawxmax OldestXmin then (HEAPTUPLE_RECENTLY_DEAD, tb1)
                      else (HEAPTUPLE_DEAD, tb1)
              else (HEAPTUPLE_LIVE, SetHintBits env tb HEAP_XMAX_INVALID InvalidTransactionId)
         else if \<not> TransactionIdPrecedes rawxmax OldestXmin then (HEAPTUPLE_RECENTLY_DEAD, tb)
         else (HEAPTUPLE_DEAD, tb))"

definition HeapTupleSatisfiesVacuum :: "TqEnv \<Rightarrow> TransactionId \<Rightarrow> TupleBuf \<Rightarrow> HTSV_Result \<times> TupleBuf" where
  "HeapTupleSatisfiesVacuum env OldestXmin tb =
     (let t = hdr tb; xmin = HeapTupleHeaderGetRawXmin t
      in if \<not> HeapTupleHeaderXminCommitted t
         then if HeapTupleHeaderXminInvalid t then (HEAPTUPLE_DEAD, tb)
              else case vacuum_moved env tb of
                     Some (Inl r) \<Rightarrow> r
                   | Some (Inr tb1) \<Rightarrow> vacuum_xmax env OldestXmin tb1
                   | None \<Rightarrow>
                       if current env xmin then (vacuum_own env t, tb)
                       else if in_progress env xmin then (HEAPTUPLE_INSERT_IN_PROGRESS, tb)
                       else if did_commit env xmin
                       then vacuum_xmax env OldestXmin (SetHintBits env tb HEAP_XMIN_COMMITTED xmin)
                       else (HEAPTUPLE_DEAD, SetHintBits env tb HEAP_XMIN_INVALID InvalidTransactionId)
         else vacuum_xmax env OldestXmin tb)"

definition HeapTupleIsSurelyDead :: "TransactionId \<Rightarrow> HeapTupleHeader \<Rightarrow> bool" where
  "HeapTupleIsSurelyDead OldestXmin t =
     (if \<not> HeapTupleHeaderXminCommitted t then if HeapTupleHeaderXminInvalid t then True else False
      else if has t HEAP_XMAX_INVALID then False
      else if HEAP_XMAX_IS_LOCKED_ONLY (t_infomask t) then False
      else if has t HEAP_XMAX_IS_MULTI then False
      else if \<not> has t HEAP_XMAX_COMMITTED then False
      else TransactionIdPrecedes (HeapTupleHeaderGetRawXmax t) OldestXmin)"

section \<open>HeapTupleSatisfiesHistoricMVCC\<close>

text \<open>\<open>bsearch\<close> of the C library over positions \<open>lo\<close> up to \<open>hi\<close>, with \<open>xidComparator\<close>.\<close>

function bsearch_xid :: "TransactionId \<Rightarrow> TransactionId list \<Rightarrow> nat \<Rightarrow> nat \<Rightarrow> nat option" where
  "bsearch_xid xid xs lo hi =
     (if lo < hi
      then let mid = (lo + hi) div 2
           in if xid < xs ! mid then bsearch_xid xid xs lo mid
              else if xid > xs ! mid then bsearch_xid xid xs (Suc mid) hi
              else Some mid
      else None)"
  by auto
termination
  by (relation "measure (\<lambda>(xid, xs, lo, hi). hi - lo)") auto

declare bsearch_xid.simps [simp del]

definition TransactionIdInArray :: "TransactionId \<Rightarrow> TransactionId list \<Rightarrow> bool" where
  "TransactionIdInArray xid xs \<longleftrightarrow> bsearch_xid xid xs 0 (length xs) \<noteq> None"

text \<open>
  \<open>tuple_cids\<close> stands for \<open>ResolveCminCmaxDuringDecoding\<close> on the tuple: its command ids, or
  \<open>None\<close> when they are not known.
\<close>

definition historic_xmax ::
  "TqEnv \<Rightarrow> (CommandId \<times> CommandId) option \<Rightarrow> HeapTupleHeader \<Rightarrow> SnapshotData \<Rightarrow> TqError + bool" where
  "historic_xmax env tuple_cids t snapshot =
     (if has t HEAP_XMAX_INVALID then Inr True
      else if HEAP_XMAX_IS_LOCKED_ONLY (t_infomask t) then Inr True
      else
        let xmax = (if has t HEAP_XMAX_IS_MULTI then HeapTupleGetUpdateXid env t else HeapTupleHeaderGetRawXmax t)
        in if TransactionIdInArray xmax (subxip snapshot)
           then case tuple_cids of
                  None \<Rightarrow> Inl UnresolvedTupleCids
                | Some (cmin, cmax) \<Rightarrow> Inr (if cmax \<ge> snap_curcid snapshot then True else False)
           else if TransactionIdPrecedes xmax (snap_xmin snapshot)
           then if has t HEAP_XMAX_COMMITTED then Inr False else Inr (\<not> did_commit env xmax)
           else if TransactionIdFollowsOrEquals xmax (snap_xmax snapshot) then Inr True
           else if TransactionIdInArray xmax (xip snapshot) then Inr False
           else Inr True)"

definition HeapTupleSatisfiesHistoricMVCC ::
  "TqEnv \<Rightarrow> (CommandId \<times> CommandId) option \<Rightarrow> HeapTupleHeader \<Rightarrow> SnapshotData \<Rightarrow> TqError + bool" where
  "HeapTupleSatisfiesHistoricMVCC env tuple_cids t snapshot =
     (let xmin = HeapTupleHeaderGetXmin t
      in if HeapTupleHeaderXminInvalid t then Inr False
         else if TransactionIdInArray xmin (subxip snapshot)
         then case tuple_cids of
                None \<Rightarrow> Inl UnresolvedTupleCids
              | Some (cmin, cmax) \<Rightarrow>
                  if cmin \<ge> snap_curcid snapshot then Inr False else historic_xmax env tuple_cids t snapshot
         else if TransactionIdPrecedes xmin (snap_xmin snapshot)
         then if \<not> HeapTupleHeaderXminCommitted t \<and> \<not> did_commit env xmin then Inr False
              else historic_xmax env tuple_cids t snapshot
         else if TransactionIdFollowsOrEquals xmin (snap_xmax snapshot) then Inr False
         else if TransactionIdInArray xmin (xip snapshot) then historic_xmax env tuple_cids t snapshot
         else Inr False)"

end
