(* ===== verification/Tqual_Spec.thy ===== *)
theory Tqual_Spec
  imports Tqual
begin

text \<open>
  The specification of the visibility rules: what the fate of a tuple's inserter, deleter and
  lockers says about it, without any hint bit, and the invariant that makes hint bits safe.
\<close>

section \<open>Infomask bits\<close>

lemma OR_eq_0 [simp]: "x OR y = 0 \<longleftrightarrow> x = 0 \<and> y = (0 :: 'a::len word)"
  by (auto simp: bit_eq_iff bit_simps)

lemma has_OR [simp]: "has (t\<lparr>t_infomask := t_infomask t OR m\<rparr>) k \<longleftrightarrow> has t k \<or> m AND k \<noteq> 0"
  by (simp add: has_def bit.conj_disj_distrib2)

lemma OR_AND_disjoint: "m AND k = 0 \<Longrightarrow> (x OR m) AND k = x AND (k :: uint16)"
  by (simp add: bit.conj_disj_distrib2)

lemma hint_masks_disjoint [simp]:
  "HEAP_XMIN_COMMITTED AND HEAP_XMIN_INVALID = 0" "HEAP_XMIN_COMMITTED AND HEAP_XMAX_COMMITTED = 0"
  "HEAP_XMIN_COMMITTED AND HEAP_XMAX_INVALID = 0" "HEAP_XMIN_INVALID AND HEAP_XMIN_COMMITTED = 0"
  "HEAP_XMIN_INVALID AND HEAP_XMAX_COMMITTED = 0" "HEAP_XMIN_INVALID AND HEAP_XMAX_INVALID = 0"
  "HEAP_XMAX_COMMITTED AND HEAP_XMIN_COMMITTED = 0" "HEAP_XMAX_COMMITTED AND HEAP_XMIN_INVALID = 0"
  "HEAP_XMAX_COMMITTED AND HEAP_XMAX_INVALID = 0" "HEAP_XMAX_INVALID AND HEAP_XMIN_COMMITTED = 0"
  "HEAP_XMAX_INVALID AND HEAP_XMIN_INVALID = 0" "HEAP_XMAX_INVALID AND HEAP_XMAX_COMMITTED = 0"
  "HEAP_XMIN_COMMITTED \<noteq> 0" "HEAP_XMIN_INVALID \<noteq> 0" "HEAP_XMAX_COMMITTED \<noteq> 0" "HEAP_XMAX_INVALID \<noteq> 0"
  by (simp_all add: heap_mask_defs)

text \<open>The four hint masks leave every other bit alone.\<close>

definition hint_masks :: "uint16 set" where
  "hint_masks = {HEAP_XMIN_COMMITTED, HEAP_XMIN_INVALID, HEAP_XMAX_COMMITTED, HEAP_XMAX_INVALID}"

lemma hint_masks_keep [simp]:
  assumes "m \<in> hint_masks"
  shows "m AND HEAP_MOVED_OFF = 0" "m AND HEAP_MOVED_IN = 0" "m AND HEAP_MOVED = 0" "m AND HEAP_XMAX_IS_MULTI = 0"
    "m AND HEAP_COMBOCID = 0" "m AND HEAP_XMAX_LOCK_ONLY = 0"
    "m AND (HEAP_XMAX_EXCL_LOCK OR HEAP_XMAX_KEYSHR_LOCK) = 0"
    "m AND (HEAP_XMAX_IS_MULTI OR HEAP_LOCK_MASK) = 0"
  using assms by (auto simp: hint_masks_def heap_mask_defs)

lemma locked_only_OR [simp]:
  "m \<in> hint_masks \<Longrightarrow> HEAP_XMAX_IS_LOCKED_ONLY (x OR m) = HEAP_XMAX_IS_LOCKED_ONLY x"
  "m \<in> hint_masks \<Longrightarrow> HEAP_LOCKED_UPGRADED (x OR m) = HEAP_LOCKED_UPGRADED x"
  by (simp_all add: HEAP_XMAX_IS_LOCKED_ONLY_def HEAP_LOCKED_UPGRADED_def OR_AND_disjoint)

lemma AND_exp: "x AND 2 ^ n = (if bit x n then 2 ^ n else (0 :: 'a::len word))"
  by (rule bit_word_eqI) (auto simp: bit_simps)

lemma xmin_bits:
  "HeapTupleHeaderXminCommitted t \<longleftrightarrow> has t HEAP_XMIN_COMMITTED"
  "HeapTupleHeaderXminInvalid t \<longleftrightarrow> \<not> has t HEAP_XMIN_COMMITTED \<and> has t HEAP_XMIN_INVALID"
  "HeapTupleHeaderXminFrozen t \<longleftrightarrow> has t HEAP_XMIN_COMMITTED \<and> has t HEAP_XMIN_INVALID"
proof -
  let ?x = "t_infomask t"
  have split: "?x AND (HEAP_XMIN_COMMITTED OR HEAP_XMIN_INVALID) =
      (?x AND HEAP_XMIN_COMMITTED) OR (?x AND HEAP_XMIN_INVALID)"
    by (simp add: bit.conj_disj_distrib)
  have val: "?x AND k = (if has t k then k else 0)" if "k = 2 ^ n" "k \<noteq> 0" for k n
    using that by (simp add: has_def AND_exp)
  have "?x AND HEAP_XMIN_COMMITTED = (if has t HEAP_XMIN_COMMITTED then HEAP_XMIN_COMMITTED else 0)"
    "?x AND HEAP_XMIN_INVALID = (if has t HEAP_XMIN_INVALID then HEAP_XMIN_INVALID else 0)"
    using val [of HEAP_XMIN_COMMITTED 8] val [of HEAP_XMIN_INVALID 9]
    by (simp_all add: HEAP_XMIN_COMMITTED_def HEAP_XMIN_INVALID_def)
  with split have
    "?x AND (HEAP_XMIN_COMMITTED OR HEAP_XMIN_INVALID) =
      (if has t HEAP_XMIN_COMMITTED then HEAP_XMIN_COMMITTED else 0) OR (if has t HEAP_XMIN_INVALID then HEAP_XMIN_INVALID else 0)"
    by (simp only:)
  then show
    "HeapTupleHeaderXminCommitted t \<longleftrightarrow> has t HEAP_XMIN_COMMITTED"
    "HeapTupleHeaderXminInvalid t \<longleftrightarrow> \<not> has t HEAP_XMIN_COMMITTED \<and> has t HEAP_XMIN_INVALID"
    "HeapTupleHeaderXminFrozen t \<longleftrightarrow> has t HEAP_XMIN_COMMITTED \<and> has t HEAP_XMIN_INVALID"
    unfolding HeapTupleHeaderXminInvalid_def HeapTupleHeaderXminFrozen_def HEAP_XMIN_FROZEN_def
    by (simp_all only: HeapTupleHeaderXminCommitted_def has_def [symmetric])
      (auto simp: HEAP_XMIN_COMMITTED_def HEAP_XMIN_INVALID_def)
qed

section \<open>Inserter, deleter and lockers\<close>

abbreviation fate :: "TqEnv \<Rightarrow> TransactionId \<Rightarrow> fate" where
  "fate env \<equiv> xs.fate_of (sys env)"

text \<open>
  Where the insertion stands.  \<open>MovedOff\<close> and \<open>MovedIn\<close> are tuples that an old-style VACUUM FULL,
  still running, takes from here or brought here; the flag says that it is our own transaction.
\<close>

datatype insertion = Dead | Live | Mine_ins | Running_ins | MovedOff bool | MovedIn bool

definition of_fate :: "fate \<Rightarrow> insertion" where
  "of_fate f = (case f of Mine \<Rightarrow> Mine_ins | Running \<Rightarrow> Running_ins | Committed \<Rightarrow> Live | Aborted \<Rightarrow> Dead)"

definition inserter :: "TqEnv \<Rightarrow> HeapTupleHeader \<Rightarrow> insertion" where
  "inserter env t =
     (if HeapTupleHeaderXminFrozen t then Live
      else if has t HEAP_MOVED_OFF
      then (case fate env (HeapTupleHeaderGetXvac t) of
              Mine \<Rightarrow> MovedOff True | Running \<Rightarrow> MovedOff False | Committed \<Rightarrow> Dead | Aborted \<Rightarrow> Live)
      else if has t HEAP_MOVED_IN
      then (case fate env (HeapTupleHeaderGetXvac t) of
              Mine \<Rightarrow> MovedIn True | Running \<Rightarrow> MovedIn False | Committed \<Rightarrow> Live | Aborted \<Rightarrow> Dead)
      else of_fate (fate env (t_xmin t)))"

text \<open>Whether somebody who asks now has to consider the insertion done.\<close>

definition inserted :: "insertion \<Rightarrow> bool" where
  "inserted i \<longleftrightarrow> i \<in> {Live, MovedOff False, MovedIn True}"

definition deleter :: "TqEnv \<Rightarrow> HeapTupleHeader \<Rightarrow> TransactionId" where
  "deleter env t = (if has t HEAP_XMAX_IS_MULTI then HeapTupleGetUpdateXid env t else t_xmax t)"

text \<open>The fate of the deletion; \<open>None\<close> when there is none, or when it was rolled back.\<close>

definition deletion :: "TqEnv \<Rightarrow> HeapTupleHeader \<Rightarrow> fate option" where
  "deletion env t =
     (if has t HEAP_XMAX_INVALID \<or> HEAP_XMAX_IS_LOCKED_ONLY (t_infomask t) \<or> fate env (deleter env t) = Aborted
      then None else Some (fate env (deleter env t)))"

definition lock_xids :: "TqEnv \<Rightarrow> HeapTupleHeader \<Rightarrow> TransactionId set" where
  "lock_xids env t =
     (if has t HEAP_XMAX_INVALID then {}
      else if has t HEAP_XMAX_IS_MULTI
      then if HEAP_LOCKED_UPGRADED (t_infomask t) then {} else mx_xid ` set (GetMultiXactIdMembers env (t_xmax t))
      else {t_xmax t})"

text \<open>
  Locked by another transaction; or by a multixact our own transaction is a member of, which
  \<open>HeapTupleSatisfiesUpdate\<close> makes its caller wait for too.
\<close>

definition remotely_locked :: "TqEnv \<Rightarrow> HeapTupleHeader \<Rightarrow> bool" where
  "remotely_locked env t \<longleftrightarrow> (\<exists>x \<in> lock_xids env t. fate env x = Running)"

definition locked_with_us :: "TqEnv \<Rightarrow> HeapTupleHeader \<Rightarrow> bool" where
  "locked_with_us env t \<longleftrightarrow> has t HEAP_XMAX_IS_MULTI \<and> (\<exists>x \<in> lock_xids env t. fate env x = Mine)"

section \<open>Sound hint bits\<close>

text \<open>
  The hint bits of a tuple agree with the fates, and nobody else deletes a tuple that its
  inserter, our own transaction, has not yet committed.
\<close>

definition hints_ok :: "TqEnv \<Rightarrow> HeapTupleHeader \<Rightarrow> bool" where
  "hints_ok env t \<longleftrightarrow>
     (has t HEAP_XMIN_COMMITTED \<longrightarrow> inserter env t = Live) \<and>
     (\<not> has t HEAP_XMIN_COMMITTED \<and> has t HEAP_XMIN_INVALID \<longrightarrow> inserter env t = Dead) \<and>
     (has t HEAP_XMAX_COMMITTED \<and> \<not> has t HEAP_XMAX_INVALID \<longrightarrow>
        (if HEAP_XMAX_IS_LOCKED_ONLY (t_infomask t) then \<not> remotely_locked env t \<and> \<not> locked_with_us env t
         else deletion env t = Some Committed)) \<and>
     (inserter env t = Mine_ins \<longrightarrow> deletion env t \<in> {None, Some Mine})"

lemma hints_xmin:
  assumes "hints_ok env t"
  shows "has t HEAP_XMIN_COMMITTED \<Longrightarrow> inserter env t = Live"
    and "\<not> has t HEAP_XMIN_COMMITTED \<Longrightarrow> has t HEAP_XMIN_INVALID \<Longrightarrow> inserter env t = Dead"
  using assms by (simp_all add: hints_ok_def)

lemma hints_xmax:
  assumes "hints_ok env t" "has t HEAP_XMAX_COMMITTED" "\<not> has t HEAP_XMAX_INVALID"
  shows "\<not> HEAP_XMAX_IS_LOCKED_ONLY (t_infomask t) \<Longrightarrow> deletion env t = Some Committed"
    and "HEAP_XMAX_IS_LOCKED_ONLY (t_infomask t) \<Longrightarrow> \<not> remotely_locked env t \<and> \<not> locked_with_us env t"
  using assms by (simp_all add: hints_ok_def)

lemma hints_own: "hints_ok env t \<Longrightarrow> inserter env t = Mine_ins \<Longrightarrow> deletion env t \<noteq> Some Mine \<Longrightarrow> deletion env t = None"
  by (simp add: hints_ok_def)

text \<open>The hint bits that may be set, and when.\<close>

inductive hint_step :: "TqEnv \<Rightarrow> HeapTupleHeader \<Rightarrow> HeapTupleHeader \<Rightarrow> bool" for env t where
  same: "hint_step env t t"
| xmin_committed: "inserter env t = Live \<Longrightarrow> \<not> has t HEAP_XMIN_INVALID \<Longrightarrow>
    hint_step env t (t\<lparr>t_infomask := t_infomask t OR HEAP_XMIN_COMMITTED\<rparr>)"
| xmin_invalid: "inserter env t = Dead \<Longrightarrow> \<not> has t HEAP_XMIN_COMMITTED \<Longrightarrow>
    hint_step env t (t\<lparr>t_infomask := t_infomask t OR HEAP_XMIN_INVALID\<rparr>)"
| xmax_committed: "deletion env t = Some Committed \<Longrightarrow>
    hint_step env t (t\<lparr>t_infomask := t_infomask t OR HEAP_XMAX_COMMITTED\<rparr>)"
| xmax_invalid: "deletion env t = None \<Longrightarrow> \<not> remotely_locked env t \<Longrightarrow> \<not> locked_with_us env t \<Longrightarrow>
    hint_step env t (t\<lparr>t_infomask := t_infomask t OR HEAP_XMAX_INVALID\<rparr>)"

text \<open>What the rules observe of a tuple.\<close>

definition same_tuple :: "TqEnv \<Rightarrow> HeapTupleHeader \<Rightarrow> HeapTupleHeader \<Rightarrow> bool" where
  "same_tuple env t t' \<longleftrightarrow>
     inserter env t' = inserter env t \<and> deletion env t' = deletion env t \<and> deleter env t' = deleter env t \<and>
     remotely_locked env t' = remotely_locked env t \<and> locked_with_us env t' = locked_with_us env t \<and>
     HeapTupleHeaderXminFrozen t' = HeapTupleHeaderXminFrozen t \<and>
     HeapTupleHeaderGetCmin env t' = HeapTupleHeaderGetCmin env t \<and>
     HeapTupleHeaderGetCmax env t' = HeapTupleHeaderGetCmax env t \<and>
     has t' HEAP_XMAX_IS_MULTI = has t HEAP_XMAX_IS_MULTI \<and>
     HEAP_XMAX_IS_LOCKED_ONLY (t_infomask t') = HEAP_XMAX_IS_LOCKED_ONLY (t_infomask t) \<and>
     t_xmin t' = t_xmin t \<and> t_xmax t' = t_xmax t \<and> t_field3 t' = t_field3 t"

lemma hint_masks_in [simp]:
  "HEAP_XMIN_COMMITTED \<in> hint_masks" "HEAP_XMIN_INVALID \<in> hint_masks"
  "HEAP_XMAX_COMMITTED \<in> hint_masks" "HEAP_XMAX_INVALID \<in> hint_masks"
  by (simp_all add: hint_masks_def)

lemma xvac_OR [simp]:
  "m \<in> hint_masks \<Longrightarrow> HeapTupleHeaderGetXvac (t\<lparr>t_infomask := t_infomask t OR m\<rparr>) = HeapTupleHeaderGetXvac t"
  by (simp add: HeapTupleHeaderGetXvac_def)

lemma deleter_OR [simp]:
  "m \<in> hint_masks \<Longrightarrow> deleter env (t\<lparr>t_infomask := t_infomask t OR m\<rparr>) = deleter env t"
  by (simp add: deleter_def HeapTupleGetUpdateXid_def HeapTupleHeaderGetRawXmax_def)

lemma inserter_OR:
  "m \<in> hint_masks \<Longrightarrow>
   HeapTupleHeaderXminFrozen (t\<lparr>t_infomask := t_infomask t OR m\<rparr>) = HeapTupleHeaderXminFrozen t \<Longrightarrow>
   inserter env (t\<lparr>t_infomask := t_infomask t OR m\<rparr>) = inserter env t"
  by (simp add: inserter_def)

lemma cids_OR:
  "m \<in> hint_masks \<Longrightarrow>
   HeapTupleHeaderXminFrozen (t\<lparr>t_infomask := t_infomask t OR m\<rparr>) = HeapTupleHeaderXminFrozen t \<Longrightarrow>
   HeapTupleHeaderGetCmin env (t\<lparr>t_infomask := t_infomask t OR m\<rparr>) = HeapTupleHeaderGetCmin env t \<and>
   HeapTupleHeaderGetCmax env (t\<lparr>t_infomask := t_infomask t OR m\<rparr>) = HeapTupleHeaderGetCmax env t"
  by (simp add: HeapTupleHeaderGetCmin_def HeapTupleHeaderGetCmax_def HeapTupleHeaderGetXmin_def raw_defs Let_def)

lemma xmax_OR:
  assumes "m \<in> hint_masks" "m \<noteq> HEAP_XMAX_INVALID"
  shows "deletion env (t\<lparr>t_infomask := t_infomask t OR m\<rparr>) = deletion env t"
    "lock_xids env (t\<lparr>t_infomask := t_infomask t OR m\<rparr>) = lock_xids env t"
proof -
  have "m AND HEAP_XMAX_INVALID = 0" using assms by (auto simp: hint_masks_def)
  then show "deletion env (t\<lparr>t_infomask := t_infomask t OR m\<rparr>) = deletion env t"
    "lock_xids env (t\<lparr>t_infomask := t_infomask t OR m\<rparr>) = lock_xids env t"
    using assms(1) by (simp_all add: deletion_def lock_xids_def)
qed

lemma same_tuple_OR:
  assumes m: "m \<in> hint_masks" "m \<noteq> HEAP_XMAX_INVALID"
    and fr: "HeapTupleHeaderXminFrozen (t\<lparr>t_infomask := t_infomask t OR m\<rparr>) = HeapTupleHeaderXminFrozen t"
  shows "same_tuple env t (t\<lparr>t_infomask := t_infomask t OR m\<rparr>)"
  using m fr cids_OR [OF m(1) fr] inserter_OR [OF m(1) fr]
  by (simp add: same_tuple_def xmax_OR [OF m] remotely_locked_def locked_with_us_def)

lemma same_tuple_xmax_invalid:
  assumes "deletion env t = None" "\<not> remotely_locked env t" "\<not> locked_with_us env t"
  shows "same_tuple env t (t\<lparr>t_infomask := t_infomask t OR HEAP_XMAX_INVALID\<rparr>)"
proof -
  let ?t = "t\<lparr>t_infomask := t_infomask t OR HEAP_XMAX_INVALID\<rparr>"
  have fr: "HeapTupleHeaderXminFrozen ?t = HeapTupleHeaderXminFrozen t" by (simp add: xmin_bits)
  have "deletion env ?t = None" "lock_xids env ?t = {}" by (simp_all add: deletion_def lock_xids_def)
  then show ?thesis
    using assms fr cids_OR [OF _ fr, of env] inserter_OR [OF _ fr, of env]
    by (simp add: same_tuple_def remotely_locked_def locked_with_us_def)
qed

text \<open>Setting a hint bit that is justified changes nothing the rules observe.\<close>

lemma hint_step_same_tuple: "hint_step env t t' \<Longrightarrow> same_tuple env t t'"
proof (induction rule: hint_step.induct)
  case same
  then show ?case by (simp add: same_tuple_def)
next
  case xmin_committed
  then show ?case by (intro same_tuple_OR) (simp_all add: xmin_bits, simp add: heap_mask_defs)
next
  case xmin_invalid
  then show ?case by (intro same_tuple_OR) (simp_all add: xmin_bits, simp add: heap_mask_defs)
next
  case xmax_committed
  then show ?case by (intro same_tuple_OR) (simp_all add: xmin_bits, simp add: heap_mask_defs)
next
  case xmax_invalid
  then show ?case by (rule same_tuple_xmax_invalid)
qed

lemma hints_ok_same_tuple:
  assumes "same_tuple env t t'"
  shows "hints_ok env t' \<longleftrightarrow>
     (has t' HEAP_XMIN_COMMITTED \<longrightarrow> inserter env t = Live) \<and>
     (\<not> has t' HEAP_XMIN_COMMITTED \<and> has t' HEAP_XMIN_INVALID \<longrightarrow> inserter env t = Dead) \<and>
     (has t' HEAP_XMAX_COMMITTED \<and> \<not> has t' HEAP_XMAX_INVALID \<longrightarrow>
        (if HEAP_XMAX_IS_LOCKED_ONLY (t_infomask t') then \<not> remotely_locked env t \<and> \<not> locked_with_us env t
         else deletion env t = Some Committed)) \<and>
     (inserter env t = Mine_ins \<longrightarrow> deletion env t \<in> {None, Some Mine})"
  by (simp only: hints_ok_def assms [unfolded same_tuple_def])

lemma hint_step_hints_ok:
  assumes "hint_step env t t'" "hints_ok env t"
  shows "hints_ok env t'"
proof -
  have st: "same_tuple env t t'" using assms(1) by (rule hint_step_same_tuple)
  show ?thesis unfolding hints_ok_same_tuple [OF st]
    using assms by (cases rule: hint_step.cases) (simp_all add: hints_ok_def deletion_def split: if_splits)
qed

text \<open>Several steps.\<close>

abbreviation hint_steps :: "TqEnv \<Rightarrow> HeapTupleHeader \<Rightarrow> HeapTupleHeader \<Rightarrow> bool" where
  "hint_steps env \<equiv> (hint_step env)\<^sup>*\<^sup>*"

lemma same_tuple_trans: "same_tuple env t t' \<Longrightarrow> same_tuple env t' t'' \<Longrightarrow> same_tuple env t t''"
  by (simp add: same_tuple_def)

lemma hint_steps_ok: "hint_steps env t t' \<Longrightarrow> hints_ok env t \<Longrightarrow> hints_ok env t' \<and> same_tuple env t t'"
proof (induction rule: rtranclp_induct)
  case base
  then show ?case using hint_step_same_tuple [OF same] by blast
next
  case (step t1 t2)
  then show ?case using hint_step_hints_ok hint_step_same_tuple same_tuple_trans by blast
qed

section \<open>SetHintBits\<close>

lemma hdr_markDirty [simp]: "hdr (markDirty env tb b) = hdr tb"
  by (simp add: markDirty_def MarkBufferDirtyHint_def Let_def)

lemma SetHintBits_cases:
  assumes "m \<in> hint_masks"
  shows "hdr (SetHintBits env tb m x) = hdr tb \<or>
    hdr (SetHintBits env tb m x) = (hdr tb)\<lparr>t_infomask := t_infomask (hdr tb) OR m\<rparr>"
  using assms by (auto simp: SetHintBits_def HeapTupleSetHintBits_def hint_masks_def set_infomask_def Let_def)

lemma SetHintBits_step:
  assumes "m \<in> hint_masks"
    and "hint_step env (hdr tb) ((hdr tb)\<lparr>t_infomask := t_infomask (hdr tb) OR m\<rparr>)"
  shows "hint_step env (hdr tb) (hdr (SetHintBits env tb m x))"
  using SetHintBits_cases [OF assms(1), of env tb x] assms(2) by (auto intro: same)

section \<open>The xmin part\<close>

text \<open>
  The first part, which the boolean functions, \<open>HeapTupleSatisfiesUpdate\<close> and
  \<open>HeapTupleSatisfiesMVCC\<close> share, as a function of its own.
\<close>

datatype stage = Invisible TupleBuf | Own | Other | Goes_on TupleBuf

definition xmin_stage :: "TqEnv \<Rightarrow> TupleBuf \<Rightarrow> stage" where
  "xmin_stage env tb =
     (if HeapTupleHeaderXminCommitted (hdr tb) then Goes_on tb
      else if HeapTupleHeaderXminInvalid (hdr tb) then Invisible tb
      else case moved_check env tb of
             Some (goes_on, tb1) \<Rightarrow> if goes_on then Goes_on tb1 else Invisible tb1
           | None \<Rightarrow>
               if current env (t_xmin (hdr tb)) then Own
               else if in_progress env (t_xmin (hdr tb)) then Other
               else if did_commit env (t_xmin (hdr tb))
               then Goes_on (SetHintBits env tb HEAP_XMIN_COMMITTED (t_xmin (hdr tb)))
               else Invisible (SetHintBits env tb HEAP_XMIN_INVALID InvalidTransactionId))"

lemma Self_stage:
  "HeapTupleSatisfiesSelf env tb =
     (case xmin_stage env tb of Invisible tb1 \<Rightarrow> (False, tb1) | Own \<Rightarrow> self_own env tb | Other \<Rightarrow> (False, tb)
      | Goes_on tb1 \<Rightarrow> self_xmax env tb1)"
  by (simp add: HeapTupleSatisfiesSelf_def xmin_stage_def Let_def HeapTupleHeaderGetRawXmin_def split: option.split)

lemma Dirty_stage:
  "HeapTupleSatisfiesDirty env tb snapshot0 =
     (let snapshot = snapshot0\<lparr>snap_xmin := InvalidTransactionId, snap_xmax := InvalidTransactionId\<rparr>
      in case xmin_stage env tb of Invisible tb1 \<Rightarrow> (False, tb1, snapshot)
         | Own \<Rightarrow> (case self_own env tb of (r, tb1) \<Rightarrow> (r, tb1, snapshot))
         | Other \<Rightarrow> (True, tb, snapshot\<lparr>snap_xmin := t_xmin (hdr tb)\<rparr>)
         | Goes_on tb1 \<Rightarrow> dirty_xmax env tb1 snapshot)"
  by (simp add: HeapTupleSatisfiesDirty_def xmin_stage_def Let_def HeapTupleHeaderGetRawXmin_def split: option.split)

lemma Update_stage:
  "HeapTupleSatisfiesUpdate env curcid tb =
     (case xmin_stage env tb of Invisible tb1 \<Rightarrow> Inr (HeapTupleInvisible, tb1) | Own \<Rightarrow> update_own env curcid tb
      | Other \<Rightarrow> Inr (HeapTupleInvisible, tb) | Goes_on tb1 \<Rightarrow> update_xmax env curcid tb1)"
  by (simp add: HeapTupleSatisfiesUpdate_def xmin_stage_def Let_def HeapTupleHeaderGetRawXmin_def split: option.split)

lemma MVCC_stage:
  "HeapTupleSatisfiesMVCC env tb snapshot ca =
     (case xmin_stage env tb of Invisible tb1 \<Rightarrow> Inr (False, tb1, snapshot, ca)
      | Own \<Rightarrow> with_snapshot snapshot ca (mvcc_own env tb snapshot)
      | Other \<Rightarrow> Inr (False, tb, snapshot, ca) | Goes_on tb1 \<Rightarrow> mvcc_committed env tb1 snapshot ca)"
  by (simp add: HeapTupleSatisfiesMVCC_def xmin_stage_def Let_def HeapTupleHeaderGetRawXmin_def split: option.split)

text \<open>What the first part found out.\<close>

definition stage_ok :: "TqEnv \<Rightarrow> HeapTupleHeader \<Rightarrow> stage \<Rightarrow> bool" where
  "stage_ok env t s \<longleftrightarrow>
     (case s of
        Invisible tb1 \<Rightarrow> inserter env t \<in> {Dead, MovedOff True, MovedIn False} \<and> hint_step env t (hdr tb1)
      | Own \<Rightarrow> inserter env t = Mine_ins
      | Other \<Rightarrow> inserter env t = Running_ins
      | Goes_on tb1 \<Rightarrow> inserted (inserter env t) \<and> hint_step env t (hdr tb1))"

lemma SetHintBits_xmin:
  "\<not> has (hdr tb) HEAP_XMIN_INVALID \<Longrightarrow> inserter env (hdr tb) = Live \<Longrightarrow>
   hint_step env (hdr tb) (hdr (SetHintBits env tb HEAP_XMIN_COMMITTED x))"
  "\<not> has (hdr tb) HEAP_XMIN_COMMITTED \<Longrightarrow> inserter env (hdr tb) = Dead \<Longrightarrow>
   hint_step env (hdr tb) (hdr (SetHintBits env tb HEAP_XMIN_INVALID x))"
  by (rule SetHintBits_step, simp, rule hint_step.xmin_committed, simp_all)
    (rule SetHintBits_step, simp, rule hint_step.xmin_invalid, simp_all)

lemma moved_inserter:
  assumes "\<not> HeapTupleHeaderXminFrozen t"
  shows "has t HEAP_MOVED_OFF \<Longrightarrow> inserter env t =
      (if current env (HeapTupleHeaderGetXvac t) then MovedOff True
       else if in_progress env (HeapTupleHeaderGetXvac t) then MovedOff False
       else if did_commit env (HeapTupleHeaderGetXvac t) then Dead else Live)"
    and "\<not> has t HEAP_MOVED_OFF \<Longrightarrow> has t HEAP_MOVED_IN \<Longrightarrow> inserter env t =
      (if current env (HeapTupleHeaderGetXvac t) then MovedIn True
       else if in_progress env (HeapTupleHeaderGetXvac t) then MovedIn False
       else if did_commit env (HeapTupleHeaderGetXvac t) then Live else Dead)"
    and "\<not> has t HEAP_MOVED_OFF \<Longrightarrow> \<not> has t HEAP_MOVED_IN \<Longrightarrow> inserter env t =
      (if current env (t_xmin t) then Mine_ins else if in_progress env (t_xmin t) then Running_ins
       else if did_commit env (t_xmin t) then Live else Dead)"
  using assms by (simp_all add: inserter_def xs.fate_of_def of_fate_def)

lemma xmin_stage_ok:
  assumes ok: "hints_ok env (hdr tb)"
  shows "stage_ok env (hdr tb) (xmin_stage env tb)"
proof (cases "has (hdr tb) HEAP_XMIN_COMMITTED \<or> has (hdr tb) HEAP_XMIN_INVALID")
  case True
  with hints_xmin [OF ok] show ?thesis
    by (cases "has (hdr tb) HEAP_XMIN_COMMITTED")
      (simp_all add: xmin_stage_def xmin_bits stage_ok_def inserted_def hint_step.same)
next
  case False
  then have nf: "\<not> HeapTupleHeaderXminFrozen (hdr tb)" by (simp add: xmin_bits)
  note ins = moved_inserter [OF nf, of env]
  note sh = SetHintBits_xmin [of tb env InvalidTransactionId] SetHintBits_xmin [of tb env "t_xmin (hdr tb)"]
  show ?thesis
  proof (cases "has (hdr tb) HEAP_MOVED_OFF")
    case off: True
    then show ?thesis using False ins(1) sh
      by (simp add: xmin_stage_def xmin_bits moved_check_def Let_def stage_ok_def inserted_def hint_step.same)
  next
    case off: False
    show ?thesis
    proof (cases "has (hdr tb) HEAP_MOVED_IN")
      case True
      then show ?thesis using False off ins(2) sh
        by (simp add: xmin_stage_def xmin_bits moved_check_def Let_def stage_ok_def inserted_def hint_step.same)
    next
      case False
      then show ?thesis using \<open>\<not> (has (hdr tb) HEAP_XMIN_COMMITTED \<or> _)\<close> off ins(3) sh
        by (simp add: xmin_stage_def xmin_bits moved_check_def Let_def stage_ok_def inserted_def hint_step.same)
    qed
  qed
qed

section \<open>The xmax part\<close>

lemma deletion_none: "has t HEAP_XMAX_INVALID \<or> HEAP_XMAX_IS_LOCKED_ONLY (t_infomask t) \<Longrightarrow> deletion env t = None"
  by (auto simp: deletion_def)

lemma deletion_fate:
  assumes "\<not> has t HEAP_XMAX_INVALID" "\<not> HEAP_XMAX_IS_LOCKED_ONLY (t_infomask t)"
  shows "deletion env t =
    (if current env (deleter env t) then Some Mine else if in_progress env (deleter env t) then Some Running
     else if did_commit env (deleter env t) then Some Committed else None)"
  using assms by (simp add: deletion_def xs.fate_of_def)

lemma hints_deleter:
  assumes "hints_ok env t" "has t HEAP_XMAX_COMMITTED" "\<not> has t HEAP_XMAX_INVALID"
    "\<not> HEAP_XMAX_IS_LOCKED_ONLY (t_infomask t)"
  shows "\<not> current env (deleter env t) \<and> \<not> in_progress env (deleter env t) \<and> did_commit env (deleter env t)"
  using hints_xmax(1) [OF assms] assms by (auto simp: deletion_fate split: if_splits)

lemma deleter_multi: "has t HEAP_XMAX_IS_MULTI \<Longrightarrow> HeapTupleGetUpdateXid env t = deleter env t"
  and deleter_single: "\<not> has t HEAP_XMAX_IS_MULTI \<Longrightarrow> t_xmax t = deleter env t"
  by (simp_all add: deleter_def)

lemma locks_invalid: "has t HEAP_XMAX_INVALID \<Longrightarrow> \<not> remotely_locked env t \<and> \<not> locked_with_us env t"
  by (simp add: remotely_locked_def locked_with_us_def lock_xids_def)

lemma locks_upgraded:
  "HEAP_LOCKED_UPGRADED (t_infomask t) \<Longrightarrow> \<not> remotely_locked env t \<and> \<not> locked_with_us env t"
  by (simp add: remotely_locked_def locked_with_us_def lock_xids_def HEAP_LOCKED_UPGRADED_def has_def)

lemma locks_single:
  "\<not> has t HEAP_XMAX_INVALID \<Longrightarrow> \<not> has t HEAP_XMAX_IS_MULTI \<Longrightarrow>
   (remotely_locked env t \<longleftrightarrow> \<not> current env (deleter env t) \<and> in_progress env (deleter env t)) \<and> \<not> locked_with_us env t"
  by (simp add: remotely_locked_def locked_with_us_def lock_xids_def deleter_def xs.fate_of_def)

lemma any_member_iff: "any_member P ms \<longleftrightarrow> (\<exists>x \<in> mx_xid ` set ms. P x)"
  by (induction ms) auto

lemma locks_multi:
  assumes "\<not> has t HEAP_XMAX_INVALID" "has t HEAP_XMAX_IS_MULTI" "\<not> HEAP_LOCKED_UPGRADED (t_infomask t)"
  shows "MultiXactIdIsRunning env (t_xmax t) \<longleftrightarrow> remotely_locked env t \<or> locked_with_us env t"
    and "MultiXactHasRunningRemoteMembers env (t_xmax t) \<longleftrightarrow> remotely_locked env t"
  using assms
  by (auto simp: MultiXactIdIsRunning_def MultiXactHasRunningRemoteMembers_def remotely_locked_def
      locked_with_us_def lock_xids_def any_member_iff xs.fate_of_def)

lemma upgraded_locked_only:
  "HEAP_LOCKED_UPGRADED (t_infomask t) \<Longrightarrow> HEAP_XMAX_IS_LOCKED_ONLY (t_infomask t) \<and> has t HEAP_XMAX_IS_MULTI"
  by (simp add: HEAP_LOCKED_UPGRADED_def HEAP_XMAX_IS_LOCKED_ONLY_def has_def)

lemma hints_locker:
  assumes "hints_ok env t" "has t HEAP_XMAX_COMMITTED" "\<not> has t HEAP_XMAX_INVALID"
    "HEAP_XMAX_IS_LOCKED_ONLY (t_infomask t)" "\<not> has t HEAP_XMAX_IS_MULTI" "\<not> current env (deleter env t)"
  shows "\<not> in_progress env (deleter env t)"
  using hints_xmax(2) [OF assms(1-4)] locks_single [of t env] assms by simp

lemma own_deleter:
  assumes "hints_ok env t" "inserter env t = Mine_ins" "\<not> has t HEAP_XMAX_INVALID"
    "\<not> HEAP_XMAX_IS_LOCKED_ONLY (t_infomask t)" "\<not> current env (deleter env t)"
  shows "\<not> in_progress env (deleter env t) \<and> \<not> did_commit env (deleter env t)"
  using hints_own [OF assms(1,2)] assms
  by (cases "in_progress env (deleter env t)"; cases "did_commit env (deleter env t)") (simp_all add: deletion_fate)

lemma SetHintBits_xmax:
  "deletion env (hdr tb) = Some Committed \<Longrightarrow>
   hint_step env (hdr tb) (hdr (SetHintBits env tb HEAP_XMAX_COMMITTED x))"
  "deletion env (hdr tb) = None \<Longrightarrow> \<not> remotely_locked env (hdr tb) \<Longrightarrow> \<not> locked_with_us env (hdr tb) \<Longrightarrow>
   hint_step env (hdr tb) (hdr (SetHintBits env tb HEAP_XMAX_INVALID x))"
  by (rule SetHintBits_step, simp, rule hint_step.xmax_committed, simp)
    (rule SetHintBits_step, simp, rule hint_step.xmax_invalid, simp_all)

lemmas xmax_facts = deletion_none deletion_fate deleter_multi hint_step.same

lemma self_own_spec:
  assumes ok: "hints_ok env (hdr tb)" and own: "inserter env (hdr tb) = Mine_ins"
  shows "fst (self_own env tb) \<longleftrightarrow> deletion env (hdr tb) \<noteq> Some Mine"
    "hint_step env (hdr tb) (hdr (snd (self_own env tb)))"
proof -
  let ?t = "hdr tb"
  show "fst (self_own env tb) \<longleftrightarrow> deletion env ?t \<noteq> Some Mine"
    using deleter_single [of ?t env]
    by (cases "has ?t HEAP_XMAX_IS_MULTI") (simp_all add: self_own_def Let_def raw_defs xmax_facts)
  show "hint_step env ?t (hdr (snd (self_own env tb)))"
  proof (cases "\<not> has ?t HEAP_XMAX_INVALID \<and> \<not> HEAP_XMAX_IS_LOCKED_ONLY (t_infomask ?t) \<and>
      \<not> has ?t HEAP_XMAX_IS_MULTI \<and> \<not> current env (t_xmax ?t)")
    case True
    then have "deletion env ?t = None" "\<not> remotely_locked env ?t" "\<not> locked_with_us env ?t"
      using hints_own [OF ok own] deleter_single [of ?t env] locks_single [of ?t env]
      by (auto simp: deletion_fate split: if_splits)
    with True show ?thesis by (simp add: self_own_def Let_def raw_defs SetHintBits_xmax)
  next
    case False
    then show ?thesis by (auto simp: self_own_def Let_def raw_defs hint_step.same)
  qed
qed

lemma self_xmax_spec:
  assumes ok: "hints_ok env (hdr tb)"
  shows "fst (self_xmax env tb) \<longleftrightarrow> deletion env (hdr tb) \<in> {None, Some Running}"
    "hint_step env (hdr tb) (hdr (snd (self_xmax env tb)))"
proof -
  let ?t = "hdr tb"
  note facts = hints_deleter [OF ok] hints_xmax(2) [OF ok] deleter_single [of ?t env] locks_single [of ?t env] SetHintBits_xmax [of env tb]
  show "fst (self_xmax env tb) \<longleftrightarrow> deletion env ?t \<in> {None, Some Running}"
    using facts by (simp add: self_xmax_def Let_def raw_defs xmax_facts)
  show "hint_step env ?t (hdr (snd (self_xmax env tb)))"
    using facts by (simp add: self_xmax_def Let_def raw_defs xmax_facts)
qed

section \<open>Specifications\<close>

definition self_visible :: "TqEnv \<Rightarrow> HeapTupleHeader \<Rightarrow> bool" where
  "self_visible env t \<longleftrightarrow>
     inserter env t = Mine_ins \<and> deletion env t \<noteq> Some Mine \<or>
     inserted (inserter env t) \<and> deletion env t \<in> {None, Some Running}"

text \<open>\<open>HeapTupleSatisfiesUpdate\<close>: may the tuple be updated by a command that began at \<open>curcid\<close>?\<close>

definition deleted_by_us :: "TqEnv \<Rightarrow> CommandId \<Rightarrow> HeapTupleHeader \<Rightarrow> TqError + HTSU_Result" where
  "deleted_by_us env curcid t =
     bindE (HeapTupleHeaderGetCmax env t)
       (\<lambda>cmax. Inr (if cmax \<ge> curcid then HeapTupleSelfUpdated else HeapTupleInvisible))"

definition update_spec :: "TqEnv \<Rightarrow> CommandId \<Rightarrow> HeapTupleHeader \<Rightarrow> TqError + HTSU_Result" where
  "update_spec env curcid t =
     (if inserter env t = Mine_ins
      then bindE (HeapTupleHeaderGetCmin env t) (\<lambda>cmin.
             if cmin \<ge> curcid then Inr HeapTupleInvisible
             else if deletion env t = Some Mine then deleted_by_us env curcid t
             else if remotely_locked env t then Inr HeapTupleBeingUpdated
             else Inr HeapTupleMayBeUpdated)
      else if inserted (inserter env t)
      then case deletion env t of
             Some Mine \<Rightarrow> deleted_by_us env curcid t
           | Some Running \<Rightarrow> Inr HeapTupleBeingUpdated
           | Some _ \<Rightarrow> Inr HeapTupleUpdated
           | None \<Rightarrow> if remotely_locked env t \<or> locked_with_us env t then Inr HeapTupleBeingUpdated
                     else Inr HeapTupleMayBeUpdated
      else Inr HeapTupleInvisible)"

text \<open>\<open>HeapTupleSatisfiesVacuum\<close>.\<close>

definition vacuum_spec :: "TqEnv \<Rightarrow> TransactionId \<Rightarrow> HeapTupleHeader \<Rightarrow> HTSV_Result" where
  "vacuum_spec env OldestXmin t =
     (case inserter env t of
        Dead \<Rightarrow> HEAPTUPLE_DEAD
      | MovedOff _ \<Rightarrow> HEAPTUPLE_DELETE_IN_PROGRESS
      | MovedIn _ \<Rightarrow> HEAPTUPLE_INSERT_IN_PROGRESS
      | Running_ins \<Rightarrow> HEAPTUPLE_INSERT_IN_PROGRESS
      | Mine_ins \<Rightarrow> if deletion env t = Some Mine then HEAPTUPLE_DELETE_IN_PROGRESS else HEAPTUPLE_INSERT_IN_PROGRESS
      | Live \<Rightarrow> (case deletion env t of
                   None \<Rightarrow> HEAPTUPLE_LIVE
                 | Some Committed \<Rightarrow>
                     if TransactionIdPrecedes (deleter env t) OldestXmin then HEAPTUPLE_DEAD else HEAPTUPLE_RECENTLY_DEAD
                 | Some _ \<Rightarrow> HEAPTUPLE_DELETE_IN_PROGRESS))"

text \<open>
  \<open>HeapTupleSatisfiesMVCC\<close>: whether a transaction counts as running for the snapshot, from the
  distributed log and the local arrays alone, and the visibility this gives.
\<close>

definition in_snapshot :: "TqEnv \<Rightarrow> SnapshotData \<Rightarrow> TransactionId \<Rightarrow> bool" where
  "in_snapshot env snapshot xid =
     (let local = XidInMVCCSnapshot_Local (subtrans (xlog (sys env))) xid snapshot
      in if haveDistribSnapshot snapshot \<and> \<not> IS_QUERY_DISPATCHER (gp env)
         then case distributed_verdict (distributed_log env) (ds (distribSnapshotWithLocalMapping snapshot)) xid False of
                DISTRIBUTEDSNAPSHOT_COMMITTED_INPROGRESS \<Rightarrow> True
              | DISTRIBUTEDSNAPSHOT_COMMITTED_VISIBLE \<Rightarrow> False
              | _ \<Rightarrow> local
         else local)"

definition seen_unless_cmax :: "TqEnv \<Rightarrow> SnapshotData \<Rightarrow> HeapTupleHeader \<Rightarrow> TqError + bool" where
  "seen_unless_cmax env snapshot t =
     bindE (HeapTupleHeaderGetCmax env t) (\<lambda>cmax. Inr (cmax \<ge> snap_curcid snapshot))"

definition mvcc_spec :: "TqEnv \<Rightarrow> SnapshotData \<Rightarrow> HeapTupleHeader \<Rightarrow> TqError + bool" where
  "mvcc_spec env snapshot t =
     (if inserter env t = Mine_ins
      then bindE (HeapTupleHeaderGetCmin env t) (\<lambda>cmin.
             if cmin \<ge> snap_curcid snapshot then Inr False
             else if deletion env t = Some Mine then seen_unless_cmax env snapshot t
             else Inr True)
      else if inserted (inserter env t) \<and> (HeapTupleHeaderXminFrozen t \<or> \<not> in_snapshot env snapshot (t_xmin t))
      then case deletion env t of
             Some Mine \<Rightarrow> seen_unless_cmax env snapshot t
           | Some Committed \<Rightarrow> Inr (in_snapshot env snapshot (deleter env t))
           | _ \<Rightarrow> Inr True
      else Inr False)"

text \<open>The specifications see a tuple only through what \<open>same_tuple\<close> compares.\<close>

lemma same_tuple_specs:
  assumes "same_tuple env t t'"
  shows "self_visible env t' = self_visible env t"
    and "update_spec env curcid t' = update_spec env curcid t"
    and "vacuum_spec env OldestXmin t' = vacuum_spec env OldestXmin t"
    and "mvcc_spec env snapshot t' = mvcc_spec env snapshot t"
  by (simp_all only: self_visible_def update_spec_def deleted_by_us_def vacuum_spec_def mvcc_spec_def seen_unless_cmax_def
      assms [unfolded same_tuple_def])

section \<open>The functions meet their specifications\<close>

lemma hint_step_step: "hint_step env t t1 \<Longrightarrow> hint_step env t1 t' \<Longrightarrow> hint_steps env t t'"
  by (blast intro: converse_rtranclp_into_rtranclp)

lemma Self_spec:
  assumes ok: "hints_ok env (hdr tb)"
  shows "fst (HeapTupleSatisfiesSelf env tb) \<longleftrightarrow> self_visible env (hdr tb)"
    "hint_steps env (hdr tb) (hdr (snd (HeapTupleSatisfiesSelf env tb)))"
proof -
  have st: "stage_ok env (hdr tb) (xmin_stage env tb)" by (rule xmin_stage_ok [OF ok])
  have "(fst (HeapTupleSatisfiesSelf env tb) \<longleftrightarrow> self_visible env (hdr tb)) \<and>
    hint_steps env (hdr tb) (hdr (snd (HeapTupleSatisfiesSelf env tb)))"
  proof (cases "xmin_stage env tb")
    case (Goes_on tb1)
    then have step: "hint_step env (hdr tb) (hdr tb1)" and ins: "inserted (inserter env (hdr tb))"
      using st by (simp_all add: stage_ok_def)
    have ok1: "hints_ok env (hdr tb1)" by (rule hint_step_hints_ok [OF step ok])
    show ?thesis
      using Goes_on self_xmax_spec [OF ok1] same_tuple_specs(1) [OF hint_step_same_tuple [OF step]] ins
        hint_step_same_tuple [OF step] hint_step_step [OF step]
      by (auto simp: Self_stage self_visible_def same_tuple_def inserted_def)
  next
    case Own
    with st self_own_spec [OF ok] show ?thesis
      by (auto simp: Self_stage self_visible_def stage_ok_def inserted_def)
  qed (use st in \<open>auto simp: Self_stage self_visible_def stage_ok_def inserted_def\<close>)
  then show "fst (HeapTupleSatisfiesSelf env tb) \<longleftrightarrow> self_visible env (hdr tb)"
    "hint_steps env (hdr tb) (hdr (snd (HeapTupleSatisfiesSelf env tb)))" by blast+
qed

lemma dirty_self_xmax:
  assumes ok: "hints_ok env (hdr tb)"
  shows "dirty_xmax env tb s = (fst (self_xmax env tb), snd (self_xmax env tb),
    if deletion env (hdr tb) = Some Running then s\<lparr>snap_xmax := deleter env (hdr tb)\<rparr> else s)"
proof -
  let ?t = "hdr tb"
  show ?thesis using hints_deleter [OF ok] deleter_single [of ?t env]
    by (simp add: dirty_xmax_def self_xmax_def Let_def raw_defs xmax_facts)
qed

text \<open>The answer of a function that may fail, and the tuples it may leave.\<close>

definition answer :: "'e + 'r \<times> 'x \<Rightarrow> 'e + 'r" where
  "answer r = bindE r (\<lambda>p. Inr (fst p))"

lemma answer_simps [simp]: "answer (Inl e) = Inl e" "answer (Inr p) = Inr (fst p)"
  by (simp_all add: answer_def)

lemma by_cmax_answer:
  "answer (by_cmax env tb curcid a b) =
     bindE (HeapTupleHeaderGetCmax env (hdr tb)) (\<lambda>cmax. Inr (if cmax \<ge> curcid then a else b))"
  "by_cmax env tb curcid a b = Inr (r, tb') \<Longrightarrow> tb' = tb"
  by (auto simp: by_cmax_def answer_def bindE_def split: sum.splits)

lemma update_own_answer:
  assumes ok: "hints_ok env (hdr tb)" and own: "inserter env (hdr tb) = Mine_ins" and sys: "sys_ok (sys env)"
  shows "answer (update_own env curcid tb) = update_spec env curcid (hdr tb)"
proof (cases "HeapTupleHeaderGetCmin env (hdr tb)")
  case (Inr cmin)
  let ?t = "hdr tb"
  note facts = deleter_single [of ?t env] locks_single [of ?t env] locks_multi(2) [of ?t env]
    locks_invalid [of ?t env] locks_upgraded [of ?t env] upgraded_locked_only [of ?t] own_deleter [OF ok own]
  show ?thesis
    using Inr own facts
    by (simp add: update_own_def update_spec_def deleted_by_us_def by_cmax_answer Let_def raw_defs xmax_facts)
qed (simp add: update_own_def update_spec_def own)

lemma update_own_step:
  assumes ok: "hints_ok env (hdr tb)" and own: "inserter env (hdr tb) = Mine_ins"
    and r: "update_own env curcid tb = Inr (r, tb')"
  shows "hint_step env (hdr tb) (hdr tb')"
proof -
  have "tb' = tb \<or> tb' = snd (self_own env tb)"
    using r
    by (auto simp: update_own_def self_own_def bindE_def Let_def raw_defs split: sum.splits if_splits
        dest: by_cmax_answer(2))
  then show ?thesis using self_own_spec(2) [OF ok own] by (auto intro: hint_step.same)
qed

lemma update_xmax_answer:
  assumes ok: "hints_ok env (hdr tb)" and ins: "inserted (inserter env (hdr tb))"
  shows "answer (update_xmax env curcid tb) = update_spec env curcid (hdr tb)"
proof -
  let ?t = "hdr tb"
  have "inserter env ?t \<noteq> Mine_ins" using ins by (auto simp: inserted_def)
  then have spec: "update_spec env curcid ?t =
      (case deletion env ?t of
         Some Mine \<Rightarrow> deleted_by_us env curcid ?t | Some Running \<Rightarrow> Inr HeapTupleBeingUpdated | Some _ \<Rightarrow> Inr HeapTupleUpdated
       | None \<Rightarrow> if remotely_locked env ?t \<or> locked_with_us env ?t then Inr HeapTupleBeingUpdated
                 else Inr HeapTupleMayBeUpdated)"
    using ins by (simp add: update_spec_def)
  note defs = update_xmax_def spec deleted_by_us_def by_cmax_answer Let_def raw_defs
  consider "has ?t HEAP_XMAX_INVALID"
    | "\<not> has ?t HEAP_XMAX_INVALID" "has ?t HEAP_XMAX_COMMITTED"
    | "\<not> has ?t HEAP_XMAX_INVALID" "\<not> has ?t HEAP_XMAX_COMMITTED" "has ?t HEAP_XMAX_IS_MULTI"
    | "\<not> has ?t HEAP_XMAX_INVALID" "\<not> has ?t HEAP_XMAX_COMMITTED" "\<not> has ?t HEAP_XMAX_IS_MULTI" by blast
  then show ?thesis
  proof cases
    case 1
    then show ?thesis using locks_invalid [of ?t env] by (simp add: defs deletion_none)
  next
    case 2
    then show ?thesis using hints_xmax [OF ok]
      by (cases "HEAP_XMAX_IS_LOCKED_ONLY (t_infomask ?t)") (simp_all add: defs deletion_none)
  next
    case 3
    then show ?thesis using locks_upgraded [of ?t env] upgraded_locked_only [of ?t] locks_multi(1) [of ?t env]
      by (cases "HEAP_LOCKED_UPGRADED (t_infomask ?t)"; cases "HEAP_XMAX_IS_LOCKED_ONLY (t_infomask ?t)")
        (simp_all add: defs deletion_none deletion_fate deleter_multi)
  next
    case 4
    then show ?thesis using locks_single [of ?t env] deleter_single [of ?t env]
      by (cases "HEAP_XMAX_IS_LOCKED_ONLY (t_infomask ?t)") (simp_all add: defs deletion_none deletion_fate)
  qed
qed

lemma update_xmax_step:
  assumes ok: "hints_ok env (hdr tb)" and r: "update_xmax env curcid tb = Inr (r, tb')"
  shows "hint_step env (hdr tb) (hdr tb')"
proof (cases "has (hdr tb) HEAP_XMAX_IS_MULTI \<and> tb' \<noteq> tb")
  case True
  let ?t = "hdr tb"
  have nu: "\<not> HEAP_LOCKED_UPGRADED (t_infomask ?t)" "\<not> has ?t HEAP_XMAX_INVALID" "\<not> MultiXactIdIsRunning env (t_xmax ?t)"
    "tb' = SetHintBits env tb HEAP_XMAX_INVALID InvalidTransactionId"
    "HEAP_XMAX_IS_LOCKED_ONLY (t_infomask ?t) \<or>
     \<not> current env (deleter env ?t) \<and> \<not> in_progress env (deleter env ?t) \<and> \<not> did_commit env (deleter env ?t)"
    using True r deleter_multi [of ?t env]
    by (auto simp: update_xmax_def Let_def raw_defs split: if_splits dest: by_cmax_answer(2))
  then have "deletion env ?t = None" by (auto simp: deletion_def xs.fate_of_def)
  with nu True show ?thesis using locks_multi(1) [of ?t env] SetHintBits_xmax(2) [of env tb] by simp
next
  case False
  have "tb' = tb \<or> tb' = snd (self_xmax env tb)"
    using False r
    by (auto simp: update_xmax_def self_xmax_def Let_def raw_defs split: if_splits dest: by_cmax_answer(2))
  then show ?thesis using self_xmax_spec(2) [OF ok] by (auto intro: hint_step.same)
qed

lemma Update_answer:
  assumes ok: "hints_ok env (hdr tb)" and sys: "sys_ok (sys env)"
  shows "answer (HeapTupleSatisfiesUpdate env curcid tb) = update_spec env curcid (hdr tb)"
    and "HeapTupleSatisfiesUpdate env curcid tb = Inr (r, tb') \<Longrightarrow> hint_steps env (hdr tb) (hdr tb')"
proof -
  have st: "stage_ok env (hdr tb) (xmin_stage env tb)" by (rule xmin_stage_ok [OF ok])
  have "answer (HeapTupleSatisfiesUpdate env curcid tb) = update_spec env curcid (hdr tb) \<and>
    (HeapTupleSatisfiesUpdate env curcid tb = Inr (r, tb') \<longrightarrow> hint_steps env (hdr tb) (hdr tb'))"
  proof (cases "xmin_stage env tb")
    case (Goes_on tb1)
    then have step: "hint_step env (hdr tb) (hdr tb1)" and ins: "inserted (inserter env (hdr tb))"
      using st by (simp_all add: stage_ok_def)
    have same: "same_tuple env (hdr tb) (hdr tb1)" by (rule hint_step_same_tuple [OF step])
    have ok1: "hints_ok env (hdr tb1)" by (rule hint_step_hints_ok [OF step ok])
    have "update_spec env curcid (hdr tb1) = update_spec env curcid (hdr tb)" by (rule same_tuple_specs(2) [OF same])
    moreover have "inserted (inserter env (hdr tb1))" using same ins by (simp add: same_tuple_def)
    ultimately show ?thesis
      using Goes_on update_xmax_answer [OF ok1] update_xmax_step [OF ok1] step
      by (auto simp: Update_stage intro: hint_step_step)
  next
    case Own
    with st have own: "inserter env (hdr tb) = Mine_ins" by (simp add: stage_ok_def)
    show ?thesis using Own update_own_answer [OF ok own sys] update_own_step [OF ok own]
      by (auto simp: Update_stage)
  qed (use st in \<open>auto simp: Update_stage update_spec_def stage_ok_def inserted_def\<close>)
  then show "answer (HeapTupleSatisfiesUpdate env curcid tb) = update_spec env curcid (hdr tb)"
    "HeapTupleSatisfiesUpdate env curcid tb = Inr (r, tb') \<Longrightarrow> hint_steps env (hdr tb) (hdr tb')" by blast+
qed

section \<open>Vacuum\<close>

text \<open>
  The updater of a multixact is gone but lockers remain: here \<open>HeapTupleSatisfiesVacuum\<close> marks
  xmax invalid, and the locks with it.
\<close>

definition drops_locks :: "TqEnv \<Rightarrow> HeapTupleHeader \<Rightarrow> bool" where
  "drops_locks env t \<longleftrightarrow> inserter env t = Live \<and> has t HEAP_XMAX_IS_MULTI \<and>
     \<not> HEAP_XMAX_IS_LOCKED_ONLY (t_infomask t) \<and> deletion env t = None \<and>
     (remotely_locked env t \<or> locked_with_us env t)"

lemma SetHintBits_no_xid:
  "m \<in> hint_masks \<Longrightarrow>
   hdr (SetHintBits env tb m InvalidTransactionId) = (hdr tb)\<lparr>t_infomask := t_infomask (hdr tb) OR m\<rparr>"
  by (auto simp: SetHintBits_def HeapTupleSetHintBits_def hint_masks_def set_infomask_def Let_def TransactionIdIsValid_def)

lemma vacuum_xmax_answer:
  assumes ok: "hints_ok env (hdr tb)" and ins: "inserter env (hdr tb) = Live" and sys: "sys_ok (sys env)"
  shows "fst (vacuum_xmax env OldestXmin tb) = vacuum_spec env OldestXmin (hdr tb)"
proof -
  let ?t = "hdr tb"
  have cur: "current env (deleter env ?t) \<Longrightarrow> in_progress env (deleter env ?t)" by (rule xs.current_in_progress [OF sys])
  note defs = vacuum_xmax_def vacuum_locked_def vacuum_spec_def ins Let_def raw_defs
  show ?thesis
  proof (cases "has ?t HEAP_XMAX_INVALID \<or> HEAP_XMAX_IS_LOCKED_ONLY (t_infomask ?t)")
    case True
    then show ?thesis by (auto simp: defs deletion_none)
  next
    case False
    with hints_deleter [OF ok] cur deleter_single [of ?t env] show ?thesis
      by (cases "has ?t HEAP_XMAX_IS_MULTI"; cases "has ?t HEAP_XMAX_COMMITTED")
        (simp_all add: defs deletion_fate deleter_multi)
  qed
qed

lemma vacuum_xmax_step:
  assumes ok: "hints_ok env (hdr tb)" and ins: "inserter env (hdr tb) = Live" and sys: "sys_ok (sys env)"
    and nd: "\<not> drops_locks env (hdr tb)"
  shows "hint_step env (hdr tb) (hdr (snd (vacuum_xmax env OldestXmin tb)))"
proof -
  let ?t = "hdr tb"
  let ?inv = "?t\<lparr>t_infomask := t_infomask ?t OR HEAP_XMAX_INVALID\<rparr>"
  note defs = vacuum_xmax_def vacuum_locked_def Let_def raw_defs SetHintBits_no_xid
  have inv: "hint_step env ?t ?inv"
    if "deletion env ?t = None" "\<not> remotely_locked env ?t" "\<not> locked_with_us env ?t"
    using that by (rule hint_step.xmax_invalid)
  have twice: "(x OR m) OR m = x OR m" for x m :: uint16 by (simp add: or.assoc)
  consider "has ?t HEAP_XMAX_INVALID"
    | "\<not> has ?t HEAP_XMAX_INVALID" "HEAP_XMAX_IS_LOCKED_ONLY (t_infomask ?t)"
    | "\<not> has ?t HEAP_XMAX_INVALID" "\<not> HEAP_XMAX_IS_LOCKED_ONLY (t_infomask ?t)" "has ?t HEAP_XMAX_IS_MULTI"
    | "\<not> has ?t HEAP_XMAX_INVALID" "\<not> HEAP_XMAX_IS_LOCKED_ONLY (t_infomask ?t)" "\<not> has ?t HEAP_XMAX_IS_MULTI" by blast
  then show ?thesis
  proof cases
    case 1
    then show ?thesis by (simp add: defs hint_step.same)
  next
    case 2
    then show ?thesis
      using inv deletion_none [of ?t env] locks_single [of ?t env] locks_multi(1) [of ?t env] locks_upgraded [of ?t env]
        deleter_single [of ?t env]
      by (cases "has ?t HEAP_XMAX_IS_MULTI"; cases "HEAP_LOCKED_UPGRADED (t_infomask ?t)")
        (simp_all add: defs hint_step.same)
  next
    case 3
    show ?thesis
    proof (cases "in_progress env (deleter env ?t) \<or> did_commit env (deleter env ?t)")
      case True
      with 3 show ?thesis by (auto simp: defs deleter_multi hint_step.same)
    next
      case False
      with xs.current_in_progress [OF sys] have "\<not> current env (deleter env ?t)" by blast
      with False 3 have "deletion env ?t = None" by (simp add: deletion_fate)
      with nd ins 3 inv have "hint_step env ?t ?inv" by (simp add: drops_locks_def)
      with 3 False show ?thesis by (simp add: defs deleter_multi twice)
    qed
  next
    case 4
    note del = deletion_fate [OF 4(1,2), of env] and lk = locks_single [OF 4(1,3), of env]
      and single = deleter_single [OF 4(3), of env]
    show ?thesis
    proof (cases "has ?t HEAP_XMAX_COMMITTED \<or> in_progress env (deleter env ?t)")
      case True
      with 4 show ?thesis by (auto simp: defs single hint_step.same)
    next
      case False
      with xs.current_in_progress [OF sys] have "\<not> current env (deleter env ?t)" by blast
      with False 4 del lk inv SetHintBits_xmax(1) [of env tb] show ?thesis
        by (cases "did_commit env (deleter env ?t)") (simp_all add: defs single)
    qed
  qed
qed

text \<open>The first part of \<open>HeapTupleSatisfiesVacuum\<close>, whose block on moved tuples is its own.\<close>

definition vacuum_stage :: "TqEnv \<Rightarrow> TupleBuf \<Rightarrow> HTSV_Result \<times> TupleBuf + TupleBuf" where
  "vacuum_stage env tb =
     (let t = hdr tb; xmin = t_xmin t
      in if HeapTupleHeaderXminCommitted t then Inr tb
         else if HeapTupleHeaderXminInvalid t then Inl (HEAPTUPLE_DEAD, tb)
         else case vacuum_moved env tb of
                Some r \<Rightarrow> r
              | None \<Rightarrow>
                  if current env xmin then Inl (vacuum_own env t, tb)
                  else if in_progress env xmin then Inl (HEAPTUPLE_INSERT_IN_PROGRESS, tb)
                  else if did_commit env xmin then Inr (SetHintBits env tb HEAP_XMIN_COMMITTED xmin)
                  else Inl (HEAPTUPLE_DEAD, SetHintBits env tb HEAP_XMIN_INVALID InvalidTransactionId))"

lemma Vacuum_stage:
  "HeapTupleSatisfiesVacuum env OldestXmin tb =
     (case vacuum_stage env tb of Inl r \<Rightarrow> r | Inr tb1 \<Rightarrow> vacuum_xmax env OldestXmin tb1)"
  by (simp add: HeapTupleSatisfiesVacuum_def vacuum_stage_def Let_def HeapTupleHeaderGetRawXmin_def
      split: option.split sum.split)

lemma vacuum_own_answer:
  assumes ok: "hints_ok env t" and own: "inserter env t = Mine_ins"
  shows "vacuum_own env t = vacuum_spec env OldestXmin t"
proof (cases "has t HEAP_XMAX_INVALID \<or> HEAP_XMAX_IS_LOCKED_ONLY (t_infomask t)")
  case True
  then show ?thesis by (auto simp: vacuum_own_def vacuum_spec_def own deletion_none)
next
  case False
  then have lo: "\<not> has t HEAP_XMAX_LOCK_ONLY" by (auto simp: HEAP_XMAX_IS_LOCKED_ONLY_def has_def)
  then have upd: "HeapTupleHeaderGetUpdateXid env t = deleter env t"
    using False by (simp add: HeapTupleHeaderGetUpdateXid_def deleter_def raw_defs)
  have "\<not> current env InvalidTransactionId"
    by (rule xs.special_not_current) (simp add: xid_defs TransactionIdIsNormal_def)
  moreover have "t_xmax t = InvalidTransactionId \<Longrightarrow> deleter env t = InvalidTransactionId"
    by (simp add: deleter_def HeapTupleGetUpdateXid_def MultiXactIdGetUpdateXid_def GetMultiXactIdMembers_def
        raw_defs TransactionIdIsValid_def)
  ultimately show ?thesis
    using False lo upd own_deleter [OF ok own] deleter_single [of t env]
    by (cases "has t HEAP_XMAX_IS_MULTI"; cases "current env (deleter env t)")
      (auto simp: vacuum_own_def vacuum_spec_def own deletion_fate HeapTupleHeaderIsOnlyLocked_def Let_def
        deleter_multi raw_defs TransactionIdIsValid_def)
qed

lemma vacuum_stage_ok:
  assumes ok: "hints_ok env (hdr tb)"
  shows "case vacuum_stage env tb of
      Inl (r, tb1) \<Rightarrow> inserter env (hdr tb) \<noteq> Live \<and> r = vacuum_spec env OldestXmin (hdr tb) \<and>
        hint_step env (hdr tb) (hdr tb1)
    | Inr tb1 \<Rightarrow> inserter env (hdr tb) = Live \<and> hint_step env (hdr tb) (hdr tb1)"
proof (cases "has (hdr tb) HEAP_XMIN_COMMITTED \<or> has (hdr tb) HEAP_XMIN_INVALID")
  case True
  with hints_xmin [OF ok] show ?thesis
    by (cases "has (hdr tb) HEAP_XMIN_COMMITTED") (simp_all add: vacuum_stage_def xmin_bits vacuum_spec_def hint_step.same)
next
  case False
  then have nf: "\<not> HeapTupleHeaderXminFrozen (hdr tb)" by (simp add: xmin_bits)
  note ins = moved_inserter [OF nf, of env]
  note sh = SetHintBits_xmin [of tb env InvalidTransactionId] SetHintBits_xmin [of tb env "t_xmin (hdr tb)"]
  note defs = vacuum_stage_def xmin_bits vacuum_moved_def Let_def vacuum_spec_def hint_step.same
  consider "has (hdr tb) HEAP_MOVED_OFF"
    | "\<not> has (hdr tb) HEAP_MOVED_OFF" "has (hdr tb) HEAP_MOVED_IN"
    | "\<not> has (hdr tb) HEAP_MOVED_OFF" "\<not> has (hdr tb) HEAP_MOVED_IN" by blast
  then show ?thesis
  proof cases
    case 1
    then show ?thesis using False ins(1) sh by (simp add: defs)
  next
    case 2
    then show ?thesis using False ins(2) sh by (simp add: defs)
  next
    case 3
    show ?thesis
    proof (cases "current env (t_xmin (hdr tb))")
      case True
      with 3 ins(3) have "inserter env (hdr tb) = Mine_ins" by simp
      with 3 False True vacuum_own_answer [OF ok] show ?thesis
        by (simp add: vacuum_stage_def xmin_bits vacuum_moved_def Let_def hint_step.same)
    next
      case nc: False
      with 3 False ins(3) sh show ?thesis by (simp add: defs)
    qed
  qed
qed

lemma Vacuum_answer:
  assumes ok: "hints_ok env (hdr tb)" and sys: "sys_ok (sys env)"
  shows "fst (HeapTupleSatisfiesVacuum env OldestXmin tb) = vacuum_spec env OldestXmin (hdr tb)"
    and "\<not> drops_locks env (hdr tb) \<Longrightarrow>
      hint_steps env (hdr tb) (hdr (snd (HeapTupleSatisfiesVacuum env OldestXmin tb)))"
proof -
  have "fst (HeapTupleSatisfiesVacuum env OldestXmin tb) = vacuum_spec env OldestXmin (hdr tb) \<and>
    (\<not> drops_locks env (hdr tb) \<longrightarrow>
      hint_steps env (hdr tb) (hdr (snd (HeapTupleSatisfiesVacuum env OldestXmin tb))))"
  proof (cases "vacuum_stage env tb")
    case (Inl p)
    then show ?thesis using vacuum_stage_ok [OF ok, of OldestXmin] by (cases p) (auto simp: Vacuum_stage)
  next
    case (Inr tb1)
    then have live: "inserter env (hdr tb) = Live" and step: "hint_step env (hdr tb) (hdr tb1)"
      using vacuum_stage_ok [OF ok] by auto
    have same: "same_tuple env (hdr tb) (hdr tb1)" by (rule hint_step_same_tuple [OF step])
    have ok1: "hints_ok env (hdr tb1)" by (rule hint_step_hints_ok [OF step ok])
    have live1: "inserter env (hdr tb1) = Live" and dl: "drops_locks env (hdr tb1) = drops_locks env (hdr tb)"
      using live by (simp_all only: drops_locks_def same [unfolded same_tuple_def])
    show ?thesis
      using Inr vacuum_xmax_answer [OF ok1 live1 sys] same_tuple_specs(3) [OF same]
        hint_step_step [OF step vacuum_xmax_step [OF ok1 live1 sys]] dl
      by (simp add: Vacuum_stage)
  qed
  then show "fst (HeapTupleSatisfiesVacuum env OldestXmin tb) = vacuum_spec env OldestXmin (hdr tb)"
    and "\<not> drops_locks env (hdr tb) \<Longrightarrow>
      hint_steps env (hdr tb) (hdr (snd (HeapTupleSatisfiesVacuum env OldestXmin tb)))" by blast+
qed

end
