(* ===== verification/Tqual_MVCC.thy ===== *)
theory Tqual_MVCC
  imports Tqual_Spec
begin

text \<open>
  \<open>HeapTupleSatisfiesMVCC\<close> against its specification, through the distributed and the local
  snapshot, with the ignore bits and the caches of the distributed test.
\<close>

section \<open>The snapshot test\<close>

definition verdict :: "TqEnv \<Rightarrow> SnapshotData \<Rightarrow> TransactionId \<Rightarrow> DistributedSnapshotCommitted" where
  "verdict env snapshot xid =
     distributed_verdict (distributed_log env) (ds (distribSnapshotWithLocalMapping snapshot)) xid False"

text \<open>The log and both caches of the distributed test are sound.\<close>

definition distrib_ok :: "TqEnv \<Rightarrow> SnapshotData \<Rightarrow> LocalDistribXactCache \<Rightarrow> bool" where
  "distrib_ok env snapshot ca \<longleftrightarrow> dlog_ok (distributed_log env) \<and>
     pair_cache_ok (distributed_log env) (ds (distribSnapshotWithLocalMapping snapshot)) ca \<and>
     mapping_ok (distributed_log env) (distribSnapshotWithLocalMapping snapshot)"

text \<open>An ignore bit is only set for a transaction that the distributed test ignores.\<close>

definition ignore_ok :: "TqEnv \<Rightarrow> SnapshotData \<Rightarrow> HeapTupleHeader \<Rightarrow> bool" where
  "ignore_ok env snapshot t \<longleftrightarrow>
     (t_infomask2 t AND HEAP_XMIN_DISTRIBUTED_SNAPSHOT_IGNORE \<noteq> 0 \<longrightarrow>
        verdict env snapshot (t_xmin t) = DISTRIBUTEDSNAPSHOT_COMMITTED_IGNORE) \<and>
     (t_infomask2 t AND HEAP_XMAX_DISTRIBUTED_SNAPSHOT_IGNORE \<noteq> 0 \<longrightarrow>
        verdict env snapshot (deleter env t) = DISTRIBUTEDSNAPSHOT_COMMITTED_IGNORE)"

text \<open>The snapshot is the same but for the local ids remembered in it.\<close>

definition same_snapshot :: "SnapshotData \<Rightarrow> SnapshotData \<Rightarrow> bool" where
  "same_snapshot s s' \<longleftrightarrow>
     (\<exists>m. s' = s\<lparr>distribSnapshotWithLocalMapping := m\<rparr> \<and> ds m = ds (distribSnapshotWithLocalMapping s))"

lemma same_snapshot_refl [simp, intro]: "same_snapshot s s"
  unfolding same_snapshot_def by (rule exI [of _ "distribSnapshotWithLocalMapping s"]) simp

lemma same_snapshot_trans: "same_snapshot s s' \<Longrightarrow> same_snapshot s' s'' \<Longrightarrow> same_snapshot s s''"
  by (auto simp: same_snapshot_def)

lemma Local_mapping [simp]:
  "XidInMVCCSnapshot_Local st xid (s\<lparr>distribSnapshotWithLocalMapping := m\<rparr>) = XidInMVCCSnapshot_Local st xid s"
  by (simp add: XidInMVCCSnapshot_Local_def Let_def)

lemma same_snapshot_verdict:
  assumes "same_snapshot s s'"
  shows "verdict env s' x = verdict env s x" "in_snapshot env s' x = in_snapshot env s x" "snap_curcid s' = snap_curcid s"
    "mvcc_spec env s' t = mvcc_spec env s t" "ignore_ok env s' t = ignore_ok env s t"
proof -
  obtain m where m: "s' = s\<lparr>distribSnapshotWithLocalMapping := m\<rparr>" "ds m = ds (distribSnapshotWithLocalMapping s)"
    using assms unfolding same_snapshot_def by blast
  show v: "verdict env s' x = verdict env s x" for x using m by (simp add: verdict_def)
  show i: "in_snapshot env s' x = in_snapshot env s x" for x using m by (simp add: in_snapshot_def Local_mapping)
  show c: "snap_curcid s' = snap_curcid s" using assms by (auto simp: same_snapshot_def)
  show "mvcc_spec env s' t = mvcc_spec env s t" by (simp only: mvcc_spec_def seen_unless_cmax_def i c)
  show "ignore_ok env s' t = ignore_ok env s t" by (simp only: ignore_ok_def v)
qed

lemma verdict_not_none: "verdict env s x \<noteq> DISTRIBUTEDSNAPSHOT_COMMITTED_NONE"
  by (auto simp: verdict_def distributed_verdict_def split: sum.split option.split)

lemma XidInMVCCSnapshot_spec:
  assumes ok: "distrib_ok env s ca" and ign: "ignore \<Longrightarrow> verdict env s xid = DISTRIBUTEDSNAPSHOT_COMMITTED_IGNORE"
  shows "\<exists>set_ign s' ca'. XidInMVCCSnapshot env ca xid s ignore = Inr (in_snapshot env s xid, set_ign, s', ca') \<and>
    (set_ign \<longrightarrow> verdict env s xid = DISTRIBUTEDSNAPSHOT_COMMITTED_IGNORE) \<and> same_snapshot s s' \<and> distrib_ok env s' ca'"
proof (cases "haveDistribSnapshot s \<and> \<not> ignore \<and> \<not> IS_QUERY_DISPATCHER (gp env)")
  case False
  then have "XidInMVCCSnapshot env ca xid s ignore = Inr (in_snapshot env s xid, False, s, ca)"
    using ign by (auto simp: XidInMVCCSnapshot_def in_snapshot_def Let_def verdict_def)
  with ok show ?thesis by auto
next
  case True
  let ?m = "distribSnapshotWithLocalMapping s"
  obtain m' ca' where t: "DistributedSnapshotWithLocalMapping_CommittedTest (distributed_log env) ca ?m xid False =
      Inr (verdict env s xid, m', ca')" "pair_cache_ok (distributed_log env) (ds m') ca'"
      "mapping_ok (distributed_log env) m'" "ds m' = ds ?m"
    using CommittedTest_verdict [of "distributed_log env" ?m ca xid False] ok by (auto simp: distrib_ok_def verdict_def)
  let ?s = "s\<lparr>distribSnapshotWithLocalMapping := m'\<rparr>"
  have s: "same_snapshot s ?s" using t by (auto simp: same_snapshot_def)
  have d: "distrib_ok env ?s ca'" using t ok by (simp add: distrib_ok_def)
  have "XidInMVCCSnapshot env ca xid s ignore =
      Inr (in_snapshot env s xid, verdict env s xid = DISTRIBUTEDSNAPSHOT_COMMITTED_IGNORE, ?s, ca')"
    using True t(1) verdict_not_none [of env s xid]
    by (cases "verdict env s xid") (simp_all add: XidInMVCCSnapshot_def in_snapshot_def Let_def verdict_def)
  with s d show ?thesis by blast
qed

section \<open>Tuples after a check\<close>

lemma infomask2_irrelevant [simp]:
  "inserter env (t\<lparr>t_infomask2 := m\<rparr>) = inserter env t" "deletion env (t\<lparr>t_infomask2 := m\<rparr>) = deletion env t"
  "deleter env (t\<lparr>t_infomask2 := m\<rparr>) = deleter env t"
  "lock_xids env (t\<lparr>t_infomask2 := m\<rparr>) = lock_xids env t"
  "has (t\<lparr>t_infomask2 := m\<rparr>) k = has t k"
  "HeapTupleHeaderXminFrozen (t\<lparr>t_infomask2 := m\<rparr>) = HeapTupleHeaderXminFrozen t"
  "HeapTupleHeaderGetCmin env (t\<lparr>t_infomask2 := m\<rparr>) = HeapTupleHeaderGetCmin env t"
  "HeapTupleHeaderGetCmax env (t\<lparr>t_infomask2 := m\<rparr>) = HeapTupleHeaderGetCmax env t"
proof -
  show h: "has (t\<lparr>t_infomask2 := m\<rparr>) k = has t k" for k by (simp add: has_def)
  show f: "HeapTupleHeaderXminFrozen (t\<lparr>t_infomask2 := m\<rparr>) = HeapTupleHeaderXminFrozen t"
    by (simp add: HeapTupleHeaderXminFrozen_def)
  show d: "deleter env (t\<lparr>t_infomask2 := m\<rparr>) = deleter env t"
    by (simp add: deleter_def HeapTupleGetUpdateXid_def raw_defs h)
  show "inserter env (t\<lparr>t_infomask2 := m\<rparr>) = inserter env t"
    by (simp add: inserter_def h f HeapTupleHeaderGetXvac_def)
  show "deletion env (t\<lparr>t_infomask2 := m\<rparr>) = deletion env t" by (simp add: deletion_def h d)
  show "lock_xids env (t\<lparr>t_infomask2 := m\<rparr>) = lock_xids env t" by (simp add: lock_xids_def h)
  show "HeapTupleHeaderGetCmin env (t\<lparr>t_infomask2 := m\<rparr>) = HeapTupleHeaderGetCmin env t"
    "HeapTupleHeaderGetCmax env (t\<lparr>t_infomask2 := m\<rparr>) = HeapTupleHeaderGetCmax env t"
    by (simp_all add: HeapTupleHeaderGetCmin_def HeapTupleHeaderGetCmax_def HeapTupleHeaderGetXmin_def raw_defs h f Let_def)
qed

lemma same_tuple_infomask2: "same_tuple env t (t\<lparr>t_infomask2 := m\<rparr>)"
  by (simp add: same_tuple_def remotely_locked_def locked_with_us_def)

lemma hints_ok_infomask2 [simp]: "hints_ok env (t\<lparr>t_infomask2 := m\<rparr>) = hints_ok env t"
  by (simp add: hints_ok_def remotely_locked_def locked_with_us_def)

text \<open>The state a check leaves: the same tuple and snapshot, and everything still sound.\<close>

definition mvcc_ok :: "TqEnv \<Rightarrow> HeapTupleHeader \<Rightarrow> SnapshotData \<Rightarrow> LocalDistribXactCache \<Rightarrow> bool" where
  "mvcc_ok env t s ca \<longleftrightarrow> hints_ok env t \<and> distrib_ok env s ca \<and> ignore_ok env s t"

definition mvcc_returns ::
  "TqEnv \<Rightarrow> HeapTupleHeader \<Rightarrow> SnapshotData \<Rightarrow> TqError + bool \<Rightarrow> mvcc_result \<Rightarrow> bool" where
  "mvcc_returns env t s spec r \<longleftrightarrow> answer r = spec \<and>
     (\<forall>b tb' s' ca'. r = Inr (b, tb', s', ca') \<longrightarrow>
        same_tuple env t (hdr tb') \<and> same_snapshot s s' \<and> mvcc_ok env (hdr tb') s' ca')"

lemma same_tuple_refl [simp]: "same_tuple env t t"
  by (simp add: same_tuple_def)

lemma hint_step_infomask2: "hint_step env t t' \<Longrightarrow> t_infomask2 t' = t_infomask2 t"
  by (induction rule: hint_step.induct) simp_all

lemma hint_step_mvcc_ok: "hint_step env t t' \<Longrightarrow> mvcc_ok env t s ca \<Longrightarrow> mvcc_ok env t' s ca"
  using hint_step_same_tuple [of env t t'] hint_step_infomask2 [of env t t'] hint_step_hints_ok [of env t t']
  by (simp add: mvcc_ok_def ignore_ok_def same_tuple_def)

lemma mvcc_returns_before:
  assumes "same_tuple env t t1" "same_snapshot s s1" "mvcc_returns env t1 s1 spec r"
  shows "mvcc_returns env t s spec r"
  using assms same_tuple_trans [OF assms(1)] same_snapshot_trans [OF assms(2)] unfolding mvcc_returns_def by blast

lemma mvcc_returns_Inr:
  "mvcc_returns env t s (Inr b) (Inr (b, tb', s', ca')) \<longleftrightarrow>
     same_tuple env t (hdr tb') \<and> same_snapshot s s' \<and> mvcc_ok env (hdr tb') s' ca'"
  by (simp add: mvcc_returns_def)

lemma mvcc_returns_cmax:
  "mvcc_ok env (hdr tb) s ca \<Longrightarrow>
   mvcc_returns env (hdr tb) s (seen_unless_cmax env s (hdr tb))
     (with_snapshot s ca (by_cmax env tb (snap_curcid s) True False))"
  by (cases "HeapTupleHeaderGetCmax env (hdr tb)")
    (simp_all add: mvcc_returns_def seen_unless_cmax_def with_snapshot_def by_cmax_def)

section \<open>The parts of the check\<close>

lemma ignore_ok_set:
  assumes "ignore_ok env s t"
  shows "verdict env s (t_xmin t) = DISTRIBUTEDSNAPSHOT_COMMITTED_IGNORE \<Longrightarrow>
      ignore_ok env s (t\<lparr>t_infomask2 := t_infomask2 t OR HEAP_XMIN_DISTRIBUTED_SNAPSHOT_IGNORE\<rparr>)"
    and "verdict env s (deleter env t) = DISTRIBUTEDSNAPSHOT_COMMITTED_IGNORE \<Longrightarrow>
      ignore_ok env s (t\<lparr>t_infomask2 := t_infomask2 t OR HEAP_XMAX_DISTRIBUTED_SNAPSHOT_IGNORE\<rparr>)"
proof -
  have "HEAP_XMIN_DISTRIBUTED_SNAPSHOT_IGNORE AND HEAP_XMAX_DISTRIBUTED_SNAPSHOT_IGNORE = 0"
    "HEAP_XMAX_DISTRIBUTED_SNAPSHOT_IGNORE AND HEAP_XMIN_DISTRIBUTED_SNAPSHOT_IGNORE = 0"
    by (simp_all add: HEAP_XMIN_DISTRIBUTED_SNAPSHOT_IGNORE_def HEAP_XMAX_DISTRIBUTED_SNAPSHOT_IGNORE_def)
  then show "verdict env s (t_xmin t) = DISTRIBUTEDSNAPSHOT_COMMITTED_IGNORE \<Longrightarrow>
      ignore_ok env s (t\<lparr>t_infomask2 := t_infomask2 t OR HEAP_XMIN_DISTRIBUTED_SNAPSHOT_IGNORE\<rparr>)"
    "verdict env s (deleter env t) = DISTRIBUTEDSNAPSHOT_COMMITTED_IGNORE \<Longrightarrow>
      ignore_ok env s (t\<lparr>t_infomask2 := t_infomask2 t OR HEAP_XMAX_DISTRIBUTED_SNAPSHOT_IGNORE\<rparr>)"
    using assms by (simp_all add: ignore_ok_def bit.conj_disj_distrib2)
qed

lemma snapshot_check_returns:
  assumes ok: "mvcc_ok env (hdr tb) s ca"
    and xid: "xid = (if isXmin then t_xmin (hdr tb) else deleter env (hdr tb))"
  shows "mvcc_returns env (hdr tb) s (Inr (in_snapshot env s xid)) (snapshot_check env isXmin xid tb s ca)"
proof -
  let ?m = "if isXmin then HEAP_XMIN_DISTRIBUTED_SNAPSHOT_IGNORE else HEAP_XMAX_DISTRIBUTED_SNAPSHOT_IGNORE"
  let ?ign = "t_infomask2 (hdr tb) AND ?m \<noteq> 0"
  have "?ign \<Longrightarrow> verdict env s xid = DISTRIBUTEDSNAPSHOT_COMMITTED_IGNORE"
    using ok xid by (auto simp: mvcc_ok_def ignore_ok_def split: if_splits)
  then obtain si s' ca' where x: "XidInMVCCSnapshot env ca xid s ?ign = Inr (in_snapshot env s xid, si, s', ca')"
    "si \<longrightarrow> verdict env s xid = DISTRIBUTEDSNAPSHOT_COMMITTED_IGNORE" "same_snapshot s s'" "distrib_ok env s' ca'"
    using XidInMVCCSnapshot_spec [of env s ca ?ign xid] ok unfolding mvcc_ok_def by blast
  let ?t = "(hdr tb)\<lparr>t_infomask2 := t_infomask2 (hdr tb) OR ?m\<rparr>"
  have h: "hdr (if si then set_ignore env tb ?m isXmin else tb) = (if si then ?t else hdr tb)"
    by (simp add: set_ignore_def)
  have "si \<Longrightarrow> ignore_ok env s ?t"
    using ignore_ok_set [of env s "hdr tb"] ok x(2) xid by (cases isXmin) (simp_all add: mvcc_ok_def)
  then have "mvcc_ok env (if si then ?t else hdr tb) s' ca'"
    using ok x(4) same_snapshot_verdict(5) [OF x(3)] by (simp add: mvcc_ok_def)
  moreover have "same_tuple env (hdr tb) (if si then ?t else hdr tb)" by (simp add: same_tuple_infomask2)
  ultimately show ?thesis using x(1,3) h by (simp add: snapshot_check_def Let_def mvcc_returns_Inr)
qed

lemma mvcc_own_returns:
  assumes ok: "mvcc_ok env (hdr tb) s ca" and own: "inserter env (hdr tb) = Mine_ins"
  shows "mvcc_returns env (hdr tb) s (mvcc_spec env s (hdr tb)) (with_snapshot s ca (mvcc_own env tb s))"
proof (cases "HeapTupleHeaderGetCmin env (hdr tb)")
  case (Inl e)
  then show ?thesis by (simp add: mvcc_returns_def mvcc_spec_def own mvcc_own_def with_snapshot_def)
next
  case (Inr cmin)
  let ?t = "hdr tb"
  have hok: "hints_ok env ?t" using ok by (simp add: mvcc_ok_def)
  have spec: "mvcc_spec env s ?t = (if cmin \<ge> snap_curcid s then Inr False
      else if deletion env ?t = Some Mine then seen_unless_cmax env s ?t else Inr True)"
    using Inr by (simp add: mvcc_spec_def own)
  have self: "hint_step env ?t (hdr (snd (self_own env tb)))" by (rule self_own_spec(2) [OF hok own])
  have still: "mvcc_returns env ?t s (Inr b) (Inr (b, tb, s, ca))" for b using ok by (simp add: mvcc_returns_Inr)
  show ?thesis
  proof (cases "cmin \<ge> snap_curcid s \<or> deletion env ?t \<noteq> Some Mine")
    case True
    have "with_snapshot s ca (mvcc_own env tb s) = Inr (\<not> cmin \<ge> snap_curcid s, tb, s, ca) \<or>
        \<not> cmin \<ge> snap_curcid s \<and> with_snapshot s ca (mvcc_own env tb s) = Inr (True, snd (self_own env tb), s, ca)"
      using True Inr deleter_single [of ?t env] deletion_fate [of ?t env]
      by (cases "current env (deleter env ?t)")
        (auto simp: mvcc_own_def with_snapshot_def self_own_def Let_def raw_defs deleter_multi)
    then show ?thesis using spec True still ok self hint_step_mvcc_ok [OF self] hint_step_same_tuple [OF self]
      by (auto simp: mvcc_returns_Inr)
  next
    case False
    then have "\<not> has ?t HEAP_XMAX_INVALID" "\<not> HEAP_XMAX_IS_LOCKED_ONLY (t_infomask ?t)" "current env (deleter env ?t)"
      by (auto simp: deletion_def xs.fate_of_def split: if_splits)
    then have "mvcc_own env tb s = by_cmax env tb (snap_curcid s) True False"
      using False Inr deleter_single [of ?t env] by (simp add: mvcc_own_def Let_def raw_defs deleter_multi)
    with False spec mvcc_returns_cmax [OF ok] show ?thesis by simp
  qed
qed

lemma mvcc_xmax_returns:
  assumes ok: "mvcc_ok env (hdr tb) s ca"
  shows "mvcc_returns env (hdr tb) s
    (case deletion env (hdr tb) of
       Some Mine \<Rightarrow> seen_unless_cmax env s (hdr tb) | Some Committed \<Rightarrow> Inr (in_snapshot env s (deleter env (hdr tb)))
     | _ \<Rightarrow> Inr True) (mvcc_xmax env tb s ca)"
proof -
  let ?t = "hdr tb"
  have hok: "hints_ok env ?t" using ok by (simp add: mvcc_ok_def)
  have still: "mvcc_returns env ?t s (Inr b) (Inr (b, tb, s, ca))" for b using ok by (simp add: mvcc_returns_Inr)
  note cmax = mvcc_returns_cmax [OF ok]
  note chk = snapshot_check_returns [OF ok, of "deleter env ?t" False, simplified]
  have step: "mvcc_ok env t' s ca \<and> same_tuple env ?t t'" if "hint_step env ?t t'" for t'
    using hint_step_mvcc_ok [OF that ok] hint_step_same_tuple [OF that] by blast
  consider "has ?t HEAP_XMAX_INVALID \<or> HEAP_XMAX_IS_LOCKED_ONLY (t_infomask ?t)"
    | "\<not> has ?t HEAP_XMAX_INVALID" "\<not> HEAP_XMAX_IS_LOCKED_ONLY (t_infomask ?t)" "has ?t HEAP_XMAX_IS_MULTI"
    | "\<not> has ?t HEAP_XMAX_INVALID" "\<not> HEAP_XMAX_IS_LOCKED_ONLY (t_infomask ?t)" "\<not> has ?t HEAP_XMAX_IS_MULTI" by blast
  then show ?thesis
  proof cases
    case 1
    then show ?thesis using still by (auto simp: mvcc_xmax_def Let_def deletion_none)
  next
    case 2
    then show ?thesis using still cmax chk by (simp add: mvcc_xmax_def Let_def deletion_fate deleter_multi)
  next
    case 3
    note single = deleter_single [OF 3(3), of env]
    show ?thesis
    proof (cases "has ?t HEAP_XMAX_COMMITTED")
      case True
      then show ?thesis using 3 chk hints_deleter [OF hok] by (simp add: mvcc_xmax_def Let_def deletion_fate raw_defs single)
    next
      case nc: False
      let ?x = "deleter env ?t" and ?c = "SetHintBits env tb HEAP_XMAX_COMMITTED (deleter env (hdr tb))"
      show ?thesis
      proof (cases "current env ?x \<or> in_progress env ?x \<or> \<not> did_commit env ?x")
        case True
        have "mvcc_returns env ?t s (Inr True) (Inr (True, SetHintBits env tb HEAP_XMAX_INVALID InvalidTransactionId, s, ca))"
          if "\<not> current env ?x" "\<not> in_progress env ?x" "\<not> did_commit env ?x"
          using step [OF SetHintBits_xmax(2)] locks_single [OF 3(1,3)] 3 that by (simp add: mvcc_returns_Inr deletion_fate)
        with True 3 nc still cmax show ?thesis
          by (auto simp: mvcc_xmax_def Let_def deletion_fate raw_defs single)
      next
        case False
        then have del: "deletion env ?t = Some Committed" using 3 by (simp add: deletion_fate)
        note st = step [OF SetHintBits_xmax(1) [OF del, of ?x]]
        have "deleter env (hdr ?c) = ?x" using st by (simp only: same_tuple_def)
        then have "mvcc_returns env ?t s (Inr (in_snapshot env s ?x)) (snapshot_check env False ?x ?c s ca)"
          using snapshot_check_returns [of env ?c s ca ?x False] st by (auto intro: mvcc_returns_before)
        with False 3 nc del show ?thesis by (simp add: mvcc_xmax_def Let_def raw_defs single)
      qed
    qed
  qed
qed

lemma mvcc_committed_returns:
  assumes ok: "mvcc_ok env (hdr tb) s ca" and ins: "inserted (inserter env (hdr tb))"
  shows "mvcc_returns env (hdr tb) s (mvcc_spec env s (hdr tb)) (mvcc_committed env tb s ca)"
proof -
  let ?t = "hdr tb"
  let ?rest = "\<lambda>s t. case deletion env t of
       Some Mine \<Rightarrow> seen_unless_cmax env s t | Some Committed \<Rightarrow> Inr (in_snapshot env s (deleter env t)) | _ \<Rightarrow> Inr True"
  have spec: "mvcc_spec env s ?t =
      (if HeapTupleHeaderXminFrozen ?t \<or> \<not> in_snapshot env s (t_xmin ?t) then ?rest s ?t else Inr False)"
    using ins by (auto simp: mvcc_spec_def inserted_def)
  show ?thesis
  proof (cases "HeapTupleHeaderXminFrozen ?t")
    case True
    then show ?thesis using spec mvcc_xmax_returns [OF ok] by (simp add: mvcc_committed_def)
  next
    case False
    have c: "mvcc_returns env ?t s (Inr (in_snapshot env s (t_xmin ?t))) (snapshot_check env True (t_xmin ?t) tb s ca)"
      by (rule snapshot_check_returns [OF ok]) simp
    then obtain tb1 s1 ca1 where
      c1: "snapshot_check env True (t_xmin ?t) tb s ca = Inr (in_snapshot env s (t_xmin ?t), tb1, s1, ca1)"
      by (cases "snapshot_check env True (t_xmin ?t) tb s ca") (auto simp: mvcc_returns_def)
    with c have st: "same_tuple env ?t (hdr tb1)" and ss: "same_snapshot s s1" and ok1: "mvcc_ok env (hdr tb1) s1 ca1"
      by (auto simp: mvcc_returns_def)
    have rest: "?rest s1 (hdr tb1) = ?rest s ?t"
      by (simp only: st [unfolded same_tuple_def] seen_unless_cmax_def same_snapshot_verdict(2,3) [OF ss])
    have "mvcc_returns env ?t s (?rest s ?t) (mvcc_xmax env tb1 s1 ca1)"
      using mvcc_returns_before [OF st ss mvcc_xmax_returns [OF ok1]] unfolding rest .
    then show ?thesis
      using False spec c1 st ss ok1 by (simp add: mvcc_committed_def HeapTupleHeaderGetRawXmin_def mvcc_returns_Inr)
  qed
qed

lemma MVCC_returns:
  assumes ok: "mvcc_ok env (hdr tb) s ca"
  shows "mvcc_returns env (hdr tb) s (mvcc_spec env s (hdr tb)) (HeapTupleSatisfiesMVCC env tb s ca)"
proof -
  have hok: "hints_ok env (hdr tb)" using ok by (simp add: mvcc_ok_def)
  have st: "stage_ok env (hdr tb) (xmin_stage env tb)" by (rule xmin_stage_ok [OF hok])
  show ?thesis
  proof (cases "xmin_stage env tb")
    case (Goes_on tb1)
    then have step: "hint_step env (hdr tb) (hdr tb1)" and ins: "inserted (inserter env (hdr tb))"
      using st by (simp_all add: stage_ok_def)
    have same: "same_tuple env (hdr tb) (hdr tb1)" by (rule hint_step_same_tuple [OF step])
    have ok1: "mvcc_ok env (hdr tb1) s ca" by (rule hint_step_mvcc_ok [OF step ok])
    have "inserted (inserter env (hdr tb1))" using ins by (simp only: same [unfolded same_tuple_def])
    from mvcc_returns_before [OF same same_snapshot_refl mvcc_committed_returns [OF ok1 this]]
    show ?thesis using Goes_on by (simp add: MVCC_stage same_tuple_specs(4) [OF same])
  next
    case Own
    with st mvcc_own_returns [OF ok] show ?thesis by (simp add: MVCC_stage stage_ok_def)
  next
    case (Invisible tb1)
    then have ins: "inserter env (hdr tb) \<in> {Dead, MovedOff True, MovedIn False}" and step: "hint_step env (hdr tb) (hdr tb1)"
      using st by (simp_all add: stage_ok_def)
    have "mvcc_spec env s (hdr tb) = Inr False" using ins by (auto simp: mvcc_spec_def inserted_def)
    with Invisible hint_step_mvcc_ok [OF step ok] hint_step_same_tuple [OF step] show ?thesis
      by (simp add: MVCC_stage mvcc_returns_Inr)
  next
    case Other
    then have "mvcc_spec env s (hdr tb) = Inr False" using st by (simp add: mvcc_spec_def inserted_def stage_ok_def)
    with Other ok show ?thesis by (simp add: MVCC_stage mvcc_returns_Inr)
  qed
qed

end
