(* ===== verification/Visibility.thy ===== *)
theory Visibility
  imports Tqual_MVCC
begin

text \<open>
  The properties of the visibility rules, and the life of a tuple's hint bits while checks and
  ends of transactions alternate.
\<close>

section \<open>One check\<close>

text \<open>A check leaves a tuple that every rule judges as before, with sound hint bits.\<close>

definition kept :: "TqEnv \<Rightarrow> HeapTupleHeader \<Rightarrow> HeapTupleHeader \<Rightarrow> bool" where
  "kept env t t' \<longleftrightarrow> hints_ok env t' \<and> same_tuple env t t'"

lemma hint_steps_kept: "hint_steps env t t' \<Longrightarrow> hints_ok env t \<Longrightarrow> kept env t t'"
  using hint_steps_ok by (auto simp: kept_def)

definition dirty_spec :: "TqEnv \<Rightarrow> HeapTupleHeader \<Rightarrow> bool \<times> TransactionId \<times> TransactionId" where
  "dirty_spec env t =
     (self_visible env t \<or> inserter env t = Running_ins,
      if inserter env t = Running_ins then t_xmin t else InvalidTransactionId,
      if inserted (inserter env t) \<and> deletion env t = Some Running then deleter env t else InvalidTransactionId)"

lemma Dirty_answer:
  assumes ok: "hints_ok env (hdr tb)" and r: "HeapTupleSatisfiesDirty env tb s = (b, tb', s')"
  shows "(b, snap_xmin s', snap_xmax s') = dirty_spec env (hdr tb)" "hint_steps env (hdr tb) (hdr tb')"
proof -
  have st: "stage_ok env (hdr tb) (xmin_stage env tb)" by (rule xmin_stage_ok [OF ok])
  have "(b, snap_xmin s', snap_xmax s') = dirty_spec env (hdr tb) \<and> hint_steps env (hdr tb) (hdr tb')"
  proof (cases "xmin_stage env tb")
    case (Goes_on tb1)
    then have step: "hint_step env (hdr tb) (hdr tb1)" and ins: "inserted (inserter env (hdr tb))"
      using st by (simp_all add: stage_ok_def)
    have ok1: "hints_ok env (hdr tb1)" by (rule hint_step_hints_ok [OF step ok])
    have same: "deletion env (hdr tb1) = deletion env (hdr tb)" "deleter env (hdr tb1) = deleter env (hdr tb)"
      using hint_step_same_tuple [OF step] by (simp_all add: same_tuple_def)
    have "tb' = snd (self_xmax env tb1)" "b = fst (self_xmax env tb1)"
      "(snap_xmin s', snap_xmax s') = (InvalidTransactionId,
         if deletion env (hdr tb) = Some Running then deleter env (hdr tb) else InvalidTransactionId)"
      using r Goes_on same by (auto simp: Dirty_stage Let_def dirty_self_xmax [OF ok1])
    then show ?thesis using self_xmax_spec [OF ok1] same hint_step_step [OF step] ins
      by (auto simp: dirty_spec_def self_visible_def inserted_def)
  next
    case Own
    with st have own: "inserter env (hdr tb) = Mine_ins" by (simp add: stage_ok_def)
    show ?thesis using Own r own self_own_spec [OF ok own]
      by (auto simp: Dirty_stage Let_def case_prod_unfold dirty_spec_def self_visible_def inserted_def)
  qed (use st r in \<open>auto simp: Dirty_stage Let_def dirty_spec_def self_visible_def stage_ok_def inserted_def\<close>)
  then show "(b, snap_xmin s', snap_xmax s') = dirty_spec env (hdr tb)" "hint_steps env (hdr tb) (hdr tb')" by blast+
qed

section \<open>Checks and ends of transactions\<close>










section \<open>Vacuum and the locks of a multixact\<close>

lemma set_xmax_invalid:
  assumes ok: "hints_ok env t" and live: "inserter env t = Live"
  defines "t' \<equiv> t\<lparr>t_infomask := t_infomask t OR HEAP_XMAX_INVALID\<rparr>"
  shows "hints_ok env t'" "inserter env t' = Live" "deletion env t' = None"
    "\<not> remotely_locked env t'" "\<not> locked_with_us env t'"
proof -
  have fr: "HeapTupleHeaderXminFrozen t' = HeapTupleHeaderXminFrozen t" by (simp add: t'_def xmin_bits)
  show ins: "inserter env t' = Live" using inserter_OR [OF _ fr [unfolded t'_def], of env] live by (simp add: t'_def)
  have inv: "has t' HEAP_XMAX_INVALID" by (simp add: t'_def)
  then show "deletion env t' = None" "\<not> remotely_locked env t'" "\<not> locked_with_us env t'"
    using locks_invalid [OF inv] by (auto simp: deletion_none)
  have c: "has t' HEAP_XMIN_COMMITTED = has t HEAP_XMIN_COMMITTED" "has t' HEAP_XMIN_INVALID = has t HEAP_XMIN_INVALID"
    by (simp_all add: t'_def)
  show "hints_ok env t'" using hints_xmin [OF ok] live ins inv c unfolding hints_ok_def by auto
qed

lemma Vacuum_drops:
  fixes OldestXmin :: TransactionId
  assumes ok: "hints_ok env (hdr tb)" and sys: "sys_ok (sys env)" and d: "drops_locks env (hdr tb)"
  defines "t' \<equiv> hdr (snd (HeapTupleSatisfiesVacuum env OldestXmin tb))"
  shows "hints_ok env t'" "inserter env t' = Live" "deletion env t' = None"
    "\<not> remotely_locked env t'" "\<not> locked_with_us env t'"
proof -
  have live: "inserter env (hdr tb) = Live" using d by (simp add: drops_locks_def)
  have "\<exists>tb1. vacuum_stage env tb = Inr tb1"
    using live vacuum_stage_ok [OF ok, of OldestXmin] by (cases "vacuum_stage env tb") auto
  then obtain tb1 where tb1: "vacuum_stage env tb = Inr tb1" by blast
  then have step: "hint_step env (hdr tb) (hdr tb1)" using vacuum_stage_ok [OF ok] by auto
  have same: "same_tuple env (hdr tb) (hdr tb1)" by (rule hint_step_same_tuple [OF step])
  have ok1: "hints_ok env (hdr tb1)" by (rule hint_step_hints_ok [OF step ok])
  have live1: "inserter env (hdr tb1) = Live" using live by (simp only: same [unfolded same_tuple_def])
  have "drops_locks env (hdr tb1) = drops_locks env (hdr tb)"
    by (simp only: drops_locks_def same [unfolded same_tuple_def])
  with d have d1: "drops_locks env (hdr tb1)" by simp
  let ?t = "hdr tb1"
  have m: "has ?t HEAP_XMAX_IS_MULTI" "\<not> HEAP_XMAX_IS_LOCKED_ONLY (t_infomask ?t)" "deletion env ?t = None"
    "\<not> has ?t HEAP_XMAX_INVALID"
    using d1 locks_invalid [of ?t env] by (auto simp: drops_locks_def)
  then have x: "\<not> current env (deleter env ?t)" "\<not> in_progress env (deleter env ?t)" "\<not> did_commit env (deleter env ?t)"
    using deletion_fate [of ?t env] by (auto split: if_splits)
  have "t' = ?t\<lparr>t_infomask := t_infomask ?t OR HEAP_XMAX_INVALID\<rparr>"
    using tb1 m x by (simp add: t'_def Vacuum_stage vacuum_xmax_def Let_def deleter_multi SetHintBits_no_xid or.assoc)
  then show "hints_ok env t'" "inserter env t' = Live" "deletion env t' = None"
    "\<not> remotely_locked env t'" "\<not> locked_with_us env t'"
    using set_xmax_invalid [OF ok1 live1] by simp_all
qed

section \<open>The life of a tuple\<close>





section \<open>Snapshot isolation\<close>





section \<open>Dead for everybody\<close>

lemma below_snapshot:
  assumes w: "in_window b OldestXmin" "in_window b y" "TransactionIdIsNormal x \<longrightarrow> in_window b x"
    and le: "\<not> TransactionIdPrecedes y OldestXmin" and x: "TransactionIdPrecedes x OldestXmin"
  shows "TransactionIdPrecedes x y"
proof (cases "TransactionIdIsNormal x")
  case True
  with w le x show ?thesis by (simp add: window_order [of b])
next
  case False
  then show ?thesis using w not_normal_precedes by (simp add: in_window_def)
qed

lemma not_in_snapshot:
  assumes d: "distrib_ok env s ca" and s: "TransactionIdPrecedes x (snap_xmin s)"
    and l: "TransactionIdPrecedes x (oldestXmin (distributed_log env))"
  shows "\<not> in_snapshot env s x"
proof -
  have "DistributedLog_CommittedCheck (distributed_log env) x = Inr None"
    using d l by (simp add: DistributedLog_CommittedCheck_def distrib_ok_def dlog_ok_def)
  then show ?thesis using s by (simp add: in_snapshot_def distributed_verdict_def XidInMVCCSnapshot_Local_def Let_def)
qed

lemma vacuum_dead_mvcc:
  assumes dead: "vacuum_spec env OldestXmin t = HEAPTUPLE_DEAD" and d: "distrib_ok env s ca"
    and w: "in_window b OldestXmin" "in_window b (snap_xmin s)" "in_window b (oldestXmin (distributed_log env))"
      "TransactionIdIsNormal (deleter env t) \<longrightarrow> in_window b (deleter env t)"
    and le: "\<not> TransactionIdPrecedes (snap_xmin s) OldestXmin"
      "\<not> TransactionIdPrecedes (oldestXmin (distributed_log env)) OldestXmin"
  shows "mvcc_spec env s t = Inr False"
proof (cases "inserter env t = Dead")
  case True
  then show ?thesis by (simp add: mvcc_spec_def inserted_def)
next
  case False
  then have "inserter env t = Live" "deletion env t = Some Committed" "TransactionIdPrecedes (deleter env t) OldestXmin"
    using dead by (auto simp: vacuum_spec_def split: insertion.splits option.splits fate.splits if_splits)
  moreover from this have "\<not> in_snapshot env s (deleter env t)"
    using not_in_snapshot [OF d] below_snapshot [OF w(1,2,4) le(1)] below_snapshot [OF w(1,3,4) le(2)] by blast
  ultimately show ?thesis by (simp add: mvcc_spec_def inserted_def)
qed

section \<open>Binary search\<close>

lemma ex_below:
  assumes "\<And>i. mid \<le> i \<Longrightarrow> i < hi \<Longrightarrow> \<not> P i" "mid \<le> (hi :: nat)"
  shows "(\<exists>i. lo \<le> i \<and> i < mid \<and> P i) \<longleftrightarrow> (\<exists>i. lo \<le> i \<and> i < hi \<and> P i)"
proof
  assume "\<exists>i. lo \<le> i \<and> i < mid \<and> P i"
  then show "\<exists>i. lo \<le> i \<and> i < hi \<and> P i" using assms(2) less_le_trans by blast
next
  assume "\<exists>i. lo \<le> i \<and> i < hi \<and> P i"
  then obtain i where i: "lo \<le> i" "i < hi" "P i" by blast
  then have "i < mid" using assms(1) [of i] by (cases "i < mid") auto
  with i show "\<exists>i. lo \<le> i \<and> i < mid \<and> P i" by blast
qed

lemma ex_above:
  assumes "\<And>i. lo \<le> i \<Longrightarrow> i < mid \<Longrightarrow> \<not> P i" "lo \<le> (mid :: nat)"
  shows "(\<exists>i. mid \<le> i \<and> i < hi \<and> P i) \<longleftrightarrow> (\<exists>i. lo \<le> i \<and> i < hi \<and> P i)"
proof
  assume "\<exists>i. mid \<le> i \<and> i < hi \<and> P i"
  then show "\<exists>i. lo \<le> i \<and> i < hi \<and> P i" using assms(2) le_trans by blast
next
  assume "\<exists>i. lo \<le> i \<and> i < hi \<and> P i"
  then obtain i where i: "lo \<le> i" "i < hi" "P i" by blast
  then have "mid \<le> i" using assms(1) [of i] by (cases "i < mid") auto
  with i show "\<exists>i. mid \<le> i \<and> i < hi \<and> P i" by blast
qed

lemma bsearch_iff:
  assumes "sorted xs" "hi \<le> length xs"
  shows "bsearch_xid x xs lo hi \<noteq> None \<longleftrightarrow> (\<exists>i. lo \<le> i \<and> i < hi \<and> xs ! i = x)"
  using assms
proof (induction x xs lo hi rule: bsearch_xid.induct)
  case (1 xid xs lo hi)
  let ?mid = "(lo + hi) div 2"
  have mono: "i \<le> j \<Longrightarrow> j < length xs \<Longrightarrow> xs ! i \<le> xs ! j" for i j
    using "1.prems"(1) by (rule sorted_nth_mono)
  show ?case
  proof (cases "lo < hi")
    case False
    then show ?thesis by (subst bsearch_xid.simps) auto
  next
    case True
    then have m: "lo \<le> ?mid" "?mid < hi" by auto
    consider "xid < xs ! ?mid" | "xid > xs ! ?mid" | "xid = xs ! ?mid" by fastforce
    then show ?thesis
    proof cases
      case 1
      have "\<not> xs ! i = xid" if "?mid \<le> i" "i < hi" for i
        using mono [of ?mid i] that 1 "1.prems"(2) by auto
      then have "(\<exists>i. lo \<le> i \<and> i < ?mid \<and> xs ! i = xid) \<longleftrightarrow> (\<exists>i. lo \<le> i \<and> i < hi \<and> xs ! i = xid)"
        using m by (intro ex_below) auto
      then show ?thesis using True 1 "1.IH"(1) [OF True refl 1] "1.prems" m
        by (subst bsearch_xid.simps) (simp add: Let_def)
    next
      case 2
      have "\<not> xs ! i = xid" if "lo \<le> i" "i < Suc ?mid" for i
        using mono [of i ?mid] that 2 "1.prems"(2) m by auto
      then have "(\<exists>i. Suc ?mid \<le> i \<and> i < hi \<and> xs ! i = xid) \<longleftrightarrow> (\<exists>i. lo \<le> i \<and> i < hi \<and> xs ! i = xid)"
        using m by (intro ex_above) auto
      moreover have ge: "\<not> xid < xs ! ?mid" using 2 by simp
      ultimately show ?thesis using True 2 "1.IH"(2) [OF True refl ge 2] "1.prems" m
        by (subst bsearch_xid.simps) (simp add: Let_def)
    next
      case 3
      then show ?thesis using True m by (subst bsearch_xid.simps) (auto simp: Let_def)
    qed
  qed
qed

section \<open>An example environment\<close>

definition example_env :: TqEnv where
  "example_env =
     \<lparr>sys = example_sys,
      multi_members = (\<lambda>m. if m = 7 then [\<lparr>mx_xid = 200, mx_status = MultiXactStatusForShare\<rparr>,
        \<lparr>mx_xid = 60, mx_status = MultiXactStatusUpdate\<rparr>] else []),
      gp = \<lparr>Gp_role = GP_ROLE_EXECUTE, Gp_is_writer = True, segindex = 0, gp_session_id = 11, MyProc_pid = 4711\<rparr>,
      combo = \<lparr>comboHash = None, comboCids = [], sizeComboCids = 0, readerComboHash = Map.empty,
        combocid_map = None, lockHolderProcPtr = None\<rparr>,
      combo_shared = \<lparr>combo_files = Map.empty, combocid_map_count = (\<lambda>pid. 0)\<rparr>,
      nextXid = 301, NBuffers = 4096,
      xlog_ctl = \<lparr>InRecovery = False, updateMinRecoveryPoint = False, minRecoveryPoint = 0,
        ControlFileLock_free = True, ControlFile_minRecoveryPoint = 0, LogwrtResult_Flush = 0,
        XLogCtl_LogwrtResult_Flush = 0\<rparr>,
      gp_disable_tuple_hints = False, rel_oid = 20000, rel_namespace = 2200, buffer_permanent = True,
      distributed_log = example_dlog\<rparr>"

definition example_tuple :: "TransactionId \<Rightarrow> TransactionId \<Rightarrow> uint16 \<Rightarrow> TupleBuf" where
  "example_tuple x y m =
     \<lparr>hdr = \<lparr>t_xmin = x, t_xmax = y, t_field3 = 1, t_infomask = m, t_infomask2 = 0\<rparr>, dirty_hint = False\<rparr>"

definition example_snapshot :: SnapshotData where
  "example_snapshot =
     \<lparr>snap_xmin = 200, snap_xmax = 301, xip = [200], subxip = [201], suboverflowed = False,
      takenDuringRecovery = False, haveDistribSnapshot = True, snap_curcid = 5,
      distribSnapshotWithLocalMapping = example_dslm\<rparr>"

definition example_cache :: LocalDistribXactCache where
  "example_cache = \<lparr>lru = [], gp_max_local_distributed_cache = 1\<rparr>"

lemma example_env_sys: "sys_ok (sys example_env)"
  using example_sys_ok by (simp add: example_env_def)

lemma example_fates:
  "fate example_env 100 = Mine" "fate example_env 200 = Running" "fate example_env 50 = Committed"
  "fate example_env 60 = Aborted"
proof -
  have s: "sys example_env = example_sys" by (simp add: example_env_def)
  have c: "TransactionIdIsInProgress example_sys 200" "\<not> TransactionIdIsInProgress example_sys 50"
    "\<not> TransactionIdIsInProgress example_sys 60" "DidCommit example_sys 50" "\<not> DidCommit example_sys 60"
    by code_simp+
  show "fate example_env 100 = Mine" "fate example_env 200 = Running" "fate example_env 50 = Committed"
    "fate example_env 60 = Aborted"
    unfolding s xs.fate_of_def example_current using c by simp_all
qed

lemma example_distrib_ok: "distrib_ok example_env example_snapshot example_cache"
  by (simp add: distrib_ok_def example_env_def example_snapshot_def example_cache_def dlog_ok_def mapping_ok_def
      pair_cache_ok_def example_dlog_def example_dslm_def xid_defs)

text \<open>Tuples without hint bits, inserted by 50 or 60.\<close>

lemma example_bits:
  "m \<in> {0, HEAP_XMAX_IS_MULTI} \<Longrightarrow> k \<in> hint_masks \<union> {HEAP_MOVED_OFF, HEAP_MOVED_IN} \<Longrightarrow>
     \<not> has (hdr (example_tuple x y m)) k"
  "m \<in> {0, HEAP_XMAX_IS_MULTI} \<Longrightarrow> has (hdr (example_tuple x y m)) HEAP_XMAX_IS_MULTI \<longleftrightarrow> m = HEAP_XMAX_IS_MULTI"
  "m \<in> {0, HEAP_XMAX_IS_MULTI} \<Longrightarrow> \<not> HEAP_XMAX_IS_LOCKED_ONLY (t_infomask (hdr (example_tuple x y m)))"
  "m \<in> {0, HEAP_XMAX_IS_MULTI} \<Longrightarrow> \<not> HEAP_LOCKED_UPGRADED (t_infomask (hdr (example_tuple x y m)))"
  by (auto simp: has_def example_tuple_def hint_masks_def heap_mask_defs HEAP_XMAX_IS_LOCKED_ONLY_def HEAP_LOCKED_UPGRADED_def)

lemma example_deleter:
  "deleter env (hdr (example_tuple x y 0)) = y" "t_xmin (hdr (example_tuple x y m)) = x" "t_xmax (hdr (example_tuple x y m)) = y"
  by (simp_all add: deleter_def example_tuple_def has_def)

lemma example_deletion:
  "deletion env (hdr (example_tuple x y 0)) = (if fate env y = Aborted then None else Some (fate env y))"
  using example_bits(3) [of 0 x y] example_bits(1) [of 0 HEAP_XMAX_INVALID x y]
  by (simp add: deletion_def example_deleter)

lemma example_inserter:
  assumes "m \<in> {0, HEAP_XMAX_IS_MULTI}"
  shows "inserter env (hdr (example_tuple x y m)) = of_fate (fate env x)"
  using example_bits(1) [OF assms, of _ x y]
  by (simp add: inserter_def xmin_bits) (simp add: example_tuple_def)

lemma plain_hints_ok:
  assumes "m \<in> {0, HEAP_XMAX_IS_MULTI}" "fate env x \<noteq> Mine"
  shows "hints_ok env (hdr (example_tuple x y m))"
proof -
  have "of_fate (fate env x) \<noteq> Mine_ins" using assms(2) by (cases "fate env x") (simp_all add: of_fate_def)
  then show ?thesis using example_bits(1) [OF assms(1), of _ x y] example_inserter [OF assms(1), of env x y]
    by (auto simp: hints_ok_def hint_masks_def)
qed

lemma example_hints_ok:
  assumes "m \<in> {0, HEAP_XMAX_IS_MULTI}" "x \<in> {50, 60}"
  shows "hints_ok example_env (hdr (example_tuple x y m))"
  using assms(2) example_fates by (intro plain_hints_ok [OF assms(1)]) auto





section \<open>Properties\<close>

text \<open>
  C17.  \<open>HeapTupleSatisfiesMVCC\<close> sees a tuple exactly when its snapshot does: the answer depends
  only on the fates of inserter and deleter, on whether the distributed log and the snapshot's
  arrays count them as running, and on the command ids of our own changes; hint bits, ignore bits
  and caches change nothing, and what the check leaves of them is sound again.
\<close>

theorem MVCC_correct:
  assumes "hints_ok env (hdr tb)" "distrib_ok env s ca" "ignore_ok env s (hdr tb)"
  shows "answer (HeapTupleSatisfiesMVCC env tb s ca) = mvcc_spec env s (hdr tb) \<and>
    (\<forall>b tb' s' ca'. HeapTupleSatisfiesMVCC env tb s ca = Inr (b, tb', s', ca') \<longrightarrow>
       kept env (hdr tb) (hdr tb') \<and> same_snapshot s s' \<and> distrib_ok env s' ca' \<and> ignore_ok env s' (hdr tb'))"
  using MVCC_returns [of env tb s ca] assms by (auto simp: mvcc_returns_def mvcc_ok_def kept_def)

text \<open>50 is committed here, but its distributed transaction is in progress for the snapshot.\<close>

theorem MVCC_correct_witness:
  "answer (HeapTupleSatisfiesMVCC example_env (example_tuple 50 0 0) example_snapshot example_cache) = Inr False \<and>
   fst (HeapTupleSatisfiesSelf example_env (example_tuple 50 0 0))"
proof -
  have h: "hints_ok example_env (hdr (example_tuple 50 0 0))" by (rule example_hints_ok) simp_all
  have i: "ignore_ok example_env example_snapshot (hdr (example_tuple 50 0 0))"
    by (simp add: ignore_ok_def example_tuple_def)
  have "inserter example_env (hdr (example_tuple 50 0 0)) = Live"
    by (simp add: example_inserter example_fates of_fate_def)
  moreover have "in_snapshot example_env example_snapshot 50" by code_simp
  moreover have "t_xmin (hdr (example_tuple 50 0 0)) = 50" by (simp add: example_tuple_def)
  moreover have "\<not> HeapTupleHeaderXminFrozen (hdr (example_tuple 50 0 0))" by (simp add: xmin_bits example_bits hint_masks_def)
  ultimately have "mvcc_spec example_env example_snapshot (hdr (example_tuple 50 0 0)) = Inr False"
    by (simp add: mvcc_spec_def)
  moreover have "fst (HeapTupleSatisfiesSelf example_env (example_tuple 50 0 0))" by code_simp
  ultimately show ?thesis using MVCC_correct [OF h example_distrib_ok i] by simp
qed





text \<open>
  C22.  \<open>HeapTupleSatisfiesUpdate\<close> gives, on every branch, what the fates of inserter, deleter and
  lockers determine: invisible, updatable, updated by ourselves after or before the scan began,
  updated by a committed transaction, or being updated or locked by one that still runs.
\<close>

theorem Update_correct:
  assumes "hints_ok env (hdr tb)" "sys_ok (sys env)"
  shows "answer (HeapTupleSatisfiesUpdate env curcid tb) = update_spec env curcid (hdr tb) \<and>
    (\<forall>r tb'. HeapTupleSatisfiesUpdate env curcid tb = Inr (r, tb') \<longrightarrow> kept env (hdr tb) (hdr tb'))"
  using Update_answer [OF assms, of curcid] hint_steps_kept [OF _ assms(1)] by blast

theorem Update_correct_witness:
  "answer (HeapTupleSatisfiesUpdate example_env 5 (example_tuple 50 200 0)) = Inr HeapTupleBeingUpdated \<and>
   update_spec example_env 5 (hdr (example_tuple 50 200 0)) = Inr HeapTupleBeingUpdated"
proof -
  have "answer (HeapTupleSatisfiesUpdate example_env 5 (example_tuple 50 200 0)) = Inr HeapTupleBeingUpdated" by code_simp
  then show ?thesis
    using Update_correct [OF example_hints_ok example_env_sys, of 0 50 5 200] by simp
qed

text \<open>
  \<open>HeapTupleSatisfiesDirty\<close> sees what \<open>HeapTupleSatisfiesSelf\<close> sees and the insertions of
  other running transactions, and returns in the snapshot exactly the ids of the transactions
  that still have the insertion or the deletion in their hands.
\<close>

theorem Dirty_correct:
  assumes "hints_ok env (hdr tb)"
  shows "\<exists>b tb' s'. HeapTupleSatisfiesDirty env tb s = (b, tb', s') \<and>
    b = (fst (HeapTupleSatisfiesSelf env tb) \<or> inserter env (hdr tb) = Running_ins) \<and>
    (b, snap_xmin s', snap_xmax s') = dirty_spec env (hdr tb) \<and> kept env (hdr tb) (hdr tb')"
proof -
  obtain b tb' s' where r: "HeapTupleSatisfiesDirty env tb s = (b, tb', s')" by (cases "HeapTupleSatisfiesDirty env tb s")
  show ?thesis
    using r Dirty_answer [OF assms r] Self_spec(1) [OF assms] hint_steps_kept [OF _ assms] by (auto simp: dirty_spec_def)
qed

theorem Dirty_correct_witness:
  "\<exists>tb' s'. HeapTupleSatisfiesDirty example_env (example_tuple 50 200 0) example_snapshot = (True, tb', s') \<and>
     snap_xmin s' = 0 \<and> snap_xmax s' = 200 \<and> kept example_env (hdr (example_tuple 50 200 0)) (hdr tb')"
proof -
  have h: "hints_ok example_env (hdr (example_tuple 50 200 0))" by (rule example_hints_ok) simp_all
  have "dirty_spec example_env (hdr (example_tuple 50 200 0)) = (True, 0, 200)"
    by (simp add: dirty_spec_def self_visible_def example_inserter example_deletion example_deleter example_fates
        of_fate_def inserted_def xid_defs)
  with Dirty_correct [OF h, of example_snapshot] show ?thesis by auto
qed

text \<open>
  C23.  \<open>HeapTupleSatisfiesVacuum\<close> classifies every tuple as the fates and the horizon say, and sets
  only justified hint bits, except when a multixact's updater is gone and its lockers are not.
\<close>

theorem Vacuum_correct:
  assumes "hints_ok env (hdr tb)" "sys_ok (sys env)"
  shows "fst (HeapTupleSatisfiesVacuum env OldestXmin tb) = vacuum_spec env OldestXmin (hdr tb) \<and>
    (\<not> drops_locks env (hdr tb) \<longrightarrow> kept env (hdr tb) (hdr (snd (HeapTupleSatisfiesVacuum env OldestXmin tb))))"
  using Vacuum_answer [OF assms, of OldestXmin] hint_steps_kept [OF _ assms(1)] by blast

theorem Vacuum_correct_witness:
  "fst (HeapTupleSatisfiesVacuum example_env 100 (example_tuple 50 50 0)) = HEAPTUPLE_DEAD \<and>
   vacuum_spec example_env 100 (hdr (example_tuple 50 50 0)) = HEAPTUPLE_DEAD"
proof -
  have "fst (HeapTupleSatisfiesVacuum example_env 100 (example_tuple 50 50 0)) = HEAPTUPLE_DEAD" by code_simp
  then show ?thesis using Vacuum_correct [OF example_hints_ok example_env_sys, of 0 50 100 50] by simp
qed

text \<open>
  C24.  In that case vacuum forgets the locks: a tuple whose update was rolled back, but which
  another transaction still holds locked through the same multixact, is being updated for
  \<open>HeapTupleSatisfiesUpdate\<close> before the vacuum check and free to be updated after it.
\<close>

theorem Vacuum_forgets_locks:
  assumes "hints_ok env (hdr tb)" "sys_ok (sys env)" "drops_locks env (hdr tb)"
  shows "answer (HeapTupleSatisfiesUpdate env curcid tb) = Inr HeapTupleBeingUpdated \<and>
    answer (HeapTupleSatisfiesUpdate env curcid (snd (HeapTupleSatisfiesVacuum env OldestXmin tb))) =
      Inr HeapTupleMayBeUpdated"
proof -
  note d = Vacuum_drops [OF assms, of OldestXmin]
  have "update_spec env curcid (hdr tb) = Inr HeapTupleBeingUpdated"
    using assms(3) by (auto simp: update_spec_def drops_locks_def inserted_def)
  moreover have "update_spec env curcid (hdr (snd (HeapTupleSatisfiesVacuum env OldestXmin tb))) = Inr HeapTupleMayBeUpdated"
    using d by (simp add: update_spec_def inserted_def)
  ultimately show ?thesis using Update_answer(1) [OF assms(1,2)] Update_answer(1) [OF d(1) assms(2)] by simp
qed

text \<open>Multixact 7: 60 updated and rolled back, 200 holds a share lock.\<close>

theorem Vacuum_forgets_locks_witness:
  "remotely_locked example_env (hdr (example_tuple 50 7 HEAP_XMAX_IS_MULTI)) \<and>
   answer (HeapTupleSatisfiesUpdate example_env 5
     (snd (HeapTupleSatisfiesVacuum example_env 40 (example_tuple 50 7 HEAP_XMAX_IS_MULTI)))) = Inr HeapTupleMayBeUpdated"
proof -
  let ?t = "hdr (example_tuple 50 7 HEAP_XMAX_IS_MULTI)"
  have b: "\<not> has ?t HEAP_XMAX_INVALID" "has ?t HEAP_XMAX_IS_MULTI" "\<not> HEAP_XMAX_IS_LOCKED_ONLY (t_infomask ?t)"
    "\<not> HEAP_LOCKED_UPGRADED (t_infomask ?t)"
    using example_bits [of HEAP_XMAX_IS_MULTI] by (simp_all add: hint_masks_def)
  have mem: "GetMultiXactIdMembers example_env 7 = [\<lparr>mx_xid = 200, mx_status = MultiXactStatusForShare\<rparr>,
      \<lparr>mx_xid = 60, mx_status = MultiXactStatusUpdate\<rparr>]"
    by (simp add: GetMultiXactIdMembers_def example_env_def TransactionIdIsValid_def xid_defs)
  have "deleter example_env ?t = 60" using b(2)
    by (simp add: deleter_def HeapTupleGetUpdateXid_def MultiXactIdGetUpdateXid_def raw_defs example_deleter mem
        ISUPDATE_from_mxstatus_def)
  then have del: "deletion example_env ?t = None" by (simp add: deletion_def example_fates)
  have lk: "remotely_locked example_env ?t"
    using b by (simp add: remotely_locked_def lock_xids_def example_deleter mem example_fates)
  have h: "hints_ok example_env ?t" by (rule example_hints_ok) simp_all
  have "drops_locks example_env ?t"
    using b del lk by (simp add: drops_locks_def example_inserter example_fates of_fate_def)
  from Vacuum_forgets_locks [OF h example_env_sys this] lk show ?thesis by blast
qed

text \<open>
  C21.  What vacuum calls dead is invisible to every MVCC snapshot whose xmin, like the oldest
  entry of the distributed log, is not older than vacuum's horizon.
\<close>

theorem dead_tuples_are_invisible:
  assumes "hints_ok env (hdr tb)" "sys_ok (sys env)" "distrib_ok env s ca" "ignore_ok env s (hdr tb)"
    and "fst (HeapTupleSatisfiesVacuum env OldestXmin tb) = HEAPTUPLE_DEAD"
    and "in_window b OldestXmin" "in_window b (snap_xmin s)" "in_window b (oldestXmin (distributed_log env))"
      "TransactionIdIsNormal (deleter env (hdr tb)) \<longrightarrow> in_window b (deleter env (hdr tb))"
    and "\<not> TransactionIdPrecedes (snap_xmin s) OldestXmin"
      "\<not> TransactionIdPrecedes (oldestXmin (distributed_log env)) OldestXmin"
  shows "answer (HeapTupleSatisfiesMVCC env tb s ca) = Inr False"
proof -
  have "vacuum_spec env OldestXmin (hdr tb) = HEAPTUPLE_DEAD" using Vacuum_answer(1) [OF assms(1,2)] assms(5) by simp
  from vacuum_dead_mvcc [OF this assms(3,6-11)] have "mvcc_spec env s (hdr tb) = Inr False" .
  then show ?thesis using MVCC_returns [of env tb s ca] assms(1,3,4) by (simp add: mvcc_returns_def mvcc_ok_def)
qed

theorem dead_tuples_are_invisible_witness:
  "answer (HeapTupleSatisfiesMVCC (example_env\<lparr>distributed_log := example_dlog\<lparr>oldestXmin := 150\<rparr>\<rparr>)
     (example_tuple 50 50 0) example_snapshot example_cache) = Inr False"
proof -
  let ?env = "example_env\<lparr>distributed_log := example_dlog\<lparr>oldestXmin := 150\<rparr>\<rparr>"
  have f: "fate ?env 50 = Committed" using example_fates(3) by simp
  have h: "hints_ok ?env (hdr (example_tuple 50 50 0))" using f by (intro plain_hints_ok) simp_all
  have i: "ignore_ok ?env example_snapshot (hdr (example_tuple 50 50 0))" by (simp add: ignore_ok_def example_tuple_def)
  have d: "distrib_ok ?env example_snapshot example_cache"
    using example_distrib_ok by (simp add: distrib_ok_def example_env_def dlog_ok_def pair_cache_ok_def mapping_ok_def
        example_cache_def example_snapshot_def example_dslm_def example_dlog_def xid_defs)
  have v: "fst (HeapTupleSatisfiesVacuum ?env 100 (example_tuple 50 50 0)) = HEAPTUPLE_DEAD" by code_simp
  show ?thesis
    by (rule dead_tuples_are_invisible [where b = 10, OF h _ d i v])
      (use example_env_sys in \<open>simp_all add: example_deleter in_window_def dist_def TransactionIdIsNormal_def
        TransactionIdPrecedes_def xid_defs example_snapshot_def example_dlog_def\<close>)
qed

text \<open>
  \<open>HeapTupleIsSurelyDead\<close>, which looks at hint bits alone, calls a tuple dead only if
  \<open>HeapTupleSatisfiesVacuum\<close> does, which then changes nothing.
\<close>

theorem SurelyDead_is_dead:
  assumes "HeapTupleIsSurelyDead OldestXmin (hdr tb)"
  shows "HeapTupleSatisfiesVacuum env OldestXmin tb = (HEAPTUPLE_DEAD, tb)"
  using assms
  by (auto simp: HeapTupleIsSurelyDead_def HeapTupleSatisfiesVacuum_def vacuum_xmax_def Let_def split: if_splits)

theorem SurelyDead_is_dead_witness:
  "HeapTupleSatisfiesVacuum example_env 100 (example_tuple 50 50 0x0500) = (HEAPTUPLE_DEAD, example_tuple 50 50 0x0500)"
proof -
  have "HeapTupleIsSurelyDead 100 (hdr (example_tuple 50 50 0x0500))" by code_simp
  then show ?thesis by (rule SurelyDead_is_dead)
qed

text \<open>
  The binary search of logical decoding's snapshots finds exactly the ids of a sorted array.
\<close>

theorem TransactionIdInArray_iff:
  assumes "sorted xs"
  shows "TransactionIdInArray xid xs \<longleftrightarrow> xid \<in> set xs"
  using bsearch_iff [OF assms order_refl, of xid 0] by (auto simp: TransactionIdInArray_def in_set_conv_nth)

theorem TransactionIdInArray_iff_witness:
  "TransactionIdInArray 7 [3, 5, 7, 9] \<and> \<not> TransactionIdInArray 8 [3, 5, 7, 9]"
  using TransactionIdInArray_iff [of "[3, 5, 7, 9]" 7] TransactionIdInArray_iff [of "[3, 5, 7, 9]" 8] by simp

end
