(* ===== verification/ComboHeap.thy ===== *)
theory ComboHeap
  imports Visibility
begin

text \<open>
  Storing command ids in tuple headers: \<open>HeapTupleHeaderAdjustCmax\<close> of \<open>combocid.c\<close> with the header
  macros \<open>HeapTupleHeaderSetCmin\<close> and \<open>HeapTupleHeaderSetCmax\<close> of \<open>htup_details.h\<close> that its
  callers use, and what a reader of the header gets back.
\<close>

definition HeapTupleHeaderSetCmin :: "HeapTupleHeader \<Rightarrow> CommandId \<Rightarrow> HeapTupleHeader" where
  "HeapTupleHeaderSetCmin tup cid =
     tup\<lparr>t_field3 := cid, t_infomask := t_infomask tup AND NOT HEAP_COMBOCID\<rparr>"

definition HeapTupleHeaderSetCmax :: "HeapTupleHeader \<Rightarrow> CommandId \<Rightarrow> bool \<Rightarrow> HeapTupleHeader" where
  "HeapTupleHeaderSetCmax tup cid iscombo =
     tup\<lparr>t_field3 := cid,
         t_infomask := (if iscombo then t_infomask tup OR HEAP_COMBOCID
                        else t_infomask tup AND NOT HEAP_COMBOCID)\<rparr>"

text \<open>The new value of \<open>*cmax\<close> and \<open>*iscombo\<close>, and the environment with the new combo command id.\<close>

definition HeapTupleHeaderAdjustCmax ::
  "TqEnv \<Rightarrow> bool \<Rightarrow> HeapTupleHeader \<Rightarrow> CommandId \<Rightarrow> (TqError + CommandId \<times> bool) \<times> TqEnv" where
  "HeapTupleHeaderAdjustCmax env written tup cmax =
     (if \<not> HeapTupleHeaderXminCommitted tup \<and> current env (HeapTupleHeaderGetRawXmin tup)
      then case HeapTupleHeaderGetCmin env tup of
             Inl e \<Rightarrow> (Inl e, env)
           | Inr cmin \<Rightarrow>
               (case GetComboCommandId (gp env) written (combo env) (combo_shared env)
                       (HeapTupleHeaderGetXmin tup) cmin cmax of
                  (Inl e, st, sh) \<Rightarrow> (Inl (ComboErr e), env\<lparr>combo := st, combo_shared := sh\<rparr>)
                | (Inr c, st, sh) \<Rightarrow> (Inr (c, True), env\<lparr>combo := st, combo_shared := sh\<rparr>))
      else (Inr (cmax, False), env))"

section \<open>Reading back\<close>

lemma SetCmax_fields:
  "HeapTupleHeaderGetRawCommandId (HeapTupleHeaderSetCmax t c b) = c"
  "has (HeapTupleHeaderSetCmax t c b) HEAP_COMBOCID = b"
  "HeapTupleHeaderGetXmin (HeapTupleHeaderSetCmax t c b) = HeapTupleHeaderGetXmin t"
proof -
  have m: "(m OR HEAP_COMBOCID) AND k = m AND k" "(m AND NOT HEAP_COMBOCID) AND k = m AND k"
    if "HEAP_COMBOCID AND k = 0" for m k :: uint16
    using that by (auto simp: bit_eq_iff bit_simps)
  have f: "HEAP_COMBOCID AND HEAP_XMIN_FROZEN = 0" by (simp add: heap_mask_defs)
  have n: "HEAP_COMBOCID \<noteq> 0" by (simp add: heap_mask_defs)
  have o: "(m OR HEAP_COMBOCID) AND HEAP_COMBOCID = HEAP_COMBOCID" "(m AND NOT HEAP_COMBOCID) AND HEAP_COMBOCID = 0"
    for m by (auto simp: bit_eq_iff bit_simps)
  show "HeapTupleHeaderGetRawCommandId (HeapTupleHeaderSetCmax t c b) = c"
    by (simp add: HeapTupleHeaderGetRawCommandId_def HeapTupleHeaderSetCmax_def)
  show "has (HeapTupleHeaderSetCmax t c b) HEAP_COMBOCID = b"
    by (simp add: has_def HeapTupleHeaderSetCmax_def o n)
  show "HeapTupleHeaderGetXmin (HeapTupleHeaderSetCmax t c b) = HeapTupleHeaderGetXmin t"
    by (simp add: HeapTupleHeaderGetXmin_def HeapTupleHeaderXminFrozen_def HeapTupleHeaderGetRawXmin_def
        HeapTupleHeaderSetCmax_def m [OF f])
qed

text \<open>
  C39.  Marking a tuple deleted keeps its inserting command. After \<open>HeapTupleHeaderAdjustCmax\<close> and
  \<open>HeapTupleHeaderSetCmax\<close> the tuple's cmax is the deleting command; when the inserter is the
  transaction itself, its cmin is still the inserting command, although both share one field; and
  every tuple of the writer whose command ids could be read before keeps them.
\<close>

theorem AdjustCmax_keeps_cmin:
  assumes ok: "index_ok (combo env)"
    and A: "HeapTupleHeaderAdjustCmax env written t cmax = (Inr (cid, iscombo), env')"
  shows "HeapTupleHeaderGetCmax env' (HeapTupleHeaderSetCmax t cid iscombo) = Inr cmax \<and>
    iscombo = (\<not> HeapTupleHeaderXminCommitted t \<and> current env (HeapTupleHeaderGetRawXmin t)) \<and>
    (iscombo \<longrightarrow> HeapTupleHeaderGetCmin env' (HeapTupleHeaderSetCmax t cid iscombo) = HeapTupleHeaderGetCmin env t) \<and>
    (\<forall>u. Gp_is_writer (gp env) \<longrightarrow>
       (\<forall>c. HeapTupleHeaderGetCmin env u = Inr c \<longrightarrow> HeapTupleHeaderGetCmin env' u = Inr c) \<and>
       (\<forall>c. HeapTupleHeaderGetCmax env u = Inr c \<longrightarrow> HeapTupleHeaderGetCmax env' u = Inr c))"
proof (cases "\<not> HeapTupleHeaderXminCommitted t \<and> current env (HeapTupleHeaderGetRawXmin t)")
  case False
  then have "cid = cmax" "\<not> iscombo" "env' = env" using A by (auto simp: HeapTupleHeaderAdjustCmax_def)
  then show ?thesis using False by (simp add: HeapTupleHeaderGetCmax_def SetCmax_fields)
next
  case True
  obtain cmin st sh where c: "HeapTupleHeaderGetCmin env t = Inr cmin"
    and G: "GetComboCommandId (gp env) written (combo env) (combo_shared env) (HeapTupleHeaderGetXmin t) cmin cmax
      = (Inr cid, st, sh)" and i: "iscombo" and e: "env' = env\<lparr>combo := st, combo_shared := sh\<rparr>"
    using A True by (auto simp: HeapTupleHeaderAdjustCmax_def split: sum.splits prod.splits)
  note a = GetComboCommandId_array(2) [OF ok G refl]
  obtain new where new: "comboCids st = comboCids (combo env) @ new"
    using GetComboCommandId_array(1) [OF ok G] by blast
  have r: "HeapTupleHeaderGetCmin env' (HeapTupleHeaderSetCmax t cid True) = Inr cmin"
    "HeapTupleHeaderGetCmax env' (HeapTupleHeaderSetCmax t cid True) = Inr cmax"
    using a by (simp_all add: HeapTupleHeaderGetCmin_def HeapTupleHeaderGetCmax_def SetCmax_fields e
        GetRealCmin_def GetRealCmax_def combo_result_def)
  have "HeapTupleHeaderGetCmin env' u = Inr d" if "Gp_is_writer (gp env)" "HeapTupleHeaderGetCmin env u = Inr d" for u d
    using that by (auto simp: HeapTupleHeaderGetCmin_def e GetRealCmin_def combo_result_def new nth_append Let_def split: if_splits)
  moreover
  have "HeapTupleHeaderGetCmax env' u = Inr d" if "Gp_is_writer (gp env)" "HeapTupleHeaderGetCmax env u = Inr d" for u d
    using that by (auto simp: HeapTupleHeaderGetCmax_def e GetRealCmax_def combo_result_def new nth_append Let_def split: if_splits)
  ultimately show ?thesis using r c True i by simp
qed

text \<open>A tuple that transaction 100 inserted with command 1 and deletes with command 4.\<close>

theorem AdjustCmax_keeps_cmin_witness:
  "\<exists>cid env'. HeapTupleHeaderAdjustCmax example_env True (hdr (example_tuple 100 0 0x800)) 4 = (Inr (cid, True), env') \<and>
     HeapTupleHeaderGetCmin env' (HeapTupleHeaderSetCmax (hdr (example_tuple 100 0 0x800)) cid True) = Inr 1 \<and>
     HeapTupleHeaderGetCmax env' (HeapTupleHeaderSetCmax (hdr (example_tuple 100 0 0x800)) cid True) = Inr 4"
proof -
  let ?t = "hdr (example_tuple 100 0 0x800)"
  have ok: "index_ok (combo example_env)" by (simp add: example_env_def index_ok_def)
  have t: "\<not> HeapTupleHeaderXminCommitted ?t" "HeapTupleHeaderGetRawXmin ?t = 100"
    "HeapTupleHeaderGetCmin example_env ?t = Inr 1" "HeapTupleHeaderGetXmin ?t = 100"
    by code_simp+
  have cur: "current example_env 100" using example_current by (simp add: example_env_def)
  obtain r st sh where G: "GetComboCommandId (gp example_env) True (combo example_env) (combo_shared example_env) 100 1 4 = (r, st, sh)"
    by (metis prod_cases3)
  have "r \<noteq> Inl e" for e using GetComboCommandId_succeeds [OF ok G] by (auto simp: example_env_def)
  then obtain cid where r: "r = Inr cid" by (cases r) auto
  have A: "HeapTupleHeaderAdjustCmax example_env True ?t 4 = (Inr (cid, True), example_env\<lparr>combo := st, combo_shared := sh\<rparr>)"
    using t cur G r by (simp add: HeapTupleHeaderAdjustCmax_def)
  then show ?thesis using AdjustCmax_keeps_cmin [OF ok A] t(3) by auto
qed

end
