(* ===== verification/Fts.thy ===== *)
theory Fts
  imports Prelude
begin

text \<open>
  The fault tolerance service (\<open>fts/ftsprobe.c\<close>, with \<open>probeWalRepUpdateConfig\<close> of \<open>fts/fts.c\<close>): the
  probe process of the master sends messages to the primaries, follows each pair of primary and
  mirror through a state machine, and records failures in \<open>gp_segment_configuration\<close>.

  What the outside world does is input: a \<open>FtsIO\<close> holds the answers of \<open>libpq\<close> and \<open>poll\<close> for one
  segment in one round of the loop, a \<open>FtsRound\<close> those for all segments and the clock. Every
  \<open>elog(ERROR)\<close> of the code is a value of \<open>FtsError\<close>.
\<close>

section \<open>Configuration\<close>

definition GP_SEGMENT_CONFIGURATION_ROLE_PRIMARY :: char where "GP_SEGMENT_CONFIGURATION_ROLE_PRIMARY = CHR ''p''"
definition GP_SEGMENT_CONFIGURATION_ROLE_MIRROR :: char where "GP_SEGMENT_CONFIGURATION_ROLE_MIRROR = CHR ''m''"
definition GP_SEGMENT_CONFIGURATION_STATUS_UP :: char where "GP_SEGMENT_CONFIGURATION_STATUS_UP = CHR ''u''"
definition GP_SEGMENT_CONFIGURATION_STATUS_DOWN :: char where "GP_SEGMENT_CONFIGURATION_STATUS_DOWN = CHR ''d''"
definition GP_SEGMENT_CONFIGURATION_MODE_INSYNC :: char where "GP_SEGMENT_CONFIGURATION_MODE_INSYNC = CHR ''s''"
definition GP_SEGMENT_CONFIGURATION_MODE_NOTINSYNC :: char where "GP_SEGMENT_CONFIGURATION_MODE_NOTINSYNC = CHR ''n''"

lemmas config_char_defs = GP_SEGMENT_CONFIGURATION_ROLE_PRIMARY_def GP_SEGMENT_CONFIGURATION_ROLE_MIRROR_def
  GP_SEGMENT_CONFIGURATION_STATUS_UP_def GP_SEGMENT_CONFIGURATION_STATUS_DOWN_def
  GP_SEGMENT_CONFIGURATION_MODE_INSYNC_def GP_SEGMENT_CONFIGURATION_MODE_NOTINSYNC_def

text \<open>A row of \<open>gp_segment_configuration\<close>, without the addresses that only \<open>libpq\<close> reads.\<close>

record GpSegConfigEntry =
  dbid :: int
  segindex :: int
  role :: char
  mode :: char
  status :: char

definition SEGMENT_IS_ACTIVE_PRIMARY :: "GpSegConfigEntry \<Rightarrow> bool" where
  "SEGMENT_IS_ACTIVE_PRIMARY p \<longleftrightarrow> role p = GP_SEGMENT_CONFIGURATION_ROLE_PRIMARY"

definition SEGMENT_IS_ALIVE :: "GpSegConfigEntry \<Rightarrow> bool" where
  "SEGMENT_IS_ALIVE p \<longleftrightarrow> status p = GP_SEGMENT_CONFIGURATION_STATUS_UP"

definition SEGMENT_IS_IN_SYNC :: "GpSegConfigEntry \<Rightarrow> bool" where
  "SEGMENT_IS_IN_SYNC p \<longleftrightarrow> mode p = GP_SEGMENT_CONFIGURATION_MODE_INSYNC"

record fts_result =
  res_dbid :: int
  isPrimaryAlive :: bool
  isMirrorAlive :: bool
  isInSync :: bool
  isSyncRepEnabled :: bool
  isRoleMirror :: bool
  retryRequested :: bool

text \<open>The result after \<open>memset\<close>.\<close>

definition empty_result :: fts_result where
  "empty_result = \<lparr>res_dbid = 0, isPrimaryAlive = False, isMirrorAlive = False, isInSync = False,
     isSyncRepEnabled = False, isRoleMirror = False, retryRequested = False\<rparr>"

datatype FtsMessageState =
  FTS_PROBE_SEGMENT | FTS_SYNCREP_OFF_SEGMENT | FTS_PROMOTE_SEGMENT
| FTS_PROBE_RETRY_WAIT | FTS_SYNCREP_OFF_RETRY_WAIT | FTS_PROMOTE_RETRY_WAIT
| FTS_PROBE_SUCCESS | FTS_SYNCREP_OFF_SUCCESS | FTS_PROMOTE_SUCCESS
| FTS_PROBE_FAILED | FTS_SYNCREP_OFF_FAILED | FTS_PROMOTE_FAILED
| FTS_RESPONSE_PROCESSED

definition IsFtsMessageStateSuccess :: "FtsMessageState \<Rightarrow> bool" where
  "IsFtsMessageStateSuccess s \<longleftrightarrow> s = FTS_PROBE_SUCCESS \<or> s = FTS_SYNCREP_OFF_SUCCESS \<or> s = FTS_PROMOTE_SUCCESS"

definition IsFtsMessageStateFailed :: "FtsMessageState \<Rightarrow> bool" where
  "IsFtsMessageStateFailed s \<longleftrightarrow> s = FTS_PROBE_FAILED \<or> s = FTS_SYNCREP_OFF_FAILED \<or> s = FTS_PROMOTE_FAILED"

text \<open>The states in which a message is to be sent, the case label of three of the switches.\<close>

definition is_message_state :: "FtsMessageState \<Rightarrow> bool" where
  "is_message_state s \<longleftrightarrow> s = FTS_PROBE_SEGMENT \<or> s = FTS_SYNCREP_OFF_SEGMENT \<or> s = FTS_PROMOTE_SEGMENT"

text \<open>\<open>conn\<close> says whether the connection pointer is not null.\<close>

record fts_segment_info =
  primary_cdbinfo :: GpSegConfigEntry
  mirror_cdbinfo :: GpSegConfigEntry
  result :: fts_result
  state :: FtsMessageState
  poll_events :: uint16
  poll_revents :: uint16
  fd_index :: int
  startTime :: int
  retryStartTime :: int
  conn :: bool
  retry_count :: int
  xlogrecptr :: uint64
  recovery_making_progress :: bool

datatype FtsError =
  NoNextSuccessState FtsMessageState
| NoNextFailedState FtsMessageState
| CannotCreateConnection
| InvalidPollResponse
| PollFailed
| CannotFindDbid int
| InvalidInternalState FtsMessageState

section \<open>The outside world\<close>

definition POLLIN :: uint16 where "POLLIN = 0x0001"
definition POLLOUT :: uint16 where "POLLOUT = 0x0004"
definition POLLERR :: uint16 where "POLLERR = 0x0008"
definition POLLHUP :: uint16 where "POLLHUP = 0x0010"

datatype PostgresPollingStatusType =
  PGRES_POLLING_FAILED | PGRES_POLLING_READING | PGRES_POLLING_WRITING | PGRES_POLLING_OK | PGRES_POLLING_ACTIVE

text \<open>What the error message of a failed connection says: nothing of a recovery, a recovery without
  a readable position, or the two halves of the position that was replayed.\<close>

datatype RecoveryMessage = NotInRecovery | InvalidRecoveryDetail | ReplayedTo uint32 uint32

text \<open>The columns of the response to a message.\<close>

record FtsResponse =
  IsMirrorUp :: bool
  IsInSync :: bool
  IsSyncRepEnabled :: bool
  IsRoleMirror :: bool
  RequestRetry :: bool

text \<open>
  What \<open>PQgetResult\<close> gives: none or a bad connection, a status other than \<open>PGRES_TUPLES_OK\<close>, a wrong
  number of rows or columns, or a response.
\<close>

datatype QueryResult = NoResult | ErrorResult | WrongShape | Response FtsResponse

record FtsIO =
  connect_status_ok :: bool
  connect_start_null :: bool
  connect_start_bad :: bool
  connect_time :: int
  connect_poll :: PostgresPollingStatusType
  recovery_message :: RecoveryMessage
  revents :: uint16
  send_ready :: bool
  send_ok :: bool
  receive_status_ok :: bool
  consume_ok :: bool
  is_busy :: bool
  query_result :: QueryResult

text \<open>The answers in one round, by the content id of the segment.\<close>

record FtsRound =
  round_io :: "int \<Rightarrow> FtsIO"
  poll_error :: bool
  poll_now :: int
  retry_now :: int

record FtsSettings =
  gp_fts_probe_retries :: int
  gp_fts_probe_timeout :: int

text \<open>A \<open>pg_time_t\<close> difference cast to \<open>int\<close>.\<close>

definition cast_int :: "int \<Rightarrow> int" where
  "cast_int d = sint (word_of_int d :: 32 word)"

text \<open>One pass of a loop over the segments.\<close>

fun for_each :: "('s \<Rightarrow> 'e + 's) \<Rightarrow> 's list \<Rightarrow> 'e + 's list" where
  "for_each f [] = Inr []"
| "for_each f (x # xs) = bindE (f x) (\<lambda>y. bindE (for_each f xs) (\<lambda>ys. Inr (y # ys)))"

abbreviation io_of :: "FtsRound \<Rightarrow> fts_segment_info \<Rightarrow> FtsIO" where
  "io_of r ftsInfo \<equiv> round_io r (segindex (primary_cdbinfo ftsInfo))"

section \<open>Messaging\<close>

fun nextSuccessState :: "FtsMessageState \<Rightarrow> FtsError + FtsMessageState" where
  "nextSuccessState FTS_PROBE_SEGMENT = Inr FTS_PROBE_SUCCESS"
| "nextSuccessState FTS_SYNCREP_OFF_SEGMENT = Inr FTS_SYNCREP_OFF_SUCCESS"
| "nextSuccessState FTS_PROMOTE_SEGMENT = Inr FTS_PROMOTE_SUCCESS"
| "nextSuccessState s = Inl (NoNextSuccessState s)"

fun nextFailedState :: "FtsMessageState \<Rightarrow> FtsError + FtsMessageState" where
  "nextFailedState FTS_PROBE_SEGMENT = Inr FTS_PROBE_FAILED"
| "nextFailedState FTS_SYNCREP_OFF_SEGMENT = Inr FTS_SYNCREP_OFF_FAILED"
| "nextFailedState FTS_PROMOTE_SEGMENT = Inr FTS_PROMOTE_FAILED"
| "nextFailedState FTS_PROBE_FAILED = Inr FTS_PROBE_FAILED"
| "nextFailedState FTS_SYNCREP_OFF_FAILED = Inr FTS_SYNCREP_OFF_FAILED"
| "nextFailedState FTS_PROMOTE_FAILED = Inr FTS_PROMOTE_FAILED"
| "nextFailedState FTS_PROBE_RETRY_WAIT = Inr FTS_PROBE_FAILED"
| "nextFailedState FTS_SYNCREP_OFF_RETRY_WAIT = Inr FTS_SYNCREP_OFF_FAILED"
| "nextFailedState FTS_PROMOTE_RETRY_WAIT = Inr FTS_PROMOTE_FAILED"
| "nextFailedState s = Inl (NoNextFailedState s)"

definition set_failed :: "fts_segment_info \<Rightarrow> FtsError + fts_segment_info" where
  "set_failed ftsInfo = bindE (nextFailedState (state ftsInfo)) (\<lambda>s. Inr (ftsInfo\<lparr>state := s\<rparr>))"

definition allDone :: "fts_segment_info list \<Rightarrow> bool" where
  "allDone context \<longleftrightarrow> list_all (\<lambda>i. state i = FTS_RESPONSE_PROCESSED) context"

definition ftsConnectStart :: "FtsIO \<Rightarrow> fts_segment_info \<Rightarrow> FtsError + bool \<times> fts_segment_info" where
  "ftsConnectStart io ftsInfo =
     (if connect_start_null io then Inl CannotCreateConnection
      else if connect_start_bad io then Inr (False, ftsInfo\<lparr>conn := True\<rparr>)
      else Inr (True, ftsInfo\<lparr>conn := True, poll_events := poll_events ftsInfo OR POLLOUT, startTime := connect_time io\<rparr>))"

definition checkIfFailedDueToRecoveryInProgress :: "FtsIO \<Rightarrow> fts_segment_info \<Rightarrow> fts_segment_info" where
  "checkIfFailedDueToRecoveryInProgress io ftsInfo =
     (case recovery_message io of
        NotInRecovery \<Rightarrow> ftsInfo
      | InvalidRecoveryDetail \<Rightarrow> ftsInfo
      | ReplayedTo tmp_xlogid tmp_xrecoff \<Rightarrow>
          let tmpptr = push_bit 32 (ucast tmp_xlogid) OR ucast tmp_xrecoff
          in if tmpptr \<le> xlogrecptr ftsInfo then ftsInfo
             else ftsInfo\<lparr>recovery_making_progress := True, xlogrecptr := tmpptr\<rparr>)"

definition connect_segment :: "FtsIO \<Rightarrow> fts_segment_info \<Rightarrow> FtsError + fts_segment_info" where
  "connect_segment io ftsInfo =
     (if conn ftsInfo \<and> connect_status_ok io then Inr ftsInfo
      else if is_message_state (state ftsInfo)
      then let ftsInfo = ftsInfo\<lparr>recovery_making_progress := False\<rparr>
           in if \<not> conn ftsInfo
              then bindE (ftsConnectStart io ftsInfo) (\<lambda>(started, ftsInfo).
                     if \<not> started then set_failed ftsInfo else Inr ftsInfo)
              else if poll_revents ftsInfo AND (POLLOUT OR POLLIN) \<noteq> 0
              then case connect_poll io of
                     PGRES_POLLING_OK \<Rightarrow> Inr (ftsInfo\<lparr>poll_events := POLLOUT\<rparr>)
                   | PGRES_POLLING_READING \<Rightarrow> Inr (ftsInfo\<lparr>poll_events := poll_events ftsInfo OR POLLIN\<rparr>)
                   | PGRES_POLLING_WRITING \<Rightarrow> Inr (ftsInfo\<lparr>poll_events := poll_events ftsInfo OR POLLOUT\<rparr>)
                   | PGRES_POLLING_FAILED \<Rightarrow>
                       bindE (set_failed ftsInfo) (\<lambda>ftsInfo. Inr (checkIfFailedDueToRecoveryInProgress io ftsInfo))
                   | PGRES_POLLING_ACTIVE \<Rightarrow> Inl InvalidPollResponse
              else Inr ftsInfo
      else Inr ftsInfo)"

definition ftsConnect :: "FtsRound \<Rightarrow> fts_segment_info list \<Rightarrow> FtsError + fts_segment_info list" where
  "ftsConnect r context = for_each (\<lambda>i. connect_segment (io_of r i) i) context"

definition ftsCheckTimeout :: "FtsSettings \<Rightarrow> fts_segment_info \<Rightarrow> int \<Rightarrow> FtsError + fts_segment_info" where
  "ftsCheckTimeout g ftsInfo now =
     (if \<not> IsFtsMessageStateSuccess (state ftsInfo) \<and> cast_int (now - startTime ftsInfo) > gp_fts_probe_timeout g
      then set_failed ftsInfo else Inr ftsInfo)"

text \<open>The first loop of \<open>ftsPoll\<close> numbers the sockets to poll, the second one reads what came back.\<close>

definition wants_poll :: "fts_segment_info \<Rightarrow> bool" where
  "wants_poll ftsInfo \<longleftrightarrow> poll_events ftsInfo AND (POLLIN OR POLLOUT) \<noteq> 0"

fun number_fds :: "int \<Rightarrow> fts_segment_info list \<Rightarrow> fts_segment_info list" where
  "number_fds nfds [] = []"
| "number_fds nfds (i # is) =
     (if wants_poll i then i\<lparr>fd_index := nfds\<rparr> # number_fds (nfds + 1) is
      else i\<lparr>fd_index := -1\<rparr> # number_fds nfds is)"

definition poll_segment :: "FtsSettings \<Rightarrow> int \<Rightarrow> FtsIO \<Rightarrow> fts_segment_info \<Rightarrow> FtsError + fts_segment_info" where
  "poll_segment g now io ftsInfo =
     (if wants_poll ftsInfo
      then let ftsInfo = ftsInfo\<lparr>poll_revents := revents io\<rparr>
           in bindE (if poll_revents ftsInfo AND poll_events ftsInfo \<noteq> 0 then Inr (ftsInfo\<lparr>poll_events := 0\<rparr>)
                     else if poll_revents ftsInfo AND (POLLHUP OR POLLERR) \<noteq> 0 then set_failed ftsInfo
                     else if poll_revents ftsInfo \<noteq> 0 then set_failed ftsInfo
                     else Inr ftsInfo)
                (\<lambda>ftsInfo. ftsCheckTimeout g ftsInfo now)
      else Inr ftsInfo)"

definition ftsPoll :: "FtsSettings \<Rightarrow> FtsRound \<Rightarrow> fts_segment_info list \<Rightarrow> FtsError + fts_segment_info list" where
  "ftsPoll g r context =
     (let context = number_fds 0 context
      in if list_all (\<lambda>i. \<not> wants_poll i) context then Inr context
         else if poll_error r then Inl PollFailed
         else for_each (\<lambda>i. poll_segment g (poll_now r) (io_of r i) i) context)"

definition send_segment :: "FtsIO \<Rightarrow> fts_segment_info \<Rightarrow> FtsError + fts_segment_info" where
  "send_segment io ftsInfo =
     (if is_message_state (state ftsInfo)
      then if \<not> send_ready io \<or> poll_revents ftsInfo AND POLLOUT = 0 then Inr ftsInfo
           else if send_ok io then Inr (ftsInfo\<lparr>poll_events := POLLIN\<rparr>)
           else set_failed ftsInfo
      else Inr ftsInfo)"

definition ftsSend :: "FtsRound \<Rightarrow> fts_segment_info list \<Rightarrow> FtsError + fts_segment_info list" where
  "ftsSend r context = for_each (\<lambda>i. send_segment (io_of r i) i) context"

definition probeRecordResponse :: "fts_segment_info \<Rightarrow> FtsResponse \<Rightarrow> fts_segment_info" where
  "probeRecordResponse ftsInfo response =
     ftsInfo\<lparr>result := (result ftsInfo)\<lparr>isPrimaryAlive := True, isMirrorAlive := IsMirrorUp response,
       isInSync := IsInSync response, isSyncRepEnabled := IsSyncRepEnabled response,
       isRoleMirror := IsRoleMirror response, retryRequested := RequestRetry response\<rparr>\<rparr>"

definition receive_segment :: "FtsIO \<Rightarrow> fts_segment_info \<Rightarrow> FtsError + fts_segment_info" where
  "receive_segment io ftsInfo =
     (if is_message_state (state ftsInfo)
      then if \<not> receive_status_ok io \<or> poll_revents ftsInfo AND POLLIN = 0 then Inr ftsInfo
           else if \<not> consume_ok io then set_failed ftsInfo
           else if is_busy io then set_failed ftsInfo
           else case query_result io of
                  NoResult \<Rightarrow> set_failed ftsInfo
                | ErrorResult \<Rightarrow> set_failed ftsInfo
                | WrongShape \<Rightarrow> set_failed ftsInfo
                | Response response \<Rightarrow>
                    let ftsInfo = probeRecordResponse ftsInfo response
                    in bindE (nextSuccessState (state ftsInfo)) (\<lambda>s. Inr (ftsInfo\<lparr>state := s\<rparr>))
      else Inr ftsInfo)"

definition ftsReceive :: "FtsRound \<Rightarrow> fts_segment_info list \<Rightarrow> FtsError + fts_segment_info list" where
  "ftsReceive r context = for_each (\<lambda>i. receive_segment (io_of r i) i) context"

section \<open>Retries\<close>

definition retryForFtsFailed :: "FtsSettings \<Rightarrow> fts_segment_info \<Rightarrow> int \<Rightarrow> fts_segment_info" where
  "retryForFtsFailed g ftsInfo now =
     (if retry_count ftsInfo = gp_fts_probe_retries g then ftsInfo
      else ftsInfo\<lparr>retry_count := retry_count ftsInfo + 1,
             state := (if state ftsInfo = FTS_PROBE_SUCCESS \<or> state ftsInfo = FTS_PROBE_FAILED
                       then FTS_PROBE_RETRY_WAIT
                       else if state ftsInfo = FTS_SYNCREP_OFF_FAILED then FTS_SYNCREP_OFF_RETRY_WAIT
                       else FTS_PROMOTE_RETRY_WAIT),
             retryStartTime := now, conn := False, poll_events := 0, poll_revents := 0,
             result := empty_result\<rparr>)"

definition retry_segment :: "FtsSettings \<Rightarrow> int \<Rightarrow> fts_segment_info \<Rightarrow> fts_segment_info" where
  "retry_segment g now ftsInfo =
     (case state ftsInfo of
        FTS_PROBE_SUCCESS \<Rightarrow>
          if \<not> (retryRequested (result ftsInfo) \<and> SEGMENT_IS_ALIVE (mirror_cdbinfo ftsInfo)) then ftsInfo
          else retryForFtsFailed g ftsInfo now
      | FTS_PROBE_FAILED \<Rightarrow> retryForFtsFailed g ftsInfo now
      | FTS_SYNCREP_OFF_FAILED \<Rightarrow> retryForFtsFailed g ftsInfo now
      | FTS_PROMOTE_FAILED \<Rightarrow> retryForFtsFailed g ftsInfo now
      | FTS_PROBE_RETRY_WAIT \<Rightarrow>
          if cast_int (now - retryStartTime ftsInfo) < 1 then ftsInfo else ftsInfo\<lparr>state := FTS_PROBE_SEGMENT\<rparr>
      | FTS_SYNCREP_OFF_RETRY_WAIT \<Rightarrow>
          if cast_int (now - retryStartTime ftsInfo) < 1 then ftsInfo else ftsInfo\<lparr>state := FTS_SYNCREP_OFF_SEGMENT\<rparr>
      | FTS_PROMOTE_RETRY_WAIT \<Rightarrow>
          if cast_int (now - retryStartTime ftsInfo) < 1 then ftsInfo else ftsInfo\<lparr>state := FTS_PROMOTE_SEGMENT\<rparr>
      | _ \<Rightarrow> ftsInfo)"

definition processRetry :: "FtsSettings \<Rightarrow> FtsRound \<Rightarrow> fts_segment_info list \<Rightarrow> fts_segment_info list" where
  "processRetry g r context = map (retry_segment g (retry_now r)) context"

section \<open>Processing responses\<close>

text \<open>
  The catalog \<open>gp_segment_configuration\<close> by dbid, the entries of \<open>gp_configuration_history\<close> (dbid,
  content, and the new role, status and mode), and the status bytes the dispatcher reads.
\<close>

record FtsShared =
  gp_segment_configuration :: "int \<rightharpoonup> GpSegConfigEntry"
  gp_configuration_history :: "(int \<times> int \<times> char \<times> char \<times> char) list"
  fts_status :: "int \<Rightarrow> uint8"

definition FTS_STATUS_DOWN :: uint8 where "FTS_STATUS_DOWN = 1"

definition FTS_STATUS_IS_DOWN :: "uint8 \<Rightarrow> bool" where
  "FTS_STATUS_IS_DOWN s \<longleftrightarrow> s AND FTS_STATUS_DOWN \<noteq> 0"

definition FTS_STATUS_SET_DOWN :: "uint8 \<Rightarrow> uint8" where
  "FTS_STATUS_SET_DOWN s = s OR FTS_STATUS_DOWN"

definition FTS_STATUS_SET_UP :: "uint8 \<Rightarrow> uint8" where
  "FTS_STATUS_SET_UP s = s AND NOT FTS_STATUS_DOWN"

definition status_char :: "bool \<Rightarrow> char" where
  "status_char alive = (if alive then GP_SEGMENT_CONFIGURATION_STATUS_UP else GP_SEGMENT_CONFIGURATION_STATUS_DOWN)"

definition mode_char :: "bool \<Rightarrow> char" where
  "mode_char insync = (if insync then GP_SEGMENT_CONFIGURATION_MODE_INSYNC else GP_SEGMENT_CONFIGURATION_MODE_NOTINSYNC)"

definition probeWalRepUpdateConfig ::
  "int \<Rightarrow> int \<Rightarrow> char \<Rightarrow> bool \<Rightarrow> bool \<Rightarrow> FtsShared \<Rightarrow> FtsError + FtsShared" where
  "probeWalRepUpdateConfig d content newRole alive insync sh =
     (let sh1 = sh\<lparr>gp_configuration_history :=
            gp_configuration_history sh @ [(d, content, newRole, status_char alive, mode_char insync)]\<rparr>
      in case gp_segment_configuration sh1 d of
           None \<Rightarrow> Inl (CannotFindDbid d)
         | Some configtuple \<Rightarrow>
             Inr (sh1\<lparr>gp_segment_configuration := (gp_segment_configuration sh1)
               (d \<mapsto> configtuple\<lparr>role := newRole, status := status_char alive, mode := mode_char insync\<rparr>)\<rparr>))"

definition set_fts_status :: "int \<Rightarrow> bool \<Rightarrow> FtsShared \<Rightarrow> FtsShared" where
  "set_fts_status d alive sh =
     sh\<lparr>fts_status := (fts_status sh)
       (d := (if alive then FTS_STATUS_SET_UP (fts_status sh d) else FTS_STATUS_SET_DOWN (fts_status sh d)))\<rparr>"

definition updateConfiguration ::
  "GpSegConfigEntry \<Rightarrow> GpSegConfigEntry \<Rightarrow> char \<Rightarrow> char \<Rightarrow> bool \<Rightarrow> bool \<Rightarrow> bool \<Rightarrow> FtsShared \<Rightarrow>
     FtsError + bool \<times> FtsShared" where
  "updateConfiguration primary mirror newPrimaryRole newMirrorRole insync primaryAlive mirrorAlive sh =
     (let modeChanged = (insync \<noteq> SEGMENT_IS_IN_SYNC primary);
          updatePrimary = (modeChanged \<or> primaryAlive \<noteq> SEGMENT_IS_ALIVE primary);
          updateMirror = (modeChanged \<or> mirrorAlive \<noteq> SEGMENT_IS_ALIVE mirror);
          updateNeeded = (updatePrimary \<or> updateMirror)
      in if \<not> updateNeeded then Inr (False, sh)
         else
           bindE (if updatePrimary
                  then probeWalRepUpdateConfig (dbid primary) (segindex primary) newPrimaryRole primaryAlive insync sh
                  else Inr sh) (\<lambda>sh1.
           bindE (if updateMirror
                  then probeWalRepUpdateConfig (dbid mirror) (segindex mirror) newMirrorRole mirrorAlive insync sh1
                  else Inr sh1) (\<lambda>sh2.
           Inr (True, set_fts_status (dbid mirror) mirrorAlive (set_fts_status (dbid primary) primaryAlive sh2)))))"

definition ftsResponseReady :: "fts_segment_info \<Rightarrow> bool" where
  "ftsResponseReady ftsInfo \<longleftrightarrow> IsFtsMessageStateSuccess (state ftsInfo) \<or> IsFtsMessageStateFailed (state ftsInfo)"

text \<open>The switch of \<open>processResponse\<close> on one segment: whether the configuration was updated, the
  segment with its next state, and the configuration.\<close>

definition process_switch :: "fts_segment_info \<Rightarrow> FtsShared \<Rightarrow> FtsError + bool \<times> fts_segment_info \<times> FtsShared" where
  "process_switch ftsInfo sh =
     (let primary = primary_cdbinfo ftsInfo; mirror = mirror_cdbinfo ftsInfo; res = result ftsInfo;
          primaryAlive = isPrimaryAlive res;
          mirrorAlive = (if primaryAlive then isMirrorAlive res else SEGMENT_IS_ALIVE mirror);
          insync = (if primaryAlive then isInSync res else False);
          processed = ftsInfo\<lparr>state := FTS_RESPONSE_PROCESSED\<rparr>
      in case state ftsInfo of
           FTS_PROBE_SUCCESS \<Rightarrow>
             if isSyncRepEnabled res \<and> \<not> mirrorAlive
             then if \<not> retryRequested res
                  then bindE (updateConfiguration primary mirror GP_SEGMENT_CONFIGURATION_ROLE_PRIMARY
                                GP_SEGMENT_CONFIGURATION_ROLE_MIRROR insync primaryAlive mirrorAlive sh) (\<lambda>(upd, sh1).
                         Inr (upd, ftsInfo\<lparr>state := FTS_SYNCREP_OFF_SEGMENT\<rparr>, sh1))
                  else Inr (False, processed, sh)
             else if isRoleMirror res then Inr (False, ftsInfo\<lparr>state := FTS_PROMOTE_SEGMENT\<rparr>, sh)
             else bindE (updateConfiguration primary mirror GP_SEGMENT_CONFIGURATION_ROLE_PRIMARY
                           GP_SEGMENT_CONFIGURATION_ROLE_MIRROR insync primaryAlive mirrorAlive sh) (\<lambda>(upd, sh1).
                    Inr (upd, processed, sh1))
         | FTS_PROBE_FAILED \<Rightarrow>
             if recovery_making_progress ftsInfo then Inr (False, processed, sh)
             else if SEGMENT_IS_IN_SYNC mirror
             then bindE (updateConfiguration primary mirror GP_SEGMENT_CONFIGURATION_ROLE_MIRROR
                           GP_SEGMENT_CONFIGURATION_ROLE_PRIMARY insync primaryAlive mirrorAlive sh) (\<lambda>(upd, sh1).
                    Inr (upd, ftsInfo\<lparr>state := FTS_PROMOTE_SEGMENT, primary_cdbinfo := mirror,
                                      mirror_cdbinfo := primary\<rparr>, sh1))
             else Inr (False, processed, sh)
         | FTS_SYNCREP_OFF_FAILED \<Rightarrow> Inr (False, processed, sh)
         | FTS_PROMOTE_FAILED \<Rightarrow> Inr (False, processed, sh)
         | FTS_PROMOTE_SUCCESS \<Rightarrow> Inr (False, processed, sh)
         | FTS_SYNCREP_OFF_SUCCESS \<Rightarrow> Inr (False, processed, sh)
         | s \<Rightarrow> Inl (InvalidInternalState s))"

definition process_segment :: "fts_segment_info \<Rightarrow> FtsShared \<Rightarrow> FtsError + bool \<times> fts_segment_info \<times> FtsShared" where
  "process_segment ftsInfo sh =
     (if \<not> ftsResponseReady ftsInfo then Inr (False, ftsInfo, sh)
      else bindE (process_switch ftsInfo sh) (\<lambda>(upd, ftsInfo, sh1).
             Inr (upd, ftsInfo\<lparr>result := empty_result, conn := False, poll_events := 0, poll_revents := 0,
                              retry_count := 0\<rparr>, sh1)))"

fun processResponse ::
  "bool \<Rightarrow> fts_segment_info list \<Rightarrow> FtsShared \<Rightarrow> FtsError + bool \<times> fts_segment_info list \<times> FtsShared" where
  "processResponse FtsIsActive [] sh = Inr (False, [], sh)"
| "processResponse FtsIsActive (i # is) sh =
     (if \<not> FtsIsActive then Inr (False, i # is, sh)
      else bindE (process_segment i sh) (\<lambda>(upd, i1, sh1).
           bindE (processResponse FtsIsActive is sh1) (\<lambda>(upds, is1, sh2).
             Inr (upd \<or> upds, i1 # is1, sh2))))"

section \<open>A probe cycle\<close>

definition FtsGetPeerSegment :: "GpSegConfigEntry list \<Rightarrow> int \<Rightarrow> int \<Rightarrow> GpSegConfigEntry option" where
  "FtsGetPeerSegment cdbs content d = find (\<lambda>s. segindex s = content \<and> dbid s \<noteq> d) cdbs"

definition initial_info :: "GpSegConfigEntry \<Rightarrow> GpSegConfigEntry \<Rightarrow> fts_segment_info" where
  "initial_info primary mirror =
     \<lparr>primary_cdbinfo = primary, mirror_cdbinfo = mirror, result = empty_result\<lparr>res_dbid := dbid primary\<rparr>,
      state = FTS_PROBE_SEGMENT, poll_events = 0, poll_revents = 0, fd_index = 0, startTime = 0, retryStartTime = 0,
      conn = False, retry_count = 0, xlogrecptr = 0, recovery_making_progress = False\<rparr>"

text \<open>
  The pairs to probe: one per primary that has a mirror. (\<open>num_pairs\<close> of the code counts the
  contents instead and subtracts those without a mirror, which is the same when every content has
  one primary.)
\<close>

definition FtsWalRepInitProbeContext :: "GpSegConfigEntry list \<Rightarrow> fts_segment_info list" where
  "FtsWalRepInitProbeContext cdbs =
     List.map_filter (\<lambda>primary.
       if \<not> SEGMENT_IS_ACTIVE_PRIMARY primary then None
       else map_option (initial_info primary) (FtsGetPeerSegment cdbs (segindex primary) (dbid primary))) cdbs"

text \<open>The body of the loop of \<open>FtsWalRepMessageSegments\<close>, and the loop on the rounds that happen.\<close>

definition fts_round ::
  "FtsSettings \<Rightarrow> bool \<Rightarrow> FtsRound \<Rightarrow> fts_segment_info list \<Rightarrow> FtsShared \<Rightarrow>
     FtsError + bool \<times> fts_segment_info list \<times> FtsShared" where
  "fts_round g FtsIsActive r context sh =
     bindE (ftsConnect r context) (\<lambda>context.
     bindE (ftsPoll g r context) (\<lambda>context.
     bindE (ftsSend r context) (\<lambda>context.
     bindE (ftsReceive r context) (\<lambda>context.
       processResponse FtsIsActive (processRetry g r context) sh))))"

fun FtsWalRepMessageLoop ::
  "FtsSettings \<Rightarrow> bool \<Rightarrow> FtsRound list \<Rightarrow> bool \<Rightarrow> fts_segment_info list \<Rightarrow> FtsShared \<Rightarrow>
     FtsError + bool \<times> fts_segment_info list \<times> FtsShared" where
  "FtsWalRepMessageLoop g FtsIsActive [] is_updated context sh = Inr (is_updated, context, sh)"
| "FtsWalRepMessageLoop g FtsIsActive (r # rs) is_updated context sh =
     (if allDone context \<or> \<not> FtsIsActive then Inr (is_updated, context, sh)
      else bindE (fts_round g FtsIsActive r context sh) (\<lambda>(upd, context, sh1).
             FtsWalRepMessageLoop g FtsIsActive rs (is_updated \<or> upd) context sh1))"

definition FtsWalRepMessageSegments ::
  "FtsSettings \<Rightarrow> bool \<Rightarrow> FtsRound list \<Rightarrow> GpSegConfigEntry list \<Rightarrow> FtsShared \<Rightarrow>
     FtsError + bool \<times> fts_segment_info list \<times> FtsShared" where
  "FtsWalRepMessageSegments g FtsIsActive rs cdbs sh =
     FtsWalRepMessageLoop g FtsIsActive rs False (FtsWalRepInitProbeContext cdbs) sh"

end
