(* ===== verification/Fts_Safety.thy ===== *)
theory Fts_Safety
  imports Fts
begin

text \<open>
  What a probe cycle of the fault tolerance service guarantees whatever the network does: the
  states a pair goes through, what the configuration says in each of them, and that the cycle ends.
\<close>

section \<open>Phases and stages\<close>

text \<open>A pair is probed, then synchronous replication is turned off or the mirror is promoted.\<close>

datatype phase = Probing | TurningOff | Promoting | Done

fun phase_of :: "FtsMessageState \<Rightarrow> phase" where
  "phase_of FTS_PROBE_SEGMENT = Probing"
| "phase_of FTS_PROBE_RETRY_WAIT = Probing"
| "phase_of FTS_PROBE_SUCCESS = Probing"
| "phase_of FTS_PROBE_FAILED = Probing"
| "phase_of FTS_SYNCREP_OFF_SEGMENT = TurningOff"
| "phase_of FTS_SYNCREP_OFF_RETRY_WAIT = TurningOff"
| "phase_of FTS_SYNCREP_OFF_SUCCESS = TurningOff"
| "phase_of FTS_SYNCREP_OFF_FAILED = TurningOff"
| "phase_of FTS_PROMOTE_SEGMENT = Promoting"
| "phase_of FTS_PROMOTE_RETRY_WAIT = Promoting"
| "phase_of FTS_PROMOTE_SUCCESS = Promoting"
| "phase_of FTS_PROMOTE_FAILED = Promoting"
| "phase_of FTS_RESPONSE_PROCESSED = Done"

definition is_wait_state :: "FtsMessageState \<Rightarrow> bool" where
  "is_wait_state s \<longleftrightarrow> s \<in> {FTS_PROBE_RETRY_WAIT, FTS_SYNCREP_OFF_RETRY_WAIT, FTS_PROMOTE_RETRY_WAIT}"

text \<open>A segment that waits or is done has no connection and nothing to poll.\<close>

definition at_rest :: "fts_segment_info \<Rightarrow> bool" where
  "at_rest i \<longleftrightarrow> (is_wait_state (state i) \<or> state i = FTS_RESPONSE_PROCESSED) \<and> poll_events i = 0 \<and> \<not> conn i"

text \<open>Between two rounds, while messages are exchanged, and when a response may have arrived.\<close>

definition round_ok :: "fts_segment_info \<Rightarrow> bool" where
  "round_ok i \<longleftrightarrow> is_message_state (state i) \<or> at_rest i"

definition exchange_ok :: "fts_segment_info \<Rightarrow> bool" where
  "exchange_ok i \<longleftrightarrow> is_message_state (state i) \<or> IsFtsMessageStateFailed (state i) \<or> at_rest i"

definition response_ok :: "fts_segment_info \<Rightarrow> bool" where
  "response_ok i \<longleftrightarrow> exchange_ok i \<or> IsFtsMessageStateSuccess (state i)"

lemmas stage_defs = round_ok_def exchange_ok_def response_ok_def at_rest_def is_message_state_def
  IsFtsMessageStateFailed_def IsFtsMessageStateSuccess_def is_wait_state_def ftsResponseReady_def

text \<open>The recorded result: only a successful probe has one, and an in-sync mirror is alive.\<close>

definition result_ok :: "fts_segment_info \<Rightarrow> bool" where
  "result_ok i \<longleftrightarrow>
     (phase_of (state i) = Probing \<longrightarrow> isPrimaryAlive (result i) = (state i = FTS_PROBE_SUCCESS)) \<and>
     (state i = FTS_PROBE_SUCCESS \<longrightarrow> isInSync (result i) \<longrightarrow> isMirrorAlive (result i))"

definition sane_response :: "FtsResponse \<Rightarrow> bool" where
  "sane_response resp \<longleftrightarrow> (IsInSync resp \<longrightarrow> IsMirrorUp resp)"

definition sane_round :: "FtsRound \<Rightarrow> bool" where
  "sane_round r \<longleftrightarrow> (\<forall>content resp. query_result (round_io r content) = Response resp \<longrightarrow> sane_response resp)"

text \<open>
  What exchanging messages does to a pair: its segments and its phase stay, and its state stays
  unless a message was to be sent and now has a response or failed.
\<close>

definition same_pair :: "fts_segment_info \<Rightarrow> fts_segment_info \<Rightarrow> bool" where
  "same_pair i j \<longleftrightarrow> primary_cdbinfo j = primary_cdbinfo i \<and> mirror_cdbinfo j = mirror_cdbinfo i \<and>
     phase_of (state j) = phase_of (state i) \<and>
     (state j = state i \<or> is_message_state (state i) \<and> ftsResponseReady j)"

text \<open>Errors that the network or the operating system cause.\<close>

definition outside_error :: "FtsError \<Rightarrow> bool" where
  "outside_error e \<longleftrightarrow> e \<in> {CannotCreateConnection, InvalidPollResponse, PollFailed}"

section \<open>The exchange of messages\<close>

text \<open>\<open>steps_to Q f i\<close>: the step ends in a segment of the same pair with \<open>Q\<close>, or with an outside error.\<close>

definition steps_to :: "(fts_segment_info \<Rightarrow> bool) \<Rightarrow> FtsError + fts_segment_info \<Rightarrow> fts_segment_info \<Rightarrow> bool" where
  "steps_to Q x i \<longleftrightarrow>
     (case x of Inl e \<Rightarrow> outside_error e
      | Inr j \<Rightarrow> same_pair i j \<and> Q j \<and> result_ok j \<and> retry_count j = retry_count i)"

lemma steps_to_simps [simp]:
  "steps_to Q (Inl e) i = outside_error e"
  "steps_to Q (Inr j) i \<longleftrightarrow> same_pair i j \<and> Q j \<and> result_ok j \<and> retry_count j = retry_count i"
  by (simp_all add: steps_to_def)

lemma set_failed_steps:
  assumes "exchange_ok j" "\<not> at_rest j" "result_ok j" "same_pair i j" "retry_count j = retry_count i"
  shows "steps_to exchange_ok (set_failed j) i"
  using assms by (cases "state j") (auto simp: set_failed_def stage_defs result_ok_def same_pair_def)

lemma message_stateD:
  "is_message_state (state i) \<Longrightarrow> exchange_ok i \<and> \<not> at_rest i \<and> state i \<noteq> FTS_PROBE_SUCCESS"
  by (auto simp: stage_defs)

lemma steps_to_recovery:
  "steps_to exchange_ok x i \<Longrightarrow>
   steps_to exchange_ok (bindE x (\<lambda>j. Inr (checkIfFailedDueToRecoveryInProgress io j))) i"
  by (cases x) (auto simp: checkIfFailedDueToRecoveryInProgress_def Let_def same_pair_def exchange_ok_def
      at_rest_def result_ok_def ftsResponseReady_def split: RecoveryMessage.splits)

text \<open>A change of the fields that the stages of a messaging segment do not look at.\<close>

lemma message_state_cong:
  assumes "is_message_state (state i)" "result_ok i" "state j = state i" "result j = result i" "retry_count j = retry_count i"
    "primary_cdbinfo j = primary_cdbinfo i" "mirror_cdbinfo j = mirror_cdbinfo i"
  shows "exchange_ok j" "\<not> at_rest j" "result_ok j" "same_pair i j"
  using assms by (auto simp: stage_defs result_ok_def same_pair_def)

lemma connect_steps:
  assumes "round_ok i" "result_ok i"
  shows "steps_to exchange_ok (connect_segment io i) i"
proof (cases "is_message_state (state i) \<and> \<not> (conn i \<and> connect_status_ok io)")
  case False
  then show ?thesis using assms by (auto simp: connect_segment_def round_ok_def exchange_ok_def same_pair_def)
next
  case True
  then have m: "is_message_state (state i)" by simp
  have c: "steps_to exchange_ok (Inr j) i" "steps_to exchange_ok (set_failed j) i"
    if "state j = state i" "result j = result i" "retry_count j = retry_count i"
      "primary_cdbinfo j = primary_cdbinfo i" "mirror_cdbinfo j = mirror_cdbinfo i" for j
    using message_state_cong [OF m assms(2) that] set_failed_steps [of j i] that by auto
  show ?thesis
    using True
    by (auto simp: connect_segment_def Let_def ftsConnectStart_def outside_error_def
        simp del: steps_to_simps(2) intro!: c steps_to_recovery split: PostgresPollingStatusType.splits)
qed

lemma poll_steps:
  assumes "exchange_ok i" "result_ok i"
  shows "steps_to exchange_ok (poll_segment g now io i) i"
proof (cases "wants_poll i")
  case False
  then show ?thesis using assms by (simp add: poll_segment_def same_pair_def)
next
  case True
  then have nr: "\<not> at_rest i" by (auto simp: wants_poll_def at_rest_def)
  define sub where "sub = (\<lambda>j. exchange_ok j \<and> (is_message_state (state j) \<or> IsFtsMessageStateFailed (state j)) \<and>
    result_ok j \<and> same_pair i j \<and> retry_count j = retry_count i)"
  have timeout: "steps_to exchange_ok (ftsCheckTimeout g j now) i" if "sub j" for j
    using that set_failed_steps [of j i]
    by (auto simp: sub_def ftsCheckTimeout_def at_rest_def is_wait_state_def is_message_state_def IsFtsMessageStateFailed_def)
  have fail: "\<exists>k. set_failed j = Inr k \<and> sub k" if "sub j" for j
    using that by (cases "state j") (auto simp: sub_def set_failed_def stage_defs result_ok_def same_pair_def)
  have s: "sub (i\<lparr>poll_revents := v\<rparr>)" "sub (i\<lparr>poll_revents := v, poll_events := w\<rparr>)" for v w
    using assms nr by (auto simp: sub_def stage_defs result_ok_def same_pair_def)
  obtain k where k: "set_failed (i\<lparr>poll_revents := revents io\<rparr>) = Inr k" "sub k" using fail [OF s(1)] by blast
  show ?thesis
    using True s k by (auto simp: poll_segment_def Let_def simp del: steps_to_simps intro!: timeout)
qed

lemma send_steps:
  assumes "exchange_ok i" "result_ok i"
  shows "steps_to exchange_ok (send_segment io i) i"
proof (cases "is_message_state (state i)")
  case True
  have "steps_to exchange_ok (Inr i) i" "steps_to exchange_ok (Inr (i\<lparr>poll_events := POLLIN\<rparr>)) i"
    using message_state_cong [OF True assms(2), of "i\<lparr>poll_events := POLLIN\<rparr>"] assms by (simp_all add: same_pair_def)
  moreover have "steps_to exchange_ok (set_failed i) i"
    using set_failed_steps [of i i] message_stateD [OF True] assms by (simp add: same_pair_def)
  ultimately show ?thesis using True by (simp add: send_segment_def del: steps_to_simps)
next
  case False
  then show ?thesis using assms by (simp add: send_segment_def same_pair_def)
qed

lemma steps_to_weaken: "steps_to Q x i \<Longrightarrow> (\<And>j. Q j \<Longrightarrow> R j) \<Longrightarrow> steps_to R x i"
  by (cases x) auto

lemma receive_steps:
  assumes "exchange_ok i" "result_ok i" and sane: "\<And>resp. query_result io = Response resp \<Longrightarrow> sane_response resp"
  shows "steps_to response_ok (receive_segment io i) i"
proof (cases "is_message_state (state i)")
  case True
  have "steps_to exchange_ok (set_failed i) i"
    using set_failed_steps [of i i] message_stateD [OF True] assms(2) by (simp add: same_pair_def)
  then have f: "steps_to response_ok (set_failed i) i"
    by (rule steps_to_weaken) (simp add: response_ok_def)
  have "steps_to response_ok (Inr i) i" using assms by (simp add: same_pair_def response_ok_def)
  moreover have "steps_to response_ok (bindE (nextSuccessState (state (probeRecordResponse i resp)))
      (\<lambda>s. Inr ((probeRecordResponse i resp)\<lparr>state := s\<rparr>))) i"
    if "query_result io = Response resp" for resp
    using True sane [OF that]
    by (cases "state i") (auto simp: probeRecordResponse_def stage_defs same_pair_def result_ok_def sane_response_def)
  ultimately show ?thesis using True f
    by (auto simp: receive_segment_def Let_def simp del: steps_to_simps split: QueryResult.splits)
next
  case False
  then show ?thesis using assms by (simp add: receive_segment_def same_pair_def response_ok_def)
qed

lemma same_pair_trans: "same_pair i j \<Longrightarrow> same_pair j k \<Longrightarrow> same_pair i k"
  by (cases "state j") (auto simp: same_pair_def stage_defs)

lemma steps_to_bind:
  assumes "steps_to Q x i" "\<And>j. Q j \<Longrightarrow> result_ok j \<Longrightarrow> x = Inr j \<Longrightarrow> steps_to R (f j) j"
  shows "steps_to R (bindE x f) i"
proof (cases x)
  case (Inr j)
  then have "steps_to R (f j) j" "same_pair i j" "retry_count j = retry_count i" using assms by auto
  then show ?thesis using Inr same_pair_trans by (cases "f j") auto
qed (use assms(1) in simp)

text \<open>How a retry changes a pair: it waits for another attempt or starts the one it waited for.\<close>

definition retried :: "FtsSettings \<Rightarrow> fts_segment_info \<Rightarrow> fts_segment_info \<Rightarrow> bool" where
  "retried g i j \<longleftrightarrow>
     primary_cdbinfo j = primary_cdbinfo i \<and> mirror_cdbinfo j = mirror_cdbinfo i \<and> phase_of (state j) = phase_of (state i) \<and>
     (state j = state i \<and> retry_count j = retry_count i \<or>
      ftsResponseReady i \<and> is_wait_state (state j) \<and> retry_count j = retry_count i + 1 \<and>
        retry_count i \<noteq> gp_fts_probe_retries g \<or>
      is_wait_state (state i) \<and> is_message_state (state j) \<and> retry_count j = retry_count i)"

lemma retry_steps:
  assumes "response_ok i" "result_ok i"
  shows "retried g i (retry_segment g now i) \<and> response_ok (retry_segment g now i) \<and> result_ok (retry_segment g now i)"
  using assms
  by (cases "state i")
    (auto simp: retry_segment_def retryForFtsFailed_def stage_defs retried_def result_ok_def empty_result_def)

section \<open>All pairs\<close>

definition lists_to ::
  "(fts_segment_info \<Rightarrow> bool) \<Rightarrow> FtsError + fts_segment_info list \<Rightarrow> fts_segment_info list \<Rightarrow> bool" where
  "lists_to Q x is \<longleftrightarrow>
     (case x of Inl e \<Rightarrow> outside_error e | Inr js \<Rightarrow> list_all2 (\<lambda>i j. steps_to Q (Inr j) i) is js)"

lemma lists_to_for_each:
  assumes "\<And>i. i \<in> set is \<Longrightarrow> steps_to Q (f i) i"
  shows "lists_to Q (for_each f is) is"
  using assms
proof (induction "is")
  case (Cons i "is")
  have "steps_to Q (f i) i" "lists_to Q (for_each f is) is" using Cons by auto
  then show ?case
    by (cases "f i"; cases "for_each f is") (auto simp: lists_to_def)
qed (simp add: lists_to_def)

lemma lists_to_bind:
  assumes x: "lists_to Q x is"
    and f: "\<And>js. x = Inr js \<Longrightarrow> list_all (\<lambda>j. Q j \<and> result_ok j) js \<Longrightarrow> lists_to R (f js) js"
  shows "lists_to R (bindE x f) is"
proof (cases x)
  case (Inr js)
  have js: "list_all2 (\<lambda>i j. steps_to Q (Inr j) i) is js" using x Inr by (simp add: lists_to_def)
  then have "list_all (\<lambda>j. Q j \<and> result_ok j) js"
    by (auto simp: list_all_iff in_set_conv_nth list_all2_conv_all_nth)
  then have k: "lists_to R (f js) js" using f Inr by simp
  show ?thesis
  proof (cases "f js")
    case (Inr ks)
    have "list_all2 (\<lambda>i j. steps_to R (Inr j) i) is ks"
      using js k Inr same_pair_trans
      by (fastforce simp: lists_to_def list_all2_conv_all_nth)
    then show ?thesis using \<open>x = Inr js\<close> Inr by (simp add: lists_to_def)
  qed (use k \<open>x = Inr js\<close> in \<open>simp add: lists_to_def\<close>)
qed (use x in \<open>simp add: lists_to_def\<close>)

lemma steps_to_fd_index:
  "exchange_ok i \<Longrightarrow> result_ok i \<Longrightarrow> steps_to exchange_ok (Inr (i\<lparr>fd_index := n\<rparr>)) i"
  by (auto simp: same_pair_def result_ok_def exchange_ok_def at_rest_def)

lemma number_fds_to:
  "list_all (\<lambda>i. exchange_ok i \<and> result_ok i) is \<Longrightarrow>
   list_all2 (\<lambda>i j. steps_to exchange_ok (Inr j) i) is (number_fds n is)"
  by (induction n "is" rule: number_fds.induct) (auto intro: steps_to_fd_index simp del: steps_to_simps)

lemma ftsPoll_to:
  assumes "list_all (\<lambda>i. exchange_ok i \<and> result_ok i) is"
  shows "lists_to exchange_ok (ftsPoll g r is) is"
proof -
  have n: "lists_to exchange_ok (Inr (number_fds 0 is)) is" using number_fds_to [OF assms] by (simp add: lists_to_def)
  have "lists_to exchange_ok (bindE (Inr (number_fds 0 is)) (\<lambda>context.
      if list_all (\<lambda>i. \<not> wants_poll i) context then Inr context
         else if poll_error r then Inl PollFailed
         else for_each (\<lambda>i. poll_segment g (poll_now r) (io_of r i) i) context)) is"
  proof (rule lists_to_bind [OF n])
    fix js assume js: "list_all (\<lambda>j. exchange_ok j \<and> result_ok j) js"
    have "lists_to exchange_ok (Inr js) js"
      using js by (auto simp: lists_to_def list_all2_conv_all_nth list_all_length same_pair_def)
    moreover have "lists_to exchange_ok (for_each (\<lambda>i. poll_segment g (poll_now r) (io_of r i) i) js) js"
      using js by (intro lists_to_for_each poll_steps) (auto simp: list_all_iff)
    ultimately show "lists_to exchange_ok (if list_all (\<lambda>i. \<not> wants_poll i) js then Inr js
         else if poll_error r then Inl PollFailed
         else for_each (\<lambda>i. poll_segment g (poll_now r) (io_of r i) i) js) js"
      by (auto simp: lists_to_def outside_error_def)
  qed
  then show ?thesis by (simp add: ftsPoll_def Let_def)
qed

definition exchange :: "FtsSettings \<Rightarrow> FtsRound \<Rightarrow> fts_segment_info list \<Rightarrow> FtsError + fts_segment_info list" where
  "exchange g r context =
     bindE (ftsConnect r context) (\<lambda>context. bindE (ftsPoll g r context) (\<lambda>context.
       bindE (ftsSend r context) (\<lambda>context. ftsReceive r context)))"

lemma fts_round_exchange:
  "fts_round g act r context sh = bindE (exchange g r context) (\<lambda>context. processResponse act (processRetry g r context) sh)"
  by (simp add: fts_round_def exchange_def bindE_def split: sum.splits)

lemma exchange_to:
  assumes "list_all (\<lambda>i. round_ok i \<and> result_ok i) is" "sane_round r"
  shows "lists_to response_ok (exchange g r is) is"
proof -
  have "lists_to exchange_ok (ftsConnect r is) is"
    unfolding ftsConnect_def by (rule lists_to_for_each) (use assms(1) connect_steps in \<open>auto simp: list_all_iff\<close>)
  moreover have "lists_to response_ok (ftsReceive r js) js" if "list_all (\<lambda>j. exchange_ok j \<and> result_ok j) js" for js
    unfolding ftsReceive_def
    by (rule lists_to_for_each, rule receive_steps) (use that assms(2) in \<open>auto simp: list_all_iff sane_round_def\<close>)
  moreover have "lists_to exchange_ok (ftsSend r js) js" if "list_all (\<lambda>j. exchange_ok j \<and> result_ok j) js" for js
    unfolding ftsSend_def
    by (rule lists_to_for_each, rule send_steps) (use that in \<open>auto simp: list_all_iff\<close>)
  ultimately show ?thesis unfolding exchange_def
    by (intro lists_to_bind [where Q = exchange_ok] ftsPoll_to) auto
qed

section \<open>The configuration\<close>

definition pair_ok :: "GpSegConfigEntry \<Rightarrow> GpSegConfigEntry \<Rightarrow> bool" where
  "pair_ok P M \<longleftrightarrow>
     role P = GP_SEGMENT_CONFIGURATION_ROLE_PRIMARY \<and> role M = GP_SEGMENT_CONFIGURATION_ROLE_MIRROR \<and>
     status P = GP_SEGMENT_CONFIGURATION_STATUS_UP \<and>
     status M \<in> {GP_SEGMENT_CONFIGURATION_STATUS_UP, GP_SEGMENT_CONFIGURATION_STATUS_DOWN} \<and>
     mode M = mode P \<and> mode P \<in> {GP_SEGMENT_CONFIGURATION_MODE_INSYNC, GP_SEGMENT_CONFIGURATION_MODE_NOTINSYNC} \<and>
     (SEGMENT_IS_IN_SYNC P \<longrightarrow> SEGMENT_IS_ALIVE M)"

text \<open>A row with a new role, status and mode.\<close>

definition row :: "GpSegConfigEntry \<Rightarrow> char \<Rightarrow> bool \<Rightarrow> bool \<Rightarrow> GpSegConfigEntry" where
  "row s newRole alive insync = s\<lparr>role := newRole, status := status_char alive, mode := mode_char insync\<rparr>"

abbreviation primary_row :: "GpSegConfigEntry \<Rightarrow> bool \<Rightarrow> bool \<Rightarrow> GpSegConfigEntry" where
  "primary_row s \<equiv> row s GP_SEGMENT_CONFIGURATION_ROLE_PRIMARY"

abbreviation mirror_row :: "GpSegConfigEntry \<Rightarrow> bool \<Rightarrow> bool \<Rightarrow> GpSegConfigEntry" where
  "mirror_row s \<equiv> row s GP_SEGMENT_CONFIGURATION_ROLE_MIRROR"

text \<open>The rows and status bytes of a pair.\<close>

definition recorded :: "FtsShared \<Rightarrow> GpSegConfigEntry \<Rightarrow> bool" where
  "recorded sh s \<longleftrightarrow> gp_segment_configuration sh (dbid s) = Some s \<and>
     FTS_STATUS_IS_DOWN (fts_status sh (dbid s)) = (\<not> SEGMENT_IS_ALIVE s)"

lemma row_simps [simp]:
  "dbid (row s c a b) = dbid s" "segindex (row s c a b) = segindex s" "role (row s c a b) = c"
  "SEGMENT_IS_ALIVE (row s c a b) = a" "SEGMENT_IS_IN_SYNC (row s c a b) = b"
  "status (row s c a b) = status_char a" "mode (row s c a b) = mode_char b"
  by (auto simp: row_def SEGMENT_IS_ALIVE_def SEGMENT_IS_IN_SYNC_def status_char_def mode_char_def config_char_defs)

lemma pair_rows:
  assumes "pair_ok P M"
  shows "P = primary_row P True (SEGMENT_IS_IN_SYNC P)" "M = mirror_row M (SEGMENT_IS_ALIVE M) (SEGMENT_IS_IN_SYNC P)"
    "SEGMENT_IS_ALIVE P" "SEGMENT_IS_IN_SYNC M = SEGMENT_IS_IN_SYNC P"
  using assms
  by (auto simp: pair_ok_def row_def SEGMENT_IS_ALIVE_def SEGMENT_IS_IN_SYNC_def status_char_def mode_char_def)

lemma status_bits [simp]:
  "FTS_STATUS_IS_DOWN (FTS_STATUS_SET_UP s) = False" "FTS_STATUS_IS_DOWN (FTS_STATUS_SET_DOWN s) = True"
proof -
  have "(s AND NOT 1) AND 1 = (0::uint8)" "(s OR 1) AND 1 = (1::uint8)"
    by (auto simp: bit_eq_iff bit_simps)
  then show "FTS_STATUS_IS_DOWN (FTS_STATUS_SET_UP s) = False" "FTS_STATUS_IS_DOWN (FTS_STATUS_SET_DOWN s) = True"
    by (simp_all add: FTS_STATUS_IS_DOWN_def FTS_STATUS_SET_UP_def FTS_STATUS_SET_DOWN_def FTS_STATUS_DOWN_def)
qed

text \<open>An update changes nothing but the rows and status bytes of its pair.\<close>

definition outside :: "int set \<Rightarrow> FtsShared \<Rightarrow> FtsShared \<Rightarrow> bool" where
  "outside D sh sh' \<longleftrightarrow> (\<forall>d. d \<notin> D \<longrightarrow>
     gp_segment_configuration sh' d = gp_segment_configuration sh d \<and> fts_status sh' d = fts_status sh d)"

abbreviation only_pair :: "GpSegConfigEntry \<Rightarrow> GpSegConfigEntry \<Rightarrow> FtsShared \<Rightarrow> FtsShared \<Rightarrow> bool" where
  "only_pair P M \<equiv> outside {dbid P, dbid M}"

lemma probeWalRepUpdateConfig_writes:
  assumes "gp_segment_configuration sh (dbid s) = Some s" "\<not> u \<Longrightarrow> row s c alive insync = s"
  shows "\<exists>sh'. (if u then probeWalRepUpdateConfig (dbid s) content c alive insync sh else Inr sh) = Inr sh' \<and>
    gp_segment_configuration sh' = (gp_segment_configuration sh)(dbid s \<mapsto> row s c alive insync) \<and>
    fts_status sh' = fts_status sh"
  using assms by (auto simp: probeWalRepUpdateConfig_def Let_def row_def)

lemma updateConfiguration_writes:
  assumes "recorded sh P" "recorded sh M" "dbid P \<noteq> dbid M"
    and "insync \<noteq> SEGMENT_IS_IN_SYNC P \<or> row P newP pa insync = P \<or> pa \<noteq> SEGMENT_IS_ALIVE P"
    and "insync \<noteq> SEGMENT_IS_IN_SYNC P \<or> row M newM ma insync = M \<or> ma \<noteq> SEGMENT_IS_ALIVE M"
  shows "\<exists>upd sh'. updateConfiguration P M newP newM insync pa ma sh = Inr (upd, sh') \<and>
    recorded sh' (row P newP pa insync) \<and> recorded sh' (row M newM ma insync) \<and> only_pair P M sh sh' \<and>
    (upd \<longleftrightarrow> row P newP pa insync \<noteq> P \<or> row M newM ma insync \<noteq> M)"
proof -
  let ?up = "insync \<noteq> SEGMENT_IS_IN_SYNC P \<or> pa \<noteq> SEGMENT_IS_ALIVE P"
  let ?um = "insync \<noteq> SEGMENT_IS_IN_SYNC P \<or> ma \<noteq> SEGMENT_IS_ALIVE M"
  have c: "gp_segment_configuration sh (dbid P) = Some P" "gp_segment_configuration sh (dbid M) = Some M"
    using assms(1,2) by (auto simp: recorded_def)
  have u: "?up \<or> ?um \<longleftrightarrow> row P newP pa insync \<noteq> P \<or> row M newM ma insync \<noteq> M"
    using assms(4,5) row_simps(4,5) by metis
  have P: "\<not> ?up \<Longrightarrow> row P newP pa insync = P" and M: "\<not> ?um \<Longrightarrow> row M newM ma insync = M" using assms(4,5) by auto
  obtain sh1 where sh1: "(if ?up then probeWalRepUpdateConfig (dbid P) (segindex P) newP pa insync sh else Inr sh) = Inr sh1"
    "gp_segment_configuration sh1 = (gp_segment_configuration sh)(dbid P \<mapsto> row P newP pa insync)"
    "fts_status sh1 = fts_status sh"
    using probeWalRepUpdateConfig_writes [OF c(1) P] by blast
  have "gp_segment_configuration sh1 (dbid M) = Some M" using sh1(2) c(2) assms(3) by simp
  from probeWalRepUpdateConfig_writes [OF this M]
  obtain sh2 where sh2: "(if ?um then probeWalRepUpdateConfig (dbid M) (segindex M) newM ma insync sh1 else Inr sh1) = Inr sh2"
    "gp_segment_configuration sh2 = (gp_segment_configuration sh1)(dbid M \<mapsto> row M newM ma insync)"
    "fts_status sh2 = fts_status sh1" by blast
  show ?thesis
  proof (cases "?up \<or> ?um")
    case False
    then show ?thesis using u P M assms(1,2) by (auto simp: updateConfiguration_def Let_def outside_def)
  next
    case True
    let ?sh = "set_fts_status (dbid M) ma (set_fts_status (dbid P) pa sh2)"
    have "updateConfiguration P M newP newM insync pa ma sh = Inr (True, ?sh)"
      using True sh1(1) sh2(1) unfolding updateConfiguration_def Let_def by simp
    moreover have "recorded ?sh (row P newP pa insync) \<and> recorded ?sh (row M newM ma insync) \<and> only_pair P M sh ?sh"
      using assms(3) by (auto simp: recorded_def outside_def set_fts_status_def sh1 sh2)
    ultimately show ?thesis using u True by blast
  qed
qed

text \<open>The two updates of a probe cycle: recording what the primary reported, and a promotion.\<close>

lemma keep_roles:
  assumes ok: "pair_ok P M" and r: "recorded sh P" "recorded sh M" "dbid P \<noteq> dbid M"
  shows "\<exists>upd sh'. updateConfiguration P M GP_SEGMENT_CONFIGURATION_ROLE_PRIMARY GP_SEGMENT_CONFIGURATION_ROLE_MIRROR
      insync True alive sh = Inr (upd, sh') \<and>
    recorded sh' (primary_row P True insync) \<and> recorded sh' (mirror_row M alive insync) \<and> only_pair P M sh sh'"
proof -
  have P: "insync = SEGMENT_IS_IN_SYNC P \<Longrightarrow> primary_row P True insync = P"
    using pair_rows(1) [OF ok, symmetric] by (simp only:)
  have M: "insync = SEGMENT_IS_IN_SYNC P \<Longrightarrow> alive = SEGMENT_IS_ALIVE M \<Longrightarrow> mirror_row M alive insync = M"
    using pair_rows(2) [OF ok, symmetric] by (simp only:)
  have "\<exists>upd sh'. updateConfiguration P M GP_SEGMENT_CONFIGURATION_ROLE_PRIMARY GP_SEGMENT_CONFIGURATION_ROLE_MIRROR
      insync True alive sh = Inr (upd, sh') \<and> recorded sh' (primary_row P True insync) \<and>
    recorded sh' (mirror_row M alive insync) \<and> only_pair P M sh sh' \<and>
    (upd \<longleftrightarrow> primary_row P True insync \<noteq> P \<or> mirror_row M alive insync \<noteq> M)"
    by (rule updateConfiguration_writes [OF r]) (use P M in blast)+
  then show ?thesis by blast
qed

lemma swap_roles:
  assumes ok: "pair_ok P M" and r: "recorded sh P" "recorded sh M" "dbid P \<noteq> dbid M" and "SEGMENT_IS_IN_SYNC M"
  shows "\<exists>upd sh'. updateConfiguration P M GP_SEGMENT_CONFIGURATION_ROLE_MIRROR GP_SEGMENT_CONFIGURATION_ROLE_PRIMARY
      False False (SEGMENT_IS_ALIVE M) sh = Inr (upd, sh') \<and> upd \<and>
    recorded sh' (mirror_row P False False) \<and> recorded sh' (primary_row M True False) \<and> only_pair P M sh sh'"
proof -
  have "SEGMENT_IS_IN_SYNC P" "SEGMENT_IS_ALIVE M" "SEGMENT_IS_ALIVE P"
    using assms(5) pair_rows [OF ok] ok by (auto simp: pair_ok_def)
  note f = this
  have n: "mirror_row P False False \<noteq> P" using f(3) row_simps(4) by metis
  have "\<exists>upd sh'. updateConfiguration P M GP_SEGMENT_CONFIGURATION_ROLE_MIRROR GP_SEGMENT_CONFIGURATION_ROLE_PRIMARY
      False False True sh = Inr (upd, sh') \<and> recorded sh' (mirror_row P False False) \<and>
    recorded sh' (primary_row M True False) \<and> only_pair P M sh sh' \<and>
    (upd \<longleftrightarrow> mirror_row P False False \<noteq> P \<or> primary_row M True False \<noteq> M)"
    by (rule updateConfiguration_writes [OF r]) (use f in blast)+
  then show ?thesis using n f(2) by auto
qed

section \<open>Processing\<close>

text \<open>
  What is recorded about a pair in each phase. While a promotion message is to be sent, the roles
  are already exchanged, or the primary said that it still acts as a mirror.
\<close>

definition pair_is :: "GpSegConfigEntry \<Rightarrow> GpSegConfigEntry \<Rightarrow> fts_segment_info \<Rightarrow> bool" where
  "pair_is P M i \<longleftrightarrow> primary_cdbinfo i = P \<and> mirror_cdbinfo i = M"

definition kept :: "GpSegConfigEntry \<Rightarrow> GpSegConfigEntry \<Rightarrow> FtsShared \<Rightarrow> bool" where
  "kept P M sh \<longleftrightarrow>
     (\<exists>alive insync. (insync \<longrightarrow> alive) \<and> recorded sh (primary_row P True insync) \<and> recorded sh (mirror_row M alive insync))"

definition swapped :: "GpSegConfigEntry \<Rightarrow> GpSegConfigEntry \<Rightarrow> FtsShared \<Rightarrow> bool" where
  "swapped P M sh \<longleftrightarrow>
     SEGMENT_IS_IN_SYNC M \<and> recorded sh (mirror_row P False False) \<and> recorded sh (primary_row M True False)"

definition phase_ok :: "GpSegConfigEntry \<Rightarrow> GpSegConfigEntry \<Rightarrow> fts_segment_info \<Rightarrow> FtsShared \<Rightarrow> bool" where
  "phase_ok P M i sh \<longleftrightarrow>
     (case phase_of (state i) of
        Probing \<Rightarrow> pair_is P M i \<and> recorded sh P \<and> recorded sh M
      | TurningOff \<Rightarrow> pair_is P M i \<and> recorded sh (primary_row P True False) \<and> recorded sh (mirror_row M False False)
      | Promoting \<Rightarrow> pair_is M P i \<and> swapped P M sh \<or> pair_is P M i \<and> recorded sh P \<and> recorded sh M
      | Done \<Rightarrow> kept P M sh \<or> swapped P M sh)"

lemma recorded_outside: "outside D sh sh' \<Longrightarrow> dbid s \<notin> D \<Longrightarrow> recorded sh s \<Longrightarrow> recorded sh' s"
  by (simp add: outside_def recorded_def)

lemma phase_ok_outside:
  assumes "outside D sh sh'" "dbid P \<notin> D" "dbid M \<notin> D" "phase_ok P M i sh"
  shows "phase_ok P M i sh'"
proof -
  have r: "recorded sh s \<Longrightarrow> recorded sh' s" if "dbid s = dbid P \<or> dbid s = dbid M" for s
    using recorded_outside [OF assms(1)] that assms(2,3) by metis
  have "kept P M sh \<Longrightarrow> kept P M sh'" unfolding kept_def using r row_simps(1) by metis
  moreover have "swapped P M sh \<Longrightarrow> swapped P M sh'" unfolding swapped_def using r row_simps(1) by metis
  ultimately show ?thesis
    using assms(4) r by (cases "phase_of (state i)") (auto simp: phase_ok_def)
qed

lemma keptI:
  "(insync \<longrightarrow> alive) \<Longrightarrow> recorded sh (primary_row P True insync) \<Longrightarrow> recorded sh (mirror_row M alive insync) \<Longrightarrow> kept P M sh"
  by (auto simp: kept_def)

lemma kept_unchanged: "pair_ok P M \<Longrightarrow> recorded sh P \<Longrightarrow> recorded sh M \<Longrightarrow> kept P M sh"
  unfolding kept_def using pair_rows [of P M] by (metis pair_ok_def)

text \<open>The phase after a response was processed: a probe may lead to another message, which has its
  own attempts; everything else ends the pair's work for this cycle.\<close>

definition advanced :: "fts_segment_info \<Rightarrow> fts_segment_info \<Rightarrow> bool" where
  "advanced i j \<longleftrightarrow>
     (if ftsResponseReady i
      then retry_count j = 0 \<and>
        (state j = FTS_RESPONSE_PROCESSED \<or>
         phase_of (state i) = Probing \<and> is_message_state (state j) \<and> phase_of (state j) \<in> {TurningOff, Promoting})
      else j = i)"

definition processed_to ::
  "GpSegConfigEntry \<Rightarrow> GpSegConfigEntry \<Rightarrow> fts_segment_info \<Rightarrow> FtsShared \<Rightarrow> FtsError + bool \<times> fts_segment_info \<times> FtsShared \<Rightarrow> bool" where
  "processed_to P M i sh x \<longleftrightarrow>
     (\<exists>upd j sh'. x = Inr (upd, j, sh') \<and> phase_ok P M j sh' \<and> only_pair P M sh sh' \<and>
        round_ok j \<and> result_ok j \<and> advanced i j)"

definition reset :: "fts_segment_info \<Rightarrow> fts_segment_info" where
  "reset i = i\<lparr>result := empty_result, conn := False, poll_events := 0, poll_revents := 0, retry_count := 0\<rparr>"

lemma processed_toI:
  assumes "process_switch i sh = Inr (upd, j, sh')" "ftsResponseReady i" "phase_ok P M j sh'" "only_pair P M sh sh'"
    and "state j = FTS_RESPONSE_PROCESSED \<or>
      phase_of (state i) = Probing \<and> (state j = FTS_SYNCREP_OFF_SEGMENT \<or> state j = FTS_PROMOTE_SEGMENT)"
  shows "processed_to P M i sh (process_segment i sh)"
proof -
  have "process_segment i sh = Inr (upd, reset j, sh')"
    using assms(1,2) by (simp add: process_segment_def reset_def)
  moreover have "phase_ok P M (reset j) sh'"
    using assms(3) by (cases "phase_of (state j)") (auto simp: phase_ok_def reset_def pair_is_def)
  moreover have "round_ok (reset j) \<and> result_ok (reset j) \<and> advanced i (reset j)"
    using assms(2,5) by (auto simp: stage_defs result_ok_def reset_def advanced_def empty_result_def)
  ultimately show ?thesis using assms(4) unfolding processed_to_def by blast
qed

lemma outside_refl [simp]: "outside D sh sh"
  by (simp add: outside_def)

lemma phase_ok_done: "state j = FTS_RESPONSE_PROCESSED \<Longrightarrow> kept P M sh \<or> swapped P M sh \<Longrightarrow> phase_ok P M j sh"
  by (simp add: phase_ok_def)

lemma process_probe_success:
  assumes ok: "pair_ok P M" "dbid P \<noteq> dbid M" and i: "phase_ok P M i sh" "result_ok i" and st: "state i = FTS_PROBE_SUCCESS"
  shows "processed_to P M i sh (process_segment i sh)"
proof -
  let ?res = "result i"
  have p: "primary_cdbinfo i = P" "mirror_cdbinfo i = M" "recorded sh P" "recorded sh M"
    using i(1) st by (simp_all add: phase_ok_def pair_is_def)
  have res: "isPrimaryAlive ?res" "isInSync ?res \<Longrightarrow> isMirrorAlive ?res" using i(2) st by (simp_all add: result_ok_def)
  have rdy: "ftsResponseReady i" using st by (simp add: stage_defs)
  obtain upd sh' where u: "updateConfiguration P M GP_SEGMENT_CONFIGURATION_ROLE_PRIMARY GP_SEGMENT_CONFIGURATION_ROLE_MIRROR
      (isInSync ?res) True (isMirrorAlive ?res) sh = Inr (upd, sh')"
    "recorded sh' (primary_row P True (isInSync ?res))" "recorded sh' (mirror_row M (isMirrorAlive ?res) (isInSync ?res))"
    "only_pair P M sh sh'" using keep_roles [OF ok(1) p(3,4) ok(2)] by blast
  have k: "kept P M sh'" using u res(2) by (auto simp: kept_def)
  have k0: "kept P M sh" by (rule kept_unchanged [OF ok(1) p(3,4)])
  show ?thesis
  proof (cases "isSyncRepEnabled ?res \<and> \<not> isMirrorAlive ?res")
    case True
    then have "\<not> isInSync ?res" using res(2) by blast
    then show ?thesis using True u k0 p st rdy res
      by (cases "retryRequested ?res")
        (auto simp: process_switch_def Let_def phase_ok_def pair_is_def intro!: processed_toI)
  next
    case False
    then show ?thesis using u k p st rdy res
      by (cases "isRoleMirror ?res")
        (auto simp: process_switch_def Let_def phase_ok_def pair_is_def intro!: processed_toI)
  qed
qed

lemma process_probe_failed:
  assumes ok: "pair_ok P M" "dbid P \<noteq> dbid M" and i: "phase_ok P M i sh" "result_ok i" and st: "state i = FTS_PROBE_FAILED"
  shows "processed_to P M i sh (process_segment i sh)"
proof -
  have p: "primary_cdbinfo i = P" "mirror_cdbinfo i = M" "recorded sh P" "recorded sh M"
    using i(1) st by (simp_all add: phase_ok_def pair_is_def)
  have res: "\<not> isPrimaryAlive (result i)" using i(2) st by (simp add: result_ok_def)
  have rdy: "ftsResponseReady i" using st by (simp add: stage_defs)
  have k0: "kept P M sh" by (rule kept_unchanged [OF ok(1) p(3,4)])
  show ?thesis
  proof (cases "\<not> recovery_making_progress i \<and> SEGMENT_IS_IN_SYNC M")
    case True
    obtain upd sh' where u: "updateConfiguration P M GP_SEGMENT_CONFIGURATION_ROLE_MIRROR GP_SEGMENT_CONFIGURATION_ROLE_PRIMARY
        False False (SEGMENT_IS_ALIVE M) sh = Inr (upd, sh')" "swapped P M sh'" "only_pair P M sh sh'"
      using swap_roles [OF ok(1) p(3,4) ok(2)] True by (auto simp: swapped_def)
    then show ?thesis using True p st rdy res
      by (auto simp: process_switch_def Let_def phase_ok_def pair_is_def intro!: processed_toI)
  next
    case False
    then show ?thesis using k0 p st rdy res
      by (cases "recovery_making_progress i")
        (auto simp: process_switch_def Let_def phase_ok_def pair_is_def intro!: processed_toI)
  qed
qed

lemma process_segment_to:
  assumes ok: "pair_ok P M" "dbid P \<noteq> dbid M" and i: "phase_ok P M i sh" "response_ok i" "result_ok i"
  shows "processed_to P M i sh (process_segment i sh)"
proof (cases "ftsResponseReady i")
  case False
  then have "round_ok i" using i(2) by (auto simp: stage_defs)
  then show ?thesis unfolding processed_to_def using False i by (auto simp: process_segment_def advanced_def)
next
  case True
  consider "state i = FTS_PROBE_SUCCESS" | "state i = FTS_PROBE_FAILED"
    | "state i \<in> {FTS_SYNCREP_OFF_FAILED, FTS_PROMOTE_FAILED, FTS_PROMOTE_SUCCESS, FTS_SYNCREP_OFF_SUCCESS}"
    using True by (auto simp: stage_defs)
  then show ?thesis
  proof cases
    case 3
    have "kept P M sh \<or> swapped P M sh"
      using 3 i(1) kept_unchanged [OF ok(1), of sh] keptI [of False False sh P M] by (auto simp: phase_ok_def)
    then show ?thesis
      using 3 True by (auto simp: process_switch_def Let_def intro!: processed_toI phase_ok_done)
  qed (use process_probe_success [OF ok i(1,3)] process_probe_failed [OF ok i(1,3)] in auto)
qed

end
