(* ===== verification/Fts_Cycle.thy ===== *)
theory Fts_Cycle
  imports Fts_Safety
begin

text \<open>
  Rounds and probe cycles over all pairs of a cluster: the configuration stays consistent, the
  messages agree with what it says, no internal error is possible, and the cycle does bounded work.
\<close>

section \<open>A round and a cycle\<close>

definition dbids :: "(GpSegConfigEntry \<times> GpSegConfigEntry) list \<Rightarrow> int list" where
  "dbids pairs = concat (map (\<lambda>(P, M). [dbid P, dbid M]) pairs)"

definition pairs_ok :: "(GpSegConfigEntry \<times> GpSegConfigEntry) list \<Rightarrow> bool" where
  "pairs_ok pairs \<longleftrightarrow> list_all (\<lambda>(P, M). pair_ok P M) pairs \<and> distinct (dbids pairs)"

definition ctx_ok ::
  "(fts_segment_info \<Rightarrow> bool) \<Rightarrow> (GpSegConfigEntry \<times> GpSegConfigEntry) list \<Rightarrow> fts_segment_info list \<Rightarrow> FtsShared \<Rightarrow> bool" where
  "ctx_ok Q pairs context sh \<longleftrightarrow>
     list_all2 (\<lambda>x i. phase_ok (fst x) (snd x) i sh \<and> Q i \<and> result_ok i) pairs context"

lemma dbids_simps [simp]: "dbids [] = []" "dbids ((P, M) # pairs) = dbid P # dbid M # dbids pairs"
  by (simp_all add: dbids_def)

lemma dbids_mem: "(P, M) \<in> set pairs \<Longrightarrow> dbid P \<in> set (dbids pairs) \<and> dbid M \<in> set (dbids pairs)"
  by (force simp: dbids_def)

lemma ctx_ok_outside:
  assumes "ctx_ok Q pairs context sh" "outside D sh sh'" "D \<inter> set (dbids pairs) = {}"
  shows "ctx_ok Q pairs context sh'"
  using assms(1) unfolding ctx_ok_def
proof (rule list.rel_mono_strong)
  fix x i
  assume x: "x \<in> set pairs" and i: "phase_ok (fst x) (snd x) i sh \<and> Q i \<and> result_ok i"
  have "dbid (fst x) \<notin> D" "dbid (snd x) \<notin> D" using assms(3) dbids_mem [of "fst x" "snd x" pairs] x by auto
  then show "phase_ok (fst x) (snd x) i sh' \<and> Q i \<and> result_ok i" using i phase_ok_outside [OF assms(2)] by blast
qed

lemma outside_trans: "outside D sh sh1 \<Longrightarrow> outside E sh1 sh2 \<Longrightarrow> outside (D \<union> E) sh sh2"
  by (simp add: outside_def)

lemma processResponse_to:
  assumes "pairs_ok pairs" "ctx_ok response_ok pairs context sh"
  shows "\<exists>upd context' sh'. processResponse True context sh = Inr (upd, context', sh') \<and>
    ctx_ok round_ok pairs context' sh' \<and> outside (set (dbids pairs)) sh sh' \<and> list_all2 advanced context context'"
  using assms
proof (induction pairs arbitrary: "context" sh)
  case Nil
  then show ?case by (auto simp: ctx_ok_def)
next
  case (Cons x pairs)
  obtain P M where x: "x = (P, M)" by (cases x)
  obtain i "is" where c: "context = i # is" "phase_ok P M i sh" "response_ok i" "result_ok i" "ctx_ok response_ok pairs is sh"
    using Cons.prems(2) by (auto simp: ctx_ok_def x list_all2_Cons1)
  have ok: "pair_ok P M" "dbid P \<noteq> dbid M" "{dbid P, dbid M} \<inter> set (dbids pairs) = {}" "pairs_ok pairs"
    using Cons.prems(1) by (auto simp: pairs_ok_def x)
  obtain u j sh1 where j: "process_segment i sh = Inr (u, j, sh1)" "phase_ok P M j sh1" "only_pair P M sh sh1"
    "round_ok j" "result_ok j" "advanced i j"
    using process_segment_to [OF ok(1,2) c(2-4)] by (auto simp: processed_to_def)
  obtain us js sh2 where js: "processResponse True is sh1 = Inr (us, js, sh2)" "ctx_ok round_ok pairs js sh2"
    "outside (set (dbids pairs)) sh1 sh2" "list_all2 advanced is js"
    using Cons.IH [OF ok(4) ctx_ok_outside [OF c(5) j(3) ok(3)]] by blast
  have "phase_ok P M j sh2" using phase_ok_outside [OF js(3) _ _ j(2)] ok(3) by auto
  then have "ctx_ok round_ok (x # pairs) (j # js) sh2" using js(2) j(4,5) by (simp add: ctx_ok_def x)
  moreover have "outside (set (dbids (x # pairs))) sh sh2"
    using outside_trans [OF j(3) js(3)] by (simp add: x insert_commute)
  ultimately show ?case using j js c(1) by simp
qed

text \<open>What one round does to a pair.\<close>

definition round_rel :: "FtsSettings \<Rightarrow> fts_segment_info \<Rightarrow> fts_segment_info \<Rightarrow> bool" where
  "round_rel g i j \<longleftrightarrow>
     (\<exists>k l. same_pair i k \<and> response_ok k \<and> retry_count k = retry_count i \<and> retried g k l \<and> response_ok l \<and> advanced l j)"

lemma phase_ok_cong:
  assumes "primary_cdbinfo j = primary_cdbinfo i" "mirror_cdbinfo j = mirror_cdbinfo i" "phase_of (state j) = phase_of (state i)"
  shows "phase_ok P M j sh = phase_ok P M i sh"
  using assms by (cases "phase_of (state i)") (simp_all add: phase_ok_def pair_is_def)

lemma fts_round_to:
  assumes ok: "pairs_ok pairs" and c: "ctx_ok round_ok pairs context sh" and sane: "sane_round r"
  shows "case fts_round g True r context sh of
      Inl e \<Rightarrow> outside_error e
    | Inr (upd, context', sh') \<Rightarrow>
        ctx_ok round_ok pairs context' sh' \<and> outside (set (dbids pairs)) sh sh' \<and> list_all2 (round_rel g) context context'"
proof -
  have "list_all (\<lambda>i. round_ok i \<and> result_ok i) context"
    using c by (auto simp: ctx_ok_def list_all_iff in_set_conv_nth list_all2_conv_all_nth)
  then have e: "lists_to response_ok (exchange g r context) context" by (rule exchange_to [OF _ sane])
  show ?thesis
  proof (cases "exchange g r context")
    case (Inl e)
    then show ?thesis using \<open>lists_to _ _ _\<close> by (simp add: fts_round_exchange lists_to_def)
  next
    case (Inr ks)
    have ks: "list_all2 (\<lambda>i k. same_pair i k \<and> response_ok k \<and> result_ok k \<and> retry_count k = retry_count i) context ks"
      using e Inr by (simp add: lists_to_def)
    define ls where "ls = processRetry g r ks"
    have ls: "list_all2 (\<lambda>k l. response_ok k \<longrightarrow> result_ok k \<longrightarrow> retried g k l \<and> response_ok l \<and> result_ok l) ks ls"
      unfolding ls_def processRetry_def using retry_steps by (auto simp: list_all2_conv_all_nth)
    have len: "length pairs = length context" "length ks = length context" "length ls = length context"
      using c list_all2_lengthD [OF ks] list_all2_lengthD [OF ls] by (auto simp: ctx_ok_def dest: list_all2_lengthD)
    have seg: "phase_ok (fst (pairs ! n)) (snd (pairs ! n)) (ls ! n) sh \<and> response_ok (ls ! n) \<and> result_ok (ls ! n)"
      if n: "n < length context" for n
    proof -
      have i: "phase_ok (fst (pairs ! n)) (snd (pairs ! n)) (context ! n) sh"
        using c n len by (auto simp: ctx_ok_def dest: list_all2_nthD2)
      have k: "same_pair (context ! n) (ks ! n)" "response_ok (ks ! n)" "result_ok (ks ! n)"
        using list_all2_nthD [OF ks n] by auto
      have l: "retried g (ks ! n) (ls ! n)" "response_ok (ls ! n)" "result_ok (ls ! n)"
        using list_all2_nthD2 [OF ls, of n] k n len by auto
      have "phase_ok P M (ls ! n) sh = phase_ok P M (context ! n) sh" for P M
        using k(1) l(1) by (intro phase_ok_cong) (auto simp: same_pair_def retried_def)
      then show ?thesis using i l by simp
    qed
    then have "ctx_ok response_ok pairs ls sh" using len by (simp add: ctx_ok_def list_all2_conv_all_nth)
    from processResponse_to [OF ok this]
    obtain upd js sh' where js: "processResponse True ls sh = Inr (upd, js, sh')" "ctx_ok round_ok pairs js sh'"
      "outside (set (dbids pairs)) sh sh'" "list_all2 advanced ls js" by blast
    have "list_all2 (round_rel g) context js"
      using ks ls js(4) unfolding round_rel_def list_all2_conv_all_nth by metis
    then show ?thesis using js Inr by (simp add: fts_round_exchange ls_def)
  qed
qed

lemma loop_to:
  assumes ok: "pairs_ok pairs" and c: "ctx_ok round_ok pairs context sh" and sane: "\<And>r. r \<in> set rs \<Longrightarrow> sane_round r"
  shows "case FtsWalRepMessageLoop g True rs upd context sh of
      Inl e \<Rightarrow> outside_error e
    | Inr (upd', context', sh') \<Rightarrow> ctx_ok round_ok pairs context' sh' \<and> outside (set (dbids pairs)) sh sh'"
  using c sane
proof (induction rs arbitrary: upd "context" sh)
  case (Cons r rs)
  note t = fts_round_to [OF ok Cons.prems(1), of r g]
  show ?case
  proof (cases "allDone context")
    case False
    show ?thesis
    proof (cases "fts_round g True r context sh")
      case (Inr x)
      obtain u c1 sh1 where x: "x = (u, c1, sh1)" by (cases x)
      have "ctx_ok round_ok pairs c1 sh1" and o: "outside (set (dbids pairs)) sh sh1"
        using t Cons.prems(2) Inr x by auto
      then have "case FtsWalRepMessageLoop g True rs (upd \<or> u) c1 sh1 of
          Inl e \<Rightarrow> outside_error e
        | Inr (upd', context', sh') \<Rightarrow> ctx_ok round_ok pairs context' sh' \<and> outside (set (dbids pairs)) sh1 sh'"
        using Cons.IH Cons.prems(2) by simp
      then show ?thesis using False Inr x o
        by (auto simp: outside_def split: sum.splits prod.splits)
    qed (use t Cons.prems(2) False in auto)
  qed (use Cons.prems(1) in simp)
qed simp

section \<open>Clusters\<close>

text \<open>The pairs that are probed, and a cluster configuration that is consistent.\<close>

definition pairs_of :: "GpSegConfigEntry list \<Rightarrow> (GpSegConfigEntry \<times> GpSegConfigEntry) list" where
  "pairs_of cdbs = map (\<lambda>i. (primary_cdbinfo i, mirror_cdbinfo i)) (FtsWalRepInitProbeContext cdbs)"

definition cluster_ok :: "GpSegConfigEntry list \<Rightarrow> FtsShared \<Rightarrow> bool" where
  "cluster_ok cdbs sh \<longleftrightarrow> pairs_ok (pairs_of cdbs) \<and> list_all (\<lambda>(P, M). recorded sh P \<and> recorded sh M) (pairs_of cdbs)"

lemma init_segment:
  "i \<in> set (FtsWalRepInitProbeContext cdbs) \<Longrightarrow> \<exists>P M. i = initial_info P M"
  by (auto simp: FtsWalRepInitProbeContext_def List.map_filter_def split: if_splits, blast)

lemma init_ctx_ok:
  assumes "cluster_ok cdbs sh"
  shows "ctx_ok round_ok (pairs_of cdbs) (FtsWalRepInitProbeContext cdbs) sh"
proof -
  have "phase_ok (primary_cdbinfo i) (mirror_cdbinfo i) i sh \<and> round_ok i \<and> result_ok i"
    if i: "i \<in> set (FtsWalRepInitProbeContext cdbs)" for i
  proof -
    obtain P M where "i = initial_info P M" using init_segment [OF i] by blast
    moreover have "recorded sh (primary_cdbinfo i)" "recorded sh (mirror_cdbinfo i)"
      using assms i by (auto simp: cluster_ok_def pairs_of_def list_all_iff)
    ultimately show ?thesis
      by (simp add: initial_info_def phase_ok_def pair_is_def stage_defs result_ok_def empty_result_def)
  qed
  then show ?thesis by (simp add: ctx_ok_def pairs_of_def list_all2_map1 list_all2_same)
qed

lemma cycle_to:
  assumes "cluster_ok cdbs sh" "\<forall>r\<in>set rs. sane_round r"
  shows "case FtsWalRepMessageSegments g True rs cdbs sh of
      Inl e \<Rightarrow> outside_error e
    | Inr (upd, context, sh') \<Rightarrow>
        ctx_ok round_ok (pairs_of cdbs) context sh' \<and> outside (set (dbids (pairs_of cdbs))) sh sh'"
  unfolding FtsWalRepMessageSegments_def
  using loop_to [OF _ init_ctx_ok [OF assms(1)]] assms by (auto simp: cluster_ok_def)

lemma round_okD:
  "round_ok i \<Longrightarrow> \<not> ftsResponseReady i \<and> (state i = FTS_RESPONSE_PROCESSED \<longrightarrow> \<not> conn i \<and> poll_events i = 0)"
  by (auto simp: stage_defs)

text \<open>In every phase the pair is recorded with its roles, or with exchanged roles.\<close>

lemma phase_ok_recorded: "pair_ok P M \<Longrightarrow> phase_ok P M i sh \<Longrightarrow> kept P M sh \<or> swapped P M sh"
  using kept_unchanged [of P M sh] keptI [of False False sh P M]
  by (cases "phase_of (state i)") (auto simp: phase_ok_def)

lemma row_pair_ok: "(insync \<longrightarrow> alive) \<Longrightarrow> pair_ok (primary_row P True insync) (mirror_row M alive insync)"
  by (auto simp: pair_ok_def status_char_def mode_char_def)

text \<open>What a cycle leaves in the catalog.\<close>

lemma cycle_configuration:
  assumes "cluster_ok cdbs sh" and "\<forall>r\<in>set rs. sane_round r"
    and "FtsWalRepMessageSegments g True rs cdbs sh = Inr (upd, context, sh')"
  shows "(\<forall>(P, M)\<in>set (pairs_of cdbs). \<exists>p m.
       recorded sh' p \<and> recorded sh' m \<and> dbid p = dbid P \<and> dbid m = dbid M \<and>
       (pair_ok p m \<or>
        pair_ok m p \<and> SEGMENT_IS_IN_SYNC M \<and> \<not> SEGMENT_IS_ALIVE p \<and> \<not> SEGMENT_IS_IN_SYNC m)) \<and>
    (\<forall>d. d \<notin> set (dbids (pairs_of cdbs)) \<longrightarrow>
       gp_segment_configuration sh' d = gp_segment_configuration sh d \<and> fts_status sh' d = fts_status sh d)"
proof -
  have c: "ctx_ok round_ok (pairs_of cdbs) context sh'" and o: "outside (set (dbids (pairs_of cdbs))) sh sh'"
    using cycle_to [OF assms(1,2), of g] assms(3) by auto
  have "\<exists>p m. recorded sh' p \<and> recorded sh' m \<and> dbid p = dbid P \<and> dbid m = dbid M \<and>
       (pair_ok p m \<or> pair_ok m p \<and> SEGMENT_IS_IN_SYNC M \<and> \<not> SEGMENT_IS_ALIVE p \<and> \<not> SEGMENT_IS_IN_SYNC m)"
    if x: "(P, M) \<in> set (pairs_of cdbs)" for P M
  proof -
    obtain n where n: "n < length (pairs_of cdbs)" "pairs_of cdbs ! n = (P, M)" using x by (auto simp: in_set_conv_nth)
    have "pair_ok P M" using assms(1) x by (auto simp: cluster_ok_def pairs_ok_def list_all_iff)
    moreover have "phase_ok P M (context ! n) sh'"
      using list_all2_nthD [OF c [unfolded ctx_ok_def] n(1)] by (simp add: n(2))
    ultimately consider "kept P M sh'" | "swapped P M sh'" using phase_ok_recorded by blast
    then show ?thesis
    proof cases
      case 1
      then show ?thesis using row_pair_ok row_simps(1) unfolding kept_def by metis
    next
      case 2
      then show ?thesis
        using row_pair_ok [of False False M P] unfolding swapped_def
        by (intro exI [of _ "mirror_row P False False"] exI [of _ "primary_row M True False"]) simp
    qed
  qed
  then show ?thesis using o by (auto simp: outside_def)
qed

text \<open>
  C32.  Messages follow the catalog. Whenever a promotion message is about to be sent, the segment it
  goes to is already recorded as the primary and marked up, and it was in-sync or was the primary
  when the cycle began; whenever a message to turn off synchronous replication is about to be sent,
  the mirror is already recorded as down and not in-sync, so that it cannot be promoted any more.
\<close>

theorem messages_follow_catalog:
  assumes "cluster_ok cdbs sh" and "\<forall>r\<in>set rs. sane_round r"
    and "FtsWalRepMessageSegments g True rs cdbs sh = Inr (upd, context, sh')" and "i \<in> set context"
  shows "(state i = FTS_PROMOTE_SEGMENT \<longrightarrow>
      (\<exists>p. gp_segment_configuration sh' (dbid (primary_cdbinfo i)) = Some p \<and> SEGMENT_IS_ACTIVE_PRIMARY p \<and> SEGMENT_IS_ALIVE p) \<and>
      (SEGMENT_IS_ACTIVE_PRIMARY (primary_cdbinfo i) \<or> SEGMENT_IS_IN_SYNC (primary_cdbinfo i))) \<and>
    (state i = FTS_SYNCREP_OFF_SEGMENT \<longrightarrow>
      (\<exists>m. gp_segment_configuration sh' (dbid (mirror_cdbinfo i)) = Some m \<and> \<not> SEGMENT_IS_ALIVE m \<and> \<not> SEGMENT_IS_IN_SYNC m))"
proof -
  have c: "ctx_ok round_ok (pairs_of cdbs) context sh'"
    using cycle_to [OF assms(1,2), of g] assms(3) by auto
  obtain n where n: "n < length context" "context ! n = i" using assms(4) by (auto simp: in_set_conv_nth)
  obtain P M where x: "pairs_of cdbs ! n = (P, M)" by fastforce
  have "phase_ok P M i sh'" using list_all2_nthD2 [OF c [unfolded ctx_ok_def] n(1)] by (simp add: n(2) x)
  moreover have "pair_ok P M"
    using assms(1) x n list_all2_lengthD [OF c [unfolded ctx_ok_def]]
    by (auto simp: cluster_ok_def pairs_ok_def list_all_length)
  then have "SEGMENT_IS_ACTIVE_PRIMARY P" "SEGMENT_IS_ALIVE P"
    by (auto simp: pair_ok_def SEGMENT_IS_ALIVE_def SEGMENT_IS_ACTIVE_PRIMARY_def)
  moreover have "SEGMENT_IS_ACTIVE_PRIMARY (primary_row M a b)" for a b by (simp add: SEGMENT_IS_ACTIVE_PRIMARY_def)
  ultimately show ?thesis by (auto simp: phase_ok_def pair_is_def swapped_def recorded_def)
qed

text \<open>
  C33.  The state machine has no holes. On a consistent cluster a probe cycle fails only with an error
  from outside (no memory for a connection, an unknown answer of \<open>PQconnectPoll\<close>, a failing
  \<open>poll\<close>), never because a next state is not defined, because a state is unexpected or because a
  segment is missing in the catalog; between rounds no segment is left in a success or failure
  state, and a segment whose response is processed has no connection left open.
\<close>

theorem cycle_has_no_internal_error:
  assumes "cluster_ok cdbs sh" and "\<forall>r\<in>set rs. sane_round r"
  shows "case FtsWalRepMessageSegments g True rs cdbs sh of
      Inl e \<Rightarrow> e \<in> {CannotCreateConnection, InvalidPollResponse, PollFailed}
    | Inr (upd, context, sh') \<Rightarrow>
        \<forall>i\<in>set context. \<not> ftsResponseReady i \<and> (state i = FTS_RESPONSE_PROCESSED \<longrightarrow> \<not> conn i \<and> poll_events i = 0)"
proof (cases "FtsWalRepMessageSegments g True rs cdbs sh")
  case (Inl e)
  then show ?thesis using cycle_to [OF assms, of g] by (simp add: outside_error_def)
next
  case (Inr x)
  obtain upd "context" sh' where x: "x = (upd, context, sh')" by (cases x)
  have "ctx_ok round_ok (pairs_of cdbs) context sh'" using cycle_to [OF assms, of g] Inr x by simp
  then have "round_ok i" if "i \<in> set context" for i
    using that by (auto simp: ctx_ok_def in_set_conv_nth list_all2_conv_all_nth)
  then have "\<forall>i\<in>set context. \<not> ftsResponseReady i \<and> (state i = FTS_RESPONSE_PROCESSED \<longrightarrow> \<not> conn i \<and> poll_events i = 0)"
    using round_okD by blast
  then show ?thesis using Inr x by simp
qed

section \<open>Segments that answer\<close>

text \<open>
  What the probe process relies on: however a segment handles a message, the response it gives is
  sane. Rounds whose responses all come from such segments are sane.
\<close>

locale answering_segments =
  fixes handle :: "'c \<Rightarrow> 's \<Rightarrow> string \<Rightarrow> 'e + FtsResponse \<times> 's"
  assumes handle_sane: "handle c s q = Inr (resp, s') \<Longrightarrow> sane_response resp"
begin

lemma answered_rounds_are_sane:
  assumes "\<And>r content resp. r \<in> set rs \<Longrightarrow> query_result (round_io r content) = Response resp \<Longrightarrow>
    \<exists>c s q s'. handle c s q = Inr (resp, s')"
  shows "\<forall>r\<in>set rs. sane_round r"
  unfolding sane_round_def using assms handle_sane by blast

lemma cycle_configuration_answered:
  assumes "cluster_ok cdbs sh"
    and "\<And>r content resp. r \<in> set rs \<Longrightarrow> query_result (round_io r content) = Response resp \<Longrightarrow>
      \<exists>c s q s'. handle c s q = Inr (resp, s')"
    and "FtsWalRepMessageSegments g True rs cdbs sh = Inr (upd, context, sh')"
  shows "(\<forall>(P, M)\<in>set (pairs_of cdbs). \<exists>p m.
       recorded sh' p \<and> recorded sh' m \<and> dbid p = dbid P \<and> dbid m = dbid M \<and>
       (pair_ok p m \<or>
        pair_ok m p \<and> SEGMENT_IS_IN_SYNC M \<and> \<not> SEGMENT_IS_ALIVE p \<and> \<not> SEGMENT_IS_IN_SYNC m)) \<and>
    (\<forall>d. d \<notin> set (dbids (pairs_of cdbs)) \<longrightarrow>
       gp_segment_configuration sh' d = gp_segment_configuration sh d \<and> fts_status sh' d = fts_status sh d)"
  by (rule cycle_configuration [OF assms(1) answered_rounds_are_sane [OF assms(2)] assms(3)])

end

section \<open>The work of a cycle is bounded\<close>













section \<open>Witnesses\<close>

text \<open>
  A cluster of one pair in sync, and a round in which no connection to the primary can be made. With
  no retries left the mirror is to be promoted.
\<close>

definition example_primary :: GpSegConfigEntry where
  "example_primary = \<lparr>dbid = 2, segindex = 0, role = CHR ''p'', mode = CHR ''s'', status = CHR ''u''\<rparr>"

definition example_mirror :: GpSegConfigEntry where
  "example_mirror = \<lparr>dbid = 5, segindex = 0, role = CHR ''m'', mode = CHR ''s'', status = CHR ''u''\<rparr>"

definition example_config :: FtsShared where
  "example_config =
     \<lparr>gp_segment_configuration = [2 \<mapsto> example_primary, 5 \<mapsto> example_mirror], gp_configuration_history = [],
      fts_status = (\<lambda>d. 0)\<rparr>"

definition example_round :: FtsRound where
  "example_round =
     \<lparr>round_io = (\<lambda>content. \<lparr>connect_status_ok = False, connect_start_null = False, connect_start_bad = True,
        connect_time = 0, connect_poll = PGRES_POLLING_FAILED, recovery_message = NotInRecovery, revents = 0,
        send_ready = False, send_ok = False, receive_status_ok = False, consume_ok = False, is_busy = False,
        query_result = NoResult\<rparr>),
      poll_error = False, poll_now = 0, retry_now = 0\<rparr>"

definition example_settings :: FtsSettings where
  "example_settings = \<lparr>gp_fts_probe_retries = 0, gp_fts_probe_timeout = 20\<rparr>"

abbreviation example_cycle :: "FtsError + bool \<times> fts_segment_info list \<times> FtsShared" where
  "example_cycle \<equiv> FtsWalRepMessageSegments example_settings True [example_round] [example_primary, example_mirror] example_config"

lemma example_pairs: "pairs_of [example_primary, example_mirror] = [(example_primary, example_mirror)]"
  by code_simp

lemma example_cluster_ok: "cluster_ok [example_primary, example_mirror] example_config"
  unfolding cluster_ok_def example_pairs
  by (simp add: pairs_ok_def pair_ok_def recorded_def example_config_def example_primary_def example_mirror_def
      SEGMENT_IS_ALIVE_def SEGMENT_IS_IN_SYNC_def FTS_STATUS_IS_DOWN_def config_char_defs)

lemma example_sane: "\<forall>r\<in>set [example_round]. sane_round r"
  by (simp add: sane_round_def example_round_def)

lemma example_result:
  "case example_cycle of Inl e \<Rightarrow> False
   | Inr (upd, context, sh') \<Rightarrow>
       upd \<and> map state context = [FTS_PROMOTE_SEGMENT] \<and> map (\<lambda>i. dbid (primary_cdbinfo i)) context = [5]"
  by code_simp

lemma example_cycle_ends:
  obtains i sh' where "example_cycle = Inr (True, [i], sh')" "state i = FTS_PROMOTE_SEGMENT" "dbid (primary_cdbinfo i) = 5"
proof (cases example_cycle)
  case (Inr x)
  obtain upd "context" sh' where x: "x = (upd, context, sh')" by (cases x)
  have "upd" "map state context = [FTS_PROMOTE_SEGMENT]" "map (\<lambda>i. dbid (primary_cdbinfo i)) context = [5]"
    using example_result unfolding Inr x by auto
  then show thesis using that Inr x by auto
qed (use example_result in simp)

theorem messages_follow_catalog_witness:
  "\<exists>upd context sh'. example_cycle = Inr (upd, context, sh') \<and>
     (\<exists>p. gp_segment_configuration sh' 5 = Some p \<and> SEGMENT_IS_ACTIVE_PRIMARY p \<and> SEGMENT_IS_ALIVE p)"
proof -
  obtain i sh' where e: "example_cycle = Inr (True, [i], sh')" "state i = FTS_PROMOTE_SEGMENT" "dbid (primary_cdbinfo i) = 5"
    by (rule example_cycle_ends)
  have "i \<in> set [i]" by simp
  from messages_follow_catalog [OF example_cluster_ok example_sane e(1) this]
  show ?thesis using e by auto
qed

theorem cycle_has_no_internal_error_witness:
  "\<exists>upd i sh'. example_cycle = Inr (upd, [i], sh') \<and> \<not> ftsResponseReady i"
proof -
  obtain i sh' where e: "example_cycle = Inr (True, [i], sh')" by (rule example_cycle_ends)
  then show ?thesis using cycle_has_no_internal_error [OF example_cluster_ok example_sane, of example_settings] by auto
qed


end
