(* ===== verification/CFormat.thy ===== *)
theory CFormat
  imports Prelude
begin

text \<open>
  The conversions of \<open>printf\<close> and \<open>sscanf\<close> that the modelled code uses on its message texts and
  transaction identifiers, and that scanning gives back what was printed.
\<close>

section \<open>Conversions\<close>

text \<open>The conversion \<open>%d\<close> of \<open>printf\<close>.\<close>

definition digit_char :: "nat \<Rightarrow> char" where
  "digit_char d = ''0123456789'' ! d"

fun print_nat :: "nat \<Rightarrow> string" where
  "print_nat n = (if n < 10 then [digit_char n] else print_nat (n div 10) @ [digit_char (n mod 10)])"

declare print_nat.simps [simp del]

definition print_int :: "int \<Rightarrow> string" where
  "print_int k = (if k < 0 then CHR ''-'' # print_nat (nat (- k)) else print_nat (nat k))"

text \<open>
  The conversions of \<open>sscanf\<close>: \<open>%s\<close> takes the characters up to white space, \<open>%d\<close> an optional sign and
  digits, white space in the format skips white space, anything else must match. Each gives what
  it read and the rest of the input.
\<close>

definition is_space :: "char \<Rightarrow> bool" where
  "is_space c \<longleftrightarrow> c \<in> {CHR '' '', CHR 0x09, CHR 0x0A, CHR 0x0B, CHR 0x0C, CHR 0x0D}"

definition is_digit :: "char \<Rightarrow> bool" where
  "is_digit c \<longleftrightarrow> 48 \<le> (of_char c :: nat) \<and> (of_char c :: nat) \<le> 57"

definition scan_string :: "string \<Rightarrow> (string \<times> string) option" where
  "scan_string s =
     (let s = dropWhile is_space s; w = takeWhile (\<lambda>c. \<not> is_space c) s
      in if w = [] then None else Some (w, dropWhile (\<lambda>c. \<not> is_space c) s))"

definition read_digits :: "string \<Rightarrow> int" where
  "read_digits ds = foldl (\<lambda>n c. 10 * n + (of_char c - 48)) 0 ds"

definition scan_digits :: "string \<Rightarrow> (int \<times> string) option" where
  "scan_digits s =
     (let ds = takeWhile is_digit s in if ds = [] then None else Some (read_digits ds, dropWhile is_digit s))"

definition scan_int :: "string \<Rightarrow> (int \<times> string) option" where
  "scan_int s =
     (case dropWhile is_space s of
        [] \<Rightarrow> None
      | c # cs \<Rightarrow>
          if c = CHR ''-'' then map_option (\<lambda>(n, r). (- n, r)) (scan_digits cs)
          else if c = CHR ''+'' then scan_digits cs
          else scan_digits (c # cs))"

definition scan_literal :: "string \<Rightarrow> string \<Rightarrow> string option" where
  "scan_literal l s = (if take (length l) s = l then Some (drop (length l) s) else None)"

text \<open>
  The conversions \<open>%.10u\<close> and \<open>%u\<close> of a 32-bit number. Scanning goes through \<open>strtoul\<close>, which stops at the
  largest 64-bit number, and keeps the low 32 bits.
\<close>

definition print_uint :: "uint32 \<Rightarrow> string" where
  "print_uint n = print_nat (unat n)"

definition print_uint10 :: "uint32 \<Rightarrow> string" where
  "print_uint10 n = replicate (10 - length (print_nat (unat n))) (CHR ''0'') @ print_nat (unat n)"

definition scan_uint :: "string \<Rightarrow> (uint32 \<times> string) option" where
  "scan_uint s =
     map_option (\<lambda>(n, r). (if 2 ^ 64 \<le> \<bar>n\<bar> then word_of_int (2 ^ 64 - 1) else word_of_int n, r)) (scan_int s)"

definition strncmp_eq :: "string \<Rightarrow> string \<Rightarrow> bool" where
  "strncmp_eq s l \<longleftrightarrow> take (length l) s = l"

section \<open>Scanning what was printed\<close>

lemma digit_char_props:
  assumes "d < 10"
  shows "is_digit (digit_char d)" "of_char (digit_char d) - 48 = int d" "\<not> is_space (digit_char d)"
    "digit_char d \<noteq> CHR ''-''" "digit_char d \<noteq> CHR ''+''"
proof -
  have "d \<in> {0, 1, 2, 3, 4, 5, 6, 7, 8, 9}" using assms by auto
  then show "is_digit (digit_char d)" "of_char (digit_char d) - 48 = int d" "\<not> is_space (digit_char d)"
    "digit_char d \<noteq> CHR ''-''" "digit_char d \<noteq> CHR ''+''"
    by (auto simp: digit_char_def is_digit_def is_space_def)
qed

lemma print_nat_digits: "c \<in> set (print_nat n) \<Longrightarrow> \<exists>d<10. c = digit_char d"
proof (induction n rule: print_nat.induct)
  case (1 n)
  have "\<exists>d<10. digit_char (n mod 10) = digit_char d" by (rule exI [of _ "n mod 10"]) simp
  then show ?case using 1 by (subst (asm) (2) print_nat.simps) (auto split: if_splits)
qed

lemma print_nat_not_Nil: "print_nat n \<noteq> []"
  by (subst print_nat.simps) simp

lemma read_digits_snoc: "read_digits (ds @ [c]) = 10 * read_digits ds + (of_char c - 48)"
  by (simp add: read_digits_def)

lemma read_print_nat: "read_digits (print_nat n) = int n"
proof (induction n rule: print_nat.induct)
  case (1 n)
  show ?case
  proof (cases "n < 10")
    case True
    then show ?thesis using digit_char_props(2) [of n] by (subst print_nat.simps) (simp add: read_digits_def)
  next
    case False
    then have "read_digits (print_nat n) = 10 * int (n div 10) + int (n mod 10)"
      using 1 digit_char_props(2) [of "n mod 10"] by (subst print_nat.simps) (simp add: read_digits_snoc)
    then show ?thesis by (simp add: zdiv_int zmod_int)
  qed
qed

lemma length_print_nat: "n < 10 ^ Suc k \<Longrightarrow> length (print_nat n) \<le> Suc k"
proof (induction k arbitrary: n)
  case 0
  then show ?case by (subst print_nat.simps) simp
next
  case (Suc k)
  have "n div 10 < 10 ^ Suc k" using Suc.prems by (simp add: less_mult_imp_div_less mult.commute)
  then show ?case using Suc.IH [of "n div 10"] by (subst print_nat.simps) simp
qed

text \<open>What follows a number in a message does not begin with a digit.\<close>

definition no_digit :: "string \<Rightarrow> bool" where
  "no_digit r \<longleftrightarrow> (case r of [] \<Rightarrow> True | c # _ \<Rightarrow> \<not> is_digit c)"

lemma scan_print_nat:
  assumes "no_digit r"
  shows "scan_digits (print_nat n @ r) = Some (int n, r)"
proof -
  have d: "\<forall>c\<in>set (print_nat n). is_digit c" using print_nat_digits digit_char_props(1) by blast
  have "takeWhile is_digit (print_nat n @ r) = print_nat n" "dropWhile is_digit (print_nat n @ r) = r"
    using d assms by (auto simp: no_digit_def takeWhile_tail dropWhile_append2 split: list.splits)
  then show ?thesis by (simp add: scan_digits_def print_nat_not_Nil read_print_nat)
qed

lemma scan_print_int:
  assumes "no_digit r"
  shows "scan_int (print_int k @ r) = Some (k, r)"
proof (cases "k < 0")
  case True
  then show ?thesis using scan_print_nat [OF assms, of "nat (- k)"] by (simp add: scan_int_def print_int_def is_space_def)
next
  case False
  obtain c cs where c: "print_nat (nat k) = c # cs" using print_nat_not_Nil by (cases "print_nat (nat k)") auto
  then obtain d where "d < 10" "c = digit_char d" using print_nat_digits [of c "nat k"] by auto
  then show ?thesis
    using False scan_print_nat [OF assms, of "nat k"] c digit_char_props [of d] by (simp add: scan_int_def print_int_def)
qed

lemma length_print_int:
  assumes "- 32768 \<le> k" "k \<le> 32767"
  shows "length (print_int k) \<le> 6"
proof -
  have "nat k < 10 ^ Suc 4" "nat (- k) < 10 ^ Suc 4" using assms by auto
  from this [THEN length_print_nat] show ?thesis by (simp add: print_int_def)
qed

lemma scan_literal_append [simp]: "scan_literal l (l @ r) = Some r"
  by (simp add: scan_literal_def)

lemma scan_string_word:
  assumes "w \<noteq> []" "\<forall>c\<in>set w. \<not> is_space c" "is_space s"
  shows "scan_string (w @ s # r) = Some (w, s # r)"
proof -
  have "dropWhile is_space (w @ s # r) = w @ s # r" using assms by (cases w) auto
  moreover have "takeWhile (\<lambda>c. \<not> is_space c) (w @ s # r) = w" "dropWhile (\<lambda>c. \<not> is_space c) (w @ s # r) = s # r"
    using assms(2,3) by (auto simp: takeWhile_tail dropWhile_append2)
  ultimately show ?thesis using assms(1) by (simp add: scan_string_def)
qed

lemma read_digits_zeros: "read_digits (replicate k (CHR ''0'') @ ds) = read_digits ds"
  by (induction k) (simp_all add: read_digits_def)

lemma scan_uint_digits:
  assumes "\<forall>c\<in>set ds. is_digit c" "ds \<noteq> []" "no_digit r" "read_digits ds = uint n"
  shows "scan_uint (ds @ r) = Some (n, r)"
proof -
  obtain c cs where c: "ds = c # cs" using assms(2) by (cases ds) auto
  then have "is_digit c" using assms(1) by simp
  then have "c \<noteq> CHR ''-''" "c \<noteq> CHR ''+''" "\<not> is_space c" by (auto simp: is_digit_def is_space_def)
  then have "scan_int (ds @ r) = scan_digits (ds @ r)" by (simp add: scan_int_def c)
  also have "takeWhile is_digit (ds @ r) = ds" "dropWhile is_digit (ds @ r) = r"
    using assms(1,3) by (auto simp: no_digit_def takeWhile_tail dropWhile_append2 split: list.splits)
  then have "scan_digits (ds @ r) = Some (uint n, r)" using assms(2,4) by (simp add: scan_digits_def)
  finally have "scan_int (ds @ r) = Some (uint n, r)" .
  moreover have "0 \<le> uint n" "uint n < 2 ^ 64" using unsigned_less [of n, where 'a = int] by simp_all
  ultimately show ?thesis by (simp add: scan_uint_def)
qed

lemma print_nat_all_digits: "\<forall>c\<in>set (print_nat n). is_digit c"
  using print_nat_digits digit_char_props(1) by blast

lemma scan_print_uint:
  assumes "no_digit r"
  shows "scan_uint (print_uint n @ r) = Some (n, r)"
  using scan_uint_digits [OF print_nat_all_digits print_nat_not_Nil assms, of "unat n" n]
  by (simp add: print_uint_def read_print_nat)

lemma scan_print_uint10:
  assumes "no_digit r"
  shows "scan_uint (print_uint10 n @ r) = Some (n, r)"
proof -
  have "\<forall>c\<in>set (print_uint10 n). is_digit c"
    using print_nat_all_digits [of "unat n"] by (auto simp: print_uint10_def is_digit_def)
  moreover have "print_uint10 n \<noteq> []" by (simp add: print_uint10_def print_nat_not_Nil)
  moreover have "read_digits (print_uint10 n) = uint n"
    by (simp add: print_uint10_def read_digits_zeros read_print_nat)
  ultimately show ?thesis using assms scan_uint_digits by blast
qed

end
