(* ===== verification/Fts_Segment.thy ===== *)
theory Fts_Segment
  imports Fts_Cycle CFormat
begin

text \<open>
  The segment's side of the fault tolerance service: the messages the probe process writes
  (\<open>ftsSend\<close>) and the handlers of \<open>fts/ftsmessagehandler.c\<close> that read and answer them, with
  \<open>replication/gp_replication.c\<close>.
\<close>

section \<open>Message texts\<close>

definition FTS_MSG_PROBE :: string where "FTS_MSG_PROBE = ''PROBE''"
definition FTS_MSG_SYNCREP_OFF :: string where "FTS_MSG_SYNCREP_OFF = ''SYNCREP_OFF''"
definition FTS_MSG_PROMOTE :: string where "FTS_MSG_PROMOTE = ''PROMOTE''"
definition FTS_MSG_MAX_LEN :: nat where "FTS_MSG_MAX_LEN = 100"

definition message_type :: "FtsMessageState \<Rightarrow> string" where
  "message_type s =
     (if s = FTS_PROBE_SEGMENT then FTS_MSG_PROBE
      else if s = FTS_SYNCREP_OFF_SEGMENT then FTS_MSG_SYNCREP_OFF else FTS_MSG_PROMOTE)"

text \<open>\<open>snprintf\<close> with \<open>FTS_MSG_FORMAT\<close> into a buffer of \<open>FTS_MSG_MAX_LEN\<close> bytes.\<close>

definition fts_message :: "fts_segment_info \<Rightarrow> string" where
  "fts_message ftsInfo =
     take (FTS_MSG_MAX_LEN - 1)
       (message_type (state ftsInfo) @ '' dbid='' @ print_int (dbid (primary_cdbinfo ftsInfo)) @
        '' contid='' @ print_int (segindex (primary_cdbinfo ftsInfo)))"

text \<open>The three conversions of \<open>FTS_MSG_FORMAT\<close>, or fewer.\<close>

definition scan_message :: "string \<Rightarrow> (string \<times> int \<times> int) option" where
  "scan_message s =
     (case scan_string s of None \<Rightarrow> None | Some (ty, r1) \<Rightarrow>
      case scan_literal ''dbid='' (dropWhile is_space r1) of None \<Rightarrow> None | Some r2 \<Rightarrow>
      case scan_int r2 of None \<Rightarrow> None | Some (d, r3) \<Rightarrow>
      case scan_literal ''contid='' (dropWhile is_space r3) of None \<Rightarrow> None | Some r4 \<Rightarrow>
      case scan_int r4 of None \<Rightarrow> None | Some (c, r5) \<Rightarrow> Some (ty, d, c))"

section \<open>The state of a segment\<close>

datatype WalSndState =
  WALSNDSTATE_STARTUP | WALSNDSTATE_BACKUP | WALSNDSTATE_CATCHUP | WALSNDSTATE_STREAMING | WALSNDSTATE_STOPPING

record WalSnd =
  walsnd_pid :: int
  walsnd_state :: WalSndState
  is_for_gp_walreceiver :: bool
  replica_disconnected_at :: int

datatype DBState =
  DB_STARTUP | DB_SHUTDOWNED | DB_SHUTDOWNED_IN_RECOVERY | DB_SHUTDOWNING | DB_IN_CRASH_RECOVERY
| DB_IN_ARCHIVE_RECOVERY | DB_IN_PRODUCTION

record ReplicationSlot =
  slot_name :: string
  restart_lsn :: uint64

text \<open>
  \<open>sync_standby_names\<close> is the setting in \<open>gp_replication.conf\<close>; a reload is signalled when it is
  written, and \<open>sync_standbys_defined\<close> follows later in another process. \<open>wal_position\<close> is where
  \<open>ReplicationSlotReserveWal\<close> would reserve.
\<close>

record SegmentState =
  am_mirror :: bool
  identity_dbid :: int
  identity_segindex :: int
  walsnds :: "WalSnd list"
  sync_standbys_defined :: bool
  sync_standby_names :: string
  PMAcceptingConnectionsStartTime :: int
  gp_fts_mark_mirror_down_grace_period :: int
  db_state :: DBState
  replication_slots :: "ReplicationSlot list"
  max_replication_slots :: nat
  wal_position :: uint64
  promote_signalled :: bool

datatype SegmentError = DiskCheckFailed | AllSlotsInUse | InvalidFtsQuery | UnknownFtsQuery

section \<open>Handlers\<close>

definition is_mirror_up :: "WalSnd \<Rightarrow> bool" where
  "is_mirror_up w \<longleftrightarrow> walsnd_pid w \<noteq> 0 \<and> (walsnd_state w = WALSNDSTATE_CATCHUP \<or> walsnd_state w = WALSNDSTATE_STREAMING)"

text \<open>The first WAL sender that is for the mirror, with the time its replica was lost.\<close>

fun scan_walsnds :: "WalSnd list \<Rightarrow> bool \<times> bool \<times> int" where
  "scan_walsnds [] = (False, False, 0)"
| "scan_walsnds (w # ws) =
     (if \<not> is_for_gp_walreceiver w then scan_walsnds ws
      else (is_mirror_up w, is_mirror_up w \<and> walsnd_state w = WALSNDSTATE_STREAMING, replica_disconnected_at w))"

definition GetMirrorStatus :: "int \<Rightarrow> SegmentState \<Rightarrow> FtsResponse \<Rightarrow> FtsResponse" where
  "GetMirrorStatus now seg response =
     (case scan_walsnds (walsnds seg) of
        (up, insync, disconnected_at) \<Rightarrow>
          let delta = now - max disconnected_at (PMAcceptingConnectionsStartTime seg)
          in response\<lparr>IsMirrorUp := up, IsInSync := insync,
               RequestRetry := (\<not> up \<and> delta < gp_fts_mark_mirror_down_grace_period seg \<and> delta \<ge> 0),
               IsSyncRepEnabled := sync_standbys_defined seg\<rparr>)"

definition SetSyncStandbysDefined :: "SegmentState \<Rightarrow> SegmentState" where
  "SetSyncStandbysDefined seg =
     (if \<not> sync_standbys_defined seg then seg\<lparr>sync_standby_names := ''*''\<rparr> else seg)"

definition UnsetSyncStandbysDefined :: "SegmentState \<Rightarrow> SegmentState" where
  "UnsetSyncStandbysDefined seg =
     (if sync_standbys_defined seg then seg\<lparr>sync_standby_names := []\<rparr> else seg)"

text \<open>
  The check of the data directory: whether it fails, and whether the probe file is unlinked. What
  the file operations did is input.
\<close>

datatype OpenResult = Opened | NoSuchFile | OpenError

record DiskIO =
  open_result :: OpenResult
  create_ok :: bool
  first_write_ok :: bool
  read_ok :: bool
  magic_ok :: bool
  seek_ok :: bool
  write_ok :: bool

definition checkIODataDirectory :: "DiskIO \<Rightarrow> bool \<times> bool" where
  "checkIODataDirectory io =
     (let (fd, failure) =
            (case open_result io of
               NoSuchFile \<Rightarrow> if \<not> create_ok io then (False, True) else (True, \<not> first_write_ok io)
             | OpenError \<Rightarrow> (False, True)
             | Opened \<Rightarrow>
                 if \<not> read_ok io then (True, True)
                 else if \<not> magic_ok io then (True, True)
                 else if \<not> seek_ok io then (True, True)
                 else if \<not> write_ok io then (True, True)
                 else (True, False))
      in (failure, fd \<and> failure))"

definition empty_response :: FtsResponse where
  "empty_response = \<lparr>IsMirrorUp = False, IsInSync = False, IsSyncRepEnabled = False, IsRoleMirror = False, RequestRetry = False\<rparr>"

definition HandleFtsWalRepProbe :: "int \<Rightarrow> DiskIO \<Rightarrow> SegmentState \<Rightarrow> SegmentError + FtsResponse \<times> SegmentState" where
  "HandleFtsWalRepProbe now io seg =
     (let (response, seg1) =
            (if am_mirror seg then (empty_response\<lparr>IsRoleMirror := True\<rparr>, seg)
             else
               let response = GetMirrorStatus now seg empty_response
               in if IsMirrorUp response \<and> \<not> IsSyncRepEnabled response
                  then (response\<lparr>IsSyncRepEnabled := True\<rparr>, SetSyncStandbysDefined seg)
                  else (response, seg))
      in if fst (checkIODataDirectory io) then Inl DiskCheckFailed else Inr (response, seg1))"

definition HandleFtsWalRepSyncRepOff :: "int \<Rightarrow> SegmentState \<Rightarrow> FtsResponse \<times> SegmentState" where
  "HandleFtsWalRepSyncRepOff now seg =
     (let seg1 = UnsetSyncStandbysDefined seg in (GetMirrorStatus now seg1 empty_response, seg1))"

definition INTERNAL_WAL_REPLICATION_SLOT_NAME :: string where
  "INTERNAL_WAL_REPLICATION_SLOT_NAME = ''internal_wal_replication_slot''"

text \<open>
  The slot of that name is created if there is none, and WAL is reserved for it unless a position
  was set before.
\<close>

definition CreateReplicationSlotOnPromote :: "string \<Rightarrow> SegmentState \<Rightarrow> SegmentError + SegmentState" where
  "CreateReplicationSlotOnPromote name seg =
     (let named = (\<lambda>s. slot_name s = name);
          slots = replication_slots seg
      in bindE (if list_ex named slots then Inr slots
                else if length slots \<ge> max_replication_slots seg then Inl AllSlotsInUse
                else Inr (slots @ [\<lparr>slot_name = name, restart_lsn = 0\<rparr>])) (\<lambda>slots.
         Inr (seg\<lparr>replication_slots :=
           map (\<lambda>s. if named s \<and> restart_lsn s = 0 then s\<lparr>restart_lsn := wal_position seg\<rparr> else s) slots\<rparr>)))"

definition HandleFtsWalRepPromote :: "SegmentState \<Rightarrow> SegmentError + FtsResponse \<times> SegmentState" where
  "HandleFtsWalRepPromote seg =
     (let response = empty_response\<lparr>IsRoleMirror := am_mirror seg\<rparr>
      in if db_state seg = DB_IN_ARCHIVE_RECOVERY
         then bindE (CreateReplicationSlotOnPromote INTERNAL_WAL_REPLICATION_SLOT_NAME (UnsetSyncStandbysDefined seg))
                (\<lambda>seg1. Inr (response, seg1\<lparr>promote_signalled := True\<rparr>))
         else Inr (response, seg))"

text \<open>A wrong dbid or content id in the message is only a warning.\<close>

definition HandleFtsMessage :: "int \<Rightarrow> DiskIO \<Rightarrow> SegmentState \<Rightarrow> string \<Rightarrow> SegmentError + FtsResponse \<times> SegmentState" where
  "HandleFtsMessage now io seg query_string =
     (case scan_message query_string of
        None \<Rightarrow> Inl InvalidFtsQuery
      | Some (ty, d, c) \<Rightarrow>
          if strncmp_eq query_string FTS_MSG_PROBE then HandleFtsWalRepProbe now io seg
          else if strncmp_eq query_string FTS_MSG_SYNCREP_OFF then Inr (HandleFtsWalRepSyncRepOff now seg)
          else if strncmp_eq query_string FTS_MSG_PROMOTE then HandleFtsWalRepPromote seg
          else Inl UnknownFtsQuery)"

section \<open>Messages are understood\<close>

lemma message_words:
  "message_type s \<noteq> []" "\<forall>c\<in>set (message_type s). \<not> is_space c" "length (message_type s) \<le> 11"
  by (auto simp: message_type_def FTS_MSG_PROBE_def FTS_MSG_SYNCREP_OFF_def FTS_MSG_PROMOTE_def is_space_def)

lemma scan_written_message:
  assumes "w \<noteq> []" "\<forall>c\<in>set w. \<not> is_space c"
  shows "scan_message (w @ '' dbid='' @ print_int d @ '' contid='' @ print_int c) = Some (w, d, c)"
proof -
  have 1: "scan_string (w @ '' dbid='' @ print_int d @ '' contid='' @ print_int c) =
      Some (w, '' dbid='' @ print_int d @ '' contid='' @ print_int c)"
    using scan_string_word [OF assms, of "CHR '' ''"] by (simp add: is_space_def)
  have 2: "scan_int (print_int d @ '' contid='' @ print_int c) = Some (d, '' contid='' @ print_int c)"
    by (rule scan_print_int) (simp add: no_digit_def is_digit_def)
  have 3: "scan_int (print_int c) = Some (c, [])" using scan_print_int [of "[]" c] by (simp add: no_digit_def)
  have 4: "scan_literal ''dbid='' (dropWhile is_space ('' dbid='' @ r)) = Some r"
    "scan_literal ''contid='' (dropWhile is_space ('' contid='' @ r)) = Some r" for r
    by (simp_all add: is_space_def scan_literal_def)
  show ?thesis by (simp only: scan_message_def 1 2 3 4 option.case prod.case)
qed

lemma message_prefix:
  "take (length l) (message_type s @ r) = l \<longleftrightarrow> l = message_type s"
  if "l \<in> {FTS_MSG_PROBE, FTS_MSG_SYNCREP_OFF, FTS_MSG_PROMOTE}" "is_message_state s"
  using that by (auto simp: message_type_def FTS_MSG_PROBE_def FTS_MSG_SYNCREP_OFF_def FTS_MSG_PROMOTE_def is_message_state_def)

text \<open>
  C35.  Messages are understood. The text the probe process writes for a segment in one of the three
  message states fits its buffer; the segment's handler reads back the type, the dbid and the
  content id that were written, and runs the handler of that type.
\<close>

theorem message_roundtrip:
  assumes "is_message_state (state i)"
    and "- 32768 \<le> dbid (primary_cdbinfo i)" "dbid (primary_cdbinfo i) \<le> 32767"
    and "- 32768 \<le> segindex (primary_cdbinfo i)" "segindex (primary_cdbinfo i) \<le> 32767"
  shows "scan_message (fts_message i) =
      Some (message_type (state i), dbid (primary_cdbinfo i), segindex (primary_cdbinfo i)) \<and>
    HandleFtsMessage now io seg (fts_message i) =
      (case state i of
         FTS_PROBE_SEGMENT \<Rightarrow> HandleFtsWalRepProbe now io seg
       | FTS_SYNCREP_OFF_SEGMENT \<Rightarrow> Inr (HandleFtsWalRepSyncRepOff now seg)
       | _ \<Rightarrow> HandleFtsWalRepPromote seg)"
proof -
  let ?w = "message_type (state i)"
  let ?r = "'' dbid='' @ print_int (dbid (primary_cdbinfo i)) @ '' contid='' @ print_int (segindex (primary_cdbinfo i))"
  have "length (?w @ ?r) \<le> 99"
    using message_words(3) [of "state i"] length_print_int [OF assms(2,3)] length_print_int [OF assms(4,5)] by simp
  then have m: "fts_message i = ?w @ ?r" by (simp add: fts_message_def FTS_MSG_MAX_LEN_def)
  have s: "scan_message (fts_message i) = Some (?w, dbid (primary_cdbinfo i), segindex (primary_cdbinfo i))"
    unfolding m by (rule scan_written_message [OF message_words(1,2)])
  have p: "strncmp_eq (fts_message i) l \<longleftrightarrow> l = ?w"
    if "l \<in> {FTS_MSG_PROBE, FTS_MSG_SYNCREP_OFF, FTS_MSG_PROMOTE}" for l
    unfolding strncmp_eq_def m using message_prefix [OF that assms(1)] .
  have d: "FTS_MSG_PROBE \<noteq> FTS_MSG_SYNCREP_OFF" "FTS_MSG_PROBE \<noteq> FTS_MSG_PROMOTE" "FTS_MSG_SYNCREP_OFF \<noteq> FTS_MSG_PROMOTE"
    by (simp_all add: FTS_MSG_PROBE_def FTS_MSG_SYNCREP_OFF_def FTS_MSG_PROMOTE_def)
  have "HandleFtsMessage now io seg (fts_message i) =
      (case state i of
         FTS_PROBE_SEGMENT \<Rightarrow> HandleFtsWalRepProbe now io seg
       | FTS_SYNCREP_OFF_SEGMENT \<Rightarrow> Inr (HandleFtsWalRepSyncRepOff now seg)
       | _ \<Rightarrow> HandleFtsWalRepPromote seg)"
    using assms(1) d by (auto simp: HandleFtsMessage_def s p message_type_def is_message_state_def)
  then show ?thesis using s by simp
qed

section \<open>Responses\<close>

lemma scan_walsnds_sane: "scan_walsnds ws = (up, insync, t) \<Longrightarrow> insync \<Longrightarrow> up"
  by (induction ws) (auto split: if_splits)

lemma GetMirrorStatus_sane: "sane_response (GetMirrorStatus now seg resp)"
proof -
  obtain up insync t where "scan_walsnds (walsnds seg) = (up, insync, t)" by (cases "scan_walsnds (walsnds seg)") auto
  then show ?thesis using scan_walsnds_sane by (auto simp: sane_response_def GetMirrorStatus_def Let_def)
qed

lemma HandleFtsMessage_sane:
  assumes "HandleFtsMessage now io seg q = Inr (resp, seg')"
  shows "sane_response resp"
proof -
  have g: "sane_response (GetMirrorStatus now s empty_response)" for s by (rule GetMirrorStatus_sane)
  have e: "sane_response (empty_response\<lparr>IsRoleMirror := b\<rparr>)" for b by (simp add: sane_response_def empty_response_def)
  have y: "sane_response (x\<lparr>IsSyncRepEnabled := b\<rparr>) = sane_response x" for x b by (simp add: sane_response_def)
  consider "HandleFtsWalRepProbe now io seg = Inr (resp, seg')" | "HandleFtsWalRepSyncRepOff now seg = (resp, seg')"
    | "HandleFtsWalRepPromote seg = Inr (resp, seg')"
    using assms by (auto simp: HandleFtsMessage_def split: option.splits if_splits)
  then show ?thesis
  proof cases
    case 1
    then show ?thesis using g [of seg] e by (auto simp: HandleFtsWalRepProbe_def Let_def y split: if_splits)
  next
    case 2
    then show ?thesis using g by (auto simp: HandleFtsWalRepSyncRepOff_def Let_def)
  next
    case 3
    then show ?thesis using e
      by (auto simp: HandleFtsWalRepPromote_def Let_def bindE_def split: if_splits sum.splits)
  qed
qed

text \<open>The segments of the cluster are the segments the probe process relies on.\<close>

interpretation seg: answering_segments "\<lambda>(now, io) s q. HandleFtsMessage now io s q"
  by unfold_locales (auto intro: HandleFtsMessage_sane split: prod.splits)

definition answered :: "FtsRound \<Rightarrow> bool" where
  "answered r \<longleftrightarrow> (\<forall>content resp. query_result (round_io r content) = Response resp \<longrightarrow>
     (\<exists>now io s q s'. HandleFtsMessage now io s q = Inr (resp, s')))"

text \<open>
  C31.  A probe cycle keeps the configuration consistent whatever the network does, when the
  responses that arrive were given by segments. Afterwards every
  pair still has exactly one primary, marked up, and one mirror, with the same mode, and a pair that
  is marked in-sync has a live mirror; the roles were exchanged only if the mirror was in-sync when
  the cycle began, and then the old primary is marked down and the pair not in-sync; the status
  bytes of the dispatcher agree with the catalog; nothing else of the catalog changes.
\<close>

theorem cycle_keeps_configuration:
  assumes "cluster_ok cdbs sh" and "\<forall>r\<in>set rs. answered r"
    and "FtsWalRepMessageSegments g True rs cdbs sh = Inr (upd, context, sh')"
  shows "(\<forall>(P, M)\<in>set (pairs_of cdbs). \<exists>p m.
       recorded sh' p \<and> recorded sh' m \<and> dbid p = dbid P \<and> dbid m = dbid M \<and>
       (pair_ok p m \<or>
        pair_ok m p \<and> SEGMENT_IS_IN_SYNC M \<and> \<not> SEGMENT_IS_ALIVE p \<and> \<not> SEGMENT_IS_IN_SYNC m)) \<and>
    (\<forall>d. d \<notin> set (dbids (pairs_of cdbs)) \<longrightarrow>
       gp_segment_configuration sh' d = gp_segment_configuration sh d \<and> fts_status sh' d = fts_status sh d)"
  by (rule seg.cycle_configuration_answered [OF assms(1) _ assms(3)]) (use assms(2) in \<open>auto simp: answered_def\<close>)

text \<open>
  Segments answer sanely. Whatever message a segment receives in whatever state, a response it
  gives never reports a mirror in-sync that is not up, as the probe process relies on; the answer to
  a probe reports synchronous replication as enabled whenever it reports the mirror as up, and then
  the segment has it enabled or has asked for it; and a segment that acts as a mirror reports
  nothing but that.
\<close>

theorem segment_answers_sanely:
  assumes "HandleFtsMessage now io seg q = Inr (resp, seg')"
  shows "sane_response resp \<and>
    (strncmp_eq q FTS_MSG_PROBE \<longrightarrow>
       (IsMirrorUp resp \<longrightarrow> IsSyncRepEnabled resp \<and> (sync_standbys_defined seg' \<or> sync_standby_names seg' = ''*'')) \<and>
       (am_mirror seg \<longrightarrow> resp = empty_response\<lparr>IsRoleMirror := True\<rparr> \<and> seg' = seg))"
proof -
  have sane: "sane_response resp" by (rule HandleFtsMessage_sane [OF assms])
  show ?thesis
  proof (cases "strncmp_eq q FTS_MSG_PROBE")
    case True
    then have "HandleFtsWalRepProbe now io seg = Inr (resp, seg')"
      using assms by (auto simp: HandleFtsMessage_def split: option.splits)
    note h = this [unfolded HandleFtsWalRepProbe_def Let_def]
    have "IsMirrorUp resp \<longrightarrow> IsSyncRepEnabled resp \<and> (sync_standbys_defined seg' \<or> sync_standby_names seg' = ''*'')"
      using h by (auto simp: SetSyncStandbysDefined_def GetMirrorStatus_def Let_def empty_response_def split: if_splits prod.splits)
    moreover have "am_mirror seg \<longrightarrow> resp = empty_response\<lparr>IsRoleMirror := True\<rparr> \<and> seg' = seg"
      using h by (auto split: if_splits)
    ultimately show ?thesis using sane by blast
  next
    case False
    then show ?thesis using sane by simp
  qed
qed

text \<open>
  Promotion is idempotent. A segment that handled a promotion message and receives another one
  before the promotion is through answers the same and changes nothing more: no second replication
  slot is made and the WAL position reserved by the first message is kept.
\<close>

theorem promote_is_idempotent:
  assumes "HandleFtsWalRepPromote seg = Inr (resp, seg')"
  shows "HandleFtsWalRepPromote seg' = Inr (resp, seg') \<and>
    (db_state seg = DB_IN_ARCHIVE_RECOVERY \<longrightarrow>
       promote_signalled seg' \<and> list_ex (\<lambda>s. slot_name s = INTERNAL_WAL_REPLICATION_SLOT_NAME) (replication_slots seg'))"
proof (cases "db_state seg = DB_IN_ARCHIVE_RECOVERY")
  case False
  then show ?thesis using assms by (auto simp: HandleFtsWalRepPromote_def)
next
  case True
  let ?u = "UnsetSyncStandbysDefined seg"
  let ?named = "\<lambda>s. slot_name s = INTERNAL_WAL_REPLICATION_SLOT_NAME"
  let ?reserve = "\<lambda>s. if ?named s \<and> restart_lsn s = 0 then s\<lparr>restart_lsn := wal_position seg\<rparr> else s"
  have u: "replication_slots ?u = replication_slots seg" "max_replication_slots ?u = max_replication_slots seg"
    "wal_position ?u = wal_position seg" "am_mirror ?u = am_mirror seg" "db_state ?u = db_state seg"
    "sync_standbys_defined ?u = sync_standbys_defined seg"
    by (simp_all add: UnsetSyncStandbysDefined_def)
  define slots where "slots = (if list_ex ?named (replication_slots seg) then replication_slots seg
    else replication_slots seg @ [\<lparr>slot_name = INTERNAL_WAL_REPLICATION_SLOT_NAME, restart_lsn = 0\<rparr>])"
  have s: "list_ex ?named slots" "resp = empty_response\<lparr>IsRoleMirror := am_mirror seg\<rparr>"
    "seg' = ?u\<lparr>replication_slots := map ?reserve slots, promote_signalled := True\<rparr>"
    using assms True
    by (auto simp: HandleFtsWalRepPromote_def CreateReplicationSlotOnPromote_def Let_def u slots_def split: if_splits)
  have r: "map ?reserve (map ?reserve slots) = map ?reserve slots" by auto
  have "list_ex ?named (map ?reserve xs) = list_ex ?named xs" for xs by (induction xs) auto
  then have n: "list_ex ?named (map ?reserve slots)" using s(1) by blast
  have "UnsetSyncStandbysDefined seg' = seg'" by (simp add: s(3) UnsetSyncStandbysDefined_def)
  then show ?thesis
    using True n r by (simp add: HandleFtsWalRepPromote_def CreateReplicationSlotOnPromote_def Let_def s u)
qed

section \<open>Witnesses\<close>

definition example_segment :: SegmentState where
  "example_segment =
     \<lparr>am_mirror = False, identity_dbid = 2, identity_segindex = 0,
      walsnds = [\<lparr>walsnd_pid = 77, walsnd_state = WALSNDSTATE_STREAMING, is_for_gp_walreceiver = True,
        replica_disconnected_at = 0\<rparr>],
      sync_standbys_defined = False, sync_standby_names = [], PMAcceptingConnectionsStartTime = 5,
      gp_fts_mark_mirror_down_grace_period = 30, db_state = DB_IN_PRODUCTION, replication_slots = [],
      max_replication_slots = 10, wal_position = 0x1000000, promote_signalled = False\<rparr>"

definition example_disk :: DiskIO where
  "example_disk = \<lparr>open_result = Opened, create_ok = True, first_write_ok = True, read_ok = True, magic_ok = True,
     seek_ok = True, write_ok = True\<rparr>"

theorem message_roundtrip_witness:
  "scan_message (fts_message (initial_info example_primary example_mirror)) = Some (''PROBE'', 2, 0)"
  using message_roundtrip [of "initial_info example_primary example_mirror"]
  by (simp add: initial_info_def example_primary_def is_message_state_def message_type_def FTS_MSG_PROBE_def)

theorem segment_answers_sanely_witness:
  "\<exists>resp seg'. HandleFtsMessage 100 example_disk example_segment ''PROBE dbid=2 contid=0'' = Inr (resp, seg') \<and>
     sane_response resp \<and> IsSyncRepEnabled resp \<and> sync_standby_names seg' = ''*''"
proof -
  let ?h = "HandleFtsMessage 100 example_disk example_segment ''PROBE dbid=2 contid=0''"
  have "case ?h of Inl e \<Rightarrow> False | Inr (resp, seg') \<Rightarrow> IsMirrorUp resp \<and> \<not> sync_standbys_defined seg'" by code_simp
  then obtain resp seg' where h: "?h = Inr (resp, seg')" "IsMirrorUp resp" "\<not> sync_standbys_defined seg'"
    by (cases ?h) auto
  have "strncmp_eq ''PROBE dbid=2 contid=0'' FTS_MSG_PROBE" by code_simp
  then show ?thesis using segment_answers_sanely [OF h(1)] h by auto
qed

theorem promote_is_idempotent_witness:
  "\<exists>resp seg'. HandleFtsWalRepPromote (example_segment\<lparr>am_mirror := True, db_state := DB_IN_ARCHIVE_RECOVERY\<rparr>) = Inr (resp, seg') \<and>
     promote_signalled seg' \<and> HandleFtsWalRepPromote seg' = Inr (resp, seg')"
proof -
  let ?s = "example_segment\<lparr>am_mirror := True, db_state := DB_IN_ARCHIVE_RECOVERY\<rparr>"
  have "case HandleFtsWalRepPromote ?s of Inl e \<Rightarrow> False | Inr _ \<Rightarrow> True" by code_simp
  then obtain resp seg' where h: "HandleFtsWalRepPromote ?s = Inr (resp, seg')"
    by (cases "HandleFtsWalRepPromote ?s") auto
  then show ?thesis using promote_is_idempotent [OF h] by simp
qed

lemma example_answered: "\<forall>r\<in>set [example_round]. answered r"
  by (simp add: answered_def example_round_def)

theorem cycle_keeps_configuration_witness:
  "\<exists>upd context sh'. example_cycle = Inr (upd, context, sh') \<and>
     (\<exists>p m. recorded sh' p \<and> recorded sh' m \<and> dbid p = 2 \<and> dbid m = 5 \<and> (pair_ok p m \<or> pair_ok m p))"
proof -
  obtain i sh' where e: "example_cycle = Inr (True, [i], sh')" by (rule example_cycle_ends)
  then show ?thesis
    using cycle_keeps_configuration [OF example_cluster_ok example_answered e] unfolding example_pairs
    by (auto simp: example_primary_def example_mirror_def)
qed

end
