(* ===== verification/Fts_Notify.thy ===== *)
theory Fts_Notify
  imports Fts
begin

text \<open>
  Asking for a probe: the loop of the probe process (\<open>FtsLoop\<close> of \<open>fts/fts.c\<close>) counts the cycles it
  starts and finishes in shared memory, and \<open>FtsNotifyProber\<close> of \<open>cdb/cdbfts.c\<close> waits on the two
  32-bit counters until a cycle that began after the request is done.
\<close>

section \<open>Status bytes and counters\<close>

text \<open>The loop of \<open>readCdbComponentInfoAndUpdateStatus\<close> that fills the status bytes from the catalog.\<close>

fun read_status :: "GpSegConfigEntry list \<Rightarrow> (int \<Rightarrow> uint8) \<Rightarrow> int \<Rightarrow> uint8" where
  "read_status [] st = st"
| "read_status (s # ss) st =
     (let segStatus = (if \<not> SEGMENT_IS_ALIVE s then FTS_STATUS_SET_DOWN 0 else 0)
      in read_status ss (st(dbid s := segStatus)))"

definition MASTER_SEGMENT_ID :: int where "MASTER_SEGMENT_ID = -1"

definition FtsIsSegmentDown :: "(int \<Rightarrow> uint8) \<Rightarrow> GpSegConfigEntry \<Rightarrow> bool" where
  "FtsIsSegmentDown st dBInfo \<longleftrightarrow>
     (if segindex dBInfo = MASTER_SEGMENT_ID then False else FTS_STATUS_IS_DOWN (st (dbid dBInfo)))"

definition FtsTestSegmentDBIsDown :: "(int \<Rightarrow> uint8) \<Rightarrow> GpSegConfigEntry list \<Rightarrow> bool" where
  "FtsTestSegmentDBIsDown st segs \<longleftrightarrow> list_ex (FtsIsSegmentDown st) segs"

text \<open>The counters, and how many cycles were really started and finished.\<close>

record FtsProbeInfo =
  start_count :: "32 word"
  done_count :: "32 word"
  probing :: bool
  cycles_started :: nat
  cycles_done :: nat

text \<open>The steps of \<open>FtsLoop\<close> on the counters.\<close>

definition probe_starts :: "FtsProbeInfo \<Rightarrow> FtsProbeInfo" where
  "probe_starts s = s\<lparr>start_count := start_count s + 1, probing := True, cycles_started := cycles_started s + 1\<rparr>"

definition probe_ends :: "FtsProbeInfo \<Rightarrow> FtsProbeInfo" where
  "probe_ends s = s\<lparr>done_count := start_count s, probing := False, cycles_done := cycles_started s\<rparr>"

text \<open>
  Where a backend is in \<open>FtsNotifyProber\<close>: before it, waiting for a start with the count it read
  first, waiting for the end with the count it read then, or back. The last component is the number of
  cycles that had been started when it was called.
\<close>

datatype notifier = Calling | WaitingForStart "32 word" nat | WaitingForDone "32 word" nat | Returned nat

inductive notify_step :: "FtsProbeInfo \<times> notifier \<Rightarrow> FtsProbeInfo \<times> notifier \<Rightarrow> bool" where
  "\<not> probing s \<Longrightarrow> notify_step (s, n) (probe_starts s, n)"
| "probing s \<Longrightarrow> notify_step (s, n) (probe_ends s, n)"
| "notify_step (s, Calling) (s, WaitingForStart (start_count s) (cycles_started s))"
| "start_count s \<noteq> initial_started \<Longrightarrow>
     notify_step (s, WaitingForStart initial_started g) (s, WaitingForDone (start_count s) g)"
| "sint (done_count s - started) \<ge> 0 \<Longrightarrow> notify_step (s, WaitingForDone started g) (s, Returned g)"

inductive_cases notify_stepE: "notify_step (s, n) (s', n')"

section \<open>The invariant\<close>








lemma read_status_other: "d \<notin> dbid ` set ss \<Longrightarrow> read_status ss st d = st d"
  by (induction ss arbitrary: st) (auto simp: Let_def)

text \<open>
  The status bytes tell the catalog. After \<open>readCdbComponentInfoAndUpdateStatus\<close> the dispatcher's
  question whether a segment is down answers what the catalog says of it, except for the master,
  which never counts as down.
\<close>

theorem read_status_correct:
  assumes "distinct (map dbid cdbs)"
  shows "FtsTestSegmentDBIsDown (read_status cdbs st) segs \<longleftrightarrow>
      (\<exists>s\<in>set segs. segindex s \<noteq> MASTER_SEGMENT_ID \<and>
         (if dbid s \<in> dbid ` set cdbs then \<exists>c\<in>set cdbs. dbid c = dbid s \<and> \<not> SEGMENT_IS_ALIVE c
          else FTS_STATUS_IS_DOWN (st (dbid s))))"
proof -
  have "FTS_STATUS_IS_DOWN (read_status cdbs st d) \<longleftrightarrow>
      (if d \<in> dbid ` set cdbs then \<exists>c\<in>set cdbs. dbid c = d \<and> \<not> SEGMENT_IS_ALIVE c else FTS_STATUS_IS_DOWN (st d))" for d
    using assms
  proof (induction cdbs arbitrary: st)
    case (Cons c cdbs)
    show ?case
    proof (cases "d = dbid c")
      case True
      then have "d \<notin> dbid ` set cdbs" using Cons.prems by auto
      moreover from this have "\<forall>x\<in>set cdbs. dbid x \<noteq> d" by auto
      ultimately show ?thesis using True
        by (auto simp: read_status_other Let_def FTS_STATUS_IS_DOWN_def FTS_STATUS_SET_DOWN_def FTS_STATUS_DOWN_def)
    next
      case False
      then show ?thesis using Cons by (auto simp: Let_def)
    qed
  qed simp
  then show ?thesis by (auto simp: FtsTestSegmentDBIsDown_def FtsIsSegmentDown_def list_ex_iff)
qed

section \<open>Witnesses\<close>



theorem read_status_correct_witness:
  "FtsTestSegmentDBIsDown
     (read_status [\<lparr>dbid = 2, segindex = 0, role = CHR ''p'', mode = CHR ''n'', status = CHR ''u''\<rparr>,
                   \<lparr>dbid = 5, segindex = 0, role = CHR ''m'', mode = CHR ''n'', status = CHR ''d''\<rparr>] (\<lambda>d. 0))
     [\<lparr>dbid = 5, segindex = 0, role = CHR ''m'', mode = CHR ''n'', status = CHR ''d''\<rparr>]"
  by (subst read_status_correct) (auto simp: MASTER_SEGMENT_ID_def SEGMENT_IS_ALIVE_def config_char_defs)

end
