(* ===== verification/Backend.thy ===== *)
theory Backend
  imports ProcArray DistribSnapshot ComboCid CFormat PgList
begin

text \<open>
  The state of one server process that takes part in distributed transactions, shared by the
  models of \<open>cdb/cdbtm.c\<close>, \<open>access/transam/xact.c\<close> and \<open>access/transam/twophase.c\<close>: the transaction state
  stack with its block states, the distributed transaction of the session, and the node the process
  runs on (its write-ahead log, its prepared transactions and the counters in shared memory).

  Errors are values with a level; every function that can raise one returns the state it left
  behind. Where the code calls parts of the server that may fail and are not modelled, it takes the
  next element of \<open>faults\<close>: go on, raise an error, or go down with the whole node.
\<close>

section \<open>Errors\<close>

datatype Elevel = ERROR | FATAL | PANIC

datatype Reason =
  NodeDown
| SubsystemError
| UnexpectedBlockState
| UnexpectedTransState
| TooManySubtransactions
| NoSuchSavepoint
| NoSavepointName
| SavepointDispatchFailed
| NotInTransactionBlock
| InTransactionBlock
| TransactionAborted
| QEReportedError
| GangAllocationFailed
| WriterGangLost
| PrepareBroadcastFailed
| OnePhaseCommitFailed
| SubtransactionDispatchFailed
| UnexpectedDtxState
| DtmTransactionNotActive
| GlobalTransactionLimit
| CommitPreparedBroadcastFailed
| AbortBroadcastFailed
| AbortPreparedIncomplete
| UnexpectedDtxStatus
| UnexpectedDtxContext
| UnknownIsoLevel
| UnexpectedBegin
| AlreadyInTransaction
| InvalidDistributedXid
| AlreadyCommitted
| AlreadyAborted
| NoXidForDeletedFiles
| BadGid
| GidTooLong
| PreparedTransactionsDisabled
| GidInUse
| TooManyPreparedTransactions
| PreparedTransactionBusy
| PreparedTransactionNotFound
| PrepareFailed
| CommitOnePhaseFailed
| AlreadyProcessed
| UnrecognizedCommand
| TooManyDistributedTransactions
| RecoveryBroadcastFailed
| StillInDoubt

type_synonym Exit = "Elevel \<times> Reason"

text \<open>
  Going on only when a step raised no error, and \<open>PG_TRY\<close>, which catches errors but no exits; with
  \<open>rethrowS\<close> the handler ends in \<open>PG_RE_THROW\<close>.
\<close>

definition bindS :: "('e + 'a) \<times> 's \<Rightarrow> ('a \<Rightarrow> 's \<Rightarrow> ('e + 'b) \<times> 's) \<Rightarrow> ('e + 'b) \<times> 's" where
  "bindS r f = (case fst r of Inl e \<Rightarrow> (Inl e, snd r) | Inr x \<Rightarrow> f x (snd r))"

definition catchS :: "(Exit + 'a) \<times> 's \<Rightarrow> ('s \<Rightarrow> (Exit + 'a) \<times> 's) \<Rightarrow> (Exit + 'a) \<times> 's" where
  "catchS r h = (case fst r of Inl e \<Rightarrow> if fst e = ERROR then h (snd r) else r | Inr x \<Rightarrow> r)"

definition rethrowS :: "(Exit + 'a) \<times> 's \<Rightarrow> ('s \<Rightarrow> (Exit + unit) \<times> 's) \<Rightarrow> (Exit + 'a) \<times> 's" where
  "rethrowS r h = (case fst r of Inl e \<Rightarrow> if fst e = ERROR then bindS (h (snd r)) (\<lambda>_ s. (Inl e, s)) else r | Inr x \<Rightarrow> r)"

lemma bindS_simps [simp]: "bindS (Inl e, s) f = (Inl e, s)" "bindS (Inr x, s) f = f x s"
  by (simp_all add: bindS_def)

lemma catchS_simps [simp]: "catchS (Inr x, s) h = (Inr x, s)" "catchS (Inl (ERROR, r), s) h = h s"
  "l \<noteq> ERROR \<Longrightarrow> catchS (Inl (l, r), s) h = (Inl (l, r), s)"
  by (simp_all add: catchS_def)

section \<open>Transactions of the process\<close>

datatype TBlockState =
  TBLOCK_DEFAULT | TBLOCK_STARTED
| TBLOCK_BEGIN | TBLOCK_INPROGRESS | TBLOCK_END | TBLOCK_ABORT | TBLOCK_ABORT_END | TBLOCK_ABORT_PENDING
| TBLOCK_PREPARE
| TBLOCK_SUBBEGIN | TBLOCK_SUBINPROGRESS | TBLOCK_SUBRELEASE | TBLOCK_SUBCOMMIT | TBLOCK_SUBABORT
| TBLOCK_SUBABORT_END | TBLOCK_SUBABORT_PENDING | TBLOCK_SUBRESTART | TBLOCK_SUBABORT_RESTART

text \<open>
  The fields of \<open>TransactionStateData\<close> beside those of \<open>XactStack\<close>. The list of blocks has the current
  transaction first and its parents behind it, \<open>TopTransactionStateData\<close> last.
\<close>

record XactBlock =
  blockState :: TBlockState
  sp_name :: "string option"
  savepointLevel :: int
  didLogXid :: bool
  executorDidWriteXLog :: bool

section \<open>Distributed transactions of the session\<close>

datatype DtxState =
  DTX_STATE_NONE
| DTX_STATE_ACTIVE_DISTRIBUTED
| DTX_STATE_ONE_PHASE_COMMIT
| DTX_STATE_NOTIFYING_ONE_PHASE_COMMIT
| DTX_STATE_PREPARING
| DTX_STATE_PREPARED
| DTX_STATE_INSERTING_COMMITTED
| DTX_STATE_INSERTED_COMMITTED
| DTX_STATE_NOTIFYING_COMMIT_PREPARED
| DTX_STATE_INSERTING_FORGET_COMMITTED
| DTX_STATE_INSERTED_FORGET_COMMITTED
| DTX_STATE_NOTIFYING_ABORT_NO_PREPARED
| DTX_STATE_NOTIFYING_ABORT_SOME_PREPARED
| DTX_STATE_NOTIFYING_ABORT_PREPARED
| DTX_STATE_RETRY_COMMIT_PREPARED
| DTX_STATE_RETRY_ABORT_PREPARED

datatype DtxProtocolCommand =
  DTX_PROTOCOL_COMMAND_NONE
| DTX_PROTOCOL_COMMAND_ABORT_NO_PREPARED
| DTX_PROTOCOL_COMMAND_PREPARE
| DTX_PROTOCOL_COMMAND_ABORT_SOME_PREPARED
| DTX_PROTOCOL_COMMAND_COMMIT_ONEPHASE
| DTX_PROTOCOL_COMMAND_COMMIT_PREPARED
| DTX_PROTOCOL_COMMAND_ABORT_PREPARED
| DTX_PROTOCOL_COMMAND_RETRY_COMMIT_PREPARED
| DTX_PROTOCOL_COMMAND_RETRY_ABORT_PREPARED
| DTX_PROTOCOL_COMMAND_RECOVERY_COMMIT_PREPARED
| DTX_PROTOCOL_COMMAND_RECOVERY_ABORT_PREPARED
| DTX_PROTOCOL_COMMAND_SUBTRANSACTION_BEGIN_INTERNAL
| DTX_PROTOCOL_COMMAND_SUBTRANSACTION_ROLLBACK_INTERNAL
| DTX_PROTOCOL_COMMAND_SUBTRANSACTION_RELEASE_INTERNAL

record TMGXACT =
  distribTimeStamp :: DistributedTransactionTimeStamp
  gxid :: DistributedTransactionId
  xminDistributedSnapshot :: DistributedTransactionId
  includeInCkpt :: bool
  sessionId :: int

record TMGXACTLOCAL =
  dtx_state :: DtxState
  explicitBeginRemembered :: bool
  isOnePhaseCommit :: bool
  badPrepareGangs :: bool
  writerGangLost :: bool
  dtxSegmentsMap :: "int set"
  dtxSegments :: "int list"

record DtxContextInfo =
  distributedXid :: DistributedTransactionId
  distributedTimeStamp :: DistributedTransactionTimeStamp
  distributedTxnOptions :: int
  haveDistributedSnapshot :: bool
  info_nestingLevel :: int

section \<open>The node\<close>

text \<open>
  The records of the write-ahead log that transactions write, with the fields that matter here;
  the compact and the long form of a commit record are one. The first \<open>flushed\<close> records survive a
  crash, and any number of those behind them.
\<close>

datatype XLogRecord =
  XLOG_XACT_COMMIT TransactionId "TransactionId list"
| XLOG_XACT_ABORT TransactionId "TransactionId list"
| XLOG_XACT_PREPARE TransactionId "TransactionId list" string
| XLOG_XACT_COMMIT_PREPARED TransactionId "TransactionId list" DistributedTransactionTimeStamp DistributedTransactionId
| XLOG_XACT_ABORT_PREPARED TransactionId "TransactionId list"
| XLOG_XACT_DISTRIBUTED_COMMIT TransactionId "TransactionId list" string DistributedTransactionId
| XLOG_XACT_DISTRIBUTED_FORGET string DistributedTransactionId

text \<open>An entry of the array of prepared transactions; \<open>gx_xid\<close> is the id in its dummy \<open>PGPROC\<close>.\<close>

record GlobalTransactionData =
  gx_gid :: string
  gx_xid :: TransactionId
  gx_children :: "TransactionId list"
  gx_valid :: bool
  locking_backend :: int

record TMGXACT_LOG =
  log_gid :: string
  log_gxid :: DistributedTransactionId

text \<open>\<open>dtm_redo_file\<close> is the file a master in utility mode saves redone records in.\<close>

record Node =
  wal :: "XLogRecord list"
  flushed :: nat
  nextXid :: TransactionId
  prepXacts :: "GlobalTransactionData list"
  max_prepared_xacts :: nat
  shmGIDSeq :: DistributedTransactionId
  shmDistribTimeStamp :: "DistributedTransactionTimeStamp option"
  shmDtmStarted :: bool
  latestCompletedDxid :: DistributedTransactionId
  shmCommittedGxactArray :: "TMGXACT_LOG list"
  max_tm_gxacts :: nat
  dtm_redo_file :: "(bool \<times> TMGXACT_LOG) list"

datatype Fault = Proceed | Raise | Die

text \<open>
  \<open>MyLockedGxact\<close> is the gid of the entry the pointer points to. \<open>world\<close> is what the process reaches
  over the network.
\<close>

record 'w Backend =
  self :: GpProcess
  MyBackendId :: int
  xact_stack :: XactStack
  blocks :: "XactBlock list"
  prepareGID :: "string option"
  MyTmGxact :: TMGXACT
  MyTmGxactLocal :: TMGXACTLOCAL
  dtx_context :: DtxContext
  QEDtxContextInfo :: DtxContextInfo
  SharedLocalSnapshotSlot :: bool
  XactIsoLevel :: int
  XactReadOnly :: bool
  DefaultXactIsoLevel :: int
  DefaultXactReadOnly :: bool
  MyLockedGxact :: "string option"
  proc_exit_inprogress :: bool
  dtx_phase2_retry_count :: int
  faults :: "Fault list"
  node :: Node
  world :: 'w

section \<open>Raising errors\<close>

text \<open>
  \<open>errstart\<close> of \<open>utils/error/elog.c\<close>: what an error becomes while the process exits, and that an exit of
  the master between the two phases of a commit takes the whole master down.
\<close>

definition errstart :: "Elevel \<Rightarrow> 'w Backend \<Rightarrow> Elevel" where
  "errstart elevel b =
     (let elevel = (if elevel = ERROR \<and> proc_exit_inprogress b then FATAL else elevel)
      in if elevel = FATAL \<and> Gp_role (self b) = GP_ROLE_DISPATCH
         then case dtx_state (MyTmGxactLocal b) of
                DTX_STATE_PREPARING \<Rightarrow> PANIC
              | DTX_STATE_PREPARED \<Rightarrow> PANIC
              | DTX_STATE_INSERTING_COMMITTED \<Rightarrow> PANIC
              | DTX_STATE_INSERTED_COMMITTED \<Rightarrow> PANIC
              | DTX_STATE_NOTIFYING_COMMIT_PREPARED \<Rightarrow> PANIC
              | DTX_STATE_NOTIFYING_ABORT_SOME_PREPARED \<Rightarrow> PANIC
              | DTX_STATE_NOTIFYING_ABORT_PREPARED \<Rightarrow> PANIC
              | DTX_STATE_RETRY_COMMIT_PREPARED \<Rightarrow> PANIC
              | DTX_STATE_RETRY_ABORT_PREPARED \<Rightarrow> PANIC
              | DTX_STATE_NONE \<Rightarrow> FATAL
              | DTX_STATE_ACTIVE_DISTRIBUTED \<Rightarrow> FATAL
              | DTX_STATE_ONE_PHASE_COMMIT \<Rightarrow> FATAL
              | DTX_STATE_NOTIFYING_ONE_PHASE_COMMIT \<Rightarrow> FATAL
              | DTX_STATE_INSERTING_FORGET_COMMITTED \<Rightarrow> FATAL
              | DTX_STATE_INSERTED_FORGET_COMMITTED \<Rightarrow> FATAL
              | DTX_STATE_NOTIFYING_ABORT_NO_PREPARED \<Rightarrow> FATAL
         else elevel)"

definition ereport :: "Elevel \<Rightarrow> Reason \<Rightarrow> 'w Backend \<Rightarrow> (Exit + 'a) \<times> 'w Backend" where
  "ereport elevel r b = (Inl (errstart elevel b, r), b)"

text \<open>A call into a part of the server that is not modelled and may fail.\<close>

definition may_fail :: "'w Backend \<Rightarrow> (Exit + unit) \<times> 'w Backend" where
  "may_fail b =
     (case faults b of
        [] \<Rightarrow> (Inr (), b)
      | Proceed # fs \<Rightarrow> (Inr (), b\<lparr>faults := fs\<rparr>)
      | Raise # fs \<Rightarrow> ereport ERROR SubsystemError (b\<lparr>faults := fs\<rparr>)
      | Die # fs \<Rightarrow> (Inl (PANIC, NodeDown), b\<lparr>faults := fs\<rparr>))"

text \<open>
  The same in a critical section, where every error takes the node down; and inserting a record
  and flushing the log, which are such calls.
\<close>

definition may_panic :: "'w Backend \<Rightarrow> (Exit + unit) \<times> 'w Backend" where
  "may_panic b =
     (case faults b of
        [] \<Rightarrow> (Inr (), b)
      | f # fs \<Rightarrow> (if f = Proceed then Inr () else Inl (PANIC, NodeDown), b\<lparr>faults := fs\<rparr>))"

definition XLogInsert :: "XLogRecord \<Rightarrow> 'w Backend \<Rightarrow> (Exit + unit) \<times> 'w Backend" where
  "XLogInsert rec b =
     bindS (may_panic b) (\<lambda>_ b. (Inr (), b\<lparr>node := (node b)\<lparr>wal := wal (node b) @ [rec]\<rparr>\<rparr>))"

definition XLogFlush :: "'w Backend \<Rightarrow> (Exit + unit) \<times> 'w Backend" where
  "XLogFlush b =
     bindS (may_panic b) (\<lambda>_ b. (Inr (), b\<lparr>node := (node b)\<lparr>flushed := length (wal (node b))\<rparr>\<rparr>))"

section \<open>Reading the transaction state\<close>

abbreviation CurrentNode :: "'w Backend \<Rightarrow> TransactionStateData" where
  "CurrentNode b \<equiv> last (nodes (xact_stack b))"

abbreviation TopNode :: "'w Backend \<Rightarrow> TransactionStateData" where
  "TopNode b \<equiv> hd (nodes (xact_stack b))"

abbreviation CurrentBlock :: "'w Backend \<Rightarrow> XactBlock" where
  "CurrentBlock b \<equiv> hd (blocks b)"

definition set_state :: "TransState \<Rightarrow> 'w Backend \<Rightarrow> 'w Backend" where
  "set_state st b = b\<lparr>xact_stack := (xact_stack b)\<lparr>nodes :=
     butlast (nodes (xact_stack b)) @ [(CurrentNode b)\<lparr>state := st\<rparr>]\<rparr>\<rparr>"

definition set_blockState :: "TBlockState \<Rightarrow> 'w Backend \<Rightarrow> 'w Backend" where
  "set_blockState bs b = b\<lparr>blocks := (CurrentBlock b)\<lparr>blockState := bs\<rparr> # tl (blocks b)\<rparr>"

definition IsTransactionState :: "'w Backend \<Rightarrow> bool" where
  "IsTransactionState b \<longleftrightarrow> state (CurrentNode b) = TRANS_INPROGRESS"

definition IsAbortInProgress :: "'w Backend \<Rightarrow> bool" where
  "IsAbortInProgress b \<longleftrightarrow> state (CurrentNode b) = TRANS_ABORT"

definition IsTransactionPreparing :: "'w Backend \<Rightarrow> bool" where
  "IsTransactionPreparing b \<longleftrightarrow> state (CurrentNode b) = TRANS_PREPARE"

definition IsAbortedTransactionBlockState :: "'w Backend \<Rightarrow> bool" where
  "IsAbortedTransactionBlockState b \<longleftrightarrow>
     blockState (CurrentBlock b) = TBLOCK_ABORT \<or> blockState (CurrentBlock b) = TBLOCK_SUBABORT"

definition TransactionDidWriteXLog :: "'w Backend \<Rightarrow> bool" where
  "TransactionDidWriteXLog b = didLogXid (CurrentBlock b)"

definition ExecutorDidWriteXLog :: "'w Backend \<Rightarrow> bool" where
  "ExecutorDidWriteXLog b = executorDidWriteXLog (CurrentBlock b)"

definition GetTopTransactionIdIfAny :: "'w Backend \<Rightarrow> TransactionId" where
  "GetTopTransactionIdIfAny b = transactionId (TopNode b)"

definition GetCurrentTransactionIdIfAny :: "'w Backend \<Rightarrow> TransactionId" where
  "GetCurrentTransactionIdIfAny b = transactionId (CurrentNode b)"

definition MarkCurrentTransactionIdLoggedIfAny :: "'w Backend \<Rightarrow> 'w Backend" where
  "MarkCurrentTransactionIdLoggedIfAny b =
     (if TransactionIdIsValid (transactionId (CurrentNode b))
      then b\<lparr>blocks := (CurrentBlock b)\<lparr>didLogXid := True\<rparr> # tl (blocks b)\<rparr> else b)"

definition MarkCurrentTransactionWriteXLogOnExecutor :: "'w Backend \<Rightarrow> 'w Backend" where
  "MarkCurrentTransactionWriteXLogOnExecutor b =
     b\<lparr>blocks := (CurrentBlock b)\<lparr>executorDidWriteXLog := True\<rparr> # tl (blocks b)\<rparr>"

definition GetCurrentTransactionNestLevel :: "'w Backend \<Rightarrow> int" where
  "GetCurrentTransactionNestLevel b = nestingLevel (CurrentNode b)"

definition IsTransactionBlock :: "'w Backend \<Rightarrow> bool" where
  "IsTransactionBlock b \<longleftrightarrow>
     \<not> (blockState (CurrentBlock b) = TBLOCK_DEFAULT \<or> blockState (CurrentBlock b) = TBLOCK_STARTED)"

definition IsTransactionOrTransactionBlock :: "'w Backend \<Rightarrow> bool" where
  "IsTransactionOrTransactionBlock b \<longleftrightarrow> blockState (CurrentBlock b) \<noteq> TBLOCK_DEFAULT"

definition IsSubTransaction :: "'w Backend \<Rightarrow> bool" where
  "IsSubTransaction b \<longleftrightarrow> nestingLevel (CurrentNode b) \<ge> 2"

definition TransactionBlockStatusCode :: "'w Backend \<Rightarrow> char" where
  "TransactionBlockStatusCode b =
     (let s = blockState (CurrentBlock b)
      in if s \<in> {TBLOCK_DEFAULT, TBLOCK_STARTED} then CHR ''I''
         else if s \<in> {TBLOCK_BEGIN, TBLOCK_SUBBEGIN, TBLOCK_INPROGRESS, TBLOCK_SUBINPROGRESS, TBLOCK_END,
                      TBLOCK_SUBRELEASE, TBLOCK_SUBCOMMIT, TBLOCK_PREPARE} then CHR ''T''
         else CHR ''E'')"

end
