(* ===== verification/Dtm.thy ===== *)
theory Dtm
  imports Backend
begin

text \<open>
  The distributed transaction manager of the session (\<open>cdb/cdbtm.c\<close>): the state machine the query
  dispatcher goes through to commit or abort a transaction on the segments, and the contexts a
  process is in. What the segments do with a command is the business of the \<open>Dispatcher\<close>, an argument
  of every function that sends one.
\<close>

section \<open>Contexts and identifiers\<close>

definition InvalidDistributedTransactionId :: DistributedTransactionId where "InvalidDistributedTransactionId = 0"
definition LastDistributedTransactionId :: DistributedTransactionId where "LastDistributedTransactionId = 0xffffffff"
definition TMGIDSIZE :: nat where "TMGIDSIZE = 22"

definition dtxFormGID :: "DistributedTransactionTimeStamp \<Rightarrow> DistributedTransactionId \<Rightarrow> string" where
  "dtxFormGID tstamp x = print_uint tstamp @ ''-'' @ print_uint10 x"

definition dtxCrackOpenGid ::
  "string \<Rightarrow> 'w Backend \<Rightarrow> (Exit + DistributedTransactionTimeStamp \<times> DistributedTransactionId) \<times> 'w Backend" where
  "dtxCrackOpenGid gid b =
     (case scan_uint gid of
        None \<Rightarrow> ereport ERROR BadGid b
      | Some (tstamp, r) \<Rightarrow>
          (case scan_literal ''-'' r of
             None \<Rightarrow> ereport ERROR BadGid b
           | Some r' \<Rightarrow> (case scan_uint r' of None \<Rightarrow> ereport ERROR BadGid b | Some (x, _) \<Rightarrow> (Inr (tstamp, x), b))))"

definition DtxProtocolCommandToString :: "DtxProtocolCommand \<Rightarrow> string" where
  "DtxProtocolCommandToString command =
     (case command of
        DTX_PROTOCOL_COMMAND_NONE \<Rightarrow> ''None''
      | DTX_PROTOCOL_COMMAND_ABORT_NO_PREPARED \<Rightarrow> ''Distributed Abort (No Prepared)''
      | DTX_PROTOCOL_COMMAND_PREPARE \<Rightarrow> ''Distributed Prepare''
      | DTX_PROTOCOL_COMMAND_ABORT_SOME_PREPARED \<Rightarrow> ''Distributed Abort (Some Prepared)''
      | DTX_PROTOCOL_COMMAND_COMMIT_ONEPHASE \<Rightarrow> ''Distributed Commit (one-phase)''
      | DTX_PROTOCOL_COMMAND_COMMIT_PREPARED \<Rightarrow> ''Distributed Commit Prepared''
      | DTX_PROTOCOL_COMMAND_ABORT_PREPARED \<Rightarrow> ''Distributed Abort Prepared''
      | DTX_PROTOCOL_COMMAND_RETRY_COMMIT_PREPARED \<Rightarrow> ''Retry Distributed Commit Prepared''
      | DTX_PROTOCOL_COMMAND_RETRY_ABORT_PREPARED \<Rightarrow> ''Retry Distributed Abort Prepared''
      | DTX_PROTOCOL_COMMAND_RECOVERY_COMMIT_PREPARED \<Rightarrow> ''Recovery Commit Prepared''
      | DTX_PROTOCOL_COMMAND_RECOVERY_ABORT_PREPARED \<Rightarrow> ''Recovery Abort Prepared''
      | DTX_PROTOCOL_COMMAND_SUBTRANSACTION_BEGIN_INTERNAL \<Rightarrow> '' Begin Internal Subtransaction''
      | DTX_PROTOCOL_COMMAND_SUBTRANSACTION_RELEASE_INTERNAL \<Rightarrow> ''Release Current Subtransaction''
      | DTX_PROTOCOL_COMMAND_SUBTRANSACTION_ROLLBACK_INTERNAL \<Rightarrow> ''Rollback Current Subtransaction'')"

definition setDistributedTransactionContext :: "DtxContext \<Rightarrow> 'w Backend \<Rightarrow> 'w Backend" where
  "setDistributedTransactionContext c b = b\<lparr>dtx_context := c\<rparr>"

definition requireDistributedTransactionContext :: "DtxContext \<Rightarrow> 'w Backend \<Rightarrow> (Exit + unit) \<times> 'w Backend" where
  "requireDistributedTransactionContext c b =
     (if dtx_context b \<noteq> c then ereport FATAL UnexpectedDtxContext b else (Inr (), b))"

definition isDtxContext :: "'w Backend \<Rightarrow> bool" where
  "isDtxContext b \<longleftrightarrow> dtx_context b \<noteq> DTX_CONTEXT_LOCAL_ONLY"

definition getDtxStartTime :: "'w Backend \<Rightarrow> DistributedTransactionTimeStamp" where
  "getDtxStartTime b = (case shmDistribTimeStamp (node b) of None \<Rightarrow> 0 | Some t \<Rightarrow> t)"

definition getDistributedTransactionId :: "'w Backend \<Rightarrow> DistributedTransactionId" where
  "getDistributedTransactionId b =
     (if isDtxContext b then gxid (MyTmGxact b) else InvalidDistributedTransactionId)"

definition getDistributedTransactionTimestamp :: "'w Backend \<Rightarrow> DistributedTransactionTimeStamp" where
  "getDistributedTransactionTimestamp b = (if isDtxContext b then distribTimeStamp (MyTmGxact b) else 0)"

definition getDistributedTransactionIdentifier :: "'w Backend \<Rightarrow> string option" where
  "getDistributedTransactionIdentifier b =
     (if isDtxContext b \<and> gxid (MyTmGxact b) \<noteq> InvalidDistributedTransactionId
      then Some (dtxFormGID (distribTimeStamp (MyTmGxact b)) (gxid (MyTmGxact b))) else None)"

definition isPreparedDtxTransaction :: "'w Backend \<Rightarrow> bool" where
  "isPreparedDtxTransaction b \<longleftrightarrow> dtx_state (MyTmGxactLocal b) = DTX_STATE_PREPARED"

definition isCurrentDtxActivated :: "'w Backend \<Rightarrow> bool" where
  "isCurrentDtxActivated b \<longleftrightarrow> dtx_state (MyTmGxactLocal b) \<noteq> DTX_STATE_NONE"

definition setCurrentDtxState :: "DtxState \<Rightarrow> 'w Backend \<Rightarrow> 'w Backend" where
  "setCurrentDtxState s b = b\<lparr>MyTmGxactLocal := (MyTmGxactLocal b)\<lparr>dtx_state := s\<rparr>\<rparr>"

definition getCurrentDtxState :: "'w Backend \<Rightarrow> DtxState" where
  "getCurrentDtxState b = dtx_state (MyTmGxactLocal b)"

section \<open>Starting a distributed transaction\<close>

definition currentDtxActivate :: "'w Backend \<Rightarrow> (Exit + unit) \<times> 'w Backend" where
  "currentDtxActivate b =
     (let n = shmGIDSeq (node b) + 1;
          b1 = b\<lparr>node := (node b)\<lparr>shmGIDSeq := n\<rparr>, MyTmGxact := (MyTmGxact b)\<lparr>gxid := n\<rparr>\<rparr>
      in if n = LastDistributedTransactionId then ereport PANIC GlobalTransactionLimit b1
         else (Inr (), setCurrentDtxState DTX_STATE_ACTIVE_DISTRIBUTED
                 (b1\<lparr>MyTmGxact := (MyTmGxact b1)\<lparr>distribTimeStamp := getDtxStartTime b1,
                                                  sessionId := gp_session_id (self b1)\<rparr>\<rparr>)))"

definition setupDtxTransaction :: "'w Backend \<Rightarrow> (Exit + unit) \<times> 'w Backend" where
  "setupDtxTransaction b =
     (if \<not> IsTransactionState b then ereport ERROR DtmTransactionNotActive b
      else bindS (if \<not> isCurrentDtxActivated b then currentDtxActivate b else (Inr (), b)) (\<lambda>_ b.
        if dtx_state (MyTmGxactLocal b) \<noteq> DTX_STATE_ACTIVE_DISTRIBUTED then ereport ERROR UnexpectedDtxState b
        else (Inr (), b)))"

definition rememberDtxExplicitBegin :: "'w Backend \<Rightarrow> 'w Backend" where
  "rememberDtxExplicitBegin b =
     (if \<not> explicitBeginRemembered (MyTmGxactLocal b)
      then b\<lparr>MyTmGxactLocal := (MyTmGxactLocal b)\<lparr>explicitBeginRemembered := True\<rparr>\<rparr> else b)"

definition isDtxExplicitBegin :: "'w Backend \<Rightarrow> bool" where
  "isDtxExplicitBegin b \<longleftrightarrow> isCurrentDtxActivated b \<and> explicitBeginRemembered (MyTmGxactLocal b)"

definition sendDtxExplicitBegin :: "'w Backend \<Rightarrow> (Exit + unit) \<times> 'w Backend" where
  "sendDtxExplicitBegin b =
     (if Gp_role (self b) \<noteq> GP_ROLE_DISPATCH then (Inr (), b)
      else bindS (setupDtxTransaction b) (\<lambda>_ b. (Inr (), rememberDtxExplicitBegin b)))"

section \<open>Transaction options\<close>

definition XACT_READ_UNCOMMITTED :: int where "XACT_READ_UNCOMMITTED = 0"
definition XACT_READ_COMMITTED :: int where "XACT_READ_COMMITTED = 1"
definition XACT_REPEATABLE_READ :: int where "XACT_REPEATABLE_READ = 2"
definition XACT_SERIALIZABLE :: int where "XACT_SERIALIZABLE = 3"

definition GP_OPT_NEED_DTX :: int where "GP_OPT_NEED_DTX = 0x0001"
definition GP_OPT_ISOLATION_LEVEL_MASK :: int where "GP_OPT_ISOLATION_LEVEL_MASK = 0x000E"
definition GP_OPT_READ_UNCOMMITTED :: int where "GP_OPT_READ_UNCOMMITTED = push_bit 1 1"
definition GP_OPT_READ_COMMITTED :: int where "GP_OPT_READ_COMMITTED = push_bit 1 2"
definition GP_OPT_REPEATABLE_READ :: int where "GP_OPT_REPEATABLE_READ = push_bit 1 3"
definition GP_OPT_SERIALIZABLE :: int where "GP_OPT_SERIALIZABLE = push_bit 1 4"
definition GP_OPT_READ_ONLY :: int where "GP_OPT_READ_ONLY = 0x0010"
definition GP_OPT_EXPLICT_BEGIN :: int where "GP_OPT_EXPLICT_BEGIN = 0x0020"

lemmas txn_option_defs = XACT_READ_UNCOMMITTED_def XACT_READ_COMMITTED_def XACT_REPEATABLE_READ_def
  XACT_SERIALIZABLE_def GP_OPT_NEED_DTX_def GP_OPT_ISOLATION_LEVEL_MASK_def GP_OPT_READ_UNCOMMITTED_def
  GP_OPT_READ_COMMITTED_def GP_OPT_REPEATABLE_READ_def GP_OPT_SERIALIZABLE_def GP_OPT_READ_ONLY_def
  GP_OPT_EXPLICT_BEGIN_def

definition mppTxnOptions :: "bool \<Rightarrow> 'w Backend \<Rightarrow> int" where
  "mppTxnOptions needDtx b =
     (let options = 0;
          options = (if needDtx then options OR GP_OPT_NEED_DTX else options);
          options = (if XactIsoLevel b = XACT_READ_COMMITTED then options OR GP_OPT_READ_COMMITTED
                     else if XactIsoLevel b = XACT_REPEATABLE_READ then options OR GP_OPT_REPEATABLE_READ
                     else if XactIsoLevel b = XACT_SERIALIZABLE then options OR GP_OPT_SERIALIZABLE
                     else if XactIsoLevel b = XACT_READ_UNCOMMITTED then options OR GP_OPT_READ_UNCOMMITTED
                     else options);
          options = (if XactReadOnly b then options OR GP_OPT_READ_ONLY else options)
      in if isCurrentDtxActivated b \<and> explicitBeginRemembered (MyTmGxactLocal b)
         then options OR GP_OPT_EXPLICT_BEGIN else options)"

definition mppTxOptions_IsoLevel :: "int \<Rightarrow> 'w Backend \<Rightarrow> (Exit + int) \<times> 'w Backend" where
  "mppTxOptions_IsoLevel txnOptions b =
     (if txnOptions AND GP_OPT_ISOLATION_LEVEL_MASK = GP_OPT_SERIALIZABLE then (Inr XACT_SERIALIZABLE, b)
      else if txnOptions AND GP_OPT_ISOLATION_LEVEL_MASK = GP_OPT_REPEATABLE_READ then (Inr XACT_REPEATABLE_READ, b)
      else if txnOptions AND GP_OPT_ISOLATION_LEVEL_MASK = GP_OPT_READ_COMMITTED then (Inr XACT_READ_COMMITTED, b)
      else if txnOptions AND GP_OPT_ISOLATION_LEVEL_MASK = GP_OPT_READ_UNCOMMITTED then (Inr XACT_READ_UNCOMMITTED, b)
      else ereport ERROR UnknownIsoLevel b)"

definition isMppTxOptions_ReadOnly :: "int \<Rightarrow> bool" where
  "isMppTxOptions_ReadOnly txnOptions \<longleftrightarrow> txnOptions AND GP_OPT_READ_ONLY \<noteq> 0"

definition isMppTxOptions_NeedDtx :: "int \<Rightarrow> bool" where
  "isMppTxOptions_NeedDtx txnOptions \<longleftrightarrow> txnOptions AND GP_OPT_NEED_DTX \<noteq> 0"

definition isMppTxOptions_ExplicitBegin :: "int \<Rightarrow> bool" where
  "isMppTxOptions_ExplicitBegin txnOptions \<longleftrightarrow> txnOptions AND GP_OPT_EXPLICT_BEGIN \<noteq> 0"

section \<open>Dispatching\<close>

text \<open>
  What came back from the gang: no gang could be allocated, the master itself went down, a segment
  reported an error (with whether the gang is still good), or the results with their command tags.
\<close>

datatype ExecStatusType =
  PGRES_EMPTY_QUERY | PGRES_COMMAND_OK | PGRES_TUPLES_OK | PGRES_COPY_OUT | PGRES_COPY_IN | PGRES_BAD_RESPONSE
| PGRES_NONFATAL_ERROR | PGRES_FATAL_ERROR

datatype Dispatched =
  AllocateFailed
| MasterLost
| QEError bool
| Results "(ExecStatusType \<times> string) list"

text \<open>
  \<open>dtx_send\<close> allocates a writer gang on the segments, sends a protocol command and waits for the end;
  \<open>sql_send\<close> sends a statement to the writer gang, \<open>query_prepared\<close> the query for the gids in
  \<open>pg_prepared_xacts\<close>, whose rows it returns segment by segment unless an error is raised.
  \<open>quote_identifier\<close> is the function of that name.
\<close>

record 'w Dispatcher =
  dtx_send :: "DtxProtocolCommand \<Rightarrow> string \<Rightarrow> DtxContextInfo option \<Rightarrow> int list \<Rightarrow> 'w \<Rightarrow> Dispatched \<times> 'w"
  sql_send :: "string \<Rightarrow> 'w \<Rightarrow> Dispatched \<times> 'w"
  query_prepared :: "'w \<Rightarrow> string list list option \<times> 'w"
  destroy_gangs :: "'w \<Rightarrow> 'w"
  component_list :: "'w \<Rightarrow> int list"
  segment_count :: "'w \<Rightarrow> int"
  quote_identifier :: "string \<Rightarrow> string"

fun add_gang_segments :: "int list \<Rightarrow> TMGXACTLOCAL \<Rightarrow> TMGXACTLOCAL" where
  "add_gang_segments [] l = l"
| "add_gang_segments (seg # segs) l =
     add_gang_segments segs
       (if seg = -1 then l
        else if seg \<in> dtxSegmentsMap l then l
        else l\<lparr>dtxSegmentsMap := insert seg (dtxSegmentsMap l), dtxSegments := lappend_int (dtxSegments l) seg\<rparr>)"

definition addToGxactDtxSegments :: "'w Dispatcher \<Rightarrow> int list \<Rightarrow> 'w Backend \<Rightarrow> 'w Backend" where
  "addToGxactDtxSegments d gang b =
     (if \<not> isCurrentDtxActivated b then b
      else if list_length (dtxSegments (MyTmGxactLocal b)) \<ge> segment_count d (world b) then b
      else b\<lparr>MyTmGxactLocal := add_gang_segments gang (MyTmGxactLocal b)\<rparr>)"

definition markCurrentGxactWriterGangLost :: "'w Backend \<Rightarrow> 'w Backend" where
  "markCurrentGxactWriterGangLost b = b\<lparr>MyTmGxactLocal := (MyTmGxactLocal b)\<lparr>writerGangLost := True\<rparr>\<rparr>"

definition currentGxactWriterGangLost :: "'w Backend \<Rightarrow> bool" where
  "currentGxactWriterGangLost b = writerGangLost (MyTmGxactLocal b)"

text \<open>
  \<open>CdbDispatchDtxProtocolCommand\<close> of \<open>dispatcher/cdbdisp_dtx.c\<close>: \<open>track\<close> says that \<open>badGangs\<close> is given,
  which points to \<open>badPrepareGangs\<close>. The result is \<open>None\<close> when a segment reported an error.
\<close>

definition CdbDispatchDtxProtocolCommand ::
  "'w Dispatcher \<Rightarrow> DtxProtocolCommand \<Rightarrow> string \<Rightarrow> DtxContextInfo option \<Rightarrow> bool \<Rightarrow> int list \<Rightarrow> 'w Backend \<Rightarrow>
   (Exit + (ExecStatusType \<times> string) list option) \<times> 'w Backend" where
  "CdbDispatchDtxProtocolCommand d cmd gid info track segs b =
     (if length gid \<ge> TMGIDSIZE then ereport PANIC GidTooLong b
      else
        let (r, w) = dtx_send d cmd gid info segs (world b); b1 = b\<lparr>world := w\<rparr>
        in case r of
             AllocateFailed \<Rightarrow> ereport ERROR GangAllocationFailed b1
           | MasterLost \<Rightarrow> (Inl (PANIC, NodeDown), b1)
           | QEError gangOK \<Rightarrow>
               (let b2 = addToGxactDtxSegments d segs b1
                in (Inr None, if \<not> gangOK \<and> track
                              then b2\<lparr>MyTmGxactLocal := (MyTmGxactLocal b2)\<lparr>badPrepareGangs := True\<rparr>\<rparr> else b2))
           | Results rs \<Rightarrow> (Inr (Some rs), addToGxactDtxSegments d segs b1))"

text \<open>A result counts if its status is good and its tag is a prefix of the command's name.\<close>

definition result_failed :: "string \<Rightarrow> ExecStatusType \<times> string \<Rightarrow> bool" where
  "result_failed str r \<longleftrightarrow>
     (if fst r \<noteq> PGRES_COMMAND_OK \<and> fst r \<noteq> PGRES_TUPLES_OK then True
      else take (length (snd r)) str \<noteq> snd r)"

definition doDispatchDtxProtocolCommand ::
  "'w Dispatcher \<Rightarrow> DtxProtocolCommand \<Rightarrow> string \<Rightarrow> bool \<Rightarrow> bool \<Rightarrow> int list \<Rightarrow> DtxContextInfo option \<Rightarrow> 'w Backend \<Rightarrow>
   (Exit + bool) \<times> 'w Backend" where
  "doDispatchDtxProtocolCommand d cmd gid track raiseError segs info b =
     (if segs = [] then (Inr True, b)
      else bindS (CdbDispatchDtxProtocolCommand d cmd gid info track segs b) (\<lambda>results b.
        case results of
          None \<Rightarrow> if raiseError then ereport ERROR QEReportedError b else (Inr False, b)
        | Some rs \<Rightarrow>
            let numOfFailed = length (filter (result_failed (DtxProtocolCommandToString cmd)) rs)
            in (Inr (numOfFailed = 0), b)))"

definition currentDtxDispatchProtocolCommand ::
  "'w Dispatcher \<Rightarrow> DtxProtocolCommand \<Rightarrow> bool \<Rightarrow> 'w Backend \<Rightarrow> (Exit + bool) \<times> 'w Backend" where
  "currentDtxDispatchProtocolCommand d cmd raiseError b =
     doDispatchDtxProtocolCommand d cmd
       (dtxFormGID (getDistributedTransactionTimestamp b) (getDistributedTransactionId b))
       (dtx_state (MyTmGxactLocal b) = DTX_STATE_PREPARING) raiseError (dtxSegments (MyTmGxactLocal b)) None b"

definition dispatchDtxCommand :: "'w Dispatcher \<Rightarrow> string \<Rightarrow> 'w Backend \<Rightarrow> (Exit + bool) \<times> 'w Backend" where
  "dispatchDtxCommand d cmd b =
     (if currentGxactWriterGangLost b then (Inr False, b)
      else
        let (r, w) = sql_send d cmd (world b); b = b\<lparr>world := w\<rparr>
        in case r of
             AllocateFailed \<Rightarrow> ereport ERROR GangAllocationFailed b
           | MasterLost \<Rightarrow> (Inl (PANIC, NodeDown), b)
           | QEError gangOK \<Rightarrow> ereport ERROR QEReportedError b
           | Results rs \<Rightarrow> (Inr (rs \<noteq> [] \<and> filter (result_failed cmd) rs = []), b))"

text \<open>The information that \<open>qdSerializeDtxContextInfo\<close> sends along, without a snapshot.\<close>

definition qdDtxContextInfo :: "'w Backend \<Rightarrow> (Exit + DtxContextInfo) \<times> 'w Backend" where
  "qdDtxContextInfo b =
     (if dtx_context b = DTX_CONTEXT_QD_DISTRIBUTED_CAPABLE \<or> dtx_context b = DTX_CONTEXT_LOCAL_ONLY
      then (Inr \<lparr>distributedXid = getDistributedTransactionId b,
                 distributedTimeStamp = (if getDistributedTransactionId b \<noteq> InvalidDistributedTransactionId
                                         then getDtxStartTime b else 0),
                 distributedTxnOptions = mppTxnOptions True b,
                 haveDistributedSnapshot = False,
                 info_nestingLevel = GetCurrentTransactionNestLevel b\<rparr>, b)
      else ereport FATAL UnexpectedDtxContext b)"

definition doDispatchSubtransactionInternalCmd ::
  "'w Dispatcher \<Rightarrow> DtxProtocolCommand \<Rightarrow> 'w Backend \<Rightarrow> (Exit + bool) \<times> 'w Backend" where
  "doDispatchSubtransactionInternalCmd d cmdType b =
     (if currentGxactWriterGangLost b then (Inr False, b)
      else bindS (if cmdType = DTX_PROTOCOL_COMMAND_SUBTRANSACTION_BEGIN_INTERNAL \<and> \<not> isCurrentDtxActivated b
                  then currentDtxActivate b else (Inr (), b)) (\<lambda>_ b.
           bindS (qdDtxContextInfo b) (\<lambda>info b.
           bindS (doDispatchDtxProtocolCommand d cmdType
                    (dtxFormGID (getDistributedTransactionTimestamp b) (getDistributedTransactionId b))
                    False True (component_list d (world b)) (Some info) b) (\<lambda>succeeded b.
           if \<not> succeeded then ereport ERROR SubtransactionDispatchFailed b else (Inr succeeded, b)))))"

section \<open>Ending a distributed transaction\<close>

definition resetGxact :: "'w Backend \<Rightarrow> 'w Backend" where
  "resetGxact b =
     b\<lparr>MyTmGxact := \<lparr>distribTimeStamp = 0, gxid = InvalidDistributedTransactionId,
                     xminDistributedSnapshot = InvalidDistributedTransactionId, includeInCkpt = False, sessionId = 0\<rparr>,
       MyTmGxactLocal := \<lparr>dtx_state = DTX_STATE_NONE, explicitBeginRemembered = False, isOnePhaseCommit = False,
                          badPrepareGangs = False, writerGangLost = False, dtxSegmentsMap = {}, dtxSegments = []\<rparr>\<rparr>"

definition ProcArrayEndGxact :: "'w Backend \<Rightarrow> 'w Backend" where
  "ProcArrayEndGxact b =
     (let g = gxid (MyTmGxact b)
      in resetGxact
           (if InvalidDistributedTransactionId \<noteq> g \<and> TransactionIdPrecedes (latestCompletedDxid (node b)) g
            then b\<lparr>node := (node b)\<lparr>latestCompletedDxid := g\<rparr>\<rparr> else b))"

definition clearAndResetGxact :: "'w Backend \<Rightarrow> 'w Backend" where
  "clearAndResetGxact b = ProcArrayEndGxact b"

text \<open>The local transaction's entry in the process array, which it clears too, is not modelled.\<close>

definition ClearTransactionState :: "'w Backend \<Rightarrow> 'w Backend" where
  "ClearTransactionState b = ProcArrayEndGxact b"

definition finishDistributedTransactionContext :: "'w Backend \<Rightarrow> (Exit + unit) \<times> 'w Backend" where
  "finishDistributedTransactionContext b =
     (if isCurrentDtxActivated b \<and>
         (dtx_state (MyTmGxactLocal b) \<noteq> DTX_STATE_RETRY_COMMIT_PREPARED \<and>
          dtx_state (MyTmGxactLocal b) \<noteq> DTX_STATE_RETRY_ABORT_PREPARED)
      then ereport FATAL UnexpectedDtxStatus b
      else (Inr (), (setDistributedTransactionContext DTX_CONTEXT_LOCAL_ONLY b)\<lparr>QEDtxContextInfo :=
              \<lparr>distributedXid = InvalidDistributedTransactionId, distributedTimeStamp = 0, distributedTxnOptions = 0,
               haveDistributedSnapshot = False, info_nestingLevel = 0\<rparr>\<rparr>))"

definition isDtxQueryDispatcher :: "'w Backend \<Rightarrow> bool" where
  "isDtxQueryDispatcher b \<longleftrightarrow>
     Gp_role (self b) = GP_ROLE_DISPATCH \<and> shmDtmStarted (node b) \<and> SharedLocalSnapshotSlot b"

definition setupRegularDtxContext :: "'w Backend \<Rightarrow> (Exit + unit) \<times> 'w Backend" where
  "setupRegularDtxContext b =
     (if dtx_context b = DTX_CONTEXT_QD_DISTRIBUTED_CAPABLE then (Inr (), b)
      else if dtx_context b = DTX_CONTEXT_QE_TWO_PHASE_EXPLICIT_WRITER then (Inr (), b)
      else if dtx_context b \<noteq> DTX_CONTEXT_LOCAL_ONLY then ereport ERROR UnexpectedDtxContext b
      else (Inr (), if isDtxQueryDispatcher b
                    then setDistributedTransactionContext DTX_CONTEXT_QD_DISTRIBUTED_CAPABLE b else b))"

section \<open>First phase\<close>

definition doPrepareTransaction :: "'w Dispatcher \<Rightarrow> 'w Backend \<Rightarrow> (Exit + unit) \<times> 'w Backend" where
  "doPrepareTransaction d b =
     bindS (may_fail b) (\<lambda>_ b.
     bindS (currentDtxDispatchProtocolCommand d DTX_PROTOCOL_COMMAND_PREPARE True
              (setCurrentDtxState DTX_STATE_PREPARING b)) (\<lambda>succeeded b.
     if \<not> succeeded then ereport ERROR PrepareBroadcastFailed b
     else (Inr (), setCurrentDtxState DTX_STATE_PREPARED b)))"

definition prepareDtxTransaction :: "'w Dispatcher \<Rightarrow> 'w Backend \<Rightarrow> (Exit + unit) \<times> 'w Backend" where
  "prepareDtxTransaction d b =
     (let markXidCommitted = TransactionIdIsValid (GetTopTransactionIdIfAny b)
      in if dtx_context b \<noteq> DTX_CONTEXT_QD_DISTRIBUTED_CAPABLE then (Inr (), b)
         else if \<not> isCurrentDtxActivated b then (Inr (), resetGxact b)
         else if \<not> ExecutorDidWriteXLog b \<or>
                 (\<not> markXidCommitted \<and> list_length (dtxSegments (MyTmGxactLocal b)) < 2)
         then (Inr (), setCurrentDtxState DTX_STATE_ONE_PHASE_COMMIT b)
         else doPrepareTransaction d b)"

definition insertingDistributedCommitted :: "'w Backend \<Rightarrow> 'w Backend" where
  "insertingDistributedCommitted b = setCurrentDtxState DTX_STATE_INSERTING_COMMITTED b"

definition insertedDistributedCommitted :: "'w Backend \<Rightarrow> 'w Backend" where
  "insertedDistributedCommitted b =
     (let b = setCurrentDtxState DTX_STATE_INSERTED_COMMITTED b
      in if IS_QUERY_DISPATCHER (self b) then b\<lparr>MyTmGxact := (MyTmGxact b)\<lparr>includeInCkpt := True\<rparr>\<rparr> else b)"

section \<open>Second phase\<close>

definition doInsertForgetCommitted :: "'w Backend \<Rightarrow> (Exit + unit) \<times> 'w Backend" where
  "doInsertForgetCommitted b =
     (let b = setCurrentDtxState DTX_STATE_INSERTING_FORGET_COMMITTED b
      in bindS (XLogInsert (XLOG_XACT_DISTRIBUTED_FORGET
                 (dtxFormGID (getDistributedTransactionTimestamp b) (getDistributedTransactionId b))
                 (getDistributedTransactionId b)) b) (\<lambda>_ b.
           let b = setCurrentDtxState DTX_STATE_INSERTED_FORGET_COMMITTED b
           in (Inr (), b\<lparr>MyTmGxact := (MyTmGxact b)\<lparr>includeInCkpt := False\<rparr>\<rparr>)))"

definition doNotifyingOnePhaseCommit :: "'w Dispatcher \<Rightarrow> 'w Backend \<Rightarrow> (Exit + unit) \<times> 'w Backend" where
  "doNotifyingOnePhaseCommit d b =
     (if dtxSegments (MyTmGxactLocal b) = [] then (Inr (), b)
      else bindS (currentDtxDispatchProtocolCommand d DTX_PROTOCOL_COMMAND_COMMIT_ONEPHASE True
                    (setCurrentDtxState DTX_STATE_NOTIFYING_ONE_PHASE_COMMIT b)) (\<lambda>succeeded b.
             if \<not> succeeded then ereport ERROR OnePhaseCommitFailed b else (Inr (), b)))"

definition try_dispatch :: "'w Dispatcher \<Rightarrow> DtxProtocolCommand \<Rightarrow> 'w Backend \<Rightarrow> (Exit + bool) \<times> 'w Backend" where
  "try_dispatch d cmd b = catchS (currentDtxDispatchProtocolCommand d cmd True b) (\<lambda>b. (Inr False, b))"

text \<open>
  The loops that retry the second phase. \<open>n\<close> is how many more times the condition on
  \<open>dtx_phase2_retry_count\<close> holds. Every round destroys the gangs, so that the next dispatch makes new ones.
\<close>

primrec retry_commit_prepared :: "'w Dispatcher \<Rightarrow> nat \<Rightarrow> 'w Backend \<Rightarrow> (Exit + bool) \<times> 'w Backend" where
  "retry_commit_prepared d 0 b = (Inr False, b)"
| "retry_commit_prepared d (Suc n) b =
     bindS (try_dispatch d DTX_PROTOCOL_COMMAND_RETRY_COMMIT_PREPARED (b\<lparr>world := destroy_gangs d (world b)\<rparr>))
       (\<lambda>succeeded b. if succeeded then (Inr True, b) else retry_commit_prepared d n b)"

definition doNotifyingCommitPrepared :: "'w Dispatcher \<Rightarrow> 'w Backend \<Rightarrow> (Exit + unit) \<times> 'w Backend" where
  "doNotifyingCommitPrepared d b =
     bindS (try_dispatch d DTX_PROTOCOL_COMMAND_COMMIT_PREPARED
              (setCurrentDtxState DTX_STATE_NOTIFYING_COMMIT_PREPARED b)) (\<lambda>succeeded b.
     bindS (if succeeded then (Inr True, b)
            else retry_commit_prepared d (nat (dtx_phase2_retry_count b))
                   (setDistributedTransactionContext DTX_CONTEXT_QD_RETRY_PHASE_2
                     (setCurrentDtxState DTX_STATE_RETRY_COMMIT_PREPARED b))) (\<lambda>succeeded b.
     if \<not> succeeded then ereport PANIC CommitPreparedBroadcastFailed b
     else doInsertForgetCommitted b))"

definition notifyCommittedDtxTransactionIsNeeded :: "'w Backend \<Rightarrow> bool" where
  "notifyCommittedDtxTransactionIsNeeded b \<longleftrightarrow>
     dtx_context b = DTX_CONTEXT_QD_DISTRIBUTED_CAPABLE \<and> isCurrentDtxActivated b"

definition notifyCommittedDtxTransaction :: "'w Dispatcher \<Rightarrow> 'w Backend \<Rightarrow> (Exit + unit) \<times> 'w Backend" where
  "notifyCommittedDtxTransaction d b =
     (case dtx_state (MyTmGxactLocal b) of
        DTX_STATE_INSERTED_COMMITTED \<Rightarrow> doNotifyingCommitPrepared d b
      | DTX_STATE_ONE_PHASE_COMMIT \<Rightarrow> doNotifyingOnePhaseCommit d b
      | _ \<Rightarrow> ereport ERROR UnexpectedDtxState b)"

section \<open>Abort\<close>

primrec retry_abort_prepared :: "'w Dispatcher \<Rightarrow> nat \<Rightarrow> 'w Backend \<Rightarrow> (Exit + bool) \<times> 'w Backend" where
  "retry_abort_prepared d 0 b = (Inr False, b)"
| "retry_abort_prepared d (Suc n) b =
     (let b = b\<lparr>world := destroy_gangs d (world b)\<rparr>;
          b = b\<lparr>MyTmGxactLocal := (MyTmGxactLocal b)\<lparr>dtxSegments := component_list d (world b)\<rparr>\<rparr>
      in bindS (try_dispatch d DTX_PROTOCOL_COMMAND_RETRY_ABORT_PREPARED b)
           (\<lambda>succeeded b. if succeeded then (Inr True, b) else retry_abort_prepared d n b))"

definition retryAbortPrepared :: "'w Dispatcher \<Rightarrow> 'w Backend \<Rightarrow> (Exit + unit) \<times> 'w Backend" where
  "retryAbortPrepared d b =
     bindS (retry_abort_prepared d (nat (dtx_phase2_retry_count b)) b) (\<lambda>succeeded b.
     if \<not> succeeded then ereport PANIC AbortBroadcastFailed b else (Inr (), b))"

definition doNotifyingAbort :: "'w Dispatcher \<Rightarrow> 'w Backend \<Rightarrow> (Exit + unit) \<times> 'w Backend" where
  "doNotifyingAbort d b =
     (if dtx_state (MyTmGxactLocal b) = DTX_STATE_NOTIFYING_ABORT_NO_PREPARED
      then if \<not> writerGangLost (MyTmGxactLocal b) \<and> dtxSegments (MyTmGxactLocal b) \<noteq> []
           then bindS (currentDtxDispatchProtocolCommand d DTX_PROTOCOL_COMMAND_ABORT_NO_PREPARED False b)
                  (\<lambda>succeeded b. (Inr (), if \<not> succeeded then b\<lparr>world := destroy_gangs d (world b)\<rparr> else b))
           else (Inr (), b)
      else
        bindS (try_dispatch d
                 (if dtx_state (MyTmGxactLocal b) = DTX_STATE_NOTIFYING_ABORT_SOME_PREPARED
                  then DTX_PROTOCOL_COMMAND_ABORT_SOME_PREPARED else DTX_PROTOCOL_COMMAND_ABORT_PREPARED) b)
          (\<lambda>succeeded b.
             if \<not> succeeded
             then retryAbortPrepared d
                    (setDistributedTransactionContext DTX_CONTEXT_QD_RETRY_PHASE_2
                      (setCurrentDtxState DTX_STATE_RETRY_ABORT_PREPARED b))
             else (Inr (), b)))"

text \<open>The rest of \<open>rollbackDtxTransaction\<close> once the state says how to notify the segments.\<close>

definition rollback_notify :: "'w Dispatcher \<Rightarrow> 'w Backend \<Rightarrow> (Exit + unit) \<times> 'w Backend" where
  "rollback_notify d b =
     (if proc_exit_inprogress b
      then if dtx_state (MyTmGxactLocal b) = DTX_STATE_NOTIFYING_ABORT_SOME_PREPARED \<or>
              dtx_state (MyTmGxactLocal b) = DTX_STATE_NOTIFYING_ABORT_PREPARED
           then ereport FATAL AbortPreparedIncomplete b
           else (Inr (), clearAndResetGxact (b\<lparr>world := destroy_gangs d (world b)\<rparr>))
      else bindS (doNotifyingAbort d b) (\<lambda>_ b. (Inr (), clearAndResetGxact b)))"

definition rollbackDtxTransaction :: "'w Dispatcher \<Rightarrow> 'w Backend \<Rightarrow> (Exit + unit) \<times> 'w Backend" where
  "rollbackDtxTransaction d b =
     (if dtx_context b \<noteq> DTX_CONTEXT_QD_DISTRIBUTED_CAPABLE then (Inr (), b)
      else if \<not> isCurrentDtxActivated b then (Inr (), b)
      else
        case dtx_state (MyTmGxactLocal b) of
          DTX_STATE_ACTIVE_DISTRIBUTED \<Rightarrow>
            rollback_notify d (setCurrentDtxState DTX_STATE_NOTIFYING_ABORT_NO_PREPARED b)
        | DTX_STATE_PREPARING \<Rightarrow>
            if badPrepareGangs (MyTmGxactLocal b)
            then bindS (retryAbortPrepared d (setCurrentDtxState DTX_STATE_RETRY_ABORT_PREPARED b))
                   (\<lambda>_ b. (Inr (), clearAndResetGxact b))
            else rollback_notify d (setCurrentDtxState DTX_STATE_NOTIFYING_ABORT_SOME_PREPARED b)
        | DTX_STATE_PREPARED \<Rightarrow>
            rollback_notify d (setCurrentDtxState DTX_STATE_NOTIFYING_ABORT_PREPARED b)
        | DTX_STATE_ONE_PHASE_COMMIT \<Rightarrow>
            rollback_notify d (setCurrentDtxState DTX_STATE_NOTIFYING_ABORT_NO_PREPARED b)
        | DTX_STATE_NOTIFYING_ONE_PHASE_COMMIT \<Rightarrow>
            rollback_notify d (setCurrentDtxState DTX_STATE_NOTIFYING_ABORT_NO_PREPARED b)
        | DTX_STATE_NOTIFYING_ABORT_NO_PREPARED \<Rightarrow>
            (Inr (), clearAndResetGxact (b\<lparr>world := destroy_gangs d (world b)\<rparr>))
        | DTX_STATE_NOTIFYING_ABORT_SOME_PREPARED \<Rightarrow> ereport FATAL AbortPreparedIncomplete b
        | DTX_STATE_NOTIFYING_ABORT_PREPARED \<Rightarrow> ereport FATAL AbortPreparedIncomplete b
        | DTX_STATE_NOTIFYING_COMMIT_PREPARED \<Rightarrow> (Inr (), clearAndResetGxact b)
        | DTX_STATE_INSERTING_COMMITTED \<Rightarrow> (Inr (), clearAndResetGxact b)
        | DTX_STATE_INSERTED_COMMITTED \<Rightarrow> (Inr (), clearAndResetGxact b)
        | DTX_STATE_INSERTING_FORGET_COMMITTED \<Rightarrow> (Inr (), clearAndResetGxact b)
        | DTX_STATE_INSERTED_FORGET_COMMITTED \<Rightarrow> (Inr (), clearAndResetGxact b)
        | DTX_STATE_RETRY_COMMIT_PREPARED \<Rightarrow> (Inr (), clearAndResetGxact b)
        | DTX_STATE_RETRY_ABORT_PREPARED \<Rightarrow> (Inr (), clearAndResetGxact b)
        | DTX_STATE_NONE \<Rightarrow> ereport PANIC UnexpectedDtxState b)"

section \<open>Gids\<close>

text \<open>
  The gid of a distributed transaction can be read back: cracking open the gid formed of a
  timestamp and a distributed transaction id gives both again, whatever they are, and the gid and
  its terminator fit into the buffers made for it.
\<close>

theorem gid_round_trip: "dtxCrackOpenGid (dtxFormGID t x) b = (Inr (t, x), b) \<and> length (dtxFormGID t x) < TMGIDSIZE"
proof -
  have "scan_uint (print_uint t @ CHR ''-'' # r) = Some (t, CHR ''-'' # r)" "scan_uint (print_uint10 x @ []) = Some (x, [])" for r
    by (rule scan_print_uint scan_print_uint10; simp add: no_digit_def is_digit_def)+
  then have "dtxCrackOpenGid (dtxFormGID t x) b = (Inr (t, x), b)"
    using scan_literal_append [of "''-''" "print_uint10 x"] by (simp add: dtxCrackOpenGid_def dtxFormGID_def)
  moreover have l: "length (print_nat (unat n)) \<le> 10" for n :: uint32
  proof -
    have "unat n < 2 ^ 32" using unsigned_less [of n, where 'a = nat] by simp
    then show ?thesis using length_print_nat [of "unat n" 9] by simp
  qed
  have "length (print_uint t) \<le> 10" "length (print_uint10 x) = 10"
    using l [of t] l [of x] by (simp_all add: print_uint_def print_uint10_def)
  ultimately show ?thesis by (simp add: dtxFormGID_def TMGIDSIZE_def)
qed

end
