(* ===== verification/XactBlock.thy ===== *)
theory XactBlock
  imports Dtm
begin

text \<open>
  Transactions and transaction blocks of one process (\<open>access/transam/xact.c\<close>): the low-level functions
  that start, commit, prepare and abort a transaction or a subtransaction, and the state machine of
  transaction blocks that the SQL commands drive. Of the two-phase machinery of \<open>twophase.c\<close> it holds
  what preparing and aborting touch.

  Memory contexts, resource owners, locks, triggers and the other subsystems the code starts and ends
  are not modelled beyond the errors they may raise before the point of no return.
\<close>

section \<open>The stack\<close>

definition PushTransactionBlock :: "'w Backend \<Rightarrow> (Exit + unit) \<times> 'w Backend" where
  "PushTransactionBlock b =
     (case PushTransaction (xact_stack b) of
        Inl _ \<Rightarrow> ereport ERROR TooManySubtransactions b
      | Inr st \<Rightarrow>
          (Inr (), b\<lparr>xact_stack := st,
                     blocks := \<lparr>blockState = TBLOCK_SUBBEGIN, sp_name = None,
                                savepointLevel = savepointLevel (CurrentBlock b),
                                didLogXid = False, executorDidWriteXLog = False\<rparr> # blocks b\<rparr>))"

definition PopTransactionBlock :: "'w Backend \<Rightarrow> (Exit + unit) \<times> 'w Backend" where
  "PopTransactionBlock b =
     (case PopTransaction (xact_stack b) of
        Inl _ \<Rightarrow> ereport FATAL UnexpectedTransState b
      | Inr st \<Rightarrow>
          if tl (blocks b) = [] then ereport FATAL UnexpectedTransState b
          else (Inr (), b\<lparr>xact_stack := st, blocks := tl (blocks b)\<rparr>))"

section \<open>Transaction ids\<close>

text \<open>\<open>GetNewTransactionId\<close> of \<open>varsup.c\<close>: the next id, after it the counter skips the special ids.\<close>

definition GetNewTransactionId :: "'w Backend \<Rightarrow> (Exit + TransactionId) \<times> 'w Backend" where
  "GetNewTransactionId b =
     bindS (may_fail b) (\<lambda>_ b.
       let xid = nextXid (node b); n = xid + 1
       in (Inr xid, b\<lparr>node := (node b)\<lparr>nextXid := (if TransactionIdIsNormal n then n else FirstNormalTransactionId)\<rparr>\<rparr>))"

definition set_xid :: "nat \<Rightarrow> TransactionId \<Rightarrow> 'w Backend \<Rightarrow> 'w Backend" where
  "set_xid pos xid b = b\<lparr>xact_stack := (xact_stack b)\<lparr>nodes :=
     (nodes (xact_stack b))[pos := (nodes (xact_stack b) ! pos)\<lparr>transactionId := xid\<rparr>]\<rparr>\<rparr>"

text \<open>The transaction at a position with the parents right above it that have no id yet, outermost first.\<close>

fun unassigned_parents :: "TransactionStateData list \<Rightarrow> nat \<Rightarrow> nat list" where
  "unassigned_parents ns 0 = [0]"
| "unassigned_parents ns (Suc pos) =
     (if TransactionIdIsValid (transactionId (ns ! pos)) then [Suc pos] else unassigned_parents ns pos @ [Suc pos])"

fun assign_ids :: "nat list \<Rightarrow> 'w Backend \<Rightarrow> (Exit + unit) \<times> 'w Backend" where
  "assign_ids [] b = (Inr (), b)"
| "assign_ids (pos # ps) b = bindS (GetNewTransactionId b) (\<lambda>xid b. assign_ids ps (set_xid pos xid b))"

definition AssignTransactionId :: "'w Backend \<Rightarrow> (Exit + unit) \<times> 'w Backend" where
  "AssignTransactionId b =
     (if dtx_context b = DTX_CONTEXT_QE_READER \<or> dtx_context b = DTX_CONTEXT_QE_ENTRY_DB_SINGLETON
      then ereport ERROR UnexpectedDtxContext b
      else assign_ids (unassigned_parents (nodes (xact_stack b)) (length (nodes (xact_stack b)) - 1)) b)"

definition GetCurrentTransactionId :: "'w Backend \<Rightarrow> (Exit + TransactionId) \<times> 'w Backend" where
  "GetCurrentTransactionId b =
     bindS (if \<not> TransactionIdIsValid (transactionId (CurrentNode b)) then AssignTransactionId b else (Inr (), b))
       (\<lambda>_ b. (Inr (transactionId (CurrentNode b)), b))"

text \<open>What the commit log says of an id follows from the records of the write-ahead log.\<close>

fun committed_by :: "XLogRecord \<Rightarrow> TransactionId list" where
  "committed_by (XLOG_XACT_COMMIT x cs) = x # cs"
| "committed_by (XLOG_XACT_COMMIT_PREPARED x cs _ _) = x # cs"
| "committed_by (XLOG_XACT_DISTRIBUTED_COMMIT x cs _ _) = x # cs"
| "committed_by _ = []"

fun aborted_by :: "XLogRecord \<Rightarrow> TransactionId list" where
  "aborted_by (XLOG_XACT_ABORT x cs) = x # cs"
| "aborted_by (XLOG_XACT_ABORT_PREPARED x cs) = x # cs"
| "aborted_by _ = []"

definition xid_committed :: "Node \<Rightarrow> TransactionId \<Rightarrow> bool" where
  "xid_committed n xid \<longleftrightarrow> list_ex (\<lambda>r. xid \<in> set (committed_by r)) (wal n)"

definition xid_aborted :: "Node \<Rightarrow> TransactionId \<Rightarrow> bool" where
  "xid_aborted n xid \<longleftrightarrow> list_ex (\<lambda>r. xid \<in> set (aborted_by r)) (wal n)"

section \<open>Starting and committing\<close>

definition start_node :: "TransactionStateData \<Rightarrow> TransactionStateData" where
  "start_node s = s\<lparr>state := TRANS_START, transactionId := InvalidTransactionId, nestingLevel := 1, childXids := [],
                    subTransactionId := 1\<rparr>"

definition end_node :: "TransactionStateData \<Rightarrow> TransactionStateData" where
  "end_node s = s\<lparr>transactionId := InvalidTransactionId, subTransactionId := 0, nestingLevel := 0, childXids := []\<rparr>"

text \<open>The characteristics a segment takes over from the dispatcher.\<close>

definition adopt_qd_gxid :: "'w Backend \<Rightarrow> 'w Backend" where
  "adopt_qd_gxid b = b\<lparr>MyTmGxact := (MyTmGxact b)\<lparr>gxid := distributedXid (QEDtxContextInfo b),
                                                 distribTimeStamp := distributedTimeStamp (QEDtxContextInfo b)\<rparr>\<rparr>"

definition adopt_qd_options :: "'w Backend \<Rightarrow> (Exit + unit) \<times> 'w Backend" where
  "adopt_qd_options b =
     (let opts = distributedTxnOptions (QEDtxContextInfo b)
      in bindS (mppTxOptions_IsoLevel opts b) (\<lambda>l b.
           (Inr (), b\<lparr>XactIsoLevel := l, XactReadOnly := isMppTxOptions_ReadOnly opts\<rparr>)))"

definition start_dtx_context :: "'w Backend \<Rightarrow> (Exit + unit) \<times> 'w Backend" where
  "start_dtx_context b =
     (if dtx_context b \<in> {DTX_CONTEXT_LOCAL_ONLY, DTX_CONTEXT_QD_RETRY_PHASE_2, DTX_CONTEXT_QE_FINISH_PREPARED,
                          DTX_CONTEXT_QD_DISTRIBUTED_CAPABLE}
      then (Inr (), b)
      else if dtx_context b \<in> {DTX_CONTEXT_QE_TWO_PHASE_EXPLICIT_WRITER, DTX_CONTEXT_QE_TWO_PHASE_IMPLICIT_WRITER,
                               DTX_CONTEXT_QE_AUTO_COMMIT_IMPLICIT}
      then if dtx_context b \<noteq> DTX_CONTEXT_QE_AUTO_COMMIT_IMPLICIT \<and>
              distributedXid (QEDtxContextInfo b) = InvalidDistributedTransactionId
           then ereport ERROR InvalidDistributedXid b
           else bindS (adopt_qd_options b) (\<lambda>_ b. (Inr (), adopt_qd_gxid b))
      else if dtx_context b \<in> {DTX_CONTEXT_QE_ENTRY_DB_SINGLETON, DTX_CONTEXT_QE_READER} then adopt_qd_options (adopt_qd_gxid b)
      else ereport FATAL UnexpectedDtxContext b)"

definition StartTransaction :: "'w Backend \<Rightarrow> (Exit + unit) \<times> 'w Backend" where
  "StartTransaction b =
     (let b = b\<lparr>xact_stack := \<lparr>nodes = [start_node (TopNode b)], fastNodeCount = 0, previousFastLink = None,
                               currentSubTransactionId = 1\<rparr>,
                blocks := [(last (blocks b))\<lparr>didLogXid := False, executorDidWriteXLog := False\<rparr>],
                XactReadOnly := DefaultXactReadOnly b, XactIsoLevel := DefaultXactIsoLevel b\<rparr>
      in bindS (start_dtx_context b) (\<lambda>_ b.
         bindS (may_fail b) (\<lambda>_ b.
         may_fail (set_state TRANS_INPROGRESS b))))"

definition RecordTransactionCommit :: "'w Backend \<Rightarrow> (Exit + unit) \<times> 'w Backend" where
  "RecordTransactionCommit b =
     (let xid = (if dtx_context b = DTX_CONTEXT_QE_ENTRY_DB_SINGLETON \<or> dtx_context b = DTX_CONTEXT_QE_READER
                 then InvalidTransactionId else GetTopTransactionIdIfAny b);
          markXidCommitted = TransactionIdIsValid xid;
          children = childXids (CurrentNode b)
      in if isPreparedDtxTransaction b
         then let g = getDistributedTransactionId b
              in bindS (XLogInsert (XLOG_XACT_DISTRIBUTED_COMMIT xid children
                          (dtxFormGID (getDistributedTransactionTimestamp b) g) g)
                          (insertingDistributedCommitted b)) (\<lambda>_ b.
                 XLogFlush (insertedDistributedCommitted b))
         else if markXidCommitted then bindS (XLogInsert (XLOG_XACT_COMMIT xid children) b) (\<lambda>_ b. XLogFlush b)
         else (Inr (), b))"

definition CommitTransaction :: "'w Dispatcher \<Rightarrow> 'w Backend \<Rightarrow> (Exit + unit) \<times> 'w Backend" where
  "CommitTransaction d b =
     bindS (may_fail b) (\<lambda>_ b.
     bindS (prepareDtxTransaction d b) (\<lambda>_ b.
     bindS (may_fail b) (\<lambda>_ b.
     bindS (RecordTransactionCommit (set_state TRANS_COMMIT b)) (\<lambda>_ b.
     bindS (if notifyCommittedDtxTransactionIsNeeded b
            then bindS (notifyCommittedDtxTransaction d b) (\<lambda>_ b. (Inr (), ClearTransactionState b))
            else (Inr (), b)) (\<lambda>_ b.
     bindS (finishDistributedTransactionContext b) (\<lambda>_ b.
     (Inr (), set_state TRANS_DEFAULT
        (b\<lparr>xact_stack := (xact_stack b)\<lparr>nodes := butlast (nodes (xact_stack b)) @ [end_node (CurrentNode b)]\<rparr>\<rparr>))))))))"

section \<open>Preparing\<close>

definition InvalidBackendId :: int where "InvalidBackendId = -1"
definition GIDSIZE :: nat where "GIDSIZE = 200"

definition MarkAsPreparing :: "TransactionId \<Rightarrow> string \<Rightarrow> 'w Backend \<Rightarrow> (Exit + unit) \<times> 'w Backend" where
  "MarkAsPreparing xid gid b =
     (if length gid \<ge> GIDSIZE then ereport ERROR GidTooLong b
      else if max_prepared_xacts (node b) = 0 then ereport ERROR PreparedTransactionsDisabled b
      else if list_ex (\<lambda>g. gx_gid g = gid) (prepXacts (node b)) then ereport ERROR GidInUse b
      else if length (prepXacts (node b)) \<ge> max_prepared_xacts (node b) then ereport ERROR TooManyPreparedTransactions b
      else (Inr (), b\<lparr>node := (node b)\<lparr>prepXacts := prepXacts (node b) @
                        [\<lparr>gx_gid = gid, gx_xid = xid, gx_children = [], gx_valid = False, locking_backend = MyBackendId b\<rparr>]\<rparr>,
                      MyLockedGxact := Some gid\<rparr>))"

definition update_gxact :: "string \<Rightarrow> (GlobalTransactionData \<Rightarrow> GlobalTransactionData) \<Rightarrow> 'w Backend \<Rightarrow> 'w Backend" where
  "update_gxact gid f b = b\<lparr>node := (node b)\<lparr>prepXacts :=
     map (\<lambda>g. if gx_gid g = gid then f g else g) (prepXacts (node b))\<rparr>\<rparr>"

text \<open>The free entry takes the last place of the array.\<close>

fun remove_gxact :: "string \<Rightarrow> GlobalTransactionData list \<Rightarrow> GlobalTransactionData list" where
  "remove_gxact gid [] = []"
| "remove_gxact gid (g # gs) =
     (if gx_gid g = gid then if gs = [] then [] else last gs # butlast gs else g # remove_gxact gid gs)"

definition RemoveGXact :: "string \<Rightarrow> 'w Backend \<Rightarrow> 'w Backend" where
  "RemoveGXact gid b = b\<lparr>node := (node b)\<lparr>prepXacts := remove_gxact gid (prepXacts (node b))\<rparr>\<rparr>"

definition EndPrepare :: "TransactionId \<Rightarrow> string \<Rightarrow> 'w Backend \<Rightarrow> (Exit + unit) \<times> 'w Backend" where
  "EndPrepare xid gid b =
     bindS (XLogInsert (XLOG_XACT_PREPARE xid (childXids (CurrentNode b)) gid) b) (\<lambda>_ b.
     bindS (XLogFlush b) (\<lambda>_ b.
     (Inr (), update_gxact gid (\<lambda>g. g\<lparr>gx_valid := True\<rparr>) b)))"

definition PostPrepare_Twophase :: "'w Backend \<Rightarrow> 'w Backend" where
  "PostPrepare_Twophase b =
     (case MyLockedGxact b of
        None \<Rightarrow> b
      | Some gid \<Rightarrow> (update_gxact gid (\<lambda>g. g\<lparr>locking_backend := InvalidBackendId\<rparr>) b)\<lparr>MyLockedGxact := None\<rparr>)"

definition AtAbort_Twophase :: "'w Backend \<Rightarrow> 'w Backend" where
  "AtAbort_Twophase b =
     (case MyLockedGxact b of
        None \<Rightarrow> b
      | Some gid \<Rightarrow>
          (if list_ex (\<lambda>g. gx_gid g = gid \<and> \<not> gx_valid g) (prepXacts (node b)) then RemoveGXact gid b
           else update_gxact gid (\<lambda>g. g\<lparr>locking_backend := InvalidBackendId\<rparr>) b)\<lparr>MyLockedGxact := None\<rparr>)"

definition PrepareTransaction :: "'w Backend \<Rightarrow> (Exit + unit) \<times> 'w Backend" where
  "PrepareTransaction b =
     bindS (GetCurrentTransactionId b) (\<lambda>xid b.
     bindS (may_fail b) (\<lambda>_ b.
     let b = set_state TRANS_PREPARE b
     in if xid_aborted (node b) xid then ereport ERROR AlreadyAborted b
        else case prepareGID b of None \<Rightarrow> (Inl (PANIC, NodeDown), b) | Some gid \<Rightarrow>
          bindS (MarkAsPreparing xid gid b) (\<lambda>_ b.
          bindS (may_fail (update_gxact gid (\<lambda>g. g\<lparr>gx_children := childXids (CurrentNode b)\<rparr>)
                            (b\<lparr>prepareGID := None\<rparr>))) (\<lambda>_ b.
          bindS (EndPrepare xid gid b) (\<lambda>_ b.
          let b = PostPrepare_Twophase b
          in (Inr (), set_state TRANS_DEFAULT
               (b\<lparr>xact_stack := (xact_stack b)\<lparr>nodes := butlast (nodes (xact_stack b)) @ [end_node (CurrentNode b)]\<rparr>\<rparr>)))))))"

section \<open>Aborting\<close>

definition RecordTransactionAbort :: "'w Backend \<Rightarrow> (Exit + unit) \<times> 'w Backend" where
  "RecordTransactionAbort b =
     (let isQEReader = (dtx_context b = DTX_CONTEXT_QE_READER \<or> dtx_context b = DTX_CONTEXT_QE_ENTRY_DB_SINGLETON);
          xid = (if isQEReader \<or> getCurrentDtxState b = DTX_STATE_NOTIFYING_COMMIT_PREPARED
                 then InvalidTransactionId else GetCurrentTransactionIdIfAny b)
      in if \<not> TransactionIdIsValid xid then (Inr (), b)
         else if xid_committed (node b) xid then ereport PANIC AlreadyCommitted b
         else XLogInsert (XLOG_XACT_ABORT xid (childXids (CurrentNode b))) b)"

definition AbortTransaction :: "'w Dispatcher \<Rightarrow> 'w Backend \<Rightarrow> (Exit + unit) \<times> 'w Backend" where
  "AbortTransaction d b =
     bindS (RecordTransactionAbort (AtAbort_Twophase (set_state TRANS_ABORT b))) (\<lambda>_ b.
     rollbackDtxTransaction d (set_xid 0 InvalidTransactionId b))"

definition CleanupTransaction :: "'w Backend \<Rightarrow> (Exit + unit) \<times> 'w Backend" where
  "CleanupTransaction b =
     (if state (CurrentNode b) \<noteq> TRANS_ABORT then ereport FATAL UnexpectedTransState b
      else finishDistributedTransactionContext
             (set_state TRANS_DEFAULT
               (b\<lparr>xact_stack := (xact_stack b)\<lparr>nodes := butlast (nodes (xact_stack b)) @ [end_node (CurrentNode b)]\<rparr>\<rparr>)))"

section \<open>Subtransactions\<close>

definition StartSubTransaction :: "'w Backend \<Rightarrow> (Exit + unit) \<times> 'w Backend" where
  "StartSubTransaction b =
     bindS (may_fail (set_state TRANS_START b)) (\<lambda>_ b. (Inr (), set_state TRANS_INPROGRESS b))"

definition CommitSubTransaction :: "'w Backend \<Rightarrow> (Exit + unit) \<times> 'w Backend" where
  "CommitSubTransaction b =
     bindS (may_fail b) (\<lambda>_ b.
     bindS (may_fail (set_state TRANS_COMMIT b)) (\<lambda>_ b.
     bindS (if TransactionIdIsValid (transactionId (CurrentNode b))
            then case AtSubCommit_childXids (xact_stack b) of
                   Inl _ \<Rightarrow> ereport ERROR TooManySubtransactions b
                 | Inr st \<Rightarrow> (Inr (), b\<lparr>xact_stack := st\<rparr>)
            else (Inr (), b)) (\<lambda>_ b.
     PopTransactionBlock (set_state TRANS_DEFAULT b))))"

definition AbortSubTransaction :: "'w Backend \<Rightarrow> (Exit + unit) \<times> 'w Backend" where
  "AbortSubTransaction b =
     bindS (RecordTransactionAbort (set_state TRANS_ABORT b)) (\<lambda>_ b.
       (Inr (), if TransactionIdIsValid (transactionId (CurrentNode b))
                then b\<lparr>xact_stack := AtSubAbort_childXids (xact_stack b)\<rparr> else b))"

definition CleanupSubTransaction :: "'w Backend \<Rightarrow> (Exit + unit) \<times> 'w Backend" where
  "CleanupSubTransaction b = PopTransactionBlock (set_state TRANS_DEFAULT b)"

end
