(* ===== verification/TBlock.thy ===== *)
theory TBlock
  imports XactBlock
begin

text \<open>
  The transaction block state machine of \<open>access/transam/xact.c\<close>: what the main loop calls around every
  command (\<open>StartTransactionCommand\<close>, \<open>CommitTransactionCommand\<close>, \<open>AbortCurrentTransaction\<close>) and what the
  transaction control commands call in between.
\<close>

section \<open>Termination of the loops over the stack\<close>

lemma bindS_cong [fundef_cong]:
  "r = r' \<Longrightarrow> (\<And>x. fst r' = Inr x \<Longrightarrow> f x (snd r') = g x (snd r')) \<Longrightarrow> bindS r f = bindS r' g"
  by (cases "fst r'") (simp_all add: bindS_def)

lemma ereport_Inl [simp]: "fst (ereport l r b) = Inl (errstart l b, r)" "snd (ereport l r b) = b"
  by (simp_all add: ereport_def)

lemma blocks_set [simp]: "blocks (set_state st b) = blocks b" "length (blocks (set_blockState t b)) = Suc (length (blocks b) - 1)"
  by (simp_all add: set_state_def set_blockState_def)

lemma blocks_may [simp]: "blocks (snd (may_fail b)) = blocks b" "blocks (snd (may_panic b)) = blocks b"
  "blocks (snd (XLogInsert rec b)) = blocks b" "blocks (snd (XLogFlush b)) = blocks b"
  by (auto simp: may_fail_def may_panic_def XLogInsert_def XLogFlush_def bindS_def ereport_def split: list.splits Fault.splits sum.splits)

lemma length_Pop: "fst (PopTransactionBlock b) = Inr u \<Longrightarrow> length (blocks (snd (PopTransactionBlock b))) < length (blocks b)"
  by (cases "blocks b") (auto simp: PopTransactionBlock_def split: sum.splits if_splits)

lemma length_CleanupSub:
  "fst (CleanupSubTransaction b) = Inr u \<Longrightarrow> length (blocks (snd (CleanupSubTransaction b))) < length (blocks b)"
  using length_Pop [of "set_state TRANS_DEFAULT b" u] by (simp add: CleanupSubTransaction_def)

lemma blocks_AbortSub [simp]: "blocks (snd (AbortSubTransaction b)) = blocks b"
proof -
  have "blocks (snd (RecordTransactionAbort b)) = blocks b" for b :: "'a Backend"
    by (simp add: RecordTransactionAbort_def Let_def)
  then show ?thesis by (auto simp: AbortSubTransaction_def bindS_def split: sum.splits)
qed

lemma bindS_Inr: "fst (bindS r f) = Inr y \<longleftrightarrow> (\<exists>x. fst r = Inr x \<and> fst (f x (snd r)) = Inr y)"
  by (cases "fst r") (simp_all add: bindS_def)

lemma snd_bindS_Inr: "fst r = Inr x \<Longrightarrow> bindS r f = f x (snd r)"
  by (simp add: bindS_def)

lemma length_AbortCleanupSub:
  assumes "fst (bindS (AbortSubTransaction b) (\<lambda>_ b. CleanupSubTransaction b)) = Inr u"
  shows "length (blocks (snd (bindS (AbortSubTransaction b) (\<lambda>_ b. CleanupSubTransaction b)))) < length (blocks b)"
proof -
  obtain x where x: "fst (AbortSubTransaction b) = Inr x" "fst (CleanupSubTransaction (snd (AbortSubTransaction b))) = Inr u"
    using assms by (auto simp: bindS_Inr)
  from length_CleanupSub [OF x(2)] show ?thesis by (simp add: snd_bindS_Inr [OF x(1)])
qed

lemma length_CommitSub:
  "fst (CommitSubTransaction b) = Inr u \<Longrightarrow> length (blocks (snd (CommitSubTransaction b))) < length (blocks b)"
proof -
  assume "fst (CommitSubTransaction b) = Inr u"
  then show ?thesis
    by (auto simp: CommitSubTransaction_def bindS_Inr snd_bindS_Inr blocks_may dest!: length_Pop split: if_splits sum.splits)
qed

section \<open>Savepoints and internal subtransactions\<close>

definition set_sp_name :: "string option \<Rightarrow> 'w Backend \<Rightarrow> 'w Backend" where
  "set_sp_name name b = b\<lparr>blocks := (CurrentBlock b)\<lparr>sp_name := name\<rparr> # tl (blocks b)\<rparr>"

definition DefineSavepoint :: "string option \<Rightarrow> 'w Backend \<Rightarrow> (Exit + unit) \<times> 'w Backend" where
  "DefineSavepoint name b =
     (if blockState (CurrentBlock b) \<in> {TBLOCK_INPROGRESS, TBLOCK_SUBINPROGRESS}
      then bindS (PushTransactionBlock b) (\<lambda>_ b. (Inr (), if name \<noteq> None then set_sp_name name b else b))
      else ereport FATAL UnexpectedBlockState b)"

definition DispatchRollbackToSavepoint :: "'w Dispatcher \<Rightarrow> string option \<Rightarrow> 'w Backend \<Rightarrow> (Exit + unit) \<times> 'w Backend" where
  "DispatchRollbackToSavepoint d name b =
     (case name of
        None \<Rightarrow> ereport ERROR NoSavepointName b
      | Some n \<Rightarrow>
          bindS (dispatchDtxCommand d (''ROLLBACK TO SAVEPOINT '' @ quote_identifier d n) b) (\<lambda>ok b.
          if \<not> ok then ereport ERROR SavepointDispatchFailed b else (Inr (), b)))"

section \<open>Around every command\<close>

definition StartTransactionCommand :: "'w Backend \<Rightarrow> (Exit + unit) \<times> 'w Backend" where
  "StartTransactionCommand b =
     bindS (if Gp_role (self b) = GP_ROLE_DISPATCH then setupRegularDtxContext b else (Inr (), b)) (\<lambda>_ b.
     case blockState (CurrentBlock b) of
       TBLOCK_DEFAULT \<Rightarrow>
         bindS (StartTransaction b) (\<lambda>_ b.
           (Inr (), set_blockState (if dtx_context b = DTX_CONTEXT_QE_TWO_PHASE_IMPLICIT_WRITER
                                    then TBLOCK_INPROGRESS else TBLOCK_STARTED) b))
     | TBLOCK_INPROGRESS \<Rightarrow> (Inr (), b)
     | TBLOCK_SUBINPROGRESS \<Rightarrow> (Inr (), b)
     | TBLOCK_ABORT \<Rightarrow> (Inr (), b)
     | TBLOCK_SUBABORT \<Rightarrow> (Inr (), b)
     | _ \<Rightarrow> ereport ERROR UnexpectedBlockState b)"

definition commit_and_idle :: "'w Dispatcher \<Rightarrow> 'w Backend \<Rightarrow> (Exit + unit) \<times> 'w Backend" where
  "commit_and_idle d b = bindS (CommitTransaction d b) (\<lambda>_ b. (Inr (), set_blockState TBLOCK_DEFAULT b))"

definition prepare_and_idle :: "'w Backend \<Rightarrow> (Exit + unit) \<times> 'w Backend" where
  "prepare_and_idle b = bindS (PrepareTransaction b) (\<lambda>_ b. (Inr (), set_blockState TBLOCK_DEFAULT b))"

definition cleanup_and_idle :: "'w Backend \<Rightarrow> (Exit + unit) \<times> 'w Backend" where
  "cleanup_and_idle b = bindS (CleanupTransaction b) (\<lambda>_ b. (Inr (), set_blockState TBLOCK_DEFAULT b))"

definition abort_and_idle :: "'w Dispatcher \<Rightarrow> 'w Backend \<Rightarrow> (Exit + unit) \<times> 'w Backend" where
  "abort_and_idle d b = bindS (AbortTransaction d b) (\<lambda>_ b. cleanup_and_idle b)"

text \<open>The loop that commits subtransactions as long as the current one is in a given state.\<close>

function commit_subs :: "TBlockState \<Rightarrow> 'w Backend \<Rightarrow> (Exit + unit) \<times> 'w Backend" where
  "commit_subs t b =
     bindS (CommitSubTransaction b) (\<lambda>_ b. if blockState (CurrentBlock b) = t then commit_subs t b else (Inr (), b))"
  by pat_completeness auto
termination
  by (relation "measure (\<lambda>(t, b). length (blocks b))") (auto dest: length_CommitSub)

declare commit_subs.simps [simp del]

text \<open>Going back to a savepoint: a new subtransaction with the name and level of the old one.\<close>

definition restart_savepoint :: "'w Dispatcher \<Rightarrow> string option \<Rightarrow> int \<Rightarrow> 'w Backend \<Rightarrow> (Exit + unit) \<times> 'w Backend" where
  "restart_savepoint d name level b =
     bindS (CleanupSubTransaction b) (\<lambda>_ b.
     bindS (if Gp_role (self b) = GP_ROLE_DISPATCH then DispatchRollbackToSavepoint d name b else (Inr (), b)) (\<lambda>_ b.
     bindS (DefineSavepoint name b) (\<lambda>_ b.
     bindS (StartSubTransaction (b\<lparr>blocks := (CurrentBlock b)\<lparr>savepointLevel := level\<rparr> # tl (blocks b)\<rparr>)) (\<lambda>_ b.
     (Inr (), set_blockState TBLOCK_SUBINPROGRESS b)))))"

function CommitTransactionCommand :: "'w Dispatcher \<Rightarrow> 'w Backend \<Rightarrow> (Exit + unit) \<times> 'w Backend" where
  "CommitTransactionCommand d b =
     (case blockState (CurrentBlock b) of
        TBLOCK_DEFAULT \<Rightarrow> ereport FATAL UnexpectedBlockState b
      | TBLOCK_STARTED \<Rightarrow> commit_and_idle d b
      | TBLOCK_BEGIN \<Rightarrow> (Inr (), set_blockState TBLOCK_INPROGRESS b)
      | TBLOCK_INPROGRESS \<Rightarrow> may_fail b
      | TBLOCK_SUBINPROGRESS \<Rightarrow> may_fail b
      | TBLOCK_END \<Rightarrow> commit_and_idle d b
      | TBLOCK_ABORT \<Rightarrow> (Inr (), b)
      | TBLOCK_SUBABORT \<Rightarrow> (Inr (), b)
      | TBLOCK_ABORT_END \<Rightarrow> cleanup_and_idle b
      | TBLOCK_ABORT_PENDING \<Rightarrow> abort_and_idle d b
      | TBLOCK_PREPARE \<Rightarrow> prepare_and_idle b
      | TBLOCK_SUBBEGIN \<Rightarrow>
          bindS (StartSubTransaction b) (\<lambda>_ b. (Inr (), set_blockState TBLOCK_SUBINPROGRESS b))
      | TBLOCK_SUBRELEASE \<Rightarrow> commit_subs TBLOCK_SUBRELEASE b
      | TBLOCK_SUBCOMMIT \<Rightarrow>
          bindS (commit_subs TBLOCK_SUBCOMMIT b) (\<lambda>_ b.
          if blockState (CurrentBlock b) = TBLOCK_END then commit_and_idle d b
          else if blockState (CurrentBlock b) = TBLOCK_PREPARE then prepare_and_idle b
          else ereport ERROR UnexpectedBlockState b)
      | TBLOCK_SUBABORT_END \<Rightarrow> bindS (CleanupSubTransaction b) (\<lambda>_ b. CommitTransactionCommand d b)
      | TBLOCK_SUBABORT_PENDING \<Rightarrow>
          bindS (bindS (AbortSubTransaction b) (\<lambda>_ b. CleanupSubTransaction b)) (\<lambda>_ b. CommitTransactionCommand d b)
      | TBLOCK_SUBRESTART \<Rightarrow>
          (let name = sp_name (CurrentBlock b); level = savepointLevel (CurrentBlock b)
           in bindS (AbortSubTransaction (set_sp_name None b)) (\<lambda>_ b. restart_savepoint d name level b))
      | TBLOCK_SUBABORT_RESTART \<Rightarrow>
          (let name = sp_name (CurrentBlock b); level = savepointLevel (CurrentBlock b)
           in restart_savepoint d name level (set_sp_name None b)))"
  by pat_completeness auto
termination
  by (relation "measure (\<lambda>(d, b). length (blocks b))") (auto dest: length_CleanupSub length_AbortCleanupSub)

declare CommitTransactionCommand.simps [simp del]

function AbortCurrentTransaction :: "'w Dispatcher \<Rightarrow> 'w Backend \<Rightarrow> (Exit + unit) \<times> 'w Backend" where
  "AbortCurrentTransaction d b =
     (case blockState (CurrentBlock b) of
        TBLOCK_DEFAULT \<Rightarrow>
          if state (CurrentNode b) = TRANS_DEFAULT then (Inr (), b)
          else bindS (AbortTransaction d (if state (CurrentNode b) = TRANS_START then set_state TRANS_INPROGRESS b else b))
                 (\<lambda>_ b. CleanupTransaction b)
      | TBLOCK_STARTED \<Rightarrow> abort_and_idle d b
      | TBLOCK_BEGIN \<Rightarrow> abort_and_idle d b
      | TBLOCK_INPROGRESS \<Rightarrow> bindS (AbortTransaction d b) (\<lambda>_ b. (Inr (), set_blockState TBLOCK_ABORT b))
      | TBLOCK_END \<Rightarrow> abort_and_idle d b
      | TBLOCK_ABORT \<Rightarrow> (Inr (), b)
      | TBLOCK_SUBABORT \<Rightarrow> (Inr (), b)
      | TBLOCK_ABORT_END \<Rightarrow> cleanup_and_idle b
      | TBLOCK_ABORT_PENDING \<Rightarrow> abort_and_idle d b
      | TBLOCK_PREPARE \<Rightarrow> abort_and_idle d b
      | TBLOCK_SUBINPROGRESS \<Rightarrow> bindS (AbortSubTransaction b) (\<lambda>_ b. (Inr (), set_blockState TBLOCK_SUBABORT b))
      | TBLOCK_SUBABORT_END \<Rightarrow> bindS (CleanupSubTransaction b) (\<lambda>_ b. AbortCurrentTransaction d b)
      | TBLOCK_SUBABORT_RESTART \<Rightarrow> bindS (CleanupSubTransaction b) (\<lambda>_ b. AbortCurrentTransaction d b)
      | _ \<Rightarrow>
          bindS (bindS (AbortSubTransaction b) (\<lambda>_ b. CleanupSubTransaction b)) (\<lambda>_ b. AbortCurrentTransaction d b))"
  by pat_completeness auto
termination
  by (relation "measure (\<lambda>(d, b). length (blocks b))") (auto dest: length_CleanupSub length_AbortCleanupSub)

declare AbortCurrentTransaction.simps [simp del]

function AbortOutOfAnyTransaction :: "'w Dispatcher \<Rightarrow> 'w Backend \<Rightarrow> (Exit + unit) \<times> 'w Backend" where
  "AbortOutOfAnyTransaction d b =
     (if blockState (CurrentBlock b) = TBLOCK_DEFAULT
      then if state (CurrentNode b) = TRANS_DEFAULT then (Inr (), b)
           else bindS (AbortTransaction d (if state (CurrentNode b) = TRANS_START then set_state TRANS_INPROGRESS b else b))
                  (\<lambda>_ b. CleanupTransaction b)
      else if blockState (CurrentBlock b) \<in> {TBLOCK_STARTED, TBLOCK_BEGIN, TBLOCK_INPROGRESS, TBLOCK_END,
                TBLOCK_ABORT_PENDING, TBLOCK_PREPARE}
      then abort_and_idle d b
      else if blockState (CurrentBlock b) \<in> {TBLOCK_ABORT, TBLOCK_ABORT_END}
      then cleanup_and_idle b
      else if blockState (CurrentBlock b) \<in> {TBLOCK_SUBABORT, TBLOCK_SUBABORT_END, TBLOCK_SUBABORT_RESTART}
      then bindS (CleanupSubTransaction b) (\<lambda>_ b. AbortOutOfAnyTransaction d b)
      else bindS (bindS (AbortSubTransaction b) (\<lambda>_ b. CleanupSubTransaction b)) (\<lambda>_ b. AbortOutOfAnyTransaction d b))"
  by pat_completeness auto
termination
  by (relation "measure (\<lambda>(d, b). length (blocks b))") (auto dest: length_CleanupSub length_AbortCleanupSub)

declare AbortOutOfAnyTransaction.simps [simp del]

section \<open>Transaction control commands\<close>

definition BeginTransactionBlock :: "'w Backend \<Rightarrow> (Exit + unit) \<times> 'w Backend" where
  "BeginTransactionBlock b =
     (case blockState (CurrentBlock b) of
        TBLOCK_STARTED \<Rightarrow> (Inr (), set_blockState TBLOCK_BEGIN b)
      | TBLOCK_INPROGRESS \<Rightarrow> (Inr (), b)
      | TBLOCK_SUBINPROGRESS \<Rightarrow> (Inr (), b)
      | TBLOCK_ABORT \<Rightarrow> (Inr (), b)
      | TBLOCK_SUBABORT \<Rightarrow> (Inr (), b)
      | _ \<Rightarrow> ereport FATAL UnexpectedBlockState b)"

text \<open>
  The loops that mark all blocks: \<open>sub\<close> and \<open>topf\<close> give the new state of a subtransaction and of the
  top transaction, and \<open>None\<close> where the state is unexpected.
\<close>

fun mark_blocks ::
  "(TBlockState \<Rightarrow> TBlockState option) \<Rightarrow> (TBlockState \<Rightarrow> TBlockState option) \<Rightarrow> XactBlock list \<Rightarrow> XactBlock list option" where
  "mark_blocks sub topf [] = None"
| "mark_blocks sub topf [s] = map_option (\<lambda>t. [s\<lparr>blockState := t\<rparr>]) (topf (blockState s))"
| "mark_blocks sub topf (s # p # ss) =
     (case sub (blockState s) of
        None \<Rightarrow> None
      | Some t \<Rightarrow> map_option (Cons (s\<lparr>blockState := t\<rparr>)) (mark_blocks sub topf (p # ss)))"

fun sub_commit :: "TBlockState \<Rightarrow> TBlockState option" where
  "sub_commit TBLOCK_SUBINPROGRESS = Some TBLOCK_SUBCOMMIT"
| "sub_commit _ = None"

fun top_commit :: "TBlockState \<Rightarrow> TBlockState option" where
  "top_commit TBLOCK_INPROGRESS = Some TBLOCK_END"
| "top_commit _ = None"

fun sub_rollback :: "TBlockState \<Rightarrow> TBlockState option" where
  "sub_rollback TBLOCK_SUBINPROGRESS = Some TBLOCK_SUBABORT_PENDING"
| "sub_rollback TBLOCK_SUBABORT = Some TBLOCK_SUBABORT_END"
| "sub_rollback _ = None"

fun top_rollback :: "TBlockState \<Rightarrow> TBlockState option" where
  "top_rollback TBLOCK_INPROGRESS = Some TBLOCK_ABORT_PENDING"
| "top_rollback TBLOCK_ABORT = Some TBLOCK_ABORT_END"
| "top_rollback _ = None"

definition marked :: "XactBlock list option \<Rightarrow> 'a \<Rightarrow> 'w Backend \<Rightarrow> (Exit + 'a) \<times> 'w Backend" where
  "marked m r b = (case m of None \<Rightarrow> ereport FATAL UnexpectedBlockState b | Some bs \<Rightarrow> (Inr r, b\<lparr>blocks := bs\<rparr>))"

definition EndTransactionBlock :: "'w Backend \<Rightarrow> (Exit + bool) \<times> 'w Backend" where
  "EndTransactionBlock b =
     (case blockState (CurrentBlock b) of
        TBLOCK_INPROGRESS \<Rightarrow> (Inr True, set_blockState TBLOCK_END b)
      | TBLOCK_ABORT \<Rightarrow> (Inr False, set_blockState TBLOCK_ABORT_END b)
      | TBLOCK_SUBINPROGRESS \<Rightarrow> marked (mark_blocks sub_commit top_commit (blocks b)) True b
      | TBLOCK_SUBABORT \<Rightarrow> marked (mark_blocks sub_rollback top_rollback (blocks b)) False b
      | TBLOCK_STARTED \<Rightarrow> (Inr True, b)
      | _ \<Rightarrow> ereport FATAL UnexpectedBlockState b)"

definition PrepareTransactionBlock :: "string \<Rightarrow> 'w Backend \<Rightarrow> (Exit + bool) \<times> 'w Backend" where
  "PrepareTransactionBlock gid b =
     bindS (EndTransactionBlock b) (\<lambda>result b.
     if result
     then let s = last (blocks b)
          in if blockState s = TBLOCK_END
             then (Inr True, b\<lparr>prepareGID := Some gid, blocks := butlast (blocks b) @ [s\<lparr>blockState := TBLOCK_PREPARE\<rparr>]\<rparr>)
             else (Inr False, b)
     else (Inr False, b))"

definition UserAbortTransactionBlock :: "'w Backend \<Rightarrow> (Exit + unit) \<times> 'w Backend" where
  "UserAbortTransactionBlock b =
     (case blockState (CurrentBlock b) of
        TBLOCK_INPROGRESS \<Rightarrow> (Inr (), set_blockState TBLOCK_ABORT_PENDING b)
      | TBLOCK_ABORT \<Rightarrow> (Inr (), set_blockState TBLOCK_ABORT_END b)
      | TBLOCK_SUBINPROGRESS \<Rightarrow> marked (mark_blocks sub_rollback top_rollback (blocks b)) () b
      | TBLOCK_SUBABORT \<Rightarrow> marked (mark_blocks sub_rollback top_rollback (blocks b)) () b
      | TBLOCK_STARTED \<Rightarrow> (Inr (), set_blockState TBLOCK_ABORT_PENDING b)
      | _ \<Rightarrow> ereport FATAL UnexpectedBlockState b)"

definition DefineDispatchSavepoint :: "'w Dispatcher \<Rightarrow> string \<Rightarrow> 'w Backend \<Rightarrow> (Exit + unit) \<times> 'w Backend" where
  "DefineDispatchSavepoint d name b =
     (if blockState (CurrentBlock b) \<noteq> TBLOCK_INPROGRESS \<and> blockState (CurrentBlock b) \<noteq> TBLOCK_SUBINPROGRESS
      then ereport FATAL UnexpectedBlockState b
      else bindS (if Gp_role (self b) = GP_ROLE_DISPATCH
                  then bindS (dispatchDtxCommand d (''SAVEPOINT '' @ quote_identifier d name) b) (\<lambda>ok b.
                         if \<not> ok then ereport ERROR SavepointDispatchFailed b else (Inr (), b))
                  else (Inr (), b)) (\<lambda>_ b. DefineSavepoint (Some name) b))"

text \<open>The position of the innermost savepoint of a name, and marking what is above it and itself.\<close>

fun find_savepoint :: "string \<Rightarrow> XactBlock list \<Rightarrow> nat option" where
  "find_savepoint name [] = None"
| "find_savepoint name (s # ss) = (if sp_name s = Some name then Some 0 else map_option Suc (find_savepoint name ss))"

definition ReleaseSavepoint :: "'w Dispatcher \<Rightarrow> string \<Rightarrow> 'w Backend \<Rightarrow> (Exit + unit) \<times> 'w Backend" where
  "ReleaseSavepoint d name b =
     (case blockState (CurrentBlock b) of
        TBLOCK_INPROGRESS \<Rightarrow> ereport ERROR NoSuchSavepoint b
      | TBLOCK_SUBINPROGRESS \<Rightarrow>
          bindS (if Gp_role (self b) = GP_ROLE_DISPATCH
                 then bindS (dispatchDtxCommand d (''RELEASE SAVEPOINT '' @ quote_identifier d name) b) (\<lambda>ok b.
                        if \<not> ok then ereport ERROR SavepointDispatchFailed b else (Inr (), b))
                 else (Inr (), b)) (\<lambda>_ b.
          case find_savepoint name (blocks b) of
            None \<Rightarrow> ereport ERROR NoSuchSavepoint b
          | Some i \<Rightarrow>
              if savepointLevel (blocks b ! i) \<noteq> savepointLevel (CurrentBlock b) then ereport ERROR NoSuchSavepoint b
              else (Inr (), b\<lparr>blocks := map (\<lambda>s. s\<lparr>blockState := TBLOCK_SUBRELEASE\<rparr>) (take (Suc i) (blocks b)) @
                                        drop (Suc i) (blocks b)\<rparr>))
      | _ \<Rightarrow> ereport FATAL UnexpectedBlockState b)"

fun target_restart :: "TBlockState \<Rightarrow> TBlockState option" where
  "target_restart TBLOCK_SUBINPROGRESS = Some TBLOCK_SUBRESTART"
| "target_restart TBLOCK_SUBABORT = Some TBLOCK_SUBABORT_RESTART"
| "target_restart _ = None"

definition RollbackToSavepoint :: "string \<Rightarrow> 'w Backend \<Rightarrow> (Exit + unit) \<times> 'w Backend" where
  "RollbackToSavepoint name b =
     (if blockState (CurrentBlock b) \<in> {TBLOCK_INPROGRESS, TBLOCK_ABORT} then ereport ERROR NoSuchSavepoint b
      else if blockState (CurrentBlock b) \<in> {TBLOCK_SUBINPROGRESS, TBLOCK_SUBABORT}
      then case find_savepoint name (blocks b) of
             None \<Rightarrow> ereport ERROR NoSuchSavepoint b
           | Some i \<Rightarrow>
               if savepointLevel (blocks b ! i) \<noteq> savepointLevel (CurrentBlock b) then ereport ERROR NoSuchSavepoint b
               else marked (map_option (\<lambda>bs. bs @ drop (Suc i) (blocks b))
                      (mark_blocks sub_rollback target_restart (take (Suc i) (blocks b)))) () b
      else ereport FATAL UnexpectedBlockState b)"

section \<open>Internal subtransactions\<close>

definition BeginInternalSubTransaction :: "'w Dispatcher \<Rightarrow> string option \<Rightarrow> 'w Backend \<Rightarrow> (Exit + unit) \<times> 'w Backend" where
  "BeginInternalSubTransaction d name b =
     bindS (if Gp_role (self b) = GP_ROLE_DISPATCH
            then bindS (doDispatchSubtransactionInternalCmd d DTX_PROTOCOL_COMMAND_SUBTRANSACTION_BEGIN_INTERNAL b)
                   (\<lambda>ok b. if \<not> ok then ereport ERROR SubtransactionDispatchFailed b else (Inr (), b))
            else (Inr (), b)) (\<lambda>_ b.
     bindS (if blockState (CurrentBlock b) \<in> {TBLOCK_STARTED, TBLOCK_INPROGRESS, TBLOCK_END, TBLOCK_PREPARE, TBLOCK_SUBINPROGRESS}
            then bindS (PushTransactionBlock b) (\<lambda>_ b. (Inr (), if name \<noteq> None then set_sp_name name b else b))
            else ereport FATAL UnexpectedBlockState b) (\<lambda>_ b.
     bindS (CommitTransactionCommand d b) (\<lambda>_ b. StartTransactionCommand b)))"

definition ReleaseCurrentSubTransaction :: "'w Dispatcher \<Rightarrow> 'w Backend \<Rightarrow> (Exit + unit) \<times> 'w Backend" where
  "ReleaseCurrentSubTransaction d b =
     (if blockState (CurrentBlock b) \<noteq> TBLOCK_SUBINPROGRESS then ereport ERROR UnexpectedBlockState b
      else bindS (if Gp_role (self b) = GP_ROLE_DISPATCH
                  then bindS (doDispatchSubtransactionInternalCmd d DTX_PROTOCOL_COMMAND_SUBTRANSACTION_RELEASE_INTERNAL b)
                         (\<lambda>ok b. if \<not> ok then ereport ERROR SubtransactionDispatchFailed b else (Inr (), b))
                  else (Inr (), b)) (\<lambda>_ b. CommitSubTransaction b))"

definition RollbackAndReleaseCurrentSubTransaction :: "'w Dispatcher \<Rightarrow> 'w Backend \<Rightarrow> (Exit + unit) \<times> 'w Backend" where
  "RollbackAndReleaseCurrentSubTransaction d b =
     (if blockState (CurrentBlock b) \<notin> {TBLOCK_SUBINPROGRESS, TBLOCK_SUBABORT} then ereport FATAL UnexpectedBlockState b
      else bindS (if blockState (CurrentBlock b) = TBLOCK_SUBINPROGRESS then AbortSubTransaction b else (Inr (), b)) (\<lambda>_ b.
           bindS (CleanupSubTransaction b) (\<lambda>_ b.
           if Gp_role (self b) = GP_ROLE_DISPATCH
           then bindS (doDispatchSubtransactionInternalCmd d DTX_PROTOCOL_COMMAND_SUBTRANSACTION_ROLLBACK_INTERNAL b)
                  (\<lambda>ok b. if \<not> ok then ereport ERROR SubtransactionDispatchFailed b else (Inr (), b))
           else (Inr (), b))))"

section \<open>Who may run where\<close>

definition PreventTransactionChain :: "bool \<Rightarrow> 'w Backend \<Rightarrow> (Exit + unit) \<times> 'w Backend" where
  "PreventTransactionChain isTopLevel b =
     (if IsTransactionBlock b then ereport ERROR InTransactionBlock b
      else if IsSubTransaction b then ereport ERROR InTransactionBlock b
      else if \<not> isTopLevel then ereport ERROR InTransactionBlock b
      else if blockState (CurrentBlock b) \<noteq> TBLOCK_DEFAULT \<and> blockState (CurrentBlock b) \<noteq> TBLOCK_STARTED
      then ereport FATAL UnexpectedBlockState b
      else (Inr (), b))"

definition CheckTransactionChain :: "bool \<Rightarrow> bool \<Rightarrow> 'w Backend \<Rightarrow> (Exit + unit) \<times> 'w Backend" where
  "CheckTransactionChain isTopLevel throwError b =
     (if IsTransactionBlock b then (Inr (), b)
      else if IsSubTransaction b then (Inr (), b)
      else if \<not> isTopLevel then (Inr (), b)
      else if throwError then ereport ERROR NotInTransactionBlock b
      else (Inr (), b))"

definition RequireTransactionChain :: "bool \<Rightarrow> 'w Backend \<Rightarrow> (Exit + unit) \<times> 'w Backend" where
  "RequireTransactionChain isTopLevel b = CheckTransactionChain isTopLevel True b"

definition IsInTransactionChain :: "bool \<Rightarrow> 'w Backend \<Rightarrow> bool" where
  "IsInTransactionChain isTopLevel b \<longleftrightarrow>
     (if IsTransactionBlock b then True
      else if IsSubTransaction b then True
      else if \<not> isTopLevel then True
      else blockState (CurrentBlock b) \<noteq> TBLOCK_DEFAULT \<and> blockState (CurrentBlock b) \<noteq> TBLOCK_STARTED)"

end
