(* ===== verification/TwoPhase.thy ===== *)
theory TwoPhase
  imports TBlock
begin

text \<open>
  The second phase on a segment: finishing a prepared transaction (\<open>access/transam/twophase.c\<close>), the
  context of a segment process and the protocol commands it carries out (\<open>cdb/cdbtm.c\<close>,
  \<open>tcop/postgres.c\<close>), and what a node finds in its log after a crash.
\<close>

section \<open>Finishing prepared transactions\<close>

definition LockGXact :: "string \<Rightarrow> bool \<Rightarrow> 'w Backend \<Rightarrow> (Exit + GlobalTransactionData option) \<times> 'w Backend" where
  "LockGXact gid raiseErrorIfNotFound b =
     (case find (\<lambda>g. gx_valid g \<and> gx_gid g = gid) (prepXacts (node b)) of
        None \<Rightarrow> if raiseErrorIfNotFound then ereport ERROR PreparedTransactionNotFound b else (Inr None, b)
      | Some g \<Rightarrow>
          if locking_backend g \<noteq> InvalidBackendId then ereport ERROR PreparedTransactionBusy b
          else bindS (may_fail b) (\<lambda>_ b.
                 (Inr (Some g), (update_gxact gid (\<lambda>g. g\<lparr>locking_backend := MyBackendId b\<rparr>) b)\<lparr>MyLockedGxact := Some gid\<rparr>)))"

text \<open>The whole function is a critical section, so that a bad gid takes the node down.\<close>

definition RecordTransactionCommitPrepared ::
  "TransactionId \<Rightarrow> string \<Rightarrow> TransactionId list \<Rightarrow> 'w Backend \<Rightarrow> (Exit + unit) \<times> 'w Backend" where
  "RecordTransactionCommitPrepared xid gid children b =
     (case dtxCrackOpenGid gid b of
        (Inl _, b) \<Rightarrow> (Inl (PANIC, BadGid), b)
      | (Inr (tstamp, x), b) \<Rightarrow>
          bindS (XLogInsert (XLOG_XACT_COMMIT_PREPARED xid children tstamp x) b) (\<lambda>_ b. XLogFlush b))"

definition RecordTransactionAbortPrepared ::
  "TransactionId \<Rightarrow> TransactionId list \<Rightarrow> 'w Backend \<Rightarrow> (Exit + unit) \<times> 'w Backend" where
  "RecordTransactionAbortPrepared xid children b =
     (if xid_committed (node b) xid then ereport PANIC AlreadyCommitted b
      else bindS (XLogInsert (XLOG_XACT_ABORT_PREPARED xid children) b) (\<lambda>_ b. XLogFlush b))"

definition FinishPreparedTransaction :: "string \<Rightarrow> bool \<Rightarrow> bool \<Rightarrow> 'w Backend \<Rightarrow> (Exit + bool) \<times> 'w Backend" where
  "FinishPreparedTransaction gid isCommit raiseErrorIfNotFound b =
     bindS (LockGXact gid raiseErrorIfNotFound b) (\<lambda>gxact b.
     case gxact of
       None \<Rightarrow> (Inr False, b)
     | Some g \<Rightarrow>
         bindS (may_fail b) (\<lambda>_ b.
         bindS (if isCommit then RecordTransactionCommitPrepared (gx_xid g) gid (gx_children g) b
                else RecordTransactionAbortPrepared (gx_xid g) (gx_children g) b) (\<lambda>_ b.
         bindS (may_fail (update_gxact gid (\<lambda>g. g\<lparr>gx_valid := False\<rparr>) b)) (\<lambda>_ b.
         (Inr True, (RemoveGXact gid b)\<lparr>MyLockedGxact := None\<rparr>)))))"

section \<open>The context of a segment process\<close>

definition doQEDistributedExplicitBegin :: "'w Dispatcher \<Rightarrow> 'w Backend \<Rightarrow> (Exit + unit) \<times> 'w Backend" where
  "doQEDistributedExplicitBegin d b =
     bindS (StartTransactionCommand b) (\<lambda>_ b.
     bindS (BeginTransactionBlock b) (\<lambda>_ b.
     CommitTransactionCommand d b))"

definition setup_local_context :: "'w Dispatcher \<Rightarrow> DtxContextInfo \<Rightarrow> bool \<Rightarrow> bool \<Rightarrow> bool \<Rightarrow> 'w Backend \<Rightarrow> (Exit + unit) \<times> 'w Backend" where
  "setup_local_context d info isEntryDbSingleton isReaderQE isWriterQE b =
     (let needDtx = isMppTxOptions_NeedDtx (distributedTxnOptions info);
          explicitBegin = isMppTxOptions_ExplicitBegin (distributedTxnOptions info)
      in if isEntryDbSingleton \<and> haveDistributedSnapshot info
         then (Inr (), setDistributedTransactionContext DTX_CONTEXT_QE_ENTRY_DB_SINGLETON b)
         else if isReaderQE \<and> haveDistributedSnapshot info
         then (Inr (), setDistributedTransactionContext DTX_CONTEXT_QE_READER b)
         else if isWriterQE \<and> (explicitBegin \<or> needDtx)
         then if IsTransactionOrTransactionBlock b then ereport ERROR AlreadyInTransaction b
              else if explicitBegin
              then doQEDistributedExplicitBegin d (setDistributedTransactionContext DTX_CONTEXT_QE_TWO_PHASE_EXPLICIT_WRITER b)
              else (Inr (), setDistributedTransactionContext DTX_CONTEXT_QE_TWO_PHASE_IMPLICIT_WRITER b)
         else if haveDistributedSnapshot info
         then if IsTransactionOrTransactionBlock b then ereport ERROR AlreadyInTransaction b
              else (Inr (), setDistributedTransactionContext DTX_CONTEXT_QE_AUTO_COMMIT_IMPLICIT b)
         else (Inr (), b))"

definition setupQEDtxContext :: "'w Dispatcher \<Rightarrow> DtxContextInfo \<Rightarrow> 'w Backend \<Rightarrow> (Exit + unit) \<times> 'w Backend" where
  "setupQEDtxContext d info b =
     (let explicitBegin = isMppTxOptions_ExplicitBegin (distributedTxnOptions info);
          isEntryDbSingleton = (IS_QUERY_DISPATCHER (self b) \<and> \<not> Gp_is_writer (self b));
          isWriterQE = (\<not> isEntryDbSingleton \<and> SharedLocalSnapshotSlot b \<and> Gp_is_writer (self b));
          isReaderQE = (\<not> isEntryDbSingleton \<and> SharedLocalSnapshotSlot b \<and> \<not> Gp_is_writer (self b))
      in if Gp_role (self b) \<noteq> GP_ROLE_EXECUTE then (Inr (), b)
         else if \<not> isEntryDbSingleton \<and> \<not> SharedLocalSnapshotSlot b \<and> (explicitBegin \<or> haveDistributedSnapshot info)
         then ereport ERROR UnexpectedBegin b
         else
           let b = b\<lparr>QEDtxContextInfo := info\<rparr>
           in case dtx_context b of
                DTX_CONTEXT_LOCAL_ONLY \<Rightarrow> setup_local_context d info isEntryDbSingleton isReaderQE isWriterQE b
              | DTX_CONTEXT_QE_TWO_PHASE_IMPLICIT_WRITER \<Rightarrow>
                  if explicitBegin then ereport ERROR UnexpectedBegin b else (Inr (), b)
              | DTX_CONTEXT_QE_AUTO_COMMIT_IMPLICIT \<Rightarrow> ereport ERROR UnexpectedDtxContext b
              | DTX_CONTEXT_QE_TWO_PHASE_EXPLICIT_WRITER \<Rightarrow> (Inr (), b)
              | DTX_CONTEXT_QE_ENTRY_DB_SINGLETON \<Rightarrow> (Inr (), b)
              | DTX_CONTEXT_QE_READER \<Rightarrow> (Inr (), b)
              | DTX_CONTEXT_QE_PREPARED \<Rightarrow> ereport ERROR UnexpectedDtxContext b
              | DTX_CONTEXT_QE_FINISH_PREPARED \<Rightarrow> ereport ERROR UnexpectedDtxContext b
              | _ \<Rightarrow> ereport PANIC UnexpectedDtxContext b)"

section \<open>Protocol commands\<close>

definition performDtxProtocolPrepare :: "'w Dispatcher \<Rightarrow> string \<Rightarrow> 'w Backend \<Rightarrow> (Exit + unit) \<times> 'w Backend" where
  "performDtxProtocolPrepare d gid b =
     bindS (StartTransactionCommand b) (\<lambda>_ b.
     bindS (PrepareTransactionBlock gid b) (\<lambda>ok b.
     if \<not> ok then ereport ERROR PrepareFailed b
     else bindS (CommitTransactionCommand d b) (\<lambda>_ b.
          (Inr (), setDistributedTransactionContext DTX_CONTEXT_QE_PREPARED b))))"

definition performDtxProtocolCommitOnePhase :: "'w Dispatcher \<Rightarrow> string \<Rightarrow> 'w Backend \<Rightarrow> (Exit + unit) \<times> 'w Backend" where
  "performDtxProtocolCommitOnePhase d gid b =
     bindS (dtxCrackOpenGid gid b) (\<lambda>_ b.
     bindS (StartTransactionCommand (b\<lparr>MyTmGxactLocal := (MyTmGxactLocal b)\<lparr>isOnePhaseCommit := True\<rparr>\<rparr>)) (\<lambda>_ b.
     bindS (EndTransactionBlock b) (\<lambda>ok b.
     if \<not> ok then ereport ERROR CommitOnePhaseFailed b
     else bindS (CommitTransactionCommand d b) (\<lambda>_ b. finishDistributedTransactionContext b))))"

text \<open>Committing (\<open>isCommit\<close>) and aborting a prepared transaction differ in that flag only.\<close>

definition perform_finish_prepared ::
  "'w Dispatcher \<Rightarrow> bool \<Rightarrow> string \<Rightarrow> bool \<Rightarrow> 'w Backend \<Rightarrow> (Exit + unit) \<times> 'w Backend" where
  "perform_finish_prepared d isCommit gid raiseErrorIfNotFound b =
     bindS (StartTransactionCommand b) (\<lambda>_ b.
     bindS (rethrowS (FinishPreparedTransaction gid isCommit raiseErrorIfNotFound b) finishDistributedTransactionContext) (\<lambda>_ b.
     bindS (CommitTransactionCommand d b) (\<lambda>_ b. finishDistributedTransactionContext b)))"

definition performDtxProtocolCommitPrepared :: "'w Dispatcher \<Rightarrow> string \<Rightarrow> bool \<Rightarrow> 'w Backend \<Rightarrow> (Exit + unit) \<times> 'w Backend" where
  "performDtxProtocolCommitPrepared d gid raiseErrorIfNotFound b = perform_finish_prepared d True gid raiseErrorIfNotFound b"

definition performDtxProtocolAbortPrepared :: "'w Dispatcher \<Rightarrow> string \<Rightarrow> bool \<Rightarrow> 'w Backend \<Rightarrow> (Exit + unit) \<times> 'w Backend" where
  "performDtxProtocolAbortPrepared d gid raiseErrorIfNotFound b = perform_finish_prepared d False gid raiseErrorIfNotFound b"

primrec rollback_subs :: "'w Dispatcher \<Rightarrow> nat \<Rightarrow> 'w Backend \<Rightarrow> (Exit + unit) \<times> 'w Backend" where
  "rollback_subs d 0 b = (Inr (), b)"
| "rollback_subs d (Suc n) b = bindS (RollbackAndReleaseCurrentSubTransaction d b) (\<lambda>_ b. rollback_subs d n b)"

definition performDtxProtocolCommand ::
  "'w Dispatcher \<Rightarrow> DtxProtocolCommand \<Rightarrow> string \<Rightarrow> DtxContextInfo \<Rightarrow> 'w Backend \<Rightarrow> (Exit + unit) \<times> 'w Backend" where
  "performDtxProtocolCommand d cmd gid info b =
     (case cmd of
        DTX_PROTOCOL_COMMAND_ABORT_NO_PREPARED \<Rightarrow> AbortOutOfAnyTransaction d b
      | DTX_PROTOCOL_COMMAND_PREPARE \<Rightarrow>
          (case dtx_context b of
             DTX_CONTEXT_LOCAL_ONLY \<Rightarrow> ereport ERROR PreparedTransactionNotFound b
           | DTX_CONTEXT_QE_TWO_PHASE_EXPLICIT_WRITER \<Rightarrow> performDtxProtocolPrepare d gid b
           | DTX_CONTEXT_QE_TWO_PHASE_IMPLICIT_WRITER \<Rightarrow> performDtxProtocolPrepare d gid b
           | DTX_CONTEXT_QE_AUTO_COMMIT_IMPLICIT \<Rightarrow> ereport PANIC UnexpectedDtxContext b
           | _ \<Rightarrow> ereport FATAL UnexpectedDtxContext b)
      | DTX_PROTOCOL_COMMAND_COMMIT_ONEPHASE \<Rightarrow>
          (case dtx_context b of
             DTX_CONTEXT_LOCAL_ONLY \<Rightarrow> ereport ERROR PreparedTransactionNotFound b
           | DTX_CONTEXT_QE_TWO_PHASE_EXPLICIT_WRITER \<Rightarrow> performDtxProtocolCommitOnePhase d gid b
           | DTX_CONTEXT_QE_TWO_PHASE_IMPLICIT_WRITER \<Rightarrow> performDtxProtocolCommitOnePhase d gid b
           | DTX_CONTEXT_QE_AUTO_COMMIT_IMPLICIT \<Rightarrow> ereport PANIC UnexpectedDtxContext b
           | _ \<Rightarrow> ereport FATAL UnexpectedDtxContext b)
      | DTX_PROTOCOL_COMMAND_ABORT_SOME_PREPARED \<Rightarrow>
          (case dtx_context b of
             DTX_CONTEXT_LOCAL_ONLY \<Rightarrow> AbortOutOfAnyTransaction d b
           | DTX_CONTEXT_QE_TWO_PHASE_EXPLICIT_WRITER \<Rightarrow> AbortOutOfAnyTransaction d b
           | DTX_CONTEXT_QE_TWO_PHASE_IMPLICIT_WRITER \<Rightarrow> AbortOutOfAnyTransaction d b
           | DTX_CONTEXT_QE_PREPARED \<Rightarrow>
               performDtxProtocolAbortPrepared d gid True (setDistributedTransactionContext DTX_CONTEXT_QE_FINISH_PREPARED b)
           | _ \<Rightarrow> ereport PANIC UnexpectedDtxContext b)
      | DTX_PROTOCOL_COMMAND_COMMIT_PREPARED \<Rightarrow>
          bindS (requireDistributedTransactionContext DTX_CONTEXT_QE_PREPARED b) (\<lambda>_ b.
          performDtxProtocolCommitPrepared d gid True (setDistributedTransactionContext DTX_CONTEXT_QE_FINISH_PREPARED b))
      | DTX_PROTOCOL_COMMAND_ABORT_PREPARED \<Rightarrow>
          bindS (requireDistributedTransactionContext DTX_CONTEXT_QE_PREPARED b) (\<lambda>_ b.
          performDtxProtocolAbortPrepared d gid True (setDistributedTransactionContext DTX_CONTEXT_QE_FINISH_PREPARED b))
      | DTX_PROTOCOL_COMMAND_RETRY_COMMIT_PREPARED \<Rightarrow>
          bindS (requireDistributedTransactionContext DTX_CONTEXT_LOCAL_ONLY b) (\<lambda>_ b. performDtxProtocolCommitPrepared d gid False b)
      | DTX_PROTOCOL_COMMAND_RETRY_ABORT_PREPARED \<Rightarrow>
          bindS (requireDistributedTransactionContext DTX_CONTEXT_LOCAL_ONLY b) (\<lambda>_ b. performDtxProtocolAbortPrepared d gid False b)
      | DTX_PROTOCOL_COMMAND_RECOVERY_COMMIT_PREPARED \<Rightarrow>
          bindS (requireDistributedTransactionContext DTX_CONTEXT_LOCAL_ONLY b) (\<lambda>_ b. performDtxProtocolCommitPrepared d gid False b)
      | DTX_PROTOCOL_COMMAND_RECOVERY_ABORT_PREPARED \<Rightarrow>
          bindS (requireDistributedTransactionContext DTX_CONTEXT_LOCAL_ONLY b) (\<lambda>_ b. performDtxProtocolAbortPrepared d gid False b)
      | DTX_PROTOCOL_COMMAND_SUBTRANSACTION_BEGIN_INTERNAL \<Rightarrow>
          bindS (case dtx_context b of
                   DTX_CONTEXT_LOCAL_ONLY \<Rightarrow> bindS (setupQEDtxContext d info b) (\<lambda>_ b. StartTransactionCommand b)
                 | _ \<Rightarrow> (Inr (), b)) (\<lambda>_ b. BeginInternalSubTransaction d None b)
      | DTX_PROTOCOL_COMMAND_SUBTRANSACTION_RELEASE_INTERNAL \<Rightarrow> ReleaseCurrentSubTransaction d b
      | DTX_PROTOCOL_COMMAND_SUBTRANSACTION_ROLLBACK_INTERNAL \<Rightarrow>
          if info_nestingLevel info + 1 > GetCurrentTransactionNestLevel b then ereport ERROR AlreadyProcessed b
          else rollback_subs d (nat (GetCurrentTransactionNestLevel b - info_nestingLevel info)) b
      | DTX_PROTOCOL_COMMAND_NONE \<Rightarrow> ereport ERROR UnrecognizedCommand b)"

section \<open>Restart after a crash\<close>

text \<open>
  The map of prepared transactions that the redo pass builds, one entry per transaction id, and the
  array that \<open>RecoverPreparedTransactions\<close> makes of it.
\<close>

type_synonym PreparedMap = "(TransactionId \<times> TransactionId list \<times> string) list"

fun redo_prepared :: "XLogRecord \<Rightarrow> PreparedMap \<Rightarrow> PreparedMap" where
  "redo_prepared (XLOG_XACT_PREPARE x cs g) m = filter (\<lambda>e. fst e \<noteq> x) m @ [(x, cs, g)]"
| "redo_prepared (XLOG_XACT_COMMIT_PREPARED x _ _ _) m = filter (\<lambda>e. fst e \<noteq> x) m"
| "redo_prepared (XLOG_XACT_ABORT_PREPARED x _) m = filter (\<lambda>e. fst e \<noteq> x) m"
| "redo_prepared _ m = m"

definition prepared_in :: "XLogRecord list \<Rightarrow> PreparedMap" where
  "prepared_in w = fold redo_prepared w []"

definition RecoverPreparedTransactions :: "XLogRecord list \<Rightarrow> GlobalTransactionData list" where
  "RecoverPreparedTransactions w =
     map (\<lambda>(x, cs, g). \<lparr>gx_gid = g, gx_xid = x, gx_children = cs, gx_valid = True, locking_backend = InvalidBackendId\<rparr>)
       (prepared_in w)"

end
