(* ===== verification/DtxRecovery.thy ===== *)
theory DtxRecovery
  imports TwoPhase
begin

text \<open>
  Recovery of distributed transactions (\<open>cdb/cdbdtxrecovery.c\<close>): the committed transactions that redo
  of the master's log leaves behind, and resolving what is in doubt on the segments.
\<close>

section \<open>Redo\<close>

definition UtilityModeSaveRedo :: "bool \<Rightarrow> TMGXACT_LOG \<Rightarrow> 'w Backend \<Rightarrow> (Exit + unit) \<times> 'w Backend" where
  "UtilityModeSaveRedo committed gxact_log b =
     bindS (may_fail b) (\<lambda>_ b.
       (Inr (), b\<lparr>node := (node b)\<lparr>dtm_redo_file := dtm_redo_file (node b) @ [(committed, gxact_log)]\<rparr>\<rparr>))"

definition redoDistributedCommitRecord :: "TMGXACT_LOG \<Rightarrow> 'w Backend \<Rightarrow> (Exit + unit) \<times> 'w Backend" where
  "redoDistributedCommitRecord gxact_log b =
     (if length (log_gid gxact_log) \<ge> TMGIDSIZE then ereport PANIC GidTooLong b
      else if Gp_role (self b) = GP_ROLE_UTILITY then UtilityModeSaveRedo True gxact_log b
      else if list_ex (\<lambda>l. log_gid l = log_gid gxact_log) (shmCommittedGxactArray (node b)) then (Inr (), b)
      else if length (shmCommittedGxactArray (node b)) \<ge> max_tm_gxacts (node b)
      then ereport FATAL TooManyDistributedTransactions b
      else (Inr (), b\<lparr>node := (node b)\<lparr>shmCommittedGxactArray := shmCommittedGxactArray (node b) @ [gxact_log]\<rparr>\<rparr>))"

text \<open>The last entry takes the place of the forgotten one.\<close>

fun forget_gid :: "string \<Rightarrow> TMGXACT_LOG list \<Rightarrow> TMGXACT_LOG list" where
  "forget_gid gid [] = []"
| "forget_gid gid (l # ls) = (if log_gid l = gid then if ls = [] then [] else last ls # butlast ls else l # forget_gid gid ls)"

definition redoDistributedForgetCommitRecord :: "TMGXACT_LOG \<Rightarrow> 'w Backend \<Rightarrow> (Exit + unit) \<times> 'w Backend" where
  "redoDistributedForgetCommitRecord gxact_log b =
     (if Gp_role (self b) = GP_ROLE_UTILITY then UtilityModeSaveRedo False gxact_log b
      else (Inr (), b\<lparr>node := (node b)\<lparr>shmCommittedGxactArray :=
              forget_gid (log_gid gxact_log) (shmCommittedGxactArray (node b))\<rparr>\<rparr>))"

fun redoDtxCheckPoint :: "TMGXACT_LOG list \<Rightarrow> 'w Backend \<Rightarrow> (Exit + unit) \<times> 'w Backend" where
  "redoDtxCheckPoint [] b = (Inr (), b)"
| "redoDtxCheckPoint (l # ls) b = bindS (redoDistributedCommitRecord l b) (\<lambda>_ b. redoDtxCheckPoint ls b)"

text \<open>
  Redo of the distributed part of a commit record (\<open>xact_redo_distributed_commit\<close>) and of the other
  records of \<open>xact_redo\<close> in \<open>xact.c\<close>; an error during recovery takes the node down.
\<close>

definition xact_redo_distributed_commit :: "string \<Rightarrow> DistributedTransactionId \<Rightarrow> 'w Backend \<Rightarrow> (Exit + unit) \<times> 'w Backend" where
  "xact_redo_distributed_commit gid g b =
     (case dtxCrackOpenGid gid b of
        (Inl e, b) \<Rightarrow> (Inl (PANIC, snd e), b)
      | (Inr (tstamp, x), b) \<Rightarrow>
          if g \<noteq> x then (Inl (PANIC, BadGid), b)
          else redoDistributedCommitRecord \<lparr>log_gid = gid, log_gxid = g\<rparr> b)"

fun xact_redo :: "XLogRecord \<Rightarrow> 'w Backend \<Rightarrow> (Exit + unit) \<times> 'w Backend" where
  "xact_redo (XLOG_XACT_DISTRIBUTED_COMMIT x cs gid g) b = xact_redo_distributed_commit gid g b"
| "xact_redo (XLOG_XACT_DISTRIBUTED_FORGET gid g) b = redoDistributedForgetCommitRecord \<lparr>log_gid = gid, log_gxid = g\<rparr> b"
| "xact_redo _ b = (Inr (), b)"

fun redo_all :: "XLogRecord list \<Rightarrow> 'w Backend \<Rightarrow> (Exit + unit) \<times> 'w Backend" where
  "redo_all [] b = (Inr (), b)"
| "redo_all (r # rs) b = bindS (xact_redo r b) (\<lambda>_ b. redo_all rs b)"

fun ReplayRedoFromUtilityMode :: "(bool \<times> TMGXACT_LOG) list \<Rightarrow> 'w Backend \<Rightarrow> (Exit + unit) \<times> 'w Backend" where
  "ReplayRedoFromUtilityMode [] b = (Inr (), b)"
| "ReplayRedoFromUtilityMode ((committed, l) # rs) b =
     bindS (if committed then redoDistributedCommitRecord l b else redoDistributedForgetCommitRecord l b)
       (\<lambda>_ b. ReplayRedoFromUtilityMode rs b)"

definition RemoveRedoUtilityModeFile :: "'w Backend \<Rightarrow> 'w Backend" where
  "RemoveRedoUtilityModeFile b = b\<lparr>node := (node b)\<lparr>dtm_redo_file := []\<rparr>\<rparr>"

section \<open>Resolving in-doubt transactions\<close>

definition RecordDistributedForgetCommitted :: "TMGXACT_LOG \<Rightarrow> 'w Backend \<Rightarrow> (Exit + unit) \<times> 'w Backend" where
  "RecordDistributedForgetCommitted l b = XLogInsert (XLOG_XACT_DISTRIBUTED_FORGET (log_gid l) (log_gxid l)) b"

definition doNotifyCommittedInDoubt :: "'w Dispatcher \<Rightarrow> string \<Rightarrow> 'w Backend \<Rightarrow> (Exit + unit) \<times> 'w Backend" where
  "doNotifyCommittedInDoubt d gid b =
     bindS (doDispatchDtxProtocolCommand d DTX_PROTOCOL_COMMAND_RECOVERY_COMMIT_PREPARED gid False False
              (component_list d (world b)) None b) (\<lambda>succeeded b.
     if \<not> succeeded then ereport FATAL RecoveryBroadcastFailed b else (Inr (), b))"

definition doAbortInDoubt :: "'w Dispatcher \<Rightarrow> string \<Rightarrow> 'w Backend \<Rightarrow> (Exit + unit) \<times> 'w Backend" where
  "doAbortInDoubt d gid b =
     bindS (doDispatchDtxProtocolCommand d DTX_PROTOCOL_COMMAND_RECOVERY_ABORT_PREPARED gid False False
              (component_list d (world b)) None b) (\<lambda>succeeded b.
     if \<not> succeeded then ereport FATAL RecoveryBroadcastFailed b else (Inr (), b))"

fun notify_committed :: "'w Dispatcher \<Rightarrow> TMGXACT_LOG list \<Rightarrow> 'w Backend \<Rightarrow> (Exit + unit) \<times> 'w Backend" where
  "notify_committed d [] b = (Inr (), b)"
| "notify_committed d (l # ls) b =
     bindS (doNotifyCommittedInDoubt d (log_gid l) b) (\<lambda>_ b.
     bindS (RecordDistributedForgetCommitted l b) (\<lambda>_ b.
     notify_committed d ls b))"

text \<open>The hash table as the list of its gids, without repetition; a null pointer is the empty list.\<close>

definition gatherRMInDoubtTransactions :: "'w Dispatcher \<Rightarrow> 'w Backend \<Rightarrow> (Exit + string list) \<times> 'w Backend" where
  "gatherRMInDoubtTransactions d b =
     (let (r, w) = query_prepared d (world b); b = b\<lparr>world := w\<rparr>
      in case r of None \<Rightarrow> ereport ERROR QEReportedError b | Some rows \<Rightarrow> (Inr (remdups (concat rows)), b))"

fun abortRMInDoubtTransactions :: "'w Dispatcher \<Rightarrow> string list \<Rightarrow> 'w Backend \<Rightarrow> (Exit + unit) \<times> 'w Backend" where
  "abortRMInDoubtTransactions d [] b = (Inr (), b)"
| "abortRMInDoubtTransactions d (gid # gids) b =
     bindS (doAbortInDoubt d gid b) (\<lambda>_ b. abortRMInDoubtTransactions d gids b)"

definition recoverInDoubtTransactions :: "'w Dispatcher \<Rightarrow> 'w Backend \<Rightarrow> (Exit + unit) \<times> 'w Backend" where
  "recoverInDoubtTransactions d b =
     bindS (ReplayRedoFromUtilityMode (dtm_redo_file (node b)) b) (\<lambda>_ b.
     bindS (notify_committed d (shmCommittedGxactArray (node b)) b) (\<lambda>_ b.
     bindS (gatherRMInDoubtTransactions d (b\<lparr>node := (node b)\<lparr>shmCommittedGxactArray := []\<rparr>\<rparr>)) (\<lambda>htab b.
     bindS (abortRMInDoubtTransactions d htab b) (\<lambda>_ b.
     bindS (gatherRMInDoubtTransactions d b) (\<lambda>htab b.
     if htab \<noteq> [] then ereport FATAL StillInDoubt b
     else (Inr (), RemoveRedoUtilityModeFile b))))))"

definition recoverTM :: "'w Dispatcher \<Rightarrow> 'w Backend \<Rightarrow> (Exit + unit) \<times> 'w Backend" where
  "recoverTM d b =
     bindS (recoverInDoubtTransactions d b) (\<lambda>_ b. (Inr (), b\<lparr>node := (node b)\<lparr>shmDtmStarted := True\<rparr>\<rparr>))"

end
