(* ===== verification/MainLoop.thy ===== *)
theory MainLoop
  imports TwoPhase
begin

text \<open>
  The main loop of a server process (\<open>tcop/postgres.c\<close>): what it does after an error, when it exits,
  and how a new process starts; and the interface that says what aborting relies on, so that what the
  aborts of a process keep is proved once for the processes of the master and of the segments.
\<close>

section \<open>Errors of a server process\<close>

definition ERRORDATA_STACK_SIZE :: nat where "ERRORDATA_STACK_SIZE = 10"

text \<open>The main loop after an error; an error during the abort leads back there until the stack is full.\<close>

primrec after_error :: "'w Dispatcher \<Rightarrow> nat \<Rightarrow> 'w Backend \<Rightarrow> (Exit + unit) \<times> 'w Backend" where
  "after_error d 0 b = (Inl (PANIC, NodeDown), b)"
| "after_error d (Suc n) b = catchS (AbortCurrentTransaction d b) (\<lambda>b. after_error d n b)"

definition ShutdownPostgres :: "'w Dispatcher \<Rightarrow> 'w Backend \<Rightarrow> (Exit + unit) \<times> 'w Backend" where
  "ShutdownPostgres d b = AbortOutOfAnyTransaction d (b\<lparr>proc_exit_inprogress := True\<rparr>)"

section \<open>A new process\<close>

text \<open>A new process on the node of \<open>b\<close>.\<close>

definition new_process :: "'w Backend \<Rightarrow> 'w Backend" where
  "new_process b =
     resetGxact
       (b\<lparr>xact_stack := \<lparr>nodes = [\<lparr>transactionId = InvalidTransactionId, subTransactionId = 0, state = TRANS_DEFAULT,
                                    nestingLevel = 0, childXids = [], fastLink = None\<rparr>],
                         fastNodeCount = 0, previousFastLink = None, currentSubTransactionId = 0\<rparr>,
          blocks := [\<lparr>blockState = TBLOCK_DEFAULT, sp_name = None, savepointLevel = 0, didLogXid = False,
                      executorDidWriteXLog = False\<rparr>],
          prepareGID := None, dtx_context := DTX_CONTEXT_LOCAL_ONLY,
          QEDtxContextInfo := \<lparr>distributedXid = InvalidDistributedTransactionId, distributedTimeStamp = 0,
                               distributedTxnOptions = 0, haveDistributedSnapshot = False, info_nestingLevel = 0\<rparr>,
          XactIsoLevel := DefaultXactIsoLevel b, XactReadOnly := DefaultXactReadOnly b,
          MyLockedGxact := None, proc_exit_inprogress := False, faults := []\<rparr>)"


text \<open>The node comes up again with \<open>k\<close> records of its log, or all that were flushed if that is more.\<close>

definition restarted :: "nat \<Rightarrow> Node \<Rightarrow> Node" where
  "restarted k n =
     (let w = take (max k (flushed n)) (wal n)
      in n\<lparr>wal := w, flushed := length w, prepXacts := RecoverPreparedTransactions w\<rparr>)"

section \<open>Ending a block\<close>

text \<open>The blocks of a transaction that is to be ended: subtransactions to be committed over a block in state \<open>t\<close>.\<close>

definition ending :: "TBlockState \<Rightarrow> XactBlock list \<Rightarrow> bool" where
  "ending t bs \<longleftrightarrow> bs \<noteq> [] \<and> blockState (last bs) = t \<and> (\<forall>s \<in> set (butlast bs). blockState s = TBLOCK_SUBCOMMIT)"

lemma ending_cases:
  assumes "ending t bs"
  obtains s where "bs = [s]" "blockState s = t" | "blockState (hd bs) = TBLOCK_SUBCOMMIT"
  using assms by (cases bs) (auto simp: ending_def split: if_splits)

lemma CommitTransactionCommand_SUBCOMMIT:
  "blockState (CurrentBlock b) = TBLOCK_SUBCOMMIT \<Longrightarrow> CommitTransactionCommand d b =
     bindS (commit_subs TBLOCK_SUBCOMMIT b) (\<lambda>_ b.
          if blockState (CurrentBlock b) = TBLOCK_END then commit_and_idle d b
          else if blockState (CurrentBlock b) = TBLOCK_PREPARE then prepare_and_idle b
          else ereport ERROR UnexpectedBlockState b)"
  by (subst CommitTransactionCommand.simps) simp

lemma CommitSubTransaction_blocks:
  assumes "fst (CommitSubTransaction b) = Inr u"
  shows "blocks (snd (CommitSubTransaction b)) = tl (blocks b) \<and> tl (blocks b) \<noteq> []"
proof -
  have pop: "blocks (snd (PopTransactionBlock b)) = tl (blocks b) \<and> tl (blocks b) \<noteq> []"
    if "fst (PopTransactionBlock b) = Inr v" for b :: "'a Backend" and v
    using that by (auto simp: PopTransactionBlock_def split: sum.splits if_splits)
  let ?b = "snd (may_fail (set_state TRANS_COMMIT (snd (may_fail b))))"
  let ?r = "if TransactionIdIsValid (transactionId (CurrentNode ?b))
            then case AtSubCommit_childXids (xact_stack ?b) of
                   Inl _ \<Rightarrow> ereport ERROR TooManySubtransactions ?b
                 | Inr st \<Rightarrow> (Inr (), ?b\<lparr>xact_stack := st\<rparr>)
            else (Inr (), ?b)"
  obtain v where "fst (PopTransactionBlock (set_state TRANS_DEFAULT (snd ?r))) = Inr v"
    "snd (CommitSubTransaction b) = snd (PopTransactionBlock (set_state TRANS_DEFAULT (snd ?r)))"
    using assms unfolding CommitSubTransaction_def by (auto simp only: bindS_Inr snd_bindS_Inr)
  moreover have "blocks (snd ?r) = blocks b" by (simp split: sum.split)
  ultimately show ?thesis using pop by (metis blocks_set(1))
qed

lemma ending_tl: "ending t bs \<Longrightarrow> tl bs \<noteq> [] \<Longrightarrow> ending t (tl bs)"
  by (cases bs) (auto simp: ending_def)

lemma commit_subs_blocks:
  assumes "fst (commit_subs TBLOCK_SUBCOMMIT b) = Inr u" "ending t (blocks b)"
  shows "blocks (snd (commit_subs TBLOCK_SUBCOMMIT b)) = [last (blocks b)]"
  using assms
proof (induction "TBLOCK_SUBCOMMIT" b rule: commit_subs.induct)
  case (1 b)
  let ?b = "snd (CommitSubTransaction b)"
  obtain x where x: "fst (CommitSubTransaction b) = Inr x"
    using "1.prems"(1) by (subst (asm) commit_subs.simps) (auto simp: bindS_Inr)
  have unfold: "commit_subs TBLOCK_SUBCOMMIT b =
      (if blockState (CurrentBlock ?b) = TBLOCK_SUBCOMMIT then commit_subs TBLOCK_SUBCOMMIT ?b else (Inr (), ?b))"
    by (subst commit_subs.simps) (rule snd_bindS_Inr [OF x])
  have e: "ending t (blocks ?b)" using CommitSubTransaction_blocks [OF x] ending_tl [OF "1.prems"(2)] by simp
  have l: "last (blocks b) = last (blocks ?b)" using CommitSubTransaction_blocks [OF x] by (cases "blocks b") auto
  show ?case
  proof (cases "blockState (CurrentBlock ?b) = TBLOCK_SUBCOMMIT")
    case True
    then show ?thesis using "1.hyps" [OF x True] "1.prems"(1) e by (simp add: unfold l)
  next
    case False
    with e show ?thesis by (auto simp: unfold l elim: ending_cases)
  qed
qed

section \<open>What aborts keep\<close>

text \<open>
  \<open>P\<close> is kept by the updates that aborts are made of; \<open>rollbackDtxTransaction\<close> is the part of an
  abort that reaches other nodes.
\<close>

locale block_frame =
  fixes d :: "'w Dispatcher" and P :: "'w Backend \<Rightarrow> bool"
  assumes faults: "P b \<Longrightarrow> P (b\<lparr>faults := fs\<rparr>)"
    and abort_record: "P b \<Longrightarrow> P (b\<lparr>node := (node b)\<lparr>wal := wal (node b) @ [XLOG_XACT_ABORT x cs]\<rparr>\<rparr>)"
    and set_state: "P b \<Longrightarrow> P (set_state ts b)"
    and set_blockState: "P b \<Longrightarrow> P (set_blockState t b)"
    and set_xid: "P b \<Longrightarrow> P (set_xid pos xid b)"
    and end_node: "P b \<Longrightarrow> P (b\<lparr>xact_stack := (xact_stack b)\<lparr>nodes := butlast (nodes (xact_stack b)) @ [nd]\<rparr>\<rparr>)"
    and PopTransactionBlock: "P b \<Longrightarrow> P (snd (PopTransactionBlock b))"
    and AtSubCommit_childXids: "AtSubCommit_childXids (xact_stack b) = Inr st \<Longrightarrow> P b \<Longrightarrow> P (b\<lparr>xact_stack := st\<rparr>)"
    and AtSubAbort_childXids: "P b \<Longrightarrow> P (b\<lparr>xact_stack := AtSubAbort_childXids (xact_stack b)\<rparr>)"
    and AtAbort_Twophase: "P b \<Longrightarrow> P (AtAbort_Twophase b)"
    and rollbackDtxTransaction: "P b \<Longrightarrow> P (snd (rollbackDtxTransaction d b))"
    and finishDistributedTransactionContext: "P b \<Longrightarrow> P (snd (finishDistributedTransactionContext b))"
    and exiting: "P b \<Longrightarrow> P (b\<lparr>proc_exit_inprogress := True\<rparr>)"
begin

lemma bind: "P (snd r) \<Longrightarrow> (\<And>x b. fst r = Inr x \<Longrightarrow> b = snd r \<Longrightarrow> P b \<Longrightarrow> P (snd (f x b))) \<Longrightarrow> P (snd (bindS r f))"
  by (cases "fst r") (auto simp: bindS_def)

lemma if_pair: "(C \<Longrightarrow> P (snd r)) \<Longrightarrow> (\<not> C \<Longrightarrow> P (snd r')) \<Longrightarrow> P (snd (if C then r else r'))"
  by simp

lemma pair: "P b \<Longrightarrow> P (snd (x, b))" "P b \<Longrightarrow> P (snd (ereport l e b))"
  by simp_all

lemma may_fail: "P b \<Longrightarrow> P (snd (may_fail b))"
  by (auto simp: may_fail_def ereport_def intro: faults split: list.split Fault.split)

lemma may_panic: "P b \<Longrightarrow> P (snd (may_panic b))"
  by (auto simp: may_panic_def intro: faults split: list.split)

lemmas rules = bind if_pair pair may_fail may_panic set_state set_blockState set_xid end_node PopTransactionBlock
  AtSubAbort_childXids AtAbort_Twophase rollbackDtxTransaction finishDistributedTransactionContext

lemma RecordTransactionAbort: "P b \<Longrightarrow> P (snd (RecordTransactionAbort b))"
  unfolding RecordTransactionAbort_def XLogInsert_def Let_def by (intro rules abort_record; assumption)

lemma AbortTransaction: "P b \<Longrightarrow> P (snd (AbortTransaction d b))"
  unfolding AbortTransaction_def by (intro rules RecordTransactionAbort; assumption)

lemma CleanupTransaction: "P b \<Longrightarrow> P (snd (CleanupTransaction b))"
  unfolding CleanupTransaction_def by (intro rules; assumption)

lemma StartSubTransaction: "P b \<Longrightarrow> P (snd (StartSubTransaction b))"
  unfolding StartSubTransaction_def by (intro rules; assumption)

lemma CommitSubTransaction: "P b \<Longrightarrow> P (snd (CommitSubTransaction b))"
proof -
  have c: "P (snd (case AtSubCommit_childXids (xact_stack b) of Inl _ \<Rightarrow> ereport ERROR TooManySubtransactions b
        | Inr st \<Rightarrow> (Inr (), b\<lparr>xact_stack := st\<rparr>)))" if "P b" for b
    using that by (auto intro: AtSubCommit_childXids split: sum.split)
  show "P b \<Longrightarrow> P (snd (CommitSubTransaction b))"
    unfolding CommitSubTransaction_def by (intro rules c; assumption)
qed

lemma AbortSubTransaction: "P b \<Longrightarrow> P (snd (AbortSubTransaction b))"
  unfolding AbortSubTransaction_def
  by (intro rules RecordTransactionAbort; (assumption)?) (simp add: AtSubAbort_childXids)

lemma CleanupSubTransaction: "P b \<Longrightarrow> P (snd (CleanupSubTransaction b))"
  unfolding CleanupSubTransaction_def by (intro rules; assumption)

lemma and_idle: "P b \<Longrightarrow> P (snd (cleanup_and_idle b))" "P b \<Longrightarrow> P (snd (abort_and_idle d b))"
  unfolding abort_and_idle_def cleanup_and_idle_def by (intro rules CleanupTransaction AbortTransaction; assumption)+

lemma commit_subs: "P b \<Longrightarrow> P (snd (commit_subs t b))"
proof (induction t b rule: commit_subs.induct)
  case (1 t b)
  show ?case using "1.prems"
    by (subst commit_subs.simps) (intro bind CommitSubTransaction if_pair pair; (assumption | simp add: "1.IH"))
qed

lemma AbortCurrentTransaction: "P b \<Longrightarrow> P (snd (AbortCurrentTransaction d b))"
proof (induction d' \<equiv> d b rule: AbortCurrentTransaction.induct)
  case (1 b)
  show ?case using "1.prems"
    by (subst AbortCurrentTransaction.simps, cases "blockState (CurrentBlock b)")
      (auto intro!: rules and_idle CleanupTransaction AbortTransaction AbortSubTransaction CleanupSubTransaction intro: "1.hyps")
qed

lemma AbortOutOfAnyTransaction: "P b \<Longrightarrow> P (snd (AbortOutOfAnyTransaction d b))"
proof (induction d' \<equiv> d b rule: AbortOutOfAnyTransaction.induct)
  case (1 b)
  show ?case using "1.prems"
    by (subst AbortOutOfAnyTransaction.simps)
      (auto intro!: rules and_idle CleanupTransaction AbortTransaction AbortSubTransaction CleanupSubTransaction intro: "1.hyps")
qed

lemma after_error: "P b \<Longrightarrow> P (snd (after_error d n b))"
proof (induction n arbitrary: b)
  case (Suc n)
  have "P (snd (AbortCurrentTransaction d b))" by (rule AbortCurrentTransaction [OF Suc.prems])
  then show ?case using Suc.IH by (auto simp: catchS_def split: sum.split)
qed simp

lemma ShutdownPostgres: "P b \<Longrightarrow> P (snd (ShutdownPostgres d b))"
  unfolding ShutdownPostgres_def by (intro AbortOutOfAnyTransaction exiting)

end

end
