(* ===== verification/DtxSegment.thy ===== *)
theory DtxSegment
  imports DtxRecovery MainLoop
begin

text \<open>
  What the commands of the protocol do to the node of a segment: which transactions it has prepared
  and which it has committed, whatever errors and crashes interrupt the command.
\<close>

section \<open>Steps that touch no prepared transaction\<close>

definition views :: "Node \<Rightarrow> (TransactionId \<times> TransactionId list \<times> string) set" where
  "views n = (\<lambda>e. (gx_xid e, gx_children e, gx_gid e)) ` {e \<in> set (prepXacts n). gx_valid e}"

definition local_record :: "XLogRecord \<Rightarrow> bool" where
  "local_record r \<longleftrightarrow> (case r of XLOG_XACT_COMMIT _ _ \<Rightarrow> True | XLOG_XACT_ABORT _ _ \<Rightarrow> True | _ \<Rightarrow> False)"

definition aligned :: "'w Backend \<Rightarrow> bool" where
  "aligned b \<longleftrightarrow> length (nodes (xact_stack b)) = length (blocks b) \<and> blocks b \<noteq> []"

definition qe :: "'w Backend \<Rightarrow> bool" where
  "qe b \<longleftrightarrow> Gp_role (self b) = GP_ROLE_EXECUTE \<and> dtx_state (MyTmGxactLocal b) = DTX_STATE_NONE \<and>
     distinct (map gx_gid (prepXacts (node b))) \<and> flushed (node b) \<le> length (wal (node b)) \<and> aligned b"

definition extends :: "Node \<Rightarrow> Node \<Rightarrow> bool" where
  "extends n n' \<longleftrightarrow> flushed n \<le> flushed n' \<and> (\<exists>rs. wal n' = wal n @ rs \<and> list_all local_record rs)"

definition quiet :: "'w Backend \<Rightarrow> 'w Backend \<Rightarrow> bool" where
  "quiet b b' \<longleftrightarrow> (qe b \<longrightarrow> qe b' \<and> extends (node b) (node b') \<and> views (node b') = views (node b))"

named_theorems quiets \<open>operations that touch no prepared transaction\<close>

lemma extends_refl [simp]: "extends n n"
  by (simp add: extends_def)

lemma extends_trans: "extends n n' \<Longrightarrow> extends n' n'' \<Longrightarrow> extends n n''"
  by (auto simp: extends_def)

lemma quiet_refl [simp]: "quiet b b"
  by (simp add: quiet_def)

lemma quiet_trans: "quiet b b' \<Longrightarrow> quiet b' b'' \<Longrightarrow> quiet b b''"
  by (auto simp: quiet_def intro: extends_trans)

text \<open>
  The rules say that an operation keeps a state quiet, so that they can be chained; an operation may
  rely on \<open>qe\<close>.
\<close>

lemma quiet_on: "(qe b \<Longrightarrow> quiet b (snd (f b))) \<Longrightarrow> quiet b0 b \<Longrightarrow> quiet b0 (snd (f b))"
  by (auto simp: quiet_def intro: extends_trans)

lemma quiet_bindS [quiets]:
  "quiet b0 (snd r) \<Longrightarrow> (\<And>x b. quiet b0 b \<Longrightarrow> quiet b0 (snd (f x b))) \<Longrightarrow> quiet b0 (snd (bindS r f))"
  by (cases "fst r") (auto simp: bindS_def)

lemma quiet_if [quiets]: "(P \<Longrightarrow> quiet b0 (snd x)) \<Longrightarrow> (\<not> P \<Longrightarrow> quiet b0 (snd y)) \<Longrightarrow> quiet b0 (snd (if P then x else y))"
  by simp

lemma quiet_if_state [quiets]: "(P \<Longrightarrow> quiet b0 x) \<Longrightarrow> (\<not> P \<Longrightarrow> quiet b0 y) \<Longrightarrow> quiet b0 (if P then x else y)"
  by simp

lemma quiet_pair [quiets]: "quiet b0 b \<Longrightarrow> quiet b0 (snd (x, b))"
  by simp

lemma quiet_ereport [quiets]: "quiet b0 b \<Longrightarrow> quiet b0 (snd (ereport l r b))"
  by simp

lemma quiet_case_sum [quiets]:
  "(\<And>e. r = Inl e \<Longrightarrow> quiet b0 (snd (f e))) \<Longrightarrow> (\<And>x. r = Inr x \<Longrightarrow> quiet b0 (snd (g x))) \<Longrightarrow>
   quiet b0 (snd (case r of Inl e \<Rightarrow> f e | Inr x \<Rightarrow> g x))"
  by (cases r) auto

lemma quiet_frame:
  assumes "self b' = self b" "dtx_state (MyTmGxactLocal b') = dtx_state (MyTmGxactLocal b)" "node b' = node b"
    "length (nodes (xact_stack b')) = length (nodes (xact_stack b))" "blocks b' = blocks b"
  shows "quiet b0 b \<Longrightarrow> quiet b0 b'"
  using assms by (simp add: quiet_def qe_def aligned_def)

lemma quiet_may_fail [quiets]: "quiet b0 b \<Longrightarrow> quiet b0 (snd (may_fail b))"
  "quiet b0 b \<Longrightarrow> quiet b0 (snd (may_panic b))"
  by (erule quiet_frame [rotated 5]; auto simp: may_fail_def may_panic_def ereport_def split: list.splits Fault.splits)+

lemma quiet_append: "local_record r \<Longrightarrow> quiet b0 b \<Longrightarrow> quiet b0 (b\<lparr>node := (node b)\<lparr>wal := wal (node b) @ [r]\<rparr>\<rparr>)"
  by (auto simp: quiet_def qe_def extends_def views_def aligned_def)

lemma quiet_flushed: "quiet b0 b \<Longrightarrow> quiet b0 (b\<lparr>node := (node b)\<lparr>flushed := length (wal (node b))\<rparr>\<rparr>)"
  by (auto simp: quiet_def qe_def extends_def views_def aligned_def)

lemma quiet_XLog [quiets]:
  "local_record r \<Longrightarrow> quiet b0 b \<Longrightarrow> quiet b0 (snd (XLogInsert r b))" "quiet b0 b \<Longrightarrow> quiet b0 (snd (XLogFlush b))"
  unfolding XLogInsert_def XLogFlush_def by (intro quiets quiet_append quiet_flushed; assumption)+

lemma quiet_set_state [quiets]: "quiet b0 b \<Longrightarrow> quiet b0 (set_state st b)"
  by (auto simp: quiet_def qe_def aligned_def set_state_def)

lemma quiet_blocks: "length bs = length (blocks b) \<Longrightarrow> quiet b0 b \<Longrightarrow> quiet b0 (b\<lparr>blocks := bs\<rparr>)"
  by (auto simp: quiet_def qe_def aligned_def)

lemma quiet_set_blockState [quiets]: "quiet b0 b \<Longrightarrow> quiet b0 (set_blockState t b)"
  by (cases "blocks b") (auto simp: quiet_def qe_def aligned_def set_blockState_def)

lemma quiet_sets [quiets]:
  "quiet b0 b \<Longrightarrow> quiet b0 (set_xid pos xid b)" "quiet b0 b \<Longrightarrow> quiet b0 (setDistributedTransactionContext c b)"
  "quiet b0 b \<Longrightarrow> quiet b0 (b\<lparr>prepareGID := pg\<rparr>)" "quiet b0 b \<Longrightarrow> quiet b0 (b\<lparr>QEDtxContextInfo := info\<rparr>)"
  "quiet b0 b \<Longrightarrow> quiet b0 (b\<lparr>MyLockedGxact := lg\<rparr>)"
  "quiet b0 b \<Longrightarrow> quiet b0 (b\<lparr>XactIsoLevel := lvl, XactReadOnly := ro, MyTmGxact := gx\<rparr>)"
  "quiet b0 b \<Longrightarrow> quiet b0 (b\<lparr>MyTmGxactLocal := (MyTmGxactLocal b)\<lparr>isOnePhaseCommit := onep\<rparr>\<rparr>)"
  by (erule quiet_frame [rotated 5]; simp add: set_xid_def setDistributedTransactionContext_def)+

lemma quiet_set_sp_name [quiets]: "quiet b0 b \<Longrightarrow> quiet b0 (set_sp_name nm b)"
  by (cases "blocks b") (auto simp: quiet_def qe_def aligned_def set_sp_name_def)

lemma quiet_end_node [quiets]:
  "quiet b0 b \<Longrightarrow> quiet b0 (b\<lparr>xact_stack := (xact_stack b)\<lparr>nodes := butlast (nodes (xact_stack b)) @ [nd]\<rparr>\<rparr>)"
  by (auto simp: quiet_def qe_def aligned_def)

lemma quiet_level [quiets]:
  "quiet b0 b \<Longrightarrow> quiet b0 (b\<lparr>blocks := (CurrentBlock b)\<lparr>savepointLevel := level\<rparr> # tl (blocks b)\<rparr>)"
  by (cases "blocks b") (auto simp: quiet_def qe_def aligned_def)

section \<open>Transactions of a segment process\<close>

lemma PushTransaction_length: "PushTransaction st = Inr st' \<Longrightarrow> length (nodes st') = Suc (length (nodes st))"
  by (auto simp: PushTransaction_def Let_def split: if_splits)

lemma PopTransaction_length: "PopTransaction st = Inr st' \<Longrightarrow> length (nodes st') = length (nodes st) - 1"
  by (auto simp: PopTransaction_def Let_def split: if_splits)

lemma quiet_stack [quiets]:
  "quiet b0 b \<Longrightarrow> quiet b0 (snd (PushTransactionBlock b))" "quiet b0 b \<Longrightarrow> quiet b0 (snd (PopTransactionBlock b))"
proof -
  show "quiet b0 b \<Longrightarrow> quiet b0 (snd (PushTransactionBlock b))"
    by (auto simp: PushTransactionBlock_def quiet_def qe_def aligned_def PushTransaction_length split: sum.splits)
  show "quiet b0 b \<Longrightarrow> quiet b0 (snd (PopTransactionBlock b))"
    by (auto simp: PopTransactionBlock_def quiet_def qe_def aligned_def PopTransaction_length
        dest: list.set_sel(2) split: sum.splits)
qed

lemma quiet_nextXid [quiets]: "quiet b0 b \<Longrightarrow> quiet b0 (b\<lparr>node := (node b)\<lparr>nextXid := x\<rparr>\<rparr>)"
  by (simp add: quiet_def qe_def extends_def views_def aligned_def)

lemma quiet_GetNewTransactionId [quiets]: "quiet b0 b \<Longrightarrow> quiet b0 (snd (GetNewTransactionId b))"
  unfolding GetNewTransactionId_def Let_def by (intro quiets; assumption)

lemma quiet_assign_ids [quiets]: "quiet b0 b \<Longrightarrow> quiet b0 (snd (assign_ids ps b))"
  by (induction ps b rule: assign_ids.induct) (auto intro!: quiets)

lemma quiet_GetCurrentTransactionId [quiets]: "quiet b0 b \<Longrightarrow> quiet b0 (snd (GetCurrentTransactionId b))"
  unfolding GetCurrentTransactionId_def AssignTransactionId_def by (intro quiets; assumption)

lemma quiet_mppTxOptions [quiets]: "quiet b0 b \<Longrightarrow> quiet b0 (snd (mppTxOptions_IsoLevel opts b))"
  unfolding mppTxOptions_IsoLevel_def by (intro quiets; assumption)

lemma quiet_start [quiets]:
  "quiet b0 b \<Longrightarrow> quiet b0 (b\<lparr>xact_stack := \<lparr>nodes = [nd], fastNodeCount = 0, previousFastLink = None,
                               currentSubTransactionId = 1\<rparr>,
                blocks := [(last (blocks b))\<lparr>didLogXid := dl, executorDidWriteXLog := ew\<rparr>],
                XactReadOnly := ro, XactIsoLevel := lvl\<rparr>)"
  by (auto simp: quiet_def qe_def aligned_def)

lemma quiet_adopt [quiets]:
  "quiet b0 b \<Longrightarrow> quiet b0 (b\<lparr>XactIsoLevel := l, XactReadOnly := ro\<rparr>)" "quiet b0 b \<Longrightarrow> quiet b0 (adopt_qd_gxid b)"
  by (simp_all add: quiet_def qe_def aligned_def adopt_qd_gxid_def)

lemma quiet_StartTransaction [quiets]: "quiet b0 b \<Longrightarrow> quiet b0 (snd (StartTransaction b))"
  unfolding StartTransaction_def start_dtx_context_def adopt_qd_options_def Let_def by (intro quiets; assumption)

lemma quiet_finish [quiets]: "quiet b0 b \<Longrightarrow> quiet b0 (snd (finishDistributedTransactionContext b))"
  unfolding finishDistributedTransactionContext_def by (intro quiets; assumption)

text \<open>A segment process is in no distributed transaction of its own.\<close>

lemma quiet_no_dtx [quiets]:
  "quiet b0 b \<Longrightarrow> quiet b0 (snd (prepareDtxTransaction d b))" "quiet b0 b \<Longrightarrow> quiet b0 (snd (rollbackDtxTransaction d b))"
  by (rule quiet_on, auto simp: prepareDtxTransaction_def rollbackDtxTransaction_def isCurrentDtxActivated_def qe_def
      quiet_def resetGxact_def aligned_def)+

lemma quiet_no_notification:
  "quiet b0 b \<Longrightarrow> quiet b0 (snd (if notifyCommittedDtxTransactionIsNeeded b
            then bindS (notifyCommittedDtxTransaction d b) (\<lambda>_ b. (Inr (), ClearTransactionState b))
            else (Inr (), b)))"
  by (rule quiet_on [where f = "\<lambda>b. if notifyCommittedDtxTransactionIsNeeded b
            then bindS (notifyCommittedDtxTransaction d b) (\<lambda>_ b. (Inr (), ClearTransactionState b)) else (Inr (), b)"])
    (auto simp: notifyCommittedDtxTransactionIsNeeded_def isCurrentDtxActivated_def qe_def)

lemma quiet_RecordTransactionCommit [quiets]: "quiet b0 b \<Longrightarrow> quiet b0 (snd (RecordTransactionCommit b))"
  by (rule quiet_on)
    (auto simp: RecordTransactionCommit_def Let_def isPreparedDtxTransaction_def qe_def local_record_def intro!: quiets)

lemma quiet_CommitTransaction [quiets]: "quiet b0 b \<Longrightarrow> quiet b0 (snd (CommitTransaction d b))"
  unfolding CommitTransaction_def by (intro quiet_no_notification quiet_bindS quiets; assumption)


section \<open>The array of prepared transactions\<close>

lemma last_first:
  assumes "xs \<noteq> []"
  shows "insert (last xs) (set (butlast xs)) = set xs"
    "f (last xs) \<notin> f ` set (butlast xs) \<and> distinct (map f (butlast xs)) \<longleftrightarrow> distinct (map f xs)"
  using assms by (cases xs rule: rev_cases; auto)+

lemma set_remove_gxact:
  "distinct (map gx_gid gs) \<Longrightarrow> set (remove_gxact gid gs) = {e \<in> set gs. gx_gid e \<noteq> gid}"
  "distinct (map gx_gid gs) \<Longrightarrow> distinct (map gx_gid (remove_gxact gid gs))"
proof (induction gs)
  case (Cons g gs)
  { case 1 then show ?case using Cons.IH(1) last_first(1) [of gs] by (auto simp: rev_image_eqI) }
  { case 2 then show ?case using Cons.IH Cons.IH(1) last_first(2) [of gs gx_gid] by auto }
qed simp_all

lemma views_alt: "views n = set (map (\<lambda>e. (gx_xid e, gx_children e, gx_gid e)) (filter gx_valid (prepXacts n)))"
  by (simp add: views_def)

lemma views_update:
  assumes "\<And>e. gx_gid (f e) = gx_gid e \<and> gx_xid (f e) = gx_xid e \<and> gx_children (f e) = gx_children e \<and> gx_valid (f e) = gx_valid e"
  shows "views (node (update_gxact gid f b)) = views (node b) \<and>
   map gx_gid (prepXacts (node (update_gxact gid f b))) = map gx_gid (prepXacts (node b))"
proof -
  let ?h = "\<lambda>e. if gx_gid e = gid then f e else e" and ?k = "\<lambda>e. (gx_xid e, gx_children e, gx_gid e)"
  have h: "gx_valid \<circ> ?h = gx_valid" "?k \<circ> ?h = ?k" "gx_gid \<circ> ?h = gx_gid" using assms by (auto simp: fun_eq_iff)
  have "map ?k (filter gx_valid (map ?h es)) = map ?k (filter gx_valid es)" for es
    unfolding filter_map h(1) map_map h(2) ..
  moreover have "map gx_gid (map ?h es) = map gx_gid es" for es unfolding map_map h(3) ..
  ultimately show ?thesis unfolding views_alt update_gxact_def by simp
qed

lemma quiet_update_gxact:
  "(\<And>e. gx_gid (f e) = gx_gid e \<and> gx_xid (f e) = gx_xid e \<and> gx_children (f e) = gx_children e \<and> gx_valid (f e) = gx_valid e) \<Longrightarrow>
   quiet b0 b \<Longrightarrow> quiet b0 (update_gxact gid f b)"
  using views_update [of f gid b]
  by (simp add: quiet_def qe_def aligned_def extends_def) (simp add: update_gxact_def)

lemma quiet_RemoveGXact:
  assumes "\<And>e. e \<in> set (prepXacts (node b)) \<Longrightarrow> gx_gid e = gid \<Longrightarrow> \<not> gx_valid e"
  shows "quiet b0 b \<Longrightarrow> quiet b0 (RemoveGXact gid b)"
proof (rule quiet_trans)
  have "views (node (RemoveGXact gid b)) = views (node b)" if d: "distinct (map gx_gid (prepXacts (node b)))"
    using assms by (auto simp: views_def RemoveGXact_def set_remove_gxact [OF d])
  then show "quiet b (RemoveGXact gid b)"
    by (auto simp: quiet_def qe_def aligned_def extends_def RemoveGXact_def set_remove_gxact)
qed

lemma quiet_AtAbort_Twophase [quiets]: "quiet b0 b \<Longrightarrow> quiet b0 (AtAbort_Twophase b)"
proof (rule quiet_trans)
  show "quiet b (AtAbort_Twophase b)"
  proof (cases "MyLockedGxact b")
    case None
    then show ?thesis by (simp add: AtAbort_Twophase_def)
  next
    case (Some gid)
    let ?invalid = "list_ex (\<lambda>g. gx_gid g = gid \<and> \<not> gx_valid g) (prepXacts (node b))"
    have "quiet b (RemoveGXact gid b)" if inv: ?invalid
    proof (cases "distinct (map gx_gid (prepXacts (node b)))")
      case True
      then have "e \<in> set (prepXacts (node b)) \<Longrightarrow> gx_gid e = gid \<Longrightarrow> \<not> gx_valid e" for e
        using inv by (auto simp: list_ex_iff distinct_map dest: inj_onD)
      then show ?thesis by (intro quiet_RemoveGXact) auto
    qed (simp add: quiet_def qe_def)
    moreover have "quiet b (update_gxact gid (\<lambda>g. g\<lparr>locking_backend := InvalidBackendId\<rparr>) b)"
      by (intro quiet_update_gxact) simp_all
    ultimately show ?thesis using Some by (auto simp: AtAbort_Twophase_def intro!: quiets)
  qed
qed

section \<open>Aborting\<close>

lemma quiet_childXids:
  "AtSubCommit_childXids (xact_stack b) = Inr st \<Longrightarrow> quiet b0 b \<Longrightarrow> quiet b0 (b\<lparr>xact_stack := st\<rparr>)"
  "quiet b0 b \<Longrightarrow> quiet b0 (b\<lparr>xact_stack := AtSubAbort_childXids (xact_stack b)\<rparr>)"
  by (erule quiet_frame [rotated 5]; auto simp: AtSubCommit_childXids_def AtSubAbort_childXids_def Let_def split: if_splits)+

lemma quiet_process [quiets]: "quiet b0 b \<Longrightarrow> quiet b0 (b\<lparr>faults := fs\<rparr>)" "quiet b0 b \<Longrightarrow> quiet b0 (b\<lparr>proc_exit_inprogress := True\<rparr>)"
  by (erule quiet_frame [rotated 5]; simp)+

interpretation qf: block_frame d "quiet b0" for d b0
  by unfold_locales
    (simp_all add: quiet_process quiet_append local_record_def quiet_set_state quiet_set_blockState quiet_sets quiet_end_node
      quiet_stack quiet_childXids quiet_AtAbort_Twophase quiet_no_dtx quiet_finish)

lemmas qf_rules [quiets] = qf.RecordTransactionAbort qf.AbortTransaction qf.CleanupTransaction qf.StartSubTransaction
  qf.CommitSubTransaction qf.AbortSubTransaction qf.CleanupSubTransaction qf.and_idle qf.commit_subs
  qf.AbortCurrentTransaction qf.AbortOutOfAnyTransaction

section \<open>The block state machine\<close>

lemma quiet_StartTransactionCommand [quiets]: "quiet b0 b \<Longrightarrow> quiet b0 (snd (StartTransactionCommand b))"
  unfolding StartTransactionCommand_def setupRegularDtxContext_def
  by (intro quiet_bindS quiets) (auto intro!: quiets split: TBlockState.split if_splits)

lemma quiet_commit_and_idle [quiets]: "quiet b0 b \<Longrightarrow> quiet b0 (snd (commit_and_idle d b))"
  unfolding commit_and_idle_def by (intro quiets; simp)

lemma quiet_rec:
  "quiet b0 (snd r) \<Longrightarrow> (\<And>x. fst r = Inr x \<Longrightarrow> quiet b0 (snd (f x (snd r)))) \<Longrightarrow> quiet b0 (snd (bindS r f))"
  by (cases "fst r") (auto simp: bindS_def)

text \<open>Only a block that is to be prepared is not committed quietly.\<close>

lemma quiet_CommitTransactionCommand:
  "blockState (CurrentBlock b) \<in> {TBLOCK_STARTED, TBLOCK_BEGIN, TBLOCK_INPROGRESS, TBLOCK_SUBINPROGRESS, TBLOCK_END,
     TBLOCK_ABORT, TBLOCK_SUBABORT} \<Longrightarrow> quiet b0 b \<Longrightarrow> quiet b0 (snd (CommitTransactionCommand d b))"
  by (subst CommitTransactionCommand.simps) (auto intro!: quiets)

end
