(* ===== verification/SegmentLog.thy ===== *)
theory SegmentLog
  imports DtxSegment
begin

text \<open>
  What the log of a segment says of distributed transactions, and what a protocol command may add to
  it, whatever error or crash interrupts the command.
\<close>

section \<open>Prepared and committed transactions in a log\<close>

fun resolve :: "XLogRecord \<Rightarrow> PreparedMap \<times> string list \<Rightarrow> PreparedMap \<times> string list" where
  "resolve r (m, c) = (redo_prepared r m,
     case r of XLOG_XACT_COMMIT_PREPARED x _ _ _ \<Rightarrow> c @ map (snd \<circ> snd) (filter (\<lambda>e. fst e = x) m) | _ \<Rightarrow> c)"

definition outcome :: "XLogRecord list \<Rightarrow> PreparedMap \<times> string list" where
  "outcome w = fold resolve w ([], [])"

definition committed_in :: "XLogRecord list \<Rightarrow> string list" where
  "committed_in w = snd (outcome w)"

definition seg_log :: "XLogRecord list \<Rightarrow> string set \<times> string set" where
  "seg_log w = ((snd \<circ> snd) ` set (prepared_in w), set (committed_in w))"

lemma fst_outcome: "fst (outcome w) = prepared_in w"
proof -
  have "fst (fold resolve w mc) = fold redo_prepared w (fst mc)" for mc
    by (induction w arbitrary: mc) (auto simp: split_paired_all)
  then show ?thesis by (simp add: outcome_def prepared_in_def)
qed

lemma prepared_in_snoc: "prepared_in (w @ [r]) = redo_prepared r (prepared_in w)"
  by (simp add: prepared_in_def)

lemma committed_in_snoc: "committed_in (w @ [r]) = snd (resolve r (prepared_in w, committed_in w))"
  by (metis (no_types, lifting) committed_in_def fst_outcome outcome_def fold_append fold.simps comp_apply id_apply prod.collapse)

lemma local_records_ignored:
  "list_all local_record rs \<Longrightarrow> prepared_in (w @ rs) = prepared_in w \<and> committed_in (w @ rs) = committed_in w"
proof (induction rs rule: rev_induct)
  case (snoc r rs)
  then show ?case
    by (cases r) (auto simp: append_assoc [symmetric] prepared_in_snoc committed_in_snoc local_record_def simp del: append_assoc)
qed simp

lemma seg_log_local [simp]: "list_all local_record rs \<Longrightarrow> seg_log (w @ rs) = seg_log w"
  by (simp add: seg_log_def local_records_ignored)

lemma distinct_prepared_in: "distinct (map fst (prepared_in w))"
proof (induction w rule: rev_induct)
  case (snoc r w)
  then show ?case by (cases r) (auto simp: prepared_in_snoc distinct_map_filter)
qed (simp add: prepared_in_def)

section \<open>A node at rest\<close>

text \<open>
  Between commands the array says what the log says, and what the log says of prepared transactions
  is on disk.
\<close>

definition seg_ok :: "Node \<Rightarrow> bool" where
  "seg_ok n \<longleftrightarrow> views n = set (prepared_in (wal n)) \<and> distinct (map gx_gid (prepXacts n)) \<and>
     flushed n \<le> length (wal n) \<and> list_all local_record (drop (flushed n) (wal n))"

text \<open>
  After a crash at any moment the log says one of the things in \<open>X\<close>, and its prepared transactions
  have different gids.
\<close>

definition crash_ok :: "(string set \<times> string set) set \<Rightarrow> Node \<Rightarrow> bool" where
  "crash_ok X n \<longleftrightarrow> (\<forall>k \<ge> flushed n. seg_log (take k (wal n)) \<in> X \<and>
                       distinct (map (snd \<circ> snd) (prepared_in (take k (wal n)))))"

lemma views_inj_gid:
  assumes "distinct (map gx_gid (prepXacts n))" "v \<in> views n" "v' \<in> views n" "snd (snd v) = snd (snd v')"
  shows "v = v'"
  using assms by (auto simp: views_def distinct_map dest: inj_onD)

lemma distinct_gids: "seg_ok n \<Longrightarrow> distinct (map (snd \<circ> snd) (prepared_in (wal n)))"
proof -
  assume ok: "seg_ok n"
  then have "inj_on (snd \<circ> snd) (set (prepared_in (wal n)))"
    using views_inj_gid [of n] by (intro inj_onI) (auto simp: seg_ok_def)
  moreover have "distinct (prepared_in (wal n))" using distinct_prepared_in [of "wal n"] by (simp add: distinct_map)
  ultimately show ?thesis by (simp add: distinct_map)
qed

lemma seg_ok_crash_ok: "seg_ok n \<Longrightarrow> crash_ok {seg_log (wal n)} n"
proof -
  assume ok: "seg_ok n"
  have "prepared_in (take k (wal n)) = prepared_in (wal n) \<and> committed_in (take k (wal n)) = committed_in (wal n)"
    if k: "k \<ge> flushed n" for k
  proof -
    have "take k (wal n) @ drop k (wal n) = wal n" by simp
    moreover have "list_all local_record (drop k (wal n))"
      using ok set_drop_subset_set_drop [OF k, of "wal n"] by (auto simp: seg_ok_def list_all_iff)
    ultimately show ?thesis by (metis local_records_ignored)
  qed
  then show ?thesis using distinct_gids [OF ok] by (simp add: crash_ok_def seg_log_def)
qed

lemma crash_ok_log: "crash_ok X n \<Longrightarrow> flushed n \<le> length (wal n) \<Longrightarrow> seg_log (wal n) \<in> X"
  by (metis crash_ok_def order_refl take_all)

lemma crash_ok_mono: "crash_ok X n \<Longrightarrow> X \<subseteq> Y \<Longrightarrow> crash_ok Y n"
  by (auto simp: crash_ok_def)


section \<open>Results of a command\<close>

text \<open>
  A command that starts at rest ends at rest unless the node goes down, with a log in \<open>X\<close>, and in \<open>Y\<close>
  if it succeeds; and if the node goes down, it comes up with a log in \<open>X\<close>.
\<close>

definition at_rest :: "(string set \<times> string set) set \<Rightarrow> 'w Backend \<Rightarrow> bool" where
  "at_rest X b \<longleftrightarrow> qe b \<and> seg_ok (node b) \<and> seg_log (wal (node b)) \<in> X"

definition good :: "(string set \<times> string set) set \<Rightarrow> (string set \<times> string set) set \<Rightarrow> (Exit + 'a) \<times> 'w Backend \<Rightarrow> bool" where
  "good X Y r \<longleftrightarrow> crash_ok X (node (snd r)) \<and> Gp_role (self (snd r)) = GP_ROLE_EXECUTE \<and> ((\<forall>e. fst r \<noteq> Inl (PANIC, e)) \<longrightarrow> at_rest X (snd r)) \<and>
     (\<forall>x. fst r = Inr x \<longrightarrow> at_rest Y (snd r))"

lemma extends_seg_ok: "extends n n' \<Longrightarrow> views n' = views n \<Longrightarrow> distinct (map gx_gid (prepXacts n')) \<Longrightarrow> flushed n' \<le> length (wal n') \<Longrightarrow>
  seg_ok n \<Longrightarrow> seg_ok n' \<and> seg_log (wal n') = seg_log (wal n)"
proof -
  assume ext: "extends n n'" and v: "views n' = views n" and d: "distinct (map gx_gid (prepXacts n'))"
    and fl: "flushed n' \<le> length (wal n')" and ok: "seg_ok n"
  obtain rs where rs: "wal n' = wal n @ rs" "list_all local_record rs" using ext by (auto simp: extends_def)
  have "set (drop (flushed n') (wal n')) \<subseteq> set (drop (flushed n) (wal n'))"
    using ext by (simp add: extends_def set_drop_subset_set_drop)
  moreover have "list_all local_record (drop (flushed n) (wal n'))"
    using ok rs by (auto simp: seg_ok_def)
  ultimately have "list_all local_record (drop (flushed n') (wal n'))" by (auto simp: list_all_iff)
  then show ?thesis using ok v d fl rs local_records_ignored [OF rs(2), of "wal n"] by (simp add: seg_ok_def)
qed

lemma at_rest_quiet: "at_rest X b \<Longrightarrow> quiet b b' \<Longrightarrow> at_rest X b'"
  using extends_seg_ok [of "node b" "node b'"] by (auto simp: at_rest_def quiet_def qe_def)

lemma at_rest_crash_ok: "at_rest X b \<Longrightarrow> crash_ok X (node b)"
  by (auto simp: at_rest_def intro: crash_ok_mono [OF seg_ok_crash_ok])

lemma at_rest_role: "at_rest X b \<Longrightarrow> Gp_role (self b) = GP_ROLE_EXECUTE"
  by (simp add: at_rest_def qe_def)

lemma at_rest_mono: "at_rest X b \<Longrightarrow> X \<subseteq> Y \<Longrightarrow> at_rest Y b"
  by (auto simp: at_rest_def)

lemma good_mono: "good X Y r \<Longrightarrow> X \<subseteq> X' \<Longrightarrow> Y \<subseteq> Y' \<Longrightarrow> good X' Y' r"
  by (auto simp: good_def intro: crash_ok_mono at_rest_mono)

lemma good_rest: "at_rest Y b \<Longrightarrow> Y \<subseteq> X \<Longrightarrow> good X Y (r, b)"
  by (auto simp: good_def intro: at_rest_mono at_rest_role at_rest_crash_ok [THEN crash_ok_mono])

lemma good_quiet: "at_rest Y b \<Longrightarrow> Y \<subseteq> X \<Longrightarrow> quiet b (snd r) \<Longrightarrow> good X Y r"
  using good_rest [of Y "snd r" X "fst r"] at_rest_quiet [of Y b "snd r"] by simp

lemma good_bind:
  "good X Z r \<Longrightarrow> (\<And>x. fst r = Inr x \<Longrightarrow> at_rest Z (snd r) \<Longrightarrow> good X Y (f x (snd r))) \<Longrightarrow> good X Y (bindS r f)"
  by (cases "fst r") (auto simp: good_def bindS_def)

lemma good_Inl: "good X Z r \<Longrightarrow> fst r = Inl e \<Longrightarrow> good X Y (Inl e, snd r)"
  by (auto simp: good_def)

section \<open>Writing one record\<close>

definition logged :: "XLogRecord \<Rightarrow> 'w Backend \<Rightarrow> (Exit + unit) \<times> 'w Backend" where
  "logged r b = bindS (XLogInsert r b) (\<lambda>_ b. XLogFlush b)"

lemma may_panic_cases:
  obtains fs where "may_panic b = (Inr (), b\<lparr>faults := fs\<rparr>)" | fs where "may_panic b = (Inl (PANIC, NodeDown), b\<lparr>faults := fs\<rparr>)"
proof (cases "faults b")
  case Nil
  then have "may_panic b = (Inr (), b\<lparr>faults := []\<rparr>)" by (simp add: may_panic_def)
  then show thesis by (rule that(1))
next
  case (Cons f fs)
  then have "may_panic b = (if f = Proceed then Inr () else Inl (PANIC, NodeDown), b\<lparr>faults := fs\<rparr>)" by (simp add: may_panic_def)
  then show thesis by (cases "f = Proceed") (simp_all add: that)
qed

lemma logged_cases:
  obtains (ok) fs where "logged r b = (Inr (), b\<lparr>faults := fs, node := (node b)\<lparr>wal := wal (node b) @ [r],
                                                      flushed := Suc (length (wal (node b)))\<rparr>\<rparr>)"
  | (panic) fs e w where "logged r b = (Inl (PANIC, e), b\<lparr>faults := fs, node := (node b)\<lparr>wal := w\<rparr>\<rparr>)"
      "w = wal (node b) \<or> w = wal (node b) @ [r]"
proof (cases b rule: may_panic_cases)
  case (1 fs)
  let ?b = "b\<lparr>faults := fs, node := (node b)\<lparr>wal := wal (node b) @ [r]\<rparr>\<rparr>"
  have l: "logged r b = XLogFlush ?b" using 1 by (simp add: logged_def XLogInsert_def)
  show thesis
  proof (cases ?b rule: may_panic_cases)
    case (1 gs)
    then have "logged r b = (Inr (), b\<lparr>faults := gs, node := (node b)\<lparr>wal := wal (node b) @ [r], flushed := Suc (length (wal (node b)))\<rparr>\<rparr>)"
      by (simp add: l XLogFlush_def)
    then show thesis by (rule ok)
  next
    case (2 gs)
    then have "logged r b = (Inl (PANIC, NodeDown), b\<lparr>faults := gs, node := (node b)\<lparr>wal := wal (node b) @ [r]\<rparr>\<rparr>)"
      by (simp add: l XLogFlush_def)
    then show thesis by (rule panic) simp
  qed
next
  case (2 fs)
  then have "logged r b = (Inl (PANIC, NodeDown), b\<lparr>faults := fs, node := (node b)\<lparr>wal := wal (node b)\<rparr>\<rparr>)"
    by (simp add: logged_def XLogInsert_def)
  then show thesis by (rule panic) simp
qed

lemma crash_ok_append:
  assumes "seg_ok n" "wal n' = wal n @ [r]" "flushed n' = flushed n" "distinct (map (snd \<circ> snd) (prepared_in (wal n @ [r])))"
  shows "crash_ok {seg_log (wal n), seg_log (wal n @ [r])} n'"
proof -
  have "seg_log (take k (wal n')) \<in> {seg_log (wal n), seg_log (wal n @ [r])} \<and>
      distinct (map (snd \<circ> snd) (prepared_in (take k (wal n'))))" if k: "k \<ge> flushed n'" for k
  proof (cases "k \<le> length (wal n)")
    case True
    then show ?thesis using seg_ok_crash_ok [OF assms(1)] assms k by (auto simp: crash_ok_def)
  next
    case False
    then show ?thesis using assms by simp
  qed
  then show ?thesis by (simp add: crash_ok_def)
qed

text \<open>
  A record that is logged at rest: if the node goes down, it is there or not; otherwise it is on disk.
\<close>

lemma good_logged:
  assumes rest: "at_rest {L} b" and L': "seg_log (wal (node b) @ [r]) = L'"
    and d: "distinct (map (snd \<circ> snd) (prepared_in (wal (node b) @ [r])))"
    and cont: "\<And>fs. good {L, L'} Y (f () (b\<lparr>faults := fs, node := (node b)\<lparr>wal := wal (node b) @ [r],
                                            flushed := Suc (length (wal (node b)))\<rparr>\<rparr>))"
  shows "good {L, L'} Y (bindS (logged r b) f)"
proof (cases r b rule: logged_cases)
  case (ok fs)
  then show ?thesis using cont by simp
next
  case (panic fs e w)
  have "crash_ok {L, L'} ((node b)\<lparr>wal := w\<rparr>)"
    using panic(2) rest L' crash_ok_append [of "node b" "(node b)\<lparr>wal := wal (node b) @ [r]\<rparr>" r, OF _ _ _ d]
      crash_ok_mono [OF at_rest_crash_ok [OF rest], of "{L, L'}"] by (auto simp: at_rest_def)
  then show ?thesis using at_rest_role [OF rest] by (simp add: panic(1) good_def)
qed


section \<open>Finishing a prepared transaction\<close>

lemma views_inj_xid:
  assumes "seg_ok n" "v \<in> views n" "v' \<in> views n" "fst v = fst v'"
  shows "v = v'"
  using assms distinct_prepared_in [of "wal n"] by (auto simp: seg_ok_def distinct_map dest: inj_onD)

definition finished :: "bool \<Rightarrow> string \<Rightarrow> string set \<times> string set \<Rightarrow> string set \<times> string set" where
  "finished isCommit g L = (fst L - {g}, if isCommit \<and> g \<in> fst L then insert g (snd L) else snd L)"

fun finish_record :: "bool \<Rightarrow> TransactionId \<Rightarrow> TransactionId list \<Rightarrow> XLogRecord \<Rightarrow> bool" where
  "finish_record isCommit x cs (XLOG_XACT_COMMIT_PREPARED x' cs' _ _) \<longleftrightarrow> isCommit \<and> x' = x \<and> cs' = cs"
| "finish_record isCommit x cs (XLOG_XACT_ABORT_PREPARED x' cs') \<longleftrightarrow> \<not> isCommit \<and> x' = x \<and> cs' = cs"
| "finish_record isCommit x cs _ \<longleftrightarrow> False"

lemma finish_record_log:
  assumes ok: "seg_ok n" and v: "(x, cs, g) \<in> views n" and r: "finish_record isCommit x cs r"
  shows "prepared_in (wal n @ [r]) = filter (\<lambda>e. fst e \<noteq> x) (prepared_in (wal n))"
    "set (prepared_in (wal n @ [r])) = {v \<in> views n. snd (snd v) \<noteq> g}"
    "seg_log (wal n @ [r]) = finished isCommit g (seg_log (wal n))"
proof -
  have m: "set (prepared_in (wal n)) = views n" using ok by (simp add: seg_ok_def)
  have same: "fst v' = x \<longleftrightarrow> snd (snd v') = g" if "v' \<in> views n" for v'
    using views_inj_gid [OF _ v that] views_inj_xid [OF ok v that] ok by (cases v') (auto simp: seg_ok_def)
  show p: "prepared_in (wal n @ [r]) = filter (\<lambda>e. fst e \<noteq> x) (prepared_in (wal n))"
    using r by (cases r) (auto simp: prepared_in_snoc)
  show s: "set (prepared_in (wal n @ [r])) = {v \<in> views n. snd (snd v) \<noteq> g}" unfolding p using same m by auto
  have c: "set (committed_in (wal n @ [r])) = (if isCommit then insert g (set (committed_in (wal n))) else set (committed_in (wal n)))"
    using r same m v by (cases r) (auto simp: committed_in_snoc image_iff intro!: bexI [of _ "(x, cs, g)"])
  show "seg_log (wal n @ [r]) = finished isCommit g (seg_log (wal n))"
    using v by (auto simp: seg_log_def s c m finished_def image_iff)
qed

lemma views_invalidated:
  "views (node (update_gxact g (\<lambda>e. e\<lparr>gx_valid := False\<rparr>) b)) = {v \<in> views (node b). snd (snd v) \<noteq> g}"
  by (force simp: views_def update_gxact_def)

lemma set_update_gxact:
  "set (prepXacts (node (update_gxact g f b))) = (\<lambda>e. if gx_gid e = g then f e else e) ` set (prepXacts (node b))"
  by (simp add: update_gxact_def)

lemma invalidated:
  "e \<in> set (prepXacts (node (update_gxact g (\<lambda>e. e\<lparr>gx_valid := False\<rparr>) b))) \<Longrightarrow> gx_gid e = g \<Longrightarrow> \<not> gx_valid e"
proof -
  assume "e \<in> set (prepXacts (node (update_gxact g (\<lambda>e. e\<lparr>gx_valid := False\<rparr>) b)))" "gx_gid e = g"
  then obtain e' where "e = (if gx_gid e' = g then e'\<lparr>gx_valid := False\<rparr> else e')"
    unfolding set_update_gxact by (elim imageE)
  with \<open>gx_gid e = g\<close> show "\<not> gx_valid e" by (cases "gx_gid e' = g") simp_all
qed

lemma node_may_fail: "node (snd (may_fail b)) = node b"
  by (simp add: may_fail_def ereport_def split: list.split Fault.split)

lemma good_finish_record:
  assumes rest: "at_rest {L} b" and v: "(x, cs, g) \<in> views (node b)" and r: "finish_record isCommit x cs r"
  shows "good {L, finished isCommit g L} {finished isCommit g L} (bindS (logged r b) (\<lambda>_ b.
           bindS (may_fail (update_gxact g (\<lambda>e. e\<lparr>gx_valid := False\<rparr>) b)) (\<lambda>_ b.
             (Inr True, (RemoveGXact g b)\<lparr>MyLockedGxact := None\<rparr>))))"
proof (rule good_logged [OF rest])
  have ok: "seg_ok (node b)" and L: "seg_log (wal (node b)) = L" using rest by (auto simp: at_rest_def)
  note log = finish_record_log [OF ok v r]
  show "seg_log (wal (node b) @ [r]) = finished isCommit g L" using log(3) L by simp
  show "distinct (map (snd \<circ> snd) (prepared_in (wal (node b) @ [r])))"
    unfolding log(1) by (rule distinct_map_filter [OF distinct_gids [OF ok]])
  fix fs
  let ?b = "b\<lparr>faults := fs, node := (node b)\<lparr>wal := wal (node b) @ [r], flushed := Suc (length (wal (node b)))\<rparr>\<rparr>"
  let ?c = "update_gxact g (\<lambda>e. e\<lparr>gx_valid := False\<rparr>) ?b"
  have vb: "views (n\<lparr>wal := w, flushed := k\<rparr>) = views n" for n w k by (simp add: views_def)
  have "map gx_gid (prepXacts (node ?c)) = map gx_gid (prepXacts (node b))" by (simp add: update_gxact_def)
  moreover have "self ?c = self b" "MyTmGxactLocal ?c = MyTmGxactLocal b" "xact_stack ?c = xact_stack b" "blocks ?c = blocks b"
    "wal (node ?c) = wal (node b) @ [r]" "flushed (node ?c) = Suc (length (wal (node b)))" by (simp_all add: update_gxact_def)
  ultimately have rest': "at_rest {finished isCommit g L} ?c"
    using rest log(2,3) L by (simp add: at_rest_def qe_def aligned_def seg_ok_def views_invalidated vb)
  show "good {L, finished isCommit g L} {finished isCommit g L}
     (bindS (may_fail ?c) (\<lambda>_ b. (Inr True, (RemoveGXact g b)\<lparr>MyLockedGxact := None\<rparr>)))"
  proof (rule good_quiet [OF rest'])
    have "\<not> gx_valid e" if "e \<in> set (prepXacts (node (snd (may_fail ?c))))" "gx_gid e = g" for e
      using that invalidated [of e g ?b] by (simp only: node_may_fail not_False_eq_True)
    then show "quiet ?c (snd (bindS (may_fail ?c) (\<lambda>_ b. (Inr True, (RemoveGXact g b)\<lparr>MyLockedGxact := None\<rparr>))))"
      by (intro quiet_rec) (auto intro!: quiets quiet_RemoveGXact)
  qed simp
qed


lemma dtxCrackOpenGid_state: "dtxCrackOpenGid gid b = (fst (dtxCrackOpenGid gid b), b)"
  by (simp add: dtxCrackOpenGid_def ereport_def split: option.split prod.split)

lemma good_RecordFinish:
  assumes rest: "at_rest {L} b" and v: "(x, cs, g) \<in> views (node b)"
  shows "good {L, finished isCommit g L} {finished isCommit g L} (bindS
           (if isCommit then RecordTransactionCommitPrepared x g cs b else RecordTransactionAbortPrepared x cs b) (\<lambda>_ b.
           bindS (may_fail (update_gxact g (\<lambda>e. e\<lparr>gx_valid := False\<rparr>) b)) (\<lambda>_ b.
             (Inr True, (RemoveGXact g b)\<lparr>MyLockedGxact := None\<rparr>))))" (is "good ?X ?Y (bindS ?r ?f)")
proof -
  have panic: "good ?X ?Y (bindS (Inl (PANIC, e), b) ?f)" for e
    using at_rest_crash_ok [OF rest] at_rest_role [OF rest] by (auto simp: good_def crash_ok_def)
  consider (c) tstamp y where "isCommit" "fst (dtxCrackOpenGid g b) = Inr (tstamp, y)"
    | (c_bad) e where "isCommit" "fst (dtxCrackOpenGid g b) = Inl e" | (a) "\<not> isCommit"
    by (cases "fst (dtxCrackOpenGid g b)") auto
  then show ?thesis
  proof cases
    case (c tstamp y)
    then have "?r = logged (XLOG_XACT_COMMIT_PREPARED x cs tstamp y) b"
      using dtxCrackOpenGid_state [of g b] by (simp add: RecordTransactionCommitPrepared_def logged_def)
    then show ?thesis using good_finish_record [OF rest v, of isCommit "XLOG_XACT_COMMIT_PREPARED x cs tstamp y"] c(1) by simp
  next
    case (c_bad e)
    then have "?r = (Inl (PANIC, BadGid), b)"
      using dtxCrackOpenGid_state [of g b] by (simp add: RecordTransactionCommitPrepared_def)
    then show ?thesis by (simp only: panic)
  next
    case a
    show ?thesis
    proof (cases "xid_committed (node b) x")
      case True
      have "errstart PANIC b = PANIC" by (simp add: errstart_def)
      with a True have "?r = (Inl (PANIC, AlreadyCommitted), b)" by (simp add: RecordTransactionAbortPrepared_def ereport_def)
      then show ?thesis by (simp only: panic)
    next
      case False
      with a have "?r = logged (XLOG_XACT_ABORT_PREPARED x cs) b" by (simp add: RecordTransactionAbortPrepared_def logged_def)
      then show ?thesis using good_finish_record [OF rest v, of isCommit "XLOG_XACT_ABORT_PREPARED x cs"] a by simp
    qed
  qed
qed

lemma quiet_LockGXact [quiets]: "quiet b0 b \<Longrightarrow> quiet b0 (snd (LockGXact gid raise b))"
  unfolding LockGXact_def by (auto intro!: quiets quiet_update_gxact split: option.split)

lemma LockGXact_found:
  assumes "fst (LockGXact g raise b) = Inr (Some e)"
  shows "(gx_xid e, gx_children e, g) \<in> views (node b)"
proof -
  have "find (\<lambda>e. gx_valid e \<and> gx_gid e = g) (prepXacts (node b)) = Some e"
    using assms by (auto simp: LockGXact_def bindS_Inr split: option.splits if_splits)
  then have "e \<in> set (prepXacts (node b))" "gx_valid e" "gx_gid e = g"
    by (auto simp: find_Some_iff)
  then show ?thesis by (force simp: views_def)
qed

lemma LockGXact_not_found:
  assumes "fst (LockGXact g raise b) = Inr None"
  shows "g \<notin> (snd \<circ> snd) ` views (node b)"
proof -
  have "find (\<lambda>e. gx_valid e \<and> gx_gid e = g) (prepXacts (node b)) = None"
    using assms by (auto simp: LockGXact_def bindS_Inr split: option.splits if_splits)
  then show ?thesis by (auto simp: views_def find_None_iff)
qed

lemma finished_absent: "g \<notin> fst L \<Longrightarrow> finished isCommit g L = L"
  by (simp add: finished_def)

lemma at_rest_log: "at_rest {L} b \<Longrightarrow> fst L = (snd \<circ> snd) ` views (node b)"
  by (force simp: at_rest_def seg_ok_def seg_log_def)

lemma good_FinishPreparedTransaction:
  assumes rest: "at_rest {L} b"
  shows "good {L, finished isCommit g L} {finished isCommit g L} (FinishPreparedTransaction g isCommit raise b)"
  unfolding FinishPreparedTransaction_def
proof (rule good_bind [OF good_quiet [OF rest]])
  show "quiet b (snd (LockGXact g raise b))" by (intro quiets) simp
  then have v: "qe b \<Longrightarrow> views (node (snd (LockGXact g raise b))) = views (node b)" by (simp add: quiet_def)
  fix found assume f: "fst (LockGXact g raise b) = Inr found" and rest': "at_rest {L} (snd (LockGXact g raise b))"
  let ?b = "snd (LockGXact g raise b)"
  show "good {L, finished isCommit g L} {finished isCommit g L} (case found of None \<Rightarrow> (Inr False, ?b)
     | Some e \<Rightarrow> bindS (may_fail ?b) (\<lambda>_ b.
         bindS (if isCommit then RecordTransactionCommitPrepared (gx_xid e) g (gx_children e) b
                else RecordTransactionAbortPrepared (gx_xid e) (gx_children e) b) (\<lambda>_ b.
         bindS (may_fail (update_gxact g (\<lambda>g. g\<lparr>gx_valid := False\<rparr>) b)) (\<lambda>_ b.
         (Inr True, (RemoveGXact g b)\<lparr>MyLockedGxact := None\<rparr>)))))"
  proof (cases found)
    case None
    then have "g \<notin> fst L" using LockGXact_not_found [of g raise b] f at_rest_log [OF rest] by simp
    then show ?thesis using None rest' by (simp add: finished_absent good_rest)
  next
    case (Some e)
    have "(gx_xid e, gx_children e, g) \<in> views (node (snd (may_fail ?b)))"
      using LockGXact_found [of g raise b e] f Some v rest by (simp add: at_rest_def node_may_fail)
    moreover have "quiet ?b (snd (may_fail ?b))" by (rule quiet_may_fail) simp
    ultimately show ?thesis using Some by (auto intro!: good_bind [OF good_quiet [OF rest']] good_RecordFinish)
  qed
qed simp


section \<open>The commands that finish\<close>

lemma StartTransactionCommand_state:
  "fst (StartTransactionCommand b) = Inr u \<Longrightarrow> blockState (CurrentBlock (snd (StartTransactionCommand b))) \<in>
     {TBLOCK_STARTED, TBLOCK_INPROGRESS, TBLOCK_SUBINPROGRESS, TBLOCK_ABORT, TBLOCK_SUBABORT}"
proof -
  assume ok: "fst (StartTransactionCommand b) = Inr u"
  let ?r = "if Gp_role (self b) = GP_ROLE_DISPATCH then setupRegularDtxContext b else (Inr (), b)"
  obtain v where v: "fst ?r = Inr v" using ok unfolding StartTransactionCommand_def bindS_Inr by blast
  have "StartTransactionCommand b = (case blockState (CurrentBlock (snd ?r)) of
       TBLOCK_DEFAULT \<Rightarrow>
         bindS (StartTransaction (snd ?r)) (\<lambda>_ b.
           (Inr (), set_blockState (if dtx_context b = DTX_CONTEXT_QE_TWO_PHASE_IMPLICIT_WRITER
                                    then TBLOCK_INPROGRESS else TBLOCK_STARTED) b))
     | TBLOCK_INPROGRESS \<Rightarrow> (Inr (), snd ?r) | TBLOCK_SUBINPROGRESS \<Rightarrow> (Inr (), snd ?r)
     | TBLOCK_ABORT \<Rightarrow> (Inr (), snd ?r) | TBLOCK_SUBABORT \<Rightarrow> (Inr (), snd ?r)
     | _ \<Rightarrow> ereport ERROR UnexpectedBlockState (snd ?r))"
    unfolding StartTransactionCommand_def by (subst snd_bindS_Inr [OF v]) (rule refl)
  then show ?thesis using ok
    by (cases "blockState (CurrentBlock (snd ?r))") (auto simp: bindS_Inr snd_bindS_Inr set_blockState_def simp del: if_split)
qed

lemma blocks_FinishPreparedTransaction: "blocks (snd (FinishPreparedTransaction g isCommit raise b)) = blocks b"
proof -
  have l: "blocks (snd (LockGXact g raise b)) = blocks b" for b :: "'a Backend"
    by (simp add: LockGXact_def bindS_def update_gxact_def split: option.split sum.split)
  have c: "blocks (snd (RecordTransactionCommitPrepared x g cs b)) = blocks b" for x cs and b :: "'a Backend"
    by (subst RecordTransactionCommitPrepared_def, subst dtxCrackOpenGid_state)
      (simp add: bindS_def split: sum.split prod.split)
  have a: "blocks (snd (RecordTransactionAbortPrepared x cs b)) = blocks b" for x cs and b :: "'a Backend"
    by (simp add: RecordTransactionAbortPrepared_def bindS_def split: sum.split)
  show ?thesis
    by (simp add: FinishPreparedTransaction_def bindS_def l c a update_gxact_def RemoveGXact_def split: option.split sum.split)
qed

lemma good_rethrow:
  assumes r: "good X Y r" and h: "\<And>b. quiet b (snd (h b))"
  shows "good X Y (rethrowS r h)"
proof (cases "fst r")
  case (Inl e)
  show ?thesis
  proof (cases "fst e = ERROR")
    case True
    then have "at_rest X (snd r)" using r Inl by (cases e) (auto simp: good_def)
    moreover have "quiet (snd r) (snd (bindS (h (snd r)) (\<lambda>_ s. (Inl e :: Exit + 'a, s))))"
      by (intro quiet_bindS h quiet_pair)
    ultimately have "good X X (bindS (h (snd r)) (\<lambda>_ s. (Inl e :: Exit + 'a, s)))" by (auto intro: good_quiet)
    moreover have "fst (bindS (h (snd r)) (\<lambda>_ s. (Inl e :: Exit + 'a, s))) \<noteq> Inr y" for y by (simp add: bindS_Inr)
    ultimately show ?thesis using True Inl by (simp add: rethrowS_def good_def)
  qed (use r Inl in \<open>simp add: rethrowS_def\<close>)
qed (use r in \<open>simp add: rethrowS_def\<close>)

lemma rethrow_Inr: "fst (rethrowS r h) = Inr x \<Longrightarrow> rethrowS r h = r"
  by (auto simp: rethrowS_def bindS_Inr split: sum.splits if_splits)

lemma good_perform_finish_prepared:
  assumes rest: "at_rest {L} b"
  shows "good {L, finished isCommit g L} {finished isCommit g L} (perform_finish_prepared d isCommit g raise b)"
  (is "good ?X ?Y _")
  unfolding perform_finish_prepared_def
proof (rule good_bind [OF good_quiet [OF rest]])
  show "quiet b (snd (StartTransactionCommand b))" by (rule quiet_StartTransactionCommand) simp
  fix u assume start: "fst (StartTransactionCommand b) = Inr u" and rest1: "at_rest {L} (snd (StartTransactionCommand b))"
  let ?fin = "FinishPreparedTransaction g isCommit raise (snd (StartTransactionCommand b))"
  let ?mid = "rethrowS ?fin finishDistributedTransactionContext"
  show "good ?X ?Y (bindS ?mid (\<lambda>_ b. bindS (CommitTransactionCommand d b) (\<lambda>_ b. finishDistributedTransactionContext b)))"
  proof (rule good_bind [OF good_rethrow [OF good_FinishPreparedTransaction [OF rest1]]])
    show "quiet b (snd (finishDistributedTransactionContext b))" for b :: "'a Backend" by (rule quiet_finish) simp
    fix found assume f: "fst ?mid = Inr found" and rest2: "at_rest ?Y (snd ?mid)"
    have "blockState (CurrentBlock (snd ?mid)) \<in> {TBLOCK_STARTED, TBLOCK_INPROGRESS, TBLOCK_SUBINPROGRESS, TBLOCK_ABORT, TBLOCK_SUBABORT}"
      using StartTransactionCommand_state [OF start] by (simp add: blocks_FinishPreparedTransaction rethrow_Inr [OF f])
    then show "good ?X ?Y (bindS (CommitTransactionCommand d (snd ?mid)) (\<lambda>_ b. finishDistributedTransactionContext b))"
      by (intro good_quiet [OF rest2] quiet_bindS quiet_CommitTransactionCommand quiet_finish) auto
  qed
qed simp

end
