(* ===== verification/DtxContract.thy ===== *)
theory DtxContract
  imports DtxRecovery MainLoop
begin

text \<open>
  The interface between the distributed transaction manager of the master and the segments: what the
  master relies on when it dispatches a protocol command. \<open>prep w s g\<close> and \<open>comm w s g\<close> say that segment
  \<open>s\<close> has prepared, and has committed, the transaction with gid \<open>g\<close>; \<open>can w s\<close> that the process of the
  session on \<open>s\<close> can be told to prepare.
\<close>

section \<open>Commands\<close>

definition two_phase :: "DtxProtocolCommand \<Rightarrow> bool" where
  "two_phase cmd \<longleftrightarrow> cmd \<notin> {DTX_PROTOCOL_COMMAND_SUBTRANSACTION_BEGIN_INTERNAL, DTX_PROTOCOL_COMMAND_SUBTRANSACTION_ROLLBACK_INTERNAL,
     DTX_PROTOCOL_COMMAND_SUBTRANSACTION_RELEASE_INTERNAL}"


definition commits :: "DtxProtocolCommand \<Rightarrow> bool" where
  "commits cmd \<longleftrightarrow> cmd \<in> {DTX_PROTOCOL_COMMAND_COMMIT_PREPARED, DTX_PROTOCOL_COMMAND_RETRY_COMMIT_PREPARED,
     DTX_PROTOCOL_COMMAND_RECOVERY_COMMIT_PREPARED}"

definition all_good :: "DtxProtocolCommand \<Rightarrow> Dispatched \<Rightarrow> bool" where
  "all_good cmd r \<longleftrightarrow> (\<exists>rs. r = Results rs \<and> filter (result_failed (DtxProtocolCommandToString cmd)) rs = [])"

section \<open>The contract\<close>

locale participants =
  fixes d :: "'w Dispatcher" and ok :: "'w \<Rightarrow> bool" and can :: "'w \<Rightarrow> int \<Rightarrow> bool"
    and prep :: "'w \<Rightarrow> int \<Rightarrow> string \<Rightarrow> bool" and comm :: "'w \<Rightarrow> int \<Rightarrow> string \<Rightarrow> bool"
  assumes send_ok: "\<lbrakk>ok w; two_phase cmd; cmd = DTX_PROTOCOL_COMMAND_PREPARE \<Longrightarrow> distinct ss \<and> (\<forall>s \<in> set ss. can w s);
        dtx_send d cmd h info ss w = (r, w')\<rbrakk> \<Longrightarrow> ok w' \<and> component_list d w' = component_list d w"
    and send_other: "\<lbrakk>ok w; two_phase cmd; cmd = DTX_PROTOCOL_COMMAND_PREPARE \<Longrightarrow> distinct ss \<and> (\<forall>s \<in> set ss. can w s);
        dtx_send d cmd h info ss w = (r, w'); g \<noteq> h \<or> s \<notin> set ss\<rbrakk> \<Longrightarrow> prep w' s g = prep w s g \<and> comm w' s g = comm w s g"
    and send_comm: "\<lbrakk>ok w; two_phase cmd; cmd = DTX_PROTOCOL_COMMAND_PREPARE \<Longrightarrow> distinct ss \<and> (\<forall>s \<in> set ss. can w s);
        dtx_send d cmd h info ss w = (r, w')\<rbrakk> \<Longrightarrow>
        (comm w s h \<longrightarrow> comm w' s h) \<and> (comm w' s h \<longrightarrow> comm w s h \<or> commits cmd \<and> prep w s h \<and> \<not> prep w' s h)"
    and send_prep: "\<lbrakk>ok w; two_phase cmd; cmd = DTX_PROTOCOL_COMMAND_PREPARE \<Longrightarrow> distinct ss \<and> (\<forall>s \<in> set ss. can w s);
        dtx_send d cmd h info ss w = (r, w')\<rbrakk> \<Longrightarrow> prep w' s h \<longrightarrow> prep w s h \<or> cmd = DTX_PROTOCOL_COMMAND_PREPARE"
    and send_commit: "\<lbrakk>ok w; commits cmd; dtx_send d cmd h info ss w = (r, w'); prep w s h\<rbrakk> \<Longrightarrow> prep w' s h \<or> comm w' s h"
    and prepared: "\<lbrakk>ok w; distinct ss; \<forall>s \<in> set ss. can w s; dtx_send d DTX_PROTOCOL_COMMAND_PREPARE h info ss w = (r, w');
        all_good DTX_PROTOCOL_COMMAND_PREPARE r; s \<in> set ss\<rbrakk> \<Longrightarrow> prep w' s h"
    and committed: "\<lbrakk>ok w; commits cmd; dtx_send d cmd h info ss w = (r, w'); all_good cmd r; s \<in> set ss\<rbrakk> \<Longrightarrow> \<not> prep w' s h"
    and query: "\<lbrakk>ok w; query_prepared d w = (answer, w')\<rbrakk> \<Longrightarrow> ok w' \<and> component_list d w' = component_list d w \<and>
        prep w' s g = prep w s g \<and> comm w' s g = comm w s g"
    and query_rows: "\<lbrakk>ok w; query_prepared d w = (Some rows, w')\<rbrakk> \<Longrightarrow>
        g \<in> set (concat rows) \<longleftrightarrow> (\<exists>s \<in> set (component_list d w). prep w s g)"
    and destroy: "ok w \<Longrightarrow> ok (destroy_gangs d w) \<and> component_list d (destroy_gangs d w) = component_list d w \<and>
        prep (destroy_gangs d w) s g = prep w s g \<and> comm (destroy_gangs d w) s g = comm w s g"

section \<open>Dispatching a command\<close>

text \<open>What a dispatch changes of the process that dispatches.\<close>

definition same_session :: "'w Backend \<Rightarrow> 'w Backend \<Rightarrow> bool" where
  "same_session b b' \<longleftrightarrow> node b' = node b \<and> self b' = self b \<and> MyTmGxact b' = MyTmGxact b \<and> dtx_context b' = dtx_context b \<and>
     dtx_state (MyTmGxactLocal b') = dtx_state (MyTmGxactLocal b) \<and>
     set (dtxSegments (MyTmGxactLocal b)) \<subseteq> set (dtxSegments (MyTmGxactLocal b'))"

lemma same_session_refl [simp]: "same_session b b"
  by (simp add: same_session_def)

lemma add_gang_segments_frame:
  "dtx_state (add_gang_segments segs l) = dtx_state l \<and> set (dtxSegments l) \<subseteq> set (dtxSegments (add_gang_segments segs l))"
proof (induction segs arbitrary: l)
  case (Cons seg segs)
  let ?l = "l\<lparr>dtxSegmentsMap := insert seg (dtxSegmentsMap l), dtxSegments := lappend_int (dtxSegments l) seg\<rparr>"
  have "set (dtxSegments l) \<subseteq> set (dtxSegments ?l)" by (auto simp: lappend_int_def)
  then show ?case using Cons.IH [of l] Cons.IH [of ?l] by auto
qed simp

lemma same_session_add: "same_session b (addToGxactDtxSegments d segs b)"
  using add_gang_segments_frame [of segs "MyTmGxactLocal b"] by (auto simp: same_session_def addToGxactDtxSegments_def)

lemma world_add [simp]: "world (addToGxactDtxSegments d segs b) = world b"
  by (simp add: addToGxactDtxSegments_def)

lemma doDispatch_cases:
  assumes "doDispatchDtxProtocolCommand d cmd h track raiseError segs info b = (r, b')"
  shows "same_session b b' \<and>
     (world b' = world b \<and> (r = Inr True \<longrightarrow> segs = []) \<or>
      (\<exists>rep. dtx_send d cmd h info segs (world b) = (rep, world b') \<and> (r = Inr True \<longrightarrow> all_good cmd rep)))"
proof (cases "segs = [] \<or> length h \<ge> TMGIDSIZE")
  case True
  then show ?thesis using assms
    by (auto simp: doDispatchDtxProtocolCommand_def CdbDispatchDtxProtocolCommand_def ereport_def split: if_splits)
next
  case False
  obtain rep w where s: "dtx_send d cmd h info segs (world b) = (rep, w)" by fastforce
  let ?b = "b\<lparr>world := w\<rparr>" and ?a = "addToGxactDtxSegments d segs (b\<lparr>world := w\<rparr>)"
  have b: "same_session b ?b" "same_session b ?a" "world ?a = w"
    using same_session_add [of ?b d segs] by (auto simp: same_session_def)
  have bad: "same_session b (?a\<lparr>MyTmGxactLocal := (MyTmGxactLocal ?a)\<lparr>badPrepareGangs := True\<rparr>\<rparr>)"
    using b(2) by (simp add: same_session_def)
  show ?thesis using assms False s b bad
    by (cases rep) (auto simp: doDispatchDtxProtocolCommand_def CdbDispatchDtxProtocolCommand_def Let_def ereport_def all_good_def
        filter_empty_conv split: if_splits)
qed

end
