(* ===== verification/SegmentPrepare.thy ===== *)
theory SegmentPrepare
  imports SegmentLog DtxContract
begin

text \<open>
  The first phase on a segment: what a prepare command leaves in the log of a segment, and with the
  commands of the second phase, what every command of the protocol may do to it.
\<close>

section \<open>Reaching the top transaction\<close>

text \<open>The ids the top transaction may get when it is prepared.\<close>

definition own_xids :: "'w Backend \<Rightarrow> TransactionId set" where
  "own_xids b = insert (nextXid (node b)) {x. x = transactionId (TopNode b) \<and> TransactionIdIsValid x}"

definition same_xact :: "'w Backend \<Rightarrow> 'w Backend \<Rightarrow> bool" where
  "same_xact b b' \<longleftrightarrow> prepareGID b' = prepareGID b \<and> own_xids b' = own_xids b"

lemma same_xact_refl [simp]: "same_xact b b"
  by (simp add: same_xact_def)

lemma same_xact_trans: "same_xact b b' \<Longrightarrow> same_xact b' b'' \<Longrightarrow> same_xact b b''"
  by (simp add: same_xact_def)

lemma same_xact_frame:
  "prepareGID b' = prepareGID b \<Longrightarrow> transactionId (TopNode b') = transactionId (TopNode b) \<Longrightarrow>
   nextXid (node b') = nextXid (node b) \<Longrightarrow> same_xact b b'"
  by (simp add: same_xact_def own_xids_def)

lemma may_fail_frame:
  "prepareGID (snd (may_fail b)) = prepareGID b" "xact_stack (snd (may_fail b)) = xact_stack b"
  "MyBackendId (snd (may_fail b)) = MyBackendId b"
  by (simp_all add: may_fail_def ereport_def split: list.split Fault.split)

lemma hd_last_update: "transactionId (hd (butlast ns @ [(last ns)\<lparr>state := st\<rparr>])) = transactionId (hd ns)"
  if "ns \<noteq> []" for ns :: "TransactionStateData list"
  using that by (cases ns rule: rev_cases) (auto simp: hd_append)

lemma aligned_nodes: "aligned b \<Longrightarrow> nodes (xact_stack b) \<noteq> []"
  by (auto simp: aligned_def)

lemma TopNode_set_state: "aligned b \<Longrightarrow> transactionId (TopNode (set_state st b)) = transactionId (TopNode b)"
  using hd_last_update [OF aligned_nodes] by (simp add: set_state_def)

lemma hd_AtSubCommit:
  "AtSubCommit_childXids st = Inr st' \<Longrightarrow> nodes st \<noteq> [] \<Longrightarrow>
   transactionId (hd (nodes st')) = transactionId (hd (nodes st)) \<and> length (nodes st') = length (nodes st)"
  by (cases "nodes st") (auto simp: AtSubCommit_childXids_def Let_def nth_Cons' split: if_splits nat.splits)

lemma CommitSubTransaction_frame:
  assumes "fst (CommitSubTransaction b) = Inr u" "aligned b"
  shows "blocks (snd (CommitSubTransaction b)) = tl (blocks b) \<and> tl (blocks b) \<noteq> [] \<and> same_xact b (snd (CommitSubTransaction b))"
proof -
  let ?b1 = "snd (may_fail b)" let ?b2 = "snd (may_fail (set_state TRANS_COMMIT ?b1))"
  have a1: "aligned ?b1" using assms(2) by (simp add: aligned_def may_fail_frame)
  then have a2: "aligned ?b2" by (simp add: aligned_def may_fail_frame set_state_def)
  have t: "transactionId (TopNode ?b2) = transactionId (TopNode b)"
    using TopNode_set_state [OF a1] by (simp add: may_fail_frame)
  have f: "prepareGID ?b2 = prepareGID b" "nextXid (node ?b2) = nextXid (node b)" "blocks ?b2 = blocks b"
    by (simp_all add: may_fail_frame node_may_fail set_state_def)
  let ?r = "if TransactionIdIsValid (transactionId (CurrentNode ?b2))
            then case AtSubCommit_childXids (xact_stack ?b2) of
                   Inl _ \<Rightarrow> ereport ERROR TooManySubtransactions ?b2
                 | Inr st \<Rightarrow> (Inr (), ?b2\<lparr>xact_stack := st\<rparr>)
            else (Inr (), ?b2)"
  obtain v where v: "fst ?r = Inr v" "fst (PopTransactionBlock (set_state TRANS_DEFAULT (snd ?r))) = Inr u"
    and s: "snd (CommitSubTransaction b) = snd (PopTransactionBlock (set_state TRANS_DEFAULT (snd ?r)))"
    using assms(1) unfolding CommitSubTransaction_def by (auto simp only: bindS_Inr snd_bindS_Inr)
  let ?b3 = "snd ?r"
  have a3: "aligned ?b3 \<and> transactionId (TopNode ?b3) = transactionId (TopNode ?b2) \<and> prepareGID ?b3 = prepareGID ?b2 \<and>
      node ?b3 = node ?b2 \<and> blocks ?b3 = blocks ?b2"
    using v(1) a2 hd_AtSubCommit [OF _ aligned_nodes [OF a2]]
    by (auto simp: aligned_def split: sum.splits if_splits)
  let ?b4 = "set_state TRANS_DEFAULT ?b3"
  have a4: "transactionId (TopNode ?b4) = transactionId (TopNode b)" "blocks ?b4 = blocks b" "prepareGID ?b4 = prepareGID b"
     "nextXid (node ?b4) = nextXid (node b)"
    using a3 TopNode_set_state [of ?b3] t f by (auto simp: set_state_def)
  have "blocks (snd (PopTransactionBlock ?b4)) = tl (blocks ?b4) \<and> tl (blocks ?b4) \<noteq> [] \<and>
     transactionId (TopNode (snd (PopTransactionBlock ?b4))) = transactionId (TopNode ?b4) \<and>
     prepareGID (snd (PopTransactionBlock ?b4)) = prepareGID ?b4 \<and> node (snd (PopTransactionBlock ?b4)) = node ?b4"
    using v(2) by (cases "nodes (xact_stack ?b4)" rule: rev_cases)
      (auto simp: PopTransactionBlock_def PopTransaction_def Let_def hd_append split: sum.splits if_splits)
  then show ?thesis using a4 by (auto simp: s intro!: same_xact_frame)
qed


lemma commit_subs_ending:
  assumes "fst (commit_subs TBLOCK_SUBCOMMIT b) = Inr u" "ending t (blocks b)" "qe b"
  shows "(\<exists>s. blocks (snd (commit_subs TBLOCK_SUBCOMMIT b)) = [s] \<and> blockState s = t) \<and>
         same_xact b (snd (commit_subs TBLOCK_SUBCOMMIT b))"
  using assms
proof (induction "TBLOCK_SUBCOMMIT" b rule: commit_subs.induct)
  case (1 b)
  let ?b = "snd (CommitSubTransaction b)"
  obtain x where x: "fst (CommitSubTransaction b) = Inr x"
    using "1.prems"(1) by (subst (asm) commit_subs.simps) (auto simp: bindS_Inr)
  have unfold: "commit_subs TBLOCK_SUBCOMMIT b =
      (if blockState (CurrentBlock ?b) = TBLOCK_SUBCOMMIT then commit_subs TBLOCK_SUBCOMMIT ?b else (Inr (), ?b))"
    by (subst commit_subs.simps) (rule snd_bindS_Inr [OF x])
  have qe: "qe ?b" using qf.CommitSubTransaction [of b b] "1.prems"(3) by (simp add: quiet_def)
  have frame: "blocks ?b = tl (blocks b)" "tl (blocks b) \<noteq> []" "same_xact b ?b"
    using CommitSubTransaction_frame [OF x] "1.prems"(3) by (auto simp: qe_def)
  then have e: "ending t (blocks ?b)" using "1.prems"(2) by (cases "blocks b") (auto simp: ending_def)
  show ?case
  proof (cases "blockState (CurrentBlock ?b) = TBLOCK_SUBCOMMIT")
    case True
    then show ?thesis using "1.hyps" [OF x True] "1.prems"(1) e qe frame(3) same_xact_trans by (auto simp: unfold)
  next
    case False
    then have "butlast (blocks ?b) = []" using e by (cases "blocks ?b") (auto simp: ending_def split: if_splits)
    then obtain s where "blocks ?b = [s]" using e by (cases "blocks ?b" rule: rev_cases) (auto simp: ending_def)
    then show ?thesis using e frame(3) False by (auto simp: unfold ending_def)
  qed
qed

section \<open>Preparing the top transaction\<close>

lemma GetCurrentTransactionId_own:
  assumes "fst (GetCurrentTransactionId b) = Inr xid" "length (nodes (xact_stack b)) = 1"
  shows "xid \<in> own_xids b"
proof -
  obtain nd where n: "nodes (xact_stack b) = [nd]" using assms(2) by (auto simp: length_Suc_conv)
  show ?thesis
  proof (cases "TransactionIdIsValid (transactionId nd)")
    case True
    then show ?thesis using assms(1) by (simp add: GetCurrentTransactionId_def n own_xids_def)
  next
    case False
    then have "fst (bindS (AssignTransactionId b) (\<lambda>_ b. (Inr (transactionId (CurrentNode b)), b))) = Inr xid"
      using assms(1) by (simp add: GetCurrentTransactionId_def n)
    then show ?thesis
      by (auto simp: AssignTransactionId_def n bindS_Inr snd_bindS_Inr GetNewTransactionId_def Let_def set_xid_def
          may_fail_frame node_may_fail own_xids_def split: if_splits)
  qed
qed


lemma quiet_MarkAsPreparing [quiets]: "quiet b0 b \<Longrightarrow> quiet b0 (snd (MarkAsPreparing xid gid b))"
proof (rule quiet_trans)
  have "views (n\<lparr>prepXacts := prepXacts n @ [\<lparr>gx_gid = gid, gx_xid = xid, gx_children = [], gx_valid = False, locking_backend = l\<rparr>]\<rparr>) = views n" for n l
    by (auto simp: views_def)
  then show "quiet b (snd (MarkAsPreparing xid gid b))"
    by (auto simp: MarkAsPreparing_def quiet_def qe_def aligned_def extends_def list_ex_iff)
qed

lemma quiet_update_invalid:
  assumes "\<And>e. e \<in> set (prepXacts (node b)) \<Longrightarrow> gx_gid e = gid \<Longrightarrow> \<not> gx_valid e" "\<And>e. gx_gid (f e) = gx_gid e \<and> gx_valid (f e) = gx_valid e"
  shows "quiet b0 b \<Longrightarrow> quiet b0 (update_gxact gid f b)"
proof (rule quiet_trans)
  have "filter gx_valid (map (\<lambda>e. if gx_gid e = gid then f e else e) es) = filter gx_valid es"
    if "\<And>e. e \<in> set es \<Longrightarrow> gx_gid e = gid \<Longrightarrow> \<not> gx_valid e" for es
    using that assms(2) by (induction es) auto
  then have "views (node (update_gxact gid f b)) = views (node b)"
    using assms(1) by (simp add: views_alt update_gxact_def)
  moreover have "map gx_gid (prepXacts (node (update_gxact gid f b))) = map gx_gid (prepXacts (node b))"
    using assms(2) by (simp add: update_gxact_def)
  ultimately show "quiet b (update_gxact gid f b)"
    by (simp add: quiet_def qe_def aligned_def extends_def) (simp add: update_gxact_def)
qed

lemma quiet_PostPrepare_Twophase [quiets]: "quiet b0 b \<Longrightarrow> quiet b0 (PostPrepare_Twophase b)"
  unfolding PostPrepare_Twophase_def by (auto intro!: quiets quiet_update_gxact split: option.split)

definition prepares :: "string \<Rightarrow> string set \<times> string set \<Rightarrow> string set \<times> string set" where
  "prepares g L = (insert g (fst L), snd L)"

text \<open>The array just before the record of a prepared transaction is written.\<close>

definition preparing :: "TransactionId \<Rightarrow> string \<Rightarrow> 'w Backend \<Rightarrow> bool" where
  "preparing xid g b \<longleftrightarrow> (\<exists>ps l. prepXacts (node b) = ps @ [\<lparr>gx_gid = g, gx_xid = xid, gx_children = childXids (CurrentNode b),
                                                         gx_valid = False, locking_backend = l\<rparr>])"

lemma prepare_record_log:
  assumes ok: "seg_ok n" and x: "xid \<notin> fst ` views n"
  shows "set (prepared_in (wal n @ [XLOG_XACT_PREPARE xid cs g])) = insert (xid, cs, g) (views n)"
    "seg_log (wal n @ [XLOG_XACT_PREPARE xid cs g]) = prepares g (seg_log (wal n))"
    "g \<notin> (snd \<circ> snd) ` views n \<Longrightarrow> distinct (map (snd \<circ> snd) (prepared_in (wal n @ [XLOG_XACT_PREPARE xid cs g])))"
proof -
  have "set (prepared_in (wal n)) = views n" using ok by (simp add: seg_ok_def)
  then show s: "set (prepared_in (wal n @ [XLOG_XACT_PREPARE xid cs g])) = insert (xid, cs, g) (views n)"
    using x by (auto simp: prepared_in_snoc)
  show "seg_log (wal n @ [XLOG_XACT_PREPARE xid cs g]) = prepares g (seg_log (wal n))"
    using ok by (auto simp: seg_log_def s prepares_def committed_in_snoc seg_ok_def)
  show "distinct (map (snd \<circ> snd) (prepared_in (wal n @ [XLOG_XACT_PREPARE xid cs g])))" if "g \<notin> (snd \<circ> snd) ` views n"
  proof -
    have m: "set (prepared_in (wal n)) = views n" using ok by (simp add: seg_ok_def)
    have "g \<notin> (snd \<circ> snd) ` set (filter (\<lambda>e. fst e \<noteq> xid) (prepared_in (wal n)))" using that unfolding m [symmetric] by auto
    then show ?thesis using distinct_map_filter [OF distinct_gids [OF ok]] by (simp add: prepared_in_snoc)
  qed
qed

lemma views_prepared:
  assumes "preparing xid g b" "distinct (map gx_gid (prepXacts (node b)))"
  shows "views (node (update_gxact g (\<lambda>e. e\<lparr>gx_valid := True\<rparr>) b)) = insert (xid, childXids (CurrentNode b), g) (views (node b))"
proof -
  obtain ps l where ps: "prepXacts (node b) = ps @ [\<lparr>gx_gid = g, gx_xid = xid, gx_children = childXids (CurrentNode b),
                                                         gx_valid = False, locking_backend = l\<rparr>]"
    using assms(1) by (auto simp: preparing_def)
  have "map (\<lambda>e. if gx_gid e = g then e\<lparr>gx_valid := True\<rparr> else e) ps = ps"
    using assms(2) ps by (intro map_idI) auto
  then show ?thesis by (simp add: views_alt update_gxact_def ps)
qed

lemma good_EndPrepare:
  assumes rest: "at_rest {L} b" and p: "preparing xid g b" and x: "xid \<notin> fst ` views (node b)"
    and q: "\<And>b. quiet b (snd (f () b))"
  shows "good {L, prepares g L} {prepares g L} (bindS (EndPrepare xid g b) f)"
proof -
  let ?r = "XLOG_XACT_PREPARE xid (childXids (CurrentNode b)) g" and ?valid = "\<lambda>b. update_gxact g (\<lambda>e. e\<lparr>gx_valid := True\<rparr>) b"
  have ok: "seg_ok (node b)" and L: "seg_log (wal (node b)) = L" using rest by (auto simp: at_rest_def)
  note log = prepare_record_log [OF ok x]
  have "bindS (EndPrepare xid g b) f = bindS (logged ?r b) (\<lambda>_ b. f () (?valid b))"
    by (auto simp: EndPrepare_def logged_def bindS_def split: sum.split)
  also have "good {L, prepares g L} {prepares g L} \<dots>"
  proof (rule good_logged [OF rest])
    show "seg_log (wal (node b) @ [?r]) = prepares g L" using log L by simp
    have "g \<notin> (snd \<circ> snd) ` views (node b)"
    proof -
      obtain ps e where ps: "prepXacts (node b) = ps @ [e]" "gx_gid e = g" "\<not> gx_valid e" using p by (force simp: preparing_def)
      moreover have "g \<notin> gx_gid ` set ps" using ok ps by (auto simp: seg_ok_def)
      ultimately show ?thesis by (auto simp: views_def)
    qed
    then show "distinct (map (snd \<circ> snd) (prepared_in (wal (node b) @ [?r])))" by (rule log(3))
    fix fs
    let ?b = "b\<lparr>faults := fs, node := (node b)\<lparr>wal := wal (node b) @ [?r], flushed := Suc (length (wal (node b)))\<rparr>\<rparr>"
    have pb: "preparing xid g ?b" using p by (simp add: preparing_def)
    have d: "distinct (map gx_gid (prepXacts (node ?b)))" using ok by (simp add: seg_ok_def)
    have vb: "views (n\<lparr>wal := w, flushed := k\<rparr>) = views n" for n w k by (simp add: views_def)
    have "map gx_gid (prepXacts (node (?valid ?b))) = map gx_gid (prepXacts (node b))" by (simp add: update_gxact_def)
    moreover have "self (?valid ?b) = self b" "MyTmGxactLocal (?valid ?b) = MyTmGxactLocal b"
      "xact_stack (?valid ?b) = xact_stack b" "blocks (?valid ?b) = blocks b"
      "wal (node (?valid ?b)) = wal (node b) @ [?r]" "flushed (node (?valid ?b)) = Suc (length (wal (node b)))"
      by (simp_all add: update_gxact_def)
    ultimately have rest': "at_rest {prepares g L} (?valid ?b)"
      using rest log L views_prepared [OF pb d] by (simp add: at_rest_def qe_def aligned_def seg_ok_def vb)
    show "good {L, prepares g L} {prepares g L} (f () (?valid ?b))"
      by (rule good_quiet [OF rest' _ q]) simp
  qed
  finally show ?thesis .
qed


lemma prepareGID_GetCurrentTransactionId: "prepareGID (snd (GetCurrentTransactionId b)) = prepareGID b"
proof -
  have n: "prepareGID (snd (GetNewTransactionId b)) = prepareGID b" for b :: "'a Backend"
    by (simp add: GetNewTransactionId_def bindS_def Let_def may_fail_frame split: sum.split)
  have "prepareGID (snd (assign_ids ps b)) = prepareGID b" for ps and b :: "'a Backend"
    by (induction ps b rule: assign_ids.induct) (auto simp: bindS_def n set_xid_def split: sum.split)
  then show ?thesis by (simp add: GetCurrentTransactionId_def AssignTransactionId_def bindS_def split: sum.split)
qed

lemma at_rest_views: "at_rest {L} b \<Longrightarrow> quiet b b' \<Longrightarrow> views (node b') = views (node b)"
  by (auto simp: at_rest_def quiet_def)

lemma MarkAsPreparing_ok:
  assumes "fst (MarkAsPreparing xid g b) = Inr u"
  shows "snd (MarkAsPreparing xid g b) = b\<lparr>node := (node b)\<lparr>prepXacts := prepXacts (node b) @
           [\<lparr>gx_gid = g, gx_xid = xid, gx_children = [], gx_valid = False, locking_backend = MyBackendId b\<rparr>]\<rparr>, MyLockedGxact := Some g\<rparr>"
    "g \<notin> gx_gid ` set (prepXacts (node b))"
proof -
  have 1: "\<not> length g \<ge> GIDSIZE" by (rule notI) (use assms in \<open>simp add: MarkAsPreparing_def\<close>)
  have 2: "max_prepared_xacts (node b) \<noteq> 0" by (rule notI) (use assms 1 in \<open>simp add: MarkAsPreparing_def\<close>)
  have 3: "\<not> list_ex (\<lambda>e. gx_gid e = g) (prepXacts (node b))"
    by (rule notI) (use assms 1 2 in \<open>simp add: MarkAsPreparing_def\<close>)
  have 4: "\<not> length (prepXacts (node b)) \<ge> max_prepared_xacts (node b)"
    by (rule notI) (use assms 1 2 3 in \<open>simp add: MarkAsPreparing_def\<close>)
  show "snd (MarkAsPreparing xid g b) = b\<lparr>node := (node b)\<lparr>prepXacts := prepXacts (node b) @
           [\<lparr>gx_gid = g, gx_xid = xid, gx_children = [], gx_valid = False, locking_backend = MyBackendId b\<rparr>]\<rparr>, MyLockedGxact := Some g\<rparr>"
    using 1 2 3 4 by (simp add: MarkAsPreparing_def)
  show "g \<notin> gx_gid ` set (prepXacts (node b))" using 3 by (auto simp: list_ex_iff)
qed

text \<open>What \<open>PrepareTransaction\<close> does with the gid, from reserving it to the end.\<close>

lemma good_reserve:
  assumes rest: "at_rest {L} b" and x: "xid \<notin> fst ` views (node b)" and q: "\<And>b. quiet b (snd (f () b))"
  shows "good {L, prepares g L} {prepares g L} (bindS (MarkAsPreparing xid g b) (\<lambda>_ b.
          bindS (may_fail (update_gxact g (\<lambda>e. e\<lparr>gx_children := childXids (CurrentNode b)\<rparr>) (b\<lparr>prepareGID := None\<rparr>))) (\<lambda>_ b.
          bindS (EndPrepare xid g b) f)))"
proof (rule good_bind [OF good_quiet [OF rest]])
  show qm: "quiet b (snd (MarkAsPreparing xid g b))" by (rule quiet_MarkAsPreparing) simp
  fix u assume m: "fst (MarkAsPreparing xid g b) = Inr u" and rest1: "at_rest {L} (snd (MarkAsPreparing xid g b))"
  note mark = MarkAsPreparing_ok [OF m]
  let ?b1 = "snd (MarkAsPreparing xid g b)"
  let ?b2 = "update_gxact g (\<lambda>e. e\<lparr>gx_children := childXids (CurrentNode ?b1)\<rparr>) (?b1\<lparr>prepareGID := None\<rparr>)"
  have "map (\<lambda>e. if gx_gid e = g then e\<lparr>gx_children := cs\<rparr> else e) (prepXacts (node b)) = prepXacts (node b)" for cs
    using mark(2) by (intro map_idI) auto
  then have p: "preparing xid g ?b2" unfolding mark(1) by (simp add: preparing_def update_gxact_def)
  have inv: "\<not> gx_valid e" if "e \<in> set (prepXacts (node (?b1\<lparr>prepareGID := None\<rparr>)))" "gx_gid e = g" for e
  proof -
    have "e \<in> set (prepXacts (node b)) \<or>
      e = \<lparr>gx_gid = g, gx_xid = xid, gx_children = [], gx_valid = False, locking_backend = MyBackendId b\<rparr>"
      using that(1) unfolding mark(1) by (simp add: disj_commute)
    then show ?thesis using that(2) mark(2) by (elim disjE) (blast, simp)
  qed
  have q2: "quiet ?b1 ?b2" by (rule quiet_update_invalid [OF inv]) (auto intro!: quiet_sets)
  then have q3: "quiet ?b1 (snd (may_fail ?b2))" by (rule quiet_may_fail)
  have p3: "preparing xid g (snd (may_fail ?b2))" using p by (simp add: preparing_def node_may_fail may_fail_frame)
  have x3: "xid \<notin> fst ` views (node (snd (may_fail ?b2)))"
    using x at_rest_views [OF rest qm] at_rest_views [OF rest1 q3] by simp
  show "good {L, prepares g L} {prepares g L} (bindS (may_fail ?b2) (\<lambda>_ b. bindS (EndPrepare xid g b) f))"
    by (rule good_bind [OF good_quiet [OF rest1 _ q3]]) (auto intro: good_EndPrepare [OF _ p3 x3] q)
qed simp

lemma good_PrepareTransaction:
  assumes rest: "at_rest {L} b" and top: "length (nodes (xact_stack b)) = 1" and gid: "prepareGID b = Some g"
    and fresh: "own_xids b \<inter> fst ` views (node b) = {}"
  shows "good {L, prepares g L} {prepares g L} (PrepareTransaction b)"
  unfolding PrepareTransaction_def
proof (rule good_bind [OF good_quiet [OF rest]])
  show q1: "quiet b (snd (GetCurrentTransactionId b))" by (rule quiet_GetCurrentTransactionId) simp
  fix xid assume x: "fst (GetCurrentTransactionId b) = Inr xid" and rest1: "at_rest {L} (snd (GetCurrentTransactionId b))"
  let ?b1 = "snd (GetCurrentTransactionId b)" let ?b2 = "snd (may_fail ?b1)"
  let ?b3 = "set_state TRANS_PREPARE ?b2"
  have q2: "quiet ?b1 ?b2" by (rule quiet_may_fail) simp
  have q3: "quiet ?b1 ?b3" by (rule quiet_set_state [OF q2])
  have rest3: "at_rest {L} ?b3" by (rule at_rest_quiet [OF rest1 q3])
  have x3: "xid \<notin> fst ` views (node ?b3)"
    using GetCurrentTransactionId_own [OF x top] fresh at_rest_views [OF rest q1] at_rest_views [OF rest1 q3] by auto
  have gid3: "prepareGID ?b3 = Some g"
    using gid by (simp add: set_state_def may_fail_frame prepareGID_GetCurrentTransactionId)
  let ?fin = "\<lambda>_ b. let b = PostPrepare_Twophase b
          in (Inr (), set_state TRANS_DEFAULT
               (b\<lparr>xact_stack := (xact_stack b)\<lparr>nodes := butlast (nodes (xact_stack b)) @ [end_node (CurrentNode b)]\<rparr>\<rparr>))"
  have "quiet b (snd (?fin () b))" for b :: "'a Backend" unfolding Let_def by (intro quiets) simp
  then have "good {L, prepares g L} {prepares g L} (bindS (MarkAsPreparing xid g ?b3) (\<lambda>_ b.
          bindS (may_fail (update_gxact g (\<lambda>e. e\<lparr>gx_children := childXids (CurrentNode b)\<rparr>) (b\<lparr>prepareGID := None\<rparr>))) (\<lambda>_ b.
          bindS (EndPrepare xid g b) ?fin)))"
    by (rule good_reserve [OF rest3 x3])
  moreover have "good {L, prepares g L} {prepares g L} (ereport ERROR AlreadyAborted ?b3 :: (Exit + unit) \<times> 'a Backend)"
    using rest3 by (auto simp: good_def ereport_def at_rest_def intro: at_rest_mono at_rest_role at_rest_crash_ok [THEN crash_ok_mono])
  ultimately show "good {L, prepares g L} {prepares g L} (bindS (may_fail ?b1) (\<lambda>_ b.
     let b = set_state TRANS_PREPARE b
     in if xid_aborted (node b) xid then ereport ERROR AlreadyAborted b
        else case prepareGID b of None \<Rightarrow> (Inl (PANIC, NodeDown), b) | Some gid \<Rightarrow>
          bindS (MarkAsPreparing xid gid b) (\<lambda>_ b.
          bindS (may_fail (update_gxact gid (\<lambda>g. g\<lparr>gx_children := childXids (CurrentNode b)\<rparr>)
                            (b\<lparr>prepareGID := None\<rparr>))) (\<lambda>_ b.
          bindS (EndPrepare xid gid b) ?fin))))"
    using gid3 by (intro good_bind [OF good_quiet [OF rest1 _ q2]]) (auto simp: Let_def)
qed simp


section \<open>The prepare command\<close>

definition nested :: "XactBlock list \<Rightarrow> bool" where
  "nested bs \<longleftrightarrow> (\<forall>s \<in> set (butlast bs). blockState s \<in> {TBLOCK_SUBBEGIN, TBLOCK_SUBINPROGRESS, TBLOCK_SUBRELEASE,
     TBLOCK_SUBCOMMIT, TBLOCK_SUBABORT, TBLOCK_SUBABORT_END, TBLOCK_SUBABORT_PENDING, TBLOCK_SUBRESTART, TBLOCK_SUBABORT_RESTART})"

definition can_prepare :: "'w Backend \<Rightarrow> bool" where
  "can_prepare b \<longleftrightarrow> nested (blocks b) \<and> own_xids b \<inter> fst ` views (node b) = {}"

lemma nested_top:
  "nested bs \<Longrightarrow> bs \<noteq> [] \<Longrightarrow> blockState (hd bs) \<in> {TBLOCK_DEFAULT, TBLOCK_STARTED, TBLOCK_INPROGRESS, TBLOCK_END, TBLOCK_PREPARE} \<Longrightarrow>
   \<exists>s. bs = [s]"
  by (cases bs) (auto simp: nested_def split: if_splits)

lemma bindS_keeps: "P (snd r) \<Longrightarrow> (\<And>x b. P b \<Longrightarrow> P (snd (f x b))) \<Longrightarrow> P (snd (bindS r f))"
  by (cases "fst r") (auto simp: bindS_def)

lemma StartTransaction_frame:
  "node (snd (StartTransaction b)) = node b" "length (blocks (snd (StartTransaction b))) = 1"
  "fst (StartTransaction b) = Inr u \<Longrightarrow> transactionId (TopNode (snd (StartTransaction b))) = InvalidTransactionId"
proof -
  let ?P = "\<lambda>b'. node b' = node b \<and> length (blocks b') = 1 \<and> (\<exists>nd. nodes (xact_stack b') = [nd] \<and> transactionId nd = InvalidTransactionId)"
  have d: "?P b' \<Longrightarrow> ?P (snd (start_dtx_context b'))" for b'
    by (auto simp: start_dtx_context_def adopt_qd_options_def adopt_qd_gxid_def mppTxOptions_IsoLevel_def ereport_def Let_def)
  have m: "?P b' \<Longrightarrow> ?P (snd (may_fail b'))" for b' by (simp add: node_may_fail may_fail_frame)
  have s: "?P b' \<Longrightarrow> ?P (set_state st b')" for b' st by (auto simp: set_state_def)
  have "?P (snd (StartTransaction b))" unfolding StartTransaction_def Let_def
    by (intro bindS_keeps [where P = ?P] d m s) (auto simp: start_node_def)
  then show "node (snd (StartTransaction b)) = node b" "length (blocks (snd (StartTransaction b))) = 1"
    "fst (StartTransaction b) = Inr u \<Longrightarrow> transactionId (TopNode (snd (StartTransaction b))) = InvalidTransactionId" by auto
qed

lemma can_prepare_start:
  assumes "can_prepare b" "Gp_role (self b) = GP_ROLE_EXECUTE" "fst (StartTransactionCommand b) = Inr u"
  shows "can_prepare (snd (StartTransactionCommand b))"
proof (cases "blockState (CurrentBlock b) = TBLOCK_DEFAULT")
  case True
  let ?b = "snd (StartTransaction b)"
  obtain x where x: "fst (StartTransaction b) = Inr x"
    using assms(2,3) True by (auto simp: StartTransactionCommand_def bindS_Inr)
  have "snd (StartTransactionCommand b) = set_blockState (if dtx_context ?b = DTX_CONTEXT_QE_TWO_PHASE_IMPLICIT_WRITER
                                    then TBLOCK_INPROGRESS else TBLOCK_STARTED) ?b"
    using assms(2) True by (simp add: StartTransactionCommand_def snd_bindS_Inr [OF x])
  moreover have "can_prepare (set_blockState t ?b)" for t
    using StartTransaction_frame [of b] x assms(1)
    by (auto simp: can_prepare_def nested_def set_blockState_def own_xids_def TransactionIdIsValid_def length_Suc_conv)
  ultimately show ?thesis by simp
next
  case False
  then have "snd (StartTransactionCommand b) = b"
    using assms(2) by (auto simp: StartTransactionCommand_def split: TBlockState.split)
  then show ?thesis using assms(1) by simp
qed

lemma mark_blocks_ending: "mark_blocks sub_commit top_commit bs = Some bs' \<Longrightarrow> ending TBLOCK_END bs' \<and> length bs' = length bs"
proof (induction sub_commit top_commit bs arbitrary: bs' rule: mark_blocks.induct)
  case (2 s)
  then show ?case by (cases "blockState s") (auto simp: ending_def)
next
  case (3 s p ss)
  then show ?case by (cases "blockState s") (auto simp: ending_def)
qed simp


lemma quiet_marked [quiets]:
  "(\<And>bs. m = Some bs \<Longrightarrow> length bs = length (blocks b)) \<Longrightarrow> quiet b0 b \<Longrightarrow> quiet b0 (snd (marked m r b))"
  unfolding marked_def by (auto intro!: quiets quiet_blocks split: option.split)

lemma mark_blocks_length: "mark_blocks f g bs = Some bs' \<Longrightarrow> length bs' = length bs"
  by (induction f g bs arbitrary: bs' rule: mark_blocks.induct) (auto split: option.splits)

lemma quiet_EndTransactionBlock [quiets]: "quiet b0 b \<Longrightarrow> quiet b0 (snd (EndTransactionBlock b))"
  unfolding EndTransactionBlock_def
  by (auto intro!: quiet_set_blockState quiet_marked quiet_ereport dest: mark_blocks_length split: TBlockState.split)

lemma quiet_PrepareTransactionBlock [quiets]: "quiet b0 b \<Longrightarrow> quiet b0 (snd (PrepareTransactionBlock gid b))"
proof -
  have s: "quiet b0 b \<Longrightarrow> quiet b0 (b\<lparr>prepareGID := pg, blocks := butlast (blocks b) @ [s]\<rparr>)" for b pg s
    by (auto simp: quiet_def qe_def aligned_def)
  show "quiet b0 b \<Longrightarrow> quiet b0 (snd (PrepareTransactionBlock gid b))"
    unfolding PrepareTransactionBlock_def Let_def by (intro s quiets; assumption)
qed

lemma EndTransactionBlock_ending:
  assumes "fst (EndTransactionBlock b) = Inr True" "nested (blocks b)" "blocks b \<noteq> []"
  shows "(\<exists>s. blocks (snd (EndTransactionBlock b)) = [s] \<and> blockState s = TBLOCK_STARTED) \<or> ending TBLOCK_END (blocks (snd (EndTransactionBlock b)))"
    "node (snd (EndTransactionBlock b)) = node b" "xact_stack (snd (EndTransactionBlock b)) = xact_stack b"
proof -
  have "(\<exists>s. blocks (snd (EndTransactionBlock b)) = [s] \<and> blockState s = TBLOCK_STARTED) \<or> ending TBLOCK_END (blocks (snd (EndTransactionBlock b)))
      \<and> node (snd (EndTransactionBlock b)) = node b \<and> xact_stack (snd (EndTransactionBlock b)) = xact_stack b" if "blockState (CurrentBlock b) \<noteq> TBLOCK_STARTED"
    using assms that nested_top [OF assms(2,3)] mark_blocks_ending
    by (cases "blockState (CurrentBlock b)")
      (auto simp: EndTransactionBlock_def marked_def set_blockState_def ending_def ereport_def split: option.splits)
  moreover have "EndTransactionBlock b = (Inr True, b)" "\<exists>s. blocks b = [s]" if "blockState (CurrentBlock b) = TBLOCK_STARTED"
    using that nested_top [OF assms(2,3)] by (simp_all add: EndTransactionBlock_def)
  ultimately show "(\<exists>s. blocks (snd (EndTransactionBlock b)) = [s] \<and> blockState s = TBLOCK_STARTED) \<or> ending TBLOCK_END (blocks (snd (EndTransactionBlock b)))"
    by (metis list.sel(1) snd_conv)
  show "node (snd (EndTransactionBlock b)) = node b" "xact_stack (snd (EndTransactionBlock b)) = xact_stack b"
    by (simp_all add: EndTransactionBlock_def marked_def set_blockState_def split: TBlockState.split option.split)
qed

lemma PrepareTransactionBlock_ending:
  assumes ok: "fst (PrepareTransactionBlock g b) = Inr True" and n: "nested (blocks b)" "blocks b \<noteq> []"
  shows "ending TBLOCK_PREPARE (blocks (snd (PrepareTransactionBlock g b)))" "prepareGID (snd (PrepareTransactionBlock g b)) = Some g"
    "node (snd (PrepareTransactionBlock g b)) = node b" "own_xids (snd (PrepareTransactionBlock g b)) = own_xids b"
proof -
  let ?b = "snd (EndTransactionBlock b)"
  have e: "fst (EndTransactionBlock b) = Inr True" and l: "blockState (last (blocks ?b)) = TBLOCK_END"
    using ok by (auto simp: PrepareTransactionBlock_def bindS_Inr Let_def split: if_splits)
  have p: "snd (PrepareTransactionBlock g b) = ?b\<lparr>prepareGID := Some g,
      blocks := butlast (blocks ?b) @ [(last (blocks ?b))\<lparr>blockState := TBLOCK_PREPARE\<rparr>]\<rparr>"
    using l by (simp add: PrepareTransactionBlock_def snd_bindS_Inr [OF e] Let_def)
  note end_facts = EndTransactionBlock_ending [OF e n]
  show "ending TBLOCK_PREPARE (blocks (snd (PrepareTransactionBlock g b)))" "prepareGID (snd (PrepareTransactionBlock g b)) = Some g"
    "node (snd (PrepareTransactionBlock g b)) = node b" "own_xids (snd (PrepareTransactionBlock g b)) = own_xids b"
    using end_facts l by (auto simp: p ending_def own_xids_def)
qed


lemma good_prepare_and_idle:
  assumes "at_rest {L} b" "length (blocks b) = 1" "prepareGID b = Some g" "own_xids b \<inter> fst ` views (node b) = {}"
  shows "good {L, prepares g L} {prepares g L} (prepare_and_idle b)"
  unfolding prepare_and_idle_def
proof (rule good_bind [OF good_PrepareTransaction [OF assms(1) _ assms(3,4)]])
  show "length (nodes (xact_stack b)) = 1" using assms(1,2) by (simp add: at_rest_def qe_def aligned_def)
  show "at_rest {prepares g L} (snd (PrepareTransaction b)) \<Longrightarrow> good {L, prepares g L} {prepares g L}
      (Inr (), set_blockState TBLOCK_DEFAULT (snd (PrepareTransaction b)))"
    by (rule good_quiet) (auto intro!: quiet_set_blockState)
qed

lemma good_CommitTransactionCommand_prepare:
  assumes rest: "at_rest {L} b" and e: "ending TBLOCK_PREPARE (blocks b)" and g: "prepareGID b = Some g"
    and fresh: "own_xids b \<inter> fst ` views (node b) = {}"
  shows "good {L, prepares g L} {prepares g L} (CommitTransactionCommand d b)"
  using e
proof (cases rule: ending_cases)
  case (1 s)
  then have "CommitTransactionCommand d b = prepare_and_idle b" by (subst CommitTransactionCommand.simps) simp
  then show ?thesis using good_prepare_and_idle [OF rest _ g fresh] 1 by simp
next
  case 2
  let ?b = "snd (commit_subs TBLOCK_SUBCOMMIT b)"
  have q: "quiet b ?b" by (rule qf.commit_subs) simp
  show ?thesis unfolding CommitTransactionCommand_SUBCOMMIT [OF 2]
  proof (rule good_bind [OF good_quiet [OF rest _ q]])
    fix u assume "fst (commit_subs TBLOCK_SUBCOMMIT b) = Inr u" and rest': "at_rest {L} ?b"
    with e rest obtain s where "blocks ?b = [s]" "blockState s = TBLOCK_PREPARE" and sx: "same_xact b ?b"
      using commit_subs_ending [of b u] by (auto simp: at_rest_def)
    moreover have "own_xids ?b \<inter> fst ` views (node ?b) = {}"
      using fresh sx at_rest_views [OF rest q] by (simp add: same_xact_def)
    ultimately show "good {L, prepares g L} {prepares g L} (if blockState (CurrentBlock ?b) = TBLOCK_END then commit_and_idle d ?b
          else if blockState (CurrentBlock ?b) = TBLOCK_PREPARE then prepare_and_idle ?b
          else ereport ERROR UnexpectedBlockState ?b)"
      using good_prepare_and_idle [OF rest'] sx g by (simp add: same_xact_def)
  qed simp
qed

lemma good_ERROR: "at_rest {L} b \<Longrightarrow> L \<in> X \<Longrightarrow> good X Y (ereport l r b)"
  by (auto simp: good_def ereport_def intro: at_rest_mono at_rest_role at_rest_crash_ok [THEN crash_ok_mono])

lemma good_performDtxProtocolPrepare:
  assumes rest: "at_rest {L} b" and can: "can_prepare b"
  shows "good {L, prepares g L} {prepares g L} (performDtxProtocolPrepare d g b)" (is "good ?X ?Y _")
  unfolding performDtxProtocolPrepare_def
proof (rule good_bind [OF good_quiet [OF rest]])
  show "quiet b (snd (StartTransactionCommand b))" by (rule quiet_StartTransactionCommand) simp
  fix u assume start: "fst (StartTransactionCommand b) = Inr u" and rest1: "at_rest {L} (snd (StartTransactionCommand b))"
  let ?b1 = "snd (StartTransactionCommand b)" let ?b2 = "snd (PrepareTransactionBlock g ?b1)"
  have can1: "can_prepare ?b1" using can_prepare_start [OF can _ start] rest by (simp add: at_rest_def qe_def)
  have q2: "quiet ?b1 ?b2" by (rule quiet_PrepareTransactionBlock) simp
  show "good ?X ?Y (bindS (PrepareTransactionBlock g ?b1) (\<lambda>ok b. if \<not> ok then ereport ERROR PrepareFailed b
     else bindS (CommitTransactionCommand d b) (\<lambda>_ b. (Inr (), setDistributedTransactionContext DTX_CONTEXT_QE_PREPARED b))))"
  proof (rule good_bind [OF good_quiet [OF rest1 _ q2]])
    fix ok assume p: "fst (PrepareTransactionBlock g ?b1) = Inr ok" and rest2: "at_rest {L} ?b2"
    show "good ?X ?Y (if \<not> ok then ereport ERROR PrepareFailed ?b2
     else bindS (CommitTransactionCommand d ?b2) (\<lambda>_ b. (Inr (), setDistributedTransactionContext DTX_CONTEXT_QE_PREPARED b)))"
    proof (cases ok)
      case True
      have "nested (blocks ?b1)" "blocks ?b1 \<noteq> []" using can1 rest1 by (auto simp: can_prepare_def at_rest_def qe_def aligned_def)
      moreover have "fst (PrepareTransactionBlock g ?b1) = Inr True" using p True by simp
      ultimately have pp: "ending TBLOCK_PREPARE (blocks ?b2)" "prepareGID ?b2 = Some g" "node ?b2 = node ?b1" "own_xids ?b2 = own_xids ?b1"
        using PrepareTransactionBlock_ending by blast+
      have "own_xids ?b2 \<inter> fst ` views (node ?b2) = {}" using pp can1 by (simp add: can_prepare_def)
      then have "good ?X ?Y (CommitTransactionCommand d ?b2)" by (rule good_CommitTransactionCommand_prepare [OF rest2 pp(1,2)])
      then have "good ?X ?Y (bindS (CommitTransactionCommand d ?b2) (\<lambda>_ b. (Inr (), setDistributedTransactionContext DTX_CONTEXT_QE_PREPARED b)))"
        by (elim good_bind) (rule good_quiet, auto intro!: quiet_sets)
      then show ?thesis using True by simp
    qed (simp add: good_ERROR [OF rest2])
  qed simp
qed simp


section \<open>All commands\<close>

lemma quiet_CommitTransactionCommand_ending:
  assumes "qe b" "ending TBLOCK_END (blocks b)"
  shows "quiet b (snd (CommitTransactionCommand d b))"
  using assms(2)
proof (cases rule: ending_cases)
  case (1 s)
  then show ?thesis by (intro quiet_CommitTransactionCommand) simp_all
next
  case 2
  let ?b = "snd (commit_subs TBLOCK_SUBCOMMIT b)"
  have "quiet b ?b" by (rule qf.commit_subs) simp
  then show ?thesis unfolding CommitTransactionCommand_SUBCOMMIT [OF 2]
    using commit_subs_ending [OF _ assms(2,1)] by (intro quiet_rec) (auto intro!: quiet_commit_and_idle)
qed

lemma quiet_CommitTransactionCommand_end:
  assumes "qe b" "fst (EndTransactionBlock b) = Inr True"
  shows "quiet b (snd (CommitTransactionCommand d (snd (EndTransactionBlock b))))"
proof -
  let ?b = "snd (EndTransactionBlock b)"
  have q: "quiet b ?b" by (rule quiet_EndTransactionBlock) simp
  consider "blockState (CurrentBlock ?b) \<in> {TBLOCK_STARTED, TBLOCK_END}" | "ending TBLOCK_END (blocks ?b)"
    using assms(2) mark_blocks_ending
    by (cases "blockState (CurrentBlock b)")
      (auto simp: EndTransactionBlock_def marked_def set_blockState_def ereport_def split: option.splits)
  then show ?thesis
  proof cases
    case 1
    then show ?thesis by (intro quiet_CommitTransactionCommand [OF _ q]) auto
  next
    case 2
    then show ?thesis using quiet_CommitTransactionCommand_ending [OF _ 2] q assms(1) quiet_trans
      by (metis quiet_def)
  qed
qed

lemma good_performDtxProtocolCommitOnePhase:
  assumes rest: "at_rest {L} b"
  shows "good {L} {L} (performDtxProtocolCommitOnePhase d g b)"
proof (rule good_quiet [OF rest])
  have c: "quiet b (snd (dtxCrackOpenGid g b))" for b :: "'a Backend" by (subst dtxCrackOpenGid_state) simp
  have s: "quiet b (snd (StartTransactionCommand (b\<lparr>MyTmGxactLocal := (MyTmGxactLocal b)\<lparr>isOnePhaseCommit := True\<rparr>\<rparr>)))"
    for b :: "'a Backend" by (intro quiet_StartTransactionCommand quiet_sets) simp
  have e: "quiet b (snd (bindS (EndTransactionBlock b) (\<lambda>ok b. if \<not> ok then ereport ERROR CommitOnePhaseFailed b
     else bindS (CommitTransactionCommand d b) (\<lambda>_ b. finishDistributedTransactionContext b))))" if "qe b" for b :: "'a Backend"
  proof (rule quiet_rec)
    show q: "quiet b (snd (EndTransactionBlock b))" by (rule quiet_EndTransactionBlock) simp
    show "quiet b (snd (if \<not> ok then ereport ERROR CommitOnePhaseFailed (snd (EndTransactionBlock b))
     else bindS (CommitTransactionCommand d (snd (EndTransactionBlock b))) (\<lambda>_ b. finishDistributedTransactionContext b)))"
      if "fst (EndTransactionBlock b) = Inr ok" for ok
      using quiet_CommitTransactionCommand_end [OF \<open>qe b\<close>] that q by (auto intro!: quiet_bindS quiet_finish)
  qed
  show "quiet b (snd (performDtxProtocolCommitOnePhase d g b))"
    unfolding performDtxProtocolCommitOnePhase_def
    by (intro quiet_bindS c quiet_trans [OF _ s] quiet_on [OF e]) simp_all
qed simp


fun effect :: "DtxProtocolCommand \<Rightarrow> string \<Rightarrow> string set \<times> string set \<Rightarrow> string set \<times> string set" where
  "effect DTX_PROTOCOL_COMMAND_PREPARE g L = prepares g L"
| "effect DTX_PROTOCOL_COMMAND_COMMIT_PREPARED g L = finished True g L"
| "effect DTX_PROTOCOL_COMMAND_RETRY_COMMIT_PREPARED g L = finished True g L"
| "effect DTX_PROTOCOL_COMMAND_RECOVERY_COMMIT_PREPARED g L = finished True g L"
| "effect DTX_PROTOCOL_COMMAND_ABORT_PREPARED g L = finished False g L"
| "effect DTX_PROTOCOL_COMMAND_ABORT_SOME_PREPARED g L = finished False g L"
| "effect DTX_PROTOCOL_COMMAND_RETRY_ABORT_PREPARED g L = finished False g L"
| "effect DTX_PROTOCOL_COMMAND_RECOVERY_ABORT_PREPARED g L = finished False g L"
| "effect _ g L = L"

text \<open>A process that has lost its transaction answers an abort of what may be prepared without looking.\<close>

definition after_success :: "DtxProtocolCommand \<Rightarrow> string \<Rightarrow> string set \<times> string set \<Rightarrow> (string set \<times> string set) set" where
  "after_success cmd g L = (if cmd = DTX_PROTOCOL_COMMAND_ABORT_SOME_PREPARED then {L, effect cmd g L} else {effect cmd g L})"

lemma good_require:
  assumes "at_rest {L} b" "L \<in> X" "good X Y (f b)"
  shows "good X Y (bindS (requireDistributedTransactionContext c b) (\<lambda>_ b. f b))"
  using assms by (cases "dtx_context b = c") (auto simp: requireDistributedTransactionContext_def ereport_def intro: good_ERROR [unfolded ereport_def])

lemma good_finish_command:
  "at_rest {L} b \<Longrightarrow> good {L, finished isCommit g L} {finished isCommit g L} (perform_finish_prepared d isCommit g raise b)"
  "at_rest {L} b \<Longrightarrow> good {L, finished isCommit g L} {finished isCommit g L}
     (perform_finish_prepared d isCommit g raise (setDistributedTransactionContext c b))"
  by (rule good_perform_finish_prepared, assumption)
    (rule good_perform_finish_prepared, rule at_rest_quiet, assumption, rule quiet_sets, rule quiet_refl)

lemma good_abort: "at_rest {L} b \<Longrightarrow> L \<in> Y \<Longrightarrow> Y \<subseteq> X \<Longrightarrow> good X Y (AbortOutOfAnyTransaction d b)"
  by (rule good_mono [OF good_quiet [of "{L}" b "{L}"]]) (auto intro!: qf.AbortOutOfAnyTransaction)

lemma good_command:
  assumes rest: "at_rest {L} b" and two: "two_phase cmd"
    and can: "cmd = DTX_PROTOCOL_COMMAND_PREPARE \<Longrightarrow> dtx_context b \<noteq> DTX_CONTEXT_LOCAL_ONLY \<Longrightarrow> can_prepare b"
  shows "good {L, effect cmd g L} (after_success cmd g L) (performDtxProtocolCommand d cmd g info b)"
proof (cases cmd)
  case DTX_PROTOCOL_COMMAND_PREPARE
  then show ?thesis using can
    by (auto simp: performDtxProtocolCommand_def after_success_def split: DtxContext.split
        intro!: good_ERROR [OF rest] good_performDtxProtocolPrepare [OF rest])
next
  case DTX_PROTOCOL_COMMAND_COMMIT_ONEPHASE
  then show ?thesis 
    by (auto simp: performDtxProtocolCommand_def after_success_def split: DtxContext.split
        intro!: good_ERROR [OF rest] good_performDtxProtocolCommitOnePhase [OF rest])
next
  case DTX_PROTOCOL_COMMAND_ABORT_SOME_PREPARED
  then show ?thesis
    by (auto simp: performDtxProtocolCommand_def performDtxProtocolAbortPrepared_def after_success_def split: DtxContext.split
        intro!: good_ERROR [OF rest] good_abort [OF rest] good_mono [OF good_finish_command(2) [OF rest]])
next
  case DTX_PROTOCOL_COMMAND_ABORT_NO_PREPARED
  then show ?thesis using good_abort [OF rest, of "{L}" "{L}"] by (simp add: performDtxProtocolCommand_def after_success_def)
next
  case DTX_PROTOCOL_COMMAND_NONE
  then show ?thesis by (auto simp: performDtxProtocolCommand_def intro!: good_ERROR [OF rest])
qed (use two in \<open>auto simp: two_phase_def performDtxProtocolCommand_def performDtxProtocolAbortPrepared_def performDtxProtocolCommitPrepared_def
    after_success_def intro!: good_require [OF rest] good_finish_command [OF rest]\<close>)

end
