(* ===== verification/Cluster.thy ===== *)
theory Cluster
  imports SegmentPrepare
begin

text \<open>
  Segments that carry out the commands of the master: the error handling of a server process
  (\<open>PostgresMain\<close> of \<open>tcop/postgres.c\<close>, \<open>ShutdownPostgres\<close>), the restart of a node after a crash, and the
  dispatcher that sends a command to the process of every segment.

  What the network and the machines do is a script: an element says for every segment of a
  dispatch whether the command arrives, which of its internal calls fail, whether the process or the
  node was restarted before, how much of the unflushed log survives, and whether the answer arrives.
\<close>

section \<open>Processes and nodes\<close>

definition restart :: "nat \<Rightarrow> 'w Backend \<Rightarrow> 'w Backend" where
  "restart k b = new_process (b\<lparr>node := restarted k (node b)\<rparr>)"

definition quit_process :: "'w Dispatcher \<Rightarrow> nat \<Rightarrow> 'w Backend \<Rightarrow> 'w Backend" where
  "quit_process d k b =
     (case ShutdownPostgres d b of
        (Inl (PANIC, _), b') \<Rightarrow> restart k b'
      | (_, b') \<Rightarrow> new_process b')"

text \<open>What is there after a command: the process, or a new one where it is gone.\<close>

definition settle :: "'w Dispatcher \<Rightarrow> nat \<Rightarrow> (Exit + unit) \<times> 'w Backend \<Rightarrow> 'w Backend" where
  "settle d k r =
     (case fst r of
        Inr _ \<Rightarrow> snd r
      | Inl (PANIC, _) \<Rightarrow> restart k (snd r)
      | Inl (FATAL, _) \<Rightarrow> quit_process d k (snd r)
      | Inl (ERROR, _) \<Rightarrow>
          (case after_error d ERRORDATA_STACK_SIZE (snd r) of
             (Inr _, b) \<Rightarrow> b
           | (Inl (PANIC, _), b) \<Rightarrow> restart k b
           | (Inl _, b) \<Rightarrow> quit_process d k b))"

section \<open>The cluster\<close>

datatype Before = SameProcess | NewProcess | NodeRestarted nat

datatype Delivery =
  Unreachable
| Deliver Before "Fault list" nat bool

datatype Dispatch = NoGang | MasterDown "Delivery list" | Sent "Delivery list"

record Cluster =
  segments :: "int \<Rightarrow> unit Backend"
  members :: "int list"
  script :: "Dispatch list"

datatype Reply = Done | Refused | LostConnection

definition no_info :: DtxContextInfo where
  "no_info = \<lparr>distributedXid = InvalidDistributedTransactionId, distributedTimeStamp = 0, distributedTxnOptions = 0,
              haveDistributedSnapshot = False, info_nestingLevel = 0\<rparr>"

text \<open>A segment process dispatches nothing: this dispatcher is never used.\<close>

definition no_dispatch :: "unit Dispatcher" where
  "no_dispatch = \<lparr>dtx_send = \<lambda>_ _ _ _ w. (AllocateFailed, w), sql_send = \<lambda>_ w. (AllocateFailed, w),
     query_prepared = \<lambda>w. (None, w), destroy_gangs = \<lambda>w. w, component_list = \<lambda>_. [], segment_count = \<lambda>_. 0,
     quote_identifier = \<lambda>s. s\<rparr>"

fun before :: "Before \<Rightarrow> unit Backend \<Rightarrow> unit Backend" where
  "before SameProcess b = b"
| "before NewProcess b = quit_process no_dispatch 0 b"
| "before (NodeRestarted k) b = restart k b"

text \<open>\<open>exec_mpp_dtx_protocol_command\<close> in the main loop of one segment process.\<close>

definition exec_command ::
  "DtxProtocolCommand \<Rightarrow> string \<Rightarrow> DtxContextInfo option \<Rightarrow> Delivery \<Rightarrow> unit Backend \<Rightarrow> Reply \<times> unit Backend" where
  "exec_command cmd gid info dl b =
     (case dl of
        Unreachable \<Rightarrow> (LostConnection, b)
      | Deliver bf fs k answered \<Rightarrow>
          let r = performDtxProtocolCommand no_dispatch cmd gid (case info of None \<Rightarrow> no_info | Some i \<Rightarrow> i)
                    ((before bf b)\<lparr>faults := fs\<rparr>);
              reply = (case fst r of Inr _ \<Rightarrow> Done | Inl (ERROR, _) \<Rightarrow> Refused | Inl _ \<Rightarrow> LostConnection)
          in (if answered then reply else LostConnection, (settle no_dispatch k r)\<lparr>faults := []\<rparr>))"

fun exec_all ::
  "DtxProtocolCommand \<Rightarrow> string \<Rightarrow> DtxContextInfo option \<Rightarrow> int list \<Rightarrow> Delivery list \<Rightarrow> (int \<Rightarrow> unit Backend) \<Rightarrow>
   Reply list \<times> (int \<Rightarrow> unit Backend)" where
  "exec_all cmd gid info [] dls sg = ([], sg)"
| "exec_all cmd gid info (s # ss) dls sg =
     (let (rep, b) = exec_command cmd gid info (case dls of [] \<Rightarrow> Deliver SameProcess [] 0 True | dl # _ \<Rightarrow> dl) (sg s);
          (reps, sg') = exec_all cmd gid info ss (case dls of [] \<Rightarrow> [] | _ # rest \<Rightarrow> rest) (sg(s := b))
      in (rep # reps, sg'))"

definition cluster_send ::
  "DtxProtocolCommand \<Rightarrow> string \<Rightarrow> DtxContextInfo option \<Rightarrow> int list \<Rightarrow> Cluster \<Rightarrow> Dispatched \<times> Cluster" where
  "cluster_send cmd gid info ss c =
     (let step = (case script c of [] \<Rightarrow> Sent [] | st # _ \<Rightarrow> st); c1 = c\<lparr>script := tl (script c)\<rparr>
      in case step of
           NoGang \<Rightarrow> (AllocateFailed, c1)
         | MasterDown dls \<Rightarrow> (MasterLost, c1\<lparr>segments := snd (exec_all cmd gid info ss dls (segments c))\<rparr>)
         | Sent dls \<Rightarrow>
             let (reps, sg) = exec_all cmd gid info ss dls (segments c)
             in (if list_all (\<lambda>r. r = Done) reps
                 then Results (map (\<lambda>_. (PGRES_COMMAND_OK, DtxProtocolCommandToString cmd)) reps)
                 else QEError (\<not> list_ex (\<lambda>r. r = LostConnection) reps),
                 c1\<lparr>segments := sg\<rparr>))"

text \<open>The query for the prepared transactions of all members; it fails where the script has no gang.\<close>

definition cluster_query :: "Cluster \<Rightarrow> string list list option \<times> Cluster" where
  "cluster_query c =
     (if script c \<noteq> [] \<and> hd (script c) = NoGang then None
      else Some (map (\<lambda>s. map gx_gid (filter gx_valid (prepXacts (node (segments c s))))) (members c)),
      c\<lparr>script := tl (script c)\<rparr>)"

definition cluster_destroy :: "Cluster \<Rightarrow> Cluster" where
  "cluster_destroy c = c\<lparr>segments := \<lambda>s. if s \<in> set (members c) then quit_process no_dispatch 0 (segments c s) else segments c s\<rparr>"

definition cluster_dispatcher ::
  "(string \<Rightarrow> Cluster \<Rightarrow> Dispatched \<times> Cluster) \<Rightarrow> (string \<Rightarrow> string) \<Rightarrow> Cluster Dispatcher" where
  "cluster_dispatcher sql quote = \<lparr>dtx_send = cluster_send, sql_send = sql, query_prepared = cluster_query,
     destroy_gangs = cluster_destroy, component_list = members, segment_count = \<lambda>c. int (length (members c)),
     quote_identifier = quote\<rparr>"


section \<open>Every process that is left is at rest\<close>

lemma at_rest_new_process: "seg_ok (node b) \<Longrightarrow> Gp_role (self b) = GP_ROLE_EXECUTE \<Longrightarrow> seg_log (wal (node b)) \<in> X \<Longrightarrow> at_rest X (new_process b)"
  by (simp add: at_rest_def qe_def aligned_def new_process_def resetGxact_def seg_ok_def)

lemma views_Recover: "prepXacts n = RecoverPreparedTransactions w \<Longrightarrow> views n = set (prepared_in w)"
  by (force simp: views_def RecoverPreparedTransactions_def)

lemma seg_ok_restarted:
  assumes "crash_ok X n"
  shows "seg_ok (restarted k n)" "seg_log (wal (restarted k n)) \<in> X"
proof -
  let ?w = "take (max k (flushed n)) (wal n)"
  have "seg_log ?w \<in> X" "distinct (map (snd \<circ> snd) (prepared_in ?w))" using assms by (simp_all add: crash_ok_def)
  moreover have "map gx_gid (RecoverPreparedTransactions ?w) = map (snd \<circ> snd) (prepared_in ?w)"
    by (simp add: RecoverPreparedTransactions_def case_prod_beta)
  ultimately show "seg_ok (restarted k n)" "seg_log (wal (restarted k n)) \<in> X"
    using views_Recover [of "restarted k n" ?w] by (simp_all add: seg_ok_def restarted_def Let_def)
qed

lemma at_rest_restart: "crash_ok X (node b) \<Longrightarrow> Gp_role (self b) = GP_ROLE_EXECUTE \<Longrightarrow> at_rest X (restart k b)"
  unfolding restart_def by (rule at_rest_new_process) (simp_all add: seg_ok_restarted)

lemma new_process_at_rest: "at_rest X b \<Longrightarrow> at_rest X (new_process b)"
  by (rule at_rest_new_process) (auto simp: at_rest_def qe_def)

lemma dtx_context_new [simp]: "dtx_context (new_process b) = DTX_CONTEXT_LOCAL_ONLY" "dtx_context (restart k b) = DTX_CONTEXT_LOCAL_ONLY"
  by (simp_all add: new_process_def restart_def resetGxact_def)

lemma quit_process_cases:
  obtains "quit_process d k b = restart k (snd (ShutdownPostgres d b))" | "quit_process d k b = new_process (snd (ShutdownPostgres d b))"
  by (cases "ShutdownPostgres d b"; cases "fst (ShutdownPostgres d b)"; cases "fst (projl (fst (ShutdownPostgres d b)))")
    (auto simp: quit_process_def split: prod.splits)

lemma dtx_context_quit [simp]: "dtx_context (quit_process d k b) = DTX_CONTEXT_LOCAL_ONLY"
  by (rule quit_process_cases [of d k b]) auto

lemma at_rest_quit:
  assumes "at_rest X b"
  shows "at_rest X (quit_process d k b)"
proof -
  have "quiet b (snd (ShutdownPostgres d b))" by (rule qf.ShutdownPostgres) simp
  then have r: "at_rest X (snd (ShutdownPostgres d b))" by (rule at_rest_quiet [OF assms])
  show ?thesis
    by (rule quit_process_cases [of d k b])
      (auto intro: at_rest_restart new_process_at_rest at_rest_crash_ok at_rest_role r)
qed

lemma at_rest_settle:
  assumes "good X Y r"
  shows "at_rest X (settle d k r)" "fst r = Inr x \<Longrightarrow> at_rest Y (settle d k r)"
proof -
  have panic: "at_rest X (restart k (snd r))" using assms by (intro at_rest_restart) (simp_all add: good_def)
  show "at_rest X (settle d k r)"
  proof (cases "fst r")
    case (Inl e)
    obtain l e' where e: "e = (l, e')" by (cases e)
    let ?a = "after_error d ERRORDATA_STACK_SIZE (snd r)"
    have a: "at_rest X (snd ?a)" if "l \<noteq> PANIC"
      using assms that Inl e by (intro at_rest_quiet [OF _ qf.after_error]) (auto simp: good_def)
    show ?thesis
      using panic a assms Inl e at_rest_quit [of X "snd r" d k] at_rest_quit [of X "snd ?a" d k]
        at_rest_restart [of X "snd ?a" k] at_rest_crash_ok [of X "snd ?a"] at_rest_role [of X "snd ?a"]
      by (cases l; cases ?a; cases "fst ?a") (auto simp: settle_def good_def split: Elevel.splits prod.splits)
  qed (use assms in \<open>simp add: settle_def good_def\<close>)
  show "fst r = Inr x \<Longrightarrow> at_rest Y (settle d k r)" using assms by (simp add: settle_def good_def)
qed


section \<open>What a dispatch does to the logs\<close>

definition log_of :: "unit Backend \<Rightarrow> string set \<times> string set" where
  "log_of b = seg_log (wal (node b))"

definition ready :: "unit Backend \<Rightarrow> bool" where
  "ready b \<longleftrightarrow> (dtx_context b \<noteq> DTX_CONTEXT_LOCAL_ONLY \<longrightarrow> can_prepare b)"

lemma at_rest_log_of: "at_rest X b \<longleftrightarrow> at_rest UNIV b \<and> log_of b \<in> X"
  by (auto simp: at_rest_def log_of_def)

lemma at_rest_faults [simp]: "at_rest X (b\<lparr>faults := fs\<rparr>) = at_rest X b"
  by (simp add: at_rest_def qe_def aligned_def)

lemma can_prepare_faults [simp]: "can_prepare (b\<lparr>faults := fs\<rparr>) = can_prepare b"
  by (simp add: can_prepare_def own_xids_def)

lemma at_rest_before: "at_rest X b \<Longrightarrow> at_rest X (before bf b)"
  by (cases bf) (auto intro: at_rest_quit at_rest_restart at_rest_crash_ok at_rest_role)

lemma exec_command_effect:
  assumes rest: "at_rest {L} b" and two: "two_phase cmd" and can: "cmd = DTX_PROTOCOL_COMMAND_PREPARE \<Longrightarrow> ready b"
    and e: "exec_command cmd g info dl b = (rep, b')"
  shows "at_rest {L, effect cmd g L} b'" "rep = Done \<Longrightarrow> at_rest (after_success cmd g L) b'"
proof -
  have "at_rest {L, effect cmd g L} b' \<and> (rep = Done \<longrightarrow> at_rest (after_success cmd g L) b')"
  proof (cases dl)
    case Unreachable
    then show ?thesis using e at_rest_mono [OF rest] by (auto simp: exec_command_def)
  next
    case (Deliver bf fs k answered)
    let ?b = "(before bf b)\<lparr>faults := fs\<rparr>"
    let ?r = "performDtxProtocolCommand no_dispatch cmd g (case info of None \<Rightarrow> no_info | Some i \<Rightarrow> i) ?b"
    have "cmd = DTX_PROTOCOL_COMMAND_PREPARE \<Longrightarrow> dtx_context ?b \<noteq> DTX_CONTEXT_LOCAL_ONLY \<Longrightarrow> can_prepare ?b"
      using can by (cases bf) (auto simp: ready_def)
    then have good: "good {L, effect cmd g L} (after_success cmd g L) ?r"
      using at_rest_before [OF rest] two by (intro good_command) simp_all
    have b': "b' = (settle no_dispatch k ?r)\<lparr>faults := []\<rparr>" and rep: "rep = Done \<Longrightarrow> \<exists>x. fst ?r = Inr x"
      using e Deliver by (auto simp: exec_command_def Let_def split: sum.splits if_splits prod.splits Elevel.splits)
    show ?thesis using at_rest_settle [OF good] rep by (auto simp: b')
  qed
  then show "at_rest {L, effect cmd g L} b'" "rep = Done \<Longrightarrow> at_rest (after_success cmd g L) b'" by auto
qed

lemma finished_idem [simp]: "finished c g (finished c g L) = finished c g L"
  by (simp add: finished_def)

lemma effect_idem: "effect cmd g (effect cmd g L) = effect cmd g L"
  by (cases cmd) (auto simp: prepares_def finished_def)

lemma exec_all_effect:
  assumes "exec_all cmd g info ss dls sg = (reps, sg')" "two_phase cmd" "\<And>s. at_rest UNIV (sg s)"
    "cmd = DTX_PROTOCOL_COMMAND_PREPARE \<Longrightarrow> distinct ss \<and> (\<forall>s \<in> set ss. ready (sg s))"
  shows "at_rest {log_of (sg s), effect cmd g (log_of (sg s))} (sg' s)" "s \<notin> set ss \<Longrightarrow> sg' s = sg s"
    "list_all (\<lambda>r. r = Done) reps \<Longrightarrow> s \<in> set ss \<Longrightarrow> log_of (sg' s) \<in> after_success cmd g (log_of (sg s))"
proof -
  have "at_rest {log_of (sg s), effect cmd g (log_of (sg s))} (sg' s) \<and> (s \<notin> set ss \<longrightarrow> sg' s = sg s) \<and>
    (list_all (\<lambda>r. r = Done) reps \<longrightarrow> s \<in> set ss \<longrightarrow> log_of (sg' s) \<in> after_success cmd g (log_of (sg s)))"
    using assms
  proof (induction ss arbitrary: dls sg reps)
    case Nil
    then show ?case by (auto simp: at_rest_log_of [of "{_, _}"])
  next
    case (Cons t ss)
    let ?dl = "case dls of [] \<Rightarrow> Deliver SameProcess [] 0 True | dl # _ \<Rightarrow> dl"
    obtain rep b where e: "exec_command cmd g info ?dl (sg t) = (rep, b)" by fastforce
    obtain reps' where r: "exec_all cmd g info ss (case dls of [] \<Rightarrow> [] | _ # rest \<Rightarrow> rest) (sg(t := b)) = (reps', sg')"
        "reps = rep # reps'"
      using Cons.prems(1) e by (auto split: prod.splits)
    have t: "at_rest {log_of (sg t)} (sg t)" using Cons.prems(3) at_rest_log_of by blast
    have "cmd = DTX_PROTOCOL_COMMAND_PREPARE \<Longrightarrow> ready (sg t)" using Cons.prems(4) by simp
    note b = exec_command_effect [OF t Cons.prems(2) this e]
    have "at_rest UNIV ((sg(t := b)) s)" for s using Cons.prems(3) at_rest_mono [OF b(1)] by simp
    moreover have "cmd = DTX_PROTOCOL_COMMAND_PREPARE \<Longrightarrow> distinct ss \<and> (\<forall>s \<in> set ss. ready ((sg(t := b)) s))"
      using Cons.prems(4) by auto
    ultimately have IH: "at_rest {log_of ((sg(t := b)) s), effect cmd g (log_of ((sg(t := b)) s))} (sg' s)"
      "s \<notin> set ss \<longrightarrow> sg' s = (sg(t := b)) s"
      "list_all (\<lambda>r. r = Done) reps' \<longrightarrow> s \<in> set ss \<longrightarrow> log_of (sg' s) \<in> after_success cmd g (log_of ((sg(t := b)) s))"
      using Cons.IH [OF r(1) Cons.prems(2)] by blast+
    show ?case
    proof (cases "s = t")
      case True
      have lb: "log_of b \<in> {log_of (sg t), effect cmd g (log_of (sg t))}" using b(1) by (simp add: at_rest_log_of [of "{_, _}"])
      then have "at_rest {log_of (sg t), effect cmd g (log_of (sg t))} (sg' t)"
        using IH(1) True by (auto simp: effect_idem at_rest_log_of [of "{_, _}"] at_rest_log_of [of "{_}"])
      moreover have "log_of (sg' t) \<in> after_success cmd g (log_of (sg t))" if "list_all (\<lambda>r. r = Done) reps"
      proof -
        have "log_of b \<in> after_success cmd g (log_of (sg t))"
          using b(2) that r(2) by (simp add: at_rest_log_of [of "after_success _ _ _"])
        then show ?thesis using IH(2,3) that r(2) True by (cases "t \<in> set ss") (auto simp: after_success_def effect_idem split: if_splits)
      qed
      ultimately show ?thesis using True by simp
    next
      case False
      then show ?thesis using IH r(2) by simp
    qed
  qed
  then show "at_rest {log_of (sg s), effect cmd g (log_of (sg s))} (sg' s)" "s \<notin> set ss \<Longrightarrow> sg' s = sg s"
    "list_all (\<lambda>r. r = Done) reps \<Longrightarrow> s \<in> set ss \<Longrightarrow> log_of (sg' s) \<in> after_success cmd g (log_of (sg s))" by auto
qed

end
