(* ===== verification/DtxAtomic.thy ===== *)
theory DtxAtomic
  imports DtxContract
begin

text \<open>
  Atomic commitment, seen from the master: under the contract with the segments, the decision the
  master logs and what the segments have done never contradict each other, whatever errors and
  crashes interrupt a commit, an abort or recovery.
\<close>

section \<open>What the log of the master says\<close>

definition is_commit_of :: "string \<Rightarrow> XLogRecord \<Rightarrow> bool" where
  "is_commit_of g r \<longleftrightarrow> (case r of XLOG_XACT_DISTRIBUTED_COMMIT _ _ h _ \<Rightarrow> h = g | _ \<Rightarrow> False)"

definition is_forget_of :: "string \<Rightarrow> XLogRecord \<Rightarrow> bool" where
  "is_forget_of g r \<longleftrightarrow> (case r of XLOG_XACT_DISTRIBUTED_FORGET h _ \<Rightarrow> h = g | _ \<Rightarrow> False)"

definition commit_logged :: "string \<Rightarrow> Node \<Rightarrow> bool" where
  "commit_logged g n \<longleftrightarrow> list_ex (is_commit_of g) (wal n)"

definition commit_flushed :: "string \<Rightarrow> Node \<Rightarrow> bool" where
  "commit_flushed g n \<longleftrightarrow> list_ex (is_commit_of g) (take (flushed n) (wal n))"

definition forget_logged :: "string \<Rightarrow> Node \<Rightarrow> bool" where
  "forget_logged g n \<longleftrightarrow> list_ex (is_forget_of g) (wal n)"

definition forget_flushed :: "string \<Rightarrow> Node \<Rightarrow> bool" where
  "forget_flushed g n \<longleftrightarrow> list_ex (is_forget_of g) (take (flushed n) (wal n))"

text \<open>What a master in utility mode has saved of \<open>g\<close> is in its log.\<close>

definition file_ok :: "string \<Rightarrow> Node \<Rightarrow> bool" where
  "file_ok g n \<longleftrightarrow> (\<forall>l. log_gid l = g \<longrightarrow> ((True, l) \<in> set (dtm_redo_file n) \<longrightarrow> commit_flushed g n) \<and>
     ((False, l) \<in> set (dtm_redo_file n) \<longrightarrow> forget_flushed g n))"

lemma commit_flushed_logged: "commit_flushed g n \<Longrightarrow> commit_logged g n"
  by (auto simp: commit_flushed_def commit_logged_def list_ex_iff dest: in_set_takeD)

text \<open>The gid of the transaction of a session.\<close>

definition session_gid :: "'w Backend \<Rightarrow> string" where
  "session_gid b = dtxFormGID (distribTimeStamp (MyTmGxact b)) (gxid (MyTmGxact b))"

text \<open>States that do not differ in what the distributed transaction of the session depends on.\<close>

definition same_dtx :: "'w Backend \<Rightarrow> 'w Backend \<Rightarrow> bool" where
  "same_dtx b b' \<longleftrightarrow> world b' = world b \<and> MyTmGxact b' = MyTmGxact b \<and> dtx_context b' = dtx_context b \<and>
     dtx_state (MyTmGxactLocal b') = dtx_state (MyTmGxactLocal b) \<and> dtxSegments (MyTmGxactLocal b') = dtxSegments (MyTmGxactLocal b)"

section \<open>The invariant\<close>

locale dtx_atomic = participants +
  fixes g :: string and S :: "int set"
begin

definition safe :: "Node \<Rightarrow> 'a \<Rightarrow> bool" where
  "safe n w \<longleftrightarrow> ok w \<and> flushed n \<le> length (wal n) \<and> file_ok g n \<and> S \<subseteq> set (component_list d w) \<and>
     (\<forall>s. comm w s g \<longrightarrow> commit_flushed g n) \<and>
     (commit_logged g n \<longrightarrow> (\<forall>s \<in> S. prep w s g \<or> comm w s g)) \<and>
     (forget_logged g n \<longrightarrow> (\<forall>s \<in> S. comm w s g)) \<and>
     (\<forall>s. \<not> (prep w s g \<and> comm w s g)) \<and> (\<forall>s. prep w s g \<or> comm w s g \<longrightarrow> s \<in> S)"

definition ready_to_prepare :: "'a Backend \<Rightarrow> bool" where
  "ready_to_prepare b \<longleftrightarrow> session_gid b = g \<and> distinct (dtxSegments (MyTmGxactLocal b)) \<and>
     set (dtxSegments (MyTmGxactLocal b)) = S \<and> (\<forall>s \<in> S. can (world b) s)"

definition two_phases :: "'a Backend \<Rightarrow> bool" where
  "two_phases b \<longleftrightarrow> session_gid b = g \<and> S \<subseteq> set (dtxSegments (MyTmGxactLocal b))"

definition phase :: "'a Backend \<Rightarrow> bool" where
  "phase b \<longleftrightarrow>
     (case dtx_state (MyTmGxactLocal b) of
        DTX_STATE_NONE \<Rightarrow> True
      | DTX_STATE_ACTIVE_DISTRIBUTED \<Rightarrow> \<not> commit_logged g (node b) \<and> ready_to_prepare b
      | DTX_STATE_PREPARED \<Rightarrow> \<not> commit_logged g (node b) \<and> two_phases b \<and> (\<forall>s \<in> S. prep (world b) s g)
      | DTX_STATE_INSERTING_COMMITTED \<Rightarrow> two_phases b \<and> (\<forall>s \<in> S. prep (world b) s g)
      | DTX_STATE_INSERTED_COMMITTED \<Rightarrow> two_phases b \<and> commit_logged g (node b)
      | DTX_STATE_NOTIFYING_COMMIT_PREPARED \<Rightarrow> two_phases b \<and> commit_flushed g (node b)
      | DTX_STATE_RETRY_COMMIT_PREPARED \<Rightarrow> two_phases b \<and> commit_flushed g (node b)
      | DTX_STATE_INSERTING_FORGET_COMMITTED \<Rightarrow> session_gid b = g \<and> (\<forall>s \<in> S. comm (world b) s g)
      | DTX_STATE_INSERTED_FORGET_COMMITTED \<Rightarrow> session_gid b = g \<and> (\<forall>s \<in> S. comm (world b) s g)
      | _ \<Rightarrow> \<not> commit_logged g (node b))"

definition consistent :: "'a Backend \<Rightarrow> bool" where
  "consistent b \<longleftrightarrow> safe (node b) (world b) \<and>
     (dtx_context b \<in> {DTX_CONTEXT_QD_DISTRIBUTED_CAPABLE, DTX_CONTEXT_QD_RETRY_PHASE_2} \<longrightarrow> phase b)"

lemma safe_ok: "safe n w \<Longrightarrow> ok w"
  by (simp add: safe_def)

lemma safe_destroy: "safe n w \<Longrightarrow> safe n (destroy_gangs d w)"
  using destroy [of w] by (simp add: safe_def)

lemma safe_cong: "wal n' = wal n \<Longrightarrow> flushed n' = flushed n \<Longrightarrow> dtm_redo_file n' = dtm_redo_file n \<Longrightarrow> safe n' w = safe n w"
proof -
  assume n: "wal n' = wal n" "flushed n' = flushed n" "dtm_redo_file n' = dtm_redo_file n"
  then have "commit_logged g n' = commit_logged g n" "commit_flushed g n' = commit_flushed g n"
    "forget_logged g n' = forget_logged g n" "forget_flushed g n' = forget_flushed g n"
    by (simp_all add: commit_logged_def commit_flushed_def forget_logged_def forget_flushed_def)
  then show ?thesis using n by (simp add: safe_def file_ok_def)
qed

text \<open>Commands that cannot commit are harmless until the decision is logged; others concern other transactions.\<close>

lemma safe_undecided:
  assumes "safe n w" "\<not> commit_logged g n \<or> h \<noteq> g" "two_phase cmd" "\<not> commits cmd \<or> h \<noteq> g" "cmd \<noteq> DTX_PROTOCOL_COMMAND_PREPARE"
    "dtx_send d cmd h info ss w = (r, w')"
  shows "safe n w'"
proof -
  note laws = send_ok [of w cmd ss h info r w'] send_other [of w cmd ss h info r w' g] send_comm [of w cmd ss h info r w']
    send_prep [of w cmd ss h info r w'] 
  show ?thesis
  proof (cases "h = g")
    case True
    then have nl: "\<not> commit_logged g n" "\<not> commits cmd" using assms(2,4) by auto
    then have nc: "\<not> comm w s g" for s using assms(1) commit_flushed_logged by (auto simp: safe_def)
    then have "\<not> comm w' s g" for s using laws(3) assms nl True by (auto simp: safe_def)
    then show ?thesis using assms nl True laws nc by (auto simp: safe_def)
  next
    case False
    then have "prep w' s g = prep w s g \<and> comm w' s g = comm w s g" for s using laws(2) assms by (auto simp: safe_def)
    then show ?thesis using laws(1) assms by (simp add: safe_def)
  qed
qed

lemma safe_commit:
  assumes "safe n w" "commit_flushed g n" "commits cmd" "dtx_send d cmd g info ss w = (r, w')"
  shows "safe n w'" "all_good cmd r \<Longrightarrow> S \<subseteq> set ss \<Longrightarrow> s \<in> S \<Longrightarrow> comm w' s g"
proof -
  have two: "two_phase cmd" "cmd \<noteq> DTX_PROTOCOL_COMMAND_PREPARE" using assms(3) by (auto simp: commits_def two_phase_def)
  have ok: "ok w" using assms(1) by (rule safe_ok)
  have o: "ok w' \<and> component_list d w' = component_list d w" by (rule send_ok [OF ok two(1) _ assms(4)]) (use two in simp)
  have c: "(comm w s g \<longrightarrow> comm w' s g) \<and> (comm w' s g \<longrightarrow> comm w s g \<or> commits cmd \<and> prep w s g \<and> \<not> prep w' s g)" for s
    by (rule send_comm [OF ok two(1) _ assms(4)]) (use two in simp)
  have p: "prep w' s g \<longrightarrow> prep w s g" for s
    using send_prep [OF ok two(1) _ assms(4), of s] two by simp
  have pc: "prep w s g \<Longrightarrow> prep w' s g \<or> comm w' s g" for s by (rule send_commit [OF ok assms(3,4)])
  have k: "commit_logged g n" by (rule commit_flushed_logged [OF assms(2)])
  show safe': "safe n w'"
    unfolding safe_def
  proof (intro conjI impI ballI allI)
    show "ok w'" "S \<subseteq> set (component_list d w')" "flushed n \<le> length (wal n)" "file_ok g n" using o assms(1) by (auto simp: safe_def)
    show "commit_flushed g n" by (rule assms(2))
    show "prep w' s g \<or> comm w' s g" if "s \<in> S" for s using assms(1) k that pc c by (auto simp: safe_def)
    show "comm w' s g" if "forget_logged g n" "s \<in> S" for s using assms(1) that c by (auto simp: safe_def)
    show "\<not> (prep w' s g \<and> comm w' s g)" for s using assms(1) c [of s] p [of s] by (auto simp: safe_def)
    show "s \<in> S" if "prep w' s g \<or> comm w' s g" for s using assms(1) that c [of s] p [of s] by (auto simp: safe_def)
  qed
  show "comm w' s g" if "all_good cmd r" "S \<subseteq> set ss" "s \<in> S"
    using committed [OF ok assms(3,4) that(1)] safe' k that by (auto simp: safe_def)
qed

lemma safe_prepare:
  assumes "safe n w" "\<not> commit_logged g n" "distinct ss" "set ss = S" "\<forall>s \<in> S. can w s"
    "dtx_send d DTX_PROTOCOL_COMMAND_PREPARE g info ss w = (r, w')"
  shows "safe n w'" "all_good DTX_PROTOCOL_COMMAND_PREPARE r \<Longrightarrow> s \<in> S \<Longrightarrow> prep w' s g"
proof -
  let ?P = "DTX_PROTOCOL_COMMAND_PREPARE"
  have two: "two_phase ?P" "\<not> commits ?P" by (auto simp: commits_def two_phase_def)
  have ok: "ok w" using assms(1) by (rule safe_ok)
  have pre: "?P = ?P \<Longrightarrow> distinct ss \<and> (\<forall>s \<in> set ss. can w s)" using assms by simp
  have nc: "\<not> comm w s g" for s using assms(1,2) commit_flushed_logged by (auto simp: safe_def)
  have nc': "\<not> comm w' s g" for s using send_comm [OF ok two(1) pre assms(6), of s] nc two by auto
  have p: "prep w' s g \<Longrightarrow> s \<in> S" for s
    using send_other [OF ok two(1) pre assms(6), of g s] assms(1,4) by (cases "s \<in> S") (auto simp: safe_def)
  show "safe n w'" using send_ok [OF ok two(1) pre assms(6)] assms(1,2) nc nc' p by (auto simp: safe_def)
  show "all_good ?P r \<Longrightarrow> s \<in> S \<Longrightarrow> prep w' s g" using prepared [OF ok assms(3) _ assms(6)] assms(4,5) by simp
qed

text \<open>The invariant does not depend on the rest of the state, nor on records of other transactions.\<close>

lemma log_append:
  assumes "wal n' = wal n @ rs" "list_all (\<lambda>r. \<not> is_commit_of g r \<and> \<not> is_forget_of g r) rs"
  shows "commit_logged g n' = commit_logged g n" "forget_logged g n' = forget_logged g n"
  using assms by (auto simp: commit_logged_def forget_logged_def list_ex_iff list_all_iff)

lemma flushed_mono:
  assumes "wal n' = wal n @ rs" "flushed n \<le> flushed n'" "flushed n \<le> length (wal n)"
  shows "commit_flushed g n \<Longrightarrow> commit_flushed g n'" "forget_flushed g n \<Longrightarrow> forget_flushed g n'"
    "file_ok g n \<Longrightarrow> dtm_redo_file n' = dtm_redo_file n \<Longrightarrow> file_ok g n'"
proof -
  have "set (take (flushed n) (wal n)) \<subseteq> set (take (flushed n') (wal n'))"
    using assms set_take_subset_set_take [OF assms(2), of "wal n'"] by simp
  then show c: "commit_flushed g n \<Longrightarrow> commit_flushed g n'" and f: "forget_flushed g n \<Longrightarrow> forget_flushed g n'"
    by (auto simp: commit_flushed_def forget_flushed_def list_ex_iff)
  show "file_ok g n \<Longrightarrow> dtm_redo_file n' = dtm_redo_file n \<Longrightarrow> file_ok g n'"
    using c f by (fastforce simp: file_ok_def list_all_iff)
qed

lemma safe_node:
  assumes "safe n w" "wal n' = wal n @ rs" "list_all (\<lambda>r. \<not> is_commit_of g r \<and> \<not> is_forget_of g r) rs"
    "flushed n \<le> flushed n'" "flushed n' \<le> length (wal n')" "dtm_redo_file n' = dtm_redo_file n"
  shows "safe n' w"
  using assms log_append [OF assms(2,3)] flushed_mono [OF assms(2,4)] by (auto simp: safe_def)

lemma phase_node:
  assumes "phase b" "same_dtx b b'" "commit_logged g (node b') = commit_logged g (node b)"
    "commit_flushed g (node b) \<longrightarrow> commit_flushed g (node b')"
  shows "phase b'"
proof -
  have s: "session_gid b' = session_gid b" "two_phases b' = two_phases b" "ready_to_prepare b' = ready_to_prepare b"
    using assms(2) by (simp_all add: same_dtx_def session_gid_def two_phases_def ready_to_prepare_def)
  show ?thesis using assms unfolding phase_def
    by (cases "dtx_state (MyTmGxactLocal b)") (auto simp: s same_dtx_def)
qed

lemma consistent_log:
  assumes "consistent b" "same_dtx b b'" "wal (node b') = wal (node b) @ rs" "list_all (\<lambda>r. \<not> is_commit_of g r \<and> \<not> is_forget_of g r) rs"
    "flushed (node b) \<le> flushed (node b')" "flushed (node b') \<le> length (wal (node b'))" "dtm_redo_file (node b') = dtm_redo_file (node b)"
  shows "consistent b'"
proof -
  have safe: "safe (node b) (world b)" using assms(1) by (simp add: consistent_def)
  have f: "commit_flushed g (node b) \<longrightarrow> commit_flushed g (node b')"
    using flushed_mono(1) [OF assms(3,5)] safe by (simp add: safe_def)
  show ?thesis
    using safe_node [OF safe assms(3-7)] phase_node [OF _ assms(2) log_append(1) [OF assms(3,4)] f] assms(1,2)
    by (auto simp: consistent_def same_dtx_def)
qed

lemma consistent_frame: "consistent b \<Longrightarrow> same_dtx b b' \<Longrightarrow> node b' = node b \<Longrightarrow> consistent b'"
  by (rule consistent_log [of b b' "[]"]) (auto simp: consistent_def safe_def)

lemma consistent_shm: "consistent b \<Longrightarrow> same_dtx b b' \<Longrightarrow> wal (node b') = wal (node b) \<Longrightarrow> flushed (node b') = flushed (node b) \<Longrightarrow>
  dtm_redo_file (node b') = dtm_redo_file (node b) \<Longrightarrow> consistent b'"
  by (rule consistent_log [of b b' "[]"]) (auto simp: consistent_def safe_def)

section \<open>Abort\<close>

definition undecided :: "'a Backend \<Rightarrow> bool" where
  "undecided b \<longleftrightarrow> safe (node b) (world b) \<and> \<not> commit_logged g (node b) \<and>
     dtx_state (MyTmGxactLocal b) \<in> {DTX_STATE_NONE, DTX_STATE_NOTIFYING_ABORT_NO_PREPARED, DTX_STATE_NOTIFYING_ABORT_SOME_PREPARED,
       DTX_STATE_NOTIFYING_ABORT_PREPARED, DTX_STATE_RETRY_ABORT_PREPARED, DTX_STATE_PREPARING, DTX_STATE_ONE_PHASE_COMMIT,
       DTX_STATE_NOTIFYING_ONE_PHASE_COMMIT}"

lemma undecided_consistent: "undecided b \<Longrightarrow> consistent b"
  by (auto simp: undecided_def consistent_def phase_def split: DtxState.split)

lemma undecided_dispatch:
  assumes "undecided b" "two_phase cmd" "\<not> commits cmd" "cmd \<noteq> DTX_PROTOCOL_COMMAND_PREPARE"
  shows "undecided (snd (doDispatchDtxProtocolCommand d cmd h track raiseError segs info b))"
proof -
  obtain r b' where e: "doDispatchDtxProtocolCommand d cmd h track raiseError segs info b = (r, b')" by fastforce
  have s: "same_session b b'" using doDispatch_cases [OF e] by simp
  have "safe (node b) (world b')"
    using doDispatch_cases [OF e] assms safe_undecided [of "node b" "world b" h cmd info segs] by (auto simp: undecided_def)
  then show ?thesis using s assms(1) by (simp add: e undecided_def same_session_def)
qed

lemma undecided_current:
  "\<lbrakk>undecided b; two_phase cmd; \<not> commits cmd; cmd \<noteq> DTX_PROTOCOL_COMMAND_PREPARE\<rbrakk> \<Longrightarrow>
   undecided (snd (currentDtxDispatchProtocolCommand d cmd raiseError b))"
  by (simp add: currentDtxDispatchProtocolCommand_def undecided_dispatch)

lemma undecided_try:
  assumes "undecided b" "two_phase cmd" "\<not> commits cmd" "cmd \<noteq> DTX_PROTOCOL_COMMAND_PREPARE"
  shows "undecided (snd (try_dispatch d cmd b))"
  using undecided_current [OF assms, of True] by (auto simp: try_dispatch_def catchS_def split: sum.split)

lemma undecided_bind: "undecided (snd r) \<Longrightarrow> (\<And>x b. undecided b \<Longrightarrow> undecided (snd (f x b))) \<Longrightarrow> undecided (snd (bindS r f))"
  by (cases "fst r") (auto simp: bindS_def)

lemma undecided_destroy: "undecided b \<Longrightarrow> undecided (b\<lparr>world := destroy_gangs d (world b)\<rparr>)"
  by (simp add: undecided_def safe_destroy)

lemma undecided_session [simp]:
  "undecided (setDistributedTransactionContext c b) = undecided b"
  "undecided (b\<lparr>MyTmGxactLocal := (MyTmGxactLocal b)\<lparr>dtxSegments := ss\<rparr>\<rparr>) = undecided b"
  by (simp_all add: undecided_def setDistributedTransactionContext_def)

lemma undecided_setState:
  "undecided b \<Longrightarrow> st \<in> {DTX_STATE_NOTIFYING_ABORT_NO_PREPARED, DTX_STATE_NOTIFYING_ABORT_SOME_PREPARED,
     DTX_STATE_NOTIFYING_ABORT_PREPARED, DTX_STATE_RETRY_ABORT_PREPARED, DTX_STATE_NOTIFYING_ONE_PHASE_COMMIT} \<Longrightarrow> undecided (setCurrentDtxState st b)"
  by (auto simp: undecided_def setCurrentDtxState_def)

lemma two_phase_aborts:
  "two_phase DTX_PROTOCOL_COMMAND_ABORT_NO_PREPARED" "two_phase DTX_PROTOCOL_COMMAND_ABORT_SOME_PREPARED"
  "two_phase DTX_PROTOCOL_COMMAND_ABORT_PREPARED" "two_phase DTX_PROTOCOL_COMMAND_RETRY_ABORT_PREPARED"
  "two_phase DTX_PROTOCOL_COMMAND_RECOVERY_ABORT_PREPARED" "two_phase DTX_PROTOCOL_COMMAND_COMMIT_ONEPHASE"
  "\<not> commits DTX_PROTOCOL_COMMAND_ABORT_NO_PREPARED" "\<not> commits DTX_PROTOCOL_COMMAND_ABORT_SOME_PREPARED"
  "\<not> commits DTX_PROTOCOL_COMMAND_ABORT_PREPARED" "\<not> commits DTX_PROTOCOL_COMMAND_RETRY_ABORT_PREPARED"
  "\<not> commits DTX_PROTOCOL_COMMAND_RECOVERY_ABORT_PREPARED" "\<not> commits DTX_PROTOCOL_COMMAND_COMMIT_ONEPHASE"
  by (simp_all add: two_phase_def commits_def)

lemma undecided_retry: "undecided b \<Longrightarrow> undecided (snd (retry_abort_prepared d n b))"
proof (induction n arbitrary: b)
  case (Suc n)
  let ?w = "b\<lparr>world := destroy_gangs d (world b)\<rparr>"
  let ?b = "?w\<lparr>MyTmGxactLocal := (MyTmGxactLocal ?w)\<lparr>dtxSegments := component_list d (world ?w)\<rparr>\<rparr>"
  have "undecided ?b" by (subst undecided_session(2)) (rule undecided_destroy [OF Suc.prems])
  then have t: "undecided (snd (try_dispatch d DTX_PROTOCOL_COMMAND_RETRY_ABORT_PREPARED ?b))"
    by (rule undecided_try) (simp_all add: two_phase_aborts)
  show ?case unfolding retry_abort_prepared.simps Let_def
    by (rule undecided_bind [OF t]) (simp add: Suc.IH)
qed simp

lemma undecided_retryAbortPrepared: "undecided b \<Longrightarrow> undecided (snd (retryAbortPrepared d b))"
  unfolding retryAbortPrepared_def by (rule undecided_bind [OF undecided_retry]) auto

lemma undecided_doNotifyingAbort: "undecided b \<Longrightarrow> undecided (snd (doNotifyingAbort d b))"
proof -
  assume u: "undecided b"
  have no: "undecided (snd (bindS (currentDtxDispatchProtocolCommand d DTX_PROTOCOL_COMMAND_ABORT_NO_PREPARED False b)
      (\<lambda>succeeded b. (Inr (), if \<not> succeeded then b\<lparr>world := destroy_gangs d (world b)\<rparr> else b))))"
    by (intro undecided_bind undecided_current u two_phase_aborts) (simp_all add: undecided_destroy)
  have some: "undecided (snd (bindS (try_dispatch d cmd b) (\<lambda>succeeded b.
       if \<not> succeeded then retryAbortPrepared d (setDistributedTransactionContext DTX_CONTEXT_QD_RETRY_PHASE_2
                      (setCurrentDtxState DTX_STATE_RETRY_ABORT_PREPARED b)) else (Inr (), b))))"
    if "cmd \<in> {DTX_PROTOCOL_COMMAND_ABORT_SOME_PREPARED, DTX_PROTOCOL_COMMAND_ABORT_PREPARED}" for cmd
    using that by (intro undecided_bind undecided_try u) (auto simp: two_phase_aborts intro!: undecided_retryAbortPrepared undecided_setState)
  show ?thesis unfolding doNotifyingAbort_def using u no some by simp
qed

lemma clear_frame:
  "wal (node (clearAndResetGxact b)) = wal (node b)" "flushed (node (clearAndResetGxact b)) = flushed (node b)"
  "dtm_redo_file (node (clearAndResetGxact b)) = dtm_redo_file (node b)"
  "world (clearAndResetGxact b) = world b" "dtx_state (MyTmGxactLocal (clearAndResetGxact b)) = DTX_STATE_NONE"
  by (simp_all add: clearAndResetGxact_def ProcArrayEndGxact_def resetGxact_def Let_def)

lemma undecided_clear: "undecided b \<Longrightarrow> undecided (clearAndResetGxact b)"
  using safe_cong [of "node (clearAndResetGxact b)" "node b"] by (simp add: undecided_def clear_frame commit_logged_def)

lemma consistent_clear: "safe (node b) (world b) \<Longrightarrow> consistent (clearAndResetGxact b)"
  using safe_cong [of "node (clearAndResetGxact b)" "node b"] by (simp add: consistent_def phase_def clear_frame)

lemma undecided_rollback_notify: "undecided b \<Longrightarrow> undecided (snd (rollback_notify d b))"
  unfolding rollback_notify_def
  by (auto intro!: undecided_bind undecided_clear undecided_destroy undecided_doNotifyingAbort)

lemma consistent_rollback:
  assumes "consistent b"
  shows "consistent (snd (rollbackDtxTransaction d b))"
proof (cases "dtx_context b = DTX_CONTEXT_QD_DISTRIBUTED_CAPABLE \<and> isCurrentDtxActivated b")
  case True
  have safe: "safe (node b) (world b)" and ph: "phase b" using assms True by (simp_all add: consistent_def)
  have und: "undecided (setCurrentDtxState st b)"
    if "\<not> commit_logged g (node b)" "st \<in> {DTX_STATE_NOTIFYING_ABORT_NO_PREPARED, DTX_STATE_NOTIFYING_ABORT_SOME_PREPARED,
     DTX_STATE_NOTIFYING_ABORT_PREPARED, DTX_STATE_RETRY_ABORT_PREPARED}" for st
    using that safe by (auto simp: undecided_def setCurrentDtxState_def)
  have nb: "\<not> commit_logged g (node b) \<Longrightarrow> st \<in> {DTX_STATE_NOTIFYING_ABORT_NO_PREPARED, DTX_STATE_NOTIFYING_ABORT_SOME_PREPARED,
     DTX_STATE_NOTIFYING_ABORT_PREPARED} \<Longrightarrow> consistent (snd (rollback_notify d (setCurrentDtxState st b)))" for st
    by (intro undecided_consistent undecided_rollback_notify und) auto
  have rt: "\<not> commit_logged g (node b) \<Longrightarrow> consistent (snd (bindS (retryAbortPrepared d (setCurrentDtxState DTX_STATE_RETRY_ABORT_PREPARED b))
      (\<lambda>_ b. (Inr (), clearAndResetGxact b))))"
    by (intro undecided_consistent undecided_bind undecided_retryAbortPrepared und) (auto intro: undecided_clear)
  have cl: "consistent (clearAndResetGxact b)" "consistent (clearAndResetGxact (b\<lparr>world := destroy_gangs d (world b)\<rparr>))"
    using safe safe_destroy by (auto intro!: consistent_clear)
  show ?thesis using True ph nb rt cl assms
    by (cases "dtx_state (MyTmGxactLocal b)") (auto simp: rollbackDtxTransaction_def phase_def)
next
  case False
  then have "rollbackDtxTransaction d b = (Inr (), b)" by (auto simp: rollbackDtxTransaction_def)
  then show ?thesis using assms by simp
qed

end

section \<open>What the master's aborts keep\<close>

lemma AtAbort_Twophase_frame:
  "wal (node (AtAbort_Twophase b)) = wal (node b)" "flushed (node (AtAbort_Twophase b)) = flushed (node b)"
  "dtm_redo_file (node (AtAbort_Twophase b)) = dtm_redo_file (node b)"
  "world (AtAbort_Twophase b) = world b" "MyTmGxact (AtAbort_Twophase b) = MyTmGxact b" "dtx_context (AtAbort_Twophase b) = dtx_context b"
  "MyTmGxactLocal (AtAbort_Twophase b) = MyTmGxactLocal b"
  by (simp_all add: AtAbort_Twophase_def RemoveGXact_def update_gxact_def split: option.split)

lemma PopTransactionBlock_frame:
  "node (snd (PopTransactionBlock b)) = node b" "world (snd (PopTransactionBlock b)) = world b"
  "MyTmGxact (snd (PopTransactionBlock b)) = MyTmGxact b" "dtx_context (snd (PopTransactionBlock b)) = dtx_context b"
  "MyTmGxactLocal (snd (PopTransactionBlock b)) = MyTmGxactLocal b"
  by (simp_all add: PopTransactionBlock_def split: sum.split)

context dtx_atomic
begin

lemma consistent_finish: "consistent b \<Longrightarrow> consistent (snd (finishDistributedTransactionContext b))"
  by (simp add: finishDistributedTransactionContext_def consistent_def setDistributedTransactionContext_def)

lemma consistent_abort_record:
  "consistent b \<Longrightarrow> consistent (b\<lparr>node := (node b)\<lparr>wal := wal (node b) @ [XLOG_XACT_ABORT x cs]\<rparr>\<rparr>)"
  by (rule consistent_log [of b _ "[XLOG_XACT_ABORT x cs]"])
    (auto simp: same_dtx_def is_commit_of_def is_forget_of_def consistent_def safe_def)

end

sublocale dtx_atomic \<subseteq> aborts: block_frame d consistent
proof unfold_locales
  fix b :: "'a Backend" assume c: "consistent b"
  note frame = consistent_frame [OF c] and shm = consistent_shm [OF c]
  show "consistent (b\<lparr>faults := fs\<rparr>)" "consistent (set_state ts b)" "consistent (set_blockState t b)" "consistent (set_xid pos xid b)"
    "consistent (b\<lparr>xact_stack := (xact_stack b)\<lparr>nodes := butlast (nodes (xact_stack b)) @ [nd]\<rparr>\<rparr>)"
    "consistent (snd (PopTransactionBlock b))" "consistent (b\<lparr>xact_stack := st\<rparr>)"
    "consistent (b\<lparr>xact_stack := AtSubAbort_childXids (xact_stack b)\<rparr>)" "consistent (b\<lparr>proc_exit_inprogress := True\<rparr>)"
    for fs ts t pos xid nd st
    by (rule frame; simp add: same_dtx_def set_state_def set_blockState_def set_xid_def PopTransactionBlock_frame)+
  show "consistent (AtAbort_Twophase b)" by (rule shm) (simp_all add: same_dtx_def AtAbort_Twophase_frame)
  show "consistent (b\<lparr>node := (node b)\<lparr>wal := wal (node b) @ [XLOG_XACT_ABORT x cs]\<rparr>\<rparr>)" for x cs
    by (rule consistent_abort_record [OF c])
  show "consistent (snd (rollbackDtxTransaction d b))" by (rule consistent_rollback [OF c])
  show "consistent (snd (finishDistributedTransactionContext b))" by (rule consistent_finish [OF c])
qed

section \<open>Commit\<close>

lemma may_fail_dtx:
  "node (snd (may_fail b)) = node b" "world (snd (may_fail b)) = world b" "MyTmGxact (snd (may_fail b)) = MyTmGxact b"
  "dtx_context (snd (may_fail b)) = dtx_context b" "MyTmGxactLocal (snd (may_fail b)) = MyTmGxactLocal b"
  by (simp_all add: may_fail_def ereport_def split: list.split Fault.split)

lemma may_panic_dtx:
  "node (snd (may_panic b)) = node b" "world (snd (may_panic b)) = world b" "MyTmGxact (snd (may_panic b)) = MyTmGxact b"
  "dtx_context (snd (may_panic b)) = dtx_context b" "MyTmGxactLocal (snd (may_panic b)) = MyTmGxactLocal b"
  "self (snd (may_panic b)) = self b"
  by (simp_all add: may_panic_def split: list.split)

definition same_node :: "'w Backend \<Rightarrow> 'w Backend \<Rightarrow> bool" where
  "same_node b b' \<longleftrightarrow> same_dtx b b' \<and> node b' = node b"

lemma same_node_bind: "same_node b0 (snd r) \<Longrightarrow> (\<And>x b. same_node b0 b \<Longrightarrow> same_node b0 (snd (f x b))) \<Longrightarrow> same_node b0 (snd (bindS r f))"
  by (cases "fst r") (auto simp: bindS_def)

lemma same_node_CommitSub: "same_node b0 b \<Longrightarrow> same_node b0 (snd (CommitSubTransaction b))"
  unfolding CommitSubTransaction_def
  by (intro same_node_bind)
    (auto simp: same_node_def same_dtx_def may_fail_dtx set_state_def PopTransactionBlock_frame split: sum.split)

lemma same_node_commit_subs: "same_node b0 b \<Longrightarrow> same_node b0 (snd (commit_subs t b))"
proof (induction t b rule: commit_subs.induct)
  case (1 t b)
  have "same_node b0 (snd (CommitSubTransaction b))" by (rule same_node_CommitSub [OF "1.prems"])
  then show ?case using "1.IH" by (subst commit_subs.simps) (cases "fst (CommitSubTransaction b)"; simp add: bindS_def)
qed

lemma current_gid:
  "dtx_context b \<noteq> DTX_CONTEXT_LOCAL_ONLY \<Longrightarrow> dtxFormGID (getDistributedTransactionTimestamp b) (getDistributedTransactionId b) = session_gid b"
  by (simp add: getDistributedTransactionTimestamp_def getDistributedTransactionId_def isDtxContext_def session_gid_def)

context dtx_atomic
begin

definition at_state :: "DtxState set \<Rightarrow> 'a Backend \<Rightarrow> bool" where
  "at_state T b \<longleftrightarrow> consistent b \<and> dtx_context b = DTX_CONTEXT_QD_DISTRIBUTED_CAPABLE \<and> dtx_state (MyTmGxactLocal b) \<in> T"

lemma at_state_frame: "at_state T b \<Longrightarrow> same_dtx b b' \<Longrightarrow> node b' = node b \<Longrightarrow> at_state T b'"
  using consistent_frame by (auto simp: at_state_def same_dtx_def)

lemma at_state_may_fail: "at_state T b \<Longrightarrow> at_state T (snd (may_fail b))"
  by (rule at_state_frame) (simp_all add: same_dtx_def may_fail_dtx)

text \<open>Every step keeps the invariant, and ends in a given condition if it succeeds.\<close>

definition leads :: "('a Backend \<Rightarrow> bool) \<Rightarrow> (Exit + 'b) \<times> 'a Backend \<Rightarrow> bool" where
  "leads Q r \<longleftrightarrow> consistent (snd r) \<and> (\<forall>x. fst r = Inr x \<longrightarrow> Q (snd r))"

lemma leads_bind: "leads Q r \<Longrightarrow> (\<And>x b. Q b \<Longrightarrow> consistent b \<Longrightarrow> leads R (f x b)) \<Longrightarrow> leads R (bindS r f)"
  by (cases "fst r") (auto simp: leads_def bindS_def)

lemma leads_pair: "consistent b \<Longrightarrow> Q b \<Longrightarrow> leads Q (x, b)" "consistent b \<Longrightarrow> leads Q (ereport l e b)" "consistent b \<Longrightarrow> leads Q (Inl ex, b)"
  by (simp_all add: leads_def)

lemma leads_may_fail: "at_state T b \<Longrightarrow> leads (at_state T) (may_fail b)"
  using at_state_may_fail by (auto simp: leads_def at_state_def)

lemma leads_doPrepareTransaction:
  assumes "at_state {DTX_STATE_ACTIVE_DISTRIBUTED} b"
  shows "leads (at_state {DTX_STATE_PREPARED}) (doPrepareTransaction d b)"
  unfolding doPrepareTransaction_def
proof (rule leads_bind [OF leads_may_fail [OF assms]])
  fix b :: "'a Backend" assume a: "at_state {DTX_STATE_ACTIVE_DISTRIBUTED} b"
  let ?b = "setCurrentDtxState DTX_STATE_PREPARING b"
  have c: "dtx_context b = DTX_CONTEXT_QD_DISTRIBUTED_CAPABLE" and safe: "safe (node b) (world b)"
    and nl: "\<not> commit_logged g (node b)" and rd: "ready_to_prepare b"
    using a by (auto simp: at_state_def consistent_def phase_def)
  have gid: "dtxFormGID (getDistributedTransactionTimestamp ?b) (getDistributedTransactionId ?b) = g"
    using current_gid [of ?b] c rd by (simp add: setCurrentDtxState_def session_gid_def ready_to_prepare_def)
  obtain r b' where e: "currentDtxDispatchProtocolCommand d DTX_PROTOCOL_COMMAND_PREPARE True ?b = (r, b')" by fastforce
  note cases = doDispatch_cases [OF e [unfolded currentDtxDispatchProtocolCommand_def gid]]
  have s: "same_session ?b b'" using cases by simp
  have w: "safe (node b) (world b') \<and> (r = Inr True \<longrightarrow> (\<forall>s \<in> S. prep (world b') s g))"
    using cases safe_prepare [OF safe nl, of "dtxSegments (MyTmGxactLocal b)" None] rd safe
    by (auto simp: ready_to_prepare_def setCurrentDtxState_def)
  have und: "undecided b'" using s w nl by (auto simp: undecided_def same_session_def setCurrentDtxState_def)
  have "at_state {DTX_STATE_PREPARED} (setCurrentDtxState DTX_STATE_PREPARED b')" if "r = Inr True"
    using that s w nl rd c
    by (auto simp: at_state_def consistent_def phase_def same_session_def setCurrentDtxState_def two_phases_def session_gid_def ready_to_prepare_def)
  then show "leads (at_state {DTX_STATE_PREPARED}) (bindS (currentDtxDispatchProtocolCommand d DTX_PROTOCOL_COMMAND_PREPARE True ?b) (\<lambda>succeeded b.
     if \<not> succeeded then ereport ERROR PrepareBroadcastFailed b else (Inr (), setCurrentDtxState DTX_STATE_PREPARED b)))"
    unfolding e using undecided_consistent [OF und] by (cases r) (auto simp: leads_pair at_state_def)
qed

text \<open>\<open>one\<close> says that the transaction may commit in one phase; it cannot where two segments or more have written.\<close>

definition may_commit :: "bool \<Rightarrow> 'a Backend \<Rightarrow> bool" where
  "may_commit one b \<longleftrightarrow> at_state {DTX_STATE_ACTIVE_DISTRIBUTED} b \<and> (one \<or> ExecutorDidWriteXLog b \<and> 2 \<le> card S)"

definition decided :: "bool \<Rightarrow> DtxState set" where
  "decided one = (if one then {DTX_STATE_PREPARED, DTX_STATE_ONE_PHASE_COMMIT} else {DTX_STATE_PREPARED})"

lemma leads_may_commit: "may_commit one b \<Longrightarrow> leads (may_commit one) (may_fail b)"
  using at_state_may_fail [of _ b]
  by (auto simp: leads_def at_state_def may_commit_def ExecutorDidWriteXLog_def)

lemma leads_prepareDtxTransaction:
  assumes "may_commit one b"
  shows "leads (at_state (decided one)) (prepareDtxTransaction d b)"
proof -
  have a: "at_state {DTX_STATE_ACTIVE_DISTRIBUTED} b" using assms by (simp add: may_commit_def)
  have "at_state {DTX_STATE_ONE_PHASE_COMMIT} (setCurrentDtxState DTX_STATE_ONE_PHASE_COMMIT b)"
    using a by (auto simp: at_state_def consistent_def phase_def setCurrentDtxState_def)
  moreover have "leads (at_state {DTX_STATE_PREPARED}) (doPrepareTransaction d b)" by (rule leads_doPrepareTransaction [OF a])
  moreover have "length (dtxSegments (MyTmGxactLocal b)) = card S"
    using a distinct_card by (force simp: at_state_def consistent_def phase_def ready_to_prepare_def)
  ultimately show ?thesis using assms
    by (auto simp: prepareDtxTransaction_def at_state_def isCurrentDtxActivated_def may_commit_def decided_def leads_def
        list_length_def split: if_splits)
qed

definition notifying :: "bool \<Rightarrow> 'a Backend \<Rightarrow> bool" where
  "notifying one b \<longleftrightarrow> at_state {DTX_STATE_INSERTED_COMMITTED} b \<and> commit_flushed g (node b) \<or> one \<and> at_state {DTX_STATE_ONE_PHASE_COMMIT} b"

lemma leads_local_commit:
  assumes "at_state {DTX_STATE_ONE_PHASE_COMMIT} b"
  shows "leads (notifying True) (bindS (XLogInsert (XLOG_XACT_COMMIT x cs) b) (\<lambda>_ b. XLogFlush b))"
proof -
  let ?b1 = "snd (may_panic b)"
  let ?b2 = "?b1\<lparr>node := (node ?b1)\<lparr>wal := wal (node ?b1) @ [XLOG_XACT_COMMIT x cs]\<rparr>\<rparr>"
  let ?b3 = "snd (may_panic ?b2)"
  let ?b4 = "?b3\<lparr>node := (node ?b3)\<lparr>flushed := length (wal (node ?b3))\<rparr>\<rparr>"
  have c: "consistent b" and st: "dtx_context b = DTX_CONTEXT_QD_DISTRIBUTED_CAPABLE" "dtx_state (MyTmGxactLocal b) = DTX_STATE_ONE_PHASE_COMMIT"
    using assms by (auto simp: at_state_def)
  have c1: "consistent ?b1" by (rule consistent_frame [OF c]) (simp_all add: same_dtx_def may_panic_dtx)
  have r: "list_all (\<lambda>r. \<not> is_commit_of g r \<and> \<not> is_forget_of g r) [XLOG_XACT_COMMIT x cs]" by (simp add: is_commit_of_def is_forget_of_def)
  have c2: "consistent ?b2" by (rule consistent_log [OF c1 _ _ r]) (use c1 in \<open>simp_all add: same_dtx_def consistent_def safe_def\<close>)
  have c3: "consistent ?b3" by (rule consistent_frame [OF c2]) (simp_all add: same_dtx_def may_panic_dtx)
  have c4: "consistent ?b4" by (rule consistent_log [OF c3, of _ "[]"]) (use c3 in \<open>simp_all add: same_dtx_def consistent_def safe_def\<close>)
  then have "notifying True ?b4" using st by (simp add: notifying_def at_state_def may_panic_dtx)
  then show ?thesis using c1 c2 c3 c4
    by (cases "fst (may_panic b)"; cases "fst (may_panic ?b2)") (simp_all add: leads_def XLogInsert_def XLogFlush_def bindS_def)
qed

lemma list_ex_snoc: "list_ex P (xs @ [x]) \<longleftrightarrow> list_ex P xs \<or> P x"
  by auto

lemma leads_distributed_commit:
  assumes "at_state {DTX_STATE_PREPARED} b"
  shows "leads (notifying one) (bindS (XLogInsert (XLOG_XACT_DISTRIBUTED_COMMIT x cs g y) (insertingDistributedCommitted b)) (\<lambda>_ b.
                 XLogFlush (insertedDistributedCommitted b)))"
proof -
  let ?r = "XLOG_XACT_DISTRIBUTED_COMMIT x cs g y"
  let ?b0 = "insertingDistributedCommitted b"
  let ?b1 = "snd (may_panic ?b0)"
  let ?b2 = "insertedDistributedCommitted (?b1\<lparr>node := (node ?b1)\<lparr>wal := wal (node ?b1) @ [?r]\<rparr>\<rparr>)"
  let ?b3 = "snd (may_panic ?b2)"
  let ?b4 = "?b3\<lparr>node := (node ?b3)\<lparr>flushed := length (wal (node ?b3))\<rparr>\<rparr>"
  have st: "dtx_context b = DTX_CONTEXT_QD_DISTRIBUTED_CAPABLE" and safe: "safe (node b) (world b)" and ph: "phase b"
    and prepared: "dtx_state (MyTmGxactLocal b) = DTX_STATE_PREPARED"
    using assms by (auto simp: at_state_def consistent_def)
  have nl: "\<not> commit_logged g (node b)" and two: "two_phases b" and pr: "\<forall>s \<in> S. prep (world b) s g"
    using ph prepared by (auto simp: phase_def)
  have nc: "\<not> comm (world b) s g" for s using safe nl commit_flushed_logged by (auto simp: safe_def)
  have c1: "consistent ?b1"
    using safe two pr by (simp add: consistent_def phase_def insertingDistributedCommitted_def setCurrentDtxState_def may_panic_dtx
        two_phases_def session_gid_def)
  have gid: "session_gid ?b2 = session_gid b"
    by (simp add: session_gid_def insertedDistributedCommitted_def insertingDistributedCommitted_def setCurrentDtxState_def may_panic_dtx Let_def)
  have b2: "wal (node ?b2) = wal (node b) @ [?r]" "flushed (node ?b2) = flushed (node b)" "dtm_redo_file (node ?b2) = dtm_redo_file (node b)" "world ?b2 = world b"
    "dtx_context ?b2 = dtx_context b" "dtx_state (MyTmGxactLocal ?b2) = DTX_STATE_INSERTED_COMMITTED"
    "dtxSegments (MyTmGxactLocal ?b2) = dtxSegments (MyTmGxactLocal b)"
    by (simp_all add: insertedDistributedCommitted_def insertingDistributedCommitted_def setCurrentDtxState_def may_panic_dtx Let_def)
  have l2: "commit_logged g (node ?b2)" using b2(1) by (simp add: commit_logged_def is_commit_of_def)
  have f2: "forget_logged g (node ?b2) = forget_logged g (node b)" unfolding forget_logged_def b2(1) by (simp add: list_ex_snoc is_forget_of_def)
  have "file_ok g (node ?b2)" by (rule flushed_mono(3) [OF b2(1)]) (use safe b2 in \<open>simp_all add: safe_def\<close>)
  then have s2: "safe (node ?b2) (world ?b2)" using safe nl nc pr f2 l2 b2(1,2,4) by (auto simp: safe_def)
  have c2: "consistent ?b2" using s2 l2 two by (simp add: consistent_def phase_def b2 two_phases_def gid)
  have c3: "consistent ?b3" by (rule consistent_frame [OF c2]) (simp_all add: same_dtx_def may_panic_dtx)
  have c4: "consistent ?b4" by (rule consistent_log [OF c3, of _ "[]"]) (use c3 in \<open>simp_all add: same_dtx_def consistent_def safe_def\<close>)
  have "commit_flushed g (node ?b4)" using l2 by (simp add: commit_flushed_def commit_logged_def may_panic_dtx)
  then have "notifying one ?b4" using c4 st b2 by (simp add: notifying_def at_state_def may_panic_dtx)
  then show ?thesis using c1 c2 c3 c4
    by (cases "fst (may_panic ?b0)"; cases "fst (may_panic ?b2)") (simp_all add: leads_def XLogInsert_def XLogFlush_def bindS_def)
qed

lemma leads_RecordTransactionCommit:
  assumes "at_state (decided one) b"
  shows "leads (notifying one) (RecordTransactionCommit b)"
proof (cases "dtx_state (MyTmGxactLocal b) = DTX_STATE_PREPARED")
  case True
  then have a: "at_state {DTX_STATE_PREPARED} b" using assms by (simp add: at_state_def)
  then have "dtxFormGID (getDistributedTransactionTimestamp b) (getDistributedTransactionId b) = g"
    using current_gid [of b] by (auto simp: at_state_def consistent_def phase_def two_phases_def)
  then show ?thesis using True leads_distributed_commit [OF a]
    by (simp add: RecordTransactionCommit_def Let_def isPreparedDtxTransaction_def)
next
  case False
  then have a: "at_state {DTX_STATE_ONE_PHASE_COMMIT} b" and one using assms by (auto simp: at_state_def decided_def split: if_splits)
  then show ?thesis using False leads_local_commit [OF a]
    by (auto simp: RecordTransactionCommit_def Let_def isPreparedDtxTransaction_def leads_def notifying_def at_state_def)
qed

definition committing :: "'a Backend \<Rightarrow> bool" where
  "committing b \<longleftrightarrow> safe (node b) (world b) \<and> commit_flushed g (node b) \<and> two_phases b \<and>
     dtx_context b \<in> {DTX_CONTEXT_QD_DISTRIBUTED_CAPABLE, DTX_CONTEXT_QD_RETRY_PHASE_2} \<and>
     dtx_state (MyTmGxactLocal b) \<in> {DTX_STATE_NOTIFYING_COMMIT_PREPARED, DTX_STATE_RETRY_COMMIT_PREPARED}"

abbreviation all_committed :: "'a Backend \<Rightarrow> bool" where
  "all_committed b \<equiv> \<forall>s \<in> S. comm (world b) s g"

lemma committing_consistent: "committing b \<Longrightarrow> consistent b"
  by (auto simp: committing_def consistent_def phase_def)

lemma committing_try:
  assumes "committing b" "commits cmd"
  shows "committing (snd (try_dispatch d cmd b))" "fst (try_dispatch d cmd b) = Inr True \<Longrightarrow> all_committed (snd (try_dispatch d cmd b))"
proof -
  have gid: "dtxFormGID (getDistributedTransactionTimestamp b) (getDistributedTransactionId b) = g"
    using current_gid [of b] assms(1) by (auto simp: committing_def two_phases_def)
  obtain r b' where e: "currentDtxDispatchProtocolCommand d cmd True b = (r, b')" by fastforce
  note cases = doDispatch_cases [OF e [unfolded currentDtxDispatchProtocolCommand_def gid]]
  have safe: "safe (node b) (world b)" "commit_flushed g (node b)" and seg: "S \<subseteq> set (dtxSegments (MyTmGxactLocal b))"
    using assms(1) by (auto simp: committing_def two_phases_def)
  have w: "safe (node b) (world b') \<and> (r = Inr True \<longrightarrow> all_committed b')"
    using cases safe_commit [OF safe assms(2)] safe seg by fastforce
  have "committing b'" using cases w assms(1)
    by (auto simp: committing_def same_session_def two_phases_def session_gid_def)
  then show "committing (snd (try_dispatch d cmd b))" "fst (try_dispatch d cmd b) = Inr True \<Longrightarrow> all_committed (snd (try_dispatch d cmd b))"
    using w by (auto simp: try_dispatch_def e catchS_def split: sum.splits if_splits)
qed

lemma committing_retry:
  assumes "committing b"
  shows "committing (snd (retry_commit_prepared d n b)) \<and>
     (fst (retry_commit_prepared d n b) = Inr True \<longrightarrow> all_committed (snd (retry_commit_prepared d n b)))"
  using assms
proof (induction n arbitrary: b)
  case (Suc n)
  let ?b = "b\<lparr>world := destroy_gangs d (world b)\<rparr>"
  let ?t = "try_dispatch d DTX_PROTOCOL_COMMAND_RETRY_COMMIT_PREPARED ?b"
  have b: "committing ?b" using Suc.prems safe_destroy by (simp add: committing_def two_phases_def session_gid_def)
  have t: "committing (snd ?t)" "fst ?t = Inr True \<Longrightarrow> all_committed (snd ?t)"
    by (rule committing_try [OF b]; simp add: commits_def)+
  show ?case using t Suc.IH by (cases "fst ?t") (auto simp: bindS_def)
qed simp

definition resolved :: "bool \<Rightarrow> 'a Backend \<Rightarrow> bool" where
  "resolved one b \<longleftrightarrow> all_committed b \<or> one \<and> \<not> commit_logged g (node b)"

lemma leads_doInsertForgetCommitted:
  assumes "committing b" "all_committed b"
  shows "leads (resolved one) (doInsertForgetCommitted b)"
proof -
  let ?b0 = "setCurrentDtxState DTX_STATE_INSERTING_FORGET_COMMITTED b"
  let ?r = "XLOG_XACT_DISTRIBUTED_FORGET (dtxFormGID (getDistributedTransactionTimestamp ?b0) (getDistributedTransactionId ?b0))
                 (getDistributedTransactionId ?b0)"
  let ?b1 = "snd (may_panic ?b0)"
  let ?b2 = "?b1\<lparr>node := (node ?b1)\<lparr>wal := wal (node ?b1) @ [?r]\<rparr>\<rparr>"
  let ?b3 = "setCurrentDtxState DTX_STATE_INSERTED_FORGET_COMMITTED ?b2"
  let ?b4 = "?b3\<lparr>MyTmGxact := (MyTmGxact ?b3)\<lparr>includeInCkpt := False\<rparr>\<rparr>"
  have safe: "safe (node b) (world b)" and gid: "session_gid b = g" and f: "commit_flushed g (node b)"
    using assms(1) by (auto simp: committing_def two_phases_def)
  have c1: "consistent ?b1"
    using safe gid assms(2) by (simp add: consistent_def phase_def may_panic_dtx setCurrentDtxState_def session_gid_def)
  have b4: "node ?b4 = (node b)\<lparr>wal := wal (node b) @ [?r]\<rparr>" "world ?b4 = world b" "session_gid ?b4 = session_gid b"
      "dtx_state (MyTmGxactLocal ?b4) = DTX_STATE_INSERTED_FORGET_COMMITTED"
    by (simp_all add: setCurrentDtxState_def may_panic_dtx session_gid_def)
  have l: "commit_logged g (node ?b4) = commit_logged g (node b)" unfolding commit_logged_def b4 by (simp add: list_ex_snoc is_commit_of_def)
  have fl: "commit_flushed g (node ?b4)"
    by (rule flushed_mono(1) [of _ "node b" "[?r]"]) (use b4 safe f in \<open>simp_all add: safe_def\<close>)
  have "file_ok g (node ?b4)" by (rule flushed_mono(3) [of _ "node b" "[?r]"]) (use b4 safe in \<open>simp_all add: safe_def\<close>)
  then have "safe (node ?b4) (world ?b4)" using safe assms(2) l fl unfolding safe_def b4(2) by (simp add: b4(1))
  then have "consistent ?b4" using gid assms(2) b4 by (simp add: consistent_def phase_def)
  moreover have "resolved one ?b4" using assms(2) b4 by (simp add: resolved_def)
  ultimately show ?thesis using c1
    by (cases "fst (may_panic ?b0)") (simp_all add: leads_def doInsertForgetCommitted_def XLogInsert_def bindS_def Let_def)
qed

lemma leads_doNotifyingCommitPrepared:
  assumes "at_state {DTX_STATE_INSERTED_COMMITTED} b" "commit_flushed g (node b)"
  shows "leads (resolved one) (doNotifyingCommitPrepared d b)"
proof -
  let ?b = "setCurrentDtxState DTX_STATE_NOTIFYING_COMMIT_PREPARED b"
  let ?t = "try_dispatch d DTX_PROTOCOL_COMMAND_COMMIT_PREPARED ?b"
  have "committing ?b" using assms
    by (auto simp: at_state_def consistent_def phase_def committing_def setCurrentDtxState_def two_phases_def session_gid_def)
  then have t: "committing (snd ?t)" "fst ?t = Inr True \<Longrightarrow> all_committed (snd ?t)"
    by (rule committing_try; simp add: commits_def)+
  have r: "committing b \<Longrightarrow> committing (setDistributedTransactionContext DTX_CONTEXT_QD_RETRY_PHASE_2 (setCurrentDtxState DTX_STATE_RETRY_COMMIT_PREPARED b))"
    for b by (simp add: committing_def setDistributedTransactionContext_def setCurrentDtxState_def two_phases_def session_gid_def)
  let ?Q = "\<lambda>succeeded b. if succeeded then (Inr True, b)
            else retry_commit_prepared d (nat (dtx_phase2_retry_count b))
                   (setDistributedTransactionContext DTX_CONTEXT_QD_RETRY_PHASE_2
                     (setCurrentDtxState DTX_STATE_RETRY_COMMIT_PREPARED b))"
  let ?u = "bindS ?t ?Q"
  have u: "committing (snd ?u) \<and> (fst ?u = Inr True \<longrightarrow> all_committed (snd ?u))"
    using t committing_retry [OF r [OF t(1)]] by (cases "fst ?t") (auto simp: bindS_def)
  have assoc: "doNotifyingCommitPrepared d b = bindS ?u (\<lambda>succeeded b. if \<not> succeeded then ereport PANIC CommitPreparedBroadcastFailed b
     else doInsertForgetCommitted b)"
    by (cases "fst ?t") (simp_all add: doNotifyingCommitPrepared_def bindS_def)
  obtain ru bu where uu: "?u = (ru, bu)" by fastforce
  show ?thesis unfolding assoc uu using u [unfolded uu]
    by (cases ru) (auto intro!: leads_pair leads_doInsertForgetCommitted committing_consistent)
qed

lemma leads_doNotifyingOnePhaseCommit:
  assumes "at_state {DTX_STATE_ONE_PHASE_COMMIT} b"
  shows "leads (resolved True) (doNotifyingOnePhaseCommit d b)"
proof -
  let ?b = "setCurrentDtxState DTX_STATE_NOTIFYING_ONE_PHASE_COMMIT b"
  have b: "undecided b" using assms by (auto simp: at_state_def consistent_def phase_def undecided_def)
  obtain r b' where e: "currentDtxDispatchProtocolCommand d DTX_PROTOCOL_COMMAND_COMMIT_ONEPHASE True ?b = (r, b')" by fastforce
  have "undecided ?b" by (rule undecided_setState [OF b]) simp
  then have "undecided b'"
    using undecided_current [of ?b DTX_PROTOCOL_COMMAND_COMMIT_ONEPHASE True] by (simp add: two_phase_aborts e)
  then show ?thesis using b undecided_consistent
    by (cases r) (auto simp: doNotifyingOnePhaseCommit_def e leads_def resolved_def undecided_def)
qed

lemma resolved_clear: "resolved one b \<Longrightarrow> resolved one (clearAndResetGxact b)"
  by (simp add: resolved_def clear_frame commit_logged_def)

lemma leads_notification:
  assumes "notifying one b"
  shows "leads (\<lambda>b'. resolved one b' \<and> dtx_state (MyTmGxactLocal b') = DTX_STATE_NONE) (if notifyCommittedDtxTransactionIsNeeded b
            then bindS (notifyCommittedDtxTransaction d b) (\<lambda>_ b. (Inr (), ClearTransactionState b)) else (Inr (), b))"
proof -
  have n: "leads (resolved one) (notifyCommittedDtxTransaction d b)"
    using assms leads_doNotifyingCommitPrepared leads_doNotifyingOnePhaseCommit
    by (auto simp: notifying_def at_state_def notifyCommittedDtxTransaction_def)
  have "leads (\<lambda>b'. resolved one b' \<and> dtx_state (MyTmGxactLocal b') = DTX_STATE_NONE)
      (bindS (notifyCommittedDtxTransaction d b) (\<lambda>_ b. (Inr (), ClearTransactionState b)))"
  proof (rule leads_bind [OF n])
    show "resolved one b \<Longrightarrow> consistent b \<Longrightarrow> leads (\<lambda>b'. resolved one b' \<and> dtx_state (MyTmGxactLocal b') = DTX_STATE_NONE)
        (Inr (), ClearTransactionState b)" for b
      using consistent_clear [of b] resolved_clear [of one b]
      by (simp add: leads_def ClearTransactionState_def clearAndResetGxact_def [symmetric] clear_frame consistent_def)
  qed
  moreover have "notifyCommittedDtxTransactionIsNeeded b"
    using assms by (auto simp: notifying_def at_state_def notifyCommittedDtxTransactionIsNeeded_def isCurrentDtxActivated_def)
  ultimately show ?thesis by simp
qed

lemma leads_CommitTransaction:
  assumes "may_commit one b"
  shows "leads (resolved one) (CommitTransaction d b)"
proof -
  have same: "same_dtx b (set_state st b)" "node (set_state st b) = node b"
    "same_dtx b (b\<lparr>xact_stack := xs\<rparr>)" "resolved one (set_state st b) = resolved one b" "resolved one (b\<lparr>xact_stack := xs\<rparr>) = resolved one b"
      for b st xs by (simp_all add: same_dtx_def set_state_def resolved_def)
  have rec: "leads (notifying one) (RecordTransactionCommit (set_state TRANS_COMMIT b))"
    if "at_state (decided one) b" for b
    by (intro leads_RecordTransactionCommit at_state_frame [OF that]) (simp_all add: same)
  have fin: "leads (resolved one) (finishDistributedTransactionContext b)"
    if "resolved one b \<and> dtx_state (MyTmGxactLocal b) = DTX_STATE_NONE" "consistent b" for b
    using that consistent_finish [of b]
    by (simp add: leads_def finishDistributedTransactionContext_def resolved_def setDistributedTransactionContext_def)
  have out: "leads (resolved one) (Inr (), set_state TRANS_DEFAULT (b\<lparr>xact_stack := xs\<rparr>))" if "resolved one b" "consistent b" for b xs
    using that aborts.set_state [OF consistent_frame [OF that(2) same(3)]] by (simp add: leads_def same)
  show ?thesis unfolding CommitTransaction_def
    by (intro leads_bind [OF leads_may_commit [OF assms]] leads_bind [OF leads_prepareDtxTransaction] leads_bind [OF leads_may_fail]
        leads_bind [OF rec] leads_bind [OF leads_notification] leads_bind [OF fin] out; assumption)
qed

lemma leads_commit_and_idle:
  assumes "may_commit one b"
  shows "leads (resolved one) (commit_and_idle d b)"
  unfolding commit_and_idle_def
  by (rule leads_bind [OF leads_CommitTransaction [OF assms]])
    (auto simp: leads_def resolved_def set_blockState_def dest: aborts.set_blockState [of _ TBLOCK_DEFAULT])

text \<open>The command that ends a block, with the subtransactions it commits first.\<close>

lemma leads_CommitTransactionCommand:
  assumes a: "at_state {DTX_STATE_ACTIVE_DISTRIBUTED} b" and e: "ending TBLOCK_END (blocks b) \<or> blockState (CurrentBlock b) = TBLOCK_STARTED \<and> tl (blocks b) = []"
    and one: "one \<or> executorDidWriteXLog (last (blocks b)) \<and> 2 \<le> card S" and ne: "blocks b \<noteq> []"
  shows "leads (resolved one) (CommitTransactionCommand d b)"
proof -
  consider (last) "blockState (CurrentBlock b) \<in> {TBLOCK_STARTED, TBLOCK_END}" "tl (blocks b) = []"
    | (sub) "blockState (CurrentBlock b) = TBLOCK_SUBCOMMIT" "ending TBLOCK_END (blocks b)"
    using e by (cases "blocks b") (auto simp: ending_def split: if_splits)
  then show ?thesis
  proof cases
    case last
    then have "CommitTransactionCommand d b = commit_and_idle d b" by (subst CommitTransactionCommand.simps) auto
    moreover have "may_commit one b" using a one last(2) ne by (cases "blocks b") (auto simp: may_commit_def ExecutorDidWriteXLog_def)
    ultimately show ?thesis using leads_commit_and_idle by simp
  next
    case sub
    let ?s = "commit_subs TBLOCK_SUBCOMMIT b"
    have "same_node b (snd ?s)" by (rule same_node_commit_subs) (simp add: same_node_def same_dtx_def)
    then have s: "at_state {DTX_STATE_ACTIVE_DISTRIBUTED} (snd ?s)" using at_state_frame [OF a] by (simp add: same_node_def)
    have "blocks (snd ?s) = [last (blocks b)] \<and> blockState (last (blocks b)) = TBLOCK_END" if "fst ?s = Inr u" for u
      using commit_subs_blocks [OF that sub(2)] sub(2) by (simp add: ending_def)
    then show ?thesis unfolding CommitTransactionCommand_SUBCOMMIT [OF sub(1)]
      using s leads_commit_and_idle [of one "snd ?s"] one
      by (cases "fst ?s") (auto simp: bindS_def leads_def at_state_def may_commit_def ExecutorDidWriteXLog_def)
  qed
qed

end

end
