(* ===== verification/DtxLife.thy ===== *)
theory DtxLife
  imports DtxAtomic
begin

text \<open>
  The life of a distributed transaction from the attempt to commit it: errors, exits, crashes of the
  master with redo of its log, and attempts to recover, in any order.
\<close>

section \<open>The master starts again\<close>

definition FirstDistributedTransactionId :: DistributedTransactionId where "FirstDistributedTransactionId = 1"

definition tmShmemInit :: "DistributedTransactionTimeStamp \<Rightarrow> Node \<Rightarrow> Node" where
  "tmShmemInit t n = n\<lparr>max_tm_gxacts := max_prepared_xacts n, shmDistribTimeStamp := Some t,
     shmGIDSeq := FirstDistributedTransactionId, latestCompletedDxid := InvalidDistributedTransactionId,
     shmDtmStarted := False, shmCommittedGxactArray := []\<rparr>"

definition set_role :: "GpRoleValue \<Rightarrow> 'w Backend \<Rightarrow> 'w Backend" where
  "set_role ro b = b\<lparr>self := (self b)\<lparr>Gp_role := ro\<rparr>\<rparr>"

text \<open>The startup process redoes the log; \<open>utility\<close> says that the master starts in utility mode.\<close>

definition start_master :: "bool \<Rightarrow> DistributedTransactionTimeStamp \<Rightarrow> nat \<Rightarrow> 'w Backend \<Rightarrow> (Exit + unit) \<times> 'w Backend" where
  "start_master utility t k b =
     (let n = tmShmemInit t (restarted k (node b));
          p = set_role (if utility then GP_ROLE_UTILITY else GP_ROLE_DISPATCH) (new_process (b\<lparr>node := n\<rparr>))
      in redo_all (wal n) p)"

section \<open>Steps\<close>

text \<open>
  A transaction with gid \<open>g\<close> on the master, from the command that ends it: the status of its session
  or of the node, and the state. Every step that executes code has internal calls that may fail,
  \<open>others\<close> are records that other sessions write to the log, and the master may crash at every moment.
\<close>

datatype Status = Working | Committed | Failed | Aborted | Exiting | Gone | Down | UtilityMode | Recovering | Recovered

fun status_after :: "Status \<Rightarrow> Exit + unit \<Rightarrow> Status" where
  "status_after st (Inr _) = st"
| "status_after st (Inl (ERROR, _)) = Failed"
| "status_after st (Inl (FATAL, _)) = Exiting"
| "status_after st (Inl (PANIC, _)) = Down"

inductive life :: "'w Dispatcher \<Rightarrow> string \<Rightarrow> Status \<times> 'w Backend \<Rightarrow> Status \<times> 'w Backend \<Rightarrow> bool" for d g where
  commit: "CommitTransactionCommand d (b\<lparr>faults := fs\<rparr>) = (x, b') \<Longrightarrow> life d g (Working, b) (status_after Committed x, b')"
| error: "life d g (Working, b) (Failed, b)"
| abort: "after_error d ERRORDATA_STACK_SIZE (b\<lparr>faults := fs\<rparr>) = (x, b') \<Longrightarrow> life d g (Failed, b) (status_after Aborted x, b')"
| terminate: "st \<in> {Working, Committed, Failed, Aborted} \<Longrightarrow> life d g (st, b) (Exiting, b)"
| exit: "ShutdownPostgres d (b\<lparr>faults := fs\<rparr>) = (x, b') \<Longrightarrow>
    life d g (Exiting, b) (if status_after Gone x = Down then Down else Gone, b')"
| crash: "life d g (st, b) (Down, b)"
| start: "start_master utility t k b = (x, b') \<Longrightarrow>
    life d g (Down, b) (case x of Inr _ \<Rightarrow> if utility then UtilityMode else Recovering | Inl _ \<Rightarrow> Down, b')"
| recover: "recoverTM d (b\<lparr>faults := fs\<rparr>) = (x, b') \<Longrightarrow>
    life d g (Recovering, b) (case status_after Recovered x of Recovered \<Rightarrow> (Recovered, b') | Down \<Rightarrow> (Down, b')
      | _ \<Rightarrow> (Recovering, new_process b'))"
| others: "st \<noteq> Down \<Longrightarrow> list_all (\<lambda>r. \<not> is_commit_of g r \<and> \<not> is_forget_of g r) rs \<Longrightarrow>
    flushed (node b) \<le> f \<Longrightarrow> f \<le> length (wal (node b) @ rs) \<Longrightarrow>
    life d g (st, b) (st, b\<lparr>node := (node b)\<lparr>wal := wal (node b) @ rs, flushed := f\<rparr>\<rparr>)"

section \<open>Redo\<close>

lemma set_forget_gid: "set (forget_gid h ls) \<subseteq> set ls" "l \<in> set ls \<Longrightarrow> log_gid l \<noteq> h \<Longrightarrow> l \<in> set (forget_gid h ls)"
proof (induction ls)
  case (Cons x xs)
  have "insert (last xs) (set (butlast xs)) = set xs" if "xs \<noteq> []" using that by (cases xs rule: rev_cases) auto
  { case 1 then show ?case using Cons.IH \<open>xs \<noteq> [] \<Longrightarrow> _\<close> by auto }
  { case 2 then show ?case using Cons.IH \<open>xs \<noteq> [] \<Longrightarrow> _\<close> by auto }
qed simp_all

lemma forget_flushed_logged: "forget_flushed g n \<Longrightarrow> forget_logged g n"
  by (auto simp: forget_flushed_def forget_logged_def list_ex_iff dest: in_set_takeD)

context dtx_atomic
begin

text \<open>The array of committed transactions against the records \<open>p\<close> of a log.\<close>

definition array_ok :: "XLogRecord list \<Rightarrow> TMGXACT_LOG list \<Rightarrow> bool" where
  "array_ok p ls \<longleftrightarrow> (g \<in> log_gid ` set ls \<longrightarrow> list_ex (is_commit_of g) p) \<and>
     (list_ex (is_commit_of g) p \<and> \<not> list_ex (is_forget_of g) p \<longrightarrow> g \<in> log_gid ` set ls)"

definition redoing :: "XLogRecord list \<Rightarrow> 'a Backend \<Rightarrow> bool" where
  "redoing p b \<longleftrightarrow> safe (node b) (world b) \<and> flushed (node b) = length (wal (node b)) \<and>
     (Gp_role (self b) \<noteq> GP_ROLE_UTILITY \<longrightarrow> array_ok p (shmCommittedGxactArray (node b)))"

lemma safe_array: "safe (n\<lparr>shmCommittedGxactArray := ls\<rparr>) w = safe n w"
  by (rule safe_cong) simp_all

lemma safe_file:
  assumes "safe n w" "log_gid l = g \<Longrightarrow> if committed then commit_flushed g n else forget_flushed g n"
  shows "safe (n\<lparr>dtm_redo_file := dtm_redo_file n @ [(committed, l)]\<rparr>) w"
proof -
  let ?n = "n\<lparr>dtm_redo_file := dtm_redo_file n @ [(committed, l)]\<rparr>"
  have "commit_logged g ?n = commit_logged g n" "commit_flushed g ?n = commit_flushed g n"
    "forget_logged g ?n = forget_logged g n" "forget_flushed g ?n = forget_flushed g n"
    by (simp_all add: commit_logged_def commit_flushed_def forget_logged_def forget_flushed_def)
  then show ?thesis using assms by (auto simp: safe_def file_ok_def)
qed

lemma redo_commit_frame:
  assumes "redoDistributedCommitRecord l b = (x, b')"
  shows "world b' = world b" "self b' = self b" "wal (node b') = wal (node b)" "flushed (node b') = flushed (node b)"
    "dtm_redo_file (node b') = dtm_redo_file (node b) \<or> dtm_redo_file (node b') = dtm_redo_file (node b) @ [(True, l)]"
    "x = Inr u \<Longrightarrow> Gp_role (self b) \<noteq> GP_ROLE_UTILITY \<Longrightarrow>
       log_gid ` set (shmCommittedGxactArray (node b')) = insert (log_gid l) (log_gid ` set (shmCommittedGxactArray (node b)))"
    "log_gid ` set (shmCommittedGxactArray (node b')) \<subseteq> insert (log_gid l) (log_gid ` set (shmCommittedGxactArray (node b)))"
    "log_gid ` set (shmCommittedGxactArray (node b)) \<subseteq> log_gid ` set (shmCommittedGxactArray (node b'))"
  using assms
  by (auto simp: redoDistributedCommitRecord_def UtilityModeSaveRedo_def bindS_def may_fail_def ereport_def list_ex_iff
      intro: rev_image_eqI split: if_splits sum.splits list.splits Fault.splits)

lemma redo_forget_frame:
  assumes "redoDistributedForgetCommitRecord l b = (x, b')"
  shows "world b' = world b" "self b' = self b" "wal (node b') = wal (node b)" "flushed (node b') = flushed (node b)"
    "dtm_redo_file (node b') = dtm_redo_file (node b) \<or> dtm_redo_file (node b') = dtm_redo_file (node b) @ [(False, l)]"
    "set (shmCommittedGxactArray (node b')) \<subseteq> set (shmCommittedGxactArray (node b))"
    "h \<noteq> log_gid l \<Longrightarrow> h \<in> log_gid ` set (shmCommittedGxactArray (node b)) \<Longrightarrow> h \<in> log_gid ` set (shmCommittedGxactArray (node b'))"
  using assms set_forget_gid [where h = "log_gid l" and ls = "shmCommittedGxactArray (node b)"]
  by (auto simp: redoDistributedForgetCommitRecord_def UtilityModeSaveRedo_def bindS_def may_fail_def ereport_def
      split: if_splits sum.splits list.splits Fault.splits)


lemma crack_state: "dtxCrackOpenGid gid b = (fst (dtxCrackOpenGid gid b), b)"
  by (simp add: dtxCrackOpenGid_def ereport_def split: option.split prod.split)

lemma redoing_xact_redo:
  assumes red: "redoing p b" and w: "wal (node b) = p @ r # rs" and e: "xact_redo r b = (x, b')"
  shows "safe (node b') (world b') \<and> flushed (node b') = flushed (node b) \<and> wal (node b') = wal (node b) \<and> world b' = world b \<and>
     self b' = self b \<and> (x = Inr () \<longrightarrow> redoing (p @ [r]) b')"
proof -
  have safe: "safe (node b) (world b)" and fl: "flushed (node b) = length (wal (node b))"
    and arr: "Gp_role (self b) \<noteq> GP_ROLE_UTILITY \<Longrightarrow> array_ok p (shmCommittedGxactArray (node b))"
    using red by (auto simp: redoing_def)
  have same: ?thesis if "b' = b" "\<not> is_commit_of g r" "\<not> is_forget_of g r"
    using that safe fl arr by (simp add: redoing_def array_ok_def)
  show ?thesis
  proof (cases r)
    case (XLOG_XACT_DISTRIBUTED_COMMIT y cs h z)
    let ?l = "\<lparr>log_gid = h, log_gxid = z\<rparr>"
    have c: "is_commit_of g r = (h = g)" "\<not> is_forget_of g r" by (simp_all add: XLOG_XACT_DISTRIBUTED_COMMIT is_commit_of_def is_forget_of_def)
    consider "b' = b" "x \<noteq> Inr ()" | "redoDistributedCommitRecord ?l b = (x, b')"
      using e crack_state [of h b]
      by (cases "fst (dtxCrackOpenGid h b)") (auto simp: XLOG_XACT_DISTRIBUTED_COMMIT xact_redo_distributed_commit_def split: prod.splits sum.splits if_splits)
    then show ?thesis
    proof cases
      case 2
      note f = redo_commit_frame [OF 2]
      have "commit_flushed g (node b)" if "h = g" using c that w fl by (simp add: commit_flushed_def)
      then have s': "safe (node b') (world b')"
        using safe_cong [of "node b'" "node b"] safe_cong [of "node b'" "(node b)\<lparr>dtm_redo_file := dtm_redo_file (node b) @ [(True, ?l)]\<rparr>"]
          safe_file [OF safe, of ?l True] f(3-5) safe by (auto simp: f(1))
      have "redoing (p @ [r]) b'" if "x = Inr ()"
        unfolding redoing_def
      proof (intro conjI impI)
        show "safe (node b') (world b')" "flushed (node b') = length (wal (node b'))" using s' f fl by simp_all
        assume "Gp_role (self b') \<noteq> GP_ROLE_UTILITY"
        then show "array_ok (p @ [r]) (shmCommittedGxactArray (node b'))"
          using arr f(2) f(6) [OF that] c by (auto simp: array_ok_def)
      qed
      then show ?thesis using s' f by simp
    qed (use safe in simp)
  next
    case (XLOG_XACT_DISTRIBUTED_FORGET h z)
    let ?l = "\<lparr>log_gid = h, log_gxid = z\<rparr>"
    have c: "is_forget_of g r = (h = g)" "\<not> is_commit_of g r" by (simp_all add: XLOG_XACT_DISTRIBUTED_FORGET is_commit_of_def is_forget_of_def)
    have e': "redoDistributedForgetCommitRecord ?l b = (x, b')" using e by (simp add: XLOG_XACT_DISTRIBUTED_FORGET)
    note f = redo_forget_frame [OF e']
    have "forget_flushed g (node b)" if "h = g" using c that w fl by (simp add: forget_flushed_def)
    then have s': "safe (node b') (world b')"
      using safe_cong [of "node b'" "node b"] safe_cong [of "node b'" "(node b)\<lparr>dtm_redo_file := dtm_redo_file (node b) @ [(False, ?l)]\<rparr>"]
        safe_file [OF safe, of ?l False] f(3-5) safe by (auto simp: f(1))
    have "redoing (p @ [r]) b'"
      unfolding redoing_def
    proof (intro conjI impI)
      show "safe (node b') (world b')" "flushed (node b') = length (wal (node b'))" using s' f fl by simp_all
      assume "Gp_role (self b') \<noteq> GP_ROLE_UTILITY"
      then show "array_ok (p @ [r]) (shmCommittedGxactArray (node b'))"
        using arr f(2,6) f(7) [of g] c by (auto simp: array_ok_def)
    qed
    then show ?thesis using s' f by simp
  qed (rule same; use e in \<open>simp add: is_commit_of_def is_forget_of_def\<close>)+
qed

lemma redoing_redo_all:
  assumes "redoing p b" "wal (node b) = p @ rs" "redo_all rs b = (x, b')"
  shows "safe (node b') (world b') \<and> flushed (node b') = flushed (node b) \<and> wal (node b') = wal (node b) \<and> world b' = world b \<and>
     self b' = self b \<and> (x = Inr () \<longrightarrow> redoing (p @ rs) b')"
  using assms
proof (induction rs arbitrary: p b)
  case (Cons r rs)
  obtain y b1 where r: "xact_redo r b = (y, b1)" by fastforce
  note step = redoing_xact_redo [OF Cons.prems(1,2) r]
  show ?case
  proof (cases y)
    case (Inr u)
    then have "redoing (p @ [r]) b1" "wal (node b1) = (p @ [r]) @ rs" "redo_all rs b1 = (x, b')"
      using step Cons.prems r by auto
    from Cons.IH [OF this] show ?thesis using step by auto
  qed (use step Cons.prems r in auto)
qed (auto simp: redoing_def)

section \<open>Recovery\<close>

definition listed :: "'a Backend \<Rightarrow> bool" where
  "listed b \<longleftrightarrow> g \<in> log_gid ` set (shmCommittedGxactArray (node b))"

text \<open>The array of committed transactions has what the log says and recovery has still to finish.\<close>

definition recovering :: "'a Backend \<Rightarrow> bool" where
  "recovering b \<longleftrightarrow> safe (node b) (world b) \<and> Gp_role (self b) \<noteq> GP_ROLE_UTILITY \<and>
     (listed b \<longrightarrow> commit_flushed g (node b)) \<and> (commit_logged g (node b) \<and> \<not> forget_logged g (node b) \<longrightarrow> listed b)"

lemma logged_cong:
  assumes "wal n' = wal n" "flushed n' = flushed n"
  shows "commit_logged g n' = commit_logged g n" "commit_flushed g n' = commit_flushed g n" "forget_logged g n' = forget_logged g n"
    "forget_flushed g n' = forget_flushed g n"
  using assms by (simp_all add: commit_logged_def commit_flushed_def forget_logged_def forget_flushed_def)

lemma recovering_redoing:
  assumes "redoing (wal (node b)) b" "Gp_role (self b) \<noteq> GP_ROLE_UTILITY"
  shows "recovering b"
  using assms by (auto simp: redoing_def recovering_def array_ok_def listed_def commit_flushed_def commit_logged_def forget_logged_def)

lemma recovering_array:
  assumes "recovering b" "world b' = world b" "self b' = self b" "wal (node b') = wal (node b)" "flushed (node b') = flushed (node b)"
    "dtm_redo_file (node b') = dtm_redo_file (node b)"
    "listed b' \<Longrightarrow> \<not> listed b \<Longrightarrow> commit_flushed g (node b)" "listed b \<Longrightarrow> \<not> listed b' \<Longrightarrow> forget_logged g (node b)"
  shows "recovering b'"
  using assms logged_cong [OF assms(4,5)] safe_cong [OF assms(4-6)] by (auto simp: recovering_def)

lemma recovering_Replay:
  assumes "recovering b" "\<forall>(c, l) \<in> set rs. log_gid l = g \<longrightarrow> (if c then commit_flushed g (node b) else forget_flushed g (node b))"
    "ReplayRedoFromUtilityMode rs b = (x, b')"
  shows "recovering b'"
  using assms
proof (induction rs arbitrary: b)
  case (Cons cl rs)
  obtain c l where cl: "cl = (c, l)" by fastforce
  let ?r = "if c then redoDistributedCommitRecord l b else redoDistributedForgetCommitRecord l b"
  obtain y b1 where r: "?r = (y, b1)" by fastforce
  have role: "Gp_role (self b) \<noteq> GP_ROLE_UTILITY" using Cons.prems(1) by (simp add: recovering_def)
  have f: "world b1 = world b" "self b1 = self b" "wal (node b1) = wal (node b)" "flushed (node b1) = flushed (node b)"
    using r redo_commit_frame(1-4) redo_forget_frame(1-4) by (auto split: if_splits)
  have fi: "dtm_redo_file (node b1) = dtm_redo_file (node b)" using r role
    by (auto simp: redoDistributedCommitRecord_def redoDistributedForgetCommitRecord_def ereport_def split: if_splits)
  have "recovering b1"
  proof (rule recovering_array [OF Cons.prems(1) f fi])
    show "commit_flushed g (node b)" if "listed b1" "\<not> listed b"
      using that r Cons.prems(2) redo_commit_frame(7) [of l b y b1] redo_forget_frame(6) [of l b y b1]
      by (auto simp: listed_def cl split: if_splits)
    show "forget_logged g (node b)" if "listed b" "\<not> listed b1"
      using that r Cons.prems(2) redo_commit_frame(8) [of l b y b1] redo_forget_frame(7) [of l b y b1 g]
      by (auto simp: listed_def cl forget_flushed_logged split: if_splits)
  qed
  moreover have "\<forall>(c, l) \<in> set rs. log_gid l = g \<longrightarrow> (if c then commit_flushed g (node b1) else forget_flushed g (node b1))"
    using Cons.prems(2) unfolding logged_cong [OF f(3,4)] by simp
  ultimately show ?case using Cons.IH Cons.prems(3) r by (cases y) (auto simp: cl)
qed simp

text \<open>Commands of recovery.\<close>

lemma recovery_dispatch:
  assumes "recovering b" "doDispatchDtxProtocolCommand d cmd h False False (component_list d (world b)) None b = (x, b')"
    "commits cmd \<and> (h = g \<longrightarrow> commit_flushed g (node b)) \<or>
     cmd = DTX_PROTOCOL_COMMAND_RECOVERY_ABORT_PREPARED \<and> (h = g \<longrightarrow> \<not> commit_logged g (node b))"
  shows "recovering b' \<and> node b' = node b \<and> (x = Inr True \<and> h = g \<and> commits cmd \<longrightarrow> all_committed b')"
proof -
  note cases = doDispatch_cases [OF assms(2)]
  have s: "safe (node b) (world b)" using assms(1) by (simp add: recovering_def)
  then have S: "S \<subseteq> set (component_list d (world b))" by (simp add: safe_def)
  have two: "two_phase cmd" "cmd \<noteq> DTX_PROTOCOL_COMMAND_PREPARE" using assms(3) by (auto simp: commits_def two_phase_def)
  have "safe (node b) (world b') \<and> (x = Inr True \<and> h = g \<and> commits cmd \<longrightarrow> all_committed b')"
  proof (cases "h = g \<and> commits cmd")
    case True
    then have c: "commit_flushed g (node b)" using assms(3) by (auto simp: commits_def)
    show ?thesis using cases safe_commit [OF s c, of cmd None] True S s by fastforce
  next
    case False
    then have "safe (node b) w'" if "dtx_send d cmd h None (component_list d (world b)) (world b) = (r, w')" for r w'
      using assms(3) by (intro safe_undecided [OF s _ two(1) _ two(2) that]) auto
    then show ?thesis using cases s False by auto
  qed
  then show ?thesis using cases assms(1) by (auto simp: recovering_def same_session_def listed_def)
qed

lemma recovery_forget:
  assumes "recovering b" "log_gid l = g \<Longrightarrow> all_committed b" "RecordDistributedForgetCommitted l b = (x, b')"
  shows "recovering b' \<and> world b' = world b \<and> shmCommittedGxactArray (node b') = shmCommittedGxactArray (node b) \<and>
    (forget_logged g (node b) \<longrightarrow> forget_logged g (node b')) \<and> (commit_flushed g (node b) \<longrightarrow> commit_flushed g (node b')) \<and>
    (x = Inr () \<and> log_gid l = g \<longrightarrow> forget_logged g (node b'))"
proof (cases "fst (may_panic b)")
  case (Inl e)
  then have "b' = snd (may_panic b)" "x \<noteq> Inr ()"
    using assms(3) by (auto simp: RecordDistributedForgetCommitted_def XLogInsert_def bindS_def)
  then show ?thesis using assms(1) by (simp add: recovering_def may_panic_dtx listed_def)
next
  case (Inr u)
  let ?r = "XLOG_XACT_DISTRIBUTED_FORGET (log_gid l) (log_gxid l)" and ?b = "snd (may_panic b)"
  have b': "b' = ?b\<lparr>node := (node b)\<lparr>wal := wal (node b) @ [?r]\<rparr>\<rparr>"
    using assms(3) Inr by (simp add: RecordDistributedForgetCommitted_def XLogInsert_def bindS_def may_panic_dtx)
  have s: "safe (node b) (world b)" using assms(1) by (simp add: recovering_def)
  have w: "wal (node b') = wal (node b) @ [?r]" by (simp add: b')
  have k: "commit_logged g (node b') = commit_logged g (node b)" "forget_logged g (node b') \<longleftrightarrow> forget_logged g (node b) \<or> log_gid l = g"
    by (auto simp: commit_logged_def forget_logged_def w is_commit_of_def is_forget_of_def)
  have f: "commit_flushed g (node b) \<Longrightarrow> commit_flushed g (node b')" "file_ok g (node b) \<Longrightarrow> file_ok g (node b')"
    using s flushed_mono [OF w] by (simp_all add: safe_def b')
  have "safe (node b') (world b')" using s k f assms(2) by (auto simp: safe_def b' may_panic_dtx)
  then show ?thesis using assms(1) k f by (auto simp: recovering_def b' listed_def may_panic_dtx)
qed

lemma recovering_notify:
  assumes "recovering b" "g \<in> log_gid ` set ls \<Longrightarrow> commit_flushed g (node b)" "notify_committed d ls b = (x, b')"
  shows "recovering b' \<and> shmCommittedGxactArray (node b') = shmCommittedGxactArray (node b) \<and>
    (forget_logged g (node b) \<or> x = Inr () \<and> g \<in> log_gid ` set ls \<longrightarrow> forget_logged g (node b'))"
  using assms
proof (induction ls arbitrary: b)
  case (Cons l ls)
  let ?D = "doDispatchDtxProtocolCommand d DTX_PROTOCOL_COMMAND_RECOVERY_COMMIT_PREPARED (log_gid l) False False
      (component_list d (world b)) None b"
  have c: "commits DTX_PROTOCOL_COMMAND_RECOVERY_COMMIT_PREPARED" by (simp add: commits_def)
  obtain y b1 where d: "?D = (y, b1)" by fastforce
  have b1: "recovering b1" "node b1 = node b" "y = Inr True \<Longrightarrow> log_gid l = g \<Longrightarrow> all_committed b1"
    using recovery_dispatch [OF Cons.prems(1) d] Cons.prems(2) c by auto
  show ?case
  proof (cases "y = Inr True")
    case True
    obtain z b2 where f: "RecordDistributedForgetCommitted l b1 = (z, b2)" by fastforce
    note b2 = recovery_forget [OF b1(1) b1(3) [OF True] f]
    have e: "notify_committed d (l # ls) b = bindS (z, b2) (\<lambda>_ b. notify_committed d ls b)"
      using d True f by (simp add: doNotifyCommittedInDoubt_def)
    show ?thesis
    proof (cases z)
      case (Inl ex)
      then show ?thesis using e Cons.prems(3) b2 b1(2) by auto
    next
      case (Inr u)
      have "g \<in> log_gid ` set ls \<Longrightarrow> commit_flushed g (node b2)" using Cons.prems(2) b2 b1(2) by auto
      moreover have "notify_committed d ls b2 = (x, b')" using e Inr Cons.prems(3) by simp
      ultimately show ?thesis using Cons.IH [of b2] b2 b1(2) Inr by auto
    qed
  next
    case False
    then have "b' = b1" "x \<noteq> Inr ()" using Cons.prems(3) d by (cases y; auto simp: doNotifyCommittedInDoubt_def ereport_def)+
    then show ?thesis using b1 by simp
  qed
qed simp

text \<open>Nothing is left to be committed.\<close>

definition settled :: "'a Backend \<Rightarrow> bool" where
  "settled b \<longleftrightarrow> recovering b \<and> \<not> listed b"

lemma settled_committed: "settled b \<Longrightarrow> commit_logged g (node b) \<Longrightarrow> all_committed b \<and> (\<forall>s. \<not> prep (world b) s g)"
  by (auto simp: settled_def recovering_def safe_def)

lemma settled_gather:
  assumes "settled b" "gatherRMInDoubtTransactions d b = (x, b')"
  shows "settled b' \<and> node b' = node b \<and> (\<forall>hs. x = Inr hs \<longrightarrow> g \<in> set hs \<longleftrightarrow> (\<exists>s. prep (world b') s g))"
proof -
  obtain r w where q: "query_prepared d (world b) = (r, w)" by fastforce
  have s: "safe (node b) (world b)" using assms(1) by (simp add: settled_def recovering_def)
  note l = query [OF safe_ok [OF s] q]
  have b': "b' = b\<lparr>world := w\<rparr>" and x: "x = Inr hs \<Longrightarrow> \<exists>rows. r = Some rows \<and> set hs = set (concat rows)" for hs
    using assms(2) q by (auto simp: gatherRMInDoubtTransactions_def ereport_def Let_def split: option.splits)
  have "safe (node b) w" using s l by (simp add: safe_def)
  then have "settled b'" using assms(1) by (auto simp: b' settled_def recovering_def listed_def)
  moreover have "g \<in> set hs \<longleftrightarrow> (\<exists>s. prep w s g)" if hs: "x = Inr hs" for hs
  proof -
    obtain rows where r: "r = Some rows" "set hs = set (concat rows)" using x [OF hs] by blast
    have "g \<in> set hs \<longleftrightarrow> (\<exists>s \<in> set (component_list d (world b)). prep (world b) s g)"
      using query_rows [OF safe_ok [OF s] q [unfolded r(1)], of g] r(2) by simp
    also have "\<dots> \<longleftrightarrow> (\<exists>s. prep w s g)" using s l by (auto simp: safe_def)
    finally show ?thesis .
  qed
  ultimately show ?thesis by (simp add: b')
qed

lemma settled_abort:
  assumes "settled b" "g \<in> set hs \<Longrightarrow> \<not> commit_logged g (node b)" "abortRMInDoubtTransactions d hs b = (x, b')"
  shows "settled b' \<and> node b' = node b"
  using assms
proof (induction hs arbitrary: b)
  case (Cons h hs)
  let ?D = "doDispatchDtxProtocolCommand d DTX_PROTOCOL_COMMAND_RECOVERY_ABORT_PREPARED h False False (component_list d (world b)) None b"
  obtain y b1 where d: "?D = (y, b1)" by fastforce
  have r: "recovering b" using Cons.prems(1) by (simp add: settled_def)
  have "recovering b1" and n: "node b1 = node b" using recovery_dispatch [OF r d] Cons.prems(2) by auto
  then have b1: "settled b1" using Cons.prems(1) by (simp add: settled_def listed_def)
  show ?case
  proof (cases "y = Inr True")
    case True
    then have "abortRMInDoubtTransactions d hs b1 = (x, b')" using Cons.prems(3) d by (simp add: doAbortInDoubt_def)
    then show ?thesis using Cons.IH [OF b1] Cons.prems(2) n by auto
  next
    case False
    then have "b' = b1" using Cons.prems(3) d by (cases y) (auto simp: doAbortInDoubt_def ereport_def)
    then show ?thesis using b1 n by simp
  qed
qed simp

definition recovered :: "'a Backend \<Rightarrow> bool" where
  "recovered b \<longleftrightarrow> safe (node b) (world b) \<and> (\<forall>s. \<not> prep (world b) s g)"

lemma recovering_recoverInDoubt:
  assumes "recovering b" "recoverInDoubtTransactions d b = (x, b')"
  shows "recovering b' \<and> (x = Inr () \<longrightarrow> recovered b')"
proof -
  obtain x1 b1 where e1: "ReplayRedoFromUtilityMode (dtm_redo_file (node b)) b = (x1, b1)" by fastforce
  have "file_ok g (node b)" using assms(1) by (simp add: recovering_def safe_def)
  then have b1: "recovering b1" by (intro recovering_Replay [OF assms(1) _ e1]) (auto simp: file_ok_def)
  obtain x2 b2 where e2: "notify_committed d (shmCommittedGxactArray (node b1)) b1 = (x2, b2)" by fastforce
  have b2: "recovering b2" "shmCommittedGxactArray (node b2) = shmCommittedGxactArray (node b1)"
      "x2 = Inr () \<Longrightarrow> listed b2 \<Longrightarrow> forget_logged g (node b2)"
    using recovering_notify [OF b1 _ e2] b1 by (auto simp: recovering_def listed_def)
  let ?b3 = "b2\<lparr>node := (node b2)\<lparr>shmCommittedGxactArray := []\<rparr>\<rparr>"
  have b3: "settled ?b3" if "x2 = Inr ()"
    unfolding settled_def using b2(3) [OF that] by (intro conjI recovering_array [OF b2(1)]) (simp_all add: listed_def)
  obtain x4 b4 where e4: "gatherRMInDoubtTransactions d ?b3 = (x4, b4)" by fastforce
  have b4: "settled b4" "x4 = Inr hs \<Longrightarrow> g \<in> set hs \<Longrightarrow> \<not> commit_logged g (node b4)" if "x2 = Inr ()" for hs
    using settled_gather [OF b3 [OF that] e4] settled_committed [of b4] by auto
  obtain x5 b5 where e5: "abortRMInDoubtTransactions d (projr x4) b4 = (x5, b5)" by fastforce
  have b5: "settled b5" if "x2 = Inr ()" "x4 = Inr hs" for hs
    using settled_abort [OF b4(1) _ e5] b4(2) [OF that] that by simp
  obtain x6 b6 where e6: "gatherRMInDoubtTransactions d b5 = (x6, b6)" by fastforce
  have b6: "settled b6" "x6 = Inr [] \<Longrightarrow> \<not> prep (world b6) s g" if "x2 = Inr ()" "x4 = Inr hs" for hs s
    using settled_gather [OF b5 [OF that] e6] by auto
  have b7: "recovering (RemoveRedoUtilityModeFile b)" "safe (node (RemoveRedoUtilityModeFile b)) (world b)" if "settled b" for b
  proof -
    let ?n = "node (RemoveRedoUtilityModeFile b)"
    have "commit_logged g ?n = commit_logged g (node b)" "commit_flushed g ?n = commit_flushed g (node b)"
      "forget_logged g ?n = forget_logged g (node b)" "file_ok g ?n"
      by (simp_all add: RemoveRedoUtilityModeFile_def commit_logged_def commit_flushed_def forget_logged_def file_ok_def)
    then show "safe ?n (world b)" "recovering (RemoveRedoUtilityModeFile b)" using that
      by (auto simp: settled_def recovering_def safe_def listed_def RemoveRedoUtilityModeFile_def)
  qed
  have w: "world (RemoveRedoUtilityModeFile b) = world b" for b :: "'a Backend" by (simp add: RemoveRedoUtilityModeFile_def)
  show ?thesis using assms(2) b1 b2(1) b4(1) b5 b6 b7 w e5
    by (cases x1; cases x2; cases x4; cases x5; cases x6)
      (auto simp: recoverInDoubtTransactions_def e1 e2 e4 e6 ereport_def recovered_def settled_def split: if_splits)
qed

lemma recovering_recoverTM:
  assumes "recovering b" "recoverTM d b = (x, b')"
  shows "recovering b' \<and> (x = Inr () \<longrightarrow> recovered b')"
proof -
  obtain y b1 where e: "recoverInDoubtTransactions d b = (y, b1)" by fastforce
  note r = recovering_recoverInDoubt [OF assms(1) e]
  let ?b = "b1\<lparr>node := (node b1)\<lparr>shmDtmStarted := True\<rparr>\<rparr>"
  have "recovering ?b" by (rule recovering_array [OF conjunct1 [OF r]]) (simp_all add: listed_def)
  moreover have "recovered b1 \<Longrightarrow> recovered ?b" using safe_cong [of "node ?b" "node b1"] by (simp add: recovered_def)
  ultimately show ?thesis using assms(2) r by (cases y) (auto simp: recoverTM_def e)
qed

section \<open>Every step keeps the transaction consistent\<close>

lemma safe_restarted:
  assumes "safe n w"
  shows "safe (restarted k n) w" "flushed (restarted k n) = length (wal (restarted k n))"
proof -
  let ?n = "restarted k n" and ?m = "max k (flushed n)"
  have l: "wal ?n = take ?m (wal n)" "flushed ?n = length (wal ?n)" "dtm_redo_file ?n = dtm_redo_file n"
    by (simp_all add: restarted_def Let_def)
  have sub: "set (take (flushed n) (wal n)) \<subseteq> set (wal ?n)" "set (wal ?n) \<subseteq> set (wal n)"
    using set_take_subset_set_take [of "flushed n" ?m "wal n"] set_take_subset [of ?m "wal n"] by (auto simp: l)
  then have "commit_flushed g n \<Longrightarrow> commit_flushed g ?n" "forget_flushed g n \<Longrightarrow> forget_flushed g ?n"
    "commit_logged g ?n \<Longrightarrow> commit_logged g n" "forget_logged g ?n \<Longrightarrow> forget_logged g n"
    by (auto simp: commit_flushed_def forget_flushed_def commit_logged_def forget_logged_def list_ex_iff l(2))
  then show "safe ?n w" using assms l unfolding safe_def file_ok_def by auto
  show "flushed ?n = length (wal ?n)" by (rule l(2))
qed

lemma safe_start_master:
  assumes "safe (node b) (world b)" "start_master utility t k b = (x, b')"
  shows "safe (node b') (world b') \<and> (x = Inr () \<and> \<not> utility \<longrightarrow> recovering b')"
proof -
  let ?n = "tmShmemInit t (restarted k (node b))"
  let ?p = "set_role (if utility then GP_ROLE_UTILITY else GP_ROLE_DISPATCH) (new_process (b\<lparr>node := ?n\<rparr>))"
  have p: "node (set_role r (new_process b)) = node b" "world (set_role r (new_process b)) = world b"
      "Gp_role (self (set_role r b)) = r" for r and b :: "'a Backend"
    by (simp_all add: set_role_def new_process_def resetGxact_def)
  have n: "wal ?n = wal (restarted k (node b))" "flushed ?n = flushed (restarted k (node b))"
      "dtm_redo_file ?n = dtm_redo_file (restarted k (node b))" "shmCommittedGxactArray ?n = []"
    by (simp_all add: tmShmemInit_def)
  have "redoing [] ?p"
    using safe_restarted [OF assms(1), of k] safe_cong [OF n(1-3)] n by (simp add: redoing_def p array_ok_def)
  moreover have "redo_all (wal ?n) ?p = (x, b')" using assms(2) by (simp add: start_master_def Let_def)
  ultimately show ?thesis using redoing_redo_all [of "[]" ?p "wal ?n" x b'] p recovering_redoing [of b'] by auto
qed

text \<open>What each status says.\<close>

definition may_end :: "bool \<Rightarrow> 'a Backend \<Rightarrow> bool" where
  "may_end one b \<longleftrightarrow> at_state {DTX_STATE_ACTIVE_DISTRIBUTED} b \<and> blocks b \<noteq> [] \<and>
     (ending TBLOCK_END (blocks b) \<or> blockState (CurrentBlock b) = TBLOCK_STARTED \<and> tl (blocks b) = []) \<and>
     (one \<or> executorDidWriteXLog (last (blocks b)) \<and> 2 \<le> card S)"

fun lives :: "bool \<Rightarrow> Status \<times> 'a Backend \<Rightarrow> bool" where
  "lives one (Working, b) = may_end one b"
| "lives one (Committed, b) = (consistent b \<and> resolved one b)"
| "lives one (Recovering, b) = recovering b"
| "lives one (Recovered, b) = recovered b"
| "lives one (st, b) = (if st \<in> {Failed, Aborted, Exiting} then consistent b else safe (node b) (world b))"

lemma lives_safe: "lives one (st, b) \<Longrightarrow> safe (node b) (world b)"
  by (cases st) (auto simp: may_end_def at_state_def consistent_def recovering_def recovered_def)

lemma lives_consistent: "lives one (st, b) \<Longrightarrow> st \<in> {Working, Committed, Failed, Aborted, Exiting} \<Longrightarrow> consistent b"
  by (auto simp: may_end_def at_state_def)

lemma lives_status_after:
  assumes "consistent b" "x = Inr () \<Longrightarrow> lives one (st, b)"
  shows "lives one (status_after st x, b)"
proof (cases x)
  case (Inl e)
  then show ?thesis using assms(1) by (cases e; cases "fst e") (auto simp: consistent_def)
qed (use assms in simp)

lemma lives_others:
  assumes "lives one (st, b)" "list_all (\<lambda>r. \<not> is_commit_of g r \<and> \<not> is_forget_of g r) rs"
    "flushed (node b) \<le> f" "f \<le> length (wal (node b) @ rs)"
  shows "lives one (st, b\<lparr>node := (node b)\<lparr>wal := wal (node b) @ rs, flushed := f\<rparr>\<rparr>)"
proof -
  let ?b = "b\<lparr>node := (node b)\<lparr>wal := wal (node b) @ rs, flushed := f\<rparr>\<rparr>"
  have w: "wal (node ?b) = wal (node b) @ rs" by simp
  have d: "same_dtx b ?b" by (simp add: same_dtx_def)
  have s: "safe (node ?b) (world ?b)" using safe_node [OF lives_safe [OF assms(1)] w assms(2)] assms(3,4) by simp
  have c: "consistent b \<Longrightarrow> consistent ?b" using consistent_log [OF _ d w assms(2)] assms(3,4) by simp
  have l: "commit_logged g (node ?b) = commit_logged g (node b)" "forget_logged g (node ?b) = forget_logged g (node b)"
    by (rule log_append [OF w assms(2)])+
  have f: "commit_flushed g (node b) \<Longrightarrow> commit_flushed g (node ?b)"
    using flushed_mono(1) [OF w] assms(3) lives_safe [OF assms(1)] by (simp add: safe_def)
  show ?thesis using assms(1) s c l f
    by (cases st) (auto simp: may_end_def at_state_def resolved_def recovering_def recovered_def listed_def)
qed

lemma lives_step: "life d g p q \<Longrightarrow> lives one p \<Longrightarrow> lives one q"
proof (induction rule: life.induct)
  case (commit fs b x b')
  have a: "may_end one (b\<lparr>faults := fs\<rparr>)"
    using commit.prems at_state_frame [of _ b "b\<lparr>faults := fs\<rparr>"] by (auto simp: may_end_def same_dtx_def)
  have "leads (resolved one) (CommitTransactionCommand d (b\<lparr>faults := fs\<rparr>))"
    using a unfolding may_end_def by (intro leads_CommitTransactionCommand) auto
  then show ?case unfolding commit.hyps by (intro lives_status_after) (auto simp: leads_def)
next
  case (abort fs b x b')
  have "consistent (snd (after_error d ERRORDATA_STACK_SIZE (b\<lparr>faults := fs\<rparr>)))"
    using abort.prems by (intro aborts.after_error aborts.faults) simp
  then show ?case unfolding abort.hyps by (intro lives_status_after) simp_all
next
  case (exit fs b x b')
  have "consistent (snd (ShutdownPostgres d (b\<lparr>faults := fs\<rparr>)))"
    using exit.prems by (intro aborts.ShutdownPostgres aborts.faults) simp
  then show ?case by (simp add: exit.hyps consistent_def)
next
  case (start utility t k b x b')
  then show ?case using safe_start_master [OF _ start.hyps] lives_safe [OF start.prems] by (cases x) auto
next
  case (recover fs b x b')
  have "recovering (b\<lparr>faults := fs\<rparr>)" using recover.prems by (simp add: recovering_def listed_def)
  note r = recovering_recoverTM [OF this recover.hyps]
  have "recovering (new_process b')" using r by (simp add: recovering_def listed_def new_process_def resetGxact_def)
  then show ?case using r by (cases x; cases "projl x"; cases "fst (projl x)") (auto simp: recovering_def)
next
  case (others st rs b f)
  then show ?case by (intro lives_others)
qed (auto simp: lives_safe may_end_def at_state_def)

theorem life_invariant: "(life d g)\<^sup>*\<^sup>* p q \<Longrightarrow> lives one p \<Longrightarrow> lives one q"
  by (induction rule: rtranclp_induct) (auto intro: lives_step)

end

end
