(* ===== verification/ClusterExample.thy ===== *)
theory ClusterExample
  imports Cluster DtxLife
begin

text \<open>
  A master with two segments, both with work of a transaction to commit, and runs of it: one that the
  client sees committed although a message is lost, and one in which the master goes down between the
  two phases and recovers.
\<close>

section \<open>Evaluation\<close>

text \<open>Execution proceeds from left to right: the rest of a program is rewritten when it is reached.\<close>

lemma bindS_weak: "r = r' \<Longrightarrow> bindS r f = bindS r' f"
  by simp

lemma catchS_weak: "r = r' \<Longrightarrow> catchS r h = catchS r' h"
  by simp

lemma rethrowS_weak: "r = r' \<Longrightarrow> rethrowS r h = rethrowS r' h"
  by simp

lemma rethrowS_Inr [simp]: "rethrowS (Inr x, s) h = (Inr x, s)"
  by (simp add: rethrowS_def)

lemmas in_order = bindS_weak catchS_weak rethrowS_weak

lemmas run_defs =
  errstart_def ereport_def may_fail_def may_panic_def XLogInsert_def XLogFlush_def set_state_def set_blockState_def
  IsTransactionState_def IsAbortInProgress_def IsTransactionPreparing_def IsAbortedTransactionBlockState_def
  TransactionDidWriteXLog_def ExecutorDidWriteXLog_def GetTopTransactionIdIfAny_def GetCurrentTransactionIdIfAny_def
  MarkCurrentTransactionIdLoggedIfAny_def MarkCurrentTransactionWriteXLogOnExecutor_def
  GetCurrentTransactionNestLevel_def IsTransactionBlock_def IsTransactionOrTransactionBlock_def IsSubTransaction_def
  TransactionBlockStatusCode_def InvalidDistributedTransactionId_def LastDistributedTransactionId_def TMGIDSIZE_def
  dtxFormGID_def TransactionIdIsNormal_def TransactionIdIsValid_def list_length_def lappend_int_def
  FirstNormalTransactionId_def InvalidTransactionId_def DtxProtocolCommandToString_def
  setDistributedTransactionContext_def requireDistributedTransactionContext_def isDtxContext_def getDtxStartTime_def
  getDistributedTransactionId_def getDistributedTransactionTimestamp_def getDistributedTransactionIdentifier_def
  isPreparedDtxTransaction_def isCurrentDtxActivated_def setCurrentDtxState_def getCurrentDtxState_def
  currentDtxActivate_def setupDtxTransaction_def rememberDtxExplicitBegin_def isDtxExplicitBegin_def
  sendDtxExplicitBegin_def XACT_READ_UNCOMMITTED_def XACT_READ_COMMITTED_def XACT_REPEATABLE_READ_def
  XACT_SERIALIZABLE_def GP_OPT_NEED_DTX_def GP_OPT_ISOLATION_LEVEL_MASK_def GP_OPT_READ_UNCOMMITTED_def
  GP_OPT_READ_COMMITTED_def GP_OPT_REPEATABLE_READ_def GP_OPT_SERIALIZABLE_def GP_OPT_READ_ONLY_def
  GP_OPT_EXPLICT_BEGIN_def mppTxnOptions_def mppTxOptions_IsoLevel_def isMppTxOptions_ReadOnly_def
  isMppTxOptions_NeedDtx_def isMppTxOptions_ExplicitBegin_def addToGxactDtxSegments_def
  markCurrentGxactWriterGangLost_def currentGxactWriterGangLost_def CdbDispatchDtxProtocolCommand_def result_failed_def
  doDispatchDtxProtocolCommand_def currentDtxDispatchProtocolCommand_def dispatchDtxCommand_def qdDtxContextInfo_def
  doDispatchSubtransactionInternalCmd_def resetGxact_def ProcArrayEndGxact_def clearAndResetGxact_def
  ClearTransactionState_def finishDistributedTransactionContext_def isDtxQueryDispatcher_def setupRegularDtxContext_def
  doPrepareTransaction_def prepareDtxTransaction_def insertingDistributedCommitted_def insertedDistributedCommitted_def
  doInsertForgetCommitted_def doNotifyingOnePhaseCommit_def try_dispatch_def doNotifyingCommitPrepared_def
  notifyCommittedDtxTransactionIsNeeded_def notifyCommittedDtxTransaction_def retryAbortPrepared_def
  doNotifyingAbort_def rollback_notify_def rollbackDtxTransaction_def PushTransactionBlock_def PopTransactionBlock_def
  GetNewTransactionId_def set_xid_def AssignTransactionId_def GetCurrentTransactionId_def xid_committed_def
  xid_aborted_def start_node_def end_node_def adopt_qd_options_def adopt_qd_gxid_def start_dtx_context_def StartTransaction_def
  RecordTransactionCommit_def CommitTransaction_def InvalidBackendId_def GIDSIZE_def MarkAsPreparing_def
  update_gxact_def RemoveGXact_def EndPrepare_def PostPrepare_Twophase_def AtAbort_Twophase_def PrepareTransaction_def
  RecordTransactionAbort_def AbortTransaction_def CleanupTransaction_def StartSubTransaction_def
  CommitSubTransaction_def AbortSubTransaction_def CleanupSubTransaction_def set_sp_name_def DefineSavepoint_def
  DispatchRollbackToSavepoint_def StartTransactionCommand_def commit_and_idle_def prepare_and_idle_def
  cleanup_and_idle_def abort_and_idle_def commit_subs.simps restart_savepoint_def CommitTransactionCommand.simps
  AbortCurrentTransaction.simps AbortOutOfAnyTransaction.simps BeginTransactionBlock_def marked_def
  EndTransactionBlock_def PrepareTransactionBlock_def UserAbortTransactionBlock_def DefineDispatchSavepoint_def
  ReleaseSavepoint_def RollbackToSavepoint_def BeginInternalSubTransaction_def ReleaseCurrentSubTransaction_def
  RollbackAndReleaseCurrentSubTransaction_def PreventTransactionChain_def CheckTransactionChain_def
  RequireTransactionChain_def IsInTransactionChain_def LockGXact_def RecordTransactionCommitPrepared_def
  RecordTransactionAbortPrepared_def FinishPreparedTransaction_def doQEDistributedExplicitBegin_def
  setup_local_context_def setupQEDtxContext_def performDtxProtocolPrepare_def performDtxProtocolCommitOnePhase_def
  perform_finish_prepared_def performDtxProtocolCommitPrepared_def performDtxProtocolAbortPrepared_def
  performDtxProtocolCommand_def prepared_in_def RecoverPreparedTransactions_def UtilityModeSaveRedo_def
  redoDistributedCommitRecord_def redoDistributedForgetCommitRecord_def xact_redo_distributed_commit_def
  RemoveRedoUtilityModeFile_def RecordDistributedForgetCommitted_def doNotifyCommittedInDoubt_def doAbortInDoubt_def
  gatherRMInDoubtTransactions_def recoverInDoubtTransactions_def recoverTM_def ERRORDATA_STACK_SIZE_def
  ShutdownPostgres_def new_process_def restarted_def restart_def quit_process_def settle_def no_info_def no_dispatch_def
  exec_command_def cluster_send_def cluster_query_def cluster_destroy_def cluster_dispatcher_def Let_def
  start_master_def set_role_def tmShmemInit_def IS_QUERY_DISPATCHER_def MASTER_CONTENT_ID_def


section \<open>The cluster\<close>

definition ex_process :: "GpRoleValue \<Rightarrow> int \<Rightarrow> DtxContext \<Rightarrow> TBlockState \<Rightarrow> DtxState \<Rightarrow> int list \<Rightarrow> 'w \<Rightarrow> 'w Backend" where
  "ex_process ro seg ctx bs st ss w =
     \<lparr>self = \<lparr>Gp_role = ro, Gp_is_writer = True, segindex = seg, gp_session_id = 7, MyProc_pid = 100\<rparr>, MyBackendId = 1,
      xact_stack = \<lparr>nodes = [\<lparr>transactionId = 5, subTransactionId = 1, state = TRANS_INPROGRESS, nestingLevel = 1, childXids = [], fastLink = None\<rparr>],
                    fastNodeCount = 0, previousFastLink = None, currentSubTransactionId = 1\<rparr>,
      blocks = [\<lparr>blockState = bs, sp_name = None, savepointLevel = 1, didLogXid = False, executorDidWriteXLog = True\<rparr>],
      prepareGID = None,
      MyTmGxact = \<lparr>distribTimeStamp = 9, gxid = 3, xminDistributedSnapshot = 0, includeInCkpt = False, sessionId = 7\<rparr>,
      MyTmGxactLocal = \<lparr>dtx_state = st, explicitBeginRemembered = False, isOnePhaseCommit = False, badPrepareGangs = False,
        writerGangLost = False, dtxSegmentsMap = set ss, dtxSegments = ss\<rparr>,
      dtx_context = ctx,
      QEDtxContextInfo = \<lparr>distributedXid = 3, distributedTimeStamp = 9, distributedTxnOptions = 0, haveDistributedSnapshot = False,
        info_nestingLevel = 1\<rparr>,
      SharedLocalSnapshotSlot = False, XactIsoLevel = 1, XactReadOnly = False, DefaultXactIsoLevel = 1, DefaultXactReadOnly = False,
      MyLockedGxact = None, proc_exit_inprogress = False, dtx_phase2_retry_count = 1, faults = [],
      node = \<lparr>wal = [], flushed = 0, nextXid = 6, prepXacts = [], max_prepared_xacts = 10, shmGIDSeq = 4,
        shmDistribTimeStamp = Some 9, shmDtmStarted = True, latestCompletedDxid = 2, shmCommittedGxactArray = [], max_tm_gxacts = 10,
        dtm_redo_file = []\<rparr>,
      world = w\<rparr>"

definition ex_cluster :: "Dispatch list \<Rightarrow> Cluster" where
  "ex_cluster sc = \<lparr>segments = \<lambda>s. ex_process GP_ROLE_EXECUTE s DTX_CONTEXT_QE_TWO_PHASE_EXPLICIT_WRITER TBLOCK_INPROGRESS DTX_STATE_NONE [] (),
     members = [0, 1], script = sc\<rparr>"

definition ex_master :: "Dispatch list \<Rightarrow> Cluster Backend" where
  "ex_master sc = ex_process GP_ROLE_DISPATCH (-1) DTX_CONTEXT_QD_DISTRIBUTED_CAPABLE TBLOCK_END DTX_STATE_ACTIVE_DISTRIBUTED [0, 1] (ex_cluster sc)"

definition ex_dispatcher :: "Cluster Dispatcher" where
  "ex_dispatcher = cluster_dispatcher (\<lambda>_ c. (AllocateFailed, c)) (\<lambda>s. s)"


definition ex_gid :: string where "ex_gid = ''9-0000000003''"

lemmas ex_defs = ex_process_def ex_gid_def ex_cluster_def ex_master_def ex_dispatcher_def

lemma ex_print [simp]: "print_uint 9 = ''9''" "print_uint10 3 = ''0000000003''"
  by code_simp+

lemma ex_crack [simp]: "dtxCrackOpenGid ''9-0000000003'' b = (Inr (9, 3), b)"
proof -
  have "scan_uint ''9-0000000003'' = Some (9, ''-0000000003'')" "scan_uint ''0000000003'' = Some (3, [])"
    "scan_literal ''-'' ''-0000000003'' = Some ''0000000003''" by code_simp+
  then show ?thesis by (simp add: dtxCrackOpenGid_def)
qed

lemma ex_at_rest: "at_rest {({}, {})} (segments (ex_cluster sc) s)" "ready (segments (ex_cluster sc) s)"
  by (simp_all add: at_rest_def qe_def aligned_def seg_ok_def ex_cluster_def ex_process_def views_def prepared_in_def seg_log_def
      committed_in_def outcome_def ready_def can_prepare_def nested_def)

section \<open>Runs\<close>

text \<open>The first answer to the second phase is lost, and the master tries again.\<close>

definition retried :: "(Exit + unit) \<times> Cluster Backend" where
  "retried = CommitTransactionCommand ex_dispatcher (ex_master [Sent [], Sent [Deliver SameProcess [] 0 False]])"

lemma retried_returns: "fst retried = Inr ()"
  by (simp add: retried_def run_defs ex_defs cong: in_order)

text \<open>The master goes down when one segment has committed, comes up again and recovers.\<close>

definition crashed :: "(Exit + unit) \<times> Cluster Backend" where
  "crashed = CommitTransactionCommand ex_dispatcher (ex_master [Sent [], MasterDown [Deliver SameProcess [] 0 True, Unreachable],
     Sent [Deliver NewProcess [] 0 True, Deliver NewProcess [] 0 True]])"

definition come_up :: "(Exit + unit) \<times> Cluster Backend" where
  "come_up = start_master False 10 0 (snd crashed)"

definition recovered_master :: "(Exit + unit) \<times> Cluster Backend" where
  "recovered_master = recoverTM ex_dispatcher (snd come_up)"

lemma recovered_returns: "fst crashed = Inl (PANIC, NodeDown) \<and> fst come_up = Inr () \<and> fst recovered_master = Inr ()"
  by (simp add: recovered_master_def come_up_def crashed_def run_defs ex_defs cong: in_order)

lemma crashed_log: "log_of (segments (world (snd crashed)) 0) = ({}, {ex_gid})"
  by (simp add: crashed_def run_defs ex_defs log_of_def seg_log_def committed_in_def outcome_def cong: in_order)




text \<open>
  A segment node that goes down between writing the record of its prepared transaction and flushing
  it: the record has reached the disk nevertheless.
\<close>

definition lost_prepare :: "Reply \<times> unit Backend" where
  "lost_prepare = exec_command DTX_PROTOCOL_COMMAND_PREPARE ex_gid None
     (Deliver SameProcess [Proceed, Proceed, Proceed, Die] 1 True) (segments (ex_cluster []) 0)"

lemma lost_prepare_eval: "fst lost_prepare = LostConnection" "log_of (snd lost_prepare) = ({ex_gid}, {})"
  by (simp_all add: lost_prepare_def run_defs ex_defs log_of_def seg_log_def committed_in_def outcome_def cong: in_order)

end
