(* ===== verification/ClusterAtomic.thy ===== *)
theory ClusterAtomic
  imports ClusterExample
begin

text \<open>
  Distributed commit is atomic: the segments of the cluster keep the contract the master relies on, so
  what is shown under the contract holds of a master and its segments.
\<close>

section \<open>The segments keep the contract\<close>

definition all_at_rest :: "Cluster \<Rightarrow> bool" where
  "all_at_rest c \<longleftrightarrow> (\<forall>s. at_rest UNIV (segments c s))"

definition prepared_on :: "Cluster \<Rightarrow> int \<Rightarrow> string \<Rightarrow> bool" where
  "prepared_on c s g \<longleftrightarrow> g \<in> fst (log_of (segments c s))"

definition committed_on :: "Cluster \<Rightarrow> int \<Rightarrow> string \<Rightarrow> bool" where
  "committed_on c s g \<longleftrightarrow> g \<in> snd (log_of (segments c s))"

definition segment_ready :: "Cluster \<Rightarrow> int \<Rightarrow> bool" where
  "segment_ready c s \<longleftrightarrow> ready (segments c s)"

lemma result_ok: "\<not> result_failed t (PGRES_COMMAND_OK, t)"
  by (simp add: result_failed_def)

lemma cluster_send_cases:
  assumes "all_at_rest c" "two_phase cmd" "cmd = DTX_PROTOCOL_COMMAND_PREPARE \<Longrightarrow> distinct ss \<and> (\<forall>s \<in> set ss. segment_ready c s)"
    "cluster_send cmd h info ss c = (r, c')"
  shows "all_at_rest c'" "members c' = members c"
    "log_of (segments c' s) \<in> {log_of (segments c s), effect cmd h (log_of (segments c s))}"
    "s \<notin> set ss \<Longrightarrow> segments c' s = segments c s"
    "all_good cmd r \<Longrightarrow> s \<in> set ss \<Longrightarrow> log_of (segments c' s) \<in> after_success cmd h (log_of (segments c s))"
proof -
  have rest: "at_rest UNIV (segments c s)" for s using assms(1) by (simp add: all_at_rest_def)
  have pre: "cmd = DTX_PROTOCOL_COMMAND_PREPARE \<Longrightarrow> distinct ss \<and> (\<forall>s \<in> set ss. ready (segments c s))"
    using assms(3) by (simp add: segment_ready_def)
  consider (same) "segments c' = segments c" "members c' = members c" "\<not> all_good cmd r"
    | (sent) dls reps where "exec_all cmd h info ss dls (segments c) = (reps, segments c')" "members c' = members c"
        "all_good cmd r \<Longrightarrow> list_all (\<lambda>r. r = Done) reps"
  proof (cases "case script c of [] \<Rightarrow> Sent [] | st # _ \<Rightarrow> st")
    case NoGang
    then show thesis using same assms(4) by (auto simp: cluster_send_def Let_def all_good_def)
  next
    case (MasterDown dls)
    then show thesis using sent [of dls] assms(4) by (cases "exec_all cmd h info ss dls (segments c)") (auto simp: cluster_send_def Let_def all_good_def)
  next
    case (Sent dls)
    then show thesis using sent [of dls] assms(4)
      by (cases "exec_all cmd h info ss dls (segments c)") (auto simp: cluster_send_def Let_def all_good_def split: if_splits)
  qed
  then have "all_at_rest c' \<and> members c' = members c \<and>
      log_of (segments c' s) \<in> {log_of (segments c s), effect cmd h (log_of (segments c s))} \<and>
      (s \<notin> set ss \<longrightarrow> segments c' s = segments c s) \<and>
      (all_good cmd r \<longrightarrow> s \<in> set ss \<longrightarrow> log_of (segments c' s) \<in> after_success cmd h (log_of (segments c s)))" for s
  proof cases
    case same
    then show ?thesis using assms(1) by (simp add: all_at_rest_def)
  next
    case sent
    note e = exec_all_effect [OF sent(1) assms(2) rest pre]
    have "at_rest UNIV (segments c' s)" for s using e(1) [of s] at_rest_mono by blast
    then show ?thesis using e sent(2,3) at_rest_log_of [of "{_, _}"] by (auto simp: all_at_rest_def)
  qed
  then show "all_at_rest c'" "members c' = members c"
    "log_of (segments c' s) \<in> {log_of (segments c s), effect cmd h (log_of (segments c s))}"
    "s \<notin> set ss \<Longrightarrow> segments c' s = segments c s"
    "all_good cmd r \<Longrightarrow> s \<in> set ss \<Longrightarrow> log_of (segments c' s) \<in> after_success cmd h (log_of (segments c s))"
    by blast+
qed

lemma effect_other: "h \<noteq> g \<Longrightarrow> g \<in> fst (effect cmd h L) \<longleftrightarrow> g \<in> fst L" "h \<noteq> g \<Longrightarrow> g \<in> snd (effect cmd h L) \<longleftrightarrow> g \<in> snd L"
  by (cases cmd; auto simp: prepares_def finished_def)+

lemma effect_own:
  "h \<in> snd L \<Longrightarrow> h \<in> snd (effect cmd h L)"
  "h \<in> snd (effect cmd h L) \<Longrightarrow> h \<in> snd L \<or> commits cmd \<and> h \<in> fst L \<and> h \<notin> fst (effect cmd h L)"
  "h \<in> fst (effect cmd h L) \<Longrightarrow> h \<in> fst L \<or> cmd = DTX_PROTOCOL_COMMAND_PREPARE"
  by (cases cmd; auto simp: prepares_def finished_def commits_def split: if_splits)+

lemma effect_commits: "commits cmd \<Longrightarrow> effect cmd h L = finished True h L"
  by (auto simp: commits_def)

lemma two_phase_commits: "commits cmd \<Longrightarrow> two_phase cmd \<and> cmd \<noteq> DTX_PROTOCOL_COMMAND_PREPARE"
  by (auto simp: commits_def two_phase_def)

lemma query_gids:
  assumes "at_rest UNIV b"
  shows "set (map gx_gid (filter gx_valid (prepXacts (node b)))) = fst (log_of b)"
proof -
  have "views (node b) = set (prepared_in (wal (node b)))" using assms by (simp add: at_rest_def seg_ok_def)
  then have "fst (log_of b) = (snd \<circ> snd) ` views (node b)" by (simp add: log_of_def seg_log_def)
  then show ?thesis by (force simp: views_def)
qed

lemma cluster_query_rows:
  assumes "all_at_rest c" "cluster_query c = (Some rows, c')"
  shows "g \<in> set (concat rows) \<longleftrightarrow> (\<exists>s \<in> set (members c). prepared_on c s g)"
proof -
  have r: "rows = map (\<lambda>s. map gx_gid (filter gx_valid (prepXacts (node (segments c s))))) (members c)"
    using assms(2) by (auto simp: cluster_query_def split: if_splits)
  have "set (map gx_gid (filter gx_valid (prepXacts (node (segments c s))))) = fst (log_of (segments c s))" for s
    using assms(1) by (intro query_gids) (simp add: all_at_rest_def)
  then show ?thesis by (simp add: r prepared_on_def)
qed

lemma log_of_quit:
  assumes "at_rest UNIV b"
  shows "at_rest UNIV (quit_process d k b) \<and> log_of (quit_process d k b) = log_of b"
proof -
  have "at_rest {log_of b} (quit_process d k b)" using assms at_rest_log_of by (intro at_rest_quit) blast
  then show ?thesis using at_rest_log_of [of "{log_of b}"] by simp
qed

interpretation cluster: dtx_atomic "cluster_dispatcher sql quote" all_at_rest segment_ready prepared_on committed_on g S for sql quote g S
proof unfold_locales
  fix c c' :: Cluster and cmd h info ss r s and g :: string
  assume ok: "all_at_rest c" and two: "two_phase cmd"
    and can: "cmd = DTX_PROTOCOL_COMMAND_PREPARE \<Longrightarrow> distinct ss \<and> (\<forall>s \<in> set ss. segment_ready c s)"
    and "dtx_send (cluster_dispatcher sql quote) cmd h info ss c = (r, c')"
  then have e: "cluster_send cmd h info ss c = (r, c')" by (simp add: cluster_dispatcher_def)
  note f = cluster_send_cases [OF ok two can e]
  show "all_at_rest c' \<and> component_list (cluster_dispatcher sql quote) c' = component_list (cluster_dispatcher sql quote) c"
    using f(1,2) by (simp add: cluster_dispatcher_def)
  show "prepared_on c' s g = prepared_on c s g \<and> committed_on c' s g = committed_on c s g" if "g \<noteq> h \<or> s \<notin> set ss"
    using f(3,4) [of s] that effect_other [of h g cmd "log_of (segments c s)"] by (auto simp: prepared_on_def committed_on_def)
  show "(committed_on c s h \<longrightarrow> committed_on c' s h) \<and>
      (committed_on c' s h \<longrightarrow> committed_on c s h \<or> commits cmd \<and> prepared_on c s h \<and> \<not> prepared_on c' s h)"
    using f(3) [of s] effect_own [where h = h and cmd = cmd and L = "log_of (segments c s)"] by (auto simp: prepared_on_def committed_on_def)
  show "prepared_on c' s h \<longrightarrow> prepared_on c s h \<or> cmd = DTX_PROTOCOL_COMMAND_PREPARE"
    using f(3) [of s] effect_own(3) [of h cmd "log_of (segments c s)"] by (auto simp: prepared_on_def)
next
  fix c c' :: Cluster and cmd h info ss r s
  assume ok: "all_at_rest c" and cm: "commits cmd" and "dtx_send (cluster_dispatcher sql quote) cmd h info ss c = (r, c')"
  then have e: "cluster_send cmd h info ss c = (r, c')" by (simp add: cluster_dispatcher_def)
  have f: "log_of (segments c' s) \<in> {log_of (segments c s), finished True h (log_of (segments c s))}"
    "all_good cmd r \<Longrightarrow> s \<in> set ss \<Longrightarrow> log_of (segments c' s) = finished True h (log_of (segments c s))"
    using cluster_send_cases(3,5) [OF ok _ _ e, of s] two_phase_commits [OF cm] effect_commits [OF cm] cm
    by (auto simp: after_success_def commits_def split: if_splits)
  show "prepared_on c s h \<Longrightarrow> prepared_on c' s h \<or> committed_on c' s h"
    using f(1) by (auto simp: prepared_on_def committed_on_def finished_def)
  show "all_good cmd r \<Longrightarrow> s \<in> set ss \<Longrightarrow> \<not> prepared_on c' s h"
    using f(2) by (simp add: prepared_on_def finished_def)
next
  fix c c' :: Cluster and h info ss r s
  let ?P = "DTX_PROTOCOL_COMMAND_PREPARE"
  assume "all_at_rest c" "distinct ss" "\<forall>s \<in> set ss. segment_ready c s"
    "dtx_send (cluster_dispatcher sql quote) ?P h info ss c = (r, c')" "all_good ?P r" "s \<in> set ss"
  then show "prepared_on c' s h"
    using cluster_send_cases(5) [of c ?P ss h info r c' s]
    by (auto simp: cluster_dispatcher_def two_phase_def after_success_def prepared_on_def prepares_def)
next
  fix c c' :: Cluster and answer s and g :: string
  assume "all_at_rest c" "query_prepared (cluster_dispatcher sql quote) c = (answer, c')"
  then show "all_at_rest c' \<and> component_list (cluster_dispatcher sql quote) c' = component_list (cluster_dispatcher sql quote) c \<and>
      prepared_on c' s g = prepared_on c s g \<and> committed_on c' s g = committed_on c s g"
    by (auto simp: cluster_dispatcher_def cluster_query_def all_at_rest_def prepared_on_def committed_on_def)
next
  fix c c' :: Cluster and rows and g :: string
  assume "all_at_rest c" "query_prepared (cluster_dispatcher sql quote) c = (Some rows, c')"
  then show "g \<in> set (concat rows) \<longleftrightarrow> (\<exists>s \<in> set (component_list (cluster_dispatcher sql quote) c). prepared_on c s g)"
    using cluster_query_rows by (simp add: cluster_dispatcher_def)
next
  fix c :: Cluster and s and g :: string
  assume "all_at_rest c"
  then show "all_at_rest (destroy_gangs (cluster_dispatcher sql quote) c) \<and>
      component_list (cluster_dispatcher sql quote) (destroy_gangs (cluster_dispatcher sql quote) c) = component_list (cluster_dispatcher sql quote) c \<and>
      prepared_on (destroy_gangs (cluster_dispatcher sql quote) c) s g = prepared_on c s g \<and>
      committed_on (destroy_gangs (cluster_dispatcher sql quote) c) s g = committed_on c s g"
    using log_of_quit by (simp add: cluster_dispatcher_def cluster_destroy_def all_at_rest_def prepared_on_def committed_on_def)
qed

section \<open>A transaction about to commit\<close>

text \<open>
  The session is at the end of its transaction, the processes of its segments are at rest, and the gid
  is new: neither the log of the master nor a segment knows it.
\<close>

definition at_end :: "XactBlock list \<Rightarrow> bool" where
  "at_end bs \<longleftrightarrow> bs \<noteq> [] \<and> (ending TBLOCK_END bs \<or> blockState (hd bs) = TBLOCK_STARTED \<and> tl bs = [])"

definition new_gid :: "string \<Rightarrow> Cluster Backend \<Rightarrow> bool" where
  "new_gid g b \<longleftrightarrow> list_all (\<lambda>r. \<not> is_commit_of g r \<and> \<not> is_forget_of g r) (wal (node b)) \<and>
     list_all (\<lambda>(committed, l). log_gid l \<noteq> g) (dtm_redo_file (node b)) \<and>
     (\<forall>s. \<not> prepared_on (world b) s g \<and> \<not> committed_on (world b) s g)"

definition about_to_commit :: "string \<Rightarrow> int list \<Rightarrow> Cluster Backend \<Rightarrow> bool" where
  "about_to_commit g ss b \<longleftrightarrow> session_gid b = g \<and> dtxSegments (MyTmGxactLocal b) = ss \<and> new_gid g b \<and> at_end (blocks b) \<and>
     dtx_context b = DTX_CONTEXT_QD_DISTRIBUTED_CAPABLE \<and> dtx_state (MyTmGxactLocal b) = DTX_STATE_ACTIVE_DISTRIBUTED \<and>
     flushed (node b) \<le> length (wal (node b)) \<and>
     distinct ss \<and> set ss \<subseteq> set (members (world b)) \<and> list_all (segment_ready (world b)) ss \<and> all_at_rest (world b)"

lemma component_list_cluster: "component_list (cluster_dispatcher sql quote) = members"
  by (simp add: cluster_dispatcher_def)

lemma about_to_commit_lives:
  assumes "about_to_commit g ss b" "one \<or> executorDidWriteXLog (last (blocks b)) \<and> 2 \<le> length ss"
  shows "cluster.lives sql quote g (set ss) one (Working, b)"
proof -
  have n: "new_gid g b" using assms(1) by (simp add: about_to_commit_def)
  have nl: "\<not> commit_logged g (node b)" "\<not> forget_logged g (node b)" "file_ok g (node b)"
    using n by (auto simp: new_gid_def commit_logged_def forget_logged_def list_all_iff list_ex_iff file_ok_def)
  have "cluster.safe sql quote g (set ss) (node b) (world b)"
    using assms(1) n nl by (simp add: cluster.safe_def about_to_commit_def new_gid_def component_list_cluster)
  then have "cluster.at_state sql quote g (set ss) {DTX_STATE_ACTIVE_DISTRIBUTED} b"
    using assms(1) nl by (auto simp: cluster.at_state_def cluster.consistent_def cluster.phase_def cluster.ready_to_prepare_def
        about_to_commit_def list_all_iff)
  then show ?thesis using assms by (auto simp: cluster.may_end_def about_to_commit_def at_end_def distinct_card)
qed

lemmas life_lives = cluster.life_invariant [OF _ about_to_commit_lives]

section \<open>The example\<close>

lemma ex_about: "about_to_commit ex_gid [0, 1] (ex_master sc)"
proof -
  have "all_at_rest (ex_cluster sc)" "list_all (segment_ready (ex_cluster sc)) [0, 1]"
    using ex_at_rest at_rest_mono by (simp_all add: all_at_rest_def segment_ready_def) blast
  moreover have "new_gid ex_gid (ex_master sc)"
    using ex_at_rest(1) [of sc]
    by (auto simp: new_gid_def prepared_on_def committed_on_def ex_master_def ex_process_def at_rest_log_of [of "{_}"])
  ultimately show ?thesis
    by (simp add: about_to_commit_def at_end_def ending_def session_gid_def dtxFormGID_def ex_gid_def ex_master_def ex_process_def)
      (simp add: ex_cluster_def)
qed

lemma ex_commit: "CommitTransactionCommand ex_dispatcher (ex_master sc) = r \<Longrightarrow> life ex_dispatcher ex_gid (Working, ex_master sc) (status_after Committed (fst r), snd r)"
  using life.commit [of ex_dispatcher "[]" "ex_master sc" "fst r" "snd r"] by (simp add: ex_master_def ex_process_def)

lemma ex_retried: "\<exists>b0. about_to_commit ex_gid [0, 1] b0 \<and> executorDidWriteXLog (last (blocks b0)) \<and>
    (life ex_dispatcher ex_gid)\<^sup>*\<^sup>* (Working, b0) (Committed, snd retried)"
  using ex_about ex_commit [OF retried_def [symmetric]] retried_returns by (force simp: ex_master_def ex_process_def)



section \<open>Properties\<close>





text \<open>
  C3.  A commit that is reported to the client has happened: where the transaction wrote on two
  segments or more, every one of them has committed it when the command that ends it returns.
\<close>

theorem commit_reported_is_done:
  assumes "about_to_commit g ss b0" "executorDidWriteXLog (last (blocks b0))" "2 \<le> length ss"
    "(life (cluster_dispatcher sql quote) g)\<^sup>*\<^sup>* (Working, b0) (Committed, b)" "s \<in> set ss"
  shows "committed_on (world b) s g"
proof -
  have "cluster.resolved g (set ss) False b" using life_lives [OF assms(4,1), of False] assms(2,3) by auto
  then show ?thesis using assms(5) by (simp add: cluster.resolved_def)
qed

theorem commit_reported_is_done_witness:
  "committed_on (world (snd retried)) 0 ex_gid \<and> committed_on (world (snd retried)) 1 ex_gid"
proof -
  obtain b0 where "about_to_commit ex_gid [0, 1] b0" "executorDidWriteXLog (last (blocks b0))"
    "(life ex_dispatcher ex_gid)\<^sup>*\<^sup>* (Working, b0) (Committed, snd retried)"
    using ex_retried by blast
  then show ?thesis using commit_reported_is_done [of ex_gid "[0, 1]" b0] by (auto simp: ex_dispatcher_def)
qed



end
