(* ===== verification/LockTable.thy ===== *)
theory LockTable
  imports Prelude
begin

unbundle bit_operations_syntax

text \<open>
  The shared lock table of \<open>storage/lmgr/lock.c\<close> and the wait queues of
  \<open>storage/lmgr/proc.c\<close>: lock modes and their conflicts, the \<open>LOCK\<close>, \<open>PROCLOCK\<close> and
  \<open>PGPROC\<close> objects in shared memory, and the operations that run while the lock's
  partition is held: entering a request, testing it against the granted locks, granting,
  releasing, waking the waiters and taking a waiter off its queue.

  A \<open>LOCK\<close> lives in a hash table under its tag and is referred to by it; a \<open>PROCLOCK\<close> is
  referred to by the pair of the lock's tag and the holder; a \<open>PGPROC\<close> by its number.  The
  doubly linked queues are lists.
\<close>

section \<open>Modes, masks and conflicts\<close>

type_synonym LOCKMASK = "32 word"
type_synonym LOCKMODE = nat

definition LOCKBIT_ON :: "LOCKMODE \<Rightarrow> LOCKMASK" where
  "LOCKBIT_ON lockmode = push_bit lockmode 1"

definition LOCKBIT_OFF :: "LOCKMODE \<Rightarrow> LOCKMASK" where
  "LOCKBIT_OFF lockmode = NOT (push_bit lockmode 1)"

definition AccessShareLock :: LOCKMODE where "AccessShareLock = 1"
definition RowShareLock :: LOCKMODE where "RowShareLock = 2"
definition RowExclusiveLock :: LOCKMODE where "RowExclusiveLock = 3"
definition ShareUpdateExclusiveLock :: LOCKMODE where "ShareUpdateExclusiveLock = 4"
definition ShareLock :: LOCKMODE where "ShareLock = 5"
definition ShareRowExclusiveLock :: LOCKMODE where "ShareRowExclusiveLock = 6"
definition ExclusiveLock :: LOCKMODE where "ExclusiveLock = 7"
definition AccessExclusiveLock :: LOCKMODE where "AccessExclusiveLock = 8"

lemmas lockmode_defs = AccessShareLock_def RowShareLock_def RowExclusiveLock_def
  ShareUpdateExclusiveLock_def ShareLock_def ShareRowExclusiveLock_def ExclusiveLock_def
  AccessExclusiveLock_def

definition mask_of :: "LOCKMODE list \<Rightarrow> LOCKMASK" where
  "mask_of ms = foldr (\<lambda>m a. LOCKBIT_ON m OR a) ms 0"

definition LockConflicts :: "LOCKMASK list" where
  "LockConflicts =
    [0,
     mask_of [AccessExclusiveLock],
     mask_of [ExclusiveLock, AccessExclusiveLock],
     mask_of [ShareLock, ShareRowExclusiveLock, ExclusiveLock, AccessExclusiveLock],
     mask_of [ShareUpdateExclusiveLock, ShareLock, ShareRowExclusiveLock, ExclusiveLock,
       AccessExclusiveLock],
     mask_of [RowExclusiveLock, ShareUpdateExclusiveLock, ShareRowExclusiveLock, ExclusiveLock,
       AccessExclusiveLock],
     mask_of [RowExclusiveLock, ShareUpdateExclusiveLock, ShareLock, ShareRowExclusiveLock,
       ExclusiveLock, AccessExclusiveLock],
     mask_of [RowShareLock, RowExclusiveLock, ShareUpdateExclusiveLock, ShareLock,
       ShareRowExclusiveLock, ExclusiveLock, AccessExclusiveLock],
     mask_of [AccessShareLock, RowShareLock, RowExclusiveLock, ShareUpdateExclusiveLock,
       ShareLock, ShareRowExclusiveLock, ExclusiveLock, AccessExclusiveLock]]"

record LockMethodData =
  numLockModes :: nat
  conflictTab :: "LOCKMASK list"

definition default_lockmethod :: LockMethodData where
  "default_lockmethod = \<lparr>numLockModes = AccessExclusiveLock, conflictTab = LockConflicts\<rparr>"

definition user_lockmethod :: LockMethodData where
  "user_lockmethod = \<lparr>numLockModes = AccessExclusiveLock, conflictTab = LockConflicts\<rparr>"

definition resource_lockmethod :: LockMethodData where
  "resource_lockmethod = \<lparr>numLockModes = AccessExclusiveLock, conflictTab = LockConflicts\<rparr>"

definition DEFAULT_LOCKMETHOD :: nat where "DEFAULT_LOCKMETHOD = 1"
definition USER_LOCKMETHOD :: nat where "USER_LOCKMETHOD = 2"
definition RESOURCE_LOCKMETHOD :: nat where "RESOURCE_LOCKMETHOD = 3"

definition LockMethods :: "LockMethodData option list" where
  "LockMethods = [None, Some default_lockmethod, Some user_lockmethod, Some resource_lockmethod]"

section \<open>Lock tags\<close>

datatype LockTagType =
    LOCKTAG_RELATION | LOCKTAG_RELATION_EXTEND | LOCKTAG_PAGE | LOCKTAG_TUPLE
  | LOCKTAG_TRANSACTION | LOCKTAG_VIRTUALTRANSACTION | LOCKTAG_RELATION_APPENDONLY_SEGMENT_FILE
  | LOCKTAG_OBJECT | LOCKTAG_RESOURCE_QUEUE | LOCKTAG_USERLOCK | LOCKTAG_ADVISORY

record LOCKTAG =
  locktag_field1 :: uint32
  locktag_field2 :: uint32
  locktag_field3 :: uint32
  locktag_field4 :: uint16
  locktag_type :: LockTagType
  locktag_lockmethodid :: nat

definition SET_LOCKTAG_RELATION :: "Oid \<Rightarrow> Oid \<Rightarrow> LOCKTAG" where
  "SET_LOCKTAG_RELATION dboid reloid =
     \<lparr>locktag_field1 = dboid, locktag_field2 = reloid, locktag_field3 = 0, locktag_field4 = 0,
      locktag_type = LOCKTAG_RELATION, locktag_lockmethodid = DEFAULT_LOCKMETHOD\<rparr>"

definition SET_LOCKTAG_TRANSACTION :: "TransactionId \<Rightarrow> LOCKTAG" where
  "SET_LOCKTAG_TRANSACTION xid =
     \<lparr>locktag_field1 = xid, locktag_field2 = 0, locktag_field3 = 0, locktag_field4 = 0,
      locktag_type = LOCKTAG_TRANSACTION, locktag_lockmethodid = DEFAULT_LOCKMETHOD\<rparr>"

definition SET_LOCKTAG_ADVISORY :: "uint32 \<Rightarrow> uint32 \<Rightarrow> uint32 \<Rightarrow> uint16 \<Rightarrow> LOCKTAG" where
  "SET_LOCKTAG_ADVISORY id1 id2 id3 id4 =
     \<lparr>locktag_field1 = id1, locktag_field2 = id2, locktag_field3 = id3, locktag_field4 = id4,
      locktag_type = LOCKTAG_ADVISORY, locktag_lockmethodid = USER_LOCKMETHOD\<rparr>"

section \<open>The objects in shared memory\<close>

record LOCK =
  grantMask :: LOCKMASK
  waitMask :: LOCKMASK
  procLocks :: "nat list"
  waitProcs :: "nat list"
  requested :: "LOCKMODE \<Rightarrow> int"
  nRequested :: int
  granted :: "LOCKMODE \<Rightarrow> int"
  nGranted :: int
  holdTillEndXact :: bool

record PROCLOCK =
  holdMask :: LOCKMASK
  releaseMask :: LOCKMASK

type_synonym PROCLOCKTAG = "LOCKTAG \<times> nat"

datatype ProcStatus = STATUS_OK | STATUS_ERROR | STATUS_FOUND | STATUS_WAITING

text \<open>
  \<open>linked\<close> tells whether the \<open>links\<close> of the \<open>PGPROC\<close> are in a queue; \<open>sem\<close> counts the wakeups
  its semaphore has saved; \<open>is_autovacuum\<close> is the flag \<open>PROC_IS_AUTOVACUUM\<close> of its
  \<open>vacuumFlags\<close>.
\<close>

record PGPROC =
  linked :: bool
  sem :: nat
  waitStatus :: ProcStatus
  pid :: int
  databaseId :: Oid
  mppSessionId :: int
  is_autovacuum :: bool
  waitLock :: "LOCKTAG option"
  waitProcLock :: "PROCLOCKTAG option"
  waitLockMode :: LOCKMODE
  heldLocks :: LOCKMASK
  myProcLocks :: "nat \<Rightarrow> LOCKTAG list"
  fpLockBits :: uint64
  fpHoldTillEndXactBits :: uint64
  fpRelId :: "Oid list"

definition InvalidGpSessionId :: int where "InvalidGpSessionId = -1"

definition NUM_LOCK_PARTITIONS :: nat where "NUM_LOCK_PARTITIONS = 16"

record LockMem =
  LockMethodLockHash :: "LOCKTAG \<Rightarrow> LOCK option"
  LockMethodProcLockHash :: "PROCLOCKTAG \<Rightarrow> PROCLOCK option"
  allProcs :: "nat \<Rightarrow> PGPROC"
  strong_count :: "nat \<Rightarrow> nat"

text \<open>Reading and writing through a pointer.\<close>

definition lock_at :: "LockMem \<Rightarrow> LOCKTAG \<Rightarrow> LOCK" where
  "lock_at s t = the (LockMethodLockHash s t)"

definition proclock_at :: "LockMem \<Rightarrow> PROCLOCKTAG \<Rightarrow> PROCLOCK" where
  "proclock_at s k = the (LockMethodProcLockHash s k)"

definition set_lock :: "LOCKTAG \<Rightarrow> LOCK \<Rightarrow> LockMem \<Rightarrow> LockMem" where
  "set_lock t l s = s\<lparr>LockMethodLockHash := (LockMethodLockHash s)(t \<mapsto> l)\<rparr>"

definition set_proclock :: "PROCLOCKTAG \<Rightarrow> PROCLOCK \<Rightarrow> LockMem \<Rightarrow> LockMem" where
  "set_proclock k pl s = s\<lparr>LockMethodProcLockHash := (LockMethodProcLockHash s)(k \<mapsto> pl)\<rparr>"

definition set_proc :: "nat \<Rightarrow> PGPROC \<Rightarrow> LockMem \<Rightarrow> LockMem" where
  "set_proc p pr s = s\<lparr>allProcs := (allProcs s)(p := pr)\<rparr>"

section \<open>Operations on the shared table\<close>

text \<open>
  The method table of a lock; the tag of a lock in the table always has a valid method, so that
  the fallback is never used.
\<close>

definition GetLocksMethodTable :: "LOCKTAG \<Rightarrow> LockMethodData" where
  "GetLocksMethodTable t =
     (if 0 < locktag_lockmethodid t \<and> locktag_lockmethodid t < length LockMethods
      then the (LockMethods ! locktag_lockmethodid t) else default_lockmethod)"

definition DoLockModesConflict :: "LOCKMODE \<Rightarrow> LOCKMODE \<Rightarrow> bool" where
  "DoLockModesConflict mode1 mode2 \<longleftrightarrow>
     conflictTab (the (LockMethods ! DEFAULT_LOCKMETHOD)) ! mode1 AND LOCKBIT_ON mode2 \<noteq> 0"

definition CheckWaitLockModeConflictHoldMask :: "LOCKTAG \<Rightarrow> LOCKMODE \<Rightarrow> LOCKMASK \<Rightarrow> bool" where
  "CheckWaitLockModeConflictHoldMask t waitMode holderMask \<longleftrightarrow>
     holderMask AND conflictTab (the (LockMethods ! locktag_lockmethodid t)) ! waitMode \<noteq> 0"

text \<open>
  \<open>SetupLockInTable\<close>: the flags \<open>lock_room\<close> and \<open>proclock_room\<close> tell whether shared memory is
  left for a new entry of either table.  The new \<open>LOCK\<close> is initialised field by field, and
  \<open>holdTillEndXact\<close> is not among the fields: it keeps the value \<open>junk\<close> its memory happens to
  have.
\<close>

definition new_lock :: "bool \<Rightarrow> LOCK" where
  "new_lock junk =
     \<lparr>grantMask = 0, waitMask = 0, procLocks = [], waitProcs = [], requested = (\<lambda>_. 0),
      nRequested = 0, granted = (\<lambda>_. 0), nGranted = 0, holdTillEndXact = junk\<rparr>"

definition request_in_lock :: "LOCKMODE \<Rightarrow> LOCK \<Rightarrow> LOCK" where
  "request_in_lock m l =
     l\<lparr>nRequested := nRequested l + 1, requested := (requested l)(m := requested l m + 1)\<rparr>"

datatype Setup = Setup_NULL | Setup_already_held | Setup_OK

definition add_proclock :: "uint32 \<Rightarrow> LOCKTAG \<Rightarrow> nat \<Rightarrow> LockMem \<Rightarrow> LockMem" where
  "add_proclock hashcode t p s =
     (let partition = unat hashcode mod NUM_LOCK_PARTITIONS;
          l = lock_at s t; pr = allProcs s p in
      set_proclock (t, p) \<lparr>holdMask = 0, releaseMask = 0\<rparr>
       (set_lock t (l\<lparr>procLocks := procLocks l @ [p]\<rparr>)
       (set_proc p (pr\<lparr>myProcLocks := (myProcLocks pr)(partition := myProcLocks pr partition @ [t])\<rparr>)
         s)))"

definition SetupLockInTable ::
  "bool \<Rightarrow> bool \<Rightarrow> bool \<Rightarrow> nat \<Rightarrow> LOCKTAG \<Rightarrow> uint32 \<Rightarrow> LOCKMODE \<Rightarrow> LockMem \<Rightarrow> Setup \<times> LockMem" where
  "SetupLockInTable lock_room proclock_room junk p t hashcode m s =
     (let found = LockMethodLockHash s t \<noteq> None in
      if \<not> found \<and> \<not> lock_room then (Setup_NULL, s) else
      let s1 = (if found then s else set_lock t (new_lock junk) s);
          pfound = LockMethodProcLockHash s1 (t, p) \<noteq> None in
      if \<not> pfound \<and> \<not> proclock_room then
        (Setup_NULL,
         if nRequested (lock_at s1 t) = 0
         then s1\<lparr>LockMethodLockHash := (LockMethodLockHash s1)(t := None)\<rparr> else s1) else
      let s2 = (if pfound then s1 else add_proclock hashcode t p s1);
          s3 = set_lock t (request_in_lock m (lock_at s2 t)) s2 in
      if holdMask (proclock_at s3 (t, p)) AND LOCKBIT_ON m \<noteq> 0 then (Setup_already_held, s3)
      else (Setup_OK, s3))"

text \<open>
  \<open>LockCheckConflicts\<close>: the locks of the requester's own session do not count against it, so
  they are subtracted from the granted ones, mode by mode.
\<close>

definition ourHolding :: "LOCKTAG \<Rightarrow> PROCLOCKTAG \<Rightarrow> LockMem \<Rightarrow> LOCKMODE \<Rightarrow> int" where
  "ourHolding t k s i =
     (let sid = mppSessionId (allProcs s (snd k)) in
      if sid = InvalidGpSessionId
      then (if holdMask (proclock_at s k) AND LOCKBIT_ON i \<noteq> 0 then 1 else 0)
      else int (length (filter (\<lambda>q. mppSessionId (allProcs s q) = sid \<and>
        holdMask (proclock_at s (t, q)) AND LOCKBIT_ON i \<noteq> 0) (procLocks (lock_at s t)))))"

definition otherLocks :: "LockMethodData \<Rightarrow> LOCKTAG \<Rightarrow> PROCLOCKTAG \<Rightarrow> LockMem \<Rightarrow> LOCKMASK" where
  "otherLocks tab t k s =
     foldl (\<lambda>a i. if granted (lock_at s t) i > ourHolding t k s i then a OR LOCKBIT_ON i else a) 0
       [1..<Suc (numLockModes tab)]"

definition LockCheckConflicts ::
  "LockMethodData \<Rightarrow> LOCKMODE \<Rightarrow> LOCKTAG \<Rightarrow> PROCLOCKTAG \<Rightarrow> LockMem \<Rightarrow> ProcStatus" where
  "LockCheckConflicts tab m t k s =
     (if conflictTab tab ! m AND grantMask (lock_at s t) = 0 then STATUS_OK
      else if conflictTab tab ! m AND otherLocks tab t k s = 0 then STATUS_OK
      else STATUS_FOUND)"

definition grant_in_lock :: "LOCKMODE \<Rightarrow> LOCK \<Rightarrow> LOCK" where
  "grant_in_lock m l =
     (let l1 = l\<lparr>nGranted := nGranted l + 1, granted := (granted l)(m := granted l m + 1),
                 grantMask := grantMask l OR LOCKBIT_ON m\<rparr> in
      if granted l1 m = requested l1 m then l1\<lparr>waitMask := waitMask l1 AND LOCKBIT_OFF m\<rparr> else l1)"

definition GrantLock :: "LOCKTAG \<Rightarrow> PROCLOCKTAG \<Rightarrow> LOCKMODE \<Rightarrow> LockMem \<Rightarrow> LockMem" where
  "GrantLock t k m s =
     (let s1 = set_lock t (grant_in_lock m (lock_at s t)) s; pl = proclock_at s1 k in
      set_proclock k (pl\<lparr>holdMask := holdMask pl OR LOCKBIT_ON m\<rparr>) s1)"

definition ungrant_in_lock :: "LOCKMODE \<Rightarrow> LOCK \<Rightarrow> LOCK" where
  "ungrant_in_lock m l =
     (let l1 = l\<lparr>nRequested := nRequested l - 1, requested := (requested l)(m := requested l m - 1),
                 nGranted := nGranted l - 1, granted := (granted l)(m := granted l m - 1)\<rparr> in
      if granted l1 m = 0 then l1\<lparr>grantMask := grantMask l1 AND LOCKBIT_OFF m\<rparr> else l1)"

definition UnGrantLock ::
  "LOCKTAG \<Rightarrow> LOCKMODE \<Rightarrow> PROCLOCKTAG \<Rightarrow> LockMethodData \<Rightarrow> LockMem \<Rightarrow> bool \<times> LockMem" where
  "UnGrantLock t m k tab s =
     (let s1 = set_lock t (ungrant_in_lock m (lock_at s t)) s;
          wakeupNeeded = (conflictTab tab ! m AND waitMask (lock_at s1 t) \<noteq> 0);
          pl = proclock_at s1 k in
      (wakeupNeeded, set_proclock k (pl\<lparr>holdMask := holdMask pl AND LOCKBIT_OFF m\<rparr>) s1))"

text \<open>\<open>ProcWakeup\<close> hands the result to a sleeping process, \<open>ProcLockWakeup\<close> scans the queue.\<close>

definition ProcWakeup :: "nat \<Rightarrow> ProcStatus \<Rightarrow> LockMem \<Rightarrow> LockMem" where
  "ProcWakeup p st s =
     (let pr = allProcs s p in
      if \<not> linked pr then s else
      let t = the (waitLock pr); l = lock_at s t in
      set_proc p (pr\<lparr>linked := False, waitLock := None, waitProcLock := None, waitStatus := st,
        sem := Suc (sem pr)\<rparr>) (set_lock t (l\<lparr>waitProcs := remove1 p (waitProcs l)\<rparr>) s))"

fun wakeup_scan ::
  "LockMethodData \<Rightarrow> LOCKTAG \<Rightarrow> LOCKMASK \<Rightarrow> nat list \<Rightarrow> LockMem \<Rightarrow> LockMem" where
  "wakeup_scan tab t aheadRequests [] s = s"
| "wakeup_scan tab t aheadRequests (p # ps) s =
     (let m = waitLockMode (allProcs s p); k = the (waitProcLock (allProcs s p)) in
      if conflictTab tab ! m AND aheadRequests = 0 \<and> LockCheckConflicts tab m t k s = STATUS_OK
      then wakeup_scan tab t aheadRequests ps (ProcWakeup p STATUS_OK (GrantLock t k m s))
      else wakeup_scan tab t (aheadRequests OR LOCKBIT_ON m) ps s)"

definition ProcLockWakeup :: "LockMethodData \<Rightarrow> LOCKTAG \<Rightarrow> LockMem \<Rightarrow> LockMem" where
  "ProcLockWakeup tab t s = wakeup_scan tab t 0 (waitProcs (lock_at s t)) s"

definition remove_proclock :: "PROCLOCKTAG \<Rightarrow> LockMem \<Rightarrow> LockMem" where
  "remove_proclock k s =
     (let t = fst k; p = snd k; l = lock_at s t; pr = allProcs s p;
          s1 = set_lock t (l\<lparr>procLocks := remove1 p (procLocks l)\<rparr>)
            (set_proc p (pr\<lparr>myProcLocks := \<lambda>i. remove1 t (myProcLocks pr i)\<rparr>) s) in
      s1\<lparr>LockMethodProcLockHash := (LockMethodProcLockHash s1)(k := None)\<rparr>)"

definition CleanUpLock ::
  "LOCKTAG \<Rightarrow> PROCLOCKTAG \<Rightarrow> LockMethodData \<Rightarrow> bool \<Rightarrow> LockMem \<Rightarrow> LockMem" where
  "CleanUpLock t k tab wakeupNeeded s =
     (let s1 = (if holdMask (proclock_at s k) = 0 then remove_proclock k s else s) in
      if nRequested (lock_at s1 t) = 0
      then s1\<lparr>LockMethodLockHash := (LockMethodLockHash s1)(t := None)\<rparr>
      else if wakeupNeeded then ProcLockWakeup tab t s1
      else s1)"

definition unwait_in_lock :: "nat \<Rightarrow> LOCKMODE \<Rightarrow> LOCK \<Rightarrow> LOCK" where
  "unwait_in_lock p m l =
     (let l1 = l\<lparr>waitProcs := remove1 p (waitProcs l), nRequested := nRequested l - 1,
                 requested := (requested l)(m := requested l m - 1)\<rparr> in
      if granted l1 m = requested l1 m then l1\<lparr>waitMask := waitMask l1 AND LOCKBIT_OFF m\<rparr> else l1)"

definition RemoveFromWaitQueue :: "nat \<Rightarrow> LockMem \<Rightarrow> LockMem" where
  "RemoveFromWaitQueue p s =
     (let pr = allProcs s p; t = the (waitLock pr); k = the (waitProcLock pr); m = waitLockMode pr in
      CleanUpLock t k (the (LockMethods ! locktag_lockmethodid t)) True
        (set_proc p (pr\<lparr>linked := False, waitLock := None, waitProcLock := None,
                        waitStatus := STATUS_ERROR\<rparr>)
          (set_lock t (unwait_in_lock p m (lock_at s t)) s)))"

section \<open>Masks and conflicts\<close>

lemma bit_LOCKBIT_ON [simp]: "bit (LOCKBIT_ON m) k \<longleftrightarrow> k = m \<and> m < 32"
  by (auto simp: LOCKBIT_ON_def push_bit_eq_mult bit_exp_iff)

lemma bit_LOCKBIT_OFF [simp]: "bit (LOCKBIT_OFF m) k \<longleftrightarrow> k < 32 \<and> k \<noteq> m"
  by (auto simp: LOCKBIT_OFF_def bit_not_iff push_bit_eq_mult bit_exp_iff)

lemma mask_disjoint: "(a :: LOCKMASK) AND b = 0 \<longleftrightarrow> (\<forall>k < 32. \<not> (bit a k \<and> bit b k))"
  by (auto simp: bit_eq_iff bit_and_iff)

lemma mask_has_mode: "(a :: LOCKMASK) AND LOCKBIT_ON m \<noteq> 0 \<longleftrightarrow> bit a m"
  by (auto simp: mask_disjoint dest: bit_imp_le_length)

lemma mask_eq_0: "(a :: LOCKMASK) = 0 \<longleftrightarrow> (\<forall>k < 32. \<not> bit a k)"
  by (auto simp: bit_eq_iff)

lemma mask_of_simps [simp]: "mask_of [] = 0" "mask_of (m # ms) = LOCKBIT_ON m OR mask_of ms"
  by (simp_all add: mask_of_def)

lemma bit_mask_of: "bit (mask_of ms) k \<longleftrightarrow> k \<in> set ms \<and> k < 32"
  by (induction ms) (auto simp: bit_or_iff)

text \<open>The conflict relation on modes.\<close>

definition conflicts :: "LOCKMODE \<Rightarrow> LOCKMODE \<Rightarrow> bool" where
  "conflicts m k \<longleftrightarrow> bit (LockConflicts ! m) k"

definition valid_mode :: "LOCKMODE \<Rightarrow> bool" where
  "valid_mode m \<longleftrightarrow> 0 < m \<and> m \<le> AccessExclusiveLock"

lemma valid_mode_cases: "valid_mode m \<longleftrightarrow> m \<in> {1, 2, 3, 4, 5, 6, 7, 8}"
  by (auto simp: valid_mode_def AccessExclusiveLock_def)

lemma valid_mode_less: "valid_mode m \<Longrightarrow> m < 32"
  by (simp add: valid_mode_def AccessExclusiveLock_def)

lemma length_LockConflicts [simp]: "length LockConflicts = 9"
  by (simp add: LockConflicts_def)

lemma LockConflicts_modes:
  "valid_mode m \<Longrightarrow> bit (LockConflicts ! m) k \<longleftrightarrow>
     k \<in> (if m = 1 then {8} else if m = 2 then {7, 8} else if m = 3 then {5, 6, 7, 8}
          else if m = 4 then {4, 5, 6, 7, 8} else if m = 5 then {3, 4, 6, 7, 8}
          else if m = 6 then {3, 4, 5, 6, 7, 8} else if m = 7 then {2, 3, 4, 5, 6, 7, 8}
          else {1, 2, 3, 4, 5, 6, 7, 8})"
  unfolding valid_mode_cases
  by (elim insertE emptyE) (simp_all add: LockConflicts_def bit_mask_of lockmode_defs del: mask_of_simps, auto)

lemma conflicts_valid: "valid_mode m \<Longrightarrow> conflicts m k \<Longrightarrow> valid_mode k"
  by (auto simp: conflicts_def LockConflicts_modes valid_mode_cases split: if_splits)

text \<open>The conflict table is symmetric.\<close>

lemma conflicts_sym: "valid_mode m \<Longrightarrow> valid_mode k \<Longrightarrow> conflicts m k \<longleftrightarrow> conflicts k m"
  unfolding conflicts_def
  by (simp only: LockConflicts_modes) (auto simp: valid_mode_cases split: if_splits)

text \<open>Every lock method has this table.\<close>

lemma GetLocksMethodTable_simps [simp]:
  "conflictTab (GetLocksMethodTable t) = LockConflicts" "numLockModes (GetLocksMethodTable t) = 8"
proof -
  have "\<forall>i < 4. 0 < i \<longrightarrow> conflictTab (the (LockMethods ! i)) = LockConflicts \<and> numLockModes (the (LockMethods ! i)) = 8"
    by (simp add: LockMethods_def default_lockmethod_def user_lockmethod_def resource_lockmethod_def
        AccessExclusiveLock_def All_less_Suc numeral_eq_Suc)
  moreover have "length LockMethods = 4" by (simp add: LockMethods_def)
  ultimately show "conflictTab (GetLocksMethodTable t) = LockConflicts" "numLockModes (GetLocksMethodTable t) = 8"
    by (auto simp: GetLocksMethodTable_def default_lockmethod_def AccessExclusiveLock_def)
qed

section \<open>Reading what was written\<close>

lemma set_lock_simps [simp]:
  "LockMethodLockHash (set_lock t l s) = (LockMethodLockHash s)(t \<mapsto> l)"
  "LockMethodProcLockHash (set_lock t l s) = LockMethodProcLockHash s"
  "allProcs (set_lock t l s) = allProcs s"
  "strong_count (set_lock t l s) = strong_count s"
  "lock_at (set_lock t l s) u = (if u = t then l else lock_at s u)"
  "proclock_at (set_lock t l s) k = proclock_at s k"
  by (simp_all add: set_lock_def lock_at_def proclock_at_def)

lemma set_proclock_simps [simp]:
  "LockMethodLockHash (set_proclock k pl s) = LockMethodLockHash s"
  "LockMethodProcLockHash (set_proclock k pl s) = (LockMethodProcLockHash s)(k \<mapsto> pl)"
  "allProcs (set_proclock k pl s) = allProcs s"
  "strong_count (set_proclock k pl s) = strong_count s"
  "lock_at (set_proclock k pl s) u = lock_at s u"
  "proclock_at (set_proclock k pl s) k' = (if k' = k then pl else proclock_at s k')"
  by (simp_all add: set_proclock_def lock_at_def proclock_at_def)

lemma set_proc_simps [simp]:
  "LockMethodLockHash (set_proc p pr s) = LockMethodLockHash s"
  "LockMethodProcLockHash (set_proc p pr s) = LockMethodProcLockHash s"
  "allProcs (set_proc p pr s) = (allProcs s)(p := pr)"
  "strong_count (set_proc p pr s) = strong_count s"
  "lock_at (set_proc p pr s) u = lock_at s u"
  "proclock_at (set_proc p pr s) k = proclock_at s k"
  by (simp_all add: set_proc_def lock_at_def proclock_at_def)

lemma grant_in_lock_simps [simp]:
  "procLocks (grant_in_lock m l) = procLocks l" "waitProcs (grant_in_lock m l) = waitProcs l"
  "requested (grant_in_lock m l) = requested l" "nRequested (grant_in_lock m l) = nRequested l"
  "granted (grant_in_lock m l) = (granted l)(m := granted l m + 1)"
  "nGranted (grant_in_lock m l) = nGranted l + 1"
  "grantMask (grant_in_lock m l) = grantMask l OR LOCKBIT_ON m"
  by (simp_all add: grant_in_lock_def Let_def)

lemma bit_waitMask_grant [simp]:
  "bit (waitMask (grant_in_lock m l)) k \<longleftrightarrow>
     bit (waitMask l) k \<and> \<not> (k = m \<and> granted l m + 1 = requested l m)"
  by (auto simp: grant_in_lock_def Let_def bit_and_iff dest: bit_imp_le_length)

lemma GrantLock_simps [simp]:
  "LockMethodLockHash (GrantLock t k m s) =
     (LockMethodLockHash s)(t \<mapsto> grant_in_lock m (lock_at s t))"
  "allProcs (GrantLock t k m s) = allProcs s"
  "strong_count (GrantLock t k m s) = strong_count s"
  "lock_at (GrantLock t k m s) u = (if u = t then grant_in_lock m (lock_at s t) else lock_at s u)"
  "proclock_at (GrantLock t k m s) k' =
     (if k' = k then (proclock_at s k)\<lparr>holdMask := holdMask (proclock_at s k) OR LOCKBIT_ON m\<rparr>
      else proclock_at s k')"
  "LockMethodProcLockHash (GrantLock t k m s) = (LockMethodProcLockHash s)
     (k \<mapsto> (proclock_at s k)\<lparr>holdMask := holdMask (proclock_at s k) OR LOCKBIT_ON m\<rparr>)"
  by (simp_all add: GrantLock_def Let_def)

section \<open>The wait queues\<close>

definition waits_on :: "LockMem \<Rightarrow> nat \<Rightarrow> LOCKTAG \<Rightarrow> bool" where
  "waits_on s p t \<longleftrightarrow> linked (allProcs s p) \<and> waitLock (allProcs s p) = Some t"

text \<open>
  The processes linked in a queue are those whose \<open>waitLock\<close> says so, each once.
\<close>

definition queues_ok :: "LockMem \<Rightarrow> bool" where
  "queues_ok s \<longleftrightarrow>
     (\<forall>t l. LockMethodLockHash s t = Some l \<longrightarrow>
        distinct (waitProcs l) \<and> (\<forall>p. p \<in> set (waitProcs l) \<longleftrightarrow> waits_on s p t)) \<and>
     (\<forall>p t. waits_on s p t \<longrightarrow> LockMethodLockHash s t \<noteq> None \<and> waitProcLock (allProcs s p) = Some (t, p))"

lemma queues_okD:
  assumes "queues_ok s"
  shows "waits_on s p t \<Longrightarrow> p \<in> set (waitProcs (lock_at s t))"
    "waits_on s p t \<Longrightarrow> distinct (waitProcs (lock_at s t))"
    "waits_on s p t \<Longrightarrow> waitProcLock (allProcs s p) = Some (t, p)"
    "LockMethodLockHash s t \<noteq> None \<Longrightarrow> p \<in> set (waitProcs (lock_at s t)) \<Longrightarrow> waits_on s p t"
    "LockMethodLockHash s t \<noteq> None \<Longrightarrow> distinct (waitProcs (lock_at s t))"
    "waits_on s p t \<Longrightarrow> LockMethodLockHash s t \<noteq> None"
  using assms by (fastforce simp: queues_ok_def lock_at_def)+

text \<open>Granting a waiter its lock and waking it.\<close>

definition wake1 :: "LOCKTAG \<Rightarrow> nat \<Rightarrow> LockMem \<Rightarrow> LockMem" where
  "wake1 t p s = ProcWakeup p STATUS_OK (GrantLock t (t, p) (waitLockMode (allProcs s p)) s)"

definition woken_proc :: "PGPROC \<Rightarrow> PGPROC" where
  "woken_proc pr = pr\<lparr>linked := False, waitLock := None, waitProcLock := None, waitStatus := STATUS_OK,
     sem := Suc (sem pr)\<rparr>"

lemma wake1_simps:
  assumes "waits_on s p t"
  shows "allProcs (wake1 t p s) = (allProcs s)(p := woken_proc (allProcs s p))"
    "LockMethodLockHash (wake1 t p s) = (LockMethodLockHash s)
       (t \<mapsto> (grant_in_lock (waitLockMode (allProcs s p)) (lock_at s t))
             \<lparr>waitProcs := remove1 p (waitProcs (lock_at s t))\<rparr>)"
    "lock_at (wake1 t p s) u = (if u = t then (grant_in_lock (waitLockMode (allProcs s p)) (lock_at s t))
       \<lparr>waitProcs := remove1 p (waitProcs (lock_at s t))\<rparr> else lock_at s u)"
    "proclock_at (wake1 t p s) k = (if k = (t, p) then (proclock_at s k)
       \<lparr>holdMask := holdMask (proclock_at s k) OR LOCKBIT_ON (waitLockMode (allProcs s p))\<rparr>
       else proclock_at s k)"
    "LockMethodProcLockHash (wake1 t p s) = (LockMethodProcLockHash s)((t, p) \<mapsto> (proclock_at s (t, p))
       \<lparr>holdMask := holdMask (proclock_at s (t, p)) OR LOCKBIT_ON (waitLockMode (allProcs s p))\<rparr>)"
    "strong_count (wake1 t p s) = strong_count s"
  using assms by (auto simp: wake1_def ProcWakeup_def waits_on_def Let_def woken_proc_def)

lemma wake1_waits:
  assumes "waits_on s p t"
  shows "waits_on (wake1 t p s) q u \<longleftrightarrow> waits_on s q u \<and> q \<noteq> p"
  using assms by (auto simp: waits_on_def wake1_simps woken_proc_def)

lemma queues_ok_wake1:
  assumes "queues_ok s" "waits_on s p t"
  shows "queues_ok (wake1 t p s)"
proof -
  have "distinct (waitProcs l) \<and> (\<forall>q. q \<in> set (waitProcs l) \<longleftrightarrow> waits_on (wake1 t p s) q u)"
    if "LockMethodLockHash (wake1 t p s) u = Some l" for u l
  proof (cases "u = t")
    case True
    then have "waitProcs l = remove1 p (waitProcs (lock_at s t))"
      using that assms(2) by (auto simp: wake1_simps)
    moreover have "distinct (waitProcs (lock_at s t))" "q \<in> set (waitProcs (lock_at s t)) \<longleftrightarrow> waits_on s q t" for q
      using queues_okD(1,2,4,6) [OF assms(1)] assms(2) by blast+
    ultimately show ?thesis
      using True by (simp add: wake1_waits [OF assms(2)])
  next
    case False
    then have "LockMethodLockHash s u = Some l" using that assms(2) by (simp add: wake1_simps)
    then have "distinct (waitProcs l)" "\<And>q. q \<in> set (waitProcs l) \<longleftrightarrow> waits_on s q u"
      using assms(1) by (auto simp: queues_ok_def)
    moreover have "\<not> waits_on s p u" using False assms(2) by (auto simp: waits_on_def)
    ultimately show ?thesis by (auto simp: wake1_waits [OF assms(2)])
  qed
  moreover have "LockMethodLockHash (wake1 t p s) u \<noteq> None \<and>
      waitProcLock (allProcs (wake1 t p s) q) = Some (u, q)" if "waits_on (wake1 t p s) q u" for q u
    using that assms queues_okD(3,6) [OF assms(1), of q u] by (auto simp: wake1_waits wake1_simps)
  ultimately show ?thesis unfolding queues_ok_def by blast
qed

text \<open>\<open>ProcLockWakeup\<close> wakes some of the waiters of its lock and does nothing else.\<close>

inductive wakes :: "LOCKTAG \<Rightarrow> LockMem \<Rightarrow> LockMem \<Rightarrow> bool" for t where
  wakes_refl: "wakes t s s"
| wakes_step: "wakes t s s1 \<Longrightarrow> waits_on s1 p t \<Longrightarrow> wakes t s (wake1 t p s1)"

lemma wakes_trans: "wakes t s1 s2 \<Longrightarrow> wakes t s s1 \<Longrightarrow> wakes t s s2"
  by (induction rule: wakes.induct) (auto intro: wakes_step)

lemma wakes_queues_ok: "wakes t s s' \<Longrightarrow> queues_ok s \<Longrightarrow> queues_ok s'"
  by (induction rule: wakes.induct) (auto intro: queues_ok_wake1)

lemma wakeup_scan_Cons:
  assumes "queues_ok s" "waits_on s p t"
  shows "wakeup_scan tab t ahead (p # ps) s =
     (if conflictTab tab ! waitLockMode (allProcs s p) AND ahead = 0 \<and>
         LockCheckConflicts tab (waitLockMode (allProcs s p)) t (t, p) s = STATUS_OK
      then wakeup_scan tab t ahead ps (wake1 t p s)
      else wakeup_scan tab t (ahead OR LOCKBIT_ON (waitLockMode (allProcs s p))) ps s)"
  using queues_okD(3) [OF assms] by (simp add: Let_def wake1_def)

lemma wakeup_scan_wakes:
  "queues_ok s \<Longrightarrow> distinct ps \<Longrightarrow> \<forall>p\<in>set ps. waits_on s p t \<Longrightarrow> wakes t s (wakeup_scan tab t ahead ps s)"
proof (induction ps arbitrary: s ahead)
  case (Cons p ps)
  let ?s1 = "wake1 t p s"
  have p: "waits_on s p t" using Cons.prems by simp
  have "wakes t ?s1 (wakeup_scan tab t ahead ps ?s1)"
    using Cons.IH [of ?s1] queues_ok_wake1 [OF Cons.prems(1) p] Cons.prems by (auto simp: wake1_waits)
  then have "wakes t s (wakeup_scan tab t ahead ps ?s1)"
    using wakes_trans wakes_step [OF wakes_refl p] by blast
  moreover have "wakes t s (wakeup_scan tab t a ps s)" for a using Cons by simp
  ultimately show ?case unfolding wakeup_scan_Cons [OF Cons.prems(1) p] by simp
qed (simp add: wakes_refl)

lemma ProcLockWakeup_wakes:
  "queues_ok s \<Longrightarrow> LockMethodLockHash s t \<noteq> None \<Longrightarrow> wakes t s (ProcLockWakeup tab t s)"
  unfolding ProcLockWakeup_def by (rule wakeup_scan_wakes) (auto dest: queues_okD)

end
