(* ===== verification/Deadlock.thy ===== *)
theory Deadlock
  imports LockTable
begin

unbundle bit_operations_syntax

text \<open>
  The deadlock detector of \<open>storage/lmgr/deadlock.c\<close>: the search for a cycle of the
  waits-for graph through a process, the topological sort that rearranges a wait queue to obey
  a set of constraints, the search for a set of constraints that leaves no deadlock, and the
  rearrangement of the queues.  The work space of the detector, a set of arrays allocated for
  \<open>MaxBackends\<close> entries, is a record; writing past the end of an array is the error \<open>Overrun\<close>.
\<close>

section \<open>The work space\<close>

record EDGE =
  waiter :: nat
  blocker :: nat

record DEADLOCK_INFO =
  info_locktag :: LOCKTAG
  info_lockmode :: LOCKMODE
  info_pid :: int

datatype DeadlockError =
    Overrun
  | Assert_failed
  | Fatal_disappeared     \<comment> \<open>deadlock seems to have disappeared\<close>
  | Fatal_inconsistent    \<comment> \<open>inconsistent results during deadlock check\<close>

type_synonym WAIT_ORDER = "LOCKTAG \<times> nat list"

record DeadlockWork =
  visitedProcs :: "nat list"
  waitOrders :: "WAIT_ORDER list"
  softEdges :: "EDGE list"
  deadlockDetails :: "DEADLOCK_INFO list"
  nDeadlockDetails :: nat
  blocking_autovacuum_proc :: "nat option"

datatype DeadLockState =
  DS_NOT_YET_CHECKED | DS_NO_DEADLOCK | DS_SOFT_DEADLOCK | DS_HARD_DEADLOCK
  | DS_BLOCKED_BY_AUTOVACUUM

definition GetBlockingAutoVacuumPgproc :: "DeadlockWork \<Rightarrow> nat option \<times> DeadlockWork" where
  "GetBlockingAutoVacuumPgproc w =
     (blocking_autovacuum_proc w, w\<lparr>blocking_autovacuum_proc := None\<rparr>)"

definition RememberSimpleDeadLock ::
  "nat \<Rightarrow> LOCKMODE \<Rightarrow> LOCKTAG \<Rightarrow> nat \<Rightarrow> LockMem \<Rightarrow> DeadlockWork \<Rightarrow> DeadlockWork" where
  "RememberSimpleDeadLock proc1 lockmode lock proc2 s w =
     w\<lparr>deadlockDetails := (deadlockDetails w)
         [0 := \<lparr>info_locktag = lock, info_lockmode = lockmode, info_pid = pid (allProcs s proc1)\<rparr>,
          1 := \<lparr>info_locktag = the (waitLock (allProcs s proc2)),
                info_lockmode = waitLockMode (allProcs s proc2), info_pid = pid (allProcs s proc2)\<rparr>],
       nDeadlockDetails := 2\<rparr>"

section \<open>The search for a cycle\<close>

text \<open>
  The processes a waiting process is blocked by: hard, when they hold a conflicting lock on the
  object, in the order of the lock's list of holders; soft, when they are ahead of it in the
  wait queue with a conflicting request.  A proposed order of the queue is believed in
  preference to the actual one.
\<close>

definition holds_conflicting :: "LockMem \<Rightarrow> LOCKTAG \<Rightarrow> LOCKMASK \<Rightarrow> nat \<Rightarrow> bool" where
  "holds_conflicting s t conflictMask q \<longleftrightarrow>
     list_ex (\<lambda>lm. holdMask (proclock_at s (t, q)) AND LOCKBIT_ON lm \<noteq> 0 \<and>
                   conflictMask AND LOCKBIT_ON lm \<noteq> 0)
       [1..<Suc (numLockModes (GetLocksMethodTable t))]"

definition hard_blockers :: "LockMem \<Rightarrow> LOCKTAG \<Rightarrow> nat \<Rightarrow> nat list" where
  "hard_blockers s t p =
     filter (\<lambda>q. q \<noteq> p \<and> holds_conflicting s t
               (conflictTab (GetLocksMethodTable t) ! waitLockMode (allProcs s p)) q)
       (procLocks (lock_at s t))"

definition queue_order :: "LockMem \<Rightarrow> WAIT_ORDER list \<Rightarrow> LOCKTAG \<Rightarrow> nat list" where
  "queue_order s orders t =
     (case map_of orders t of Some procs \<Rightarrow> procs | None \<Rightarrow> waitProcs (lock_at s t))"

definition soft_blockers :: "LockMem \<Rightarrow> WAIT_ORDER list \<Rightarrow> LOCKTAG \<Rightarrow> nat \<Rightarrow> nat list" where
  "soft_blockers s orders t p =
     filter (\<lambda>q. push_bit (waitLockMode (allProcs s q)) 1 AND
               conflictTab (GetLocksMethodTable t) ! waitLockMode (allProcs s p) \<noteq> 0)
       (takeWhile (\<lambda>q. q \<noteq> p) (queue_order s orders t))"

text \<open>
  The loop over the blockers: \<open>visit\<close> is the recursive call, \<open>after\<close> what the loop does when the
  call found no cycle.
\<close>

fun scan_blockers ::
  "(nat \<Rightarrow> DeadlockWork \<Rightarrow> DeadlockError + bool \<times> DeadlockWork) \<Rightarrow>
   (nat \<Rightarrow> DeadlockWork \<Rightarrow> DeadlockWork) \<Rightarrow> nat list \<Rightarrow> DeadlockWork \<Rightarrow>
   DeadlockError + nat option \<times> DeadlockWork" where
  "scan_blockers visit after [] w = Inr (None, w)"
| "scan_blockers visit after (q # qs) w =
     bindE (visit q w) (\<lambda>(found, w1).
       if found then Inr (Some q, w1) else scan_blockers visit after qs (after q w1))"

definition note_autovacuum ::
  "LockMem \<Rightarrow> nat \<Rightarrow> nat \<Rightarrow> nat \<Rightarrow> DeadlockWork \<Rightarrow> DeadlockWork" where
  "note_autovacuum s me checkProc q w =
     (if checkProc = me \<and> is_autovacuum (allProcs s q)
      then w\<lparr>blocking_autovacuum_proc := Some q\<rparr> else w)"

definition deadlock_info :: "LockMem \<Rightarrow> nat \<Rightarrow> DEADLOCK_INFO" where
  "deadlock_info s p =
     \<lparr>info_locktag = the (waitLock (allProcs s p)), info_lockmode = waitLockMode (allProcs s p),
      info_pid = pid (allProcs s p)\<rparr>"

definition fill_details :: "LockMem \<Rightarrow> nat \<Rightarrow> nat \<Rightarrow> DeadlockWork \<Rightarrow> DeadlockWork" where
  "fill_details s depth p w =
     w\<lparr>deadlockDetails := (deadlockDetails w)[depth := deadlock_info s p]\<rparr>"

text \<open>
  \<open>n\<close> is the C array size \<open>MaxBackends\<close>.  A call appends to \<open>visitedProcs\<close> before it calls
  itself, so that the array is full after \<open>n\<close> nested calls and the fuel, one more than \<open>n\<close>, is
  never used up.
\<close>

fun FindLockCycleRecurse ::
  "nat \<Rightarrow> nat \<Rightarrow> LockMem \<Rightarrow> nat \<Rightarrow> nat \<Rightarrow> nat \<Rightarrow> DeadlockWork \<Rightarrow> DeadlockError + bool \<times> DeadlockWork" where
  "FindLockCycleRecurse n me s 0 depth checkProc w = Inl Overrun"
| "FindLockCycleRecurse n me s (Suc fuel) depth checkProc w =
     (if checkProc \<in> set (visitedProcs w) then
        (if checkProc = hd (visitedProcs w) then Inr (True, w\<lparr>nDeadlockDetails := depth\<rparr>)
         else Inr (False, w))
      else if n \<le> length (visitedProcs w) then Inl Overrun
      else
        let w1 = w\<lparr>visitedProcs := visitedProcs w @ [checkProc]\<rparr>; pr = allProcs s checkProc in
        if \<not> linked pr then Inr (False, w1)
        else case waitLock pr of
          None \<Rightarrow> Inr (False, w1)
        | Some t \<Rightarrow>
            bindE (scan_blockers (FindLockCycleRecurse n me s fuel (Suc depth))
                     (note_autovacuum s me checkProc) (hard_blockers s t checkProc) w1)
              (\<lambda>(hard, w2).
                if hard \<noteq> None then Inr (True, fill_details s depth checkProc w2)
                else bindE (scan_blockers (FindLockCycleRecurse n me s fuel (Suc depth))
                              (\<lambda>_ w. w) (soft_blockers s (waitOrders w2) t checkProc) w2)
                  (\<lambda>(soft, w3).
                    case soft of
                      Some q \<Rightarrow>
                        Inr (True, (fill_details s depth checkProc w3)
                               \<lparr>softEdges := softEdges w3 @ [\<lparr>waiter = checkProc, blocker = q\<rparr>]\<rparr>)
                    | None \<Rightarrow> Inr (False, w3))))"

definition FindLockCycle ::
  "nat \<Rightarrow> nat \<Rightarrow> LockMem \<Rightarrow> nat \<Rightarrow> DeadlockWork \<Rightarrow> DeadlockError + bool \<times> DeadlockWork" where
  "FindLockCycle n me s checkProc w =
     FindLockCycleRecurse n me s (Suc n) 0 checkProc
       (w\<lparr>visitedProcs := [], nDeadlockDetails := 0, softEdges := []\<rparr>)"

section \<open>The topological sort of a wait queue\<close>

definition find_proc :: "nat \<Rightarrow> nat list \<Rightarrow> nat option" where
  "find_proc p topo = find (\<lambda>j. topo ! j = p) (rev [0..<length topo])"

text \<open>
  \<open>before ! j\<close> counts the constraints by which the \<open>j\<close>'th process must come before another one,
  \<open>after ! k\<close> is the list, threaded through the \<open>pred\<close> and \<open>link\<close> fields of the constraints in C,
  of the positions of the processes that must come before the \<open>k\<close>'th.
\<close>

fun topo_count ::
  "LockMem \<Rightarrow> LOCKTAG \<Rightarrow> nat list \<Rightarrow> EDGE list \<Rightarrow> int list \<Rightarrow> nat list list \<Rightarrow>
   DeadlockError + int list \<times> nat list list" where
  "topo_count s t topo [] before after = Inr (before, after)"
| "topo_count s t topo (e # es) before after =
     (if waitLock (allProcs s (waiter e)) \<noteq> Some t then topo_count s t topo es before after
      else case find_proc (waiter e) topo of
        None \<Rightarrow> Inl Assert_failed
      | Some j \<Rightarrow>
          (case find_proc (blocker e) topo of
             None \<Rightarrow> Inl Assert_failed
           | Some k \<Rightarrow> topo_count s t topo es (before[j := before ! j + 1])
                        (after[k := j # after ! k])))"

fun skip_null :: "nat option list \<Rightarrow> nat \<Rightarrow> nat" where
  "skip_null topo 0 = 0"
| "skip_null topo (Suc l) = (if topo ! Suc l = None then skip_null topo l else Suc l)"

fun find_candidate :: "nat option list \<Rightarrow> int list \<Rightarrow> nat \<Rightarrow> nat option" where
  "find_candidate topo before 0 = None"
| "find_candidate topo before (Suc j) =
     (if topo ! j \<noteq> None \<and> before ! j = 0 then Some j else find_candidate topo before j)"

definition release_preds :: "nat list \<Rightarrow> int list \<Rightarrow> int list" where
  "release_preds preds before = foldl (\<lambda>b i. b[i := b ! i - 1]) before preds"

fun topo_output ::
  "nat \<Rightarrow> nat option list \<Rightarrow> int list \<Rightarrow> nat list list \<Rightarrow> nat \<Rightarrow> nat list \<Rightarrow> nat list option" where
  "topo_output 0 topo before after lst newOrder = Some newOrder"
| "topo_output (Suc i) topo before after lst newOrder =
     (let last1 = skip_null topo lst in
      case find_candidate topo before (Suc last1) of
        None \<Rightarrow> None
      | Some j \<Rightarrow> topo_output i (topo[j := None]) (release_preds (after ! j) before) after last1
                    (the (topo ! j) # newOrder))"

definition TopoSort ::
  "LockMem \<Rightarrow> LOCKTAG \<Rightarrow> EDGE list \<Rightarrow> DeadlockError + nat list option" where
  "TopoSort s t constraints =
     (let queue = waitProcs (lock_at s t); queue_size = length queue in
      bindE (topo_count s t queue constraints (replicate queue_size 0) (replicate queue_size []))
        (\<lambda>(before, after).
          Inr (topo_output queue_size (map Some queue) before after (queue_size - 1) [])))"

section \<open>Expanding constraints into queue orders\<close>

text \<open>The arrays \<open>waitOrders\<close> and \<open>waitOrderProcs\<close> have \<open>n div 2\<close> and \<open>n\<close> entries.\<close>

fun expand_from ::
  "nat \<Rightarrow> LockMem \<Rightarrow> EDGE list \<Rightarrow> nat \<Rightarrow> WAIT_ORDER list \<Rightarrow> DeadlockError + bool \<times> WAIT_ORDER list" where
  "expand_from n s constraints 0 orders = Inr (True, orders)"
| "expand_from n s constraints (Suc i) orders =
     (let t = the (waitLock (allProcs s (waiter (constraints ! i)))) in
      if t \<in> set (map fst orders) then expand_from n s constraints i orders
      else if n div 2 \<le> length orders \<or>
              n < sum_list (map (length \<circ> snd) orders) + length (waitProcs (lock_at s t))
      then Inl Overrun
      else bindE (TopoSort s t (take (Suc i) constraints)) (\<lambda>result.
        case result of
          None \<Rightarrow> Inr (False, orders)
        | Some newOrder \<Rightarrow> expand_from n s constraints i (orders @ [(t, newOrder)])))"

definition ExpandConstraints ::
  "nat \<Rightarrow> LockMem \<Rightarrow> EDGE list \<Rightarrow> DeadlockWork \<Rightarrow> DeadlockError + bool \<times> DeadlockWork" where
  "ExpandConstraints n s constraints w =
     bindE (expand_from n s constraints (length constraints) [])
       (\<lambda>(ok, orders). Inr (ok, w\<lparr>waitOrders := orders\<rparr>))"

section \<open>The search for a configuration without deadlock\<close>

text \<open>
  The result of \<open>TestConfiguration\<close>: \<open>None\<close> for -1, otherwise the soft edges it leaves at
  \<open>possibleConstraints + nPossibleConstraints\<close>, whose number it returns.
\<close>

fun test_procs ::
  "nat \<Rightarrow> nat \<Rightarrow> LockMem \<Rightarrow> nat list \<Rightarrow> EDGE list \<Rightarrow> DeadlockWork \<Rightarrow>
   DeadlockError + EDGE list option \<times> DeadlockWork" where
  "test_procs n me s [] softFound w = Inr (Some softFound, w)"
| "test_procs n me s (p # ps) softFound w =
     bindE (FindLockCycle n me s p w) (\<lambda>(found, w1).
       if found then
         (if softEdges w1 = [] then Inr (None, w1) else test_procs n me s ps (softEdges w1) w1)
       else test_procs n me s ps softFound w1)"

definition maxPossibleConstraints :: "nat \<Rightarrow> nat" where
  "maxPossibleConstraints n = n * 4"

definition TestConfiguration ::
  "nat \<Rightarrow> nat \<Rightarrow> LockMem \<Rightarrow> nat \<Rightarrow> EDGE list \<Rightarrow> nat \<Rightarrow> DeadlockWork \<Rightarrow>
   DeadlockError + EDGE list option \<times> DeadlockWork" where
  "TestConfiguration n me s startProc curConstraints nPossibleConstraints w =
     (if nPossibleConstraints + n > maxPossibleConstraints n then Inr (None, w)
      else bindE (ExpandConstraints n s curConstraints w) (\<lambda>(ok, w1).
        if \<not> ok then Inr (None, w1)
        else test_procs n me s
               (concat (map (\<lambda>e. [waiter e, blocker e]) curConstraints) @ [startProc]) [] w1))"

text \<open>
  The loop over the soft edges: \<open>attempt\<close> adds an edge to the constraints and recurses, \<open>again\<close>
  regenerates the list when it could not be saved.
\<close>

fun try_edges ::
  "(EDGE \<Rightarrow> DeadlockWork \<Rightarrow> DeadlockError + bool \<times> DeadlockWork) \<Rightarrow>
   (DeadlockWork \<Rightarrow> DeadlockError + EDGE list option \<times> DeadlockWork) \<Rightarrow>
   bool \<Rightarrow> nat \<Rightarrow> nat \<Rightarrow> EDGE list \<Rightarrow> DeadlockWork \<Rightarrow> DeadlockError + bool \<times> DeadlockWork" where
  "try_edges attempt again savedList nEdges i [] w = Inr (True, w)"
| "try_edges attempt again savedList nEdges i (e # es) w =
     bindE (if \<not> savedList \<and> 0 < i
            then bindE (again w) (\<lambda>(edges, w1).
              case edges of
                None \<Rightarrow> Inl Fatal_inconsistent
              | Some es1 \<Rightarrow> if length es1 \<noteq> nEdges then Inl Fatal_inconsistent else Inr (es1 ! i, w1))
            else Inr (e, w))
       (\<lambda>(edge, w1). bindE (attempt edge w1) (\<lambda>(hard, w2).
          if \<not> hard then Inr (False, w2)
          else try_edges attempt again savedList nEdges (Suc i) es w2))"

text \<open>\<open>room\<close> is \<open>maxCurConstraints - nCurConstraints\<close>.\<close>

fun DeadLockCheckRecurse ::
  "nat \<Rightarrow> nat \<Rightarrow> LockMem \<Rightarrow> nat \<Rightarrow> nat \<Rightarrow> EDGE list \<Rightarrow> nat \<Rightarrow> DeadlockWork \<Rightarrow>
   DeadlockError + bool \<times> DeadlockWork" where
  "DeadLockCheckRecurse n me s proc room curConstraints nPossibleConstraints w =
     bindE (TestConfiguration n me s proc curConstraints nPossibleConstraints w) (\<lambda>(edges, w1).
       case edges of
         None \<Rightarrow> Inr (True, w1)
       | Some es \<Rightarrow>
           if es = [] then Inr (False, w1)
           else case room of
             0 \<Rightarrow> Inr (True, w1)
           | Suc room1 \<Rightarrow>
               let savedList =
                     (nPossibleConstraints + length es + n \<le> maxPossibleConstraints n);
                   nPossible1 = (if savedList then nPossibleConstraints + length es
                                 else nPossibleConstraints) in
               try_edges
                 (\<lambda>e. DeadLockCheckRecurse n me s proc room1 (curConstraints @ [e]) nPossible1)
                 (TestConfiguration n me s proc curConstraints nPossible1)
                 savedList (length es) 0 es w1)"

declare DeadLockCheckRecurse.simps [simp del]

section \<open>The check\<close>

definition rearrange :: "WAIT_ORDER \<Rightarrow> LockMem \<Rightarrow> LockMem" where
  "rearrange order s =
     (let t = fst order; procs = snd order;
          s1 = set_lock t ((lock_at s t)\<lparr>waitProcs := procs\<rparr>) s;
          s2 = s1\<lparr>allProcs := \<lambda>p. if p \<in> set procs then (allProcs s1 p)\<lparr>linked := True\<rparr>
                                   else allProcs s1 p\<rparr> in
      if locktag_type t \<noteq> LOCKTAG_RESOURCE_QUEUE then ProcLockWakeup (GetLocksMethodTable t) t s2
      else s2)"

definition DeadLockCheck ::
  "nat \<Rightarrow> nat \<Rightarrow> nat \<Rightarrow> LockMem \<Rightarrow> DeadlockWork \<Rightarrow>
   DeadlockError + DeadLockState \<times> LockMem \<times> DeadlockWork" where
  "DeadLockCheck n me proc s w =
     bindE (DeadLockCheckRecurse n me s proc n [] 0
              (w\<lparr>waitOrders := [], blocking_autovacuum_proc := None\<rparr>))
       (\<lambda>(hard, w1).
         if hard then
           bindE (FindLockCycle n me s proc (w1\<lparr>waitOrders := []\<rparr>)) (\<lambda>(found, w2).
             if \<not> found then Inl Fatal_disappeared else Inr (DS_HARD_DEADLOCK, s, w2))
         else
           Inr (if waitOrders w1 \<noteq> [] then DS_SOFT_DEADLOCK
                else if blocking_autovacuum_proc w1 \<noteq> None then DS_BLOCKED_BY_AUTOVACUUM
                else DS_NO_DEADLOCK,
                fold rearrange (waitOrders w1) s, w1))"

text \<open>\<open>InitDeadLockChecking\<close> allocates the arrays; \<open>junk\<close> is what their memory happens to hold.\<close>

definition InitDeadLockChecking :: "nat \<Rightarrow> DEADLOCK_INFO \<Rightarrow> DeadlockWork" where
  "InitDeadLockChecking n junk =
     \<lparr>visitedProcs = [], waitOrders = [], softEdges = [], deadlockDetails = replicate n junk,
      nDeadlockDetails = 0, blocking_autovacuum_proc = None\<rparr>"

end
