(* ===== verification/DeadlockTopo.thy ===== *)
theory DeadlockTopo
  imports Deadlock
begin

text \<open>
  \<open>TopoSort\<close> is correct: it returns a permutation of the wait queue that obeys the
  constraints, and fails only when no order of the queue obeys them.
\<close>

section \<open>Order in a list\<close>

definition before_in :: "'a list \<Rightarrow> 'a \<Rightarrow> 'a \<Rightarrow> bool" where
  "before_in xs a b \<longleftrightarrow> b \<in> set xs \<and> a \<in> set (takeWhile (\<lambda>x. x \<noteq> b) xs)"

lemma before_in_Cons:
  "before_in (x # xs) a b \<longleftrightarrow> x \<noteq> b \<and> b \<in> set xs \<and> (a = x \<or> before_in xs a b)"
  by (cases "x = b") (auto simp: before_in_def)

lemma before_in_Nil [simp]: "\<not> before_in [] a b"
  by (simp add: before_in_def)

lemma before_in_set: "before_in xs a b \<Longrightarrow> a \<in> set xs \<and> b \<in> set xs"
  by (auto simp: before_in_def dest: set_takeWhileD)

lemma before_in_irrefl [simp]: "\<not> before_in xs a a"
  by (auto simp: before_in_def dest: set_takeWhileD)

lemma before_in_asym: "before_in xs a b \<Longrightarrow> \<not> before_in xs b a"
  by (induction xs) (auto simp: before_in_Cons)

lemma before_in_linear:
  "a \<in> set xs \<Longrightarrow> b \<in> set xs \<Longrightarrow> a \<noteq> b \<Longrightarrow> before_in xs a b \<or> before_in xs b a"
  by (induction xs) (auto simp: before_in_Cons)

lemma before_in_last:
  "A \<noteq> {} \<Longrightarrow> A \<subseteq> set xs \<Longrightarrow> \<exists>a\<in>A. \<forall>b\<in>A. \<not> before_in xs a b"
proof (induction xs arbitrary: A)
  case (Cons x xs)
  show ?case
  proof (cases "A - {x} = {}")
    case True
    then have "A = {x}" using Cons.prems by auto
    then show ?thesis by (simp add: before_in_def)
  next
    case False
    then obtain a where a: "a \<in> A - {x}" "\<forall>b\<in>A - {x}. \<not> before_in xs a b"
      using Cons.IH [of "A - {x}"] Cons.prems by auto
    then show ?thesis by (intro bexI [of _ a]) (auto simp: before_in_Cons)
  qed
qed simp

text \<open>An order of a queue obeys constraints when every waiter comes before its blocker.\<close>

definition obeys :: "nat list \<Rightarrow> EDGE list \<Rightarrow> bool" where
  "obeys xs es \<longleftrightarrow> (\<forall>e\<in>set es. before_in xs (waiter e) (blocker e))"

definition constraints_on :: "LockMem \<Rightarrow> LOCKTAG \<Rightarrow> EDGE list \<Rightarrow> EDGE list" where
  "constraints_on s t es = filter (\<lambda>e. waitLock (allProcs s (waiter e)) = Some t) es"

section \<open>Counting the constraints\<close>

lemma find_proc_Some:
  assumes "distinct topo" "p \<in> set topo"
  obtains j where "find_proc p topo = Some j" "j < length topo" "topo ! j = p"
proof -
  have "find_proc p topo \<noteq> None" using assms(2) by (auto simp: find_proc_def find_None_iff in_set_conv_nth)
  then obtain j where j: "find_proc p topo = Some j" by blast
  then have "j < length topo" "topo ! j = p"
    by (auto simp: find_proc_def find_Some_iff rev_nth)
  with j show thesis by (rule that)
qed

definition counted :: "nat \<Rightarrow> int list \<Rightarrow> nat list list \<Rightarrow> bool" where
  "counted n before after \<longleftrightarrow> length before = n \<and> length after = n \<and>
     (\<forall>k < n. set (after ! k) \<subseteq> {..<n}) \<and>
     (\<forall>j < n. before ! j = (\<Sum>k<n. int (count_list (after ! k) j)))"

lemma sum_update:
  fixes f :: "nat \<Rightarrow> int"
  assumes "k < n"
  shows "(\<Sum>i<n. if i = k then f i + c else f i) = (\<Sum>i<n. f i) + c"
proof -
  have "(\<Sum>i<n. if i = k then f i + c else f i) = (\<Sum>i<n. f i + (if i = k then c else 0))"
    by (rule sum.cong) auto
  also have "\<dots> = (\<Sum>i<n. f i) + (\<Sum>i<n. if i = k then c else 0)" by (rule sum.distrib)
  finally show ?thesis using assms by simp
qed

lemma counted_step:
  assumes "counted n before after" "j < n" "k < n"
  shows "counted n (before[j := before ! j + 1]) (after[k := j # after ! k])"
  unfolding counted_def
proof (intro conjI allI impI)
  fix i
  assume i: "i < n"
  have "int (count_list (after[k := j # after ! k] ! x) i) =
      (if x = k then int (count_list (after ! x) i) + (if i = j then 1 else 0)
       else int (count_list (after ! x) i))" if "x < n" for x
    using assms that by (auto simp: counted_def nth_list_update)
  then have "(\<Sum>x<n. int (count_list (after[k := j # after ! k] ! x) i)) =
      (\<Sum>x<n. if x = k then int (count_list (after ! x) i) + (if i = j then 1 else 0)
       else int (count_list (after ! x) i))"
    by (intro sum.cong) auto
  also have "\<dots> = (\<Sum>x<n. int (count_list (after ! x) i)) + (if i = j then 1 else 0)"
    by (rule sum_update [OF assms(3)])
  finally show "before[j := before ! j + 1] ! i = (\<Sum>x<n. int (count_list (after[k := j # after ! k] ! x) i))"
    using assms i by (auto simp: counted_def nth_list_update)
qed (use assms in \<open>auto simp: counted_def nth_list_update\<close>)

lemma topo_count_spec:
  assumes q: "distinct queue" and n: "length queue = n"
  shows "counted n before after \<Longrightarrow>
    \<forall>e\<in>set (constraints_on s t es). waiter e \<in> set queue \<and> blocker e \<in> set queue \<Longrightarrow>
    \<exists>before' after'. topo_count s t queue es before after = Inr (before', after') \<and>
      counted n before' after' \<and>
      (\<forall>j < n. \<forall>k < n. j \<in> set (after' ! k) \<longleftrightarrow> j \<in> set (after ! k) \<or>
         \<lparr>waiter = queue ! j, blocker = queue ! k\<rparr> \<in> set (constraints_on s t es))"
proof (induction es arbitrary: before after)
  case Nil
  then show ?case by (simp add: constraints_on_def)
next
  case (Cons e es)
  show ?case
  proof (cases "waitLock (allProcs s (waiter e)) = Some t")
    case False
    then show ?thesis using Cons by (simp add: constraints_on_def)
  next
    case True
    then have e: "waiter e \<in> set queue" "blocker e \<in> set queue"
      using Cons.prems(2) by (simp_all add: constraints_on_def)
    obtain j where j: "find_proc (waiter e) queue = Some j" "j < n" "queue ! j = waiter e"
      using find_proc_Some [OF q e(1)] n by auto
    obtain k where k: "find_proc (blocker e) queue = Some k" "k < n" "queue ! k = blocker e"
      using find_proc_Some [OF q e(2)] n by auto
    let ?b = "before[j := before ! j + 1]" and ?a = "after[k := j # after ! k]"
    have "counted n ?b ?a" by (rule counted_step [OF Cons.prems(1) j(2) k(2)])
    then obtain b' a' where r: "topo_count s t queue es ?b ?a = Inr (b', a')" "counted n b' a'"
        "\<forall>j < n. \<forall>k < n. j \<in> set (a' ! k) \<longleftrightarrow> j \<in> set (?a ! k) \<or>
         \<lparr>waiter = queue ! j, blocker = queue ! k\<rparr> \<in> set (constraints_on s t es)"
      using Cons.IH [of ?b ?a] Cons.prems(2) True by (auto simp: constraints_on_def)
    have "\<lparr>waiter = queue ! i, blocker = queue ! m\<rparr> = e \<longleftrightarrow> i = j \<and> m = k" if "i < n" "m < n" for i m
      using that j k q n by (cases e) (auto simp: nth_eq_iff_index_eq)
    moreover have "?a ! m = (if m = k then j # after ! k else after ! m)" if "m < n" for m
      using that k(2) Cons.prems(1) by (simp add: counted_def nth_list_update)
    moreover have "set (constraints_on s t (e # es)) = insert e (set (constraints_on s t es))"
      using True by (simp add: constraints_on_def)
    ultimately have "\<forall>i < n. \<forall>m < n. i \<in> set (a' ! m) \<longleftrightarrow> i \<in> set (after ! m) \<or>
         \<lparr>waiter = queue ! i, blocker = queue ! m\<rparr> \<in> set (constraints_on s t (e # es))"
      using r(3) by auto
    then show ?thesis using r(1,2) True j(1) k(1) by auto
  qed
qed

section \<open>The output loop\<close>

lemma skip_null_above:
  "(\<forall>j. lst < j \<and> j < n \<longrightarrow> topo ! j = None) \<Longrightarrow> \<forall>j. skip_null topo lst < j \<and> j < n \<longrightarrow> topo ! j = None"
proof (induction lst)
  case (Suc l)
  show ?case
  proof (cases "topo ! Suc l = None")
    case True
    then have "\<forall>j. l < j \<and> j < n \<longrightarrow> topo ! j = None" using Suc.prems by (metis less_antisym not_less_eq)
    then show ?thesis using Suc.IH True by simp
  next
    case False
    then show ?thesis using Suc.prems by auto
  qed
qed simp

lemma skip_null_le: "skip_null topo lst \<le> lst"
  by (induction lst) auto

lemma find_candidate_Some:
  "find_candidate topo before m = Some j \<Longrightarrow> j < m \<and> topo ! j \<noteq> None \<and> before ! j = 0"
  by (induction m) (auto split: if_splits)

lemma find_candidate_None:
  "find_candidate topo before m = None \<Longrightarrow> j < m \<Longrightarrow> topo ! j = None \<or> before ! j \<noteq> 0"
  by (induction m) (auto split: if_splits simp: less_Suc_eq)

lemma length_release_preds [simp]: "length (release_preds ps before) = length before"
  unfolding release_preds_def by (induction ps arbitrary: before) auto

lemma release_preds_nth:
  "set ps \<subseteq> {..<length before} \<Longrightarrow> i < length before \<Longrightarrow>
     release_preds ps before ! i = before ! i - int (count_list ps i)"
  unfolding release_preds_def
  by (induction ps arbitrary: before) (auto simp: nth_list_update)

definition remaining :: "nat option list \<Rightarrow> nat set" where
  "remaining topo = {j. j < length topo \<and> topo ! j \<noteq> None}"

lemma finite_remaining [simp]: "finite (remaining topo)"
  by (simp add: remaining_def)

lemma remaining_update: "j \<in> remaining topo \<Longrightarrow> remaining (topo[j := None]) = remaining topo - {j}"
  by (auto simp: remaining_def nth_list_update)

definition topo_inv ::
  "nat list \<Rightarrow> nat list list \<Rightarrow> nat \<Rightarrow> nat option list \<Rightarrow> int list \<Rightarrow> nat \<Rightarrow> nat list \<Rightarrow> bool" where
  "topo_inv queue after i topo before lst ord \<longleftrightarrow>
     length topo = length queue \<and> length before = length queue \<and>
     (\<forall>j < length queue. topo ! j \<noteq> None \<longrightarrow> topo ! j = Some (queue ! j)) \<and>
     i = card (remaining topo) \<and>
     (\<forall>j < length queue. before ! j = (\<Sum>k\<in>remaining topo. int (count_list (after ! k) j))) \<and>
     (\<forall>j. lst < j \<and> j < length queue \<longrightarrow> topo ! j = None) \<and> (queue \<noteq> [] \<longrightarrow> lst < length queue) \<and>
     distinct ord \<and> set ord = (!) queue ` ({..<length queue} - remaining topo) \<and>
     (\<forall>j k. j < length queue \<longrightarrow> k < length queue \<longrightarrow> j \<in> set (after ! k) \<longrightarrow> j \<notin> remaining topo \<longrightarrow>
        before_in ord (queue ! j) (queue ! k))"

lemma topo_inv_step:
  assumes q: "distinct queue" and after: "\<forall>k < length queue. set (after ! k) \<subseteq> {..<length queue}"
    and inv: "topo_inv queue after (Suc i) topo before lst ord"
    and j: "j \<in> remaining topo" "before ! j = 0"
    and lst1: "\<forall>j. lst1 < j \<and> j < length queue \<longrightarrow> topo ! j = None" "lst1 \<le> lst"
  shows "topo_inv queue after i (topo[j := None]) (release_preds (after ! j) before) lst1
    (the (topo ! j) # ord)"
proof -
  let ?n = "length queue" and ?R = "remaining topo"
  have len: "length topo = ?n" "length before = ?n" "Suc i = card ?R"
    and b: "x < ?n \<Longrightarrow> before ! x = (\<Sum>k\<in>?R. int (count_list (after ! k) x))"
    and o: "distinct ord" "set ord = (!) queue ` ({..<?n} - ?R)"
    and pr: "a < ?n \<Longrightarrow> k < ?n \<Longrightarrow> a \<in> set (after ! k) \<Longrightarrow> a \<notin> ?R \<Longrightarrow> before_in ord (queue ! a) (queue ! k)"
    for x a k
    using inv by (auto simp: topo_inv_def)
  have jn: "j < ?n" using j(1) len by (simp add: remaining_def)
  have tj: "topo ! j = Some (queue ! j)" using inv j(1) jn by (auto simp: topo_inv_def remaining_def)
  have R: "remaining (topo[j := None]) = ?R - {j}" by (rule remaining_update [OF j(1)])
  have Rn: "?R \<subseteq> {..<?n}" using len by (auto simp: remaining_def)
  have new: "queue ! j \<notin> set ord" using o(2) j(1) jn q by (auto simp: nth_eq_iff_index_eq)
  have zero: "k \<notin> ?R" if "k < ?n" "j \<in> set (after ! k)" for k
  proof
    assume k: "k \<in> ?R"
    have "int (count_list (after ! k) j) \<le> (\<Sum>k\<in>?R. int (count_list (after ! k) j))"
      by (rule member_le_sum [OF k]) simp_all
    also have "\<dots> = 0" using b [OF jn] j(2) by simp
    finally show False using that(2) by (simp add: count_list_0_iff)
  qed
  have sums: "release_preds (after ! j) before ! x =
      (\<Sum>k\<in>?R - {j}. int (count_list (after ! k) x))" if "x < ?n" for x
    using that b [OF that] after jn len j(1)
    by (simp add: release_preds_nth sum_diff1)
  have set1: "set (the (topo ! j) # ord) = (!) queue ` ({..<?n} - (?R - {j}))"
  proof -
    have "{..<?n} - (?R - {j}) = insert j ({..<?n} - ?R)" using jn by auto
    then show ?thesis using o(2) tj by simp
  qed
  have pr1: "before_in (the (topo ! j) # ord) (queue ! a) (queue ! k)"
    if "a < ?n" "k < ?n" "a \<in> set (after ! k)" "a \<notin> ?R - {j}" for a k
  proof (cases "a = j")
    case True
    then have "k \<notin> ?R" using zero that by simp
    then have k: "queue ! k \<in> set ord" using o(2) that(2) by blast
    then have "queue ! j \<noteq> queue ! k" using new by auto
    then show ?thesis using True tj k by (simp add: before_in_Cons)
  next
    case False
    then have "before_in ord (queue ! a) (queue ! k)" using pr that by simp
    then show ?thesis using new tj by (auto simp: before_in_Cons dest: before_in_set)
  qed
  have tp: "\<forall>x < ?n. topo[j := None] ! x \<noteq> None \<longrightarrow> topo[j := None] ! x = Some (queue ! x)"
  proof (intro allI impI)
    fix x
    assume x: "x < ?n" "topo[j := None] ! x \<noteq> None"
    then have "x \<noteq> j" using len jn by auto
    then show "topo[j := None] ! x = Some (queue ! x)" using inv x by (simp add: topo_inv_def)
  qed
  have above: "\<forall>x. lst1 < x \<and> x < ?n \<longrightarrow> topo[j := None] ! x = None"
    using lst1(1) len jn by (simp add: nth_list_update)
  have "queue \<noteq> [] \<longrightarrow> lst1 < ?n" using inv lst1(2) by (auto simp: topo_inv_def)
  then show ?thesis
    unfolding topo_inv_def R
    using len jn j(1) tp sums above o new set1 pr1 tj by (simp add: card_Diff_singleton)
qed

lemma topo_output_spec:
  assumes q: "distinct queue" and after: "\<forall>k < length queue. set (after ! k) \<subseteq> {..<length queue}"
  shows "topo_inv queue after i topo before lst ord \<Longrightarrow>
    (case topo_output i topo before after lst ord of
       Some ord' \<Rightarrow> distinct ord' \<and> set ord' = set queue \<and>
         (\<forall>j k. j < length queue \<longrightarrow> k < length queue \<longrightarrow> j \<in> set (after ! k) \<longrightarrow>
            before_in ord' (queue ! j) (queue ! k))
     | None \<Rightarrow> \<exists>R. R \<noteq> {} \<and> R \<subseteq> {..<length queue} \<and> (\<forall>j\<in>R. \<exists>k\<in>R. j \<in> set (after ! k)))"
proof (induction i arbitrary: topo before lst ord)
  case 0
  then have "remaining topo = {}" by (simp add: topo_inv_def)
  moreover have "(!) queue ` {..<length queue} = set queue" by (auto simp: in_set_conv_nth)
  ultimately show ?case using 0 by (simp add: topo_inv_def)
next
  case (Suc i)
  let ?n = "length queue" and ?R = "remaining topo" and ?l = "skip_null topo lst"
  have above: "\<forall>j. ?l < j \<and> j < ?n \<longrightarrow> topo ! j = None"
    by (rule skip_null_above) (use Suc.prems in \<open>simp add: topo_inv_def\<close>)
  have len: "length topo = ?n" using Suc.prems by (simp add: topo_inv_def)
  show ?case
  proof (cases "find_candidate topo before (Suc ?l)")
    case None
    have "\<exists>k\<in>?R. j \<in> set (after ! k)" if j: "j \<in> ?R" for j
    proof -
      have jn: "j < ?n" "topo ! j \<noteq> None" using j len by (auto simp: remaining_def)
      then have "j < Suc ?l" using above by (metis linorder_neqE_nat less_Suc_eq)
      then have "before ! j \<noteq> 0" using find_candidate_None [OF None, of j] jn(2) by simp
      then have "(\<Sum>k\<in>?R. int (count_list (after ! k) j)) \<noteq> 0"
        using Suc.prems jn(1) by (simp add: topo_inv_def)
      then obtain k where "k \<in> ?R" "int (count_list (after ! k) j) \<noteq> 0" by (meson sum.not_neutral_contains_not_neutral)
      then show ?thesis by (auto simp: count_list_0_iff)
    qed
    moreover have "?R \<noteq> {}" using Suc.prems by (auto simp: topo_inv_def)
    moreover have "?R \<subseteq> {..<?n}" using len by (auto simp: remaining_def)
    ultimately show ?thesis using None by (auto simp: Let_def)
  next
    case (Some j)
    then have j: "j < Suc ?l" "topo ! j \<noteq> None" "before ! j = 0" using find_candidate_Some by blast+
    have "queue \<noteq> []" using Suc.prems len by (auto simp: topo_inv_def remaining_def)
    then have "j < ?n" using Suc.prems j(1) skip_null_le [of topo lst] by (auto simp: topo_inv_def)
    then have "topo_inv queue after i (topo[j := None]) (release_preds (after ! j) before) ?l
          (the (topo ! j) # ord)"
      using topo_inv_step [OF q after Suc.prems _ j(3) above skip_null_le] j(2) len
      by (simp add: remaining_def)
    then show ?thesis using Suc.IH Some by (simp add: Let_def)
  qed
qed

text \<open>
  The sort, on a queue that has every process the constraints on this lock mention.
\<close>

theorem TopoSort_spec:
  assumes q: "distinct (waitProcs (lock_at s t))"
    and e: "\<forall>e\<in>set (constraints_on s t es). waiter e \<in> set (waitProcs (lock_at s t)) \<and>
      blocker e \<in> set (waitProcs (lock_at s t))"
  obtains (sorted) ord where "TopoSort s t es = Inr (Some ord)" "distinct ord"
      "set ord = set (waitProcs (lock_at s t))" "obeys ord (constraints_on s t es)"
  | (contradictory) "TopoSort s t es = Inr None"
      "\<And>ord. set ord = set (waitProcs (lock_at s t)) \<Longrightarrow> \<not> obeys ord (constraints_on s t es)"
proof -
  let ?q = "waitProcs (lock_at s t)"
  let ?n = "length ?q"
  have "counted ?n (replicate ?n 0) (replicate ?n [])" by (simp add: counted_def)
  then obtain b a where c: "topo_count s t ?q es (replicate ?n 0) (replicate ?n []) = Inr (b, a)"
      "counted ?n b a"
      "\<forall>j < ?n. \<forall>k < ?n. j \<in> set (a ! k) \<longleftrightarrow> \<lparr>waiter = ?q ! j, blocker = ?q ! k\<rparr> \<in> set (constraints_on s t es)"
    using topo_count_spec [OF q refl _ e] by fastforce
  have R: "remaining (map Some ?q) = {..<?n}" by (auto simp: remaining_def)
  have inv: "topo_inv ?q a ?n (map Some ?q) b (?n - 1) []"
    using c(2) by (auto simp: topo_inv_def R counted_def)
  have after: "\<forall>k < ?n. set (a ! k) \<subseteq> {..<?n}" using c(2) by (simp add: counted_def)
  have T: "TopoSort s t es = Inr (topo_output ?n (map Some ?q) b a (?n - 1) [])"
    using c(1) by (simp add: TopoSort_def Let_def)
  have edge: "\<exists>j < ?n. \<exists>k < ?n. ?q ! j = waiter e \<and> ?q ! k = blocker e \<and> j \<in> set (a ! k)"
    if "e \<in> set (constraints_on s t es)" for e
  proof -
    have "waiter e \<in> set ?q" "blocker e \<in> set ?q" using e that by simp_all
    then obtain j k where jk: "j < ?n" "k < ?n" "?q ! j = waiter e" "?q ! k = blocker e"
      unfolding in_set_conv_nth by blast
    then have "\<lparr>waiter = ?q ! j, blocker = ?q ! k\<rparr> = e" by (cases e) simp
    then show ?thesis using c(3) jk that by blast
  qed
  show thesis
  proof (cases "topo_output ?n (map Some ?q) b a (?n - 1) []")
    case (Some ord)
    then have o: "distinct ord" "set ord = set ?q"
        "\<forall>j k. j < ?n \<longrightarrow> k < ?n \<longrightarrow> j \<in> set (a ! k) \<longrightarrow> before_in ord (?q ! j) (?q ! k)"
      using topo_output_spec [OF q after inv] by auto
    have "obeys ord (constraints_on s t es)"
      unfolding obeys_def using edge o(3) by metis
    then show thesis using sorted T Some o by simp
  next
    case None
    then obtain R where R: "R \<noteq> {}" "R \<subseteq> {..<?n}" "\<forall>j\<in>R. \<exists>k\<in>R. j \<in> set (a ! k)"
      using topo_output_spec [OF q after inv] by auto
    have "\<not> obeys ord (constraints_on s t es)" if o: "set ord = set ?q" for ord
    proof
      assume ob: "obeys ord (constraints_on s t es)"
      have "(!) ?q ` R \<subseteq> set ord" using R(2) o by (auto simp: subset_iff)
      then obtain x where "x \<in> (!) ?q ` R" "\<forall>y\<in>(!) ?q ` R. \<not> before_in ord x y"
        using before_in_last [of "(!) ?q ` R" ord] R(1) by auto
      then obtain j where j: "j \<in> R" "\<forall>k\<in>R. \<not> before_in ord (?q ! j) (?q ! k)" by auto
      then obtain k where k: "k \<in> R" "j \<in> set (a ! k)" using R(3) by blast
      then have "\<lparr>waiter = ?q ! j, blocker = ?q ! k\<rparr> \<in> set (constraints_on s t es)"
        using c(3) R(2) j(1) by blast
      then show False using ob j(2) k(1) by (auto simp: obeys_def)
    qed
    then show thesis using contradictory T None by simp
  qed
qed

end
