(* ===== verification/LockInv.thy ===== *)
theory LockInv
  imports LockTable DeadlockTopo
begin

text \<open>
  The invariant of the shared lock table: the counts and masks of a \<open>LOCK\<close> say what its holders
  and waiters are, and every waiter is blocked by a conflicting lock of another session or by a
  conflicting request ahead of it in the queue.
\<close>

section \<open>Holders and waiters\<close>

definition hold :: "LockMem \<Rightarrow> LOCKTAG \<Rightarrow> nat \<Rightarrow> LOCKMASK" where
  "hold s t p = holdMask (proclock_at s (t, p))"

definition holders :: "LockMem \<Rightarrow> LOCKTAG \<Rightarrow> LOCKMODE \<Rightarrow> nat set" where
  "holders s t m = {p \<in> set (procLocks (lock_at s t)). bit (hold s t p) m}"

definition waiting :: "LockMem \<Rightarrow> LOCKTAG \<Rightarrow> LOCKMODE \<Rightarrow> nat set" where
  "waiting s t m = {p \<in> set (waitProcs (lock_at s t)). waitLockMode (allProcs s p) = m}"

definition same_session :: "LockMem \<Rightarrow> nat \<Rightarrow> nat \<Rightarrow> bool" where
  "same_session s p q \<longleftrightarrow> p = q \<or> mppSessionId (allProcs s p) = mppSessionId (allProcs s q) \<and>
     mppSessionId (allProcs s p) \<noteq> InvalidGpSessionId"

lemma same_session_sym: "same_session s p q \<longleftrightarrow> same_session s q p"
  by (auto simp: same_session_def)

lemma finite_holders [simp]: "finite (holders s t m)" and finite_waiting [simp]: "finite (waiting s t m)"
  by (simp_all add: holders_def waiting_def)

section \<open>The invariant of a lock\<close>

text \<open>
  \<open>x\<close> is the request being entered, if any: it is counted in \<open>requested\<close> but neither granted nor
  queued yet.
\<close>

definition pending :: "LOCKMODE option \<Rightarrow> LOCKMODE \<Rightarrow> int" where
  "pending x m = (if x = Some m then 1 else 0)"

definition lock_shape :: "LockMem \<Rightarrow> LOCKTAG \<Rightarrow> bool" where
  "lock_shape s t \<longleftrightarrow>
     distinct (procLocks (lock_at s t)) \<and>
     (\<forall>p. p \<in> set (procLocks (lock_at s t)) \<longleftrightarrow> LockMethodProcLockHash s (t, p) \<noteq> None) \<and>
     set (waitProcs (lock_at s t)) \<subseteq> set (procLocks (lock_at s t)) \<and>
     (\<forall>p m. p \<in> set (procLocks (lock_at s t)) \<longrightarrow> bit (hold s t p) m \<longrightarrow> valid_mode m) \<and>
     (\<forall>p. p \<in> set (waitProcs (lock_at s t)) \<longrightarrow> valid_mode (waitLockMode (allProcs s p)) \<and>
        \<not> bit (hold s t p) (waitLockMode (allProcs s p)))"

definition lock_counts :: "LOCKMODE option \<Rightarrow> LockMem \<Rightarrow> LOCKTAG \<Rightarrow> bool" where
  "lock_counts x s t \<longleftrightarrow>
     (\<forall>m. granted (lock_at s t) m = int (card (holders s t m))) \<and>
     (\<forall>m. requested (lock_at s t) m = granted (lock_at s t) m + int (card (waiting s t m)) + pending x m) \<and>
     nGranted (lock_at s t) = (\<Sum>m\<in>{1..8}. granted (lock_at s t) m) \<and>
     nRequested (lock_at s t) = (\<Sum>m\<in>{1..8}. requested (lock_at s t) m) \<and>
     (\<forall>m < 32. bit (grantMask (lock_at s t)) m \<longleftrightarrow> holders s t m \<noteq> {}) \<and>
     (\<forall>m < 32. bit (waitMask (lock_at s t)) m \<longleftrightarrow> waiting s t m \<noteq> {})"

definition lock_ok :: "LOCKMODE option \<Rightarrow> LockMem \<Rightarrow> LOCKTAG \<Rightarrow> bool" where
  "lock_ok x s t \<longleftrightarrow> lock_shape s t \<and> lock_counts x s t"

text \<open>Who blocks a request for mode \<open>m\<close> by \<open>p\<close>: a holder of another session.\<close>

definition held_against :: "LockMem \<Rightarrow> LOCKTAG \<Rightarrow> nat \<Rightarrow> LOCKMODE \<Rightarrow> nat \<Rightarrow> bool" where
  "held_against s t p m q \<longleftrightarrow> q \<in> set (procLocks (lock_at s t)) \<and> \<not> same_session s p q \<and>
     (\<exists>k. bit (hold s t q) k \<and> conflicts m k)"

text \<open>A waiter that has to wait.\<close>

definition blocked :: "LockMem \<Rightarrow> LOCKTAG \<Rightarrow> nat \<Rightarrow> bool" where
  "blocked s t p \<longleftrightarrow>
     (\<exists>q. held_against s t p (waitLockMode (allProcs s p)) q) \<or>
     (\<exists>q. before_in (waitProcs (lock_at s t)) q p \<and>
        conflicts (waitLockMode (allProcs s p)) (waitLockMode (allProcs s q)))"

definition blocked_by :: "LockMem \<Rightarrow> (nat \<times> nat) set" where
  "blocked_by s = {(p, q). \<exists>t. waits_on s p t \<and>
     (held_against s t p (waitLockMode (allProcs s p)) q \<or>
      before_in (waitProcs (lock_at s t)) q p \<and>
        conflicts (waitLockMode (allProcs s p)) (waitLockMode (allProcs s q)))}"

lemma conflict_mask: "a AND b \<noteq> 0 \<longleftrightarrow> (\<exists>k. bit (a :: LOCKMASK) k \<and> bit b k)"
  using bit_imp_le_length [of a] by (auto simp: mask_disjoint)

lemma foldl_mask:
  "bit (foldl (\<lambda>a i. if P i then a OR LOCKBIT_ON i else a) (z :: LOCKMASK) is) k \<longleftrightarrow>
     bit z k \<or> (k \<in> set is \<and> P k \<and> k < 32)"
  by (induction "is" arbitrary: z) (auto simp: bit_or_iff)

lemma otherLocks_bit:
  assumes "lock_ok x s t" "p \<in> set (procLocks (lock_at s t))" "valid_mode k"
  shows "bit (otherLocks (GetLocksMethodTable u) t (t, p) s) k \<longleftrightarrow>
    (\<exists>q\<in>holders s t k. \<not> same_session s p q)"
proof -
  let ?ours = "{q \<in> holders s t k. same_session s p q}"
  have d: "distinct (procLocks (lock_at s t))" using assms(1) by (simp add: lock_ok_def lock_shape_def)
  have "ourHolding t (t, p) s k = int (card ?ours)"
  proof (cases "mppSessionId (allProcs s p) = InvalidGpSessionId")
    case True
    then have "?ours = (if bit (hold s t p) k then {p} else {})"
      using assms(2) by (auto simp: holders_def same_session_def)
    then show ?thesis using True by (simp add: ourHolding_def mask_has_mode hold_def)
  next
    case False
    then have "?ours = set (filter (\<lambda>q. mppSessionId (allProcs s q) = mppSessionId (allProcs s p) \<and>
        bit (holdMask (proclock_at s (t, q))) k) (procLocks (lock_at s t)))"
      by (auto simp: holders_def same_session_def hold_def)
    then show ?thesis using False d
      by (simp add: ourHolding_def mask_has_mode distinct_length_filter)
        (rule arg_cong [of _ _ card], auto)
  qed
  moreover have "granted (lock_at s t) k = int (card (holders s t k))"
    using assms(1) by (simp add: lock_ok_def lock_counts_def)
  moreover have "card ?ours < card (holders s t k) \<longleftrightarrow> (\<exists>q\<in>holders s t k. \<not> same_session s p q)"
  proof
    assume "card ?ours < card (holders s t k)"
    then have "?ours \<noteq> holders s t k" by auto
    then show "\<exists>q\<in>holders s t k. \<not> same_session s p q" by auto
  next
    assume "\<exists>q\<in>holders s t k. \<not> same_session s p q"
    then show "card ?ours < card (holders s t k)" by (intro psubset_card_mono) auto
  qed
  moreover have "k \<in> set [1..<Suc 8]" "k < 32" using assms(3) by (auto simp: valid_mode_def AccessExclusiveLock_def)
  ultimately show ?thesis
    unfolding otherLocks_def foldl_mask by (simp del: upt_Suc set_upt)
qed

text \<open>
  \<open>LockCheckConflicts\<close> finds a conflict exactly when a process of another session holds a
  conflicting lock.
\<close>

lemma LockCheckConflicts_iff:
  assumes ok: "lock_ok x s t" and p: "p \<in> set (procLocks (lock_at s t))" and m: "valid_mode m"
  shows "LockCheckConflicts (GetLocksMethodTable u) m t (t, p) s = STATUS_OK \<longleftrightarrow>
    (\<nexists>q. held_against s t p m q)"
proof -
  have v: "valid_mode k" if "conflicts m k" for k using conflicts_valid [OF m that] .
  have g: "bit (grantMask (lock_at s t)) k \<longleftrightarrow> holders s t k \<noteq> {}" if "conflicts m k" for k
    using ok valid_mode_less [OF v [OF that]] by (simp add: lock_ok_def lock_counts_def)
  have o: "bit (otherLocks (GetLocksMethodTable u) t (t, p) s) k \<longleftrightarrow> (\<exists>q\<in>holders s t k. \<not> same_session s p q)"
    if "conflicts m k" for k using otherLocks_bit [OF ok p v [OF that]] .
  have "LockConflicts ! m AND otherLocks (GetLocksMethodTable u) t (t, p) s = 0 \<longleftrightarrow> (\<nexists>q. held_against s t p m q)"
    using o conflict_mask [of "LockConflicts ! m" "otherLocks (GetLocksMethodTable u) t (t, p) s"]
    by (fastforce simp: conflicts_def held_against_def holders_def)
  moreover have "LockConflicts ! m AND grantMask (lock_at s t) = 0 \<Longrightarrow> \<nexists>q. held_against s t p m q"
    using g conflict_mask [of "LockConflicts ! m" "grantMask (lock_at s t)"]
    by (fastforce simp: conflicts_def held_against_def holders_def)
  ultimately show ?thesis by (auto simp: LockCheckConflicts_def)
qed

section \<open>What the operations do to holders, waiters and counts\<close>

lemma sum_fun_upd:
  assumes "valid_mode m"
  shows "(\<Sum>k\<in>{1..8}. ((f :: LOCKMODE \<Rightarrow> int)(m := f m + c)) k) = (\<Sum>k\<in>{1..8}. f k) + c"
proof -
  have "m \<in> {1..8}" using assms by (simp add: valid_mode_def AccessExclusiveLock_def)
  then have "(\<Sum>k\<in>{1..8}. (f(m := f m + c)) k) = f m + c + (\<Sum>k\<in>{1..8} - {m}. (f(m := f m + c)) k)"
      "(\<Sum>k\<in>{1..8}. f k) = f m + (\<Sum>k\<in>{1..8} - {m}. f k)"
    by (simp_all add: sum.remove)
  moreover have "(\<Sum>k\<in>{1..8} - {m}. (f(m := f m + c)) k) = (\<Sum>k\<in>{1..8} - {m}. f k)" by (rule sum.cong) auto
  ultimately show ?thesis by linarith
qed

lemma hold_GrantLock:
  "hold (GrantLock t (t, p) m s) u q = (if u = t \<and> q = p then hold s t p OR LOCKBIT_ON m else hold s u q)"
  by (simp add: hold_def)

lemma holders_GrantLock:
  assumes "p \<in> set (procLocks (lock_at s t))" "valid_mode m"
  shows "holders (GrantLock t (t, p) m s) t k = (if k = m then insert p (holders s t m) else holders s t k)"
  using assms by (auto simp: holders_def hold_GrantLock bit_or_iff valid_mode_less)

lemma waiting_GrantLock [simp]: "waiting (GrantLock t k m s) t j = waiting s t j"
  by (simp add: waiting_def)

lemma lock_shape_GrantLock:
  assumes "lock_shape s t" "p \<in> set (procLocks (lock_at s t))" "valid_mode m"
    "p \<notin> set (waitProcs (lock_at s t))"
  shows "lock_shape (GrantLock t (t, p) m s) t"
  using assms by (auto simp: lock_shape_def hold_GrantLock bit_or_iff)

text \<open>
  The counts after an operation that changes the holders and waiters of one mode \<open>m\<close> only, by
  \<open>a\<close> grants and \<open>b\<close> requests.
\<close>

lemma lock_counts_change:
  fixes a b :: int
  assumes ok: "lock_counts x s t" and m: "valid_mode m"
    and g: "granted (lock_at s' t) = (granted (lock_at s t))(m := granted (lock_at s t) m + a)"
      "nGranted (lock_at s' t) = nGranted (lock_at s t) + a"
    and r: "requested (lock_at s' t) = (requested (lock_at s t))(m := requested (lock_at s t) m + b)"
      "nRequested (lock_at s' t) = nRequested (lock_at s t) + b"
    and H: "\<And>k. holders s' t k = (if k = m then H else holders s t k)" "int (card H) = int (card (holders s t m)) + a"
    and W: "\<And>k. waiting s' t k = (if k = m then W else waiting s t k)"
      "int (card W) + pending x' m = int (card (waiting s t m)) + pending x m + b - a"
      "\<And>k. k \<noteq> m \<Longrightarrow> pending x' k = pending x k"
    and gm: "\<And>k. k < 32 \<Longrightarrow> bit (grantMask (lock_at s' t)) k \<longleftrightarrow>
      (if k = m then H \<noteq> {} else bit (grantMask (lock_at s t)) k)"
    and wm: "\<And>k. k < 32 \<Longrightarrow> bit (waitMask (lock_at s' t)) k \<longleftrightarrow>
      (if k = m then W \<noteq> {} else bit (waitMask (lock_at s t)) k)"
  shows "lock_counts x' s' t"
proof -
  have o: "granted (lock_at s t) k = int (card (holders s t k))"
      "requested (lock_at s t) k = granted (lock_at s t) k + int (card (waiting s t k)) + pending x k"
      "nGranted (lock_at s t) = (\<Sum>k\<in>{1..8}. granted (lock_at s t) k)"
      "nRequested (lock_at s t) = (\<Sum>k\<in>{1..8}. requested (lock_at s t) k)"
      "k < 32 \<Longrightarrow> bit (grantMask (lock_at s t)) k \<longleftrightarrow> holders s t k \<noteq> {}"
      "k < 32 \<Longrightarrow> bit (waitMask (lock_at s t)) k \<longleftrightarrow> waiting s t k \<noteq> {}" for k
    using ok unfolding lock_counts_def by blast+
  show ?thesis
    unfolding lock_counts_def
  proof (intro conjI allI impI)
    fix k
    show "granted (lock_at s' t) k = int (card (holders s' t k))"
      using o(1) [of m] o(1) [of k] H g(1) by simp
    show "requested (lock_at s' t) k = granted (lock_at s' t) k + int (card (waiting s' t k)) + pending x' k"
      using o(2) [of m] o(2) [of k] W g(1) r(1) by simp
    show "nGranted (lock_at s' t) = (\<Sum>k\<in>{1..8}. granted (lock_at s' t) k)"
      unfolding g o(3) sum_fun_upd [OF m] ..
    show "nRequested (lock_at s' t) = (\<Sum>k\<in>{1..8}. requested (lock_at s' t) k)"
      unfolding r o(4) sum_fun_upd [OF m] ..
  next
    fix k :: nat assume k: "k < 32"
    show "bit (grantMask (lock_at s' t)) k \<longleftrightarrow> holders s' t k \<noteq> {}" using gm [OF k] o(5) [OF k] H(1) by simp
    show "bit (waitMask (lock_at s' t)) k \<longleftrightarrow> waiting s' t k \<noteq> {}" using wm [OF k] o(6) [OF k] W(1) by simp
  qed
qed

lemma lock_counts_masks:
  assumes "lock_counts x s t"
  shows "k < 32 \<Longrightarrow> bit (grantMask (lock_at s t)) k \<longleftrightarrow> holders s t k \<noteq> {}"
    "k < 32 \<Longrightarrow> bit (waitMask (lock_at s t)) k \<longleftrightarrow> waiting s t k \<noteq> {}"
    "requested (lock_at s t) k = granted (lock_at s t) k + int (card (waiting s t k)) + pending x k"
    "granted (lock_at s t) k = int (card (holders s t k))"
  using assms unfolding lock_counts_def by blast+

lemma lock_ok_GrantLock:
  assumes ok: "lock_ok (Some m) s t" and p: "p \<in> set (procLocks (lock_at s t))" "p \<notin> set (waitProcs (lock_at s t))"
    and m: "valid_mode m" "\<not> bit (hold s t p) m"
  shows "lock_ok None (GrantLock t (t, p) m s) t"
proof -
  have c: "lock_counts (Some m) s t" and sh: "lock_shape s t" using ok by (simp_all add: lock_ok_def)
  have "granted (lock_at s t) m + 1 = requested (lock_at s t) m \<longleftrightarrow> waiting s t m = {}"
    using lock_counts_masks(3) [OF c, of m] by (simp add: pending_def)
  moreover have "p \<notin> holders s t m" using m(2) by (simp add: holders_def)
  ultimately have "lock_counts None (GrantLock t (t, p) m s) t"
    using lock_counts_masks(1,2) [OF c] valid_mode_less [OF m(1)]
    by (intro lock_counts_change [OF c m(1), where a = 1 and b = 0 and H = "insert p (holders s t m)" and W = "waiting s t m"]
        holders_GrantLock [OF p(1) m(1)])
      (auto simp: pending_def bit_or_iff fun_eq_iff)
  then show ?thesis using lock_shape_GrantLock [OF sh p(1) m(1) p(2)] by (simp add: lock_ok_def)
qed

lemma hold_wake1:
  assumes "waits_on s p t"
  shows "hold (wake1 t p s) u q =
    (if u = t \<and> q = p then hold s t p OR LOCKBIT_ON (waitLockMode (allProcs s p)) else hold s u q)"
  by (simp add: hold_def wake1_simps [OF assms])

lemma lock_ok_wake1:
  assumes q: "queues_ok s" and p: "waits_on s p t" and ok: "lock_ok None s t"
  shows "lock_ok None (wake1 t p s) t"
proof -
  let ?s = "wake1 t p s" and ?l = "lock_at s t" and ?m = "waitLockMode (allProcs s p)"
  have c: "lock_counts None s t" using ok by (simp add: lock_ok_def)
  have pq: "p \<in> set (waitProcs ?l)" "distinct (waitProcs ?l)" using queues_okD(1,2) [OF q p] by auto
  then have pp: "p \<in> set (procLocks ?l)" and m: "valid_mode ?m" "\<not> bit (hold s t p) ?m"
    using ok by (auto simp: lock_ok_def lock_shape_def)
  have H: "holders ?s t k = (if k = ?m then insert p (holders s t ?m) else holders s t k)" for k
    using pp m by (auto simp: holders_def hold_wake1 [OF p] wake1_simps [OF p] bit_or_iff valid_mode_less)
  have W: "waiting ?s t k = (if k = ?m then waiting s t ?m - {p} else waiting s t k)" for k
    using pq by (auto simp: waiting_def wake1_simps [OF p] woken_proc_def)
  have new: "p \<notin> holders s t ?m" using m(2) by (simp add: holders_def)
  have pw: "p \<in> waiting s t ?m" using pq by (simp add: waiting_def)
  have one: "granted ?l ?m + 1 = requested ?l ?m \<longleftrightarrow> waiting s t ?m - {p} = {}"
    using lock_counts_masks(3) [OF c, of ?m] pw by (auto simp: card_1_singleton_iff pending_def)
  have cw: "int (card (waiting s t ?m - {p})) = int (card (waiting s t ?m)) - 1"
    using pw card_gt_0_iff [of "waiting s t ?m"] by (auto simp: card_Diff_singleton)
  have "lock_counts None ?s t"
    using new pw one lock_counts_masks(1,2) [OF c] valid_mode_less [OF m(1)] cw
    by (intro lock_counts_change [OF c m(1), where a = 1 and b = 0 and H = "insert p (holders s t ?m)" and W = "waiting s t ?m - {p}"] H W)
      (auto simp: wake1_simps [OF p] pending_def bit_or_iff fun_eq_iff)
  moreover have "lock_shape ?s t"
    using ok pq m unfolding lock_ok_def lock_shape_def
    by (auto simp: wake1_simps [OF p] hold_wake1 [OF p] bit_or_iff woken_proc_def)
  ultimately show ?thesis by (simp add: lock_ok_def)
qed

text \<open>Releasing a mode.\<close>

lemma UnGrantLock_simps [simp]:
  "lock_at (snd (UnGrantLock t m k tab s)) u = (if u = t then ungrant_in_lock m (lock_at s t) else lock_at s u)"
  "LockMethodLockHash (snd (UnGrantLock t m k tab s)) = (LockMethodLockHash s)(t \<mapsto> ungrant_in_lock m (lock_at s t))"
  "allProcs (snd (UnGrantLock t m k tab s)) = allProcs s"
  "strong_count (snd (UnGrantLock t m k tab s)) = strong_count s"
  "proclock_at (snd (UnGrantLock t m k tab s)) k' = (if k' = k then (proclock_at s k)
     \<lparr>holdMask := holdMask (proclock_at s k) AND LOCKBIT_OFF m\<rparr> else proclock_at s k')"
  "LockMethodProcLockHash (snd (UnGrantLock t m k tab s)) = (LockMethodProcLockHash s)(k \<mapsto> (proclock_at s k)
     \<lparr>holdMask := holdMask (proclock_at s k) AND LOCKBIT_OFF m\<rparr>)"
  by (simp_all add: UnGrantLock_def Let_def)

lemma ungrant_in_lock_simps [simp]:
  "procLocks (ungrant_in_lock m l) = procLocks l" "waitProcs (ungrant_in_lock m l) = waitProcs l"
  "waitMask (ungrant_in_lock m l) = waitMask l"
  "requested (ungrant_in_lock m l) = (requested l)(m := requested l m - 1)"
  "nRequested (ungrant_in_lock m l) = nRequested l - 1"
  "granted (ungrant_in_lock m l) = (granted l)(m := granted l m - 1)"
  "nGranted (ungrant_in_lock m l) = nGranted l - 1"
  "bit (grantMask (ungrant_in_lock m l)) k \<longleftrightarrow> bit (grantMask l) k \<and> \<not> (k = m \<and> granted l m - 1 = 0)"
  using bit_imp_le_length [of "grantMask l" k]
  by (auto simp: ungrant_in_lock_def Let_def bit_and_iff)

lemma UnGrantLock_wakeup:
  "fst (UnGrantLock t m k tab s) \<longleftrightarrow> conflictTab tab ! m AND waitMask (lock_at s t) \<noteq> 0"
  by (simp add: UnGrantLock_def Let_def)

lemma hold_UnGrantLock:
  "hold (snd (UnGrantLock t m (t, p) tab s)) u q =
     (if u = t \<and> q = p then hold s t p AND LOCKBIT_OFF m else hold s u q)"
  by (simp add: hold_def)

lemma lock_ok_UnGrantLock:
  assumes ok: "lock_ok None s t" and p: "p \<in> set (procLocks (lock_at s t))" "bit (hold s t p) m"
  shows "lock_ok None (snd (UnGrantLock t m (t, p) tab s)) t"
proof -
  let ?s = "snd (UnGrantLock t m (t, p) tab s)"
  have c: "lock_counts None s t" using ok by (simp add: lock_ok_def)
  have m: "valid_mode m" using ok p by (auto simp: lock_ok_def lock_shape_def)
  have H: "holders ?s t k = (if k = m then holders s t m - {p} else holders s t k)" for k
    using bit_imp_le_length [of "hold s t p" k] by (auto simp: holders_def hold_UnGrantLock bit_and_iff)
  have W: "waiting ?s t k = (if k = m then waiting s t m else waiting s t k)" for k by (simp add: waiting_def)
  have ph: "p \<in> holders s t m" using p by (simp add: holders_def)
  have one: "granted (lock_at s t) m - 1 = 0 \<longleftrightarrow> holders s t m - {p} = {}"
    using lock_counts_masks(4) [OF c, of m] ph by (auto simp: card_1_singleton_iff)
  have ch: "int (card (holders s t m - {p})) = int (card (holders s t m)) + - 1"
    using ph card_gt_0_iff [of "holders s t m"] by (auto simp: card_Diff_singleton)
  have "lock_counts None ?s t"
    using one ph lock_counts_masks(1,2) [OF c] ch
    by (intro lock_counts_change [OF c m, where a = "-1" and b = "-1" and H = "holders s t m - {p}" and W = "waiting s t m"] H W)
      auto
  moreover have "lock_shape ?s t"
    using ok p bit_imp_le_length unfolding lock_ok_def lock_shape_def
    by (auto simp: hold_UnGrantLock bit_and_iff split: if_splits)
  ultimately show ?thesis by (simp add: lock_ok_def)
qed

text \<open>Taking a waiter off the queue.\<close>

definition unwait :: "LOCKTAG \<Rightarrow> nat \<Rightarrow> LockMem \<Rightarrow> LockMem" where
  "unwait t p s = set_proc p ((allProcs s p)\<lparr>linked := False, waitLock := None, waitProcLock := None,
      waitStatus := STATUS_ERROR\<rparr>)
    (set_lock t (unwait_in_lock p (waitLockMode (allProcs s p)) (lock_at s t)) s)"

lemma unwait_in_lock_simps [simp]:
  "procLocks (unwait_in_lock p m l) = procLocks l" "waitProcs (unwait_in_lock p m l) = remove1 p (waitProcs l)"
  "grantMask (unwait_in_lock p m l) = grantMask l" "granted (unwait_in_lock p m l) = granted l"
  "nGranted (unwait_in_lock p m l) = nGranted l"
  "requested (unwait_in_lock p m l) = (requested l)(m := requested l m - 1)"
  "nRequested (unwait_in_lock p m l) = nRequested l - 1"
  "bit (waitMask (unwait_in_lock p m l)) k \<longleftrightarrow> bit (waitMask l) k \<and> \<not> (k = m \<and> granted l m = requested l m - 1)"
  using bit_imp_le_length [of "waitMask l" k]
  by (auto simp: unwait_in_lock_def Let_def bit_and_iff)

lemma unwait_simps [simp]:
  "lock_at (unwait t p s) u = (if u = t then unwait_in_lock p (waitLockMode (allProcs s p)) (lock_at s t) else lock_at s u)"
  "LockMethodLockHash (unwait t p s) = (LockMethodLockHash s)(t \<mapsto> unwait_in_lock p (waitLockMode (allProcs s p)) (lock_at s t))"
  "LockMethodProcLockHash (unwait t p s) = LockMethodProcLockHash s" "proclock_at (unwait t p s) k = proclock_at s k"
  "strong_count (unwait t p s) = strong_count s"
  "allProcs (unwait t p s) = (allProcs s)(p := (allProcs s p)\<lparr>linked := False, waitLock := None, waitProcLock := None,
      waitStatus := STATUS_ERROR\<rparr>)"
  by (simp_all add: unwait_def)

lemma lock_ok_unwait:
  assumes q: "queues_ok s" and p: "waits_on s p t" and ok: "lock_ok None s t"
  shows "lock_ok None (unwait t p s) t"
proof -
  let ?s = "unwait t p s" and ?l = "lock_at s t" and ?m = "waitLockMode (allProcs s p)"
  have c: "lock_counts None s t" using ok by (simp add: lock_ok_def)
  have pq: "p \<in> set (waitProcs ?l)" "distinct (waitProcs ?l)" using queues_okD(1,2) [OF q p] by auto
  then have m: "valid_mode ?m" using ok by (auto simp: lock_ok_def lock_shape_def)
  have H: "holders ?s t k = (if k = ?m then holders s t ?m else holders s t k)" for k
    by (auto simp: holders_def hold_def)
  have W: "waiting ?s t k = (if k = ?m then waiting s t ?m - {p} else waiting s t k)" for k
    using pq by (auto simp: waiting_def)
  have pw: "p \<in> waiting s t ?m" using pq by (simp add: waiting_def)
  have cw: "int (card (waiting s t ?m - {p})) = int (card (waiting s t ?m)) - 1"
    using pw card_gt_0_iff [of "waiting s t ?m"] by (auto simp: card_Diff_singleton)
  have one: "granted ?l ?m = requested ?l ?m - 1 \<longleftrightarrow> waiting s t ?m - {p} = {}"
    using lock_counts_masks(3) [OF c, of ?m] pw by (auto simp: card_1_singleton_iff pending_def)
  have "lock_counts None ?s t"
    using pw one lock_counts_masks(1,2) [OF c] cw
    by (intro lock_counts_change [OF c m, where a = 0 and b = "-1" and H = "holders s t ?m" and W = "waiting s t ?m - {p}"] H W)
      (auto simp: fun_eq_iff pending_def)
  moreover have "lock_shape ?s t"
    using ok pq unfolding lock_ok_def lock_shape_def by (auto simp: hold_def)
  ultimately show ?thesis by (simp add: lock_ok_def)
qed

end
