(* ===== verification/LockAcquire.thy ===== *)
theory LockAcquire
  imports Deadlock
begin

unbundle bit_operations_syntax

text \<open>
  Acquiring and releasing locks, \<open>LockAcquireExtended\<close>, \<open>LockRelease\<close> and \<open>LockReleaseAll\<close> of
  \<open>storage/lmgr/lock.c\<close> and the sleep of \<open>storage/lmgr/proc.c\<close>: the table of the locks a backend
  holds itself, the fast path by which weak relation locks are kept in the \<open>PGPROC\<close> of their holder,
  the strong-lock counts that close the fast path, and the shared table behind both.  An operation
  is cut into the sections that run without another backend in between.
\<close>

section \<open>Private state of a backend\<close>

type_synonym LOCALLOCKTAG = "LOCKTAG \<times> LOCKMODE"

text \<open>
  The owner of a lock is a resource owner, \<open>None\<close> for the session.  The hash code kept in a
  \<open>LOCALLOCK\<close> is computed from its tag, and the allocated size of \<open>lockOwners\<close> is not modelled.
\<close>

record LOCALLOCK =
  ll_lock :: "LOCKTAG option"
  ll_proclock :: "PROCLOCKTAG option"
  nLocks :: int
  lockOwners :: "(nat option \<times> int) list"
  holdsStrongLockCount :: bool
  lockCleared :: bool

record LockLocal =
  MyProc :: nat
  MyDatabaseId :: Oid
  LockMethodLocalHash :: "LOCALLOCKTAG \<Rightarrow> LOCALLOCK option"
  FastPathLocalUseCount :: nat
  StrongLockInProgress :: "LOCALLOCKTAG option"
  awaitedLock :: "LOCALLOCKTAG option"
  awaitedOwner :: "nat option"
  lockAwaited :: "LOCALLOCKTAG option"
  lockHolderProcPtr :: "nat option"
  CurrentResourceOwner :: "nat option"
  dwork :: DeadlockWork
  deadlock_state :: DeadLockState
  InterruptHoldoffCount :: nat

text \<open>
  Settings and the role of the backend; the hash function of the lock table is a parameter, and so
  is the operation by which the scheduler of resource queues takes a process off its queue.
  \<open>resqueue_dispatcher\<close> is the test \<open>Gp_role == GP_ROLE_DISPATCH && IsResQueueEnabled()\<close>.
\<close>

record LockEnv =
  MaxBackends :: nat
  allProcCount :: nat
  LockTagHashCode :: "LOCKTAG \<Rightarrow> uint32"
  RecoveryInProgress :: bool
  InRecovery :: bool
  is_reader :: bool
  log_lock_waits :: bool
  proc_exit_inprogress :: bool
  resqueue_dispatcher :: bool
  ResRemoveFromWaitQueue :: "nat \<Rightarrow> LockMem \<Rightarrow> LockMem"

type_synonym LockState = "LockLocal \<times> LockMem"

datatype LockAcquireResult =
  LOCKACQUIRE_NOT_AVAIL | LOCKACQUIRE_OK | LOCKACQUIRE_ALREADY_HELD | LOCKACQUIRE_ALREADY_CLEAR

datatype LockError =
    Unrecognized_lock_method | Unrecognized_lock_mode | Recovery_lock_mode | No_writer_proc
  | Out_of_shared_memory | Lock_already_held | Deadlock_detected | LockAcquire_failed
  | Locallock_corrupted | Lock_not_found | Detector_failed DeadlockError

text \<open>How a section of an operation ends.\<close>

datatype 'a Section = Returned 'a | Raised LockError | Asleep | Proceed

definition locallock_at :: "LockLocal \<Rightarrow> LOCALLOCKTAG \<Rightarrow> LOCALLOCK" where
  "locallock_at b k = the (LockMethodLocalHash b k)"

definition set_locallock :: "LOCALLOCKTAG \<Rightarrow> LOCALLOCK \<Rightarrow> LockLocal \<Rightarrow> LockLocal" where
  "set_locallock k ll b = b\<lparr>LockMethodLocalHash := (LockMethodLocalHash b)(k \<mapsto> ll)\<rparr>"

definition FAST_PATH_STRONG_LOCK_HASH_PARTITIONS :: nat where
  "FAST_PATH_STRONG_LOCK_HASH_PARTITIONS = 1024"

definition FastPathStrongLockHashPartition :: "uint32 \<Rightarrow> nat" where
  "FastPathStrongLockHashPartition hashcode = unat hashcode mod FAST_PATH_STRONG_LOCK_HASH_PARTITIONS"

section \<open>The local lock table\<close>

definition new_locallock :: LOCALLOCK where
  "new_locallock = \<lparr>ll_lock = None, ll_proclock = None, nLocks = 0, lockOwners = [],
     holdsStrongLockCount = False, lockCleared = False\<rparr>"

fun grant_owner :: "nat option \<Rightarrow> (nat option \<times> int) list \<Rightarrow> (nat option \<times> int) list" where
  "grant_owner owner [] = [(owner, 1)]"
| "grant_owner owner ((o1, n1) # os) =
     (if o1 = owner then (o1, n1 + 1) # os else (o1, n1) # grant_owner owner os)"

definition GrantLockLocal :: "LOCALLOCKTAG \<Rightarrow> nat option \<Rightarrow> LockLocal \<Rightarrow> LockLocal" where
  "GrantLockLocal k owner b =
     (let ll = locallock_at b k in
      set_locallock k (ll\<lparr>nLocks := nLocks ll + 1, lockOwners := grant_owner owner (lockOwners ll)\<rparr>) b)"

definition GrantAwaitedLock :: "LockLocal \<Rightarrow> LockLocal" where
  "GrantAwaitedLock b = GrantLockLocal (the (awaitedLock b)) (awaitedOwner b) b"

definition MarkLockClear :: "LOCALLOCKTAG \<Rightarrow> LockLocal \<Rightarrow> LockLocal" where
  "MarkLockClear k b = set_locallock k ((locallock_at b k)\<lparr>lockCleared := True\<rparr>) b"

definition change_strong_count :: "LockEnv \<Rightarrow> LOCKTAG \<Rightarrow> (nat \<Rightarrow> nat) \<Rightarrow> LockMem \<Rightarrow> LockMem" where
  "change_strong_count env t f s =
     (let h = FastPathStrongLockHashPartition (LockTagHashCode env t) in
      s\<lparr>strong_count := (strong_count s)(h := f (strong_count s h))\<rparr>)"

definition RemoveLocalLock :: "LockEnv \<Rightarrow> LOCALLOCKTAG \<Rightarrow> LockState \<Rightarrow> LockState" where
  "RemoveLocalLock env k = (\<lambda>(b, s).
     (b\<lparr>LockMethodLocalHash := (LockMethodLocalHash b)(k := None)\<rparr>,
      if holdsStrongLockCount (locallock_at b k)
      then change_strong_count env (fst k) (\<lambda>n. n - 1) s else s))"

definition BeginStrongLockAcquire :: "LockEnv \<Rightarrow> LOCALLOCKTAG \<Rightarrow> LockState \<Rightarrow> LockState" where
  "BeginStrongLockAcquire env k = (\<lambda>(b, s).
     ((set_locallock k ((locallock_at b k)\<lparr>holdsStrongLockCount := True\<rparr>) b)
        \<lparr>StrongLockInProgress := Some k\<rparr>,
      change_strong_count env (fst k) Suc s))"

definition FinishStrongLockAcquire :: "LockLocal \<Rightarrow> LockLocal" where
  "FinishStrongLockAcquire b = b\<lparr>StrongLockInProgress := None\<rparr>"

definition AbortStrongLockAcquire :: "LockEnv \<Rightarrow> LockState \<Rightarrow> LockState" where
  "AbortStrongLockAcquire env = (\<lambda>(b, s).
     case StrongLockInProgress b of
       None \<Rightarrow> (b, s)
     | Some k \<Rightarrow>
         ((set_locallock k ((locallock_at b k)\<lparr>holdsStrongLockCount := False\<rparr>) b)
            \<lparr>StrongLockInProgress := None\<rparr>,
          change_strong_count env (fst k) (\<lambda>n. n - 1) s))"

section \<open>The fast path\<close>

definition FP_LOCK_SLOTS_PER_BACKEND :: nat where "FP_LOCK_SLOTS_PER_BACKEND = 16"
definition FAST_PATH_BITS_PER_SLOT :: nat where "FAST_PATH_BITS_PER_SLOT = 3"
definition FAST_PATH_LOCKNUMBER_OFFSET :: nat where "FAST_PATH_LOCKNUMBER_OFFSET = 1"
definition FAST_PATH_MASK :: uint64 where "FAST_PATH_MASK = 7"

definition FAST_PATH_GET_BITS :: "PGPROC \<Rightarrow> nat \<Rightarrow> uint64" where
  "FAST_PATH_GET_BITS pr n = drop_bit (FAST_PATH_BITS_PER_SLOT * n) (fpLockBits pr) AND FAST_PATH_MASK"

definition FAST_PATH_BIT_POSITION :: "nat \<Rightarrow> LOCKMODE \<Rightarrow> nat" where
  "FAST_PATH_BIT_POSITION n l = l - FAST_PATH_LOCKNUMBER_OFFSET + FAST_PATH_BITS_PER_SLOT * n"

definition FAST_PATH_SET_LOCKMODE :: "PGPROC \<Rightarrow> nat \<Rightarrow> LOCKMODE \<Rightarrow> PGPROC" where
  "FAST_PATH_SET_LOCKMODE pr n l =
     pr\<lparr>fpLockBits := fpLockBits pr OR push_bit (FAST_PATH_BIT_POSITION n l) 1\<rparr>"

definition FAST_PATH_CLEAR_LOCKMODE :: "PGPROC \<Rightarrow> nat \<Rightarrow> LOCKMODE \<Rightarrow> PGPROC" where
  "FAST_PATH_CLEAR_LOCKMODE pr n l =
     pr\<lparr>fpLockBits := fpLockBits pr AND NOT (push_bit (FAST_PATH_BIT_POSITION n l) 1)\<rparr>"

definition FAST_PATH_CHECK_LOCKMODE :: "PGPROC \<Rightarrow> nat \<Rightarrow> LOCKMODE \<Rightarrow> bool" where
  "FAST_PATH_CHECK_LOCKMODE pr n l \<longleftrightarrow> fpLockBits pr AND push_bit (FAST_PATH_BIT_POSITION n l) 1 \<noteq> 0"

definition FAST_PATH_SET_HOLD_TILL_END_XACT :: "PGPROC \<Rightarrow> nat \<Rightarrow> uint64 \<Rightarrow> PGPROC" where
  "FAST_PATH_SET_HOLD_TILL_END_XACT pr n bits =
     pr\<lparr>fpHoldTillEndXactBits := fpHoldTillEndXactBits pr OR
          push_bit (FAST_PATH_BITS_PER_SLOT * n) (bits AND FAST_PATH_MASK)\<rparr>"

definition FAST_PATH_GET_HOLD_TILL_END_XACT_BITS :: "PGPROC \<Rightarrow> nat \<Rightarrow> uint64" where
  "FAST_PATH_GET_HOLD_TILL_END_XACT_BITS pr n =
     drop_bit (FAST_PATH_BITS_PER_SLOT * n) (fpHoldTillEndXactBits pr) AND FAST_PATH_MASK"

definition EligibleForRelationFastPath :: "Oid \<Rightarrow> LOCKTAG \<Rightarrow> LOCKMODE \<Rightarrow> bool" where
  "EligibleForRelationFastPath db t m \<longleftrightarrow>
     locktag_lockmethodid t = DEFAULT_LOCKMETHOD \<and> locktag_type t = LOCKTAG_RELATION \<and>
     locktag_field1 t = db \<and> db \<noteq> 0 \<and> m < ShareUpdateExclusiveLock"

definition ConflictsWithRelationFastPath :: "LOCKTAG \<Rightarrow> LOCKMODE \<Rightarrow> bool" where
  "ConflictsWithRelationFastPath t m \<longleftrightarrow>
     locktag_lockmethodid t = DEFAULT_LOCKMETHOD \<and> locktag_type t = LOCKTAG_RELATION \<and>
     locktag_field1 t \<noteq> 0 \<and> ShareUpdateExclusiveLock < m"

text \<open>
  The scan for a slot: \<open>Inl f\<close> is the slot that has the relation already, \<open>Inr u\<close> the last unused
  slot, or the number of slots when there is none.
\<close>

fun fp_scan :: "PGPROC \<Rightarrow> Oid \<Rightarrow> nat list \<Rightarrow> nat \<Rightarrow> nat + nat" where
  "fp_scan pr relid [] unused = Inr unused"
| "fp_scan pr relid (f # fs) unused =
     (if FAST_PATH_GET_BITS pr f = 0 then fp_scan pr relid fs f
      else if fpRelId pr ! f = relid then Inl f
      else fp_scan pr relid fs unused)"

definition FastPathGrantRelationLock :: "Oid \<Rightarrow> LOCKMODE \<Rightarrow> LockState \<Rightarrow> bool \<times> LockState" where
  "FastPathGrantRelationLock relid m = (\<lambda>(b, s).
     let me = MyProc b; pr = allProcs s me in
     case fp_scan pr relid [0..<FP_LOCK_SLOTS_PER_BACKEND] FP_LOCK_SLOTS_PER_BACKEND of
       Inl f \<Rightarrow> (True, b, set_proc me (FAST_PATH_SET_LOCKMODE pr f m) s)
     | Inr u \<Rightarrow>
         if u < FP_LOCK_SLOTS_PER_BACKEND then
           (True, b\<lparr>FastPathLocalUseCount := Suc (FastPathLocalUseCount b)\<rparr>,
            set_proc me (FAST_PATH_SET_LOCKMODE
              (FAST_PATH_SET_HOLD_TILL_END_XACT (pr\<lparr>fpRelId := (fpRelId pr)[u := relid]\<rparr>) u 0) u m) s)
         else (False, b, s))"

fun fp_ungrant :: "Oid \<Rightarrow> LOCKMODE \<Rightarrow> nat list \<Rightarrow> PGPROC \<Rightarrow> nat \<Rightarrow> bool \<Rightarrow> PGPROC \<times> nat \<times> bool" where
  "fp_ungrant relid m [] pr used result = (pr, used, result)"
| "fp_ungrant relid m (f # fs) pr used result =
     (let hit = (fpRelId pr ! f = relid \<and> FAST_PATH_CHECK_LOCKMODE pr f m);
          pr1 = (if hit then FAST_PATH_CLEAR_LOCKMODE pr f m else pr) in
      fp_ungrant relid m fs pr1 (if FAST_PATH_GET_BITS pr1 f \<noteq> 0 then Suc used else used)
        (result \<or> hit))"

definition FastPathUnGrantRelationLock :: "Oid \<Rightarrow> LOCKMODE \<Rightarrow> LockState \<Rightarrow> bool \<times> LockState" where
  "FastPathUnGrantRelationLock relid m = (\<lambda>(b, s).
     let me = MyProc b;
         (pr, used, result) = fp_ungrant relid m [0..<FP_LOCK_SLOTS_PER_BACKEND] (allProcs s me) 0 False in
     (result, b\<lparr>FastPathLocalUseCount := used\<rparr>, set_proc me pr s))"

fun setFPHoldTillEndXact_from :: "Oid \<Rightarrow> nat list \<Rightarrow> PGPROC \<Rightarrow> bool \<times> PGPROC" where
  "setFPHoldTillEndXact_from relid [] pr = (False, pr)"
| "setFPHoldTillEndXact_from relid (f # fs) pr =
     (let lockbits = FAST_PATH_GET_BITS pr f in
      if fpRelId pr ! f \<noteq> relid \<or> lockbits = 0 then setFPHoldTillEndXact_from relid fs pr
      else (True, FAST_PATH_SET_HOLD_TILL_END_XACT pr f lockbits))"

definition setFPHoldTillEndXact :: "Oid \<Rightarrow> LockState \<Rightarrow> bool \<times> LockState" where
  "setFPHoldTillEndXact relid = (\<lambda>(b, s).
     let (result, pr) = setFPHoldTillEndXact_from relid [0..<FP_LOCK_SLOTS_PER_BACKEND]
           (allProcs s (MyProc b)) in
     (result, b, set_proc (MyProc b) pr s))"

text \<open>
  Moving the locks of process \<open>i\<close> on the relation into the shared table, which runs under that
  process's \<open>backendLock\<close>.  \<open>shmem i\<close> tells whether there is room for a new \<open>LOCK\<close> and a new
  \<open>PROCLOCK\<close>, and what the memory of a new \<open>LOCK\<close> holds.
\<close>

fun transfer_modes ::
  "LockEnv \<Rightarrow> bool \<times> bool \<times> bool \<Rightarrow> LOCKTAG \<Rightarrow> nat \<Rightarrow> nat \<Rightarrow> LOCKMODE list \<Rightarrow> LockMem \<Rightarrow> (LockError option \<times> bool) \<times> LockMem" where
  "transfer_modes env room t i f [] s = ((None, True), s)"
| "transfer_modes env room t i f (m # ms) s =
     (if \<not> FAST_PATH_CHECK_LOCKMODE (allProcs s i) f m then transfer_modes env room t i f ms s
      else case room of (lock_room, proclock_room, junk) \<Rightarrow>
        case SetupLockInTable lock_room proclock_room junk i t (LockTagHashCode env t) m s of
          (Setup_NULL, s1) \<Rightarrow> ((None, False), s1)
        | (Setup_already_held, s1) \<Rightarrow> ((Some Lock_already_held, False), s1)
        | (Setup_OK, s1) \<Rightarrow>
            let s2 = set_lock t ((lock_at s1 t)\<lparr>holdTillEndXact :=
                       0 < FAST_PATH_GET_HOLD_TILL_END_XACT_BITS (allProcs s1 i) f\<rparr>) s1;
                s3 = GrantLock t (t, i) m s2 in
            transfer_modes env room t i f ms
              (set_proc i (FAST_PATH_CLEAR_LOCKMODE (allProcs s3 i) f m) s3))"

definition transfer_proc ::
  "LockEnv \<Rightarrow> (nat \<Rightarrow> bool \<times> bool \<times> bool) \<Rightarrow> LOCKTAG \<Rightarrow> nat \<Rightarrow> LockMem \<Rightarrow> (LockError option \<times> bool) \<times> LockMem" where
  "transfer_proc env shmem t i s =
     (let pr = allProcs s i; relid = locktag_field2 t in
      if databaseId pr \<noteq> locktag_field1 t then ((None, True), s)
      else case find (\<lambda>f. relid = fpRelId pr ! f \<and> FAST_PATH_GET_BITS pr f \<noteq> 0) [0..<FP_LOCK_SLOTS_PER_BACKEND] of
        None \<Rightarrow> ((None, True), s)
      | Some f \<Rightarrow> transfer_modes env (shmem i) t i f
          [FAST_PATH_LOCKNUMBER_OFFSET..<FAST_PATH_LOCKNUMBER_OFFSET + FAST_PATH_BITS_PER_SLOT] s)"

fun FastPathTransferRelationLocks ::
  "LockEnv \<Rightarrow> (nat \<Rightarrow> bool \<times> bool \<times> bool) \<Rightarrow> LOCKTAG \<Rightarrow> nat list \<Rightarrow> LockMem \<Rightarrow> (LockError option \<times> bool) \<times> LockMem" where
  "FastPathTransferRelationLocks env shmem t [] s = ((None, True), s)"
| "FastPathTransferRelationLocks env shmem t (i # is) s =
     (case transfer_proc env shmem t i s of
        ((None, True), s1) \<Rightarrow> FastPathTransferRelationLocks env shmem t is s1
      | r \<Rightarrow> r)"

section \<open>Sleeping\<close>

text \<open>
  Where \<open>ProcSleep\<close> puts a process that already holds \<open>held\<close> on the object: before the first
  waiter that must wait for it, unless that is a deadlock already or the lock can be had at once.
\<close>

datatype SleepChoice = At_tail | Put_before | Early_deadlock nat | Grant_now

fun sleep_scan ::
  "LockMethodData \<Rightarrow> LockMem \<Rightarrow> LOCKTAG \<Rightarrow> PROCLOCKTAG \<Rightarrow> LOCKMODE \<Rightarrow> LOCKMASK \<Rightarrow> LOCKMASK \<Rightarrow> nat \<Rightarrow>
   nat list \<Rightarrow> nat \<times> SleepChoice" where
  "sleep_scan tab s t k m held aheadRequests i [] = (i, At_tail)"
| "sleep_scan tab s t k m held aheadRequests i (p # ps) =
     (let pm = waitLockMode (allProcs s p) in
      if conflictTab tab ! pm AND held \<noteq> 0 then
        (if conflictTab tab ! m AND heldLocks (allProcs s p) \<noteq> 0 then (i, Early_deadlock p)
         else if conflictTab tab ! m AND aheadRequests = 0 \<and> LockCheckConflicts tab m t k s = STATUS_OK
         then (i, Grant_now)
         else (i, Put_before))
      else sleep_scan tab s t k m held (aheadRequests OR LOCKBIT_ON pm) (Suc i) ps)"

definition enqueue :: "LOCKTAG \<Rightarrow> nat \<Rightarrow> LOCKMODE \<Rightarrow> nat \<Rightarrow> LockMem \<Rightarrow> LockMem" where
  "enqueue t p m i s =
     (let l = lock_at s t; pr = allProcs s p in
      set_proc p (pr\<lparr>linked := True, waitLock := Some t, waitProcLock := Some (t, p), waitLockMode := m,
                     waitStatus := STATUS_WAITING\<rparr>)
       (set_lock t (l\<lparr>waitProcs := take i (waitProcs l) @ p # drop i (waitProcs l),
                      waitMask := waitMask l OR LOCKBIT_ON m\<rparr>) s))"

text \<open>\<open>ProcSleep\<close> up to the point where the process sleeps.\<close>

definition ProcSleep :: "LockEnv \<Rightarrow> LOCALLOCKTAG \<Rightarrow> LockState \<Rightarrow> ProcStatus \<times> LockState" where
  "ProcSleep env k = (\<lambda>(b, s).
     let t = fst k; m = snd k; tab = GetLocksMethodTable t; me = MyProc b; queue = waitProcs (lock_at s t);
         held = heldLocks (allProcs s me);
         (i, choice) = (if held \<noteq> 0 then sleep_scan tab s t (t, me) m held 0 0 queue
                        else (length queue, At_tail)) in
     case choice of
       Grant_now \<Rightarrow> (STATUS_OK, GrantAwaitedLock b, GrantLock t (t, me) m s)
     | Early_deadlock p \<Rightarrow>
         (STATUS_ERROR, b\<lparr>dwork := RememberSimpleDeadLock me m t p s (dwork b)\<rparr>,
          RemoveFromWaitQueue me (enqueue t me m i s))
     | _ \<Rightarrow> (STATUS_WAITING, b\<lparr>lockAwaited := Some k, deadlock_state := DS_NOT_YET_CHECKED\<rparr>,
             enqueue t me m i s))"

section \<open>Acquiring a lock\<close>

definition lock_owner :: "bool \<Rightarrow> LockLocal \<Rightarrow> nat option" where
  "lock_owner sessionLock b = (if sessionLock then None else CurrentResourceOwner b)"

text \<open>
  The checks and the local table.  \<open>writer\<close> is the process of the session's writer gang that a
  reader finds, if any.
\<close>

definition acquire_start ::
  "LockEnv \<Rightarrow> LOCKTAG \<Rightarrow> LOCKMODE \<Rightarrow> bool \<Rightarrow> nat option \<Rightarrow> LockState \<Rightarrow> LockAcquireResult Section \<times> LockState" where
  "acquire_start env t m sessionLock writer = (\<lambda>(b, s).
     if \<not> (0 < locktag_lockmethodid t \<and> locktag_lockmethodid t < length LockMethods)
     then (Raised Unrecognized_lock_method, b, s)
     else if \<not> (0 < m \<and> m \<le> numLockModes (GetLocksMethodTable t)) then (Raised Unrecognized_lock_mode, b, s)
     else if RecoveryInProgress env \<and> \<not> InRecovery env \<and>
             locktag_type t \<in> {LOCKTAG_OBJECT, LOCKTAG_RELATION} \<and> RowExclusiveLock < m
     then (Raised Recovery_lock_mode, b, s)
     else
       let k = (t, m);
           b1 = (if LockMethodLocalHash b k = None then set_locallock k new_locallock b else b);
           ll = locallock_at b1 k in
       if 0 < nLocks ll then
         (Returned (if lockCleared ll then LOCKACQUIRE_ALREADY_CLEAR else LOCKACQUIRE_ALREADY_HELD),
          GrantLockLocal k (lock_owner sessionLock b) b1, s)
       else
         let b2 = (if lockHolderProcPtr b1 = None then b1\<lparr>lockHolderProcPtr := Some (MyProc b1)\<rparr> else b1) in
         if locktag_lockmethodid t = DEFAULT_LOCKMETHOD \<and> locktag_type t \<noteq> LOCKTAG_TRANSACTION \<and>
            is_reader env \<and> lockHolderProcPtr b2 = Some (MyProc b2)
         then (case writer of
                 None \<Rightarrow> (Raised No_writer_proc, b2, s)
               | Some p \<Rightarrow> (Proceed, b2\<lparr>lockHolderProcPtr := Some p\<rparr>, s))
         else (Proceed, b2, s))"

definition acquire_fast ::
  "LockEnv \<Rightarrow> LOCKTAG \<Rightarrow> LOCKMODE \<Rightarrow> nat option \<Rightarrow> LockState \<Rightarrow> LockAcquireResult Section \<times> LockState" where
  "acquire_fast env t m owner = (\<lambda>(b, s).
     if EligibleForRelationFastPath (MyDatabaseId b) t m \<and> FastPathLocalUseCount b < FP_LOCK_SLOTS_PER_BACKEND
     then
       let (acquired, b1, s1) =
             (if strong_count s (FastPathStrongLockHashPartition (LockTagHashCode env t)) \<noteq> 0
              then (False, b, s) else FastPathGrantRelationLock (locktag_field2 t) m (b, s)) in
       if acquired then
         (Returned LOCKACQUIRE_OK,
          GrantLockLocal (t, m) owner
            (set_locallock (t, m) ((locallock_at b1 (t, m))\<lparr>ll_lock := None, ll_proclock := None\<rparr>) b1), s1)
       else (Proceed, b1, s1)
     else (Proceed, b, s))"

definition acquire_strong :: "LockEnv \<Rightarrow> LOCKTAG \<Rightarrow> LOCKMODE \<Rightarrow> LockState \<Rightarrow> LockState" where
  "acquire_strong env t m bs =
     (if ConflictsWithRelationFastPath t m then BeginStrongLockAcquire env (t, m) bs else bs)"

text \<open>Giving up for want of shared memory.\<close>

definition acquire_no_memory ::
  "LockEnv \<Rightarrow> bool \<Rightarrow> LOCALLOCKTAG \<Rightarrow> LockState \<Rightarrow> LockAcquireResult Section \<times> LockState" where
  "acquire_no_memory env reportMemoryError k bs =
     (let (b, s) = AbortStrongLockAcquire env bs;
          bs1 = (if nLocks (locallock_at b k) = 0 then RemoveLocalLock env k (b, s) else (b, s)) in
      (if reportMemoryError then Raised Out_of_shared_memory else Returned LOCKACQUIRE_NOT_AVAIL, bs1))"

text \<open>
  The status of the request: a reader whose writer holds the lock does not queue up behind
  waiters.
\<close>

definition acquire_status :: "LOCKTAG \<Rightarrow> LOCKMODE \<Rightarrow> LockState \<Rightarrow> ProcStatus" where
  "acquire_status t m = (\<lambda>(b, s).
     let tab = GetLocksMethodTable t; me = MyProc b; l = lock_at s t;
         check = LockCheckConflicts tab m t (t, me) s;
         queued = (if conflictTab tab ! m AND waitMask l \<noteq> 0 then STATUS_FOUND else check) in
     case lockHolderProcPtr b of
       None \<Rightarrow> queued
     | Some w \<Rightarrow>
         if w = me then queued
         else case LockMethodProcLockHash s (t, w) of
           None \<Rightarrow> queued
         | Some pl \<Rightarrow> if holdMask pl \<noteq> 0 then check else queued)"

definition drop_request :: "LOCKMODE \<Rightarrow> LOCK \<Rightarrow> LOCK" where
  "drop_request m l =
     l\<lparr>nRequested := nRequested l - 1, requested := (requested l)(m := requested l m - 1)\<rparr>"

definition acquire_nowait ::
  "LockEnv \<Rightarrow> LOCALLOCKTAG \<Rightarrow> LockState \<Rightarrow> LockAcquireResult Section \<times> LockState" where
  "acquire_nowait env k bs =
     (let (b, s) = AbortStrongLockAcquire env bs; t = fst k; m = snd k; pk = (t, MyProc b);
          s1 = (if holdMask (proclock_at s pk) = 0 then remove_proclock pk s else s);
          s2 = set_lock t (drop_request m (lock_at s1 t)) s1 in
      (Returned LOCKACQUIRE_NOT_AVAIL,
       if nLocks (locallock_at b k) = 0 then RemoveLocalLock env k (b, s2) else (b, s2)))"

text \<open>The section under the partition lock.\<close>

definition acquire_main ::
  "LockEnv \<Rightarrow> bool \<times> bool \<times> bool \<Rightarrow> LOCKTAG \<Rightarrow> LOCKMODE \<Rightarrow> nat option \<Rightarrow> bool \<Rightarrow> bool \<Rightarrow> LockState \<Rightarrow>
   LockAcquireResult Section \<times> LockState" where
  "acquire_main env room t m owner dontWait reportMemoryError = (\<lambda>(b, s).
     let k = (t, m); me = MyProc b; (lock_room, proclock_room, junk) = room in
     case SetupLockInTable lock_room proclock_room junk me t (LockTagHashCode env t) m s of
       (Setup_NULL, s1) \<Rightarrow> acquire_no_memory env reportMemoryError k (b, s1)
     | (Setup_already_held, s1) \<Rightarrow> (Raised Lock_already_held, b, s1)
     | (Setup_OK, s1) \<Rightarrow>
         let b1 = set_locallock k ((locallock_at b k)\<lparr>ll_lock := Some t, ll_proclock := Some (t, me)\<rparr>) b in
         if acquire_status t m (b1, s1) = STATUS_OK then
           (Returned LOCKACQUIRE_OK, FinishStrongLockAcquire (GrantLockLocal k owner b1), GrantLock t (t, me) m s1)
         else if dontWait then acquire_nowait env k (b1, s1)
         else
           let s2 = set_proc me ((allProcs s1 me)\<lparr>heldLocks := holdMask (proclock_at s1 (t, me))\<rparr>) s1;
               b2 = b1\<lparr>awaitedLock := Some k, awaitedOwner := owner\<rparr> in
           case ProcSleep env k (b2, s2) of
             (STATUS_OK, b3, s3) \<Rightarrow>
               (Returned LOCKACQUIRE_OK, FinishStrongLockAcquire (b3\<lparr>awaitedLock := None\<rparr>), s3)
           | (STATUS_ERROR, b3, s3) \<Rightarrow> (Raised Deadlock_detected, b3\<lparr>awaitedLock := None\<rparr>, s3)
           | (_, b3, s3) \<Rightarrow> (Asleep, b3, s3))"

text \<open>The rest of \<open>ProcSleep\<close>, \<open>WaitOnLock\<close> and \<open>LockAcquireExtended\<close>, once the wait is over.\<close>

definition acquire_awake :: "LockEnv \<Rightarrow> LockState \<Rightarrow> LockAcquireResult Section \<times> LockState" where
  "acquire_awake env = (\<lambda>(b, s).
     let pr = allProcs s (MyProc b); k = the (lockAwaited b) in
     if waitStatus pr = STATUS_WAITING then (Asleep, b, s)
     else
       let b1 = b\<lparr>lockAwaited := None\<rparr> in
       if waitStatus pr = STATUS_OK then
         let b2 = (GrantAwaitedLock b1)\<lparr>awaitedLock := None\<rparr> in
         if holdMask (proclock_at s (fst k, MyProc b)) AND LOCKBIT_ON (snd k) = 0
         then (Raised LockAcquire_failed, AbortStrongLockAcquire env (b2, s))
         else (Returned LOCKACQUIRE_OK, FinishStrongLockAcquire b2, s)
       else (Raised Deadlock_detected, b1\<lparr>awaitedLock := None\<rparr>, s))"

text \<open>The whole operation when no other backend comes in between.\<close>

definition LockAcquireExtended ::
  "LockEnv \<Rightarrow> (nat \<Rightarrow> bool \<times> bool \<times> bool) \<Rightarrow> nat option \<Rightarrow> LOCKTAG \<Rightarrow> LOCKMODE \<Rightarrow> bool \<Rightarrow> bool \<Rightarrow> bool \<Rightarrow>
   LockState \<Rightarrow> LockAcquireResult Section \<times> LockState" where
  "LockAcquireExtended env shmem writer t m sessionLock dontWait reportMemoryError bs =
     (case acquire_start env t m sessionLock writer bs of
        (Proceed, b1, s1) \<Rightarrow>
          (let owner = lock_owner sessionLock b1 in
           case acquire_fast env t m owner (b1, s1) of
             (Proceed, bs2) \<Rightarrow>
               (let (b3, s3) = acquire_strong env t m bs2;
                    (r, s4) = (if ConflictsWithRelationFastPath t m
                               then FastPathTransferRelationLocks env shmem t [0..<allProcCount env] s3
                               else ((None, True), s3)) in
                case r of
                  (Some e, _) \<Rightarrow> (Raised e, b3, s4)
                | (None, ok) \<Rightarrow>
                    if \<not> ok then acquire_no_memory env reportMemoryError (t, m) (b3, s4)
                    else acquire_main env (shmem (MyProc b3)) t m owner dontWait reportMemoryError (b3, s4))
           | r \<Rightarrow> r)
      | r \<Rightarrow> r)"

definition LockAcquire ::
  "LockEnv \<Rightarrow> (nat \<Rightarrow> bool \<times> bool \<times> bool) \<Rightarrow> nat option \<Rightarrow> LOCKTAG \<Rightarrow> LOCKMODE \<Rightarrow> bool \<Rightarrow> bool \<Rightarrow>
   LockState \<Rightarrow> LockAcquireResult Section \<times> LockState" where
  "LockAcquire env shmem writer t m sessionLock dontWait =
     LockAcquireExtended env shmem writer t m sessionLock dontWait True"

section \<open>While asleep\<close>

definition awaits_resource :: "LockEnv \<Rightarrow> LOCKTAG \<Rightarrow> bool" where
  "awaits_resource env t \<longleftrightarrow> resqueue_dispatcher env \<and> locktag_lockmethodid t = RESOURCE_LOCKMETHOD"

definition CheckDeadLock :: "LockEnv \<Rightarrow> LockState \<Rightarrow> LockError + LockState" where
  "CheckDeadLock env = (\<lambda>(b, s).
     let me = MyProc b in
     if proc_exit_inprogress env \<or> \<not> linked (allProcs s me) then Inr (b, s)
     else case DeadLockCheck (MaxBackends env) me me s (dwork b) of
       Inl e \<Rightarrow> Inl (Detector_failed e)
     | Inr (st, s1, w) \<Rightarrow>
         let b1 = b\<lparr>dwork := w, deadlock_state := st\<rparr> in
         if st = DS_HARD_DEADLOCK then
           let s2 = (if awaits_resource env (the (waitLock (allProcs s1 me)))
                     then ResRemoveFromWaitQueue env me s1 else RemoveFromWaitQueue me s1);
               pr = allProcs s2 me in
           Inr (b1, set_proc me (pr\<lparr>sem := Suc (sem pr)\<rparr>) s2)
         else if log_lock_waits env \<or> st = DS_BLOCKED_BY_AUTOVACUUM then
           Inr (b1, set_proc me ((allProcs s1 me)\<lparr>sem := Suc (sem (allProcs s1 me))\<rparr>) s1)
         else Inr (b1, s1))"

definition HOLD_INTERRUPTS :: "LockLocal \<Rightarrow> LockLocal" where
  "HOLD_INTERRUPTS b = b\<lparr>InterruptHoldoffCount := Suc (InterruptHoldoffCount b)\<rparr>"

definition RESUME_INTERRUPTS :: "LockLocal \<Rightarrow> LockLocal" where
  "RESUME_INTERRUPTS b = b\<lparr>InterruptHoldoffCount := InterruptHoldoffCount b - 1\<rparr>"

definition LockErrorCleanup :: "LockEnv \<Rightarrow> LockState \<Rightarrow> LockState" where
  "LockErrorCleanup env = (\<lambda>(b0, s0).
     let (b, s) = AbortStrongLockAcquire env (HOLD_INTERRUPTS b0, s0) in
     case lockAwaited b of
       None \<Rightarrow> (RESUME_INTERRUPTS b, s)
     | Some k \<Rightarrow>
         if awaits_resource env (fst k) then (b, s)
         else if linked (allProcs s (MyProc b)) then
           (RESUME_INTERRUPTS (b\<lparr>lockAwaited := None\<rparr>), RemoveFromWaitQueue (MyProc b) s)
         else
           (RESUME_INTERRUPTS ((if waitStatus (allProcs s (MyProc b)) = STATUS_OK then GrantAwaitedLock b else b)
              \<lparr>lockAwaited := None\<rparr>), s))"

section \<open>Releasing locks\<close>

definition LockRefindAndRelease ::
  "LockEnv \<Rightarrow> nat \<Rightarrow> LOCKTAG \<Rightarrow> LOCKMODE \<Rightarrow> bool \<Rightarrow> LockMem \<Rightarrow> LockError + LockMem" where
  "LockRefindAndRelease env p t m decrement_strong_lock_count s =
     (if LockMethodLockHash s t = None \<or> LockMethodProcLockHash s (t, p) = None then Inl Lock_not_found
      else if holdMask (proclock_at s (t, p)) AND LOCKBIT_ON m = 0 then Inr s
      else
        let tab = GetLocksMethodTable t;
            (wakeupNeeded, s1) = UnGrantLock t m (t, p) tab s;
            s2 = CleanUpLock t (t, p) tab wakeupNeeded s1 in
        Inr (if decrement_strong_lock_count \<and> ConflictsWithRelationFastPath t m
             then change_strong_count env t (\<lambda>n. n - 1) s2 else s2))"

text \<open>Taking one lock off an owner's account; the emptied slot is filled with the last one.\<close>

fun last_owner :: "nat option \<Rightarrow> (nat option \<times> int) list \<Rightarrow> nat \<Rightarrow> nat option" where
  "last_owner owner os 0 = None"
| "last_owner owner os (Suc i) = (if fst (os ! i) = owner then Some i else last_owner owner os i)"

definition release_owner :: "nat option \<Rightarrow> (nat option \<times> int) list \<Rightarrow> (nat option \<times> int) list option" where
  "release_owner owner os =
     (case last_owner owner os (length os) of
        None \<Rightarrow> None
      | Some i \<Rightarrow>
          let n = snd (os ! i) - 1 in
          Some (if n = 0 then swap_remove os i else os[i := (owner, n)]))"

text \<open>\<open>LockRelease\<close> up to the shared table: \<open>Proceed\<close> when the lock is to be released there.\<close>

definition release_local ::
  "LockEnv \<Rightarrow> LOCKTAG \<Rightarrow> LOCKMODE \<Rightarrow> bool \<Rightarrow> LockState \<Rightarrow> bool Section \<times> LockState" where
  "release_local env t m sessionLock = (\<lambda>(b, s).
     let k = (t, m) in
     if \<not> (0 < locktag_lockmethodid t \<and> locktag_lockmethodid t < length LockMethods)
     then (Raised Unrecognized_lock_method, b, s)
     else if \<not> (0 < m \<and> m \<le> numLockModes (GetLocksMethodTable t)) then (Raised Unrecognized_lock_mode, b, s)
     else if LockMethodLocalHash b k = None \<or> nLocks (locallock_at b k) \<le> 0 then (Returned False, b, s)
     else case release_owner (lock_owner sessionLock b) (lockOwners (locallock_at b k)) of
       None \<Rightarrow> (Returned False, b, s)
     | Some os \<Rightarrow>
         let n = nLocks (locallock_at b k) - 1;
             b1 = set_locallock k ((locallock_at b k)\<lparr>lockOwners := os, nLocks := n\<rparr>) b in
         if 0 < n then (Returned True, b1, s)
         else (Proceed, set_locallock k ((locallock_at b1 k)\<lparr>lockCleared := False\<rparr>) b1, s))"

definition release_fast ::
  "LockEnv \<Rightarrow> LOCKTAG \<Rightarrow> LOCKMODE \<Rightarrow> LockState \<Rightarrow> bool Section \<times> LockState" where
  "release_fast env t m = (\<lambda>(b, s).
     if EligibleForRelationFastPath (MyDatabaseId b) t m \<and> 0 < FastPathLocalUseCount b then
       let (released, bs1) = FastPathUnGrantRelationLock (locktag_field2 t) m (b, s) in
       if released then (Returned True, RemoveLocalLock env (t, m) bs1) else (Proceed, bs1)
     else (Proceed, b, s))"

definition release_main ::
  "LockEnv \<Rightarrow> LOCKTAG \<Rightarrow> LOCKMODE \<Rightarrow> LockState \<Rightarrow> bool Section \<times> LockState" where
  "release_main env t m = (\<lambda>(b, s).
     let me = MyProc b; k = (t, m); ll = locallock_at b k in
     if ll_lock ll = None \<and> (LockMethodLockHash s t = None \<or> LockMethodProcLockHash s (t, me) = None)
     then (Raised Lock_not_found, b, s)
     else
       let b1 = set_locallock k (ll\<lparr>ll_lock := Some t, ll_proclock := Some (t, me)\<rparr>) b in
       if holdMask (proclock_at s (t, me)) AND LOCKBIT_ON m = 0
       then (Returned False, RemoveLocalLock env k (b1, s))
       else
         let tab = GetLocksMethodTable t;
             (wakeupNeeded, s1) = UnGrantLock t m (t, me) tab s in
         (Returned True, RemoveLocalLock env k (b1, CleanUpLock t (t, me) tab wakeupNeeded s1)))"

definition LockRelease ::
  "LockEnv \<Rightarrow> LOCKTAG \<Rightarrow> LOCKMODE \<Rightarrow> bool \<Rightarrow> LockState \<Rightarrow> bool Section \<times> LockState" where
  "LockRelease env t m sessionLock bs =
     (case release_local env t m sessionLock bs of
        (Proceed, bs1) \<Rightarrow>
          (case release_fast env t m bs1 of
             (Proceed, bs2) \<Rightarrow> release_main env t m bs2
           | r \<Rightarrow> r)
      | r \<Rightarrow> r)"

definition LockHasWaiters :: "LockEnv \<Rightarrow> LOCKTAG \<Rightarrow> LOCKMODE \<Rightarrow> LockState \<Rightarrow> bool Section \<times> LockState" where
  "LockHasWaiters env t m = (\<lambda>(b, s).
     if \<not> (0 < locktag_lockmethodid t \<and> locktag_lockmethodid t < length LockMethods)
     then (Raised Unrecognized_lock_method, b, s)
     else if \<not> (0 < m \<and> m \<le> numLockModes (GetLocksMethodTable t)) then (Raised Unrecognized_lock_mode, b, s)
     else if LockMethodLocalHash b (t, m) = None \<or> nLocks (locallock_at b (t, m)) \<le> 0
     then (Returned False, b, s)
     else if holdMask (proclock_at s (t, MyProc b)) AND LOCKBIT_ON m = 0
     then (Returned False, RemoveLocalLock env (t, m) (b, s))
     else (Returned (conflictTab (GetLocksMethodTable t) ! m AND waitMask (lock_at s t) \<noteq> 0), b, s))"

text \<open>\<open>LockReleaseAll\<close>: an entry of the local table.\<close>

definition session_owner :: "(nat option \<times> int) list \<Rightarrow> (nat option \<times> int) list" where
  "session_owner os = foldl (\<lambda>os1 i. if fst (os1 ! i) = None then os1[0 := os1 ! i] else os1) os [0..<length os]"

definition release_entry ::
  "LockEnv \<Rightarrow> nat \<Rightarrow> bool \<Rightarrow> LOCALLOCKTAG \<Rightarrow> LockState \<Rightarrow> LockError + LockState" where
  "release_entry env lockmethodid allLocks k = (\<lambda>(b, s).
     let ll = locallock_at b k; t = fst k; m = snd k; me = MyProc b in
     if nLocks ll = 0 then Inr (RemoveLocalLock env k (b, s))
     else if locktag_lockmethodid t \<noteq> lockmethodid then Inr (b, s)
     else
       let os = session_owner (lockOwners ll) in
       if \<not> allLocks \<and> os \<noteq> [] \<and> fst (os ! 0) = None \<and> 0 < snd (os ! 0)
       then Inr (set_locallock k (ll\<lparr>nLocks := snd (os ! 0), lockOwners := take 1 os\<rparr>) b, s)
       else if ll_proclock ll = None \<or> ll_lock ll = None then
         (if \<not> EligibleForRelationFastPath (MyDatabaseId b) t m then Inl Locallock_corrupted
          else
            let (released, b1, s1) = FastPathUnGrantRelationLock (locktag_field2 t) m (b, s) in
            if released then Inr (RemoveLocalLock env k (b1, s1))
            else case LockRefindAndRelease env me t m False s1 of
              Inl e \<Rightarrow> Inl e
            | Inr s2 \<Rightarrow> Inr (RemoveLocalLock env k (b1, s2)))
       else
         let pl = proclock_at s (t, me);
             s1 = (if 0 < nLocks ll
                   then set_proclock (t, me) (pl\<lparr>releaseMask := releaseMask pl OR LOCKBIT_ON m\<rparr>) s else s) in
         Inr (RemoveLocalLock env k (b, s1)))"

fun release_entries ::
  "LockEnv \<Rightarrow> nat \<Rightarrow> bool \<Rightarrow> LOCALLOCKTAG list \<Rightarrow> LockState \<Rightarrow> LockError + LockState" where
  "release_entries env lockmethodid allLocks [] bs = Inr bs"
| "release_entries env lockmethodid allLocks (k # ks) bs =
     bindE (release_entry env lockmethodid allLocks k bs) (release_entries env lockmethodid allLocks ks)"

text \<open>A \<open>PROCLOCK\<close> of the process.\<close>

definition release_marked :: "LockMethodData \<Rightarrow> PROCLOCKTAG \<Rightarrow> LOCKMODE list \<Rightarrow> bool \<times> LockMem \<Rightarrow> bool \<times> LockMem" where
  "release_marked tab k = fold (\<lambda>i (wakeupNeeded, s).
     if releaseMask (proclock_at s k) AND LOCKBIT_ON i \<noteq> 0
     then (let (w, s1) = UnGrantLock (fst k) i k tab s in (wakeupNeeded \<or> w, s1))
     else (wakeupNeeded, s))"

definition release_proclock :: "nat \<Rightarrow> bool \<Rightarrow> PROCLOCKTAG \<Rightarrow> LockMem \<Rightarrow> LockMem" where
  "release_proclock lockmethodid allLocks k s =
     (let t = fst k; tab = GetLocksMethodTable t in
      if locktag_lockmethodid t \<noteq> lockmethodid then s
      else
        let pl = proclock_at s k;
            s1 = (if allLocks then set_proclock k (pl\<lparr>releaseMask := holdMask pl\<rparr>) s else s) in
        if releaseMask (proclock_at s1 k) = 0 \<and> holdMask (proclock_at s1 k) \<noteq> 0 then s1
        else
          let (wakeupNeeded, s2) = release_marked tab k [1..<Suc (numLockModes tab)] (False, s1);
              s3 = set_proclock k ((proclock_at s2 k)\<lparr>releaseMask := 0\<rparr>) s2 in
          CleanUpLock t k tab wakeupNeeded s3)"

text \<open>
  \<open>LockReleaseAll\<close>; \<open>keys\<close> is the order in which the scan of the local hash table finds its entries.
  The release of the virtual transaction's own lock is not modelled.
\<close>

definition LockReleaseAll ::
  "LockEnv \<Rightarrow> nat \<Rightarrow> bool \<Rightarrow> LOCALLOCKTAG list \<Rightarrow> LockState \<Rightarrow> LockError + LockState" where
  "LockReleaseAll env lockmethodid allLocks keys bs =
     (if \<not> (0 < lockmethodid \<and> lockmethodid < length LockMethods) then Inl Unrecognized_lock_method
      else bindE (release_entries env lockmethodid allLocks keys bs) (\<lambda>(b, s).
        Inr (b, fold (\<lambda>i s. fold (\<lambda>t. release_proclock lockmethodid allLocks (t, MyProc b))
                              (myProcLocks (allProcs s (MyProc b)) i) s)
                  [0..<NUM_LOCK_PARTITIONS] s)))"

text \<open>Releasing what one resource owner holds, and handing it to the parent.\<close>

definition ReleaseLockIfHeld ::
  "LockEnv \<Rightarrow> LOCALLOCKTAG \<Rightarrow> bool \<Rightarrow> LockState \<Rightarrow> LockState" where
  "ReleaseLockIfHeld env k sessionLock = (\<lambda>(b, s).
     let ll = locallock_at b k; owner = lock_owner sessionLock b; os = lockOwners ll in
     case last_owner owner os (length os) of
       None \<Rightarrow> (b, s)
     | Some i \<Rightarrow>
         if snd (os ! i) < nLocks ll then
           (set_locallock k (ll\<lparr>nLocks := nLocks ll - snd (os ! i), lockOwners := swap_remove os i\<rparr>) b, s)
         else
           snd (LockRelease env (fst k) (snd k) sessionLock
             (set_locallock k (ll\<lparr>nLocks := 1, lockOwners := os[i := (owner, 1)]\<rparr>) b, s)))"

definition LockReleaseSession ::
  "LockEnv \<Rightarrow> nat \<Rightarrow> LOCALLOCKTAG list \<Rightarrow> LockState \<Rightarrow> LockError + LockState" where
  "LockReleaseSession env lockmethodid keys bs =
     (if \<not> (0 < lockmethodid \<and> lockmethodid < length LockMethods) then Inl Unrecognized_lock_method
      else Inr (fold (\<lambda>k bs. if locktag_lockmethodid (fst k) \<noteq> lockmethodid then bs
                             else ReleaseLockIfHeld env k True bs) keys bs))"

definition LockReleaseCurrentOwner :: "LockEnv \<Rightarrow> LOCALLOCKTAG list \<Rightarrow> LockState \<Rightarrow> LockState" where
  "LockReleaseCurrentOwner env keys bs = fold (\<lambda>k. ReleaseLockIfHeld env k False) keys bs"

fun find_owners :: "nat option \<Rightarrow> nat option \<Rightarrow> (nat option \<times> int) list \<Rightarrow> nat \<Rightarrow> nat option \<Rightarrow> nat option \<Rightarrow> nat option \<times> nat option" where
  "find_owners current parent os 0 ic ip = (ic, ip)"
| "find_owners current parent os (Suc i) ic ip =
     (if fst (os ! i) = current then find_owners current parent os i (Some i) ip
      else if fst (os ! i) = parent then find_owners current parent os i ic (Some i)
      else find_owners current parent os i ic ip)"

definition LockReassignOwner :: "LOCALLOCKTAG \<Rightarrow> nat option \<Rightarrow> LockLocal \<Rightarrow> LockLocal" where
  "LockReassignOwner k parent b =
     (let ll = locallock_at b k; os = lockOwners ll in
      case find_owners (CurrentResourceOwner b) parent os (length os) None None of
        (None, _) \<Rightarrow> b
      | (Some ic, None) \<Rightarrow> set_locallock k (ll\<lparr>lockOwners := os[ic := (parent, snd (os ! ic))]\<rparr>) b
      | (Some ic, Some ip) \<Rightarrow>
          let os1 = os[ip := (fst (os ! ip), snd (os ! ip) + snd (os ! ic))] in
          set_locallock k (ll\<lparr>lockOwners := swap_remove os1 ic\<rparr>) b)"

definition LockReassignCurrentOwner :: "LOCALLOCKTAG list \<Rightarrow> nat option \<Rightarrow> LockLocal \<Rightarrow> LockLocal" where
  "LockReassignCurrentOwner keys parent b = fold (\<lambda>k. LockReassignOwner k parent) keys b"

definition LockSetHoldTillEndXact :: "LockEnv \<Rightarrow> LOCKTAG \<Rightarrow> LockState \<Rightarrow> LockError + LockState" where
  "LockSetHoldTillEndXact env t bs =
     (let (found, b, s) = setFPHoldTillEndXact (locktag_field2 t) bs in
      if found then Inr (b, s)
      else if \<not> (0 < locktag_lockmethodid t \<and> locktag_lockmethodid t < length LockMethods)
      then Inl Unrecognized_lock_method
      else Inr (b, fold (\<lambda>lm s.
        case LockMethodLocalHash b (t, lm) of
          None \<Rightarrow> s
        | Some ll \<Rightarrow> if nLocks ll \<le> 0 then s
            else (case ll_lock ll of
                    None \<Rightarrow> s
                  | Some u \<Rightarrow> set_lock u ((lock_at s u)\<lparr>holdTillEndXact := True\<rparr>) s))
        [1..<Suc (numLockModes (GetLocksMethodTable t))] s))"

end
