(* ===== verification/LockSteps.thy ===== *)
theory LockSteps
  imports LockInv LockAcquire
begin

unbundle bit_operations_syntax

text \<open>
  The remaining operations on one lock of the table, a request entered, queued or dropped and a
  \<open>PROCLOCK\<close> added or removed, keep the counts and masks of the lock; those that take no lock away
  leave every waiter blocked.
\<close>

section \<open>Entering a request\<close>

lemma lock_ok_cong:
  assumes "lock_at s' t = lock_at s t"
    "\<And>p. LockMethodProcLockHash s' (t, p) = None \<longleftrightarrow> LockMethodProcLockHash s (t, p) = None"
    "\<And>p. hold s' t p = hold s t p"
    "\<And>p. p \<in> set (waitProcs (lock_at s t)) \<Longrightarrow> waitLockMode (allProcs s' p) = waitLockMode (allProcs s p)"
  shows "lock_ok x s' t \<longleftrightarrow> lock_ok x s t"
proof -
  have h: "hold s' t = hold s t" using assms(3) by (simp add: fun_eq_iff)
  have H: "holders s' t = holders s t" using assms(1) h by (simp add: holders_def fun_eq_iff)
  have W: "waiting s' t = waiting s t" using assms(1,4) by (auto simp: waiting_def fun_eq_iff)
  have c: "lock_counts x s' t \<longleftrightarrow> lock_counts x s t"
    by (simp only: lock_counts_def assms(1) H W)
  have "lock_shape s' t \<longleftrightarrow> lock_shape s t"
    using assms(4) by (auto simp: lock_shape_def assms(1,2) h)
  then show ?thesis using c by (simp add: lock_ok_def)
qed

lemma lock_ok_new:
  assumes "\<And>p. LockMethodProcLockHash s (t, p) = None"
  shows "lock_ok None (set_lock t (new_lock junk) s) t"
  using assms
  by (simp add: lock_ok_def lock_shape_def lock_counts_def holders_def waiting_def new_lock_def pending_def)

lemma add_proclock_simps [simp]:
  "LockMethodLockHash (add_proclock h t p s) = (LockMethodLockHash s)
     (t \<mapsto> (lock_at s t)\<lparr>procLocks := procLocks (lock_at s t) @ [p]\<rparr>)"
  "lock_at (add_proclock h t p s) u =
     (if u = t then (lock_at s t)\<lparr>procLocks := procLocks (lock_at s t) @ [p]\<rparr> else lock_at s u)"
  "LockMethodProcLockHash (add_proclock h t p s) = (LockMethodProcLockHash s)
     ((t, p) \<mapsto> \<lparr>holdMask = 0, releaseMask = 0\<rparr>)"
  "proclock_at (add_proclock h t p s) k =
     (if k = (t, p) then \<lparr>holdMask = 0, releaseMask = 0\<rparr> else proclock_at s k)"
  "strong_count (add_proclock h t p s) = strong_count s"
  "allProcs (add_proclock h t p s) = (allProcs s)(p := (allProcs s p)\<lparr>myProcLocks :=
     (myProcLocks (allProcs s p))(unat h mod NUM_LOCK_PARTITIONS :=
        myProcLocks (allProcs s p) (unat h mod NUM_LOCK_PARTITIONS) @ [t])\<rparr>)"
  by (simp_all add: add_proclock_def Let_def)

lemma lock_ok_add_proclock:
  assumes ok: "lock_ok x s t" and new: "LockMethodProcLockHash s (t, p) = None"
  shows "lock_ok x (add_proclock h t p s) t"
proof -
  let ?s = "add_proclock h t p s"
  have np: "p \<notin> set (procLocks (lock_at s t))" "p \<notin> set (waitProcs (lock_at s t))"
    using ok new by (auto simp: lock_ok_def lock_shape_def)
  have hold: "hold ?s t q = (if q = p then 0 else hold s t q)" for q by (simp add: hold_def)
  have "holders ?s t m = holders s t m" for m using np(1) by (auto simp: holders_def hold)
  moreover have "waiting ?s t m = waiting s t m" for m by (auto simp: waiting_def)
  ultimately have "lock_counts x ?s t" using ok by (simp add: lock_ok_def lock_counts_def)
  moreover have "lock_shape ?s t"
    using ok np unfolding lock_ok_def lock_shape_def by (auto simp: hold)
  ultimately show ?thesis by (simp add: lock_ok_def)
qed

lemma lock_ok_request:
  assumes ok: "lock_ok None s t" and m: "valid_mode m"
  shows "lock_ok (Some m) (set_lock t (request_in_lock m (lock_at s t)) s) t"
proof -
  let ?s = "set_lock t (request_in_lock m (lock_at s t)) s"
  have c: "lock_counts None s t" using ok by (simp add: lock_ok_def)
  have H: "holders ?s t k = (if k = m then holders s t m else holders s t k)" for k
    by (simp add: holders_def hold_def request_in_lock_def)
  have W: "waiting ?s t k = (if k = m then waiting s t m else waiting s t k)" for k
    by (simp add: waiting_def request_in_lock_def)
  have "lock_counts (Some m) ?s t"
    using lock_counts_masks(1,2) [OF c]
    by (intro lock_counts_change [OF c m, where a = 0 and b = 1 and H = "holders s t m" and W = "waiting s t m"] H W)
      (auto simp: pending_def request_in_lock_def)
  moreover have "lock_shape ?s t"
    using ok unfolding lock_ok_def lock_shape_def by (simp add: hold_def request_in_lock_def)
  ultimately show ?thesis by (simp add: lock_ok_def)
qed

lemma lock_ok_drop_request:
  assumes ok: "lock_ok (Some m) s t" and m: "valid_mode m"
  shows "lock_ok None (set_lock t (drop_request m (lock_at s t)) s) t"
proof -
  let ?s = "set_lock t (drop_request m (lock_at s t)) s"
  have c: "lock_counts (Some m) s t" using ok by (simp add: lock_ok_def)
  have H: "holders ?s t k = (if k = m then holders s t m else holders s t k)" for k
    by (simp add: holders_def hold_def drop_request_def)
  have W: "waiting ?s t k = (if k = m then waiting s t m else waiting s t k)" for k
    by (simp add: waiting_def drop_request_def)
  have "lock_counts None ?s t"
    using lock_counts_masks(1,2) [OF c]
    by (intro lock_counts_change [OF c m, where a = 0 and b = "-1" and H = "holders s t m" and W = "waiting s t m"] H W)
      (auto simp: pending_def drop_request_def)
  moreover have "lock_shape ?s t"
    using ok unfolding lock_ok_def lock_shape_def by (simp add: hold_def drop_request_def)
  ultimately show ?thesis by (simp add: lock_ok_def)
qed

section \<open>Queueing a request\<close>

lemma enqueue_simps [simp]:
  "LockMethodLockHash (enqueue t p m i s) = (LockMethodLockHash s)(t \<mapsto> (lock_at s t)
     \<lparr>waitProcs := take i (waitProcs (lock_at s t)) @ p # drop i (waitProcs (lock_at s t)),
      waitMask := waitMask (lock_at s t) OR LOCKBIT_ON m\<rparr>)"
  "lock_at (enqueue t p m i s) u = (if u = t then (lock_at s t)
     \<lparr>waitProcs := take i (waitProcs (lock_at s t)) @ p # drop i (waitProcs (lock_at s t)),
      waitMask := waitMask (lock_at s t) OR LOCKBIT_ON m\<rparr> else lock_at s u)"
  "LockMethodProcLockHash (enqueue t p m i s) = LockMethodProcLockHash s"
  "proclock_at (enqueue t p m i s) k = proclock_at s k"
  "strong_count (enqueue t p m i s) = strong_count s"
  "allProcs (enqueue t p m i s) = (allProcs s)(p := (allProcs s p)\<lparr>linked := True, waitLock := Some t,
     waitProcLock := Some (t, p), waitLockMode := m, waitStatus := STATUS_WAITING\<rparr>)"
  by (simp_all add: enqueue_def Let_def)

lemma set_insert_at: "set (take i xs @ p # drop i xs) = insert p (set xs)"
  using set_append [of "take i xs" "drop i xs"] by (simp add: Un_assoc)

lemma lock_ok_enqueue:
  assumes ok: "lock_ok (Some m) s t" and p: "p \<in> set (procLocks (lock_at s t))" "p \<notin> set (waitProcs (lock_at s t))"
    and m: "valid_mode m" "\<not> bit (hold s t p) m"
  shows "lock_ok None (enqueue t p m i s) t"
proof -
  let ?s = "enqueue t p m i s"
  have c: "lock_counts (Some m) s t" using ok by (simp add: lock_ok_def)
  have q: "set (waitProcs (lock_at ?s t)) = insert p (set (waitProcs (lock_at s t)))"
    using set_insert_at by simp
  have hold: "hold ?s t = hold s t" by (simp add: hold_def fun_eq_iff)
  have H: "holders ?s t k = (if k = m then holders s t m else holders s t k)" for k
    by (simp add: holders_def hold)
  have W: "waiting ?s t k = (if k = m then insert p (waiting s t m) else waiting s t k)" for k
    unfolding waiting_def q using p(2) by auto
  have new: "p \<notin> waiting s t m" using p(2) by (simp add: waiting_def)
  have "lock_counts None ?s t"
    using lock_counts_masks(1,2) [OF c] new valid_mode_less [OF m(1)]
    by (intro lock_counts_change [OF c m(1), where a = 0 and b = 0 and H = "holders s t m" and W = "insert p (waiting s t m)"] H W)
      (auto simp: pending_def bit_or_iff fun_eq_iff)
  moreover have "lock_shape ?s t"
    using ok p m unfolding lock_ok_def lock_shape_def q hold by auto
  ultimately show ?thesis by (simp add: lock_ok_def)
qed

section \<open>Removing a \<open>PROCLOCK\<close>\<close>

lemma remove_proclock_simps [simp]:
  "LockMethodLockHash (remove_proclock (t, p) s) = (LockMethodLockHash s)
     (t \<mapsto> (lock_at s t)\<lparr>procLocks := remove1 p (procLocks (lock_at s t))\<rparr>)"
  "lock_at (remove_proclock (t, p) s) u =
     (if u = t then (lock_at s t)\<lparr>procLocks := remove1 p (procLocks (lock_at s t))\<rparr> else lock_at s u)"
  "LockMethodProcLockHash (remove_proclock (t, p) s) = (LockMethodProcLockHash s)((t, p) := None)"
  "k \<noteq> (t, p) \<Longrightarrow> proclock_at (remove_proclock (t, p) s) k = proclock_at s k"
  "strong_count (remove_proclock (t, p) s) = strong_count s"
  "allProcs (remove_proclock (t, p) s) = (allProcs s)(p := (allProcs s p)
     \<lparr>myProcLocks := \<lambda>i. remove1 t (myProcLocks (allProcs s p) i)\<rparr>)"
  by (simp_all add: remove_proclock_def Let_def lock_at_def proclock_at_def)

lemma lock_ok_remove_proclock:
  assumes ok: "lock_ok x s t" and p: "p \<notin> set (waitProcs (lock_at s t))" "hold s t p = 0"
  shows "lock_ok x (remove_proclock (t, p) s) t"
proof -
  let ?s = "remove_proclock (t, p) s"
  have d: "distinct (procLocks (lock_at s t))" using ok by (simp add: lock_ok_def lock_shape_def)
  have hold: "hold ?s t q = hold s t q" if "q \<noteq> p" for q using that by (simp add: hold_def)
  have none: "bit (hold s t q) m \<Longrightarrow> q \<noteq> p" for q m using p(2) by auto
  have "holders ?s t m = holders s t m" for m
    using d hold none by (auto simp: holders_def)
  moreover have "waiting ?s t m = waiting s t m" for m by (auto simp: waiting_def)
  ultimately have "lock_counts x ?s t" using ok by (simp add: lock_ok_def lock_counts_def)
  moreover have "lock_shape ?s t"
    unfolding lock_shape_def
  proof (intro conjI allI impI)
    have sh: "lock_shape s t" using ok by (simp add: lock_ok_def)
    show "distinct (procLocks (lock_at ?s t))" using d by simp
    show "set (waitProcs (lock_at ?s t)) \<subseteq> set (procLocks (lock_at ?s t))"
      using sh p(1) d by (auto simp: lock_shape_def)
    fix q
    show "q \<in> set (procLocks (lock_at ?s t)) \<longleftrightarrow> LockMethodProcLockHash ?s (t, q) \<noteq> None"
      using sh d by (simp add: lock_shape_def)
    { fix m assume "q \<in> set (procLocks (lock_at ?s t))" "bit (hold ?s t q) m"
      then show "valid_mode m" using sh d hold [of q] unfolding lock_shape_def by auto }
    { assume "q \<in> set (waitProcs (lock_at ?s t))"
      then show "valid_mode (waitLockMode (allProcs ?s q))" "\<not> bit (hold ?s t q) (waitLockMode (allProcs ?s q))"
        using sh p(1) hold [of q] unfolding lock_shape_def by auto }
  qed
  ultimately show ?thesis by (simp add: lock_ok_def)
qed

section \<open>Waiters stay blocked\<close>

definition all_blocked :: "LockMem \<Rightarrow> LOCKTAG \<Rightarrow> bool" where
  "all_blocked s t \<longleftrightarrow> (\<forall>p. p \<in> set (waitProcs (lock_at s t)) \<longrightarrow> blocked s t p)"

text \<open>
  \<open>s'\<close> has all the holders that block a waiter of \<open>s\<close>, and its queue keeps the order.
\<close>

definition no_weaker :: "LockMem \<Rightarrow> LockMem \<Rightarrow> LOCKTAG \<Rightarrow> bool" where
  "no_weaker s s' t \<longleftrightarrow>
     (\<forall>p. mppSessionId (allProcs s' p) = mppSessionId (allProcs s p)) \<and>
     (\<forall>q k. q \<in> set (procLocks (lock_at s t)) \<longrightarrow> bit (hold s t q) k \<longrightarrow>
        q \<in> set (procLocks (lock_at s' t)) \<and> bit (hold s' t q) k) \<and>
     (\<forall>p q. before_in (waitProcs (lock_at s t)) p q \<longrightarrow> before_in (waitProcs (lock_at s' t)) p q) \<and>
     (\<forall>p. p \<in> set (waitProcs (lock_at s t)) \<longrightarrow> waitLockMode (allProcs s' p) = waitLockMode (allProcs s p))"

lemma same_session_cong:
  "(\<And>p. mppSessionId (allProcs s' p) = mppSessionId (allProcs s p)) \<Longrightarrow> same_session s' p q \<longleftrightarrow> same_session s p q"
  by (simp add: same_session_def)

lemma no_weaker_blocked:
  assumes w: "no_weaker s s' t" and p: "p \<in> set (waitProcs (lock_at s t))" and b: "blocked s t p"
  shows "blocked s' t p"
proof -
  have m: "waitLockMode (allProcs s' q) = waitLockMode (allProcs s q)" if "q \<in> set (waitProcs (lock_at s t))" for q
    using w that by (simp add: no_weaker_def)
  have "same_session s' p q \<longleftrightarrow> same_session s p q" for q
    by (rule same_session_cong) (use w in \<open>simp add: no_weaker_def\<close>)
  then have "held_against s' t p k q" if "held_against s t p k q" for k q
    using that w unfolding held_against_def no_weaker_def by metis
  moreover have "before_in (waitProcs (lock_at s' t)) q p \<and> waitLockMode (allProcs s' q) = waitLockMode (allProcs s q)"
    if "before_in (waitProcs (lock_at s t)) q p" for q
    using that w m before_in_set by (fastforce simp: no_weaker_def)
  ultimately show ?thesis using b m [OF p] unfolding blocked_def by metis
qed

lemma no_weaker_all_blocked:
  assumes "no_weaker s s' t" "all_blocked s t" "set (waitProcs (lock_at s' t)) \<subseteq> set (waitProcs (lock_at s t))"
  shows "all_blocked s' t"
  using assms no_weaker_blocked unfolding all_blocked_def by blast

lemma no_weaker_refl: "no_weaker s s t" by (simp add: no_weaker_def)

lemma no_weaker_GrantLock: "no_weaker s (GrantLock t (t, p) m s) t"
  by (simp add: no_weaker_def hold_GrantLock bit_or_iff)

lemma no_weaker_remove_proclock:
  assumes "hold s t p = 0" "distinct (procLocks (lock_at s t))"
  shows "no_weaker s (remove_proclock (t, p) s) t"
proof -
  have "hold (remove_proclock (t, p) s) t q = hold s t q \<and> q \<noteq> p" if "bit (hold s t q) k" for q k
    using that assms(1) by (cases "q = p") (simp_all add: hold_def)
  then show ?thesis using assms(2) by (auto simp: no_weaker_def)
qed

lemma before_in_insert_at:
  assumes "before_in xs a b" "p \<notin> set xs"
  shows "before_in (take i xs @ p # drop i xs) a b"
  using assms
proof (induction xs arbitrary: i)
  case (Cons x xs)
  have "set (take j xs @ p # drop j xs) = insert p (set xs)" for j by (rule set_insert_at)
  then show ?case using Cons by (cases i) (auto simp: before_in_Cons simp del: set_append dest: before_in_set)
qed simp

lemma no_weaker_enqueue:
  assumes "p \<notin> set (waitProcs (lock_at s t))"
  shows "no_weaker s (enqueue t p m i s) t"
  using assms by (auto simp: no_weaker_def hold_def before_in_insert_at)

section \<open>Waking up leaves nobody asleep without need\<close>

lemma before_in_append:
  "b \<in> set xs \<Longrightarrow> before_in (xs @ ys) a b \<longleftrightarrow> before_in xs a b"
  by (auto simp: before_in_def)

lemma before_in_middle:
  "b \<notin> set xs \<Longrightarrow> before_in (xs @ b # ys) a b \<longleftrightarrow> a \<in> set xs"
  by (induction xs) (auto simp: before_in_Cons)

lemma lock_ok_waiter:
  assumes "lock_ok x s t" "p \<in> set (waitProcs (lock_at s t))"
  shows "p \<in> set (procLocks (lock_at s t))" "valid_mode (waitLockMode (allProcs s p))"
    "\<not> bit (hold s t p) (waitLockMode (allProcs s p))"
  using assms unfolding lock_ok_def lock_shape_def by auto

lemma blocked_wake1:
  assumes p: "waits_on s p t" and q: "waitProcs (lock_at s t) = kept @ p # ps" "distinct (kept @ p # ps)"
    and k: "q \<in> set kept" "blocked s t q"
  shows "blocked (wake1 t p s) t q"
proof -
  let ?s = "wake1 t p s"
  have queue: "waitProcs (lock_at ?s t) = kept @ ps"
    using q by (simp add: wake1_simps [OF p] remove1_append)
  have pr: "waitLockMode (allProcs ?s r) = waitLockMode (allProcs s r)"
      "mppSessionId (allProcs ?s r) = mppSessionId (allProcs s r)" for r
    by (simp_all add: wake1_simps [OF p] woken_proc_def)
  have "held_against s t q m r \<Longrightarrow> held_against ?s t q m r" for m r
    using same_session_cong [OF pr(2)]
    by (auto simp: held_against_def wake1_simps(3) [OF p] hold_wake1 [OF p] bit_or_iff)
  moreover have "before_in (waitProcs (lock_at s t)) r q \<Longrightarrow> before_in (waitProcs (lock_at ?s t)) r q" for r
    using k(1) by (simp add: q(1) queue before_in_append)
  ultimately show ?thesis using k(2) unfolding blocked_def pr by blast
qed

lemma wakeup_scan_blocked:
  assumes "queues_ok s" "lock_ok None s t" "LockMethodLockHash s t \<noteq> None"
    "waitProcs (lock_at s t) = kept @ ps"
    "\<And>k. bit ahead k \<longleftrightarrow> (\<exists>q\<in>set kept. waitLockMode (allProcs s q) = k)"
    "\<And>q. q \<in> set kept \<Longrightarrow> blocked s t q"
  shows "all_blocked (wakeup_scan (GetLocksMethodTable t) t ahead ps s) t"
  using assms
proof (induction ps arbitrary: s kept ahead)
  case Nil
  then show ?case by (simp add: all_blocked_def)
next
  case (Cons p ps)
  let ?m = "waitLockMode (allProcs s p)" and ?tab = "GetLocksMethodTable t"
  have d: "distinct (kept @ p # ps)" using queues_okD(5) [OF Cons.prems(1,3)] Cons.prems(4) by simp
  have pq: "p \<in> set (waitProcs (lock_at s t))" using Cons.prems(4) by simp
  have p: "waits_on s p t" using queues_okD(4) [OF Cons.prems(1,3) pq] .
  note w = lock_ok_waiter [OF Cons.prems(2) pq]
  have chk: "LockCheckConflicts ?tab ?m t (t, p) s = STATUS_OK \<longleftrightarrow> (\<nexists>q. held_against s t p ?m q)"
    by (rule LockCheckConflicts_iff [OF Cons.prems(2) w(1,2)])
  have ahead: "LockConflicts ! ?m AND ahead \<noteq> 0 \<longleftrightarrow>
      (\<exists>q\<in>set kept. conflicts ?m (waitLockMode (allProcs s q)))"
    using conflict_mask [of "LockConflicts ! ?m" ahead] Cons.prems(5) by (auto simp: conflicts_def)
  show ?case
  proof (cases "LockConflicts ! ?m AND ahead = 0 \<and> LockCheckConflicts ?tab ?m t (t, p) s = STATUS_OK")
    case True
    let ?s = "wake1 t p s"
    have "all_blocked (wakeup_scan ?tab t ahead ps ?s) t"
    proof (rule Cons.IH)
      show "queues_ok ?s" "lock_ok None ?s t"
        using queues_ok_wake1 [OF Cons.prems(1) p] lock_ok_wake1 [OF Cons.prems(1) p Cons.prems(2)] by blast+
      show "LockMethodLockHash ?s t \<noteq> None" by (simp add: wake1_simps [OF p])
      show "waitProcs (lock_at ?s t) = kept @ ps"
        using d Cons.prems(4) by (simp add: wake1_simps [OF p] remove1_append)
      have "waitLockMode (allProcs ?s q) = waitLockMode (allProcs s q)" for q
        by (simp add: wake1_simps [OF p] woken_proc_def)
      then show "bit ahead k \<longleftrightarrow> (\<exists>q\<in>set kept. waitLockMode (allProcs ?s q) = k)" for k
        using Cons.prems(5) by simp
      show "blocked ?s t q" if "q \<in> set kept" for q
        by (rule blocked_wake1 [OF p Cons.prems(4) d that Cons.prems(6) [OF that]])
    qed
    then show ?thesis using True unfolding wakeup_scan_Cons [OF Cons.prems(1) p] by simp
  next
    case False
    have "blocked s t p"
    proof (cases "LockConflicts ! ?m AND ahead = 0")
      case True
      then show ?thesis using False chk by (auto simp: blocked_def)
    next
      case c: False
      then show ?thesis using ahead d by (auto simp: blocked_def Cons.prems(4) before_in_middle)
    qed
    then have "all_blocked (wakeup_scan ?tab t (ahead OR LOCKBIT_ON ?m) ps s) t"
      using Cons.prems valid_mode_less [OF w(2)]
      by (intro Cons.IH [where kept = "kept @ [p]"]) (auto simp: bit_or_iff)
    then show ?thesis using False unfolding wakeup_scan_Cons [OF Cons.prems(1) p] by (simp only: GetLocksMethodTable_simps if_False)
  qed
qed

lemma ProcLockWakeup_blocked:
  assumes "queues_ok s" "lock_ok None s t" "LockMethodLockHash s t \<noteq> None"
  shows "all_blocked (ProcLockWakeup (GetLocksMethodTable t) t s) t"
  unfolding ProcLockWakeup_def by (rule wakeup_scan_blocked [OF assms, where kept = "[]"]) simp_all

lemma wakes_lock_ok: "wakes t s s' \<Longrightarrow> queues_ok s \<Longrightarrow> lock_ok None s t \<Longrightarrow> lock_ok None s' t"
  by (induction rule: wakes.induct) (auto intro: lock_ok_wake1 wakes_queues_ok)

section \<open>Mutual exclusion\<close>

definition exclusive :: "LockMem \<Rightarrow> LOCKTAG \<Rightarrow> bool" where
  "exclusive s t \<longleftrightarrow> (\<forall>p q k l. p \<in> holders s t k \<longrightarrow> q \<in> holders s t l \<longrightarrow> conflicts k l \<longrightarrow> same_session s p q)"

lemma exclusive_less:
  assumes "exclusive s t" "\<And>p. mppSessionId (allProcs s' p) = mppSessionId (allProcs s p)"
    "\<And>k. holders s' t k \<subseteq> holders s t k"
  shows "exclusive s' t"
  using assms(1,3) same_session_cong [OF assms(2)] unfolding exclusive_def by blast

lemma exclusive_grant:
  assumes ex: "exclusive s t" and sid: "\<And>q. mppSessionId (allProcs s' q) = mppSessionId (allProcs s q)"
    and H: "\<And>k. holders s' t k = (if k = m then insert p (holders s t m) else holders s t k)"
    and free: "\<nexists>q. held_against s t p m q" and m: "valid_mode m"
    and valid: "\<And>q k. q \<in> holders s t k \<Longrightarrow> valid_mode k"
  shows "exclusive s' t"
proof -
  have new: "same_session s p q" if "q \<in> holders s t k" "conflicts m k" for q k
    using free that by (auto simp: held_against_def holders_def)
  have self: "same_session s p p" by (simp add: same_session_def)
  have "same_session s q r" if qr: "q \<in> holders s' t k" "r \<in> holders s' t l" "conflicts k l" for q r k l
  proof -
    have sym: "valid_mode l \<Longrightarrow> valid_mode k \<Longrightarrow> conflicts l k" using conflicts_sym qr(3) by blast
    consider "q = p" "k = m" "r = p" | "q = p" "k = m" "r \<in> holders s t l" | "q \<in> holders s t k" "r = p" "l = m"
      | "q \<in> holders s t k" "r \<in> holders s t l"
      using qr(1,2) unfolding H by (auto split: if_splits)
    then show ?thesis
      using new self sym m valid qr(3) ex same_session_sym unfolding exclusive_def by cases metis+
  qed
  then show ?thesis unfolding exclusive_def same_session_cong [OF sid] by blast
qed

lemma lock_ok_holders_valid: "lock_ok x s t \<Longrightarrow> q \<in> holders s t k \<Longrightarrow> valid_mode k"
  by (auto simp: lock_ok_def lock_shape_def holders_def)

lemma wakeup_scan_exclusive:
  assumes "queues_ok s" "lock_ok None s t" "distinct ps" "\<forall>p\<in>set ps. waits_on s p t" "exclusive s t"
  shows "exclusive (wakeup_scan (GetLocksMethodTable t) t ahead ps s) t"
  using assms
proof (induction ps arbitrary: s ahead)
  case (Cons p ps)
  let ?m = "waitLockMode (allProcs s p)" and ?tab = "GetLocksMethodTable t" and ?s = "wake1 t p s"
  have p: "waits_on s p t" using Cons.prems by simp
  then have pq: "p \<in> set (waitProcs (lock_at s t))" using queues_okD(1) [OF Cons.prems(1)] by blast
  note w = lock_ok_waiter [OF Cons.prems(2) pq]
  have "exclusive (wakeup_scan ?tab t ahead ps ?s) t"
    if "LockCheckConflicts ?tab ?m t (t, p) s = STATUS_OK"
  proof (rule Cons.IH)
    show "queues_ok ?s" "lock_ok None ?s t"
      using queues_ok_wake1 [OF Cons.prems(1) p] lock_ok_wake1 [OF Cons.prems(1) p Cons.prems(2)] by blast+
    show "distinct ps" "\<forall>q\<in>set ps. waits_on ?s q t" using Cons.prems wake1_waits [OF p] by auto
    have H: "holders ?s t k = (if k = ?m then insert p (holders s t ?m) else holders s t k)" for k
      using w by (auto simp: holders_def hold_wake1 [OF p] wake1_simps(3) [OF p] bit_or_iff valid_mode_less)
    show "exclusive ?s t"
      using that LockCheckConflicts_iff [OF Cons.prems(2) w(1,2)] Cons.prems(5) w(2) lock_ok_holders_valid [OF Cons.prems(2)]
      by (intro exclusive_grant [OF _ _ H]) (simp_all add: wake1_simps [OF p] woken_proc_def)
  qed
  moreover have "exclusive (wakeup_scan ?tab t a ps s) t" for a using Cons by simp
  ultimately show ?case unfolding wakeup_scan_Cons [OF Cons.prems(1) p] by simp
qed simp

lemma ProcLockWakeup_exclusive:
  assumes "queues_ok s" "lock_ok None s t" "LockMethodLockHash s t \<noteq> None" "exclusive s t"
  shows "exclusive (ProcLockWakeup (GetLocksMethodTable t) t s) t"
  unfolding ProcLockWakeup_def
  by (rule wakeup_scan_exclusive [OF assms(1,2) _ _ assms(4)])
    (use queues_okD(4,5) [OF assms(1,3)] in auto)

end
