(* ===== verification/LockTableOk.thy ===== *)
theory LockTableOk
  imports LockSteps
begin

unbundle bit_operations_syntax

text \<open>
  The invariant of the whole shared lock table, and the operations that keep it: each of them works
  on one lock and leaves the others as they are.
\<close>

section \<open>The invariant\<close>

definition valid_method :: "LOCKTAG \<Rightarrow> bool" where
  "valid_method t \<longleftrightarrow> 0 < locktag_lockmethodid t \<and> locktag_lockmethodid t < length LockMethods"

text \<open>Every \<open>PROCLOCK\<close> but those of the processes in \<open>A\<close> stands for a lock held or awaited.\<close>

definition tidy :: "LockMem \<Rightarrow> LOCKTAG \<Rightarrow> nat set \<Rightarrow> bool" where
  "tidy s t A \<longleftrightarrow> (\<forall>p. p \<in> set (procLocks (lock_at s t)) \<longrightarrow>
     p \<in> A \<or> hold s t p \<noteq> 0 \<or> p \<in> set (waitProcs (lock_at s t)))"

text \<open>
  Resource queues have a scheduler of their own, which decides whom to wake.
\<close>

definition waiters_blocked :: "LockMem \<Rightarrow> LOCKTAG \<Rightarrow> bool" where
  "waiters_blocked s t \<longleftrightarrow> (locktag_type t \<noteq> LOCKTAG_RESOURCE_QUEUE \<longrightarrow> all_blocked s t)"

definition lock_good :: "LockMem \<Rightarrow> LOCKTAG \<Rightarrow> bool" where
  "lock_good s t \<longleftrightarrow> lock_ok None s t \<and> tidy s t {} \<and> waiters_blocked s t \<and> exclusive s t \<and>
     0 < nRequested (lock_at s t) \<and> valid_method t"

text \<open>The table apart from lock \<open>t\<close>, and the whole.\<close>

definition table_but :: "LOCKTAG \<Rightarrow> LockMem \<Rightarrow> bool" where
  "table_but t s \<longleftrightarrow> queues_ok s \<and>
     (\<forall>u p. LockMethodProcLockHash s (u, p) \<noteq> None \<longrightarrow> LockMethodLockHash s u \<noteq> None) \<and>
     (\<forall>u. u \<noteq> t \<longrightarrow> LockMethodLockHash s u \<noteq> None \<longrightarrow> lock_good s u)"

definition table_ok :: "LockMem \<Rightarrow> bool" where
  "table_ok s \<longleftrightarrow> queues_ok s \<and>
     (\<forall>u p. LockMethodProcLockHash s (u, p) \<noteq> None \<longrightarrow> LockMethodLockHash s u \<noteq> None) \<and>
     (\<forall>u. LockMethodLockHash s u \<noteq> None \<longrightarrow> lock_good s u)"

lemma table_ok_iff: "table_ok s \<longleftrightarrow> table_but t s \<and> (LockMethodLockHash s t \<noteq> None \<longrightarrow> lock_good s t)"
  unfolding table_ok_def table_but_def by metis

lemma table_okD:
  assumes "table_ok s"
  shows "queues_ok s" "LockMethodProcLockHash s (u, p) \<noteq> None \<Longrightarrow> LockMethodLockHash s u \<noteq> None"
    "LockMethodLockHash s u \<noteq> None \<Longrightarrow> lock_good s u" "table_but t s"
  using assms unfolding table_ok_def table_but_def by blast+

lemma lock_goodD:
  assumes "lock_good s t"
  shows "lock_ok None s t" "tidy s t A" "waiters_blocked s t" "exclusive s t" "0 < nRequested (lock_at s t)"
    "valid_method t"
  using assms by (auto simp: lock_good_def tidy_def)

section \<open>Operations on one lock\<close>

definition only_at :: "LOCKTAG \<Rightarrow> LockMem \<Rightarrow> LockMem \<Rightarrow> bool" where
  "only_at t s s' \<longleftrightarrow>
     (\<forall>u. u \<noteq> t \<longrightarrow> LockMethodLockHash s' u = LockMethodLockHash s u) \<and>
     (\<forall>u p. u \<noteq> t \<longrightarrow> LockMethodProcLockHash s' (u, p) = LockMethodProcLockHash s (u, p)) \<and>
     (\<forall>p. mppSessionId (allProcs s' p) = mppSessionId (allProcs s p)) \<and>
     (\<forall>p u. u \<noteq> t \<longrightarrow> waits_on s p u \<longrightarrow> waitLockMode (allProcs s' p) = waitLockMode (allProcs s p)) \<and>
     (\<forall>p u. u \<noteq> t \<longrightarrow> (waits_on s' p u \<longleftrightarrow> waits_on s p u))"

lemma only_at_refl: "only_at t s s" by (simp add: only_at_def)

lemma only_at_trans: "only_at t s s1 \<Longrightarrow> only_at t s1 s2 \<Longrightarrow> only_at t s s2"
  unfolding only_at_def by simp

lemma no_weaker_same:
  assumes "lock_at s' u = lock_at s u" "\<And>p. hold s' u p = hold s u p"
    "\<And>p. mppSessionId (allProcs s' p) = mppSessionId (allProcs s p)"
    "\<And>p. p \<in> set (waitProcs (lock_at s u)) \<Longrightarrow> waitLockMode (allProcs s' p) = waitLockMode (allProcs s p)"
  shows "no_weaker s s' u"
  using assms by (simp add: no_weaker_def)

lemma lock_good_same:
  assumes "lock_at s' u = lock_at s u" "\<And>p. hold s' u p = hold s u p"
    "\<And>p. LockMethodProcLockHash s' (u, p) = None \<longleftrightarrow> LockMethodProcLockHash s (u, p) = None"
    "\<And>p. mppSessionId (allProcs s' p) = mppSessionId (allProcs s p)"
    "\<And>p. p \<in> set (waitProcs (lock_at s u)) \<Longrightarrow> waitLockMode (allProcs s' p) = waitLockMode (allProcs s p)"
    and good: "lock_good s u"
  shows "lock_good s' u"
proof -
  have "lock_ok None s' u" using lock_goodD(1) [OF good] lock_ok_cong [OF assms(1,3,2,5)] by blast
  moreover have "waiters_blocked s' u"
    using lock_goodD(3) [OF good] no_weaker_all_blocked [OF no_weaker_same [OF assms(1,2,4,5)]] assms(1)
    by (simp add: waiters_blocked_def)
  moreover have "exclusive s' u"
    by (rule exclusive_less [OF lock_goodD(4) [OF good] assms(4)]) (simp add: holders_def assms(1,2))
  ultimately show ?thesis using good by (simp add: lock_good_def tidy_def assms(1,2))
qed

lemma table_but_only:
  assumes t: "table_but t s" and o: "only_at t s s'" and q: "queues_ok s'"
    and k: "\<And>p. LockMethodProcLockHash s' (t, p) \<noteq> None \<Longrightarrow> LockMethodLockHash s' t \<noteq> None"
  shows "table_but t s'"
proof -
  have "lock_good s' u" if u: "u \<noteq> t" "LockMethodLockHash s' u \<noteq> None" for u
  proof (rule lock_good_same)
    have e: "LockMethodLockHash s' u = LockMethodLockHash s u" using o u(1) by (simp add: only_at_def)
    have P: "LockMethodProcLockHash s' (u, p) = LockMethodProcLockHash s (u, p)" for p
      using o u(1) by (simp add: only_at_def)
    show "lock_good s u" using t u e by (simp add: table_but_def)
    show "lock_at s' u = lock_at s u" by (simp add: lock_at_def e)
    show "hold s' u p = hold s u p" for p by (simp add: hold_def proclock_at_def P)
    show "LockMethodProcLockHash s' (u, p) = None \<longleftrightarrow> LockMethodProcLockHash s (u, p) = None" for p
      by (simp add: P)
    show "mppSessionId (allProcs s' p) = mppSessionId (allProcs s p)" for p using o by (simp add: only_at_def)
    show "waitLockMode (allProcs s' p) = waitLockMode (allProcs s p)" if "p \<in> set (waitProcs (lock_at s u))" for p
    proof -
      have "queues_ok s" using t by (simp add: table_but_def)
      then have "waits_on s p u" using queues_okD(4) that u(2) e by simp
      then show ?thesis using o u(1) by (simp add: only_at_def)
    qed
  qed
  moreover have "LockMethodLockHash s' u \<noteq> None" if "LockMethodProcLockHash s' (u, p) \<noteq> None" for u p
    using that k t o unfolding only_at_def table_but_def by metis
  ultimately show ?thesis using q unfolding table_but_def by blast
qed

text \<open>Operations that do not touch the queues.\<close>

lemma queues_ok_frame:
  assumes q: "queues_ok s"
    and p: "\<And>p. linked (allProcs s' p) = linked (allProcs s p)" "\<And>p. waitLock (allProcs s' p) = waitLock (allProcs s p)"
      "\<And>p. waitProcLock (allProcs s' p) = waitProcLock (allProcs s p)"
    and l: "\<And>u. LockMethodLockHash s u \<noteq> None \<Longrightarrow>
        LockMethodLockHash s' u \<noteq> None \<and> waitProcs (lock_at s' u) = waitProcs (lock_at s u) \<or>
        LockMethodLockHash s' u = None \<and> waitProcs (lock_at s u) = []"
      "\<And>u. LockMethodLockHash s u = None \<Longrightarrow> LockMethodLockHash s' u \<noteq> None \<Longrightarrow> waitProcs (lock_at s' u) = []"
  shows "queues_ok s'"
proof -
  have w: "waits_on s' p u \<longleftrightarrow> waits_on s p u" for p u by (simp add: waits_on_def p)
  have none: "\<not> waits_on s p u" if "LockMethodLockHash s u = None" for p u using q that queues_okD(6) by blast
  have "distinct (waitProcs (lock_at s' u)) \<and> (\<forall>p. p \<in> set (waitProcs (lock_at s' u)) \<longleftrightarrow> waits_on s p u)"
    if "LockMethodLockHash s' u \<noteq> None" for u
  proof (cases "LockMethodLockHash s u = None")
    case True
    then show ?thesis using l(2) that none by simp
  next
    case False
    then show ?thesis using l(1) that queues_okD(1,4,5) [OF q] by metis
  qed
  moreover have "LockMethodLockHash s' u \<noteq> None" if "waits_on s p u" for p u
    using l(1) [of u] queues_okD(1,6) [OF q that] by auto
  ultimately show ?thesis using queues_okD(3) [OF q] unfolding queues_ok_def w p(3) lock_at_def
    by (metis option.distinct(1) option.sel)
qed

lemma only_at_procs:
  assumes "\<And>u. u \<noteq> t \<Longrightarrow> LockMethodLockHash s' u = LockMethodLockHash s u"
    "\<And>u p. u \<noteq> t \<Longrightarrow> LockMethodProcLockHash s' (u, p) = LockMethodProcLockHash s (u, p)"
    "\<And>p. linked (allProcs s' p) = linked (allProcs s p)" "\<And>p. waitLock (allProcs s' p) = waitLock (allProcs s p)"
    "\<And>p. mppSessionId (allProcs s' p) = mppSessionId (allProcs s p)"
    "\<And>p. waitLockMode (allProcs s' p) = waitLockMode (allProcs s p)"
  shows "only_at t s s'"
  using assms by (simp add: only_at_def waits_on_def)

lemma only_at_wake1: "waits_on s p t \<Longrightarrow> only_at t s (wake1 t p s)"
  by (auto simp: only_at_def wake1_simps wake1_waits woken_proc_def waits_on_def)

lemma wakes_only_at: "wakes t s s' \<Longrightarrow> only_at t s s'"
  by (induction rule: wakes.induct) (auto intro: only_at_refl only_at_trans only_at_wake1)

lemma wakes_tidy:
  "wakes t s s' \<Longrightarrow> queues_ok s \<Longrightarrow> lock_ok None s t \<Longrightarrow> tidy s t A \<Longrightarrow>
     tidy s' t A \<and> nRequested (lock_at s' t) = nRequested (lock_at s t) \<and>
     (LockMethodLockHash s t \<noteq> None \<longrightarrow> LockMethodLockHash s' t \<noteq> None) \<and>
     procLocks (lock_at s' t) = procLocks (lock_at s t)"
proof (induction rule: wakes.induct)
  case (wakes_step s s1 p)
  have ok: "lock_ok None s1 t" "queues_ok s1"
    using wakes_lock_ok [OF wakes_step.hyps(1)] wakes_queues_ok [OF wakes_step.hyps(1)] wakes_step.prems by blast+
  note p = wakes_step.hyps(2)
  have "bit (hold (wake1 t p s1) t p) (waitLockMode (allProcs s1 p))"
    using lock_ok_waiter(2) [OF ok(1)] queues_okD(1) [OF ok(2) p]
    by (simp add: hold_wake1 [OF p] bit_or_iff valid_mode_less)
  then have "hold (wake1 t p s1) t p \<noteq> 0" by auto
  then have "q \<noteq> p \<and> hold s1 t q = 0" if "hold (wake1 t p s1) t q = 0" for q
    using that by (cases "q = p") (simp_all add: hold_wake1 [OF p])
  moreover have "tidy s1 t A" using wakes_step by blast
  ultimately have "tidy (wake1 t p s1) t A"
    using queues_okD(2) [OF ok(2) p] unfolding tidy_def by (auto simp: wake1_simps(3) [OF p])
  then show ?case using wakes_step by (simp add: wake1_simps [OF p])
qed simp

lemma table_wakeup:
  assumes t: "table_but t s" and l: "LockMethodLockHash s t \<noteq> None" and ok: "lock_ok None s t" "tidy s t {}"
    "exclusive s t" "0 < nRequested (lock_at s t)" "valid_method t"
  shows "table_ok (ProcLockWakeup (GetLocksMethodTable t) t s)"
proof -
  let ?s = "ProcLockWakeup (GetLocksMethodTable t) t s"
  have q: "queues_ok s" using t by (simp add: table_but_def)
  note w = ProcLockWakeup_wakes [OF q l, of "GetLocksMethodTable t"]
  note W = wakes_tidy [OF w q ok(1,2)]
  have "table_but t ?s"
    by (rule table_but_only [OF t wakes_only_at [OF w] wakes_queues_ok [OF w q]]) (use W l in blast)
  moreover have "lock_good ?s t"
    using wakes_lock_ok [OF w q ok(1)] W ok ProcLockWakeup_blocked [OF q ok(1) l] ProcLockWakeup_exclusive [OF q ok(1) l ok(3)]
    by (simp add: lock_good_def waiters_blocked_def)
  ultimately show ?thesis using table_ok_iff by blast
qed

text \<open>A lock nobody holds or waits for has no \<open>PROCLOCK\<close>s either.\<close>

lemma nRequested_0:
  assumes ok: "lock_ok None s t" and z: "nRequested (lock_at s t) = 0"
  shows "holders s t m = {}" "waitProcs (lock_at s t) = []" "tidy s t {} \<Longrightarrow> procLocks (lock_at s t) = []"
proof -
  have c: "lock_counts None s t" using ok by (simp add: lock_ok_def)
  have nn: "0 \<le> requested (lock_at s t) k" for k
    using lock_counts_masks(3,4) [OF c, of k] by (simp add: pending_def)
  have "(\<Sum>k\<in>{1..8}. requested (lock_at s t) k) = 0" using c z unfolding lock_counts_def by metis
  then have r: "requested (lock_at s t) k = 0" if "k \<in> {1..8}" for k
    using that nn by (simp add: sum_nonneg_eq_0_iff)
  have e: "holders s t k = {} \<and> waiting s t k = {}" if "valid_mode k" for k
  proof -
    have "int (card (holders s t k)) + int (card (waiting s t k)) = 0"
      using r [of k] that lock_counts_masks(3,4) [OF c, of k] by (simp add: pending_def valid_mode_def AccessExclusiveLock_def)
    then have "card (holders s t k) = 0" "card (waiting s t k) = 0" by linarith+
    then show ?thesis by simp
  qed
  show H: "holders s t m = {}" for m
    using e lock_ok_holders_valid [OF ok] by blast
  have W: "p \<notin> set (waitProcs (lock_at s t))" for p
  proof
    assume p: "p \<in> set (waitProcs (lock_at s t))"
    then have "p \<in> waiting s t (waitLockMode (allProcs s p))" by (simp add: waiting_def)
    then show False using e lock_ok_waiter(2) [OF ok p] by auto
  qed
  then show "waitProcs (lock_at s t) = []" by (metis list.set_intros(1) neq_Nil_conv)
  assume "tidy s t {}"
  then have "p \<notin> set (procLocks (lock_at s t))" for p
    using H W by (auto simp: tidy_def holders_def bit_eq_iff)
  then show "procLocks (lock_at s t) = []" by (metis list.set_intros(1) neq_Nil_conv)
qed

lemma nRequested_nonneg:
  assumes "lock_ok None s t"
  shows "0 \<le> nRequested (lock_at s t)"
proof -
  have c: "lock_counts None s t" using assms by (simp add: lock_ok_def)
  have "0 \<le> (\<Sum>k\<in>{1..8}. requested (lock_at s t) k)"
    using lock_counts_masks(3,4) [OF c] by (intro sum_nonneg) (simp add: pending_def)
  then show ?thesis using c unfolding lock_counts_def by metis
qed

section \<open>Giving up a lock or a place in the queue\<close>

lemma remove_proclock_step:
  assumes t: "table_but t s" and l: "LockMethodLockHash s t \<noteq> None" and ok: "lock_ok x s t" "tidy s t {p}" "exclusive s t"
    and p: "p \<notin> set (waitProcs (lock_at s t))" "hold s t p = 0"
  defines "s1 \<equiv> remove_proclock (t, p) s"
  shows "table_but t s1" "LockMethodLockHash s1 t \<noteq> None" "lock_ok x s1 t" "tidy s1 t {}" "exclusive s1 t"
    "waiters_blocked s t \<Longrightarrow> waiters_blocked s1 t" "p \<notin> set (procLocks (lock_at s1 t))"
proof -
  have q: "queues_ok s" using t by (simp add: table_but_def)
  have d: "distinct (procLocks (lock_at s t))" using ok by (simp add: lock_ok_def lock_shape_def)
  have hold: "hold s1 t r = hold s t r" if "r \<noteq> p" for r using that by (simp add: hold_def s1_def)
  show "LockMethodLockHash s1 t \<noteq> None" by (simp add: s1_def)
  have "queues_ok s1" by (rule queues_ok_frame [OF q]) (use l in \<open>auto simp: s1_def split: if_splits\<close>)
  moreover have "only_at t s s1" by (rule only_at_procs) (simp_all add: s1_def)
  ultimately show "table_but t s1" using table_but_only [OF t] by (simp add: s1_def)
  show "lock_ok x s1 t" unfolding s1_def by (rule lock_ok_remove_proclock [OF ok(1) p])
  show np: "p \<notin> set (procLocks (lock_at s1 t))" using d by (simp add: s1_def)
  have sub: "r \<in> set (procLocks (lock_at s1 t)) \<Longrightarrow> r \<in> set (procLocks (lock_at s t)) \<and> r \<noteq> p" for r
    using d by (simp add: s1_def)
  have wq: "waitProcs (lock_at s1 t) = waitProcs (lock_at s t)" by (simp add: s1_def)
  show "tidy s1 t {}"
    unfolding tidy_def wq
  proof (intro allI impI)
    fix r assume "r \<in> set (procLocks (lock_at s1 t))"
    then have "r \<in> set (procLocks (lock_at s t))" "r \<noteq> p" using sub by blast+
    then show "r \<in> {} \<or> hold s1 t r \<noteq> 0 \<or> r \<in> set (waitProcs (lock_at s t))"
      using ok(2) hold [of r] by (auto simp: tidy_def)
  qed
  have H: "holders s1 t k \<subseteq> holders s t k" for k
  proof
    fix r assume "r \<in> holders s1 t k"
    then have "r \<in> set (procLocks (lock_at s1 t))" "bit (hold s1 t r) k" by (simp_all add: holders_def)
    then show "r \<in> holders s t k" using sub [of r] hold [of r] by (simp add: holders_def)
  qed
  have "mppSessionId (allProcs s1 r) = mppSessionId (allProcs s r)" for r by (simp add: s1_def)
  then show "exclusive s1 t" using exclusive_less [OF ok(3)] H by blast
  show "waiters_blocked s1 t" if "waiters_blocked s t"
    using that no_weaker_all_blocked [OF no_weaker_remove_proclock [OF p(2) d]]
    by (simp add: waiters_blocked_def s1_def)
qed

lemma delete_lock:
  assumes t: "table_but t s" and l: "LockMethodLockHash s t \<noteq> None" and ok: "lock_ok None s t" "tidy s t {}"
    and z: "nRequested (lock_at s t) = 0"
  shows "table_ok (s\<lparr>LockMethodLockHash := (LockMethodLockHash s)(t := None)\<rparr>)"
proof -
  let ?s = "s\<lparr>LockMethodLockHash := (LockMethodLockHash s)(t := None)\<rparr>"
  have q: "queues_ok s" using t by (simp add: table_but_def)
  have none: "LockMethodProcLockHash s (t, p) = None" for p
    using ok nRequested_0(3) [OF ok(1) z ok(2)] by (auto simp: lock_ok_def lock_shape_def)
  have "queues_ok ?s"
    by (rule queues_ok_frame [OF q]) (auto simp: lock_at_def nRequested_0(2) [OF ok(1) z, unfolded lock_at_def] split: if_splits)
  moreover have "only_at t s ?s" by (rule only_at_procs) simp_all
  ultimately have "table_but t ?s" by (intro table_but_only [OF t]) (simp_all add: none)
  then show ?thesis by (simp add: table_ok_iff [of _ t])
qed

lemma table_CleanUpLock:
  assumes t: "table_but t s" and l: "LockMethodLockHash s t \<noteq> None" and ok: "lock_ok None s t" "tidy s t {p}" "exclusive s t"
    and v: "valid_method t" and p: "p \<notin> set (waitProcs (lock_at s t))"
    and w: "wakeup \<or> waiters_blocked s t"
  shows "table_ok (CleanUpLock t (t, p) (GetLocksMethodTable t) wakeup s)"
proof -
  define s1 where "s1 = (if hold s t p = 0 then remove_proclock (t, p) s else s)"
  have s1: "table_but t s1" "LockMethodLockHash s1 t \<noteq> None" "lock_ok None s1 t" "tidy s1 t {}" "exclusive s1 t"
      "wakeup \<or> waiters_blocked s1 t"
  proof -
    have "tidy s t {}" if "hold s t p \<noteq> 0" using ok(2) that by (auto simp: tidy_def)
    then show "table_but t s1" "LockMethodLockHash s1 t \<noteq> None" "lock_ok None s1 t" "tidy s1 t {}" "exclusive s1 t"
        "wakeup \<or> waiters_blocked s1 t"
      using remove_proclock_step [OF t l ok p] t l ok w unfolding s1_def by (cases "hold s t p = 0", auto)+
  qed
  show ?thesis
  proof (cases "nRequested (lock_at s1 t) = 0")
    case True
    then show ?thesis using delete_lock [OF s1(1-4)] by (simp add: CleanUpLock_def s1_def hold_def Let_def)
  next
    case False
    then have n: "0 < nRequested (lock_at s1 t)" using nRequested_nonneg [OF s1(3)] by simp
    have "CleanUpLock t (t, p) (GetLocksMethodTable t) wakeup s =
        (if wakeup then ProcLockWakeup (GetLocksMethodTable t) t s1 else s1)"
      using False by (simp add: CleanUpLock_def s1_def hold_def Let_def)
    moreover have "table_ok s1" if "\<not> wakeup"
      using that s1 n v by (simp add: table_ok_iff [of s1 t] lock_good_def)
    ultimately show ?thesis using table_wakeup [OF s1(1-5) n v] by simp
  qed
qed

text \<open>\<open>RemoveFromWaitQueue\<close>.\<close>

lemma LockMethods_table: "valid_method t \<Longrightarrow> the (LockMethods ! locktag_lockmethodid t) = GetLocksMethodTable t"
  by (simp add: GetLocksMethodTable_def valid_method_def)

lemma queues_ok_unwait:
  assumes q: "queues_ok s" and p: "waits_on s p t"
  shows "queues_ok (unwait t p s)"
proof -
  have w: "waits_on (unwait t p s) r u \<longleftrightarrow> waits_on s r u \<and> r \<noteq> p" for r u by (simp add: waits_on_def)
  have "distinct (waitProcs l) \<and> (\<forall>r. r \<in> set (waitProcs l) \<longleftrightarrow> waits_on (unwait t p s) r u)"
    if "LockMethodLockHash (unwait t p s) u = Some l" for u l
  proof (cases "u = t")
    case True
    then have "waitProcs l = remove1 p (waitProcs (lock_at s t))" using that by auto
    then show ?thesis using queues_okD(1,2,4,6) [OF q] p True unfolding w by (metis distinct_remove1 set_remove1_eq DiffE DiffI singletonD singletonI)
  next
    case False
    then have "LockMethodLockHash s u = Some l" using that by simp
    moreover have "\<not> waits_on s p u" using False p by (simp add: waits_on_def)
    ultimately show ?thesis using q unfolding w queues_ok_def by metis
  qed
  moreover have "LockMethodLockHash (unwait t p s) u \<noteq> None \<and> waitProcLock (allProcs (unwait t p s) r) = Some (u, r)"
    if "waits_on (unwait t p s) r u" for r u
    using that queues_okD(3,6) [OF q, of r u] unfolding w by simp
  ultimately show ?thesis unfolding queues_ok_def by blast
qed

lemma table_RemoveFromWaitQueue:
  assumes t: "table_but t s" and ok: "lock_ok None s t" "tidy s t {p}" "exclusive s t"
    and v: "valid_method t" and p: "waits_on s p t"
  shows "table_ok (RemoveFromWaitQueue p s)"
proof -
  let ?s = "unwait t p s"
  have q: "queues_ok s" using t by (simp add: table_but_def)
  have hold: "hold ?s t r = hold s t r" for r by (simp add: hold_def)
  have "only_at t s ?s" using p by (auto simp: only_at_def waits_on_def)
  then have "table_but t ?s" using table_but_only [OF t _ queues_ok_unwait [OF q p]] by simp
  moreover have "tidy ?s t {p}" using ok(2) queues_okD(2) [OF q p] unfolding tidy_def hold by auto
  moreover have "exclusive ?s t" by (rule exclusive_less [OF ok(3)]) (simp_all add: holders_def hold)
  moreover have "p \<notin> set (waitProcs (lock_at ?s t))" using queues_okD(2) [OF q p] by simp
  ultimately have "table_ok (CleanUpLock t (t, p) (GetLocksMethodTable t) True ?s)"
    by (intro table_CleanUpLock) (use lock_ok_unwait [OF q p ok(1)] v in simp_all)
  moreover have "RemoveFromWaitQueue p s = CleanUpLock t (t, p) (GetLocksMethodTable t) True ?s"
    using p queues_okD(3) [OF q p] LockMethods_table [OF v]
    by (simp add: RemoveFromWaitQueue_def Let_def waits_on_def unwait_def)
  ultimately show ?thesis by simp
qed

end
