(* ===== verification/LockSystem.thy ===== *)
theory LockSystem
  imports LockTableOk
begin

unbundle bit_operations_syntax

text \<open>
  The lock table as a transition system: entering a request and granting, queueing or refusing it,
  releasing locks, leaving a queue and resolving a deadlock all keep the invariant of the table,
  so that it holds in every state that can be reached from the empty table.
\<close>

section \<open>Releasing\<close>

definition releasing :: "LOCKTAG \<Rightarrow> nat \<Rightarrow> bool \<Rightarrow> LockMem \<Rightarrow> bool" where
  "releasing t p wakeup s \<longleftrightarrow> table_but t s \<and> LockMethodLockHash s t \<noteq> None \<and> lock_ok None s t \<and>
     tidy s t {p} \<and> exclusive s t \<and> valid_method t \<and> p \<in> set (procLocks (lock_at s t)) \<and>
     p \<notin> set (waitProcs (lock_at s t)) \<and> (wakeup \<or> waiters_blocked s t)"

lemma releasing_start:
  assumes "table_ok s" "LockMethodProcLockHash s (t, p) \<noteq> None" "\<not> linked (allProcs s p)"
  shows "releasing t p False s"
proof -
  have l: "LockMethodLockHash s t \<noteq> None" using table_okD(2) [OF assms(1,2)] .
  note g = lock_goodD [OF table_okD(3) [OF assms(1) l]]
  have "p \<in> set (procLocks (lock_at s t))" using g(1) assms(2) by (simp add: lock_ok_def lock_shape_def)
  moreover have "p \<notin> set (waitProcs (lock_at s t))"
    using queues_okD(4) [OF table_okD(1) [OF assms(1)] l] assms(3) by (auto simp: waits_on_def)
  ultimately show ?thesis using table_okD(4) [OF assms(1)] l g by (simp add: releasing_def)
qed

lemma releasing_done:
  "releasing t p wakeup s \<Longrightarrow> table_ok (CleanUpLock t (t, p) (GetLocksMethodTable t) wakeup s)"
  unfolding releasing_def by (elim conjE) (rule table_CleanUpLock)

lemma UnGrantLock_blocked:
  assumes ok: "lock_ok None s t" and m: "valid_mode m" and b: "all_blocked s t"
    and none: "LockConflicts ! m AND waitMask (lock_at s t) = 0"
  shows "all_blocked (snd (UnGrantLock t m (t, p) tab s)) t"
proof -
  let ?s = "snd (UnGrantLock t m (t, p) tab s)"
  have "blocked ?s t w" if w: "w \<in> set (waitProcs (lock_at s t))" for w
  proof -
    let ?k = "waitLockMode (allProcs s w)"
    note v = lock_ok_waiter [OF ok w]
    have "bit (waitMask (lock_at s t)) ?k"
      using ok w lock_counts_masks(2) [of None s t ?k] valid_mode_less [OF v(2)]
      by (auto simp: lock_ok_def waiting_def)
    then have "\<not> conflicts m ?k" using none conflict_mask [of "LockConflicts ! m"] by (auto simp: conflicts_def)
    then have nc: "\<not> conflicts ?k m" using conflicts_sym [OF m v(2)] by simp
    have "held_against ?s t w ?k q" if h: "held_against s t w ?k q" for q
    proof -
      obtain j where j: "bit (hold s t q) j" "conflicts ?k j" using h by (auto simp: held_against_def)
      then have "j \<noteq> m" using nc by auto
      then have "bit (hold ?s t q) j"
        using j bit_imp_le_length [OF j(1)] by (auto simp: hold_UnGrantLock bit_and_iff)
      moreover have "same_session ?s w q \<longleftrightarrow> same_session s w q" by (rule same_session_cong) simp
      ultimately show ?thesis using h j(2) by (auto simp: held_against_def)
    qed
    moreover have "allProcs ?s = allProcs s" "waitProcs (lock_at ?s t) = waitProcs (lock_at s t)" by simp_all
    moreover have "blocked s t w" using b w by (simp add: all_blocked_def)
    ultimately show ?thesis unfolding blocked_def by metis
  qed
  then show ?thesis by (simp add: all_blocked_def)
qed

lemma releasing_UnGrantLock:
  assumes r: "releasing t p wakeup s" and m: "bit (hold s t p) m"
  shows "releasing t p (wakeup \<or> fst (UnGrantLock t m (t, p) (GetLocksMethodTable t) s))
    (snd (UnGrantLock t m (t, p) (GetLocksMethodTable t) s))"
proof -
  let ?tab = "GetLocksMethodTable t"
  let ?s = "snd (UnGrantLock t m (t, p) ?tab s)"
  have ok: "lock_ok None s t" and p: "p \<in> set (procLocks (lock_at s t))" and t: "table_but t s"
    and l: "LockMethodLockHash s t \<noteq> None" and ti: "tidy s t {p}" and ex: "exclusive s t"
    using r by (simp_all add: releasing_def)
  have v: "valid_mode m" using lock_ok_holders_valid [OF ok] p m by (auto simp: holders_def)
  have sub: "bit (hold ?s t q) k \<Longrightarrow> bit (hold s t q) k" for q k by (auto simp: hold_UnGrantLock bit_and_iff split: if_splits)
  have "queues_ok ?s"
    by (rule queues_ok_frame [of s]) (use t l in \<open>auto simp: table_but_def split: if_splits\<close>)
  moreover have "only_at t s ?s" by (rule only_at_procs) simp_all
  ultimately have "table_but t ?s" by (intro table_but_only [OF t]) simp_all
  moreover have "tidy ?s t {p}" using ti by (auto simp: tidy_def hold_UnGrantLock)
  moreover have "exclusive ?s t" by (rule exclusive_less [OF ex]) (use sub in \<open>auto simp: holders_def\<close>)
  moreover have "wakeup \<or> fst (UnGrantLock t m (t, p) ?tab s) \<or> waiters_blocked ?s t"
    using r UnGrantLock_blocked [OF ok v] UnGrantLock_wakeup [of t m "(t, p)" ?tab s]
    by (auto simp: releasing_def waiters_blocked_def)
  ultimately show ?thesis
    using r lock_ok_UnGrantLock [OF ok p m] by (simp add: releasing_def)
qed

lemma table_release:
  assumes ok: "table_ok s" and k: "LockMethodProcLockHash s (t, p) \<noteq> None" and n: "\<not> linked (allProcs s p)"
    and m: "bit (hold s t p) m" and u: "UnGrantLock t m (t, p) (GetLocksMethodTable t) s = (w, s1)"
  shows "table_ok (CleanUpLock t (t, p) (GetLocksMethodTable t) w s1)"
  using releasing_done [OF releasing_UnGrantLock [OF releasing_start [OF ok k n] m]] u by simp

text \<open>What the invariants do not depend on: strong-lock counts, and all but the waiting of a process.\<close>

definition same_locks :: "LockMem \<Rightarrow> LockMem \<Rightarrow> bool" where
  "same_locks s s' \<longleftrightarrow> LockMethodLockHash s' = LockMethodLockHash s \<and>
     (\<forall>t p. (LockMethodProcLockHash s' (t, p) = None \<longleftrightarrow> LockMethodProcLockHash s (t, p) = None) \<and> hold s' t p = hold s t p) \<and>
     (\<forall>p. linked (allProcs s' p) = linked (allProcs s p) \<and> waitLock (allProcs s' p) = waitLock (allProcs s p) \<and>
        waitProcLock (allProcs s' p) = waitProcLock (allProcs s p) \<and>
        waitLockMode (allProcs s' p) = waitLockMode (allProcs s p) \<and>
        mppSessionId (allProcs s' p) = mppSessionId (allProcs s p))"

lemma same_locksD:
  assumes "same_locks s s'"
  shows "LockMethodLockHash s' = LockMethodLockHash s" "lock_at s' = lock_at s"
    "\<And>t p. LockMethodProcLockHash s' (t, p) = None \<longleftrightarrow> LockMethodProcLockHash s (t, p) = None"
    "\<And>t p. hold s' t p = hold s t p" "waits_on s' = waits_on s"
    "\<And>p. linked (allProcs s' p) = linked (allProcs s p)" "\<And>p. waitProcLock (allProcs s' p) = waitProcLock (allProcs s p)"
    "\<And>p. waitLockMode (allProcs s' p) = waitLockMode (allProcs s p)"
    "\<And>p. mppSessionId (allProcs s' p) = mppSessionId (allProcs s p)"
  using assms by (auto simp: same_locks_def lock_at_def waits_on_def fun_eq_iff)

lemma same_locks_sym: "same_locks s s' \<Longrightarrow> same_locks s' s"
  by (simp add: same_locks_def)

lemma same_locks_lock:
  assumes "same_locks s s'"
  shows "lock_ok x s' t \<longleftrightarrow> lock_ok x s t" "tidy s' t A \<longleftrightarrow> tidy s t A" "exclusive s' t \<longleftrightarrow> exclusive s t"
    "waiters_blocked s' t \<longleftrightarrow> waiters_blocked s t" "lock_good s' t \<longleftrightarrow> lock_good s t" "queues_ok s' \<longleftrightarrow> queues_ok s"
proof -
  note d = same_locksD [OF assms]
  have H: "holders s' t = holders s t" by (simp add: holders_def d fun_eq_iff)
  have S: "same_session s' p q \<longleftrightarrow> same_session s p q" for p q by (rule same_session_cong [OF d(9)])
  show a: "lock_ok x s' t \<longleftrightarrow> lock_ok x s t" for x by (rule lock_ok_cong) (simp_all add: d)
  show b: "tidy s' t A \<longleftrightarrow> tidy s t A" for A by (simp add: tidy_def d)
  show c: "exclusive s' t \<longleftrightarrow> exclusive s t" by (simp add: exclusive_def H S)
  show e: "waiters_blocked s' t \<longleftrightarrow> waiters_blocked s t"
    by (simp add: waiters_blocked_def all_blocked_def blocked_def held_against_def d S)
  show "lock_good s' t \<longleftrightarrow> lock_good s t" unfolding lock_good_def a b c e d(2) ..
  show "queues_ok s' \<longleftrightarrow> queues_ok s" by (simp add: queues_ok_def d)
qed

lemma same_locks_table:
  assumes "same_locks s s'"
  shows "table_ok s' \<longleftrightarrow> table_ok s" "table_but t s' \<longleftrightarrow> table_but t s"
  by (simp_all add: table_ok_def table_but_def same_locks_lock [OF assms] same_locksD [OF assms])

lemma same_locks_strong: "same_locks s (change_strong_count env t f s)"
  by (simp add: same_locks_def change_strong_count_def Let_def hold_def proclock_at_def)

lemma table_ok_strong [simp]: "table_ok (change_strong_count env t f s) \<longleftrightarrow> table_ok s"
  by (rule same_locks_table(1) [OF same_locks_strong])

lemma table_LockRefindAndRelease:
  assumes ok: "table_ok s" and n: "\<not> linked (allProcs s p)" and r: "LockRefindAndRelease env p t m dec s = Inr s'"
  shows "table_ok s'"
proof (cases "holdMask (proclock_at s (t, p)) AND LOCKBIT_ON m = 0")
  case True
  then show ?thesis using ok r by (simp add: LockRefindAndRelease_def split: if_splits)
next
  case False
  then have m: "bit (hold s t p) m" using mask_has_mode by (simp add: hold_def)
  obtain w s1 where u: "UnGrantLock t m (t, p) (GetLocksMethodTable t) s = (w, s1)" by fastforce
  have k: "LockMethodProcLockHash s (t, p) \<noteq> None" using r by (auto simp: LockRefindAndRelease_def split: if_splits)
  have "s' = CleanUpLock t (t, p) (GetLocksMethodTable t) w s1 \<or>
      s' = change_strong_count env t (\<lambda>n. n - 1) (CleanUpLock t (t, p) (GetLocksMethodTable t) w s1)"
    using r False u by (auto simp: LockRefindAndRelease_def Let_def split: if_splits)
  then show ?thesis using table_release [OF ok k n m u] by auto
qed

text \<open>\<open>release_main\<close>, the end of \<open>LockRelease\<close>, releases the same way.\<close>

lemma table_RemoveLocalLock: "table_ok s \<Longrightarrow> table_ok (snd (RemoveLocalLock env k (b, s)))"
  by (simp add: RemoveLocalLock_def)

lemma table_release_main:
  assumes ok: "table_ok s" and n: "\<not> linked (allProcs s (MyProc b))"
    and k: "ll_lock (locallock_at b (t, m)) \<noteq> None \<Longrightarrow> LockMethodProcLockHash s (t, MyProc b) \<noteq> None"
  shows "table_ok (snd (snd (release_main env t m (b, s))))"
proof -
  let ?p = "MyProc b" and ?tab = "GetLocksMethodTable t"
  obtain w s1 where u: "UnGrantLock t m (t, ?p) ?tab s = (w, s1)" by fastforce
  have "table_ok (CleanUpLock t (t, ?p) ?tab w s1)"
    if "LockMethodProcLockHash s (t, ?p) \<noteq> None" "holdMask (proclock_at s (t, ?p)) AND LOCKBIT_ON m \<noteq> 0"
    using table_release [OF ok that(1) n _ u] that(2) mask_has_mode by (simp add: hold_def)
  then show ?thesis
    using ok k u by (auto simp: release_main_def Let_def intro: table_RemoveLocalLock)
qed

section \<open>Entering a request\<close>

definition requesting :: "LOCKTAG \<Rightarrow> nat \<Rightarrow> LOCKMODE \<Rightarrow> LockMem \<Rightarrow> bool" where
  "requesting t p m s \<longleftrightarrow> table_but t s \<and> LockMethodLockHash s t \<noteq> None \<and> lock_ok (Some m) s t \<and>
     tidy s t {p} \<and> exclusive s t \<and> valid_method t \<and> valid_mode m \<and> p \<in> set (procLocks (lock_at s t)) \<and>
     p \<notin> set (waitProcs (lock_at s t)) \<and> waiters_blocked s t \<and> \<not> bit (hold s t p) m"

text \<open>The state before the request is counted.\<close>

definition entering :: "LOCKTAG \<Rightarrow> nat \<Rightarrow> LockMem \<Rightarrow> bool" where
  "entering t p s \<longleftrightarrow> table_but t s \<and> LockMethodLockHash s t \<noteq> None \<and> lock_ok None s t \<and>
     tidy s t {p} \<and> exclusive s t \<and> \<not> waits_on s p t \<and> waiters_blocked s t"

lemma entering_not_queued: "entering t p s \<Longrightarrow> p \<notin> set (waitProcs (lock_at s t))"
  using queues_okD(4) by (fastforce simp: entering_def table_but_def)

lemma entering_new_lock:
  assumes ok: "table_ok s" and none: "LockMethodLockHash s t = None" and n: "\<not> waits_on s p t"
  shows "entering t p (set_lock t (new_lock junk) s)"
proof -
  let ?s = "set_lock t (new_lock junk) s"
  have e: "LockMethodProcLockHash s (t, q) = None" for q using table_okD(2) [OF ok] none by blast
  have "queues_ok ?s" by (rule queues_ok_frame [OF table_okD(1) [OF ok]])
      (use none in \<open>auto simp: new_lock_def split: if_splits\<close>)
  moreover have "only_at t s ?s" by (rule only_at_procs) simp_all
  ultimately have "table_but t ?s" by (intro table_but_only [OF table_okD(4) [OF ok]]) simp_all
  then show ?thesis using lock_ok_new [of s t] e n
    by (simp add: entering_def tidy_def exclusive_def holders_def waiters_blocked_def all_blocked_def new_lock_def waits_on_def)
qed

lemma entering_old_lock:
  assumes ok: "table_ok s" and l: "LockMethodLockHash s t \<noteq> None" and n: "\<not> waits_on s p t"
  shows "entering t p s"
  using lock_goodD [OF table_okD(3) [OF ok l]] table_okD(4) [OF ok] l n by (simp add: entering_def)

lemma entering_add_proclock:
  assumes e: "entering t p s" and k: "LockMethodProcLockHash s (t, p) = None"
  shows "entering t p (add_proclock h t p s)"
proof -
  let ?s = "add_proclock h t p s"
  have t: "table_but t s" and l: "LockMethodLockHash s t \<noteq> None" and ok: "lock_ok None s t"
    and ti: "tidy s t {p}" and ex: "exclusive s t" using e by (simp_all add: entering_def)
  have np: "p \<notin> set (procLocks (lock_at s t))" using ok k by (simp add: lock_ok_def lock_shape_def)
  have hold: "hold ?s t q = (if q = p then 0 else hold s t q)" for q by (simp add: hold_def)
  have H: "holders ?s t j \<subseteq> holders s t j" for j by (auto simp: holders_def hold split: if_splits)
  have "queues_ok ?s"
    by (rule queues_ok_frame [of s]) (use t l in \<open>auto simp: table_but_def split: if_splits\<close>)
  moreover have "only_at t s ?s" by (rule only_at_procs) simp_all
  ultimately have "table_but t ?s" by (intro table_but_only [OF t]) simp_all
  moreover have "tidy ?s t {p}" using ti by (auto simp: tidy_def hold)
  moreover have "exclusive ?s t" by (rule exclusive_less [OF ex _ H]) simp
  moreover have "no_weaker s ?s t" using np by (auto simp: no_weaker_def hold)
  then have "waiters_blocked ?s t"
    using e no_weaker_all_blocked [of s ?s t] by (simp add: entering_def waiters_blocked_def)
  moreover have "\<not> waits_on ?s p t" using e by (simp add: entering_def waits_on_def)
  ultimately show ?thesis using lock_ok_add_proclock [OF ok k] by (simp add: entering_def)
qed

lemma entering_request:
  assumes e: "entering t p s" and k: "LockMethodProcLockHash s (t, p) \<noteq> None" and v: "valid_method t" "valid_mode m"
    and new: "\<not> bit (hold s t p) m"
  shows "requesting t p m (set_lock t (request_in_lock m (lock_at s t)) s)"
proof -
  let ?s = "set_lock t (request_in_lock m (lock_at s t)) s"
  have t: "table_but t s" and l: "LockMethodLockHash s t \<noteq> None" and ok: "lock_ok None s t"
    and ti: "tidy s t {p}" and ex: "exclusive s t" using e by (simp_all add: entering_def)
  have lists: "procLocks (lock_at ?s t) = procLocks (lock_at s t)" "waitProcs (lock_at ?s t) = waitProcs (lock_at s t)"
    by (simp_all add: request_in_lock_def)
  have hold: "hold ?s t = hold s t" by (simp add: hold_def fun_eq_iff)
  have H: "holders ?s t j \<subseteq> holders s t j" for j by (simp only: holders_def hold lists)
  have "queues_ok ?s"
    by (rule queues_ok_frame [of s]) (use t l in \<open>auto simp: table_but_def request_in_lock_def split: if_splits\<close>)
  moreover have "only_at t s ?s" by (rule only_at_procs) simp_all
  ultimately have "table_but t ?s" by (intro table_but_only [OF t]) simp_all
  moreover have "tidy ?s t {p}" using ti by (simp only: tidy_def hold lists)
  moreover have "exclusive ?s t" by (rule exclusive_less [OF ex _ H]) simp
  moreover have "no_weaker s ?s t" unfolding no_weaker_def hold lists by simp
  then have "waiters_blocked ?s t"
    using e no_weaker_all_blocked [of s ?s t] lists by (simp add: entering_def waiters_blocked_def)
  moreover have "p \<in> set (procLocks (lock_at ?s t))" using ok k unfolding lists by (simp add: lock_ok_def lock_shape_def)
  ultimately show ?thesis using lock_ok_request [OF ok v(2)] v new entering_not_queued [OF e] e lists hold
    by (simp add: requesting_def entering_def)
qed

definition same_waiting :: "PGPROC \<Rightarrow> PGPROC \<Rightarrow> bool" where
  "same_waiting pr pr' \<longleftrightarrow> linked pr' = linked pr \<and> waitLock pr' = waitLock pr \<and> mppSessionId pr' = mppSessionId pr \<and>
     fpLockBits pr' = fpLockBits pr \<and> fpRelId pr' = fpRelId pr \<and> databaseId pr' = databaseId pr"

lemma table_SetupLockInTable:
  assumes ok: "table_ok s" and n: "\<not> waits_on s p t" and v: "valid_method t" "valid_mode m"
    and new: "\<not> (LockMethodProcLockHash s (t, p) \<noteq> None \<and> bit (hold s t p) m)"
    and r: "SetupLockInTable lock_room proclock_room junk p t h m s = (r, s')"
  shows "r = Setup_NULL \<and> s' = s \<or> r = Setup_OK \<and> requesting t p m s' \<and>
    (\<forall>q. hold s' t q = (if LockMethodProcLockHash s (t, q) = None \<and> q = p then 0 else hold s t q)) \<and>
    (\<forall>q. same_waiting (allProcs s q) (allProcs s' q)) \<and>
    (\<forall>q. q \<noteq> p \<longrightarrow> allProcs s' q = allProcs s q \<and> LockMethodProcLockHash s' (t, q) = LockMethodProcLockHash s (t, q))"
proof (cases "LockMethodLockHash s t = None \<and> \<not> lock_room")
  case True
  then show ?thesis using r by (simp add: SetupLockInTable_def)
next
  case room: False
  define s1 where "s1 = (if LockMethodLockHash s t \<noteq> None then s else set_lock t (new_lock junk) s)"
  have e1: "entering t p s1" unfolding s1_def
    using entering_new_lock [OF ok _ n] entering_old_lock [OF ok _ n] by simp
  have P1: "LockMethodProcLockHash s1 = LockMethodProcLockHash s" by (simp add: s1_def)
  have h1: "hold s1 t q = hold s t q" for q by (simp add: hold_def proclock_at_def P1)
  have R: "SetupLockInTable lock_room proclock_room junk p t h m s =
      (let pfound = LockMethodProcLockHash s1 (t, p) \<noteq> None in
       if \<not> pfound \<and> \<not> proclock_room then
        (Setup_NULL,
         if nRequested (lock_at s1 t) = 0
         then s1\<lparr>LockMethodLockHash := (LockMethodLockHash s1)(t := None)\<rparr> else s1) else
      let s2 = (if pfound then s1 else add_proclock h t p s1);
          s3 = set_lock t (request_in_lock m (lock_at s2 t)) s2 in
      if holdMask (proclock_at s3 (t, p)) AND LOCKBIT_ON m \<noteq> 0 then (Setup_already_held, s3)
      else (Setup_OK, s3))"
    using room unfolding SetupLockInTable_def s1_def Let_def by auto
  show ?thesis
  proof (cases "LockMethodProcLockHash s (t, p) = None \<and> \<not> proclock_room")
    case True
    have "(if nRequested (lock_at s1 t) = 0 then s1\<lparr>LockMethodLockHash := (LockMethodLockHash s1)(t := None)\<rparr> else s1) = s"
    proof (cases "LockMethodLockHash s t = None")
      case True
      then have "(LockMethodLockHash s)(t := None) = LockMethodLockHash s" by auto
      then show ?thesis using True by (simp add: s1_def new_lock_def set_lock_def lock_at_def)
    next
      case False
      then show ?thesis using lock_goodD(5) [OF table_okD(3) [OF ok, of t]] by (simp add: s1_def)
    qed
    then show ?thesis using r True unfolding R by (simp add: P1)
  next
    case False
    define s2 where "s2 = (if LockMethodProcLockHash s (t, p) \<noteq> None then s1 else add_proclock h t p s1)"
    have e2: "entering t p s2" unfolding s2_def using e1 entering_add_proclock [OF e1] P1 by simp
    have P2: "LockMethodProcLockHash s2 (t, p) \<noteq> None" by (simp add: s2_def P1)
    have h2: "hold s2 t q = (if LockMethodProcLockHash s (t, q) = None \<and> q = p then 0 else hold s t q)" for q
      by (auto simp: s2_def h1 hold_def proclock_at_def P1)
    have nb: "\<not> bit (hold s2 t p) m" using new by (auto simp: h2)
    let ?s3 = "set_lock t (request_in_lock m (lock_at s2 t)) s2"
    have h3: "hold ?s3 t q = hold s2 t q" for q by (simp add: hold_def)
    have "(r, s') = (Setup_OK, ?s3)"
      using r False nb mask_has_mode [of "hold s2 t p" m] h3 [of p] unfolding R P1 s2_def [symmetric] Let_def
      by (auto simp: hold_def)
    then have "s' = ?s3" "r = Setup_OK" by simp_all
    moreover have "same_waiting (allProcs s q) (allProcs ?s3 q)" for q
      by (simp add: s1_def s2_def same_waiting_def)
    moreover have "q \<noteq> p \<longrightarrow> allProcs ?s3 q = allProcs s q \<and> LockMethodProcLockHash ?s3 (t, q) = LockMethodProcLockHash s (t, q)" for q
      by (simp add: s1_def s2_def)
    ultimately show ?thesis using entering_request [OF e2 P2 v nb] h3 h2 by simp
  qed
qed

section \<open>Granting, queueing and refusing a request\<close>

lemma requesting_free:
  assumes "requesting t p m s"
  shows "LockCheckConflicts (GetLocksMethodTable u) m t (t, p) s = STATUS_OK \<longleftrightarrow> (\<nexists>q. held_against s t p m q)"
  using assms LockCheckConflicts_iff unfolding requesting_def by blast

lemma table_GrantLock:
  assumes r: "requesting t p m s" and free: "\<nexists>q. held_against s t p m q"
  shows "table_ok (GrantLock t (t, p) m s)"
proof -
  let ?s = "GrantLock t (t, p) m s"
  have t: "table_but t s" and l: "LockMethodLockHash s t \<noteq> None" and ok: "lock_ok (Some m) s t"
    and ti: "tidy s t {p}" and ex: "exclusive s t" and p: "p \<in> set (procLocks (lock_at s t))"
    and w: "p \<notin> set (waitProcs (lock_at s t))" and v: "valid_mode m" "\<not> bit (hold s t p) m" "valid_method t"
    using r by (simp_all add: requesting_def)
  have "queues_ok ?s"
    by (rule queues_ok_frame [of s]) (use t l in \<open>auto simp: table_but_def split: if_splits\<close>)
  moreover have "only_at t s ?s" by (rule only_at_procs) simp_all
  ultimately have "table_but t ?s" by (intro table_but_only [OF t]) simp_all
  moreover have "lock_ok None ?s t" by (rule lock_ok_GrantLock [OF ok p w v(1,2)])
  moreover have "bit (hold ?s t p) m" using v(1) by (simp add: hold_GrantLock bit_or_iff valid_mode_less)
  then have "hold ?s t p \<noteq> 0" by auto
  then have "tidy ?s t {}" using ti by (auto simp: tidy_def hold_GrantLock split: if_splits)
  moreover have "exclusive ?s t"
    by (rule exclusive_grant [OF ex _ holders_GrantLock [OF p v(1)] free v(1) lock_ok_holders_valid [OF ok]]) simp
  moreover have "waiters_blocked ?s t"
    using r no_weaker_all_blocked [OF no_weaker_GrantLock, of s t p m] by (simp add: requesting_def waiters_blocked_def)
  moreover have "0 < nRequested (lock_at ?s t)"
    using nRequested_nonneg [OF \<open>lock_ok None ?s t\<close>] nRequested_0(1) [OF \<open>lock_ok None ?s t\<close>, of m] p
      \<open>bit (hold ?s t p) m\<close> by (force simp: holders_def)
  ultimately show ?thesis using v(3) by (simp add: table_ok_iff [of ?s t] lock_good_def)
qed

lemma requesting_same:
  assumes "same_locks s s'" "requesting t p m s"
  shows "requesting t p m s'"
  using assms(2)
  by (simp add: requesting_def same_locks_lock [OF assms(1)] same_locks_table [OF assms(1)] same_locksD [OF assms(1)])

lemma queues_ok_enqueue:
  assumes q: "queues_ok s" and l: "LockMethodLockHash s t \<noteq> None" and p: "\<not> linked (allProcs s p)"
  shows "queues_ok (enqueue t p m i s)"
proof -
  let ?s = "enqueue t p m i s"
  have w: "waits_on ?s r u \<longleftrightarrow> (if r = p then u = t else waits_on s r u)" for r u by (auto simp: waits_on_def)
  have np: "\<not> waits_on s p u" for u using p by (simp add: waits_on_def)
  have "distinct (waitProcs k) \<and> (\<forall>r. r \<in> set (waitProcs k) \<longleftrightarrow> waits_on ?s r u)"
    if "LockMethodLockHash ?s u = Some k" for u k
  proof (cases "u = t")
    case True
    let ?q = "waitProcs (lock_at s t)"
    have k: "waitProcs k = take i ?q @ p # drop i ?q" using that True by auto
    have "distinct ?q" "\<And>r. r \<in> set ?q \<longleftrightarrow> waits_on s r t" using queues_okD(1,4,5) [OF q] l by blast+
    moreover from this have "p \<notin> set ?q" using np by simp
    moreover have "distinct (take i ?q @ drop i ?q)" using \<open>distinct ?q\<close> by simp
    ultimately have "distinct (waitProcs k)" unfolding k
      by (metis distinct_append distinct.simps(2) append_take_drop_id disjoint_insert(2) in_set_dropD in_set_takeD list.simps(15))
    then show ?thesis using True \<open>\<And>r. r \<in> set ?q \<longleftrightarrow> waits_on s r t\<close> unfolding w k set_insert_at by auto
  next
    case False
    then have "LockMethodLockHash s u = Some k" using that by simp
    then show ?thesis using q False np unfolding w queues_ok_def by metis
  qed
  moreover have "LockMethodLockHash ?s u \<noteq> None \<and> waitProcLock (allProcs ?s r) = Some (u, r)" if "waits_on ?s r u" for r u
    using that queues_okD(3,6) [OF q, of r u] unfolding w by (auto split: if_splits)
  ultimately show ?thesis unfolding queues_ok_def by blast
qed

lemma requesting_enqueue:
  fixes i :: nat
  assumes r: "requesting t p m s" and n: "\<not> linked (allProcs s p)"
  defines "s' \<equiv> enqueue t p m i s"
  shows "table_but t s'" "LockMethodLockHash s' t \<noteq> None" "lock_ok None s' t" "tidy s' t {}" "exclusive s' t"
    "waits_on s' p t"
    "(\<exists>q. held_against s t p m q) \<or> (\<exists>q\<in>set (take i (waitProcs (lock_at s t))). conflicts m (waitLockMode (allProcs s q))) \<Longrightarrow>
       waiters_blocked s' t"
proof -
  have t: "table_but t s" and l: "LockMethodLockHash s t \<noteq> None" and ok: "lock_ok (Some m) s t"
    and ti: "tidy s t {p}" and ex: "exclusive s t" and p: "p \<in> set (procLocks (lock_at s t))"
    and w: "p \<notin> set (waitProcs (lock_at s t))" and v: "valid_mode m" "\<not> bit (hold s t p) m" "valid_method t"
    using r by (simp_all add: requesting_def)
  have q: "queues_ok s" using t by (simp add: table_but_def)
  have hold: "hold s' t r = hold s t r" for r by (simp add: hold_def s'_def)
  have lists: "procLocks (lock_at s' t) = procLocks (lock_at s t)"
      "waitProcs (lock_at s' t) = take i (waitProcs (lock_at s t)) @ p # drop i (waitProcs (lock_at s t))"
    by (simp_all add: s'_def)
  have ws: "set (waitProcs (lock_at s' t)) = insert p (set (waitProcs (lock_at s t)))"
    unfolding lists by (rule set_insert_at)
  have "only_at t s s'" using n by (auto simp: only_at_def s'_def waits_on_def)
  then show "table_but t s'"
    using table_but_only [OF t _ queues_ok_enqueue [OF q l n]] by (simp add: s'_def)
  show "LockMethodLockHash s' t \<noteq> None" "waits_on s' p t" by (simp_all add: s'_def waits_on_def)
  show "lock_ok None s' t" unfolding s'_def by (rule lock_ok_enqueue [OF ok p w v(1,2)])
  show "tidy s' t {}" using ti unfolding tidy_def ws hold lists(1) by auto
  show "exclusive s' t" by (rule exclusive_less [OF ex]) (simp_all add: holders_def hold lists(1), simp add: s'_def)
  have old: "blocked s' t r" if "r \<in> set (waitProcs (lock_at s t))" "all_blocked s t" for r
    using no_weaker_blocked [OF no_weaker_enqueue [OF w] that(1), of m i] that unfolding s'_def all_blocked_def by blast
  have mp: "waitLockMode (allProcs s' p) = m" by (simp add: s'_def)
  have S: "same_session s' p r \<longleftrightarrow> same_session s p r" for r by (rule same_session_cong) (simp add: s'_def)
  assume b: "(\<exists>q. held_against s t p m q) \<or> (\<exists>q\<in>set (take i (waitProcs (lock_at s t))). conflicts m (waitLockMode (allProcs s q)))"
  then have "blocked s' t p"
  proof
    assume "\<exists>q. held_against s t p m q"
    then show ?thesis unfolding blocked_def mp held_against_def S hold lists(1) by blast
  next
    assume "\<exists>q\<in>set (take i (waitProcs (lock_at s t))). conflicts m (waitLockMode (allProcs s q))"
    then obtain r where r: "r \<in> set (take i (waitProcs (lock_at s t)))" "conflicts m (waitLockMode (allProcs s r))" by blast
    then have "r \<noteq> p" using w in_set_takeD by fastforce
    then have "waitLockMode (allProcs s' r) = waitLockMode (allProcs s r)" by (simp add: s'_def)
    moreover have "before_in (waitProcs (lock_at s' t)) r p"
      using r(1) w unfolding lists by (subst before_in_middle) (auto dest: in_set_takeD)
    ultimately show ?thesis unfolding blocked_def mp using r(2) by metis
  qed
  then show "waiters_blocked s' t"
    using old r unfolding waiters_blocked_def all_blocked_def ws requesting_def by auto
qed

lemma table_enqueue:
  assumes r: "requesting t p m s" and n: "\<not> linked (allProcs s p)"
    and b: "(\<exists>q. held_against s t p m q) \<or> (\<exists>q\<in>set (take i (waitProcs (lock_at s t))). conflicts m (waitLockMode (allProcs s q)))"
  shows "table_ok (enqueue t p m i s)"
proof -
  let ?s = "enqueue t p m i s"
  note e = requesting_enqueue [OF r n, of i]
  have "0 < nRequested (lock_at ?s t)"
    using nRequested_nonneg [OF e(3)] nRequested_0(2) [OF e(3)] by fastforce
  moreover have "valid_method t" using r by (simp add: requesting_def)
  ultimately show ?thesis using e b by (simp add: table_ok_iff [of ?s t] lock_good_def)
qed

text \<open>Where \<open>ProcSleep\<close> queues a process, it has to wait.\<close>

lemma sleep_scan_spec:
  assumes "sleep_scan (GetLocksMethodTable t) s t k m held ahead i ps = (j, c)"
    "queue = pre @ ps" "length pre = i" "\<And>x. x < 32 \<Longrightarrow> bit ahead x \<longleftrightarrow> (\<exists>q\<in>set pre. waitLockMode (allProcs s q) = x)"
  shows "c = At_tail \<and> j = length queue \<or>
    c = Grant_now \<and> LockCheckConflicts (GetLocksMethodTable t) m t k s = STATUS_OK \<or>
    c = Put_before \<and> (LockCheckConflicts (GetLocksMethodTable t) m t k s \<noteq> STATUS_OK \<or>
      (\<exists>q\<in>set (take j queue). conflicts m (waitLockMode (allProcs s q)))) \<or>
    (\<exists>p. c = Early_deadlock p)"
  using assms
proof (induction ps arbitrary: ahead i pre)
  case (Cons p ps)
  let ?pm = "waitLockMode (allProcs s p)"
  have "conflicts m x \<Longrightarrow> bit ahead x \<Longrightarrow> \<exists>q\<in>set pre. conflicts m (waitLockMode (allProcs s q))" for x
    using Cons.prems(4) [of x] bit_imp_le_length [of ahead x] by auto
  then have a: "LockConflicts ! m AND ahead \<noteq> 0 \<Longrightarrow> \<exists>q\<in>set (take i queue). conflicts m (waitLockMode (allProcs s q))"
    using Cons.prems(2,3) conflict_mask [of "LockConflicts ! m" ahead] by (auto simp: conflicts_def)
  show ?case
  proof (cases "LockConflicts ! ?pm AND held \<noteq> 0")
    case True
    then show ?thesis using Cons.prems(1) a by (auto simp: Let_def split: if_splits)
  next
    case False
    have "sleep_scan (GetLocksMethodTable t) s t k m held (ahead OR LOCKBIT_ON ?pm) (Suc i) ps = (j, c)"
      using Cons.prems(1) False by (simp add: Let_def)
    from Cons.IH [OF this, of "pre @ [p]"] show ?thesis
      using Cons.prems(2-4) by (auto simp: bit_or_iff)
  qed
qed simp

lemma requesting_waitMask:
  assumes r: "requesting t p m s"
  shows "LockConflicts ! m AND waitMask (lock_at s t) \<noteq> 0 \<longleftrightarrow>
    (\<exists>q\<in>set (waitProcs (lock_at s t)). conflicts m (waitLockMode (allProcs s q)))"
proof -
  have ok: "lock_ok (Some m) s t" using r by (simp add: requesting_def)
  have "bit (waitMask (lock_at s t)) k \<longleftrightarrow> waiting s t k \<noteq> {}" if "k < 32" for k
    using lock_counts_masks(2) [of "Some m" s t k] ok that by (simp add: lock_ok_def)
  then have "bit (LockConflicts ! m) k \<and> bit (waitMask (lock_at s t)) k \<longleftrightarrow> conflicts m k \<and> waiting s t k \<noteq> {}" for k
    using bit_imp_le_length [of "LockConflicts ! m" k] by (auto simp: conflicts_def)
  then show ?thesis unfolding conflict_mask by (auto simp: waiting_def)
qed

lemma table_ProcSleep:
  assumes r: "requesting t (MyProc b) m s" and n: "\<not> linked (allProcs s (MyProc b))"
    and busy: "(\<exists>q. held_against s t (MyProc b) m q) \<or>
      (\<exists>q\<in>set (waitProcs (lock_at s t)). conflicts m (waitLockMode (allProcs s q)))"
    and P: "ProcSleep env (t, m) (b, s) = (st, b', s')"
  shows "table_ok s'"
proof -
  let ?p = "MyProc b" and ?tab = "GetLocksMethodTable t" and ?q = "waitProcs (lock_at s t)"
  let ?held = "heldLocks (allProcs s ?p)"
  obtain i c where ic: "(if ?held \<noteq> 0 then sleep_scan ?tab s t (t, ?p) m ?held 0 0 ?q else (length ?q, At_tail)) = (i, c)"
    by fastforce
  have spec: "c = At_tail \<and> i = length ?q \<or>
    c = Grant_now \<and> LockCheckConflicts ?tab m t (t, ?p) s = STATUS_OK \<or>
    c = Put_before \<and> (LockCheckConflicts ?tab m t (t, ?p) s \<noteq> STATUS_OK \<or>
      (\<exists>q\<in>set (take i ?q). conflicts m (waitLockMode (allProcs s q)))) \<or>
    (\<exists>p. c = Early_deadlock p)"
  proof (cases "?held \<noteq> 0")
    case True
    then show ?thesis using ic sleep_scan_spec [of t s "(t, ?p)" m ?held 0 0 ?q i c ?q "[]"] by simp
  qed (use ic in simp)
  have s': "s' = (case c of Grant_now \<Rightarrow> GrantLock t (t, ?p) m s
      | Early_deadlock _ \<Rightarrow> RemoveFromWaitQueue ?p (enqueue t ?p m i s) | _ \<Rightarrow> enqueue t ?p m i s)"
    using P ic by (auto simp: ProcSleep_def Let_def split: SleepChoice.splits)
  have put: "table_ok (enqueue t ?p m i s)"
    if "LockCheckConflicts ?tab m t (t, ?p) s \<noteq> STATUS_OK \<or>
      (\<exists>q\<in>set (take i ?q). conflicts m (waitLockMode (allProcs s q)))"
    using table_enqueue [OF r n] that requesting_free [OF r, of t] by blast
  have early: "table_ok (RemoveFromWaitQueue ?p (enqueue t ?p m i s))"
  proof (rule table_RemoveFromWaitQueue)
    note e = requesting_enqueue [OF r n, of i]
    show "table_but t (enqueue t ?p m i s)" "lock_ok None (enqueue t ?p m i s) t" "exclusive (enqueue t ?p m i s) t"
      "waits_on (enqueue t ?p m i s) ?p t" using e by blast+
    show "tidy (enqueue t ?p m i s) t {?p}" using e(4) by (auto simp: tidy_def)
    show "valid_method t" using r by (simp add: requesting_def)
  qed
  have tail: "table_ok (enqueue t ?p m i s)" if "i = length ?q"
    using table_enqueue [OF r n, of i] busy that by simp
  from spec show ?thesis
  proof (elim disjE conjE exE)
    assume "c = At_tail" "i = length ?q"
    then show ?thesis using tail by (simp add: s')
  next
    assume "c = Grant_now" "LockCheckConflicts ?tab m t (t, ?p) s = STATUS_OK"
    then show ?thesis using table_GrantLock [OF r] requesting_free [OF r, of t] by (simp add: s')
  next
    assume "c = Put_before" "LockCheckConflicts ?tab m t (t, ?p) s \<noteq> STATUS_OK"
    then show ?thesis using put by (simp add: s')
  next
    assume "c = Put_before" "\<exists>q\<in>set (take i ?q). conflicts m (waitLockMode (allProcs s q))"
    then show ?thesis using put by (simp add: s')
  next
    fix p assume "c = Early_deadlock p"
    then show ?thesis using early by (simp add: s')
  qed
qed

text \<open>A request that is not to wait is taken back.\<close>

lemma table_refuse:
  assumes r: "requesting t p m s"
    and busy: "(\<exists>q. held_against s t p m q) \<or>
      (\<exists>q\<in>set (waitProcs (lock_at s t)). conflicts m (waitLockMode (allProcs s q)))"
  defines "s1 \<equiv> (if hold s t p = 0 then remove_proclock (t, p) s else s)"
  shows "table_ok (set_lock t (drop_request m (lock_at s1 t)) s1)"
proof -
  let ?s = "set_lock t (drop_request m (lock_at s1 t)) s1"
  have t: "table_but t s" and l: "LockMethodLockHash s t \<noteq> None" and ok: "lock_ok (Some m) s t"
    and ti: "tidy s t {p}" and ex: "exclusive s t" and w: "p \<notin> set (waitProcs (lock_at s t))"
    and v: "valid_mode m" "valid_method t" and wb: "waiters_blocked s t"
    using r by (simp_all add: requesting_def)
  have "tidy s t {}" if "hold s t p \<noteq> 0" using ti that by (auto simp: tidy_def)
  then have s1: "table_but t s1" "LockMethodLockHash s1 t \<noteq> None" "lock_ok (Some m) s1 t" "tidy s1 t {}" "exclusive s1 t"
      "waiters_blocked s1 t"
    using remove_proclock_step [OF t l ok ti ex w] t l ok ex wb unfolding s1_def by (cases "hold s t p = 0", simp_all)+
  have lists: "procLocks (lock_at ?s t) = procLocks (lock_at s1 t)" "waitProcs (lock_at ?s t) = waitProcs (lock_at s1 t)"
    by (simp_all add: drop_request_def)
  have hold: "hold ?s t = hold s1 t" by (simp add: hold_def fun_eq_iff)
  have "queues_ok ?s"
    by (rule queues_ok_frame [of s1]) (use s1(1,2) in \<open>auto simp: table_but_def drop_request_def split: if_splits\<close>)
  moreover have "only_at t s1 ?s" by (rule only_at_procs) simp_all
  ultimately have "table_but t ?s" by (intro table_but_only [OF s1(1)]) simp_all
  moreover have d: "lock_ok None ?s t" by (rule lock_ok_drop_request [OF s1(3) v(1)])
  moreover have "tidy ?s t {}" using s1(4) by (simp only: tidy_def hold lists)
  moreover have "holders ?s t k \<subseteq> holders s1 t k" for k by (simp only: holders_def hold lists)
  then have "exclusive ?s t" using exclusive_less [OF s1(5), of ?s] by simp
  moreover have "no_weaker s1 ?s t" unfolding no_weaker_def hold lists by simp
  then have "waiters_blocked ?s t" using s1(6) no_weaker_all_blocked [of s1 ?s t] lists by (simp add: waiters_blocked_def)
  moreover have "0 < nRequested (lock_at ?s t)"
  proof -
    have "waitProcs (lock_at s1 t) = waitProcs (lock_at s t)" by (simp add: s1_def)
    moreover have "q \<in> holders s1 t k" if "q \<in> holders s t k" "q \<noteq> p" for q k
      using that by (auto simp: s1_def holders_def hold_def)
    moreover have "held_against s t p m q \<Longrightarrow> q \<noteq> p" for q by (auto simp: held_against_def same_session_def)
    ultimately have "waitProcs (lock_at ?s t) \<noteq> [] \<or> (\<exists>q k. q \<in> holders ?s t k)"
      using busy unfolding held_against_def holders_def hold lists by fastforce
    then show ?thesis using nRequested_nonneg [OF d] nRequested_0(1,2) [OF d] by fastforce
  qed
  ultimately show ?thesis using v(2) by (simp add: table_ok_iff [of ?s t] lock_good_def)
qed

end
