(* ===== verification/DeadlockSearch.thy ===== *)
theory DeadlockSearch
  imports Deadlock
begin

text \<open>
  \<open>FindLockCycle\<close> is correct: it finds a cycle exactly when the process is on one in the
  waits-for graph, and reports the processes and the soft edges of that cycle.
\<close>

section \<open>The waits-for graph\<close>

definition hard_edge :: "LockMem \<Rightarrow> nat \<Rightarrow> nat \<Rightarrow> bool" where
  "hard_edge s p q \<longleftrightarrow> (\<exists>t. waits_on s p t \<and> q \<in> set (hard_blockers s t p))"

definition soft_edge :: "LockMem \<Rightarrow> WAIT_ORDER list \<Rightarrow> nat \<Rightarrow> nat \<Rightarrow> bool" where
  "soft_edge s orders p q \<longleftrightarrow> (\<exists>t. waits_on s p t \<and> q \<in> set (soft_blockers s orders t p))"

definition waits_for :: "LockMem \<Rightarrow> WAIT_ORDER list \<Rightarrow> (nat \<times> nat) set" where
  "waits_for s orders = {(p, q). hard_edge s p q \<or> soft_edge s orders p q}"

text \<open>
  A walk to \<open>a\<close> along waits-for edges: the processes on it and its soft edges, the last one
  first; an edge that is both hard and soft counts as hard.
\<close>

inductive walk :: "LockMem \<Rightarrow> WAIT_ORDER list \<Rightarrow> nat \<Rightarrow> nat \<Rightarrow> nat list \<Rightarrow> EDGE list \<Rightarrow> bool"
  for s orders a where
  walk_end: "walk s orders a a [] []"
| walk_hard: "hard_edge s p q \<Longrightarrow> walk s orders a q ps es \<Longrightarrow> walk s orders a p (p # ps) es"
| walk_soft: "soft_edge s orders p q \<Longrightarrow> \<not> hard_edge s p q \<Longrightarrow> walk s orders a q ps es \<Longrightarrow>
    walk s orders a p (p # ps) (es @ [\<lparr>waiter = p, blocker = q\<rparr>])"

lemma walk_reaches: "walk s orders a p ps es \<Longrightarrow> (p, a) \<in> (waits_for s orders)\<^sup>*"
  by (induction rule: walk.induct)
    (auto simp: waits_for_def intro: converse_rtrancl_into_rtrancl)

lemma walk_cycle: "walk s orders a p ps es \<Longrightarrow> ps \<noteq> [] \<Longrightarrow> (p, a) \<in> (waits_for s orders)\<^sup>+"
  by (induction rule: walk.induct)
    (auto simp: waits_for_def dest!: walk_reaches intro: rtrancl_into_trancl2)

lemma walk_soft_edges:
  "walk s orders a p ps es \<Longrightarrow> e \<in> set es \<Longrightarrow>
     soft_edge s orders (waiter e) (blocker e) \<and> \<not> hard_edge s (waiter e) (blocker e)"
  by (induction rule: walk.induct) auto

lemma walk_length: "walk s orders a p ps es \<Longrightarrow> length es \<le> length ps"
  by (induction rule: walk.induct) auto

section \<open>The depth-first search\<close>

text \<open>
  What a search may be started with: the processes visited so far lie in the closed set \<open>P\<close>,
  and the first of them is \<open>a\<close>.
\<close>

definition search_state :: "LockMem \<Rightarrow> nat \<Rightarrow> nat set \<Rightarrow> WAIT_ORDER list \<Rightarrow> nat \<Rightarrow> nat \<Rightarrow> DeadlockWork \<Rightarrow> bool" where
  "search_state s n P orders a depth w \<longleftrightarrow>
     visitedProcs w \<noteq> [] \<and> hd (visitedProcs w) = a \<and> set (visitedProcs w) \<subseteq> P \<and>
     distinct (visitedProcs w) \<and> depth \<le> length (visitedProcs w) \<and> waitOrders w = orders \<and>
     length (deadlockDetails w) = n"

text \<open>What a visit that found the way back to \<open>a\<close>, and one that did not, leave behind.\<close>

definition found_from :: "LockMem \<Rightarrow> nat \<Rightarrow> nat \<Rightarrow> nat \<Rightarrow> DeadlockWork \<Rightarrow> DeadlockWork \<Rightarrow> bool" where
  "found_from s a depth q w w' \<longleftrightarrow>
     (\<exists>ps es. walk s (waitOrders w) a q ps es \<and> softEdges w' = softEdges w @ es \<and>
        nDeadlockDetails w' = depth + length ps \<and> depth + length ps \<le> length (visitedProcs w') \<and>
        (\<forall>i < length ps. deadlockDetails w' ! (depth + i) = deadlock_info s (ps ! i))) \<and>
     (q \<in> set (visitedProcs w) \<longrightarrow> q = hd (visitedProcs w))"

definition closed_since :: "LockMem \<Rightarrow> nat \<Rightarrow> DeadlockWork \<Rightarrow> DeadlockWork \<Rightarrow> bool" where
  "closed_since s a w w' \<longleftrightarrow>
     softEdges w' = softEdges w \<and>
     (\<forall>x y. x \<in> set (visitedProcs w') - set (visitedProcs w) \<longrightarrow> (x, y) \<in> waits_for s (waitOrders w) \<longrightarrow>
        y \<in> set (visitedProcs w') \<and> y \<noteq> a)"

definition extends :: "DeadlockWork \<Rightarrow> DeadlockWork \<Rightarrow> bool" where
  "extends w w' \<longleftrightarrow> set (visitedProcs w) \<subseteq> set (visitedProcs w')"

definition visit_post ::
  "LockMem \<Rightarrow> nat \<Rightarrow> nat set \<Rightarrow> WAIT_ORDER list \<Rightarrow> nat \<Rightarrow> nat \<Rightarrow> nat \<Rightarrow> DeadlockWork \<Rightarrow>
   DeadlockError + bool \<times> DeadlockWork \<Rightarrow> bool" where
  "visit_post s n P orders a depth q w r \<longleftrightarrow>
     (\<exists>found w'. r = Inr (found, w') \<and> search_state s n P orders a depth w' \<and> extends w w' \<and>
        (if found then found_from s a depth q w w'
         else closed_since s a w w' \<and> q \<in> set (visitedProcs w') \<and> q \<noteq> a))"

definition scan_post ::
  "LockMem \<Rightarrow> nat \<Rightarrow> nat set \<Rightarrow> WAIT_ORDER list \<Rightarrow> nat \<Rightarrow> nat \<Rightarrow> nat list \<Rightarrow> DeadlockWork \<Rightarrow>
   DeadlockError + nat option \<times> DeadlockWork \<Rightarrow> bool" where
  "scan_post s n P orders a depth qs w r \<longleftrightarrow>
     (\<exists>found w'. r = Inr (found, w') \<and> search_state s n P orders a depth w' \<and> extends w w' \<and>
        (case found of
           Some q \<Rightarrow> q \<in> set qs \<and> found_from s a depth q w w'
         | None \<Rightarrow> closed_since s a w w' \<and> set qs \<subseteq> set (visitedProcs w') - {a}))"

lemma closed_since_trans:
  assumes "closed_since s a w w1" "closed_since s a (w1\<lparr>waitOrders := waitOrders w\<rparr>) w2"
    "set (visitedProcs w1) \<subseteq> set (visitedProcs w2)"
  shows "closed_since s a w w2"
  unfolding closed_since_def
proof (intro conjI allI impI)
  show "softEdges w2 = softEdges w" using assms(1,2) by (simp add: closed_since_def)
next
  fix x y
  assume x: "x \<in> set (visitedProcs w2) - set (visitedProcs w)"
    and e: "(x, y) \<in> waits_for s (waitOrders w)"
  show "y \<in> set (visitedProcs w2)"
    using assms x e unfolding closed_since_def by (cases "x \<in> set (visitedProcs w1)") auto
  show "y \<noteq> a"
    using assms x e unfolding closed_since_def by (cases "x \<in> set (visitedProcs w1)") auto
qed

lemma scan_blockers_post:
  assumes visit: "\<And>q w. q \<in> set qs \<Longrightarrow> search_state s n P orders a depth w \<Longrightarrow>
      visit_post s n P orders a depth q w (visit q w)"
    and after: "\<And>q w. visitedProcs (after q w) = visitedProcs w \<and> softEdges (after q w) = softEdges w \<and>
      waitOrders (after q w) = waitOrders w \<and> deadlockDetails (after q w) = deadlockDetails w"
  shows "search_state s n P orders a depth w \<Longrightarrow>
    scan_post s n P orders a depth qs w (scan_blockers visit after qs w)"
  using visit
proof (induction qs arbitrary: w)
  case Nil
  then show ?case by (simp add: scan_post_def extends_def closed_since_def)
next
  case (Cons q qs)
  have "visit_post s n P orders a depth q w (visit q w)" using Cons.prems by simp
  then obtain found w1 where v: "visit q w = Inr (found, w1)" "search_state s n P orders a depth w1"
      "extends w w1" and f: "if found then found_from s a depth q w w1
         else closed_since s a w w1 \<and> q \<in> set (visitedProcs w1) \<and> q \<noteq> a"
    by (auto simp: visit_post_def)
  show ?case
  proof (cases found)
    case True
    with v f show ?thesis by (auto simp: scan_post_def)
  next
    case False
    let ?w2 = "after q w1"
    have s2: "search_state s n P orders a depth ?w2" using v(2) after by (simp add: search_state_def)
    have "scan_post s n P orders a depth qs ?w2 (scan_blockers visit after qs ?w2)"
      using Cons.IH [OF s2] Cons.prems(2) by simp
    then obtain r w3 where r: "scan_blockers visit after qs ?w2 = Inr (r, w3)"
        "search_state s n P orders a depth w3" "extends ?w2 w3"
        "case r of Some q \<Rightarrow> q \<in> set qs \<and> found_from s a depth q ?w2 w3
         | None \<Rightarrow> closed_since s a ?w2 w3 \<and> set qs \<subseteq> set (visitedProcs w3) - {a}"
      by (auto simp: scan_post_def)
    have ext: "extends w w3" "set (visitedProcs w1) \<subseteq> set (visitedProcs w3)"
      using v(3) r(3) after by (auto simp: extends_def)
    have o: "waitOrders w1 = waitOrders w" "hd (visitedProcs w1) = hd (visitedProcs w)"
      using v(2) Cons.prems(1) by (simp_all add: search_state_def)
    have c: "closed_since s a w w1" "q \<in> set (visitedProcs w1)" "q \<noteq> a" using f False by simp_all
    have "case r of Some q' \<Rightarrow> q' \<in> set (q # qs) \<and> found_from s a depth q' w w3
         | None \<Rightarrow> closed_since s a w w3 \<and> set (q # qs) \<subseteq> set (visitedProcs w3) - {a}"
    proof (cases r)
      case None
      then have c3: "closed_since s a ?w2 w3" and qs: "set qs \<subseteq> set (visitedProcs w3) - {a}"
        using r(4) by simp_all
      have "closed_since s a w w3"
        by (rule closed_since_trans [OF c(1) _ ext(2)]) (use c3 after o in \<open>simp add: closed_since_def\<close>)
      then show ?thesis using None qs c(2,3) ext(2) by auto
    next
      case (Some q')
      then show ?thesis using r(4) c ext after o v(3)
        unfolding found_from_def closed_since_def extends_def by auto
    qed
    then show ?thesis using v(1) r(1,2) ext(1) False by (auto simp: scan_post_def)
  qed
qed

text \<open>The part of a visit after the process has been marked as seen.\<close>

definition explore ::
  "(nat \<Rightarrow> DeadlockWork \<Rightarrow> DeadlockError + bool \<times> DeadlockWork) \<Rightarrow> nat \<Rightarrow> LockMem \<Rightarrow> nat \<Rightarrow> nat \<Rightarrow>
   DeadlockWork \<Rightarrow> DeadlockError + bool \<times> DeadlockWork" where
  "explore visit me s depth p w1 =
     (if \<not> linked (allProcs s p) then Inr (False, w1)
      else case waitLock (allProcs s p) of
        None \<Rightarrow> Inr (False, w1)
      | Some t \<Rightarrow>
          bindE (scan_blockers visit (note_autovacuum s me p) (hard_blockers s t p) w1)
            (\<lambda>(hard, w2).
              if hard \<noteq> None then Inr (True, fill_details s depth p w2)
              else bindE (scan_blockers visit (\<lambda>_ w. w) (soft_blockers s (waitOrders w2) t p) w2)
                (\<lambda>(soft, w3).
                  case soft of
                    Some q \<Rightarrow> Inr (True, (fill_details s depth p w3)
                                \<lparr>softEdges := softEdges w3 @ [\<lparr>waiter = p, blocker = q\<rparr>]\<rparr>)
                  | None \<Rightarrow> Inr (False, w3))))"

lemma FindLockCycleRecurse_Suc:
  "FindLockCycleRecurse n me s (Suc fuel) depth p w =
     (if p \<in> set (visitedProcs w) then
        (if p = hd (visitedProcs w) then Inr (True, w\<lparr>nDeadlockDetails := depth\<rparr>)
         else Inr (False, w))
      else if n \<le> length (visitedProcs w) then Inl Overrun
      else explore (FindLockCycleRecurse n me s fuel (Suc depth)) me s depth p
             (w\<lparr>visitedProcs := visitedProcs w @ [p]\<rparr>))"
  by (simp add: explore_def Let_def)

declare FindLockCycleRecurse.simps(2) [simp del]

lemma note_autovacuum_simps [simp]:
  "visitedProcs (note_autovacuum s me p q w) = visitedProcs w"
  "softEdges (note_autovacuum s me p q w) = softEdges w"
  "waitOrders (note_autovacuum s me p q w) = waitOrders w"
  "deadlockDetails (note_autovacuum s me p q w) = deadlockDetails w"
  by (simp_all add: note_autovacuum_def)

lemma fill_details_simps [simp]:
  "visitedProcs (fill_details s d p w) = visitedProcs w"
  "softEdges (fill_details s d p w) = softEdges w"
  "waitOrders (fill_details s d p w) = waitOrders w"
  "nDeadlockDetails (fill_details s d p w) = nDeadlockDetails w"
  "length (deadlockDetails (fill_details s d p w)) = length (deadlockDetails w)"
  by (simp_all add: fill_details_def)

text \<open>Filling in the entry of this process on the way back from a successful visit.\<close>

lemma fill_details_nth:
  assumes "\<forall>i < length ps. deadlockDetails w ! (Suc d + i) = deadlock_info s (ps ! i)"
    "d < length (deadlockDetails w)" "i < Suc (length ps)"
  shows "deadlockDetails (fill_details s d p w) ! (d + i) = deadlock_info s ((p # ps) ! i)"
  using assms by (cases i) (auto simp: fill_details_def)

definition explore_post ::
  "LockMem \<Rightarrow> nat \<Rightarrow> nat set \<Rightarrow> WAIT_ORDER list \<Rightarrow> nat \<Rightarrow> nat \<Rightarrow> nat \<Rightarrow> DeadlockWork \<Rightarrow>
   DeadlockError + bool \<times> DeadlockWork \<Rightarrow> bool" where
  "explore_post s n P orders a depth p w r \<longleftrightarrow>
     (\<exists>found w'. r = Inr (found, w') \<and> search_state s n P orders a depth w' \<and> extends w w' \<and>
        (if found then
           (\<exists>ps es. walk s orders a p (p # ps) es \<and> softEdges w' = softEdges w @ es \<and>
              nDeadlockDetails w' = depth + length (p # ps) \<and>
              depth + length (p # ps) \<le> length (visitedProcs w') \<and>
              (\<forall>i < length (p # ps). deadlockDetails w' ! (depth + i) = deadlock_info s ((p # ps) ! i)))
         else closed_since s a w w' \<and>
           (\<forall>y. (p, y) \<in> waits_for s orders \<longrightarrow> y \<in> set (visitedProcs w') \<and> y \<noteq> a)))"

text \<open>A successful scan, hard or soft, extends the walk by this process.\<close>

lemma explore_found:
  assumes st: "search_state s n P orders a (Suc depth) w1" "search_state s n P orders a (Suc depth) w2"
    and ext: "extends w1 w2" and len: "length (visitedProcs w2) \<le> n"
    and f: "found_from s a (Suc depth) q w w2" "waitOrders w = orders" "softEdges w = softEdges w1"
    and step: "\<And>ps es. walk s orders a q ps es \<Longrightarrow> walk s orders a p (p # ps) (es @ extra)"
  shows "explore_post s n P orders a depth p w1
    (Inr (True, (fill_details s depth p w2)\<lparr>softEdges := softEdges w2 @ extra\<rparr>))"
proof -
  from f(1) obtain ps es where w: "walk s (waitOrders w) a q ps es" "softEdges w2 = softEdges w @ es"
      "nDeadlockDetails w2 = Suc depth + length ps" "Suc depth + length ps \<le> length (visitedProcs w2)"
      "\<forall>i < length ps. deadlockDetails w2 ! (Suc depth + i) = deadlock_info s (ps ! i)"
    by (auto simp: found_from_def)
  have d: "depth < length (deadlockDetails w2)" using st(2) w(4) len by (simp add: search_state_def)
  have "walk s orders a p (p # ps) (es @ extra)" using step w(1) f(2) by simp
  moreover have "\<forall>i < length (p # ps). deadlockDetails (fill_details s depth p w2) ! (depth + i) =
      deadlock_info s ((p # ps) ! i)"
    using fill_details_nth [OF w(5) d, of _ p] by auto
  moreover have "search_state s n P orders a depth
      ((fill_details s depth p w2)\<lparr>softEdges := softEdges w2 @ extra\<rparr>)"
    using st(2) by (simp add: search_state_def)
  ultimately show ?thesis
    unfolding explore_post_def using w(2-4) f(3) ext
    by (intro exI [of _ True]
        exI [of _ "(fill_details s depth p w2)\<lparr>softEdges := softEdges w2 @ extra\<rparr>"])
      (auto simp: extends_def intro!: exI [of _ ps] exI [of _ "es @ extra"])
qed

lemma explore_post:
  assumes P: "finite P" "card P \<le> n" and closed: "waits_for s orders `` P \<subseteq> P"
    and visit: "\<And>q w. q \<in> P \<Longrightarrow> search_state s n P orders a (Suc depth) w \<Longrightarrow>
      visit_post s n P orders a (Suc depth) q w (visit q w)"
    and st: "search_state s n P orders a (Suc depth) w1" and p: "p \<in> P"
  shows "explore_post s n P orders a depth p w1 (explore visit me s depth p w1)"
proof (cases "\<exists>t. waits_on s p t")
  case False
  then have "explore visit me s depth p w1 = Inr (False, w1)" "\<And>y. (p, y) \<notin> waits_for s orders"
    by (auto simp: explore_def waits_on_def waits_for_def hard_edge_def soft_edge_def
        split: option.splits)
  with st show ?thesis
    by (auto simp: explore_post_def extends_def closed_since_def search_state_def)
next
  case True
  then obtain t where t: "waits_on s p t" by blast
  then have lt: "linked (allProcs s p)" "waitLock (allProcs s p) = Some t" by (auto simp: waits_on_def)
  let ?H = "hard_blockers s t p" and ?S = "soft_blockers s orders t p"
  have H: "hard_edge s p q \<longleftrightarrow> q \<in> set ?H" for q using t by (auto simp: hard_edge_def waits_on_def)
  have S: "soft_edge s orders p q \<longleftrightarrow> q \<in> set ?S" for q using t by (auto simp: soft_edge_def waits_on_def)
  have inP: "q \<in> P" if "q \<in> set ?H \<union> set ?S" for q
    using closed p that H S by (auto simp: waits_for_def Image_def)
  have len: "length (visitedProcs w) \<le> n" if "search_state s n P orders a d w" for w d
    using that P card_mono [of P "set (visitedProcs w)"]
    by (auto simp: search_state_def distinct_card [symmetric])
  have "scan_post s n P orders a (Suc depth) ?H w1 (scan_blockers visit (note_autovacuum s me p) ?H w1)"
    by (rule scan_blockers_post) (use visit inP st in auto)
  then obtain h w2 where h: "scan_blockers visit (note_autovacuum s me p) ?H w1 = Inr (h, w2)"
      "search_state s n P orders a (Suc depth) w2" "extends w1 w2"
      "case h of Some q \<Rightarrow> q \<in> set ?H \<and> found_from s a (Suc depth) q w1 w2
         | None \<Rightarrow> closed_since s a w1 w2 \<and> set ?H \<subseteq> set (visitedProcs w2) - {a}"
    by (auto simp: scan_post_def)
  have o: "waitOrders w1 = orders" "waitOrders w2 = orders" using st h(2) by (auto simp: search_state_def)
  show ?thesis
  proof (cases h)
    case (Some q)
    have "explore visit me s depth p w1 =
        Inr (True, (fill_details s depth p w2)\<lparr>softEdges := softEdges w2 @ []\<rparr>)"
      using h(1) Some lt by (simp add: explore_def fill_details_def)
    moreover have "explore_post s n P orders a depth p w1
        (Inr (True, (fill_details s depth p w2)\<lparr>softEdges := softEdges w2 @ []\<rparr>))"
      by (rule explore_found [of _ _ _ _ _ _ _ _ q w1])
        (use st h len Some o H in \<open>auto intro: walk_hard\<close>)
    ultimately show ?thesis by simp
  next
    case None
    have "scan_post s n P orders a (Suc depth) ?S w2 (scan_blockers visit (\<lambda>_ w. w) ?S w2)"
      by (rule scan_blockers_post) (use visit inP h(2) in auto)
    then obtain f w3 where f: "scan_blockers visit (\<lambda>_ w. w) ?S w2 = Inr (f, w3)"
        "search_state s n P orders a (Suc depth) w3" "extends w2 w3"
        "case f of Some q \<Rightarrow> q \<in> set ?S \<and> found_from s a (Suc depth) q w2 w3
           | None \<Rightarrow> closed_since s a w2 w3 \<and> set ?S \<subseteq> set (visitedProcs w3) - {a}"
      by (auto simp: scan_post_def)
    have cl: "closed_since s a w1 w2" "set ?H \<subseteq> set (visitedProcs w2) - {a}" using h(4) None by simp_all
    have ext: "extends w1 w3" using h(3) f(3) by (auto simp: extends_def)
    show ?thesis
    proof (cases f)
      case (Some q)
      have "q \<notin> set ?H"
        using f(4) Some cl(2) h(2) by (auto simp: found_from_def search_state_def)
      moreover have "explore visit me s depth p w1 =
          Inr (True, (fill_details s depth p w3)\<lparr>softEdges := softEdges w3 @ [\<lparr>waiter = p, blocker = q\<rparr>]\<rparr>)"
        using h(1) None f(1) Some lt o by (simp add: explore_def)
      moreover have "softEdges w2 = softEdges w1" using cl(1) by (simp add: closed_since_def)
      ultimately show ?thesis
        using explore_found [OF st f(2) ext len [OF f(2)], of q w2 p "[\<lparr>waiter = p, blocker = q\<rparr>]"]
          f(4) Some o H S by (auto intro: walk_soft)
    next
      case None2: None
      have "explore visit me s depth p w1 = Inr (False, w3)"
        using h(1) None f(1) None2 lt o by (simp add: explore_def)
      moreover have "closed_since s a w1 w3"
        by (rule closed_since_trans [OF cl(1)]) (use f(3,4) None2 o in \<open>auto simp: closed_since_def extends_def\<close>)
      moreover have "y \<in> set (visitedProcs w3) \<and> y \<noteq> a" if "(p, y) \<in> waits_for s orders" for y
        using that cl(2) f(3,4) None2 H S by (auto simp: waits_for_def extends_def)
      moreover have "search_state s n P orders a depth w3" using f(2) by (simp add: search_state_def)
      ultimately show ?thesis using ext by (auto simp: explore_post_def)
    qed
  qed
qed

text \<open>A visit to a process other than the first.\<close>

lemma FindLockCycleRecurse_post:
  assumes P: "finite P" "card P \<le> n"
    and closed: "waits_for s orders `` P \<subseteq> P"
  shows "p \<in> P \<Longrightarrow> search_state s n P orders a depth w \<Longrightarrow> n < fuel + depth \<Longrightarrow>
    visit_post s n P orders a depth p w (FindLockCycleRecurse n me s fuel depth p w)"
proof (induction fuel arbitrary: depth p w)
  case 0
  then show ?case using P card_mono [of P "set (visitedProcs w)"]
    by (auto simp: search_state_def distinct_card [symmetric])
next
  case (Suc fuel)
  let ?w1 = "w\<lparr>visitedProcs := visitedProcs w @ [p]\<rparr>"
  show ?case
  proof (cases "p \<in> set (visitedProcs w)")
    case True
    then show ?thesis using Suc.prems
      by (auto simp: FindLockCycleRecurse_Suc visit_post_def search_state_def extends_def
          found_from_def closed_since_def intro!: exI [of _ "[]"] walk_end)
  next
    case False
    have "card (insert p (set (visitedProcs w))) \<le> card P"
      using P Suc.prems by (intro card_mono) (auto simp: search_state_def)
    then have l: "length (visitedProcs w) < n"
      using P False Suc.prems(2) by (simp add: search_state_def distinct_card)
    have pa: "p \<noteq> a" using False Suc.prems(2) by (auto simp: search_state_def)
    have st: "search_state s n P orders a (Suc depth) ?w1"
      using Suc.prems False by (auto simp: search_state_def)
    have "explore_post s n P orders a depth p ?w1
        (explore (FindLockCycleRecurse n me s fuel (Suc depth)) me s depth p ?w1)"
      by (rule explore_post [OF P closed _ st Suc.prems(1)]) (use Suc in auto)
    then obtain found w' where e: "explore (FindLockCycleRecurse n me s fuel (Suc depth)) me s depth p ?w1 =
        Inr (found, w')" "search_state s n P orders a depth w'" "extends ?w1 w'"
        "if found then
           (\<exists>ps es. walk s orders a p (p # ps) es \<and> softEdges w' = softEdges ?w1 @ es \<and>
              nDeadlockDetails w' = depth + length (p # ps) \<and>
              depth + length (p # ps) \<le> length (visitedProcs w') \<and>
              (\<forall>i < length (p # ps). deadlockDetails w' ! (depth + i) = deadlock_info s ((p # ps) ! i)))
         else closed_since s a ?w1 w' \<and>
           (\<forall>y. (p, y) \<in> waits_for s orders \<longrightarrow> y \<in> set (visitedProcs w') \<and> y \<noteq> a)"
      unfolding explore_post_def by blast
    have r: "FindLockCycleRecurse n me s (Suc fuel) depth p w = Inr (found, w')"
      using False l e(1) by (simp add: FindLockCycleRecurse_Suc)
    have o: "waitOrders w = orders" using Suc.prems by (simp add: search_state_def)
    have "if found then found_from s a depth p w w'
         else closed_since s a w w' \<and> p \<in> set (visitedProcs w') \<and> p \<noteq> a"
    proof (cases found)
      case True
      then obtain ps es where "walk s orders a p (p # ps) es" "softEdges w' = softEdges w @ es"
          "nDeadlockDetails w' = depth + length (p # ps)"
          "depth + length (p # ps) \<le> length (visitedProcs w')"
          "\<forall>i < length (p # ps). deadlockDetails w' ! (depth + i) = deadlock_info s ((p # ps) ! i)"
        using e(4) by auto
      then show ?thesis unfolding found_from_def using True False o
        by (intro iffD2 [OF if_P] conjI exI [of _ "p # ps"] exI [of _ es]) auto
    next
      case nf: False
      have "closed_since s a w w'" unfolding closed_since_def
      proof (intro conjI allI impI)
        show "softEdges w' = softEdges w" using e(4) nf by (simp add: closed_since_def)
        fix x y
        assume "x \<in> set (visitedProcs w') - set (visitedProcs w)" "(x, y) \<in> waits_for s (waitOrders w)"
        then have "x = p \<and> (p, y) \<in> waits_for s orders \<or>
            x \<in> set (visitedProcs w') - set (visitedProcs ?w1) \<and> (x, y) \<in> waits_for s (waitOrders ?w1)"
          using o by auto
        then have "y \<in> set (visitedProcs w') \<and> y \<noteq> a"
          using e(4) nf unfolding closed_since_def by metis
        then show "y \<in> set (visitedProcs w')" "y \<noteq> a" by simp_all
      qed
      then show ?thesis using e(3) pa nf by (simp add: extends_def)
    qed
    then show ?thesis using r e(2,3) by (auto simp: visit_post_def extends_def)
  qed
qed

text \<open>
  What \<open>FindLockCycle\<close> computes in a waits-for graph whose processes fit in \<open>visitedProcs\<close>.
\<close>

theorem FindLockCycle_spec:
  assumes P: "finite P" "card P \<le> n" "p \<in> P"
    and closed: "waits_for s (waitOrders w) `` P \<subseteq> P"
    and len: "length (deadlockDetails w) = n"
  obtains w' where "FindLockCycle n me s p w = Inr ((p, p) \<in> (waits_for s (waitOrders w))\<^sup>+, w')"
    "waitOrders w' = waitOrders w" "length (deadlockDetails w') = n"
    "(p, p) \<in> (waits_for s (waitOrders w))\<^sup>+ \<Longrightarrow>
       \<exists>ps. walk s (waitOrders w) p p (p # ps) (softEdges w') \<and>
         nDeadlockDetails w' = length (p # ps) \<and> length (p # ps) \<le> n \<and>
         (\<forall>i < length (p # ps). deadlockDetails w' ! i = deadlock_info s ((p # ps) ! i))"
proof -
  let ?o = "waitOrders w" and ?w0 = "w\<lparr>visitedProcs := [], nDeadlockDetails := 0, softEdges := []\<rparr>"
  let ?w1 = "?w0\<lparr>visitedProcs := [p]\<rparr>"
  have n: "0 < n" using P by (metis card_gt_0_iff empty_iff less_le_trans)
  have st: "search_state s n P ?o p (Suc 0) ?w1" using P(3) len by (simp add: search_state_def)
  have "explore_post s n P ?o p 0 p ?w1 (explore (FindLockCycleRecurse n me s n (Suc 0)) me s 0 p ?w1)"
    by (rule explore_post [OF P(1,2) closed _ st P(3)])
      (auto intro: FindLockCycleRecurse_post [OF P(1,2) closed])
  moreover have "FindLockCycle n me s p w = explore (FindLockCycleRecurse n me s n (Suc 0)) me s 0 p ?w1"
    using n by (simp add: FindLockCycle_def FindLockCycleRecurse_Suc)
  ultimately obtain found w' where r: "FindLockCycle n me s p w = Inr (found, w')"
      "search_state s n P ?o p 0 w'" "set (visitedProcs ?w1) \<subseteq> set (visitedProcs w')"
    and f: "if found then
           (\<exists>ps es. walk s ?o p p (p # ps) es \<and> softEdges w' = softEdges ?w1 @ es \<and>
              nDeadlockDetails w' = 0 + length (p # ps) \<and>
              0 + length (p # ps) \<le> length (visitedProcs w') \<and>
              (\<forall>i < length (p # ps). deadlockDetails w' ! (0 + i) = deadlock_info s ((p # ps) ! i)))
         else closed_since s p ?w1 w' \<and>
           (\<forall>y. (p, y) \<in> waits_for s ?o \<longrightarrow> y \<in> set (visitedProcs w') \<and> y \<noteq> p)"
    unfolding explore_post_def extends_def by auto
  have len': "length (visitedProcs w') \<le> n"
    using r(2) P card_mono [of P "set (visitedProcs w')"]
    by (auto simp: search_state_def distinct_card [symmetric])
  have iff: "found \<longleftrightarrow> (p, p) \<in> (waits_for s ?o)\<^sup>+"
  proof (cases found)
    case True
    then show ?thesis using f walk_cycle by fastforce
  next
    case False
    then have c: "closed_since s p ?w1 w'"
      and e: "(p, y) \<in> waits_for s ?o \<Longrightarrow> y \<in> set (visitedProcs w') \<and> y \<noteq> p" for y
      using f by simp_all
    have step: "y \<in> set (visitedProcs w') \<and> y \<noteq> p"
      if "x \<in> set (visitedProcs w')" "(x, y) \<in> waits_for s ?o" for x y
      using that e c [unfolded closed_since_def, THEN conjunct2, rule_format, of x y]
      by (cases "x = p") simp_all
    have "y \<in> set (visitedProcs w') \<and> y \<noteq> p" if "(p, y) \<in> (waits_for s ?o)\<^sup>+" for y
      using that by (induction rule: trancl_induct) (use step r(3) in auto)
    then show ?thesis using False by auto
  qed
  show thesis
  proof (rule that)
    show "FindLockCycle n me s p w = Inr ((p, p) \<in> (waits_for s ?o)\<^sup>+, w')" using r(1) iff by simp
    show "waitOrders w' = ?o" "length (deadlockDetails w') = n" using r(2) by (simp_all add: search_state_def)
    show "\<exists>ps. walk s ?o p p (p # ps) (softEdges w') \<and>
         nDeadlockDetails w' = length (p # ps) \<and> length (p # ps) \<le> n \<and>
         (\<forall>i < length (p # ps). deadlockDetails w' ! i = deadlock_info s ((p # ps) ! i))"
      if "(p, p) \<in> (waits_for s ?o)\<^sup>+"
    proof -
      from that iff obtain ps es where "walk s ?o p p (p # ps) es" "softEdges w' = es"
          "nDeadlockDetails w' = length (p # ps)" "length (p # ps) \<le> length (visitedProcs w')"
          "\<forall>i < length (p # ps). deadlockDetails w' ! i = deadlock_info s ((p # ps) ! i)"
        using f by auto
      then show ?thesis using len' by (intro exI [of _ ps]) auto
    qed
  qed
qed

end
