(* ===== verification/DeadlockConfig.thy ===== *)
theory DeadlockConfig
  imports DeadlockSearch DeadlockTopo
begin

text \<open>
  The search for a rearrangement of the wait queues: expanding constraints into queue orders,
  testing the configuration they give, and the recursion over the soft edges of the cycles that
  are found.
\<close>

section \<open>The result of a search does not depend on what the work space held before\<close>

definition same_search :: "DeadlockWork \<Rightarrow> DeadlockWork \<Rightarrow> bool" where
  "same_search w w' \<longleftrightarrow> visitedProcs w = visitedProcs w' \<and> waitOrders w = waitOrders w' \<and>
     softEdges w = softEdges w'"

abbreviation same_result ::
  "DeadlockError + 'a \<times> DeadlockWork \<Rightarrow> DeadlockError + 'a \<times> DeadlockWork \<Rightarrow> bool" where
  "same_result \<equiv> rel_sum (=) (rel_prod (=) same_search)"

lemma rel_sum_bindE:
  "rel_sum (=) R r r' \<Longrightarrow> (\<And>x y. R x y \<Longrightarrow> rel_sum (=) S (f x) (g y)) \<Longrightarrow>
     rel_sum (=) S (bindE r f) (bindE r' g)"
  by (cases r; cases r') auto

lemma scan_blockers_same:
  assumes "\<And>q w w'. same_search w w' \<Longrightarrow> same_result (visit q w) (visit q w')"
    and "\<And>q w w'. same_search w w' \<Longrightarrow> same_search (after q w) (after q w')"
  shows "same_search w w' \<Longrightarrow> same_result (scan_blockers visit after qs w) (scan_blockers visit after qs w')"
proof (induction qs arbitrary: w w')
  case (Cons q qs)
  have "same_result (visit q w) (visit q w')" using assms(1) Cons.prems by blast
  then show ?case
    by (auto intro!: rel_sum_bindE [where R = "rel_prod (=) same_search"] Cons.IH assms(2))
qed simp

lemma same_search_fill: "same_search w w' \<Longrightarrow> same_search (fill_details s d p w) (fill_details s d p w')"
  by (simp add: same_search_def)

lemma same_search_note: "same_search w w' \<Longrightarrow> same_search (note_autovacuum s me p q w) (note_autovacuum s me p q w')"
  by (simp add: same_search_def)

lemma explore_same:
  assumes visit: "\<And>q w w'. same_search w w' \<Longrightarrow> same_result (visit q w) (visit q w')"
    and w: "same_search w w'"
  shows "same_result (explore visit me s depth p w) (explore visit me s depth p w')"
proof (cases "linked (allProcs s p)")
  case True
  show ?thesis
  proof (cases "waitLock (allProcs s p)")
    case (Some t)
    let ?soft = "\<lambda>w2. bindE (scan_blockers visit (\<lambda>_ w. w) (soft_blockers s (waitOrders w2) t p) w2)
      (\<lambda>(soft, w3). case soft of
          Some q \<Rightarrow> Inr (True, (fill_details s depth p w3)
                      \<lparr>softEdges := softEdges w3 @ [\<lparr>waiter = p, blocker = q\<rparr>]\<rparr>)
        | None \<Rightarrow> Inr (False, w3))"
    have soft: "same_result (?soft w2) (?soft w2')" if "same_search w2 w2'" for w2 w2'
    proof -
      have "waitOrders w2' = waitOrders w2" using that by (simp add: same_search_def)
      moreover have "same_result (scan_blockers visit (\<lambda>_ w. w) qs w2) (scan_blockers visit (\<lambda>_ w. w) qs w2')" for qs
        by (rule scan_blockers_same) (use visit that in auto)
      ultimately show ?thesis
        by (auto intro!: rel_sum_bindE [where R = "rel_prod (=) same_search"] split: option.splits
            simp: same_search_def)
    qed
    have "same_result (scan_blockers visit (note_autovacuum s me p) (hard_blockers s t p) w)
        (scan_blockers visit (note_autovacuum s me p) (hard_blockers s t p) w')"
      by (rule scan_blockers_same) (use visit w in \<open>auto intro: same_search_note\<close>)
    then show ?thesis
      using True Some
      by (auto simp: explore_def intro!: rel_sum_bindE [where R = "rel_prod (=) same_search"] same_search_fill soft)
  qed (use True w in \<open>simp add: explore_def\<close>)
qed (use w in \<open>simp add: explore_def\<close>)

lemma FindLockCycleRecurse_same:
  "same_search w w' \<Longrightarrow>
     same_result (FindLockCycleRecurse n me s fuel depth p w) (FindLockCycleRecurse n me s fuel depth p w')"
proof (induction fuel arbitrary: depth p w w')
  case (Suc fuel)
  have e: "same_result (explore (FindLockCycleRecurse n me s fuel (Suc depth)) me s depth p
        (w\<lparr>visitedProcs := visitedProcs w @ [p]\<rparr>))
      (explore (FindLockCycleRecurse n me s fuel (Suc depth)) me s depth p
        (w'\<lparr>visitedProcs := visitedProcs w' @ [p]\<rparr>))"
    by (rule explore_same) (rule Suc.IH, assumption, use Suc.prems in \<open>simp add: same_search_def\<close>)
  have v: "visitedProcs w' = visitedProcs w" using Suc.prems by (simp add: same_search_def)
  have d: "same_search (w\<lparr>nDeadlockDetails := depth\<rparr>) (w'\<lparr>nDeadlockDetails := depth\<rparr>)"
    using Suc.prems by (simp add: same_search_def)
  show ?case
    using e d Suc.prems unfolding FindLockCycleRecurse_Suc v by simp
qed simp

lemma FindLockCycle_same:
  "waitOrders w = waitOrders w' \<Longrightarrow> same_result (FindLockCycle n me s p w) (FindLockCycle n me s p w')"
  unfolding FindLockCycle_def by (rule FindLockCycleRecurse_same) (simp add: same_search_def)

lemma test_procs_same:
  "waitOrders w = waitOrders w' \<Longrightarrow>
     rel_sum (=) (rel_prod (=) (\<lambda>_ _. True)) (test_procs n me s ps soft w) (test_procs n me s ps soft w')"
proof (induction ps arbitrary: w w' soft)
  case (Cons p ps)
  show ?case
    using FindLockCycle_same [OF Cons.prems]
    by (auto intro!: rel_sum_bindE [where R = "rel_prod (=) same_search"] Cons.IH simp: same_search_def)
qed simp

lemma TestConfiguration_same:
  "rel_sum (=) (rel_prod (=) (\<lambda>_ _. True)) (TestConfiguration n me s p cs k w) (TestConfiguration n me s p cs k w')"
  unfolding TestConfiguration_def ExpandConstraints_def
  by (cases "expand_from n s cs (length cs) []") (auto intro!: test_procs_same)

section \<open>Expanding constraints\<close>

text \<open>The processes a search can meet; the work arrays are large enough when they fit.\<close>

definition waiters :: "LockMem \<Rightarrow> nat set" where
  "waiters s = {p. \<exists>t. waits_on s p t}"

definition participants :: "LockMem \<Rightarrow> nat set" where
  "participants s = waiters s \<union> {q. \<exists>p t. waits_on s p t \<and> q \<in> set (procLocks (lock_at s t))}"

definition fits :: "nat \<Rightarrow> LockMem \<Rightarrow> bool" where
  "fits n s \<longleftrightarrow> finite (participants s) \<and> card (participants s) \<le> n"

definition valid_orders :: "LockMem \<Rightarrow> WAIT_ORDER list \<Rightarrow> bool" where
  "valid_orders s orders \<longleftrightarrow> distinct (map fst orders) \<and>
     (\<forall>(t, ord) \<in> set orders. LockMethodLockHash s t \<noteq> None \<and> distinct ord \<and>
        set ord = set (waitProcs (lock_at s t)))"

definition valid_edge :: "LockMem \<Rightarrow> EDGE \<Rightarrow> bool" where
  "valid_edge s e \<longleftrightarrow> waiter e \<noteq> blocker e \<and> (\<exists>t. waits_on s (waiter e) t \<and> waits_on s (blocker e) t)"

lemma waits_on_fun: "waits_on s p t \<Longrightarrow> waits_on s p u \<Longrightarrow> t = u"
  by (simp add: waits_on_def)

lemma queue_order_set:
  assumes "queues_ok s" "valid_orders s orders" "LockMethodLockHash s t \<noteq> None"
  shows "set (queue_order s orders t) = set (waitProcs (lock_at s t))" "distinct (queue_order s orders t)"
  using assms queues_okD(5) [OF assms(1,3)]
  by (auto simp: queue_order_def valid_orders_def split: option.splits dest!: map_of_SomeD)

lemma queue_order_mem:
  assumes "valid_orders s orders" "(t, ord) \<in> set orders"
  shows "queue_order s orders t = ord"
  using assms by (simp add: queue_order_def valid_orders_def)

lemma queue_order_nil [simp]: "queue_order s [] t = waitProcs (lock_at s t)"
  by (simp add: queue_order_def)

lemma soft_edge_iff:
  assumes "queues_ok s" "valid_orders s orders"
  shows "soft_edge s orders p q \<longleftrightarrow> (\<exists>t. waits_on s p t \<and> before_in (queue_order s orders t) q p \<and>
     push_bit (waitLockMode (allProcs s q)) 1 AND LockConflicts ! waitLockMode (allProcs s p) \<noteq> 0)"
proof -
  have "p \<in> set (queue_order s orders t)" if "waits_on s p t" for t
    using that queue_order_set(1) [OF assms] queues_okD(1,6) [OF assms(1)] by blast
  then show ?thesis
    by (auto simp: soft_edge_def soft_blockers_def before_in_def)
qed

lemma soft_edge_valid:
  assumes "queues_ok s" "valid_orders s orders" "soft_edge s orders p q"
  shows "valid_edge s \<lparr>waiter = p, blocker = q\<rparr>"
proof -
  obtain t where t: "waits_on s p t" "before_in (queue_order s orders t) q p"
    using assms(3) soft_edge_iff [OF assms(1,2)] by blast
  then have h: "LockMethodLockHash s t \<noteq> None" using queues_okD(6) [OF assms(1)] by blast
  have "q \<in> set (waitProcs (lock_at s t))"
    using before_in_set [OF t(2)] queue_order_set(1) [OF assms(1,2) h] by simp
  then have "waits_on s q t" using queues_okD(4) [OF assms(1) h] by blast
  then show ?thesis using t by (auto simp: valid_edge_def)
qed

lemma waits_for_participants:
  assumes "queues_ok s" "valid_orders s orders"
  shows "waits_for s orders `` participants s \<subseteq> participants s"
proof
  fix y assume "y \<in> waits_for s orders `` participants s"
  then obtain x where "hard_edge s x y \<or> soft_edge s orders x y" by (auto simp: waits_for_def)
  then show "y \<in> participants s"
  proof
    assume "hard_edge s x y"
    then show ?thesis by (auto simp: hard_edge_def participants_def hard_blockers_def)
  next
    assume "soft_edge s orders x y"
    then show ?thesis
      using soft_edge_valid [OF assms] by (fastforce simp: valid_edge_def participants_def waiters_def)
  qed
qed

lemma fits_waiters:
  assumes "fits n s"
  shows "finite (waiters s)" "card (waiters s) \<le> n"
  using assms card_mono [of "participants s" "waiters s"]
  by (auto simp: fits_def participants_def)

text \<open>The tag of the lock a constraint is about.\<close>

definition edge_lock :: "LockMem \<Rightarrow> EDGE \<Rightarrow> LOCKTAG" where
  "edge_lock s e = the (waitLock (allProcs s (waiter e)))"

lemma valid_edge_lock:
  assumes "valid_edge s e" "queues_ok s"
  shows "waits_on s (waiter e) (edge_lock s e)" "waits_on s (blocker e) (edge_lock s e)"
    "LockMethodLockHash s (edge_lock s e) \<noteq> None"
proof -
  obtain t where t: "waits_on s (waiter e) t" "waits_on s (blocker e) t"
    using assms(1) by (auto simp: valid_edge_def)
  moreover have "edge_lock s e = t" using t(1) by (simp add: edge_lock_def waits_on_def)
  ultimately show "waits_on s (waiter e) (edge_lock s e)" "waits_on s (blocker e) (edge_lock s e)"
      "LockMethodLockHash s (edge_lock s e) \<noteq> None"
    using queues_okD(6) [OF assms(2)] by auto
qed

lemma constraints_on_members:
  assumes "\<forall>e\<in>set cs. valid_edge s e" "queues_ok s"
  shows "\<forall>e\<in>set (constraints_on s t cs). edge_lock s e = t \<and>
    waiter e \<in> set (waitProcs (lock_at s t)) \<and> blocker e \<in> set (waitProcs (lock_at s t))"
proof
  fix e assume e: "e \<in> set (constraints_on s t cs)"
  then have "valid_edge s e" "edge_lock s e = t"
    using assms(1) by (auto simp: constraints_on_def edge_lock_def)
  then show "edge_lock s e = t \<and> waiter e \<in> set (waitProcs (lock_at s t)) \<and> blocker e \<in> set (waitProcs (lock_at s t))"
    using valid_edge_lock [OF _ assms(2)] queues_okD(1) [OF assms(2)] by auto
qed

lemma valid_edge_two:
  assumes "valid_edge s e" "queues_ok s"
  shows "2 \<le> length (waitProcs (lock_at s (edge_lock s e)))"
proof -
  have "{waiter e, blocker e} \<subseteq> set (waitProcs (lock_at s (edge_lock s e)))"
    using valid_edge_lock [OF assms] queues_okD(1) [OF assms(2)] by auto
  then have "card {waiter e, blocker e} \<le> card (set (waitProcs (lock_at s (edge_lock s e))))"
    by (intro card_mono) auto
  then show ?thesis
    using assms(1) card_length [of "waitProcs (lock_at s (edge_lock s e))"] by (auto simp: valid_edge_def)
qed

text \<open>The orders proposed for different locks have different waiters.\<close>

lemma orders_total:
  assumes q: "queues_ok s" and fin: "finite (waiters s)"
  shows "valid_orders s orders \<Longrightarrow> sum_list (map (length \<circ> snd) orders) \<le> card (waiters s)"
proof -
  assume v: "valid_orders s orders"
  have "distinct (concat (map snd orders)) \<and> set (concat (map snd orders)) =
      (\<Union>t\<in>set (map fst orders). set (waitProcs (lock_at s t)))"
    using v
  proof (induction orders)
    case (Cons x orders)
    obtain t ord where x: "x = (t, ord)" by (cases x)
    have v': "valid_orders s orders" using Cons.prems by (simp add: valid_orders_def)
    have t: "LockMethodLockHash s t \<noteq> None" "distinct ord" "set ord = set (waitProcs (lock_at s t))"
        "t \<notin> set (map fst orders)" using Cons.prems x by (auto simp: valid_orders_def)
    have "set (waitProcs (lock_at s t)) \<inter> set (waitProcs (lock_at s u)) = {}"
      if "u \<in> set (map fst orders)" for u
    proof -
      have "LockMethodLockHash s u \<noteq> None" using v' that by (auto simp: valid_orders_def)
      then show ?thesis using t that queues_okD(4) [OF q] waits_on_fun by blast
    qed
    then show ?case using Cons.IH [OF v'] t x by (auto simp: disjoint_iff)
  qed simp
  moreover have "(\<Union>t\<in>set (map fst orders). set (waitProcs (lock_at s t))) \<subseteq> waiters s"
    using v queues_okD(4) [OF q] by (fastforce simp: valid_orders_def waiters_def)
  ultimately have "length (concat (map snd orders)) \<le> card (waiters s)"
    using fin card_mono distinct_card by metis
  then show ?thesis by (simp add: length_concat comp_def)
qed

definition expanded :: "LockMem \<Rightarrow> EDGE list \<Rightarrow> WAIT_ORDER list \<Rightarrow> bool" where
  "expanded s cs orders \<longleftrightarrow> valid_orders s orders \<and>
     (\<forall>(t, ord) \<in> set orders. 2 \<le> length ord \<and> obeys ord (constraints_on s t cs))"

definition contradictory :: "LockMem \<Rightarrow> EDGE list \<Rightarrow> bool" where
  "contradictory s cs \<longleftrightarrow> (\<exists>t. LockMethodLockHash s t \<noteq> None \<and>
     (\<forall>ord. set ord = set (waitProcs (lock_at s t)) \<longrightarrow> \<not> obeys ord (constraints_on s t cs)))"

lemma expanded_room:
  assumes q: "queues_ok s" and fit: "fits n s" and e: "expanded s cs orders"
    and t: "LockMethodLockHash s t \<noteq> None" "t \<notin> set (map fst orders)" "2 \<le> length (waitProcs (lock_at s t))"
  shows "length orders < n div 2"
    "sum_list (map (length \<circ> snd) orders) + length (waitProcs (lock_at s t)) \<le> n"
proof -
  let ?o = "orders @ [(t, waitProcs (lock_at s t))]"
  have v: "valid_orders s ?o"
    using e t queues_okD(5) [OF q t(1)] by (auto simp: expanded_def valid_orders_def)
  have "sum_list (map (length \<circ> snd) ?o) \<le> n"
    using orders_total [OF q fits_waiters(1) [OF fit] v] fits_waiters(2) [OF fit] by linarith
  then show s: "sum_list (map (length \<circ> snd) orders) + length (waitProcs (lock_at s t)) \<le> n" by simp
  have "2 * length orders \<le> sum_list (map (length \<circ> snd) orders)"
    using e unfolding expanded_def by (induction orders) (auto simp: valid_orders_def)
  then show "length orders < n div 2" using s t(3) by linarith
qed

lemma expand_from_spec:
  assumes q: "queues_ok s" and fit: "fits n s" and cs: "\<forall>e\<in>set cs. valid_edge s e"
  shows "i \<le> length cs \<Longrightarrow> expanded s cs orders \<Longrightarrow>
    \<forall>e\<in>set (drop i cs). edge_lock s e \<in> set (map fst orders) \<Longrightarrow>
    \<exists>ok orders'. expand_from n s cs i orders = Inr (ok, orders') \<and>
      (if ok then expanded s cs orders' \<and> (\<forall>e\<in>set cs. edge_lock s e \<in> set (map fst orders'))
       else contradictory s cs)"
proof (induction i arbitrary: orders)
  case (Suc i)
  let ?e = "cs ! i"
  let ?t = "edge_lock s ?e"
  have ie: "?e \<in> set cs" and drop: "drop i cs = ?e # drop (Suc i) cs"
    using Suc.prems(1) by (simp_all add: Cons_nth_drop_Suc Suc_le_eq)
  have et: "the (waitLock (allProcs s (waiter ?e))) = ?t" by (simp add: edge_lock_def)
  show ?case
  proof (cases "?t \<in> set (map fst orders)")
    case True
    then show ?thesis using Suc drop et by (simp add: Let_def)
  next
    case False
    have ve: "valid_edge s ?e" using cs ie by blast
    have two: "2 \<le> length (waitProcs (lock_at s ?t))" by (rule valid_edge_two [OF ve q])
    have room: "\<not> n div 2 \<le> length orders"
        "\<not> n < sum_list (map (length \<circ> snd) orders) + length (waitProcs (lock_at s ?t))"
      using expanded_room [OF q fit Suc.prems(2) valid_edge_lock(3) [OF ve q] False two] by linarith+
    have "constraints_on s ?t (drop (Suc i) cs) = []"
    proof -
      have "waitLock (allProcs s (waiter e)) \<noteq> Some ?t" if "e \<in> set (drop (Suc i) cs)" for e
      proof
        assume "waitLock (allProcs s (waiter e)) = Some ?t"
        then have "edge_lock s e = ?t" by (simp add: edge_lock_def)
        then show False using Suc.prems(3) [rule_format, OF that] False by simp
      qed
      then show ?thesis by (simp add: constraints_on_def)
    qed
    moreover have "constraints_on s ?t cs =
        constraints_on s ?t (take (Suc i) cs) @ constraints_on s ?t (drop (Suc i) cs)"
      by (simp only: constraints_on_def filter_append [symmetric] append_take_drop_id)
    ultimately have cons: "constraints_on s ?t (take (Suc i) cs) = constraints_on s ?t cs" by simp
    have mem: "\<forall>e\<in>set (constraints_on s ?t (take (Suc i) cs)). waiter e \<in> set (waitProcs (lock_at s ?t)) \<and>
        blocker e \<in> set (waitProcs (lock_at s ?t))"
      using constraints_on_members [OF cs q] cons by simp
    have d: "distinct (waitProcs (lock_at s ?t))" using queues_okD(5) [OF q valid_edge_lock(3) [OF ve q]] .
    show ?thesis
    proof (rule TopoSort_spec [OF d mem])
      fix ord
      assume o: "TopoSort s ?t (take (Suc i) cs) = Inr (Some ord)" "distinct ord"
        "set ord = set (waitProcs (lock_at s ?t))" "obeys ord (constraints_on s ?t (take (Suc i) cs))"
      have "length ord = length (waitProcs (lock_at s ?t))" using o(2,3) d distinct_card by metis
      then have "expanded s cs (orders @ [(?t, ord)])"
        using Suc.prems(2) o False two valid_edge_lock(3) [OF ve q] cons
        by (auto simp: expanded_def valid_orders_def)
      then show ?thesis
        using Suc.IH [of "orders @ [(?t, ord)]"] Suc.prems drop o(1) False room et
        by (auto simp: Let_def)
    next
      assume o: "TopoSort s ?t (take (Suc i) cs) = Inr None"
        "\<And>ord. set ord = set (waitProcs (lock_at s ?t)) \<Longrightarrow> \<not> obeys ord (constraints_on s ?t (take (Suc i) cs))"
      then have "contradictory s cs"
        using valid_edge_lock(3) [OF ve q] cons unfolding contradictory_def by metis
      then show ?thesis using o(1) False room et by (auto simp: Let_def)
    qed
  qed
qed (auto intro!: exI [of _ True])

lemma ExpandConstraints_spec:
  assumes "queues_ok s" "fits n s" "\<forall>e\<in>set cs. valid_edge s e"
  obtains (expanded) orders where "ExpandConstraints n s cs w = Inr (True, w\<lparr>waitOrders := orders\<rparr>)"
      "expanded s cs orders" "\<forall>e\<in>set cs. edge_lock s e \<in> set (map fst orders)" "cs = [] \<Longrightarrow> orders = []"
  | (contradictory) orders where "ExpandConstraints n s cs w = Inr (False, w\<lparr>waitOrders := orders\<rparr>)"
      "contradictory s cs" "cs \<noteq> []"
proof -
  have "expanded s cs []" by (simp add: expanded_def valid_orders_def)
  then obtain ok orders where "expand_from n s cs (length cs) [] = Inr (ok, orders)"
      "if ok then expanded s cs orders \<and> (\<forall>e\<in>set cs. edge_lock s e \<in> set (map fst orders))
       else contradictory s cs"
    using expand_from_spec [OF assms, of "length cs" "[]"] by auto
  moreover have "cs = [] \<Longrightarrow> ok \<and> orders = []" using calculation(1) by simp
  ultimately show thesis
    using expanded contradictory by (cases ok) (auto simp: ExpandConstraints_def)
qed

section \<open>Testing a configuration\<close>

definition cycle_at :: "LockMem \<Rightarrow> WAIT_ORDER list \<Rightarrow> nat \<Rightarrow> EDGE list \<Rightarrow> bool" where
  "cycle_at s orders p es \<longleftrightarrow> (\<exists>ps. walk s orders p p (p # ps) es)"

lemma cycle_at_trancl: "cycle_at s orders p es \<Longrightarrow> (p, p) \<in> (waits_for s orders)\<^sup>+"
  unfolding cycle_at_def using walk_cycle by blast

lemma test_procs_spec:
  assumes q: "queues_ok s" and fit: "fits n s"
  shows "valid_orders s (waitOrders w) \<Longrightarrow> set ps \<subseteq> participants s \<Longrightarrow> length (deadlockDetails w) = n \<Longrightarrow>
    \<exists>r w'. test_procs n me s ps soft w = Inr (r, w') \<and> waitOrders w' = waitOrders w \<and>
      length (deadlockDetails w') = n \<and>
      (case r of
         None \<Rightarrow> \<exists>p\<in>set ps. cycle_at s (waitOrders w) p []
       | Some es \<Rightarrow> es = soft \<and> (\<forall>p\<in>set ps. (p, p) \<notin> (waits_for s (waitOrders w))\<^sup>+) \<or>
           es \<noteq> [] \<and> (\<exists>p\<in>set ps. cycle_at s (waitOrders w) p es))"
proof (induction ps arbitrary: w soft)
  case (Cons p ps)
  let ?o = "waitOrders w"
  have P: "finite (participants s)" "card (participants s) \<le> n" "p \<in> participants s"
    using fit Cons.prems(2) by (auto simp: fits_def)
  obtain w1 where w1: "FindLockCycle n me s p w = Inr ((p, p) \<in> (waits_for s ?o)\<^sup>+, w1)"
      "waitOrders w1 = ?o" "length (deadlockDetails w1) = n"
      "(p, p) \<in> (waits_for s ?o)\<^sup>+ \<Longrightarrow> cycle_at s ?o p (softEdges w1)"
    using FindLockCycle_spec [OF P waits_for_participants [OF q Cons.prems(1)] Cons.prems(3)]
    unfolding cycle_at_def by metis
  have IH: "\<exists>r w'. test_procs n me s ps soft w1 = Inr (r, w') \<and> waitOrders w' = ?o \<and>
      length (deadlockDetails w') = n \<and>
      (case r of
         None \<Rightarrow> \<exists>p\<in>set ps. cycle_at s ?o p []
       | Some es \<Rightarrow> es = soft \<and> (\<forall>p\<in>set ps. (p, p) \<notin> (waits_for s ?o)\<^sup>+) \<or>
           es \<noteq> [] \<and> (\<exists>p\<in>set ps. cycle_at s ?o p es))" for soft
    using Cons.IH [of w1 soft, unfolded w1(2)] Cons.prems w1(3) by simp
  show ?case
  proof (cases "(p, p) \<in> (waits_for s ?o)\<^sup>+")
    case False
    obtain r w' where "test_procs n me s ps soft w1 = Inr (r, w')" "waitOrders w' = ?o"
        "length (deadlockDetails w') = n"
        "case r of
         None \<Rightarrow> \<exists>p\<in>set ps. cycle_at s ?o p []
       | Some es \<Rightarrow> es = soft \<and> (\<forall>p\<in>set ps. (p, p) \<notin> (waits_for s ?o)\<^sup>+) \<or>
           es \<noteq> [] \<and> (\<exists>p\<in>set ps. cycle_at s ?o p es)"
      using IH [of soft] by blast
    then show ?thesis using w1(1) False by (cases r) auto
  next
    case True
    then have c: "cycle_at s ?o p (softEdges w1)" by (rule w1(4))
    show ?thesis
    proof (cases "softEdges w1 = []")
      case nil: True
      then show ?thesis using w1(1-3) True c by auto
    next
      case False
      obtain r w' where "test_procs n me s ps (softEdges w1) w1 = Inr (r, w')" "waitOrders w' = ?o"
          "length (deadlockDetails w') = n"
          "case r of
           None \<Rightarrow> \<exists>p\<in>set ps. cycle_at s ?o p []
         | Some es \<Rightarrow> es = softEdges w1 \<and> (\<forall>p\<in>set ps. (p, p) \<notin> (waits_for s ?o)\<^sup>+) \<or>
             es \<noteq> [] \<and> (\<exists>p\<in>set ps. cycle_at s ?o p es)"
        using IH [of "softEdges w1"] by blast
      then show ?thesis using w1(1) True False c by (cases r) auto
    qed
  qed
qed simp

text \<open>
  The three outcomes of a test: the constraints contradict each other or leave a cycle of hard
  edges, the queue orders leave no cycle, or they leave a cycle with soft edges.
\<close>

lemma TestConfiguration_spec:
  assumes q: "queues_ok s" and fit: "fits n s" and p: "p \<in> waiters s"
    and cs: "\<forall>e\<in>set cs. valid_edge s e" and k: "k + n \<le> maxPossibleConstraints n"
    and len: "length (deadlockDetails w) = n"
  obtains (contradiction) w' where "TestConfiguration n me s p cs k w = Inr (None, w')"
      "length (deadlockDetails w') = n" "contradictory s cs" "cs \<noteq> []"
  | (hard) orders x w' where "TestConfiguration n me s p cs k w = Inr (None, w')"
      "length (deadlockDetails w') = n" "expanded s cs orders" "cycle_at s orders x []"
      "cs = [] \<Longrightarrow> x = p \<and> orders = []"
  | (good) orders w' where "TestConfiguration n me s p cs k w = Inr (Some [], w')"
      "length (deadlockDetails w') = n" "expanded s cs orders" "waitOrders w' = orders"
      "\<forall>e\<in>set cs. edge_lock s e \<in> set (map fst orders)" "(p, p) \<notin> (waits_for s orders)\<^sup>+"
      "\<forall>e\<in>set cs. (waiter e, waiter e) \<notin> (waits_for s orders)\<^sup>+ \<and>
         (blocker e, blocker e) \<notin> (waits_for s orders)\<^sup>+" "cs = [] \<Longrightarrow> orders = []"
  | (soft) orders x es w' where "TestConfiguration n me s p cs k w = Inr (Some es, w')"
      "length (deadlockDetails w') = n" "expanded s cs orders"
      "\<forall>e\<in>set cs. edge_lock s e \<in> set (map fst orders)" "es \<noteq> []"
      "cycle_at s orders x es" "cs = [] \<Longrightarrow> x = p \<and> orders = []"
proof -
  let ?ps = "concat (map (\<lambda>e. [waiter e, blocker e]) cs) @ [p]"
  have ps: "set ?ps \<subseteq> participants s"
    using cs p by (fastforce simp: participants_def waiters_def valid_edge_def)
  show thesis
  proof (rule ExpandConstraints_spec [OF q fit cs, of w])
    fix orders
    assume "ExpandConstraints n s cs w = Inr (False, w\<lparr>waitOrders := orders\<rparr>)" "contradictory s cs" "cs \<noteq> []"
    then show thesis using contradiction [of "w\<lparr>waitOrders := orders\<rparr>"] k len by (simp add: TestConfiguration_def)
  next
    fix orders
    assume expanded: "ExpandConstraints n s cs w = Inr (True, w\<lparr>waitOrders := orders\<rparr>)"
      "expanded s cs orders" "\<forall>e\<in>set cs. edge_lock s e \<in> set (map fst orders)" "cs = [] \<Longrightarrow> orders = []"
    let ?w1 = "w\<lparr>waitOrders := orders\<rparr>"
    have v: "valid_orders s orders" using expanded(2) by (simp add: expanded_def)
    have w1: "waitOrders ?w1 = orders" "length (deadlockDetails ?w1) = length (deadlockDetails w)"
      by simp_all
    obtain r w' where t: "test_procs n me s ?ps [] ?w1 = Inr (r, w')" "waitOrders w' = orders"
        "length (deadlockDetails w') = n"
        "case r of
         None \<Rightarrow> \<exists>p\<in>set ?ps. cycle_at s orders p []
       | Some es \<Rightarrow> es = [] \<and> (\<forall>p\<in>set ?ps. (p, p) \<notin> (waits_for s orders)\<^sup>+) \<or>
           es \<noteq> [] \<and> (\<exists>p\<in>set ?ps. cycle_at s orders p es)"
      using test_procs_spec [OF q fit, of ?w1 ?ps me "[]", unfolded w1, OF v ps] len by fastforce
    have T: "TestConfiguration n me s p cs k w = Inr (r, w')"
      using expanded(1) t(1) k by (simp add: TestConfiguration_def)
    show thesis
    proof (cases r)
      case None
      then obtain x where x: "x \<in> set ?ps" "cycle_at s orders x []" using t(4) by auto
      have "cs = [] \<Longrightarrow> x = p \<and> orders = []" using x(1) expanded(4) by simp
      with x(2) show thesis using hard [of w' orders x] T None t(3) expanded(2) by simp
    next
      case (Some es)
      show thesis
      proof (cases "es = []")
        case True
        then have "\<forall>p\<in>set ?ps. (p, p) \<notin> (waits_for s orders)\<^sup>+" using t(4) Some by auto
        then show thesis using good [of w' orders] T Some True t(2,3) expanded(2-4) by auto
      next
        case False
        then obtain x where x: "x \<in> set ?ps" "cycle_at s orders x es" using t(4) Some by auto
        have "cs = [] \<Longrightarrow> x = p \<and> orders = []" using x(1) expanded(4) by simp
        with x(2) show thesis using soft [of es w' orders x] T Some False t(3) expanded(2,3) by simp
      qed
    qed
  qed
qed

section \<open>The recursion over soft edges\<close>

text \<open>
  A solution is a rearrangement of the wait queues that leaves no cycle at all; it obeys the
  constraints when every queue order does.
\<close>

definition solution :: "LockMem \<Rightarrow> EDGE list \<Rightarrow> WAIT_ORDER list \<Rightarrow> bool" where
  "solution s cs sol \<longleftrightarrow> valid_orders s sol \<and> acyclic (waits_for s sol) \<and>
     (\<forall>e\<in>set cs. before_in (queue_order s sol (edge_lock s e)) (waiter e) (blocker e))"

lemma solution_not_contradictory:
  assumes "solution s cs sol" "queues_ok s"
  shows "\<not> contradictory s cs"
proof
  assume "contradictory s cs"
  then obtain t where t: "LockMethodLockHash s t \<noteq> None"
      "\<And>ord. set ord = set (waitProcs (lock_at s t)) \<Longrightarrow> \<not> obeys ord (constraints_on s t cs)"
    by (auto simp: contradictory_def)
  have "obeys (queue_order s sol t) (constraints_on s t cs)"
    using assms(1) by (auto simp: obeys_def constraints_on_def solution_def edge_lock_def)
  then show False
    using t queue_order_set(1) [OF assms(2) _ t(1)] assms(1) by (simp add: solution_def)
qed

lemma walk_soft_missing:
  "walk s orders a p ps es \<Longrightarrow> ps \<noteq> [] \<Longrightarrow> \<forall>e\<in>set es. soft_edge s sol (waiter e) (blocker e) \<Longrightarrow>
     (p, a) \<in> (waits_for s sol)\<^sup>+"
proof (induction rule: walk.induct)
  case (walk_hard p q ps es)
  have e: "(p, q) \<in> waits_for s sol" using walk_hard by (simp add: waits_for_def)
  show ?case
  proof (cases "ps = []")
    case True
    then have "q = a" using walk_hard(2) by (auto elim: walk.cases)
    then show ?thesis using e by blast
  qed (use walk_hard e in \<open>auto intro: trancl_into_trancl2\<close>)
next
  case (walk_soft p q ps es)
  have e: "(p, q) \<in> waits_for s sol" using walk_soft by (simp add: waits_for_def)
  show ?case
  proof (cases "ps = []")
    case True
    then have "q = a" using walk_soft(3) by (auto elim: walk.cases)
    then show ?thesis using e by blast
  qed (use walk_soft e in \<open>auto intro: trancl_into_trancl2\<close>)
qed simp

text \<open>
  Every cycle under proposed orders has a soft edge whose reversal the solution obeys, and which
  the constraints do not have yet.
\<close>

lemma cycle_edge_of_solution:
  assumes q: "queues_ok s" and sol: "solution s cs sol" and ex: "expanded s cs orders"
    and tags: "\<forall>e\<in>set cs. edge_lock s e \<in> set (map fst orders)"
    and cs: "\<forall>e\<in>set cs. valid_edge s e" and c: "cycle_at s orders x es"
  obtains e where "e \<in> set es" "solution s (cs @ [e]) sol" "e \<notin> set cs" "valid_edge s e"
    "soft_edge s orders (waiter e) (blocker e)"
proof -
  have vs: "valid_orders s sol" and vo: "valid_orders s orders" using sol ex by (auto simp: solution_def expanded_def)
  obtain ps where w: "walk s orders x x (x # ps) es" using c by (auto simp: cycle_at_def)
  have "(x, x) \<notin> (waits_for s sol)\<^sup>+" using sol by (auto simp: solution_def acyclic_def)
  then obtain e where e: "e \<in> set es" "\<not> soft_edge s sol (waiter e) (blocker e)"
    using walk_soft_missing [OF w] by blast
  have so: "soft_edge s orders (waiter e) (blocker e)" using walk_soft_edges [OF w e(1)] by blast
  have ve: "valid_edge s e" using soft_edge_valid [OF q vo so] by (cases e) simp
  note l = valid_edge_lock [OF ve q]
  have bo: "before_in (queue_order s orders (edge_lock s e)) (blocker e) (waiter e)"
      "push_bit (waitLockMode (allProcs s (blocker e))) 1 AND LockConflicts ! waitLockMode (allProcs s (waiter e)) \<noteq> 0"
    using so l(1) soft_edge_iff [OF q vo] waits_on_fun by blast+
  have "\<not> before_in (queue_order s sol (edge_lock s e)) (blocker e) (waiter e)"
    using e(2) bo(2) l(1) soft_edge_iff [OF q vs] by blast
  moreover have "waiter e \<in> set (queue_order s sol (edge_lock s e))" "blocker e \<in> set (queue_order s sol (edge_lock s e))"
    using queue_order_set(1) [OF q vs l(3)] queues_okD(1) [OF q] l(1,2) by auto
  ultimately have "before_in (queue_order s sol (edge_lock s e)) (waiter e) (blocker e)"
    using before_in_linear ve by (metis valid_edge_def)
  then have "solution s (cs @ [e]) sol" using sol by (simp add: solution_def)
  moreover have "e \<notin> set cs"
  proof
    assume e': "e \<in> set cs"
    then obtain ord where o: "(edge_lock s e, ord) \<in> set orders" using tags by auto
    have "e \<in> set (constraints_on s (edge_lock s e) cs)"
      using e' l(1) by (simp add: constraints_on_def waits_on_def)
    then have "before_in ord (waiter e) (blocker e)" using ex o by (auto simp: expanded_def obeys_def)
    then show False using bo(1) before_in_asym queue_order_mem [OF vo o] by metis
  qed
  ultimately show thesis using that e(1) ve so by blast
qed

end
