(* ===== verification/DeadlockCheck.thy ===== *)
theory DeadlockCheck
  imports DeadlockConfig
begin

text \<open>
  \<open>DeadLockCheck\<close> as a whole: it never fails while the processes fit in the work arrays, reports
  a hard deadlock only for a process on a cycle, leaves no cycle through the process otherwise,
  and finds a rearrangement of the queues whenever one exists and the constraints it needs fit.
\<close>

section \<open>How many constraints a solution can need\<close>

definition conflict_pairs :: "LockMem \<Rightarrow> nat set set" where
  "conflict_pairs s = {{p, q} | p q t. p \<noteq> q \<and> waits_on s p t \<and> waits_on s q t \<and>
     push_bit (waitLockMode (allProcs s q)) 1 AND LockConflicts ! waitLockMode (allProcs s p) \<noteq> 0}"

definition conflict_edge :: "LockMem \<Rightarrow> EDGE \<Rightarrow> bool" where
  "conflict_edge s e \<longleftrightarrow> valid_edge s e \<and> {waiter e, blocker e} \<in> conflict_pairs s"

lemma soft_edge_conflict:
  assumes "queues_ok s" "valid_orders s orders" "soft_edge s orders (waiter e) (blocker e)"
  shows "conflict_edge s e"
proof -
  have v: "valid_edge s e" using soft_edge_valid [OF assms] by (cases e) simp
  obtain t where t: "waits_on s (waiter e) t"
      "push_bit (waitLockMode (allProcs s (blocker e))) 1 AND LockConflicts ! waitLockMode (allProcs s (waiter e)) \<noteq> 0"
    using assms(3) soft_edge_iff [OF assms(1,2)] by blast
  have "waits_on s (blocker e) t"
    using v t(1) waits_on_fun by (auto simp: valid_edge_def)
  then show ?thesis using v t unfolding conflict_edge_def conflict_pairs_def valid_edge_def by blast
qed

lemma finite_conflict_pairs: "finite (waiters s) \<Longrightarrow> finite (conflict_pairs s)"
  by (rule finite_subset [of _ "Pow (waiters s)"]) (auto simp: conflict_pairs_def waiters_def)

lemma solution_length:
  assumes "solution s cs sol" "queues_ok s" "distinct cs" "\<forall>e\<in>set cs. conflict_edge s e" "finite (waiters s)"
  shows "length cs \<le> card (conflict_pairs s)"
proof -
  let ?f = "\<lambda>e. {waiter e, blocker e}"
  have "inj_on ?f (set cs)"
  proof (rule inj_onI)
    fix e e' assume e: "e \<in> set cs" "e' \<in> set cs" "?f e = ?f e'"
    have ve: "valid_edge s e" "valid_edge s e'" using assms(4) e by (auto simp: conflict_edge_def)
    have "waits_on s (waiter e') (edge_lock s e)"
      using e(3) valid_edge_lock [OF ve(1) assms(2)] by (auto simp: doubleton_eq_iff)
    then have l: "edge_lock s e' = edge_lock s e"
      using valid_edge_lock(1) [OF ve(2) assms(2)] waits_on_fun by blast
    have "before_in (queue_order s sol (edge_lock s e)) (waiter e) (blocker e)"
        "before_in (queue_order s sol (edge_lock s e)) (waiter e') (blocker e')"
      using assms(1) e(1,2) l by (auto simp: solution_def)
    then have "waiter e = waiter e' \<and> blocker e = blocker e'"
      using e(3) before_in_asym by (fastforce simp: doubleton_eq_iff)
    then show "e = e'" by (cases e; cases e') simp
  qed
  then have "card (set cs) = card (?f ` set cs)" by (simp add: card_image)
  also have "\<dots> \<le> card (conflict_pairs s)"
    using assms(4) by (intro card_mono finite_conflict_pairs assms(5)) (auto simp: conflict_edge_def)
  finally show ?thesis using assms(3) by (simp add: distinct_card)
qed

section \<open>The recursion\<close>

lemma try_edges_spec:
  assumes attempt: "\<And>e w. e \<in> set es \<Longrightarrow> ok w \<Longrightarrow> \<exists>h w'. attempt e w = Inr (h, w') \<and> ok w' \<and> (\<not> h \<longrightarrow> Q w')"
    and again: "\<And>w. ok w \<Longrightarrow> \<exists>w'. again w = Inr (Some es, w') \<and> ok w'"
  shows "ok w \<Longrightarrow> i \<le> length es \<Longrightarrow>
    \<exists>h w'. try_edges attempt again saved (length es) i (drop i es) w = Inr (h, w') \<and> ok w' \<and>
      (\<not> h \<longrightarrow> Q w') \<and> (h \<longrightarrow> (\<forall>e\<in>set (drop i es). \<exists>w w'. ok w \<and> attempt e w = Inr (True, w')))"
proof (induction "length es - i" arbitrary: i w)
  case 0
  then show ?case by (auto intro!: exI [of _ True])
next
  case (Suc m)
  then have i: "i < length es" by simp
  have d: "drop i es = es ! i # drop (Suc i) es" using i by (simp add: Cons_nth_drop_Suc)
  obtain w1 where w1: "(if \<not> saved \<and> 0 < i
            then bindE (again w) (\<lambda>(edges, w1).
              case edges of
                None \<Rightarrow> Inl Fatal_inconsistent
              | Some es1 \<Rightarrow> if length es1 \<noteq> length es then Inl Fatal_inconsistent else Inr (es1 ! i, w1))
            else Inr (es ! i, w)) = Inr (es ! i, w1)" "ok w1"
  proof -
    obtain w' where "again w = Inr (Some es, w')" "ok w'" using again [OF Suc.prems(1)] by blast
    then show thesis using that [of w'] that [of w] Suc.prems(1) by (cases "\<not> saved \<and> 0 < i") auto
  qed
  obtain h w2 where h: "attempt (es ! i) w1 = Inr (h, w2)" "ok w2" "\<not> h \<longrightarrow> Q w2"
    using attempt [OF nth_mem [OF i] w1(2)] by blast
  show ?case
  proof (cases h)
    case False
    then show ?thesis using w1 h unfolding d by auto
  next
    case True
    have m: "m = length es - Suc i" using Suc.hyps(2) by simp
    obtain h' w3 where "try_edges attempt again saved (length es) (Suc i) (drop (Suc i) es) w2 = Inr (h', w3)"
        "ok w3" "\<not> h' \<longrightarrow> Q w3"
        "h' \<longrightarrow> (\<forall>e\<in>set (drop (Suc i) es). \<exists>w w'. ok w \<and> attempt e w = Inr (True, w'))"
      using Suc(1) [OF m h(2)] i by fastforce
    then show ?thesis using w1 h True unfolding d by auto
  qed
qed

lemma TestConfiguration_again:
  assumes q: "queues_ok s" and fit: "fits n s" and p: "p \<in> waiters s" and cs: "\<forall>e\<in>set cs. valid_edge s e"
    and k: "k + n \<le> maxPossibleConstraints n" "k' + n \<le> maxPossibleConstraints n"
    and T: "TestConfiguration n me s p cs k w = Inr (Some es, w1)"
    and len: "length (deadlockDetails w') = n"
  shows "\<exists>w2. TestConfiguration n me s p cs k' w' = Inr (Some es, w2) \<and> length (deadlockDetails w2) = n"
proof -
  have "TestConfiguration n me s p cs k' w' = TestConfiguration n me s p cs k w'"
    using k by (simp add: TestConfiguration_def)
  moreover have "rel_sum (=) (rel_prod (=) (\<lambda>_ _. True)) (TestConfiguration n me s p cs k w)
      (TestConfiguration n me s p cs k w')" by (rule TestConfiguration_same)
  ultimately obtain w2 where "TestConfiguration n me s p cs k' w' = Inr (Some es, w2)"
    using T by (cases "TestConfiguration n me s p cs k w'") auto
  moreover have "length (deadlockDetails w2) = n"
    by (rule TestConfiguration_spec [OF q fit p cs k(2) len, of me]) (use calculation in auto)
  ultimately show ?thesis by blast
qed

definition recurse_post ::
  "nat \<Rightarrow> LockMem \<Rightarrow> nat \<Rightarrow> nat \<Rightarrow> EDGE list \<Rightarrow> DeadlockError + bool \<times> DeadlockWork \<Rightarrow> bool" where
  "recurse_post n s p room cs r \<longleftrightarrow>
     (\<exists>h w'. r = Inr (h, w') \<and> length (deadlockDetails w') = n \<and>
        (\<not> h \<longrightarrow> valid_orders s (waitOrders w') \<and> (p, p) \<notin> (waits_for s (waitOrders w'))\<^sup>+) \<and>
        (h \<longrightarrow> cs = [] \<longrightarrow> (p, p) \<in> (waits_for s [])\<^sup>+) \<and>
        (h \<longrightarrow> distinct cs \<longrightarrow> card (conflict_pairs s) \<le> room + length cs \<longrightarrow> (\<nexists>sol. solution s cs sol)))"

lemma hard_cycle_no_solution: "cycle_at s orders x [] \<Longrightarrow> \<not> solution s cs sol"
  using walk_soft_missing by (fastforce simp: cycle_at_def solution_def acyclic_def)

text \<open>One level of the recursion, given what the next level does.\<close>

lemma DeadLockCheckRecurse_level:
  assumes q: "queues_ok s" and fit: "fits n s" and p: "p \<in> waiters s"
    and ce: "\<forall>e\<in>set cs. conflict_edge s e" and k: "k + n \<le> maxPossibleConstraints n"
    and len: "length (deadlockDetails w) = n"
    and rec: "\<And>room1 e k' w'. room = Suc room1 \<Longrightarrow> conflict_edge s e \<Longrightarrow> k' + n \<le> maxPossibleConstraints n \<Longrightarrow>
      length (deadlockDetails w') = n \<Longrightarrow>
      recurse_post n s p room1 (cs @ [e]) (DeadLockCheckRecurse n me s p room1 (cs @ [e]) k' w')"
  shows "recurse_post n s p room cs (DeadLockCheckRecurse n me s p room cs k w)"
proof -
  have cs: "\<forall>e\<in>set cs. valid_edge s e" using ce by (auto simp: conflict_edge_def)
  show ?thesis
  proof (rule TestConfiguration_spec [OF q fit p cs k len])
    fix w'
    assume "TestConfiguration n me s p cs k w = Inr (None, w')" "length (deadlockDetails w') = n"
      "contradictory s cs" "cs \<noteq> []"
    then show ?thesis
      using solution_not_contradictory [OF _ q] by (auto simp: recurse_post_def DeadLockCheckRecurse.simps)
  next
    fix orders x w'
    assume "TestConfiguration n me s p cs k w = Inr (None, w')" "length (deadlockDetails w') = n"
      "expanded s cs orders" and c: "cycle_at s orders x []" "cs = [] \<Longrightarrow> x = p \<and> orders = []"
    then show ?thesis
      using hard_cycle_no_solution [OF c(1)] cycle_at_trancl [OF c(1)] c(2)
      by (auto simp: recurse_post_def DeadLockCheckRecurse.simps)
  next
    fix orders w'
    assume "TestConfiguration n me s p cs k w = Inr (Some [], w')" "length (deadlockDetails w') = n"
      "expanded s cs orders" "waitOrders w' = orders" "(p, p) \<notin> (waits_for s orders)\<^sup>+"
    then show ?thesis by (auto simp: recurse_post_def DeadLockCheckRecurse.simps expanded_def)
  next
    fix orders x es w'
    assume T: "TestConfiguration n me s p cs k w = Inr (Some es, w')" "length (deadlockDetails w') = n"
      and ex: "expanded s cs orders" "\<forall>e\<in>set cs. edge_lock s e \<in> set (map fst orders)"
      and es: "es \<noteq> []" "cycle_at s orders x es" and nil: "cs = [] \<Longrightarrow> x = p \<and> orders = []"
    have vo: "valid_orders s orders" using ex(1) by (simp add: expanded_def)
    have cyc: "cs = [] \<Longrightarrow> (p, p) \<in> (waits_for s [])\<^sup>+" using cycle_at_trancl [OF es(2)] nil by auto
    have soft: "conflict_edge s e" if "e \<in> set es" for e
      using es(2) that walk_soft_edges soft_edge_conflict [OF q vo] by (auto simp: cycle_at_def)
    have grow: "\<exists>e\<in>set es. solution s (cs @ [e]) sol \<and> e \<notin> set cs" if "solution s cs sol" for sol
      using cycle_edge_of_solution [OF q that ex cs es(2)] by blast
    show ?thesis
    proof (cases room)
      case 0
      have "\<not> solution s cs sol" if "distinct cs" "card (conflict_pairs s) \<le> length cs" for sol
      proof
        assume sol: "solution s cs sol"
        obtain e where e: "e \<in> set es" "solution s (cs @ [e]) sol" "e \<notin> set cs" using grow [OF sol] by blast
        have "length (cs @ [e]) \<le> card (conflict_pairs s)"
          by (rule solution_length [OF e(2) q _ _ fits_waiters(1) [OF fit]]) (use that e soft ce in auto)
        then show False using that by simp
      qed
      then show ?thesis
        using T es(1) 0 cyc by (auto simp: recurse_post_def DeadLockCheckRecurse.simps)
    next
      case (Suc room1)
      let ?saved = "k + length es + n \<le> maxPossibleConstraints n"
      let ?k1 = "if ?saved then k + length es else k"
      let ?attempt = "\<lambda>e. DeadLockCheckRecurse n me s p room1 (cs @ [e]) ?k1"
      let ?ok = "\<lambda>w. length (deadlockDetails w) = n"
      have k1: "?k1 + n \<le> maxPossibleConstraints n" using k by simp
      have D: "DeadLockCheckRecurse n me s p room cs k w =
          try_edges ?attempt (TestConfiguration n me s p cs ?k1) ?saved (length es) 0 (drop 0 es) w'"
        unfolding DeadLockCheckRecurse.simps [of n me s p room] using T(1) es(1) Suc by (simp add: Let_def)
      have post: "recurse_post n s p room1 (cs @ [e]) (?attempt e w)" if "e \<in> set es" "?ok w" for e w
        using rec [OF Suc soft [OF that(1)] k1 that(2)] .
      have "\<exists>h w2. try_edges ?attempt (TestConfiguration n me s p cs ?k1) ?saved (length es) 0 (drop 0 es) w' =
          Inr (h, w2) \<and> ?ok w2 \<and>
          (\<not> h \<longrightarrow> valid_orders s (waitOrders w2) \<and> (p, p) \<notin> (waits_for s (waitOrders w2))\<^sup>+) \<and>
          (h \<longrightarrow> (\<forall>e\<in>set (drop 0 es). \<exists>w w2. ?ok w \<and> ?attempt e w = Inr (True, w2)))"
      proof (rule try_edges_spec)
        show "\<exists>h w2. ?attempt e w = Inr (h, w2) \<and> ?ok w2 \<and>
            (\<not> h \<longrightarrow> valid_orders s (waitOrders w2) \<and> (p, p) \<notin> (waits_for s (waitOrders w2))\<^sup>+)"
          if "e \<in> set es" "?ok w" for e w
          using post [OF that] by (auto simp: recurse_post_def)
        show "\<exists>w2. TestConfiguration n me s p cs ?k1 w = Inr (Some es, w2) \<and> ?ok w2" if "?ok w" for w
          by (rule TestConfiguration_again [OF q fit p cs k k1 T(1) that])
      qed (use T(2) in simp_all)
      then obtain h w2 where h: "DeadLockCheckRecurse n me s p room cs k w = Inr (h, w2)" "?ok w2"
          "\<not> h \<longrightarrow> valid_orders s (waitOrders w2) \<and> (p, p) \<notin> (waits_for s (waitOrders w2))\<^sup>+"
          "h \<longrightarrow> (\<forall>e\<in>set es. \<exists>w w2. ?ok w \<and> ?attempt e w = Inr (True, w2))"
        unfolding D by auto
      have "\<not> solution s cs sol"
        if hh: "h" "distinct cs" "card (conflict_pairs s) \<le> room + length cs" for sol
      proof
        assume sol: "solution s cs sol"
        obtain e where e: "e \<in> set es" "solution s (cs @ [e]) sol" "e \<notin> set cs" using grow [OF sol] by blast
        obtain w3 w4 where w3: "?ok w3" "?attempt e w3 = Inr (True, w4)" using h(4) hh(1) e(1) by blast
        have "\<nexists>sol. solution s (cs @ [e]) sol"
          using post [OF e(1) w3(1)] w3(2) hh(2,3) e(3) Suc by (auto simp: recurse_post_def)
        then show False using e(2) by blast
      qed
      then show ?thesis using h(1-3) cyc by (auto simp: recurse_post_def)
    qed
  qed
qed

lemma DeadLockCheckRecurse_post:
  assumes q: "queues_ok s" and fit: "fits n s" and p: "p \<in> waiters s"
  shows "\<forall>e\<in>set cs. conflict_edge s e \<Longrightarrow> k + n \<le> maxPossibleConstraints n \<Longrightarrow> length (deadlockDetails w) = n \<Longrightarrow>
    recurse_post n s p room cs (DeadLockCheckRecurse n me s p room cs k w)"
proof (induction room arbitrary: cs k w)
  case 0
  show ?case by (rule DeadLockCheckRecurse_level [OF q fit p 0]) simp
next
  case (Suc room)
  have "recurse_post n s p room (cs @ [e]) (DeadLockCheckRecurse n me s p room (cs @ [e]) k' w')"
    if "conflict_edge s e" "k' + n \<le> maxPossibleConstraints n" "length (deadlockDetails w') = n" for e k' w'
    using Suc.IH [of "cs @ [e]" k' w'] Suc.prems(1) that by simp
  then show ?case
    by (intro DeadLockCheckRecurse_level [OF q fit p Suc.prems]) (simp del: DeadLockCheckRecurse.simps)
qed

section \<open>Rearranging the queues\<close>

lemma takeWhile_remove1:
  "x \<noteq> p \<Longrightarrow> set (takeWhile (\<lambda>q. q \<noteq> x) (remove1 p xs)) \<subseteq> set (takeWhile (\<lambda>q. q \<noteq> x) xs)"
proof (induction xs)
  case (Cons a xs)
  then show ?case by (cases "a = p"; cases "a = x") auto
qed simp

text \<open>Waking a process adds no edge into a process that still waits.\<close>

lemma wake1_edges:
  assumes p: "waits_on s p t" and o: "map_of orders t = None"
    and e: "(x, y) \<in> waits_for (wake1 t p s) orders" and y: "y \<noteq> p"
  shows "(x, y) \<in> waits_for s orders"
proof -
  let ?s = "wake1 t p s"
  obtain u where u: "waits_on ?s x u" "y \<in> set (hard_blockers ?s u x) \<or> y \<in> set (soft_blockers ?s orders u x)"
    using e by (auto simp: waits_for_def hard_edge_def soft_edge_def)
  then have x: "waits_on s x u" "x \<noteq> p" using wake1_waits [OF p] by auto
  have m: "waitLockMode (allProcs ?s q) = waitLockMode (allProcs s q)" for q
    by (simp add: wake1_simps [OF p] woken_proc_def)
  have h: "holds_conflicting ?s u c y \<longleftrightarrow> holds_conflicting s u c y" for c
    using y by (simp add: holds_conflicting_def wake1_simps [OF p])
  have pl: "procLocks (lock_at ?s u) = procLocks (lock_at s u)" by (simp add: wake1_simps [OF p])
  have qo: "set (takeWhile (\<lambda>q. q \<noteq> x) (queue_order ?s orders u)) \<subseteq> set (takeWhile (\<lambda>q. q \<noteq> x) (queue_order s orders u))"
    using o takeWhile_remove1 [OF x(2)] by (auto simp: queue_order_def wake1_simps [OF p] split: option.splits)
  have "y \<in> set (hard_blockers s u x) \<or> y \<in> set (soft_blockers s orders u x)"
    using u(2) qo by (auto simp: hard_blockers_def soft_blockers_def m h pl)
  then show ?thesis using x(1) by (auto simp: waits_for_def hard_edge_def soft_edge_def)
qed

lemma waits_for_Domain: "(x, y) \<in> waits_for s orders \<Longrightarrow> \<exists>t. waits_on s x t"
  by (auto simp: waits_for_def hard_edge_def soft_edge_def)

lemma wakes_edges:
  assumes "wakes t s s'" "map_of orders t = None"
  shows "(x, y) \<in> waits_for s' orders \<Longrightarrow> waits_on s' y u \<Longrightarrow> (x, y) \<in> waits_for s orders \<and> waits_on s y u"
  using assms(1)
proof (induction rule: wakes.induct)
  case (wakes_step s s1 p)
  have y: "waits_on s1 y u" "y \<noteq> p" using wake1_waits [OF wakes_step(2)] wakes_step.prems(2) by auto
  then show ?case
    using wakes_step wake1_edges [OF wakes_step(2) assms(2)] by blast
qed simp

lemma trancl_live:
  assumes "\<And>x y z. (x, y) \<in> R' \<Longrightarrow> (y, z) \<in> R' \<Longrightarrow> (x, y) \<in> R"
  shows "(a, b) \<in> R'\<^sup>+ \<Longrightarrow> (b, c) \<in> R' \<Longrightarrow> (a, b) \<in> R\<^sup>+"
proof (induction arbitrary: c rule: trancl_induct)
  case (step y z)
  then show ?case using assms by (meson trancl.trancl_into_trancl)
qed (use assms in blast)

lemma wakes_cycle:
  assumes "wakes t s s'" "map_of orders t = None" "(p, p) \<in> (waits_for s' orders)\<^sup>+"
  shows "(p, p) \<in> (waits_for s orders)\<^sup>+"
proof -
  obtain c where c: "(p, c) \<in> waits_for s' orders" using assms(3) by (meson tranclD)
  show ?thesis
    by (rule trancl_live [OF _ assms(3) c]) (use wakes_edges [OF assms(1,2)] waits_for_Domain in blast)
qed

lemma wakes_lock_frame:
  "wakes t s s' \<Longrightarrow> u \<noteq> t \<Longrightarrow> lock_at s' u = lock_at s u \<and> (LockMethodLockHash s' u = None \<longleftrightarrow> LockMethodLockHash s u = None)"
  by (induction rule: wakes.induct) (auto simp: wake1_simps)

text \<open>Writing a new order into the queue of a lock.\<close>

definition reorder :: "LOCKTAG \<Rightarrow> nat list \<Rightarrow> LockMem \<Rightarrow> LockMem" where
  "reorder t procs s = set_lock t ((lock_at s t)\<lparr>waitProcs := procs\<rparr>) s"

lemma reorder_ok:
  assumes "queues_ok s" "valid_orders s ((t, procs) # rest)"
  shows "queues_ok (reorder t procs s)" "waits_for (reorder t procs s) rest = waits_for s ((t, procs) # rest)"
    "valid_orders (reorder t procs s) rest"
proof -
  let ?s = "reorder t procs s"
  have t: "LockMethodLockHash s t \<noteq> None" "distinct procs" "set procs = set (waitProcs (lock_at s t))"
      "t \<notin> set (map fst rest)" "map_of rest t = None"
    using assms(2) by (auto simp: valid_orders_def map_of_eq_None_iff)
  have w: "waits_on ?s p u \<longleftrightarrow> waits_on s p u" for p u by (simp add: reorder_def waits_on_def)
  have r: "allProcs ?s = allProcs s" "proclock_at ?s = proclock_at s"
      "procLocks (lock_at ?s u) = procLocks (lock_at s u)"
      "queue_order ?s rest u = queue_order s ((t, procs) # rest) u" for u
    using t(5) by (auto simp: reorder_def queue_order_def fun_eq_iff split: option.splits)
  show "queues_ok ?s"
  proof -
    have st: "p \<in> set procs \<longleftrightarrow> waits_on s p t" for p
      using t(1,3) queues_okD(1,4) [OF assms(1)] by blast
    have "distinct (waitProcs l) \<and> (\<forall>p. p \<in> set (waitProcs l) \<longleftrightarrow> waits_on ?s p u)"
      if l: "LockMethodLockHash ?s u = Some l" for u l
    proof (cases "u = t")
      case True
      then have "waitProcs l = procs" using l by (auto simp: reorder_def)
      then show ?thesis using True t(2) st by (simp add: w)
    next
      case False
      then have "LockMethodLockHash s u = Some l" using l by (simp add: reorder_def)
      then show ?thesis using assms(1) by (simp add: w queues_ok_def)
    qed
    moreover have "LockMethodLockHash ?s u \<noteq> None \<and> waitProcLock (allProcs ?s p) = Some (u, p)"
      if "waits_on ?s p u" for p u
      using that queues_okD(3,6) [OF assms(1), of p u] unfolding w by (simp add: reorder_def)
    ultimately show ?thesis unfolding queues_ok_def by blast
  qed
  have h: "holds_conflicting ?s = holds_conflicting s" by (intro ext) (simp add: holds_conflicting_def r)
  show "waits_for ?s rest = waits_for s ((t, procs) # rest)"
    unfolding waits_for_def hard_edge_def soft_edge_def hard_blockers_def soft_blockers_def h r w ..
  have "LockMethodLockHash ?s u \<noteq> None \<and> distinct ord \<and> set ord = set (waitProcs (lock_at ?s u))"
    if "(u, ord) \<in> set rest" for u ord
  proof -
    have "u \<noteq> t" using that t(4) by force
    then show ?thesis using assms(2) that by (auto simp: valid_orders_def reorder_def)
  qed
  then show "valid_orders ?s rest" using assms(2) by (auto simp: valid_orders_def)
qed

lemma rearrange_eq:
  assumes "queues_ok s" "valid_orders s ((t, procs) # rest)"
  shows "rearrange (t, procs) s =
    (if locktag_type t \<noteq> LOCKTAG_RESOURCE_QUEUE then ProcLockWakeup (GetLocksMethodTable t) t (reorder t procs s)
     else reorder t procs s)"
proof -
  have "linked (allProcs s p)" if "p \<in> set procs" for p
    using that assms queues_okD(4) [OF assms(1)] by (auto simp: valid_orders_def waits_on_def)
  then have "(\<lambda>p. if p \<in> set procs then (allProcs s p)\<lparr>linked := True\<rparr> else allProcs s p) = allProcs s"
    by (auto simp: fun_eq_iff intro: PGPROC.equality)
  moreover have "allProcs (reorder t procs s) = allProcs s" by (simp add: reorder_def)
  moreover have "X\<lparr>allProcs := allProcs X\<rparr> = X" for X :: LockMem by simp
  ultimately have "(reorder t procs s)\<lparr>allProcs := \<lambda>p. if p \<in> set procs then (allProcs (reorder t procs s) p)\<lparr>linked := True\<rparr>
      else allProcs (reorder t procs s) p\<rparr> = reorder t procs s"
    by metis
  moreover have "rearrange (t, procs) s = (let s2 = (reorder t procs s)\<lparr>allProcs := \<lambda>p. if p \<in> set procs
      then (allProcs (reorder t procs s) p)\<lparr>linked := True\<rparr> else allProcs (reorder t procs s) p\<rparr> in
      if locktag_type t \<noteq> LOCKTAG_RESOURCE_QUEUE then ProcLockWakeup (GetLocksMethodTable t) t s2 else s2)"
    by (simp only: rearrange_def Let_def reorder_def fst_conv snd_conv)
  ultimately show ?thesis by (simp only: Let_def)
qed

lemma rearrange_wakes:
  assumes "queues_ok s" "valid_orders s ((t, procs) # rest)"
  shows "wakes t (reorder t procs s) (rearrange (t, procs) s)"
proof -
  have "LockMethodLockHash (reorder t procs s) t \<noteq> None" by (simp add: reorder_def)
  then show ?thesis
    unfolding rearrange_eq [OF assms]
    using ProcLockWakeup_wakes [OF reorder_ok(1) [OF assms]] by (simp add: wakes_refl)
qed

lemma rearrange_orders:
  assumes "queues_ok s" "valid_orders s ((t, procs) # orders)"
  shows "valid_orders (rearrange (t, procs) s) orders"
proof -
  let ?s2 = "rearrange (t, procs) s"
  have "t \<notin> fst ` set orders" using assms(2) by (auto simp: valid_orders_def)
  then have "LockMethodLockHash ?s2 u \<noteq> None \<and> distinct ord \<and> set ord = set (waitProcs (lock_at ?s2 u))"
    if "(u, ord) \<in> set orders" for u ord
  proof -
    have "u \<noteq> t" using that \<open>t \<notin> fst ` set orders\<close> by force
    then show ?thesis
      using reorder_ok(3) [OF assms] that wakes_lock_frame [OF rearrange_wakes [OF assms]]
      by (auto simp: valid_orders_def)
  qed
  then show ?thesis using assms(2) by (auto simp: valid_orders_def)
qed

text \<open>
  Applying proposed orders one after the other, with the wakeups in between, leaves the queues
  well formed and no process on a cycle that was not on one under the proposed orders.
\<close>

lemma rearrange_all:
  "queues_ok s \<Longrightarrow> valid_orders s orders \<Longrightarrow>
     queues_ok (fold rearrange orders s) \<and>
     (\<forall>p. (p, p) \<in> (waits_for (fold rearrange orders s) [])\<^sup>+ \<longrightarrow> (p, p) \<in> (waits_for s orders)\<^sup>+)"
proof (induction orders arbitrary: s)
  case (Cons x orders)
  obtain t procs where x: "x = (t, procs)" by (cases x)
  note v = Cons.prems(2) [unfolded x]
  let ?s1 = "reorder t procs s" and ?s2 = "rearrange (t, procs) s"
  have w: "wakes t ?s1 ?s2" by (rule rearrange_wakes [OF Cons.prems(1) v])
  have n: "map_of orders t = None" using v by (auto simp: valid_orders_def map_of_eq_None_iff)
  have q2: "queues_ok ?s2" by (rule wakes_queues_ok [OF w reorder_ok(1) [OF Cons.prems(1) v]])
  have v2: "valid_orders ?s2 orders" by (rule rearrange_orders [OF Cons.prems(1) v])
  have "(p, p) \<in> (waits_for s ((t, procs) # orders))\<^sup>+" if "(p, p) \<in> (waits_for ?s2 orders)\<^sup>+" for p
    using wakes_cycle [OF w n that] reorder_ok(2) [OF Cons.prems(1) v] by simp
  then show ?case using Cons.IH [OF q2 v2] x by auto
qed simp

section \<open>The check\<close>

theorem DeadLockCheck_spec:
  assumes q: "queues_ok s" and fit: "fits n s" and p: "waits_on s p t"
    and len: "length (deadlockDetails w) = n"
  obtains (hard) w' ps where "DeadLockCheck n me p s w = Inr (DS_HARD_DEADLOCK, s, w')"
      "walk s [] p p (p # ps) (softEdges w')" "nDeadlockDetails w' = length (p # ps)"
      "\<forall>i < length (p # ps). deadlockDetails w' ! i = deadlock_info s ((p # ps) ! i)"
      "card (conflict_pairs s) \<le> n \<Longrightarrow> \<nexists>sol. solution s [] sol"
  | (clear) st s' w' orders where "DeadLockCheck n me p s w = Inr (st, s', w')"
      "valid_orders s orders" "s' = fold rearrange orders s"
      "st \<in> {DS_NO_DEADLOCK, DS_SOFT_DEADLOCK, DS_BLOCKED_BY_AUTOVACUUM}"
      "queues_ok s'" "(p, p) \<notin> (waits_for s' [])\<^sup>+" "st \<noteq> DS_SOFT_DEADLOCK \<Longrightarrow> s' = s"
proof -
  let ?w0 = "w\<lparr>waitOrders := [], blocking_autovacuum_proc := None\<rparr>"
  have pw: "p \<in> waiters s" using p by (auto simp: waiters_def)
  have "recurse_post n s p n [] (DeadLockCheckRecurse n me s p n [] 0 ?w0)"
    by (rule DeadLockCheckRecurse_post [OF q fit pw]) (simp_all add: maxPossibleConstraints_def len)
  then obtain h w1 where r: "DeadLockCheckRecurse n me s p n [] 0 ?w0 = Inr (h, w1)" "length (deadlockDetails w1) = n"
      "\<not> h \<Longrightarrow> valid_orders s (waitOrders w1) \<and> (p, p) \<notin> (waits_for s (waitOrders w1))\<^sup>+"
      "h \<Longrightarrow> (p, p) \<in> (waits_for s [])\<^sup>+"
      "h \<Longrightarrow> card (conflict_pairs s) \<le> n \<Longrightarrow> \<nexists>sol. solution s [] sol"
    by (auto simp: recurse_post_def)
  show thesis
  proof (cases h)
    case False
    let ?s' = "fold rearrange (waitOrders w1) s"
    have "queues_ok ?s'" "(p, p) \<notin> (waits_for ?s' [])\<^sup>+" using rearrange_all [OF q] r(3) [OF False] by blast+
    moreover define st where "st = (if waitOrders w1 \<noteq> [] then DS_SOFT_DEADLOCK
        else if blocking_autovacuum_proc w1 \<noteq> None then DS_BLOCKED_BY_AUTOVACUUM else DS_NO_DEADLOCK)"
    moreover have "DeadLockCheck n me p s w = Inr (st, ?s', w1)"
      using r(1) False by (simp add: DeadLockCheck_def st_def)
    moreover have "st \<in> {DS_NO_DEADLOCK, DS_SOFT_DEADLOCK, DS_BLOCKED_BY_AUTOVACUUM}" by (simp add: st_def)
    moreover have "st \<noteq> DS_SOFT_DEADLOCK \<Longrightarrow> ?s' = s" by (simp add: st_def split: if_splits)
    ultimately show thesis using clear [of st ?s' w1 "waitOrders w1"] r(3) [OF False] by blast
  next
    case True
    let ?w1 = "w1\<lparr>waitOrders := []\<rparr>"
    have P: "finite (participants s)" "card (participants s) \<le> n" "p \<in> participants s"
      using fit pw by (auto simp: fits_def participants_def)
    have v: "valid_orders s []" by (simp add: valid_orders_def)
    obtain w2 where w2: "FindLockCycle n me s p ?w1 = Inr (True, w2)"
        "\<exists>ps. walk s [] p p (p # ps) (softEdges w2) \<and> nDeadlockDetails w2 = length (p # ps) \<and> length (p # ps) \<le> n \<and>
         (\<forall>i < length (p # ps). deadlockDetails w2 ! i = deadlock_info s ((p # ps) ! i))"
    proof (rule FindLockCycle_spec [OF P, of s ?w1 me])
      show "waits_for s (waitOrders ?w1) `` participants s \<subseteq> participants s"
        using waits_for_participants [OF q v] by simp
      show "length (deadlockDetails ?w1) = n" using r(2) by simp
      fix w'
      assume a: "FindLockCycle n me s p ?w1 = Inr ((p, p) \<in> (waits_for s (waitOrders ?w1))\<^sup>+, w')"
        "(p, p) \<in> (waits_for s (waitOrders ?w1))\<^sup>+ \<Longrightarrow>
         \<exists>ps. walk s (waitOrders ?w1) p p (p # ps) (softEdges w') \<and> nDeadlockDetails w' = length (p # ps) \<and>
           length (p # ps) \<le> n \<and>
           (\<forall>i < length (p # ps). deadlockDetails w' ! i = deadlock_info s ((p # ps) ! i))"
      show thesis using that [of w'] a r(4) [OF True] by simp
    qed
    then obtain ps where "walk s [] p p (p # ps) (softEdges w2)" "nDeadlockDetails w2 = length (p # ps)"
        "\<forall>i < length (p # ps). deadlockDetails w2 ! i = deadlock_info s ((p # ps) ! i)" by blast
    moreover have "DeadLockCheck n me p s w = Inr (DS_HARD_DEADLOCK, s, w2)"
      using r(1) True w2(1) by (simp add: DeadLockCheck_def)
    ultimately show thesis using hard r(5) [OF True] by blast
  qed
qed

end
