(* ===== verification/LockReach.thy ===== *)
theory LockReach
  imports LockSystem DeadlockCheck
begin

unbundle bit_operations_syntax

text \<open>
  The steps of the lock manager as a whole and the states they can reach.
\<close>

section \<open>Acquiring a lock through the shared table\<close>

lemma same_locks_refl: "same_locks s s" by (simp add: same_locks_def)

lemma AbortStrongLockAcquire_same:
  assumes "AbortStrongLockAcquire env (b, s) = (b', s')"
  shows "same_locks s s' \<and> MyProc b' = MyProc b"
  using assms same_locks_refl same_locks_strong
  by (auto simp: AbortStrongLockAcquire_def set_locallock_def split: option.splits)

lemma RemoveLocalLock_same: "same_locks s (snd (RemoveLocalLock env k (b, s)))"
  using same_locks_refl same_locks_strong by (simp add: RemoveLocalLock_def)

lemma table_no_memory:
  assumes "table_ok s"
  shows "table_ok (snd (snd (acquire_no_memory env rep k (b, s))))"
proof -
  obtain b' s' where a: "AbortStrongLockAcquire env (b, s) = (b', s')" by fastforce
  have "table_ok s'" using AbortStrongLockAcquire_same [OF a] same_locks_table(1) assms by blast
  then show ?thesis using same_locks_table(1) [OF RemoveLocalLock_same]
    by (simp add: acquire_no_memory_def a)
qed

lemma acquire_status_spec:
  assumes r: "requesting t (MyProc b) m s"
  shows "acquire_status t m (b, s) = STATUS_OK \<Longrightarrow> \<nexists>q. held_against s t (MyProc b) m q"
    "acquire_status t m (b, s) \<noteq> STATUS_OK \<Longrightarrow> (\<exists>q. held_against s t (MyProc b) m q) \<or>
      (\<exists>q\<in>set (waitProcs (lock_at s t)). conflicts m (waitLockMode (allProcs s q)))"
proof -
  let ?c = "LockCheckConflicts (GetLocksMethodTable t) m t (t, MyProc b) s"
  have "acquire_status t m (b, s) = ?c \<or>
      acquire_status t m (b, s) = STATUS_FOUND \<and> LockConflicts ! m AND waitMask (lock_at s t) \<noteq> 0"
    by (simp add: acquire_status_def Let_def split: option.splits)
  then show "acquire_status t m (b, s) = STATUS_OK \<Longrightarrow> \<nexists>q. held_against s t (MyProc b) m q"
    "acquire_status t m (b, s) \<noteq> STATUS_OK \<Longrightarrow> (\<exists>q. held_against s t (MyProc b) m q) \<or>
      (\<exists>q\<in>set (waitProcs (lock_at s t)). conflicts m (waitLockMode (allProcs s q)))"
    using requesting_free [OF r, of t] requesting_waitMask [OF r] by auto
qed

lemma table_nowait:
  assumes r: "requesting t (MyProc b) m s"
    and busy: "(\<exists>q. held_against s t (MyProc b) m q) \<or>
      (\<exists>q\<in>set (waitProcs (lock_at s t)). conflicts m (waitLockMode (allProcs s q)))"
  shows "table_ok (snd (snd (acquire_nowait env (t, m) (b, s))))"
proof -
  obtain b' s' where a: "AbortStrongLockAcquire env (b, s) = (b', s')" by fastforce
  note same = AbortStrongLockAcquire_same [OF a]
  note d = same_locksD [OF conjunct1 [OF same]]
  have r': "requesting t (MyProc b') m s'" using requesting_same [OF _ r] same by simp
  have S: "same_session s' p q \<longleftrightarrow> same_session s p q" for p q by (rule same_session_cong [OF d(9)])
  have busy': "(\<exists>q. held_against s' t (MyProc b') m q) \<or>
      (\<exists>q\<in>set (waitProcs (lock_at s' t)). conflicts m (waitLockMode (allProcs s' q)))"
    using busy same unfolding held_against_def S d by simp
  have "table_ok (let s1 = (if hold s' t (MyProc b') = 0 then remove_proclock (t, MyProc b') s' else s') in
      set_lock t (drop_request m (lock_at s1 t)) s1)"
    using table_refuse [OF r' busy'] by (simp only: Let_def)
  then show ?thesis using same_locks_table(1) [OF RemoveLocalLock_same]
    by (simp add: acquire_nowait_def a hold_def Let_def)
qed

lemma table_acquire_main:
  assumes ok: "table_ok s" and n: "\<not> linked (allProcs s (MyProc b))" and v: "valid_method t" "valid_mode m"
    and new: "\<not> (LockMethodProcLockHash s (t, MyProc b) \<noteq> None \<and> bit (hold s t (MyProc b)) m)"
  shows "table_ok (snd (snd (acquire_main env room t m owner dontWait rep (b, s))))"
proof -
  obtain lock_room proclock_room junk where room: "room = (lock_room, proclock_room, junk)" by (cases room)
  let ?me = "MyProc b"
  obtain r s1 where S: "SetupLockInTable lock_room proclock_room junk ?me t (LockTagHashCode env t) m s = (r, s1)" by fastforce
  have nw: "\<not> waits_on s ?me t" using n by (simp add: waits_on_def)
  from table_SetupLockInTable [OF ok nw v new S] show ?thesis
  proof (elim disjE conjE)
    assume "r = Setup_NULL" "s1 = s"
    then show ?thesis using table_no_memory [OF ok] S by (simp add: acquire_main_def room)
  next
    assume "r = Setup_OK" and q: "requesting t ?me m s1" and sw: "\<forall>q. same_waiting (allProcs s q) (allProcs s1 q)"
    then have n1: "\<not> linked (allProcs s1 ?me)" using n by (simp add: same_waiting_def)
    let ?b1 = "set_locallock (t, m) ((locallock_at b (t, m))\<lparr>ll_lock := Some t, ll_proclock := Some (t, ?me)\<rparr>) b"
    have me: "MyProc ?b1 = ?me" by (simp add: set_locallock_def)
    have q1: "requesting t (MyProc ?b1) m s1" using q by (simp add: me)
    let ?s2 = "set_proc ?me ((allProcs s1 ?me)\<lparr>heldLocks := holdMask (proclock_at s1 (t, ?me))\<rparr>) s1"
    let ?b2 = "?b1\<lparr>awaitedLock := Some (t, m), awaitedOwner := owner\<rparr>"
    have same: "same_locks s1 ?s2" by (simp add: same_locks_def hold_def)
    obtain st b3 s3 where P: "ProcSleep env (t, m) (?b2, ?s2) = (st, b3, s3)" by (cases "ProcSleep env (t, m) (?b2, ?s2)") auto
    have sleep: "table_ok s3" if "acquire_status t m (?b1, s1) \<noteq> STATUS_OK"
    proof (rule table_ProcSleep [OF _ _ _ P])
      show "\<not> linked (allProcs ?s2 (MyProc ?b2))" using n1 by (simp add: me)
      show "requesting t (MyProc ?b2) m ?s2" using requesting_same [OF same q1] by simp
      have S: "same_session ?s2 x y \<longleftrightarrow> same_session s1 x y" for x y by (rule same_session_cong) simp
      show "(\<exists>q. held_against ?s2 t (MyProc ?b2) m q) \<or>
          (\<exists>q\<in>set (waitProcs (lock_at ?s2 t)). conflicts m (waitLockMode (allProcs ?s2 q)))"
        using acquire_status_spec(2) [OF q1 that] unfolding held_against_def S same_locksD [OF same] by simp
    qed
    have "snd (snd (acquire_main env room t m owner dontWait rep (b, s))) =
        (if acquire_status t m (?b1, s1) = STATUS_OK then GrantLock t (t, ?me) m s1
         else if dontWait then snd (snd (acquire_nowait env (t, m) (?b1, s1))) else s3)"
      using S P \<open>r = Setup_OK\<close> by (cases st) (simp_all add: acquire_main_def room Let_def)
    then show ?thesis
      using sleep table_nowait [OF q1 acquire_status_spec(2) [OF q1]] acquire_status_spec(1) [OF q1] table_GrantLock [OF q]
      by (auto simp: me)
  qed
qed

section \<open>Releasing everything a process holds on an object\<close>

lemma releasing_same: "same_locks s s' \<Longrightarrow> releasing t p w s \<Longrightarrow> releasing t p w s'"
  by (simp add: releasing_def same_locks_lock same_locks_table same_locksD)

lemma releaseMask_UnGrantLock:
  "releaseMask (proclock_at (snd (UnGrantLock t m (t, p) tab s)) (t, p)) = releaseMask (proclock_at s (t, p))"
  by simp

lemma release_marked_releasing:
  assumes "releasing t p w s" "distinct ms"
    "\<And>i. i \<in> set ms \<Longrightarrow> bit (releaseMask (proclock_at s (t, p))) i \<Longrightarrow> bit (hold s t p) i"
    "release_marked (GetLocksMethodTable t) (t, p) ms (w, s) = (w', s')"
  shows "releasing t p w' s' \<and>
    (\<forall>i. bit (hold s' t p) i \<longleftrightarrow> bit (hold s t p) i \<and> \<not> (i \<in> set ms \<and> bit (releaseMask (proclock_at s (t, p))) i))"
  using assms
proof (induction ms arbitrary: w s)
  case Nil
  then show ?case by (simp add: release_marked_def)
next
  case (Cons i ms)
  let ?tab = "GetLocksMethodTable t" and ?R = "releaseMask (proclock_at s (t, p))"
  show ?case
  proof (cases "bit ?R i")
    case False
    then have "release_marked ?tab (t, p) ms (w, s) = (w', s')"
      using Cons.prems(4) mask_has_mode [of ?R i] by (simp add: release_marked_def)
    then show ?thesis using Cons.IH [of w s] Cons.prems False by auto
  next
    case True
    obtain w1 s1 where u: "UnGrantLock t i (t, p) ?tab s = (w1, s1)" by fastforce
    have held: "bit (hold s t p) i" using Cons.prems(3) True by simp
    have rel: "releasing t p (w \<or> w1) s1" using releasing_UnGrantLock [OF Cons.prems(1) held] u by simp
    have R1: "releaseMask (proclock_at s1 (t, p)) = ?R" using releaseMask_UnGrantLock [of t i p ?tab s] u by simp
    have h1: "bit (hold s1 t p) j \<longleftrightarrow> bit (hold s t p) j \<and> j \<noteq> i" for j
      using hold_UnGrantLock [of t i p ?tab s t p] u bit_imp_le_length [of "hold s t p" j] by (auto simp: bit_and_iff)
    have "release_marked ?tab (t, p) ms (w \<or> w1, s1) = (w', s')"
      using Cons.prems(4) True mask_has_mode [of ?R i] u by (simp add: release_marked_def)
    from Cons.IH [OF rel _ _ this] have ih: "releasing t p w' s' \<and>
      (\<forall>j. bit (hold s' t p) j \<longleftrightarrow> bit (hold s1 t p) j \<and> \<not> (j \<in> set ms \<and> bit ?R j))"
      using Cons.prems(2,3) R1 h1 by auto
    then show ?thesis using h1 True Cons.prems(2) by auto
  qed
qed

lemma table_release_proclock:
  assumes ok: "table_ok s" and k: "LockMethodProcLockHash s (t, p) \<noteq> None" and n: "\<not> linked (allProcs s p)"
    and m: "allLocks \<or> (\<forall>i. bit (releaseMask (proclock_at s (t, p))) i \<longrightarrow> bit (hold s t p) i)"
  shows "table_ok (release_proclock lockmethodid allLocks (t, p) s)"
proof -
  let ?tab = "GetLocksMethodTable t"
  define s1 where "s1 = (if allLocks then set_proclock (t, p) ((proclock_at s (t, p))
    \<lparr>releaseMask := holdMask (proclock_at s (t, p))\<rparr>) s else s)"
  have same: "same_locks s s1" using k by (auto simp: same_locks_def s1_def hold_def)
  have rel: "releasing t p False s1" by (rule releasing_same [OF same releasing_start [OF ok k n]])
  have sub: "bit (releaseMask (proclock_at s1 (t, p))) i \<Longrightarrow> bit (hold s1 t p) i" for i
    using m by (auto simp: s1_def hold_def split: if_splits)
  obtain w2 s2 where r: "release_marked ?tab (t, p) [1..<Suc (numLockModes ?tab)] (False, s1) = (w2, s2)" by fastforce
  have rel2: "releasing t p w2 s2" using release_marked_releasing [OF rel _ sub r] by simp
  let ?s3 = "set_proclock (t, p) ((proclock_at s2 (t, p))\<lparr>releaseMask := 0\<rparr>) s2"
  have "LockMethodProcLockHash s2 (t, p) \<noteq> None" using rel2 by (auto simp: releasing_def lock_ok_def lock_shape_def)
  then have "same_locks s2 ?s3" by (auto simp: same_locks_def hold_def)
  then have "table_ok (CleanUpLock t (t, p) ?tab w2 ?s3)" using releasing_done [OF releasing_same [OF _ rel2]] by blast
  moreover have "table_ok s1" using same_locks_table(1) [OF same] ok by simp
  ultimately show ?thesis
    using ok r unfolding release_proclock_def Let_def s1_def [symmetric] fst_conv snd_conv by auto
qed

section \<open>Moving fast-path locks into the table\<close>

lemma lock_flag:
  fixes x
  assumes l: "LockMethodLockHash s t \<noteq> None"
  defines "s' \<equiv> set_lock t ((lock_at s t)\<lparr>holdTillEndXact := x\<rparr>) s"
  shows "lock_ok y s' u \<longleftrightarrow> lock_ok y s u" "tidy s' u A \<longleftrightarrow> tidy s u A" "exclusive s' u \<longleftrightarrow> exclusive s u"
    "waiters_blocked s' u \<longleftrightarrow> waiters_blocked s u" "nRequested (lock_at s' u) = nRequested (lock_at s u)"
    "queues_ok s \<Longrightarrow> queues_ok s'" "hold s' u q = hold s u q"
proof -
  have f: "procLocks (lock_at s' u) = procLocks (lock_at s u)" "waitProcs (lock_at s' u) = waitProcs (lock_at s u)"
      "requested (lock_at s' u) = requested (lock_at s u)" "granted (lock_at s' u) = granted (lock_at s u)"
      "nGranted (lock_at s' u) = nGranted (lock_at s u)" "nRequested (lock_at s' u) = nRequested (lock_at s u)"
      "grantMask (lock_at s' u) = grantMask (lock_at s u)" "waitMask (lock_at s' u) = waitMask (lock_at s u)"
      "allProcs s' = allProcs s" "LockMethodProcLockHash s' = LockMethodProcLockHash s" "hold s' u q = hold s u q" for u q
    by (simp_all add: s'_def hold_def)
  have g: "holders s' u m = holders s u m" "waiting s' u m = waiting s u m" "same_session s' p q = same_session s p q" for u m p q
    by (simp_all add: holders_def waiting_def same_session_def f)
  show "lock_ok y s' u \<longleftrightarrow> lock_ok y s u" unfolding lock_ok_def lock_shape_def lock_counts_def f g ..
  show "tidy s' u A \<longleftrightarrow> tidy s u A" unfolding tidy_def f ..
  show "exclusive s' u \<longleftrightarrow> exclusive s u" unfolding exclusive_def g ..
  show "waiters_blocked s' u \<longleftrightarrow> waiters_blocked s u"
    unfolding waiters_blocked_def all_blocked_def blocked_def held_against_def f g ..
  show "nRequested (lock_at s' u) = nRequested (lock_at s u)" "hold s' u q = hold s u q" by (simp_all only: f)
  show "queues_ok s'" if "queues_ok s"
    by (rule queues_ok_frame [OF that]) (use l f in \<open>auto simp: s'_def split: if_splits\<close>)
qed

lemma requesting_flag:
  assumes r: "requesting t p m s"
  shows "requesting t p m (set_lock t ((lock_at s t)\<lparr>holdTillEndXact := x\<rparr>) s)"
proof -
  let ?s = "set_lock t ((lock_at s t)\<lparr>holdTillEndXact := x\<rparr>) s"
  have l: "LockMethodLockHash s t \<noteq> None" and t: "table_but t s" using r by (simp_all add: requesting_def)
  have "only_at t s ?s" by (rule only_at_procs) simp_all
  then have "table_but t ?s"
    using t l lock_flag(6) [OF l] by (intro table_but_only [OF t]) (simp_all add: table_but_def)
  then show ?thesis using r by (simp add: requesting_def lock_flag [OF l])
qed

lemma weak_conflicts:
  assumes "m \<in> {1, 2, 3}" "conflicts m k"
  shows "4 < k"
proof -
  have "valid_mode m" using assms(1) by (auto simp: valid_mode_def AccessExclusiveLock_def)
  then show ?thesis using assms by (auto simp: conflicts_def LockConflicts_modes)
qed

text \<open>What the transfer of process \<open>i\<close>'s locks on \<open>t\<close> changes.\<close>

definition holds_mode :: "LockMem \<Rightarrow> LOCKTAG \<Rightarrow> nat \<Rightarrow> LOCKMODE \<Rightarrow> bool" where
  "holds_mode s t q k \<longleftrightarrow> LockMethodProcLockHash s (t, q) \<noteq> None \<and> bit (hold s t q) k"

definition transferred :: "LOCKTAG \<Rightarrow> nat \<Rightarrow> LockMem \<Rightarrow> LockMem \<Rightarrow> bool" where
  "transferred t i s s' \<longleftrightarrow>
     (\<forall>q. q \<noteq> i \<longrightarrow> allProcs s' q = allProcs s q) \<and>
     (\<forall>q k. q \<noteq> i \<longrightarrow> holds_mode s' t q k \<longleftrightarrow> holds_mode s t q k) \<and>
     (\<forall>k. 4 < k \<longrightarrow> holds_mode s' t i k \<longrightarrow> holds_mode s t i k) \<and>
     linked (allProcs s' i) = linked (allProcs s i) \<and> waitLock (allProcs s' i) = waitLock (allProcs s i) \<and>
     mppSessionId (allProcs s' i) = mppSessionId (allProcs s i)"

lemma transferred_refl: "transferred t i s s" by (simp add: transferred_def)

lemma transferred_trans: "transferred t i s s1 \<Longrightarrow> transferred t i s1 s2 \<Longrightarrow> transferred t i s s2"
  unfolding transferred_def by simp

text \<open>
  What the count of strong locks is to ensure before a transfer: no process of another session
  holds a strong lock on the relation in the table.
\<close>

definition strong_free :: "LockMem \<Rightarrow> LOCKTAG \<Rightarrow> nat \<Rightarrow> bool" where
  "strong_free s t i \<longleftrightarrow> (\<forall>q k. holds_mode s t q k \<longrightarrow> 4 < k \<longrightarrow> same_session s i q)"

lemma transferred_same_session:
  assumes "transferred t i s s'"
  shows "same_session s' p q \<longleftrightarrow> same_session s p q"
proof (rule same_session_cong)
  show "mppSessionId (allProcs s' r) = mppSessionId (allProcs s r)" for r
    using assms unfolding transferred_def by (cases "r = i") simp_all
qed

lemma strong_free_transferred:
  assumes "strong_free s t j" "transferred t i s s'"
  shows "strong_free s' t j"
  unfolding strong_free_def transferred_same_session [OF assms(2)]
proof (intro allI impI)
  fix q k assume "holds_mode s' t q k" "4 < k"
  then have "holds_mode s t q k" using assms(2) unfolding transferred_def by (cases "q = i") auto
  then show "same_session s j q" using assms(1) \<open>4 < k\<close> by (simp add: strong_free_def)
qed

text \<open>One mode of one slot.\<close>

definition transfer_grant :: "LOCKTAG \<Rightarrow> nat \<Rightarrow> nat \<Rightarrow> LOCKMODE \<Rightarrow> LockMem \<Rightarrow> LockMem" where
  "transfer_grant t i f m s1 =
     (let s2 = set_lock t ((lock_at s1 t)\<lparr>holdTillEndXact := 0 < FAST_PATH_GET_HOLD_TILL_END_XACT_BITS (allProcs s1 i) f\<rparr>) s1;
          s3 = GrantLock t (t, i) m s2 in
      set_proc i (FAST_PATH_CLEAR_LOCKMODE (allProcs s3 i) f m) s3)"

lemma transfer_grant_ok:
  assumes ok: "table_ok s" and n: "\<not> waits_on s i t" and v: "valid_method t" "m \<in> {1, 2, 3}"
    and new: "\<not> holds_mode s t i m" and free: "strong_free s t i"
    and S: "SetupLockInTable lock_room proclock_room junk i t h m s = (r, s1)" "r \<noteq> Setup_NULL"
  shows "r = Setup_OK \<and> table_ok (transfer_grant t i f m s1) \<and> transferred t i s (transfer_grant t i f m s1) \<and>
    (\<forall>k. holds_mode (transfer_grant t i f m s1) t i k \<longrightarrow> k = m \<or> holds_mode s t i k) \<and>
    (\<forall>k. FAST_PATH_CHECK_LOCKMODE (allProcs (transfer_grant t i f m s1) i) f k \<longrightarrow> FAST_PATH_CHECK_LOCKMODE (allProcs s i) f k)"
proof -
  let ?s2 = "set_lock t ((lock_at s1 t)\<lparr>holdTillEndXact := 0 < FAST_PATH_GET_HOLD_TILL_END_XACT_BITS (allProcs s1 i) f\<rparr>) s1"
  let ?s3 = "GrantLock t (t, i) m ?s2"
  let ?s4 = "transfer_grant t i f m s1"
  have vm: "valid_mode m" using v(2) by (auto simp: valid_mode_def AccessExclusiveLock_def)
  have r: "r = Setup_OK" and q: "requesting t i m s1"
    and h: "\<And>q. hold s1 t q = (if LockMethodProcLockHash s (t, q) = None \<and> q = i then 0 else hold s t q)"
    and sw: "\<And>q. same_waiting (allProcs s q) (allProcs s1 q)"
    and others: "\<And>q. q \<noteq> i \<Longrightarrow> allProcs s1 q = allProcs s q \<and> LockMethodProcLockHash s1 (t, q) = LockMethodProcLockHash s (t, q)"
    using table_SetupLockInTable [OF ok n v(1) vm _ S(1)] S(2) new unfolding holds_mode_def by auto
  have l: "LockMethodLockHash s1 t \<noteq> None" using q by (simp add: requesting_def)
  have hm: "holds_mode s1 t q k \<longrightarrow> holds_mode s t q k" for q k
    using others [of q] h [of q] by (cases "q = i") (auto simp: holds_mode_def split: if_splits)
  have "\<nexists>q. held_against ?s2 t i m q"
  proof
    assume "\<exists>q. held_against ?s2 t i m q"
    then obtain q k where k: "q \<in> set (procLocks (lock_at s1 t))" "bit (hold s1 t q) k" "conflicts m k" "\<not> same_session ?s2 i q"
      using lock_flag(7) [OF l] by (auto simp: held_against_def)
    have "LockMethodProcLockHash s1 (t, q) \<noteq> None" using q k(1) by (auto simp: requesting_def lock_ok_def lock_shape_def)
    then have "holds_mode s t q k" using hm k(2) by (auto simp: holds_mode_def)
    then have "same_session s i q" using free weak_conflicts [OF v(2) k(3)] by (simp add: strong_free_def)
    moreover have "same_session ?s2 i q \<longleftrightarrow> same_session s i q"
      by (rule same_session_cong) (use sw in \<open>simp add: same_waiting_def\<close>)
    ultimately show False using k(4) by simp
  qed
  then have t3: "table_ok ?s3" by (rule table_GrantLock [OF requesting_flag [OF q]])
  have eq4: "?s4 = set_proc i (FAST_PATH_CLEAR_LOCKMODE (allProcs ?s3 i) f m) ?s3" by (simp add: transfer_grant_def Let_def)
  have "same_locks ?s3 ?s4" unfolding eq4 by (auto simp: same_locks_def hold_def FAST_PATH_CLEAR_LOCKMODE_def)
  then have t4: "table_ok ?s4" using same_locks_table(1) t3 by blast
  have h4: "hold ?s4 t x = (if x = i then hold s1 t i OR LOCKBIT_ON m else hold s1 t x)" for x
    by (simp add: eq4 hold_def)
  have P4: "x \<noteq> i \<Longrightarrow> LockMethodProcLockHash ?s4 (t, x) = LockMethodProcLockHash s (t, x)" for x
    using others [of x] by (simp add: eq4)
  have hm4: "holds_mode ?s4 t i k \<longrightarrow> k = m \<or> holds_mode s t i k" for k
    using h [of i] by (auto simp: holds_mode_def h4 bit_or_iff split: if_splits)
  moreover have "transferred t i s ?s4"
    unfolding transferred_def
  proof (intro conjI allI impI)
    fix q assume "q \<noteq> i"
    then show "allProcs ?s4 q = allProcs s q" using others by (simp add: eq4)
    fix k show "holds_mode ?s4 t q k \<longleftrightarrow> holds_mode s t q k"
      using \<open>q \<noteq> i\<close> P4 h [of q] by (simp add: holds_mode_def h4)
  next
    fix k :: nat assume "4 < k" "holds_mode ?s4 t i k"
    then show "holds_mode s t i k" using hm4 [of k] v(2) by auto
  qed (use sw [of i] in \<open>simp_all add: eq4 same_waiting_def FAST_PATH_CLEAR_LOCKMODE_def\<close>)
  moreover have "FAST_PATH_CHECK_LOCKMODE (allProcs ?s4 i) f k \<longrightarrow> FAST_PATH_CHECK_LOCKMODE (allProcs s i) f k" for k
  proof -
    have "fpLockBits (allProcs s1 i) = fpLockBits (allProcs s i)" using sw [of i] by (simp add: same_waiting_def)
    then have "fpLockBits (allProcs ?s4 i) = fpLockBits (allProcs s i) AND NOT (push_bit (FAST_PATH_BIT_POSITION f m) 1)"
      by (simp add: eq4 FAST_PATH_CLEAR_LOCKMODE_def)
    then show ?thesis by (auto simp: FAST_PATH_CHECK_LOCKMODE_def bit_eq_iff bit_and_iff)
  qed
  ultimately show ?thesis using r t4 by blast
qed

text \<open>
  \<open>disjoint_slot\<close>: a process has no mode both in a fast-path slot and in the table.
\<close>

definition disjoint_slot :: "LockMem \<Rightarrow> LOCKTAG \<Rightarrow> nat \<Rightarrow> nat \<Rightarrow> bool" where
  "disjoint_slot s t i f \<longleftrightarrow> (\<forall>m. FAST_PATH_CHECK_LOCKMODE (allProcs s i) f m \<longrightarrow> \<not> holds_mode s t i m)"

lemma transfer_modes_ok:
  assumes "table_ok s" "\<not> waits_on s i t" "valid_method t" "set ms \<subseteq> {1, 2, 3}" "distinct ms"
    "\<And>m. m \<in> set ms \<Longrightarrow> FAST_PATH_CHECK_LOCKMODE (allProcs s i) f m \<Longrightarrow> \<not> holds_mode s t i m" "strong_free s t i"
    "transfer_modes env room t i f ms s = ((e, done1), s')"
  shows "e = None \<and> table_ok s' \<and> transferred t i s s'"
  using assms
proof (induction ms arbitrary: s)
  case Nil
  then show ?case by (simp add: transferred_refl)
next
  case (Cons m ms)
  show ?case
  proof (cases "FAST_PATH_CHECK_LOCKMODE (allProcs s i) f m")
    case False
    then show ?thesis using Cons.IH [of s] Cons.prems by simp
  next
    case True
    obtain lr plr junk where room: "room = (lr, plr, junk)" by (cases room)
    obtain r s1 where S: "SetupLockInTable lr plr junk i t (LockTagHashCode env t) m s = (r, s1)" by fastforce
    let ?s4 = "transfer_grant t i f m s1"
    have new: "\<not> holds_mode s t i m" "m \<in> {1, 2, 3}" using Cons.prems(4,6) True by auto
    show ?thesis
    proof (cases "r = Setup_NULL")
      case r: True
      have "valid_mode m" using new(2) by (auto simp: valid_mode_def AccessExclusiveLock_def)
      then have "s1 = s"
        using table_SetupLockInTable [OF Cons.prems(1,2,3) _ _ S] r new(1) by (auto simp: holds_mode_def)
      then show ?thesis using Cons.prems(1,8) True S r by (auto simp: room transferred_refl)
    next
      case False
      note g = transfer_grant_ok [OF Cons.prems(1,2,3) new(2,1) Cons.prems(7) S False, of f]
      have run: "transfer_modes env room t i f ms ?s4 = ((e, done1), s')"
        using Cons.prems(8) True S g by (simp add: room transfer_grant_def Let_def)
      have w: "\<not> waits_on ?s4 i t" using Cons.prems(2) g by (simp add: transferred_def waits_on_def)
      have d: "FAST_PATH_CHECK_LOCKMODE (allProcs ?s4 i) f k \<Longrightarrow> \<not> holds_mode ?s4 t i k" if "k \<in> set ms" for k
      proof -
        assume "FAST_PATH_CHECK_LOCKMODE (allProcs ?s4 i) f k"
        then have "\<not> holds_mode s t i k" using g Cons.prems(6) that by auto
        moreover have "k \<noteq> m" using Cons.prems(5) that by auto
        ultimately show "\<not> holds_mode ?s4 t i k" using g by blast
      qed
      have "strong_free ?s4 t i" using strong_free_transferred [OF Cons.prems(7)] g by blast
      then have "e = None \<and> table_ok s' \<and> transferred t i ?s4 s'"
        using Cons.IH [OF _ w Cons.prems(3) _ _ d _ run] g Cons.prems(4,5) by simp
      then show ?thesis using transferred_trans g by blast
    qed
  qed
qed

lemma transfer_proc_ok:
  assumes ok: "table_ok s" and n: "\<not> waits_on s i t" and v: "valid_method t" and free: "strong_free s t i"
    and d: "\<And>f. fpRelId (allProcs s i) ! f = locktag_field2 t \<Longrightarrow> disjoint_slot s t i f"
    and run: "transfer_proc env shmem t i s = ((e, done1), s')"
  shows "e = None \<and> table_ok s' \<and> transferred t i s s'"
proof (cases "databaseId (allProcs s i) \<noteq> locktag_field1 t \<or>
    find (\<lambda>f. locktag_field2 t = fpRelId (allProcs s i) ! f \<and> FAST_PATH_GET_BITS (allProcs s i) f \<noteq> 0)
      [0..<FP_LOCK_SLOTS_PER_BACKEND] = None")
  case True
  then have "transfer_proc env shmem t i s = ((None, True), s)"
    unfolding transfer_proc_def Let_def by (elim disjE) (simp_all only: if_True option.case if_cancel not_False_eq_True)
  then show ?thesis using run ok by (simp add: transferred_refl)
next
  case False
  then obtain f where f: "find (\<lambda>f. locktag_field2 t = fpRelId (allProcs s i) ! f \<and> FAST_PATH_GET_BITS (allProcs s i) f \<noteq> 0)
      [0..<FP_LOCK_SLOTS_PER_BACKEND] = Some f" by auto
  then have "fpRelId (allProcs s i) ! f = locktag_field2 t" by (auto simp: find_Some_iff)
  then have "disjoint_slot s t i f" by (rule d)
  then have d1: "FAST_PATH_CHECK_LOCKMODE (allProcs s i) f m \<Longrightarrow> \<not> holds_mode s t i m" for m by (simp add: disjoint_slot_def)
  define ms where "ms = [FAST_PATH_LOCKNUMBER_OFFSET..<FAST_PATH_LOCKNUMBER_OFFSET + FAST_PATH_BITS_PER_SLOT]"
  have ms: "set ms \<subseteq> {1, 2, 3}" "distinct ms"
    by (auto simp: ms_def FAST_PATH_LOCKNUMBER_OFFSET_def FAST_PATH_BITS_PER_SLOT_def)
  have "transfer_modes env (shmem i) t i f ms s = ((e, done1), s')"
    using False f run unfolding transfer_proc_def Let_def ms_def by (simp del: transfer_modes.simps upt_Suc)
  then show ?thesis using d1 by (intro transfer_modes_ok [OF ok n v ms _ free]) blast+
qed

definition transferable :: "LockMem \<Rightarrow> LOCKTAG \<Rightarrow> nat \<Rightarrow> bool" where
  "transferable s t i \<longleftrightarrow> \<not> waits_on s i t \<and> strong_free s t i \<and>
     (\<forall>f. fpRelId (allProcs s i) ! f = locktag_field2 t \<longrightarrow> disjoint_slot s t i f)"

lemma transferable_transferred:
  assumes "transferable s t j" "transferred t i s s'" "j \<noteq> i"
  shows "transferable s' t j"
  using assms strong_free_transferred [OF _ assms(2)]
  by (simp add: transferable_def transferred_def waits_on_def disjoint_slot_def)

lemma table_FastPathTransfer:
  assumes "table_ok s" "valid_method t" "distinct ps" "\<forall>i\<in>set ps. transferable s t i"
    "FastPathTransferRelationLocks env shmem t ps s = ((e, done1), s')"
  shows "e = None \<and> table_ok s'"
  using assms
proof (induction ps arbitrary: s)
  case (Cons i ps)
  obtain e1 d1 s1 where r: "transfer_proc env shmem t i s = ((e1, d1), s1)" by (metis prod.exhaust)
  have "transferable s t i" using Cons.prems(4) by simp
  then have g: "e1 = None \<and> table_ok s1 \<and> transferred t i s s1"
    by (intro transfer_proc_ok [OF Cons.prems(1) _ Cons.prems(2) _ _ r]) (simp_all add: transferable_def)
  show ?case
  proof (cases d1)
    case True
    then have run: "FastPathTransferRelationLocks env shmem t ps s1 = ((e, done1), s')"
      using Cons.prems(5) r g by simp
    have "\<forall>j\<in>set ps. transferable s1 t j"
      using Cons.prems(3,4) transferable_transferred g by (metis distinct.simps(2) list.set_intros(2))
    then show ?thesis using Cons.IH [OF _ Cons.prems(2) _ _ run] g Cons.prems(3) by simp
  qed (use Cons.prems(5) r g in auto)
qed simp

section \<open>Resolving a deadlock\<close>

lemma table_reorder:
  assumes ok: "table_ok s" and v: "valid_orders s ((t, procs) # rest)"
  shows "table_but t (reorder t procs s) \<and> LockMethodLockHash (reorder t procs s) t \<noteq> None \<and>
    lock_ok None (reorder t procs s) t \<and> tidy (reorder t procs s) t {} \<and> exclusive (reorder t procs s) t \<and>
    0 < nRequested (lock_at (reorder t procs s) t) \<and> valid_method t"
proof -
  let ?s = "reorder t procs s"
  have l: "LockMethodLockHash s t \<noteq> None" and st: "set procs = set (waitProcs (lock_at s t))"
    using v by (auto simp: valid_orders_def)
  note g = lock_goodD [OF table_okD(3) [OF ok l]]
  have f: "procLocks (lock_at ?s t) = procLocks (lock_at s t)" "set (waitProcs (lock_at ?s t)) = set (waitProcs (lock_at s t))"
      "requested (lock_at ?s t) = requested (lock_at s t)" "granted (lock_at ?s t) = granted (lock_at s t)"
      "nGranted (lock_at ?s t) = nGranted (lock_at s t)" "nRequested (lock_at ?s t) = nRequested (lock_at s t)"
      "grantMask (lock_at ?s t) = grantMask (lock_at s t)" "waitMask (lock_at ?s t) = waitMask (lock_at s t)"
      "allProcs ?s = allProcs s" "LockMethodProcLockHash ?s = LockMethodProcLockHash s" "hold ?s t q = hold s t q" for q
    using st by (simp_all add: reorder_def hold_def)
  have h: "holders ?s t m = holders s t m" "waiting ?s t m = waiting s t m" "same_session ?s p q = same_session s p q" for m p q
    by (simp_all add: holders_def waiting_def same_session_def f)
  have "only_at t s ?s" by (rule only_at_procs) (simp_all add: reorder_def)
  then have "table_but t ?s"
    using reorder_ok(1) [OF table_okD(1) [OF ok] v]
    by (intro table_but_only [OF table_okD(4) [OF ok]]) (simp_all add: reorder_def)
  moreover have "lock_ok None ?s t"
    using g(1) unfolding lock_ok_def lock_shape_def lock_counts_def f h .
  moreover have "tidy ?s t {}" using g(2) unfolding tidy_def f .
  moreover have "exclusive ?s t" using g(4) unfolding exclusive_def h .
  ultimately show ?thesis using g(5,6) f(6) by (simp add: reorder_def)
qed

lemma table_rearrange:
  assumes ok: "table_ok s" and v: "valid_orders s ((t, procs) # rest)"
  shows "table_ok (rearrange (t, procs) s)"
proof -
  let ?s = "reorder t procs s"
  have r: "table_but t ?s" "LockMethodLockHash ?s t \<noteq> None" "lock_ok None ?s t" "tidy ?s t {}" "exclusive ?s t"
      "0 < nRequested (lock_at ?s t)" "valid_method t"
    using table_reorder [OF assms] by blast+
  have "table_ok ?s" if "locktag_type t = LOCKTAG_RESOURCE_QUEUE"
    using r that by (simp add: table_ok_iff [of ?s t] lock_good_def waiters_blocked_def)
  then show ?thesis
    using table_wakeup [OF r] unfolding rearrange_eq [OF table_okD(1) [OF ok] v] by simp
qed

lemma table_rearrange_all:
  "table_ok s \<Longrightarrow> valid_orders s orders \<Longrightarrow> table_ok (fold rearrange orders s)"
proof (induction orders arbitrary: s)
  case (Cons x orders)
  obtain t procs where x: "x = (t, procs)" by (cases x)
  note v = Cons.prems(2) [unfolded x]
  show ?case
    using Cons.IH [OF table_rearrange [OF Cons.prems(1) v] rearrange_orders [OF table_okD(1) [OF Cons.prems(1)] v]]
    by (simp add: x)
qed simp

lemma table_leave_queue: "table_ok s \<Longrightarrow> waits_on s p t \<Longrightarrow> table_ok (RemoveFromWaitQueue p s)"
proof -
  assume a: "table_ok s" "waits_on s p t"
  then have "LockMethodLockHash s t \<noteq> None" using queues_okD(6) table_okD(1) by blast
  note g = lock_goodD [OF table_okD(3) [OF a(1) this]]
  show ?thesis by (rule table_RemoveFromWaitQueue [OF table_okD(4) [OF a(1)] g(1,2,4,6) a(2)])
qed

lemma table_DeadLockCheck:
  assumes ok: "table_ok s" and fit: "fits n s" and p: "waits_on s p t" and len: "length (deadlockDetails w) = n"
  shows "\<exists>st s' w'. DeadLockCheck n me p s w = Inr (st, s', w') \<and> table_ok s' \<and> (st = DS_HARD_DEADLOCK \<longrightarrow> s' = s)"
proof (rule DeadLockCheck_spec [OF table_okD(1) [OF ok] fit p len, of me])
  fix w' assume "DeadLockCheck n me p s w = Inr (DS_HARD_DEADLOCK, s, w')"
  then show ?thesis using ok by blast
next
  fix st s' w' orders
  assume "DeadLockCheck n me p s w = Inr (st, s', w')" "valid_orders s orders" "s' = fold rearrange orders s"
    "st \<in> {DS_NO_DEADLOCK, DS_SOFT_DEADLOCK, DS_BLOCKED_BY_AUTOVACUUM}"
  then show ?thesis using table_rearrange_all [OF ok] by auto
qed

lemma table_CheckDeadLock:
  assumes ok: "table_ok s" and fit: "fits (MaxBackends env) s" and len: "length (deadlockDetails (dwork b)) = MaxBackends env"
    and p: "linked (allProcs s (MyProc b)) \<Longrightarrow> waits_on s (MyProc b) t" and nr: "\<not> awaits_resource env t"
  shows "\<exists>b' s'. CheckDeadLock env (b, s) = Inr (b', s') \<and> table_ok s'"
proof (cases "\<not> proc_exit_inprogress env \<and> linked (allProcs s (MyProc b))")
  case False
  then show ?thesis using ok by (simp add: CheckDeadLock_def)
next
  case alive: True
  then have True: "linked (allProcs s (MyProc b))" by simp
  let ?me = "MyProc b"
  obtain st s1 w where D: "DeadLockCheck (MaxBackends env) ?me ?me s (dwork b) = Inr (st, s1, w)" "table_ok s1"
      "st = DS_HARD_DEADLOCK \<longrightarrow> s1 = s"
    using table_DeadLockCheck [OF ok fit p [OF True] len] by blast
  have bump: "table_ok (set_proc ?me ((allProcs x ?me)\<lparr>sem := Suc (sem (allProcs x ?me))\<rparr>) x) \<longleftrightarrow> table_ok x" for x
    by (rule same_locks_table(1)) (simp add: same_locks_def hold_def)
  have "table_ok (RemoveFromWaitQueue ?me s1)" if "st = DS_HARD_DEADLOCK"
    using table_leave_queue [OF ok p [OF True]] D(3) that by simp
  moreover have "waitLock (allProcs s ?me) = Some t" using p [OF True] by (simp add: waits_on_def)
  ultimately show ?thesis using D alive bump nr by (simp add: CheckDeadLock_def Let_def)
qed

lemma table_LockErrorCleanup:
  assumes ok: "table_ok s" and p: "linked (allProcs s (MyProc b)) \<Longrightarrow> waits_on s (MyProc b) t"
  shows "table_ok (snd (LockErrorCleanup env (b, s)))"
proof -
  obtain b' s' where a: "AbortStrongLockAcquire env (HOLD_INTERRUPTS b, s) = (b', s')" by fastforce
  note same = AbortStrongLockAcquire_same [OF a]
  note d = same_locksD [OF conjunct1 [OF same]]
  have ok': "table_ok s'" using same_locks_table(1) same ok by blast
  have "table_ok (RemoveFromWaitQueue (MyProc b') s')" if "linked (allProcs s' (MyProc b'))"
    using table_leave_queue [OF ok', of "MyProc b'" t] p that same d(5,6) by (simp add: HOLD_INTERRUPTS_def)
  then show ?thesis using ok' by (auto simp: LockErrorCleanup_def a split: option.splits)
qed

section \<open>The transition system\<close>

text \<open>
  The sections of the operations that run under the lock of a partition, for any backend whose
  local tables are consistent with the shared one: a backend asks only for a mode it does not hold,
  is not asleep when it asks or releases, and releases only what it holds.  A transfer of fast-path
  locks relies on what the strong-lock counts ensure.  The last step stands for everything that
  leaves the table alone: fast-path locks, strong-lock counts, semaphores, marks for release.  Locks
  of resource queues that a dispatcher waits for are cancelled by their own scheduler.
\<close>

inductive lock_step :: "LockEnv \<Rightarrow> LockMem \<Rightarrow> LockMem \<Rightarrow> bool" for env where
  step_acquire: "\<not> linked (allProcs s (MyProc b)) \<Longrightarrow> valid_method t \<Longrightarrow> valid_mode m \<Longrightarrow>
    \<not> holds_mode s t (MyProc b) m \<Longrightarrow>
    acquire_main env room t m owner dontWait reportMemoryError (b, s) = (r, b', s') \<Longrightarrow> lock_step env s s'"
| step_transfer: "valid_method t \<Longrightarrow> \<forall>i < allProcCount env. transferable s t i \<Longrightarrow>
    FastPathTransferRelationLocks env shmem t [0..<allProcCount env] s = (r, s') \<Longrightarrow> lock_step env s s'"
| step_release: "\<not> linked (allProcs s (MyProc b)) \<Longrightarrow>
    ll_lock (locallock_at b (t, m)) = None \<or> LockMethodProcLockHash s (t, MyProc b) \<noteq> None \<Longrightarrow>
    release_main env t m (b, s) = (r, b', s') \<Longrightarrow> lock_step env s s'"
| step_refind: "\<not> linked (allProcs s p) \<Longrightarrow> LockRefindAndRelease env p t m dec s = Inr s' \<Longrightarrow> lock_step env s s'"
| step_release_all: "\<not> linked (allProcs s p) \<Longrightarrow> LockMethodProcLockHash s (t, p) \<noteq> None \<Longrightarrow>
    allLocks \<or> (\<forall>i. bit (releaseMask (proclock_at s (t, p))) i \<longrightarrow> bit (hold s t p) i) \<Longrightarrow>
    lock_step env s (release_proclock lockmethodid allLocks (t, p) s)"
| step_deadlock: "fits (MaxBackends env) s \<Longrightarrow> length (deadlockDetails (dwork b)) = MaxBackends env \<Longrightarrow>
    (linked (allProcs s (MyProc b)) \<longrightarrow> waits_on s (MyProc b) t) \<Longrightarrow> \<not> awaits_resource env t \<Longrightarrow>
    CheckDeadLock env (b, s) = Inr (b', s') \<Longrightarrow> lock_step env s s'"
| step_cleanup: "(linked (allProcs s (MyProc b)) \<longrightarrow> waits_on s (MyProc b) t) \<Longrightarrow>
    LockErrorCleanup env (b, s) = (b', s') \<Longrightarrow> lock_step env s s'"
| step_other: "same_locks s s' \<Longrightarrow> lock_step env s s'"

lemma lock_step_table:
  assumes "lock_step env s s'" "table_ok s"
  shows "table_ok s'"
  using assms
proof (induction rule: lock_step.induct)
  case (step_acquire s b t m room owner dontWait reportMemoryError r b' s')
  then show ?case
    using table_acquire_main [OF step_acquire.prems step_acquire.hyps(1-3), of env room owner dontWait reportMemoryError]
    by (simp add: holds_mode_def)
next
  case (step_transfer t s shmem r s')
  then show ?case
    using table_FastPathTransfer [of s t "[0..<allProcCount env]" env shmem "fst r" "snd r" s'] by simp
next
  case (step_release s b t m r b' s')
  then show ?case using table_release_main [OF step_release.prems step_release.hyps(1), of t m env] by auto
next
  case (step_refind s p t m dec s')
  then show ?case using table_LockRefindAndRelease by blast
next
  case (step_release_all s p t allLocks lockmethodid)
  then show ?case using table_release_proclock by blast
next
  case (step_deadlock s b t b' s')
  then show ?case using table_CheckDeadLock [OF step_deadlock.prems step_deadlock.hyps(1,2), of t] by auto
next
  case (step_cleanup s b t b' s')
  then show ?case using table_LockErrorCleanup [OF step_cleanup.prems, of b t env] by simp
next
  case (step_other s s')
  then show ?case using same_locks_table(1) by blast
qed

definition empty_table :: "LockMem \<Rightarrow> bool" where
  "empty_table s \<longleftrightarrow> LockMethodLockHash s = Map.empty \<and> LockMethodProcLockHash s = Map.empty \<and>
     (\<forall>p. \<not> linked (allProcs s p))"

definition lock_reachable :: "LockEnv \<Rightarrow> LockMem \<Rightarrow> bool" where
  "lock_reachable env s \<longleftrightarrow> (\<exists>s0. empty_table s0 \<and> (lock_step env)\<^sup>*\<^sup>* s0 s)"

lemma reachable_table:
  assumes "lock_reachable env s"
  shows "table_ok s"
proof -
  obtain s0 where s0: "empty_table s0" "(lock_step env)\<^sup>*\<^sup>* s0 s" using assms by (auto simp: lock_reachable_def)
  have "table_ok s0" using s0(1) by (simp add: empty_table_def table_ok_def queues_ok_def waits_on_def)
  with s0(2) show ?thesis by (induction rule: rtranclp_induct) (auto intro: lock_step_table)
qed

section \<open>What users of locks rely on\<close>

text \<open>
  The contract of a lock manager: \<open>ok\<close> tells its good states, \<open>holds s t p k\<close> that process \<open>p\<close> holds
  object \<open>t\<close> in mode \<open>k\<close>, \<open>friends\<close> the processes that do not exclude one another, \<open>waits\<close> the
  sleeping processes and \<open>blockers\<close> who keeps whom waiting.
\<close>

locale lock_service =
  fixes ok :: "'s \<Rightarrow> bool" and holds :: "'s \<Rightarrow> 't \<Rightarrow> 'p \<Rightarrow> 'm \<Rightarrow> bool" and conflict :: "'m \<Rightarrow> 'm \<Rightarrow> bool"
    and friends :: "'s \<Rightarrow> 'p \<Rightarrow> 'p \<Rightarrow> bool" and waits :: "'s \<Rightarrow> 'p \<Rightarrow> bool" and blockers :: "'s \<Rightarrow> ('p \<times> 'p) set"
  assumes exclusion: "ok s \<Longrightarrow> holds s t p k \<Longrightarrow> holds s t q l \<Longrightarrow> conflict k l \<Longrightarrow> friends s p q"
    and reason: "ok s \<Longrightarrow> waits s p \<Longrightarrow> \<exists>q. (p, q) \<in> blockers s"
begin

lemma sole_holder:
  assumes "ok s" "holds s t p k" "\<And>q l. holds s t q l \<Longrightarrow> conflict k l"
  shows "{q. \<exists>l. holds s t q l} \<subseteq> {q. friends s p q}"
  using assms exclusion by blast

text \<open>Without a cycle, every process that waits does so, in the end, for one that does not.\<close>

lemma ends_at_running:
  assumes ok: "ok s" and fin: "finite (blockers s)" and ac: "acyclic (blockers s)"
  shows "\<exists>q. (p, q) \<in> (blockers s)\<^sup>* \<and> \<not> waits s q"
proof (rule ccontr)
  assume no: "\<nexists>q. (p, q) \<in> (blockers s)\<^sup>* \<and> \<not> waits s q"
  have "wf ((blockers s)\<inverse>)" using fin ac by (rule finite_acyclic_wf_converse)
  then obtain q where q: "(p, q) \<in> (blockers s)\<^sup>*" "\<And>r. (r, q) \<in> (blockers s)\<inverse> \<Longrightarrow> (p, r) \<notin> (blockers s)\<^sup>*"
    using wfE_min [of "(blockers s)\<inverse>" p "{q. (p, q) \<in> (blockers s)\<^sup>*}"] by auto
  then obtain r where "(q, r) \<in> blockers s" using reason [OF ok] no by blast
  then show False using q by (meson converse_iff rtrancl.rtrancl_into_rtrancl)
qed

end

definition waits_in_queue :: "LockMem \<Rightarrow> nat \<Rightarrow> bool" where
  "waits_in_queue s p \<longleftrightarrow> (\<exists>t. waits_on s p t \<and> locktag_type t \<noteq> LOCKTAG_RESOURCE_QUEUE)"

lemma reachable_exclusive:
  assumes r: "lock_reachable env s" and p: "holds_mode s t p k" and q: "holds_mode s t q l" and c: "conflicts k l"
  shows "same_session s p q"
proof -
  note ok = reachable_table [OF r]
  have h: "LockMethodLockHash s t \<noteq> None" using table_okD(2) [OF ok] p by (auto simp: holds_mode_def)
  note g = lock_goodD [OF table_okD(3) [OF ok h]]
  have "x \<in> set (procLocks (lock_at s t)) \<longleftrightarrow> LockMethodProcLockHash s (t, x) \<noteq> None" for x
    using g(1) unfolding lock_ok_def lock_shape_def by blast
  then have "p \<in> holders s t k" "q \<in> holders s t l" using p q by (simp_all add: holders_def holds_mode_def)
  then show ?thesis using g(4) c unfolding exclusive_def by blast
qed

lemma reachable_blocked:
  assumes r: "lock_reachable env s" and w: "waits_in_queue s p"
  shows "\<exists>q. (p, q) \<in> blocked_by s"
proof -
  obtain t where t: "waits_on s p t" "locktag_type t \<noteq> LOCKTAG_RESOURCE_QUEUE" using w by (auto simp: waits_in_queue_def)
  note ok = reachable_table [OF r]
  note q = queues_okD [OF table_okD(1) [OF ok]]
  have "all_blocked s t"
    using lock_goodD(3) [OF table_okD(3) [OF ok q(6) [OF t(1)]]] t(2) by (simp add: waiters_blocked_def)
  then have "blocked s t p" using q(1) [OF t(1)] by (simp add: all_blocked_def)
  then show ?thesis using t(1) unfolding blocked_def blocked_by_def by blast
qed

interpretation lm: lock_service "lock_reachable env" holds_mode conflicts same_session waits_in_queue blocked_by for env
  by unfold_locales (fact reachable_exclusive, fact reachable_blocked)

end
