(* ===== verification/DeadlockProps.thy ===== *)
theory DeadlockProps
  imports DeadlockCheck LockInv
begin

text \<open>
  What the deadlock detector guarantees, stated for any lock table whose wait queues are
  consistent, with a soft deadlock of three processes on which the statements are applied; and
  two situations in which the detector does not do what it is meant to.
\<close>

section \<open>A soft deadlock\<close>

text \<open>
  Process 1 holds table A in share mode and waits for table B, which 3 holds; 3 waits for A
  behind 2, whose request conflicts with both.  Moving 3 ahead of 2 resolves the deadlock.
\<close>

definition table_a :: LOCKTAG where "table_a = SET_LOCKTAG_RELATION 1 100"
definition table_b :: LOCKTAG where "table_b = SET_LOCKTAG_RELATION 1 200"

definition idle_proc :: "int \<Rightarrow> PGPROC" where
  "idle_proc n = \<lparr>linked = False, sem = 0, waitStatus = STATUS_OK, pid = n, databaseId = 1,
     mppSessionId = InvalidGpSessionId, is_autovacuum = False, waitLock = None, waitProcLock = None,
     waitLockMode = 0, heldLocks = 0, myProcLocks = (\<lambda>_. []), fpLockBits = 0,
     fpHoldTillEndXactBits = 0, fpRelId = replicate 16 0\<rparr>"

definition waiting_proc :: "int \<Rightarrow> nat \<Rightarrow> LOCKTAG \<Rightarrow> LOCKMODE \<Rightarrow> PGPROC" where
  "waiting_proc n p t m = (idle_proc n)\<lparr>linked := True, waitStatus := STATUS_WAITING,
     waitLock := Some t, waitProcLock := Some (t, p), waitLockMode := m\<rparr>"

definition ex_procs :: "nat \<Rightarrow> PGPROC" where
  "ex_procs p = (if p = 1 then waiting_proc 101 1 table_b AccessExclusiveLock
     else if p = 2 then waiting_proc 102 2 table_a AccessExclusiveLock
     else if p = 3 then waiting_proc 103 3 table_a AccessShareLock
     else idle_proc 0)"

definition lock_a :: LOCK where
  "lock_a = \<lparr>grantMask = LOCKBIT_ON 5, waitMask = LOCKBIT_ON 8 OR LOCKBIT_ON 1,
     procLocks = [1, 2, 3], waitProcs = [2, 3],
     requested = (\<lambda>_. 0)(5 := 1, 8 := 1, 1 := 1), nRequested = 3,
     granted = (\<lambda>_. 0)(5 := 1), nGranted = 1, holdTillEndXact = False\<rparr>"

definition lock_b :: LOCK where
  "lock_b = \<lparr>grantMask = LOCKBIT_ON 8, waitMask = LOCKBIT_ON 8,
     procLocks = [3, 1], waitProcs = [1],
     requested = (\<lambda>_. 0)(8 := 2), nRequested = 2,
     granted = (\<lambda>_. 0)(8 := 1), nGranted = 1, holdTillEndXact = False\<rparr>"

definition ex_mem :: LockMem where
  "ex_mem = \<lparr>LockMethodLockHash = [table_a \<mapsto> lock_a, table_b \<mapsto> lock_b],
     LockMethodProcLockHash = [(table_a, 1) \<mapsto> \<lparr>holdMask = LOCKBIT_ON 5, releaseMask = 0\<rparr>,
       (table_a, 2) \<mapsto> \<lparr>holdMask = 0, releaseMask = 0\<rparr>,
       (table_a, 3) \<mapsto> \<lparr>holdMask = 0, releaseMask = 0\<rparr>,
       (table_b, 3) \<mapsto> \<lparr>holdMask = LOCKBIT_ON 8, releaseMask = 0\<rparr>,
       (table_b, 1) \<mapsto> \<lparr>holdMask = 0, releaseMask = 0\<rparr>],
     allProcs = ex_procs, strong_count = (\<lambda>_. 0)\<rparr>"

definition ex_work :: "nat \<Rightarrow> DeadlockWork" where
  "ex_work n = InitDeadLockChecking n \<lparr>info_locktag = table_a, info_lockmode = 0, info_pid = 0\<rparr>"

lemma tables_differ [simp]: "table_a \<noteq> table_b" "table_b \<noteq> table_a"
  by (simp_all add: table_a_def table_b_def SET_LOCKTAG_RELATION_def)

lemma ex_waits_on: "waits_on ex_mem p t \<longleftrightarrow> p = 1 \<and> t = table_b \<or> p = 2 \<and> t = table_a \<or> p = 3 \<and> t = table_a"
  by (auto simp: waits_on_def ex_mem_def ex_procs_def waiting_proc_def idle_proc_def)

lemma ex_queues_ok: "queues_ok ex_mem"
proof -
  have "distinct (waitProcs l) \<and> (\<forall>p. p \<in> set (waitProcs l) \<longleftrightarrow> waits_on ex_mem p t)"
    if "LockMethodLockHash ex_mem t = Some l" for t l
    using that unfolding ex_waits_on
    by (auto simp: ex_mem_def lock_a_def lock_b_def split: if_splits)
  moreover have "LockMethodLockHash ex_mem t \<noteq> None \<and> waitProcLock (allProcs ex_mem p) = Some (t, p)"
    if "waits_on ex_mem p t" for p t
    using that unfolding ex_waits_on
    by (auto simp: ex_mem_def ex_procs_def waiting_proc_def)
  ultimately show ?thesis unfolding queues_ok_def by blast
qed

lemma ex_participants: "participants ex_mem \<subseteq> {1, 2, 3}"
proof -
  have "procLocks (lock_at ex_mem table_a) = [1, 2, 3]" "procLocks (lock_at ex_mem table_b) = [3, 1]"
    by (simp_all add: lock_at_def ex_mem_def lock_a_def lock_b_def)
  then show ?thesis by (auto simp: participants_def waiters_def ex_waits_on)
qed

lemma ex_fits: "fits 3 ex_mem"
  using ex_participants card_mono [OF _ ex_participants] finite_subset [OF ex_participants]
  by (simp add: fits_def)

lemma ex_objects:
  "lock_at ex_mem table_a = lock_a" "lock_at ex_mem table_b = lock_b" "allProcs ex_mem = ex_procs"
  "holdMask (proclock_at ex_mem (table_a, 1)) = LOCKBIT_ON 5"
  "holdMask (proclock_at ex_mem (table_a, 2)) = 0" "holdMask (proclock_at ex_mem (table_a, 3)) = 0"
  "holdMask (proclock_at ex_mem (table_b, 3)) = LOCKBIT_ON 8"
  "holdMask (proclock_at ex_mem (table_b, 1)) = 0"
  by (simp_all add: lock_at_def proclock_at_def ex_mem_def)

lemma soft_mask: "push_bit m 1 AND a \<noteq> 0 \<longleftrightarrow> bit (a :: LOCKMASK) m"
  using mask_has_mode [of a m] by (simp add: LOCKBIT_ON_def and.commute)

lemma soft_blockers_bits:
  "soft_blockers s orders t p = filter (\<lambda>q. bit (LockConflicts ! waitLockMode (allProcs s p)) (waitLockMode (allProcs s q)))
     (takeWhile (\<lambda>q. q \<noteq> p) (queue_order s orders t))"
  by (simp only: soft_blockers_def soft_mask GetLocksMethodTable_simps)

lemmas blockers_eval = hard_blockers_def soft_blockers_bits holds_conflicting_def queue_order_def
  mask_has_mode upt_rec [of _ "numeral n" for n] LockConflicts_modes valid_mode_def AccessExclusiveLock_def

lemma ex_blockers:
  "hard_blockers ex_mem table_b 1 = [3]" "hard_blockers ex_mem table_a 2 = [1]"
  "hard_blockers ex_mem table_a 3 = []" "soft_blockers ex_mem [(table_a, [3, 2])] table_b 1 = []"
  "soft_blockers ex_mem [(table_a, [3, 2])] table_a 2 = [3]"
  "soft_blockers ex_mem [(table_a, [3, 2])] table_a 3 = []"
  by (simp_all add: blockers_eval ex_objects ex_objects [unfolded One_nat_def] lock_a_def lock_b_def
      ex_procs_def waiting_proc_def idle_proc_def AccessShareLock_def)

lemmas ex_blockers_simps = ex_blockers ex_blockers [unfolded One_nat_def]

lemma acyclic_rank: "(\<And>x y. (x, y) \<in> r \<Longrightarrow> (f y :: nat) < f x) \<Longrightarrow> acyclic r"
  by (rule wf_acyclic [THEN acyclic_converse [THEN iffD1]], rule wf_subset [OF wf_measure [of f]]) auto

lemma ex_solution: "solution ex_mem [] [(table_a, [3, 2])]"
proof -
  have "acyclic (waits_for ex_mem [(table_a, [3, 2])])"
    by (rule acyclic_rank [where f = "\<lambda>p. if p = 2 then 2 else if p = 1 then 1 else 0"])
      (auto simp: waits_for_def hard_edge_def soft_edge_def ex_waits_on ex_blockers_simps)
  moreover have "valid_orders ex_mem [(table_a, [3, 2])]"
    by (auto simp: valid_orders_def lock_at_def ex_mem_def lock_a_def)
  ultimately show ?thesis by (simp add: solution_def)
qed

lemma ex_pairs: "card (conflict_pairs ex_mem) \<le> 3"
proof -
  have "conflict_pairs ex_mem \<subseteq> {{2, 3}}"
    by (auto simp: conflict_pairs_def ex_waits_on)
  then show ?thesis using card_mono [of "{{2, 3 :: nat}}" "conflict_pairs ex_mem"] by simp
qed

lemma ex_details: "length (deadlockDetails (ex_work n)) = n"
  by (simp add: ex_work_def InitDeadLockChecking_def)

section \<open>What the detector guarantees\<close>

text \<open>
  C11.  \<open>FindLockCycle\<close> returns true exactly when the process is on a cycle of the waits-for
  graph of the given queue orders; the entries it leaves in \<open>deadlockDetails\<close> and the soft edges
  it returns are those of one such cycle.  It terminates and stays within its arrays when the
  processes it can meet are at most \<open>MaxBackends\<close>.
\<close>

theorem FindLockCycle_finds_cycles:
  assumes "finite P" "card P \<le> n" "p \<in> P" "waits_for s (waitOrders w) `` P \<subseteq> P"
    "length (deadlockDetails w) = n"
  shows "\<exists>w'. FindLockCycle n me s p w = Inr ((p, p) \<in> (waits_for s (waitOrders w))\<^sup>+, w') \<and>
    ((p, p) \<in> (waits_for s (waitOrders w))\<^sup>+ \<longrightarrow>
      (\<exists>ps. walk s (waitOrders w) p p (p # ps) (softEdges w') \<and>
        nDeadlockDetails w' = length (p # ps) \<and> length (p # ps) \<le> n \<and>
        (\<forall>i < length (p # ps). deadlockDetails w' ! i = deadlock_info s ((p # ps) ! i))))"
  by (rule FindLockCycle_spec [OF assms]) blast

lemma ex_closed: "waits_for ex_mem (waitOrders (ex_work 3)) `` {1, 2, 3} \<subseteq> {1, 2, 3}"
  by (auto simp: waits_for_def hard_edge_def soft_edge_def ex_waits_on ex_blockers_simps ex_objects lock_a_def lock_b_def
      soft_blockers_bits queue_order_def ex_work_def InitDeadLockChecking_def dest!: set_takeWhileD split: if_splits)

lemma FindLockCycle_finds_cycles_witness:
  "\<exists>w'. FindLockCycle 3 1 ex_mem 1 (ex_work 3) =
     Inr ((1, 1) \<in> (waits_for ex_mem (waitOrders (ex_work 3)))\<^sup>+, w')"
  using FindLockCycle_finds_cycles [of "{1, 2, 3}" 3 1 ex_mem "ex_work 3" 1, OF _ _ _ ex_closed ex_details]
  by auto

text \<open>
  C12.  \<open>TopoSort\<close> rearranges a wait queue so that every constraint on it is obeyed, and fails
  only when no order of the queue obeys them all; its assertions hold.
\<close>

theorem TopoSort_orders:
  assumes "distinct (waitProcs (lock_at s t))"
    "\<forall>e\<in>set (constraints_on s t es). waiter e \<in> set (waitProcs (lock_at s t)) \<and>
      blocker e \<in> set (waitProcs (lock_at s t))"
  shows "\<exists>r. TopoSort s t es = Inr r \<and>
    (case r of
       Some ord \<Rightarrow> distinct ord \<and> set ord = set (waitProcs (lock_at s t)) \<and> obeys ord (constraints_on s t es)
     | None \<Rightarrow> (\<nexists>ord. set ord = set (waitProcs (lock_at s t)) \<and> obeys ord (constraints_on s t es)))"
  by (rule TopoSort_spec [OF assms]) (fastforce split: option.splits)+

lemma TopoSort_orders_witness:
  "\<exists>r. TopoSort ex_mem table_a [\<lparr>waiter = 3, blocker = 2\<rparr>] = Inr r \<and>
    (case r of
       Some ord \<Rightarrow> distinct ord \<and> set ord = {2, 3} \<and> before_in ord 3 2
     | None \<Rightarrow> (\<nexists>ord. set ord = {2, 3 :: nat} \<and> before_in ord 3 2))"
proof -
  have "constraints_on ex_mem table_a [\<lparr>waiter = 3, blocker = 2\<rparr>] = [\<lparr>waiter = 3, blocker = 2\<rparr>]"
    by (simp add: constraints_on_def ex_objects ex_procs_def waiting_proc_def)
  then show ?thesis
    using TopoSort_orders [of ex_mem table_a "[\<lparr>waiter = 3, blocker = 2\<rparr>]"]
    by (simp add: ex_objects lock_a_def obeys_def cong del: option.case_cong_weak)
qed

text \<open>
  C9.  \<open>DeadLockCheck\<close> always returns, by neither of its two \<open>elog(FATAL)\<close> exits.  It reports a
  hard deadlock only for a process on a cycle of the waits-for graph, changing nothing and
  leaving the processes of the cycle in \<open>deadlockDetails\<close>; with any other result the process is
  on no cycle of the table it leaves behind, which it has changed only if it reports a soft
  deadlock.
\<close>

theorem DeadLockCheck_correct:
  assumes "queues_ok s" "fits n s" "waits_on s p t" "length (deadlockDetails w) = n"
  shows "\<exists>st s' w'. DeadLockCheck n me p s w = Inr (st, s', w') \<and>
    (if st = DS_HARD_DEADLOCK
     then s' = s \<and> (\<exists>ps es. walk s [] p p (p # ps) es \<and> nDeadlockDetails w' = length (p # ps) \<and>
       (\<forall>i < length (p # ps). deadlockDetails w' ! i = deadlock_info s ((p # ps) ! i)))
     else queues_ok s' \<and> (p, p) \<notin> (waits_for s' [])\<^sup>+ \<and> (s' = s \<or> st = DS_SOFT_DEADLOCK))"
proof (rule DeadLockCheck_spec [OF assms, of me])
  fix w' ps
  assume "DeadLockCheck n me p s w = Inr (DS_HARD_DEADLOCK, s, w')"
    "walk s [] p p (p # ps) (softEdges w')" "nDeadlockDetails w' = length (p # ps)"
    "\<forall>i < length (p # ps). deadlockDetails w' ! i = deadlock_info s ((p # ps) ! i)"
  then show ?thesis by (intro exI [of _ DS_HARD_DEADLOCK] exI [of _ s] exI [of _ w']) auto
next
  fix st s' w' orders
  assume "DeadLockCheck n me p s w = Inr (st, s', w')"
    "st \<in> {DS_NO_DEADLOCK, DS_SOFT_DEADLOCK, DS_BLOCKED_BY_AUTOVACUUM}"
    "queues_ok s'" "(p, p) \<notin> (waits_for s' [])\<^sup>+" "st \<noteq> DS_SOFT_DEADLOCK \<Longrightarrow> s' = s"
  then show ?thesis by (intro exI [of _ st] exI [of _ s'] exI [of _ w']) auto
qed

lemma DeadLockCheck_correct_witness:
  "\<exists>st s' w'. DeadLockCheck 3 1 1 ex_mem (ex_work 3) = Inr (st, s', w') \<and>
    (st = DS_HARD_DEADLOCK \<or> queues_ok s' \<and> (1, 1) \<notin> (waits_for s' [])\<^sup>+)"
proof -
  have "waits_on ex_mem 1 table_b" by (simp add: ex_waits_on)
  from DeadLockCheck_correct [OF ex_queues_ok ex_fits this ex_details, of 1]
  show ?thesis by (auto split: if_splits)
qed

text \<open>
  C10.  \<open>DeadLockCheck\<close> finds a way out whenever there is one: if some rearrangement of the wait
  queues leaves the table without a cycle and at most \<open>MaxBackends\<close> pairs of processes wait for
  the same object in conflicting modes, it does not report a hard deadlock.  (The comment in
  \<open>InitDeadLockChecking\<close> asks whether room for \<open>MaxBackends\<close> constraints is enough.)
\<close>

theorem DeadLockCheck_resolves:
  assumes "queues_ok s" "fits n s" "waits_on s p t" "length (deadlockDetails w) = n"
    "solution s [] sol" "card (conflict_pairs s) \<le> n"
  shows "\<exists>st s' w'. DeadLockCheck n me p s w = Inr (st, s', w') \<and> st \<noteq> DS_HARD_DEADLOCK \<and>
    (p, p) \<notin> (waits_for s' [])\<^sup>+"
  by (rule DeadLockCheck_spec [OF assms(1-4), of me]) (use assms(5,6) in auto)

lemma DeadLockCheck_resolves_witness:
  "\<exists>st s' w'. DeadLockCheck 3 1 1 ex_mem (ex_work 3) = Inr (st, s', w') \<and> st \<noteq> DS_HARD_DEADLOCK \<and>
    (1, 1) \<notin> (waits_for s' [])\<^sup>+"
proof -
  have "waits_on ex_mem 1 table_b" by (simp add: ex_waits_on)
  from DeadLockCheck_resolves [OF ex_queues_ok ex_fits this ex_details ex_solution ex_pairs]
  show ?thesis .
qed

section \<open>Prepared transactions overrun the work arrays\<close>

text \<open>
  Processes 1 and 2 are all the backends there can be; 3 is the dummy process of a prepared
  transaction, whose \<open>pid\<close> is 0.  Process 1 waits for a table both others hold.
\<close>

definition share_mem :: "(nat \<Rightarrow> PGPROC) \<Rightarrow> nat list \<Rightarrow> nat list \<Rightarrow> LockMem" where
  "share_mem procs as bs =
     \<lparr>LockMethodLockHash = [
        table_a \<mapsto> \<lparr>grantMask = LOCKBIT_ON 1, waitMask = LOCKBIT_ON 8, procLocks = as @ [1], waitProcs = [1],
          requested = (\<lambda>_. 0)(1 := int (length as), 8 := 1), nRequested = int (length as) + 1,
          granted = (\<lambda>_. 0)(1 := int (length as)), nGranted = int (length as), holdTillEndXact = False\<rparr>,
        table_b \<mapsto> \<lparr>grantMask = LOCKBIT_ON 1, waitMask = LOCKBIT_ON 8, procLocks = bs @ [2], waitProcs = [2],
          requested = (\<lambda>_. 0)(1 := int (length bs), 8 := 1), nRequested = int (length bs) + 1,
          granted = (\<lambda>_. 0)(1 := int (length bs)), nGranted = int (length bs), holdTillEndXact = False\<rparr>],
      LockMethodProcLockHash = (\<lambda>(t, p).
        if t = table_a \<and> p \<in> set as \<or> t = table_b \<and> p \<in> set bs
        then Some \<lparr>holdMask = LOCKBIT_ON 1, releaseMask = 0\<rparr>
        else if t = table_a \<and> p = 1 \<or> t = table_b \<and> p = 2
        then Some \<lparr>holdMask = 0, releaseMask = 0\<rparr> else None),
      allProcs = procs, strong_count = (\<lambda>_. 0)\<rparr>"

definition prepared_procs :: "nat \<Rightarrow> PGPROC" where
  "prepared_procs p = (if p = 1 then waiting_proc 101 1 table_a AccessExclusiveLock
     else if p = 2 then waiting_proc 102 2 table_b AccessExclusiveLock else idle_proc 0)"

definition session_procs :: "nat \<Rightarrow> PGPROC" where
  "session_procs p =
     (if p = 1 then (waiting_proc 101 1 table_a AccessExclusiveLock)\<lparr>mppSessionId := 7\<rparr>
      else if p = 2 then (waiting_proc 102 2 table_b AccessExclusiveLock)\<lparr>mppSessionId := 7\<rparr>
      else idle_proc (100 + int p))"

definition prepared_mem :: LockMem where "prepared_mem = share_mem prepared_procs [2, 3] [3]"
definition session_mem :: LockMem where "session_mem = share_mem session_procs [2, 3] [1, 4]"

text \<open>
  The search visits the dummy processes of prepared transactions too, while its arrays have
  room for \<open>MaxBackends\<close> processes only: with two backends, one of them waiting for a table the
  other and a prepared transaction hold, it writes past the end of \<open>visitedProcs\<close>.
\<close>

theorem FindLockCycle_prepared_overrun:
  "FindLockCycle 2 1 prepared_mem 1 (ex_work 2) = Inl Overrun"
  by (simp add: FindLockCycle_def blockers_eval share_mem_def prepared_mem_def lock_at_def proclock_at_def prepared_procs_def waiting_proc_def idle_proc_def
     ex_work_def InitDeadLockChecking_def numeral_eq_Suc note_autovacuum_def)

lemma session_blocked_by:
  "blocked_by session_mem \<subseteq> {(1, 3), (2, 4)}"
proof -
  let ?s = session_mem
  have w: "waits_on ?s p t \<longleftrightarrow> p = 1 \<and> t = table_a \<or> p = 2 \<and> t = table_b" for p t
    by (auto simp: waits_on_def share_mem_def session_mem_def session_procs_def waiting_proc_def idle_proc_def)
  have h: "\<not> bit (hold ?s table_a 1) k" "\<not> bit (hold ?s table_b 2) k" for k
    by (simp_all add: hold_def proclock_at_def share_mem_def session_mem_def)
  have s: "same_session ?s 1 2" "same_session ?s 2 1"
    by (simp_all add: same_session_def share_mem_def session_mem_def session_procs_def InvalidGpSessionId_def)
  have l: "procLocks (lock_at ?s table_a) = [2, 3, 1]" "waitProcs (lock_at ?s table_a) = [1]"
      "procLocks (lock_at ?s table_b) = [1, 4, 2]" "waitProcs (lock_at ?s table_b) = [2]"
    by (simp_all add: lock_at_def share_mem_def session_mem_def)
  show ?thesis using h s
    by (auto simp: blocked_by_def w held_against_def l before_in_Cons)
qed

text \<open>
  \<open>FindLockCycleRecurse\<close> counts the locks of the waiter's own session as hard blockers,
  although \<open>LockCheckConflicts\<close> does not: two processes of one session that each hold, beside an
  idle process of another session, the table the other one waits for are reported as a hard
  deadlock, although only the idle processes block them.
\<close>

theorem DeadLockCheck_same_session:
  "map_sum id fst (DeadLockCheck 4 1 1 session_mem (ex_work 4)) =
     Inr DS_HARD_DEADLOCK \<and>
   acyclic (blocked_by session_mem)"
proof
  show "acyclic (blocked_by session_mem)"
    by (rule acyclic_rank [where f = "\<lambda>p. if p < 3 then 1 else 0"]) (use session_blocked_by in auto)
  show "map_sum id fst (DeadLockCheck 4 1 1 session_mem (ex_work 4)) =
     Inr DS_HARD_DEADLOCK"
    by (simp add: DeadLockCheck_def DeadLockCheckRecurse.simps TestConfiguration_def maxPossibleConstraints_def
      ExpandConstraints_def FindLockCycle_def blockers_eval share_mem_def session_mem_def lock_at_def proclock_at_def session_procs_def waiting_proc_def idle_proc_def
     ex_work_def InitDeadLockChecking_def numeral_eq_Suc note_autovacuum_def fill_details_def)
qed

end
