(* ===== verification/LockProps.thy ===== *)
theory LockProps
  imports LockReach DeadlockProps
begin

unbundle bit_operations_syntax

text \<open>
  What the lock manager guarantees in every reachable state of the shared table, and a state in
  which one process holds a table exclusively and another one waits for it.
\<close>

section \<open>A process that waits\<close>

definition ex_env :: LockEnv where
  "ex_env = \<lparr>MaxBackends = 3, allProcCount = 3, LockTagHashCode = (\<lambda>_. 0), RecoveryInProgress = False,
     InRecovery = False, is_reader = False, log_lock_waits = False, proc_exit_inprogress = False,
     resqueue_dispatcher = False, ResRemoveFromWaitQueue = (\<lambda>_ s. s)\<rparr>"

definition ex_backend :: "nat \<Rightarrow> LockLocal" where
  "ex_backend p = \<lparr>MyProc = p, MyDatabaseId = 1, LockMethodLocalHash = [(table_a, AccessExclusiveLock) \<mapsto> new_locallock],
     FastPathLocalUseCount = 0, StrongLockInProgress = None, awaitedLock = None, awaitedOwner = None,
     lockAwaited = None, lockHolderProcPtr = Some p, CurrentResourceOwner = None, dwork = ex_work 3,
     deadlock_state = DS_NOT_YET_CHECKED, InterruptHoldoffCount = 0\<rparr>"

definition ex_start :: LockMem where
  "ex_start = \<lparr>LockMethodLockHash = Map.empty, LockMethodProcLockHash = Map.empty,
     allProcs = (\<lambda>p. idle_proc (int p)), strong_count = (\<lambda>_. 0)\<rparr>"

definition ex_acquire :: "nat \<Rightarrow> LockMem \<Rightarrow> LockMem" where
  "ex_acquire p s = snd (snd (acquire_main ex_env (True, True, False) table_a AccessExclusiveLock None False True
     (ex_backend p, s)))"

definition ex_held :: LockMem where "ex_held = ex_acquire 1 ex_start"
definition ex_wait :: LockMem where "ex_wait = ex_acquire 2 ex_held"

lemmas acquire_eval = acquire_main_def SetupLockInTable_def acquire_status_def LockCheckConflicts_def new_lock_def
  request_in_lock_def ProcSleep_def Let_def mask_has_mode set_locallock_def locallock_at_def

lemma ex_first:
  "LockMethodLockHash ex_held table_a \<noteq> None" "procLocks (lock_at ex_held table_a) = [1]"
  "waitProcs (lock_at ex_held table_a) = []" "granted (lock_at ex_held table_a) = (\<lambda>_. 0)(8 := 1)"
  "grantMask (lock_at ex_held table_a) = LOCKBIT_ON 8" "waitMask (lock_at ex_held table_a) = 0"
  "LockMethodProcLockHash ex_held (table_a, 1) = Some \<lparr>holdMask = LOCKBIT_ON 8, releaseMask = 0\<rparr>"
  "LockMethodProcLockHash ex_held (table_a, 2) = None"
  "allProcs ex_held 2 = idle_proc 2" "linked (allProcs ex_held q) = False"
  by (simp_all add: ex_held_def ex_acquire_def acquire_eval ex_start_def ex_backend_def ex_env_def lock_at_def proclock_at_def
     AccessExclusiveLock_def idle_proc_def grant_in_lock_def)

lemma ex_second:
  "waits_on ex_wait 2 table_a" "waitLockMode (allProcs ex_wait 2) = 8"
  "procLocks (lock_at ex_wait table_a) = [1, 2]" "linked (allProcs ex_wait q) \<longleftrightarrow> q = 2"
  by (simp_all add: waits_on_def ex_wait_def ex_acquire_def acquire_eval ex_first ex_first [unfolded One_nat_def] ex_backend_def ex_env_def proclock_at_def
     otherLocks_def ourHolding_def upt_rec [of _ "numeral n" for n]
     LockConflicts_modes valid_mode_def AccessExclusiveLock_def idle_proc_def InvalidGpSessionId_def)

lemma ex_step:
  assumes "\<not> linked (allProcs s p)" "LockMethodProcLockHash s (table_a, p) = None"
  shows "lock_step ex_env s (ex_acquire p s)"
proof -
  obtain r b' s' where a: "acquire_main ex_env (True, True, False) table_a AccessExclusiveLock None False True
      (ex_backend p, s) = (r, b', s')" by (metis prod.exhaust)
  have "lock_step ex_env s s'"
    by (rule step_acquire [OF _ _ _ _ a])
      (use assms in \<open>simp_all add: ex_backend_def holds_mode_def valid_mode_def valid_method_def table_a_def
        SET_LOCKTAG_RELATION_def DEFAULT_LOCKMETHOD_def LockMethods_def AccessExclusiveLock_def\<close>)
  then show ?thesis using a by (simp add: ex_acquire_def)
qed

lemma ex_reachable: "lock_reachable ex_env ex_held" "lock_reachable ex_env ex_wait"
proof -
  have e: "empty_table ex_start" by (simp add: empty_table_def ex_start_def idle_proc_def)
  have s1: "lock_step ex_env ex_start ex_held"
    unfolding ex_held_def by (rule ex_step) (simp_all add: ex_start_def idle_proc_def)
  have s2: "lock_step ex_env ex_held ex_wait"
    unfolding ex_wait_def by (rule ex_step) (simp_all add: ex_first idle_proc_def)
  show "lock_reachable ex_env ex_held" "lock_reachable ex_env ex_wait"
    using e s1 s2 unfolding lock_reachable_def by (meson r_into_rtranclp rtranclp.rtrancl_into_rtrancl)+
qed

section \<open>What the lock manager guarantees\<close>

text \<open>
  C5.  The shared lock table is well formed in every reachable state: for every \<open>LOCK\<close> the counts
  and masks say how many processes hold and await each mode, its \<open>PROCLOCK\<close>s are those of the
  processes that hold or await it, each once, the processes in its queue are those that sleep on
  it, and no \<open>LOCK\<close> stays behind without a request.
\<close>

theorem lock_table_well_formed:
  assumes "lock_reachable env s" "LockMethodLockHash s t = Some l"
  shows "granted l m = int (card {p. holds_mode s t p m}) \<and>
    requested l m = granted l m + int (card {p. waits_on s p t \<and> waitLockMode (allProcs s p) = m}) \<and>
    (m < 32 \<longrightarrow> (bit (grantMask l) m \<longleftrightarrow> 0 < granted l m)) \<and>
    (m < 32 \<longrightarrow> (bit (waitMask l) m \<longleftrightarrow> granted l m < requested l m)) \<and>
    0 < nRequested l \<and> distinct (procLocks l) \<and> distinct (waitProcs l) \<and>
    (\<forall>p. (p \<in> set (procLocks l) \<longleftrightarrow> LockMethodProcLockHash s (t, p) \<noteq> None) \<and>
         (p \<in> set (procLocks l) \<longleftrightarrow> (\<exists>k. holds_mode s t p k) \<or> waits_on s p t) \<and>
         (p \<in> set (waitProcs l) \<longleftrightarrow> waits_on s p t))"
proof -
  note ok = reachable_table [OF assms(1)]
  have l: "LockMethodLockHash s t \<noteq> None" "lock_at s t = l" using assms(2) by (simp_all add: lock_at_def)
  note q = queues_okD [OF table_okD(1) [OF ok]]
  note g = lock_goodD [OF table_okD(3) [OF ok l(1)]]
  have w: "p \<in> set (waitProcs l) \<longleftrightarrow> waits_on s p t" for p using q(1,4) l by metis
  have sh: "lock_shape s t" and c: "lock_counts None s t" using g(1) by (simp_all add: lock_ok_def)
  have P: "p \<in> set (procLocks l) \<longleftrightarrow> LockMethodProcLockHash s (t, p) \<noteq> None" for p
    using sh l(2) unfolding lock_shape_def by metis
  have H: "{p. holds_mode s t p k} = holders s t k" for k by (auto simp: holds_mode_def holders_def P l(2))
  have W: "{p. waits_on s p t \<and> waitLockMode (allProcs s p) = k} = waiting s t k" for k by (auto simp: waiting_def w l(2))
  have "p \<in> set (procLocks l) \<longleftrightarrow> (\<exists>k. holds_mode s t p k) \<or> waits_on s p t" for p
  proof -
    have "hold s t p \<noteq> 0 \<longleftrightarrow> (\<exists>k. bit (hold s t p) k)"
      using bit_imp_le_length [of "hold s t p"] by (auto simp: mask_eq_0)
    moreover have "set (waitProcs l) \<subseteq> set (procLocks l)" using sh l(2) by (simp add: lock_shape_def)
    ultimately show ?thesis using g(2) [of "{}"] w P l(2) unfolding tidy_def holds_mode_def by blast
  qed
  moreover have "0 < int (card (holders s t m)) \<longleftrightarrow> holders s t m \<noteq> {}" "0 < int (card (waiting s t m)) \<longleftrightarrow> waiting s t m \<noteq> {}"
    by (simp_all add: card_gt_0_iff)
  ultimately show ?thesis
    using lock_counts_masks [OF c, of m] g(5) q(5) [OF l(1)] sh w P l(2)
    unfolding H W by (auto simp: pending_def lock_shape_def)
qed

lemma lock_table_well_formed_witness:
  "granted (lock_at ex_wait table_a) 8 = int (card {p. holds_mode ex_wait table_a p 8}) \<and>
   0 < nRequested (lock_at ex_wait table_a)"
proof -
  have "LockMethodLockHash ex_wait table_a \<noteq> None"
    using queues_okD(6) [OF table_okD(1) [OF reachable_table [OF ex_reachable(2)]] ex_second(1)] .
  then obtain l where l: "LockMethodLockHash ex_wait table_a = Some l" by blast
  then show ?thesis using lock_table_well_formed [OF ex_reachable(2) l, of 8] by (simp add: lock_at_def)
qed



text \<open>
  C7.  No wakeup is lost: in every reachable state, a process that sleeps on a lock has a reason to
  wait, a process of another session that holds a conflicting mode or a conflicting request ahead of
  it in the queue; and unless processes block one another in a cycle, following these reasons from
  any process leads to one that is not waiting for a lock.  (Resource queues, which are scheduled
  elsewhere, are excepted.)
\<close>

theorem lock_no_lost_wakeup:
  assumes "lock_reachable env s" "waits_in_queue s p"
  shows "(\<exists>q. (p, q) \<in> blocked_by s) \<and>
    (finite (blocked_by s) \<and> acyclic (blocked_by s) \<longrightarrow> (\<exists>q. (p, q) \<in> (blocked_by s)\<^sup>* \<and> \<not> waits_in_queue s q))"
  using lm.reason [OF assms] lm.ends_at_running [OF assms(1)] by blast

lemma lock_no_lost_wakeup_witness:
  "waits_in_queue ex_wait 2 \<and> (\<exists>q. (2, q) \<in> blocked_by ex_wait)"
proof -
  have "waits_in_queue ex_wait 2"
    using ex_second(1) unfolding waits_in_queue_def
    by (intro exI [of _ table_a]) (simp add: table_a_def SET_LOCKTAG_RELATION_def)
  then show ?thesis using lock_no_lost_wakeup [OF ex_reachable(2)] by blast
qed

text \<open>The deadlock detector works on an overestimate of who blocks whom.\<close>

lemma blocked_by_waits_for:
  assumes "table_ok s"
  shows "blocked_by s \<subseteq> waits_for s []"
proof
  fix e assume "e \<in> blocked_by s"
  then obtain p q t where e: "e = (p, q)" "waits_on s p t"
    and b: "held_against s t p (waitLockMode (allProcs s p)) q \<or> before_in (waitProcs (lock_at s t)) q p \<and>
        conflicts (waitLockMode (allProcs s p)) (waitLockMode (allProcs s q))"
    by (auto simp: blocked_by_def)
  note o = queues_okD [OF table_okD(1) [OF assms]]
  have ok: "lock_ok None s t" using lock_goodD(1) [OF table_okD(3) [OF assms o(6) [OF e(2)]]] .
  have m: "valid_mode (waitLockMode (allProcs s p))" using lock_ok_waiter(2) [OF ok o(1) [OF e(2)]] .
  from b show "e \<in> waits_for s []"
  proof
    assume h: "held_against s t p (waitLockMode (allProcs s p)) q"
    then obtain k where k: "bit (hold s t q) k" "conflicts (waitLockMode (allProcs s p)) k" "q \<noteq> p"
      by (auto simp: held_against_def same_session_def)
    then have "k \<in> set [1..<Suc 8]" using conflicts_valid [OF m k(2)] by (auto simp: valid_mode_def AccessExclusiveLock_def)
    then have "holds_conflicting s t (LockConflicts ! waitLockMode (allProcs s p)) q"
      using k unfolding holds_conflicting_def list_ex_iff mask_has_mode GetLocksMethodTable_simps
      by (auto simp: conflicts_def hold_def simp del: upt_Suc set_upt)
    then have "q \<in> set (hard_blockers s t p)" using h k(3) by (simp add: hard_blockers_def held_against_def)
    then show ?thesis using e by (auto simp: waits_for_def hard_edge_def)
  next
    assume "before_in (waitProcs (lock_at s t)) q p \<and> conflicts (waitLockMode (allProcs s p)) (waitLockMode (allProcs s q))"
    then have "q \<in> set (soft_blockers s [] t p)"
      by (simp add: soft_blockers_bits before_in_def conflicts_def)
    then show ?thesis using e by (auto simp: waits_for_def soft_edge_def)
  qed
qed

lemma same_locks_blocked_by:
  assumes "same_locks s s'"
  shows "blocked_by s' = blocked_by s"
  using same_session_cong [OF same_locksD(9) [OF assms]]
  by (simp add: blocked_by_def held_against_def same_locksD [OF assms])

lemma wakes_unlinked: "wakes t s s' \<Longrightarrow> \<not> linked (allProcs s p) \<Longrightarrow> \<not> linked (allProcs s' p)"
  by (induction rule: wakes.induct) (auto simp: wake1_simps woken_proc_def)

lemma RemoveFromWaitQueue_unlinked:
  assumes ok: "table_ok s" and p: "waits_on s p t"
  shows "\<not> linked (allProcs (RemoveFromWaitQueue p s) p)"
proof -
  note q = table_okD(1) [OF ok]
  let ?s = "unwait t p s"
  have l: "LockMethodLockHash s t \<noteq> None" using queues_okD(6) [OF q p] .
  note g = lock_goodD [OF table_okD(3) [OF ok l]]
  define s1 where "s1 = (if hold ?s t p = 0 then remove_proclock (t, p) ?s else ?s)"
  have n1: "\<not> linked (allProcs s1 p)" by (simp add: s1_def)
  have q1: "queues_ok s1"
  proof (cases "hold ?s t p = 0")
    case True
    show ?thesis
      unfolding s1_def using True
      by (simp, intro queues_ok_frame [OF queues_ok_unwait [OF q p]]) (auto split: if_splits)
  qed (simp add: s1_def queues_ok_unwait [OF q p])
  have l1: "LockMethodLockHash s1 t \<noteq> None" by (simp add: s1_def)
  have R: "RemoveFromWaitQueue p s = CleanUpLock t (t, p) (GetLocksMethodTable t) True ?s"
    using p queues_okD(3) [OF q p] LockMethods_table [OF g(6)]
    by (simp add: RemoveFromWaitQueue_def Let_def waits_on_def unwait_def)
  have C: "CleanUpLock t (t, p) (GetLocksMethodTable t) True ?s =
      (if nRequested (lock_at s1 t) = 0 then s1\<lparr>LockMethodLockHash := (LockMethodLockHash s1)(t := None)\<rparr>
       else ProcLockWakeup (GetLocksMethodTable t) t s1)"
    unfolding CleanUpLock_def s1_def hold_def Let_def by simp
  show ?thesis
    unfolding R C using n1 wakes_unlinked [OF ProcLockWakeup_wakes [OF q1 l1] n1] by simp
qed

text \<open>
  C8.  \<open>CheckDeadLock\<close>, run in a reachable state by a process that sleeps on a lock, not on a
  resource queue, never fails, keeps the lock table well formed and ends the deadlock for that
  process: afterwards it has been taken off its queue or woken, or it is on no cycle of processes
  that block one another.
\<close>

theorem CheckDeadLock_ends_deadlock:
  assumes "lock_reachable env s" "waits_on s (MyProc b) t" "fits (MaxBackends env) s"
    "length (deadlockDetails (dwork b)) = MaxBackends env"
    "\<not> proc_exit_inprogress env" "\<not> awaits_resource env t"
  shows "\<exists>b' s'. CheckDeadLock env (b, s) = Inr (b', s') \<and> lock_reachable env s' \<and>
    (\<not> linked (allProcs s' (MyProc b)) \<or> (MyProc b, MyProc b) \<notin> (blocked_by s')\<^sup>+)"
proof -
  let ?me = "MyProc b"
  note ok = reachable_table [OF assms(1)]
  have me: "linked (allProcs s ?me)" using assms(2) by (simp add: waits_on_def)
  have step: "lock_reachable env s'" if "CheckDeadLock env (b, s) = Inr (b', s')" for b' s'
    using assms(1) step_deadlock [OF assms(3,4) _ assms(6) that] assms(2) unfolding lock_reachable_def
    by (meson rtranclp.rtrancl_into_rtrancl)
  have cyc: "(p, p) \<notin> (blocked_by x)\<^sup>+" if "table_ok x" "(p, p) \<notin> (waits_for x [])\<^sup>+" for p x
    using that blocked_by_waits_for [OF that(1)] trancl_mono by blast
  show ?thesis
  proof (rule DeadLockCheck_spec [OF table_okD(1) [OF ok] assms(3,2,4), of ?me])
    fix w' assume D: "DeadLockCheck (MaxBackends env) ?me ?me s (dwork b) = Inr (DS_HARD_DEADLOCK, s, w')"
    then obtain b' s' where C: "CheckDeadLock env (b, s) = Inr (b', s')"
        "s' = set_proc ?me ((allProcs (RemoveFromWaitQueue ?me s) ?me)
          \<lparr>sem := Suc (sem (allProcs (RemoveFromWaitQueue ?me s) ?me))\<rparr>) (RemoveFromWaitQueue ?me s)"
      using me assms(2,5,6) by (simp add: CheckDeadLock_def Let_def waits_on_def)
    then show ?thesis using step [OF C(1)] RemoveFromWaitQueue_unlinked [OF ok assms(2)] by auto
  next
    fix st s1 w' orders
    assume D: "DeadLockCheck (MaxBackends env) ?me ?me s (dwork b) = Inr (st, s1, w')"
      "valid_orders s orders" "s1 = fold rearrange orders s"
      "st \<in> {DS_NO_DEADLOCK, DS_SOFT_DEADLOCK, DS_BLOCKED_BY_AUTOVACUUM}" "(?me, ?me) \<notin> (waits_for s1 [])\<^sup>+"
    let ?s2 = "set_proc ?me ((allProcs s1 ?me)\<lparr>sem := Suc (sem (allProcs s1 ?me))\<rparr>) s1"
    obtain b' s' where C: "CheckDeadLock env (b, s) = Inr (b', s')" "s' = s1 \<or> s' = ?s2"
      using D(1,4) me assms(5) by (cases "log_lock_waits env") (auto simp: CheckDeadLock_def Let_def)
    have same: "same_locks s1 ?s2" by (simp add: same_locks_def hold_def)
    have "blocked_by ?s2 = blocked_by s1" by (rule same_locks_blocked_by [OF same])
    moreover have "(?me, ?me) \<notin> (blocked_by s1)\<^sup>+"
      by (rule cyc) (use D(3,5) table_rearrange_all [OF ok D(2)] in auto)
    ultimately show ?thesis using C step [OF C(1)] by auto
  qed
qed

lemma CheckDeadLock_ends_deadlock_witness:
  "\<exists>b' s'. CheckDeadLock ex_env (ex_backend 2, ex_wait) = Inr (b', s') \<and> lock_reachable ex_env s'"
proof -
  have "participants ex_wait \<subseteq> {1, 2}"
    using ex_second by (auto simp: participants_def waiters_def waits_on_def)
  then have "fits (MaxBackends ex_env) ex_wait"
    using card_mono [of "{1, 2 :: nat}" "participants ex_wait"] finite_subset [of "participants ex_wait" "{1, 2}"]
    by (simp add: fits_def ex_env_def)
  then show ?thesis
    using CheckDeadLock_ends_deadlock [of ex_env ex_wait "ex_backend 2" table_a] ex_reachable(2) ex_second(1)
    by (auto simp: ex_backend_def ex_details ex_env_def awaits_resource_def)
qed

section \<open>Interrupts\<close>

text \<open>
  \<open>LockErrorCleanup\<close> holds off interrupts while it works, and lets them in again when it is done,
  except when the lock the process awaits is that of a resource queue: then it returns with
  interrupts held off.
\<close>

theorem LockErrorCleanup_interrupts:
  "InterruptHoldoffCount (fst (LockErrorCleanup env (b, s))) =
     (case lockAwaited b of
        Some k \<Rightarrow> if awaits_resource env (fst k) then Suc (InterruptHoldoffCount b) else InterruptHoldoffCount b
      | None \<Rightarrow> InterruptHoldoffCount b)"
  by (auto simp: LockErrorCleanup_def AbortStrongLockAcquire_def HOLD_INTERRUPTS_def RESUME_INTERRUPTS_def
      GrantAwaitedLock_def GrantLockLocal_def set_locallock_def Let_def split: option.splits)

end
