(* ===== verification/Spec2Isabelle.thy ===== *)
theory Spec2Isabelle
  imports Gdd_Break ComboHeap Fts_Segment Fts_Notify ClusterAtomic LockProps
begin

text \<open>
  A verification library of the core logic of Greenplum Database, a distributed PostgreSQL: a master
  node (the query dispatcher, QD) plans and dispatches work to segment nodes (their processes are the
  query executors, QE), every node being a PostgreSQL server of its own with a mirror. Paths are
  relative to \<open>src/src/backend\<close> unless they say otherwise.

  \<^bold>\<open>The parts and how they interact.\<close>

  \<^item> Distributed transactions: the master drives a two-phase commit over the segments, logs its decision,
    and resolves what is in doubt after a crash. The segments prepare, commit and abort through the
    transaction block machine and the two-phase machinery every node has.
  \<^item> Transaction status: the commit log, parent links, the process array and the state stack of a process
    answer whether a transaction is current, running, committed or aborted, and distributed snapshots
    extend the answers to the cluster.
  \<^item> Visibility: the rules that decide from a tuple header and those answers what a scan sees, an update
    may touch and vacuum may remove; they cache answers in hint bits and read command ids, some of
    which are combo command ids shared between the processes of a session.
  \<^item> Locks: the processes of a node share a table of heavyweight locks with a queue of waiters for each; weak locks on
    relations are kept in the process that holds them until a strong one is requested. A process that has
    slept too long looks for a deadlock on its node and either rearranges the queues or gives up.
  \<^item> Global deadlock detection: a process of the master collects who waits for whom on all segments, reduces
    the graph, and cancels transactions until no deadlock is left.
  \<^item> Fault tolerance: a process of the master probes the segments, records failures in the configuration,
    and promotes mirrors; the segments answer its messages.

  \<^bold>\<open>Theories.\<close> \<open>Prelude\<close> holds the types, collections and lemmas all components share, \<open>PgList\<close> the operations
  of \<open>nodes/list.c\<close> they call, \<open>CFormat\<close> the conversions of \<open>printf\<close> and \<open>sscanf\<close> they use.

  \<^item> Locks, definitions: \<open>LockTable\<close> (\<open>storage/lmgr/lock.c\<close>, \<open>proc.c\<close>: modes and conflicts, \<open>LOCK\<close>, \<open>PROCLOCK\<close> and \<open>PGPROC\<close> objects in
    the record \<open>LockMem\<close> of shared memory, requests, grants, releases, queues and wakeups), \<open>LockAcquire\<close> (the private
    state \<open>LockLocal\<close> of a backend and the settings \<open>LockEnv\<close>; \<open>LockAcquireExtended\<close>, \<open>LockRelease\<close>, \<open>LockReleaseAll\<close>, the fast path, sleeping, the
    timeout check and the cleanup after errors), \<open>Deadlock\<close> (\<open>deadlock.c\<close>, whose arrays are the record \<open>DeadlockWork\<close>).
  \<^item> Locks, proofs: \<open>DeadlockSearch\<close> (the depth-first search finds exactly the cycles), \<open>DeadlockTopo\<close> (the topological sort),
    \<open>DeadlockConfig\<close> (testing a set of constraints), \<open>DeadlockCheck\<close> (the search for constraints, and the rearranged queues),
    \<open>DeadlockProps\<close> (the properties of the detector); \<open>LockInv\<close>, \<open>LockSteps\<close>, \<open>LockTableOk\<close> and \<open>LockSystem\<close> (what each
    operation keeps of the invariant \<open>table_ok\<close>), \<open>LockReach\<close> (the step relation \<open>lock_step\<close>, the reachable states and the
    interface \<open>lock_service\<close>, which they interpret), \<open>LockProps\<close> (the properties of the lock manager).
  \<^item> Global deadlock detection (\<open>utils/gdd/gdddetector.c\<close>, \<open>gddbackend.c\<close>): \<open>Gdd_Map\<close> (the pointer maps, with the
    interface \<open>ptr_map\<close>), \<open>Gdd\<close> (contexts, graphs, vertices, edges and every operation on them), \<open>Gdd_Rel\<close> (the
    set of wait-for edges a context stands for), \<open>Gdd_Reduce\<close> (reduction leaves the largest stable set),
    \<open>Gdd_Break\<close> (victims; termination, and the ids for which it fails).
  \<^item> Transaction status: \<open>Clog\<close> (\<open>access/transam/clog.c\<close>), \<open>Transam\<close> (\<open>transam.c\<close>, \<open>subtrans.c\<close>), \<open>XactStack\<close> (the stack of
    \<open>xact.c\<close> and its search), \<open>ProcArray\<close> (\<open>storage/ipc/procarray.c\<close>, and the interface \<open>xact_status\<close> the visibility rules
    rely on), \<open>DistribSnapshot\<close> (\<open>cdb/cdbdistributedsnapshot.c\<close>, \<open>cdblocaldistribxact.c\<close>, \<open>access/transam/distributedlog.c\<close>).
  \<^item> Visibility: \<open>Tqual\<close> (\<open>utils/time/tqual.c\<close> and the macros of \<open>htup_details.h\<close>), \<open>Tqual_Spec\<close> (specifications over fates, the
    invariant of hint bits), \<open>Tqual_MVCC\<close>, \<open>Visibility\<close> (the properties, and the life of hint bits); \<open>ComboCid\<close> and \<open>ComboHeap\<close>
    (\<open>utils/time/combocid.c\<close>, with the shared file as explicit state).
  \<^item> Fault tolerance: \<open>Fts\<close> (\<open>fts/ftsprobe.c\<close>, \<open>fts.c\<close>: state machine, retries, configuration), \<open>Fts_Safety\<close> and \<open>Fts_Cycle\<close> (what every
    step and a whole probe cycle keep; the interface \<open>answering_segments\<close>), \<open>Fts_Segment\<close> (\<open>ftsmessagehandler.c\<close>,
    \<open>replication/gp_replication.c\<close>, which interpret that interface), \<open>Fts_Notify\<close> (the counters of \<open>FtsNotifyProber\<close>).
  \<^item> Distributed transactions, definitions: \<open>Backend\<close> (the state of a process and its node, errors as in \<open>utils/error/elog.c\<close>),
    \<open>Dtm\<close> (\<open>cdb/cdbtm.c\<close>, \<open>cdbtmutils.c\<close>, \<open>cdb/dispatcher/cdbdisp_dtx.c\<close>: activation, prepare, commit, notification, rollback),
    \<open>XactBlock\<close> and \<open>TBlock\<close> (\<open>access/transam/xact.c\<close>: starting, committing, preparing, aborting; the transaction block machine with
    savepoints), \<open>TwoPhase\<close> (\<open>twophase.c\<close>, the contexts and protocol commands of a segment), \<open>DtxRecovery\<close>
    (\<open>cdb/cdbdtxrecovery.c\<close>), \<open>MainLoop\<close> (\<open>tcop/postgres.c\<close>, \<open>utils/init/postinit.c\<close>: after an error and at exit; restart of a node).
  \<^item> Distributed transactions, proofs: the interface \<open>block_frame\<close> of \<open>MainLoop\<close> says what aborts are made of and is
    instantiated for segments (\<open>DtxSegment\<close>) and the master (\<open>DtxAtomic\<close>). \<open>SegmentLog\<close> and \<open>SegmentPrepare\<close> show what a segment's
    log says after every command, at every crash point. \<open>DtxContract\<close> states as interface \<open>participants\<close> what the master relies on;
    \<open>DtxAtomic\<close> and \<open>DtxLife\<close> prove the master correct under it, over commits, aborts, exits, crashes, redo and recovery in any
    order (the relation \<open>life\<close>). \<open>Cluster\<close> makes a dispatcher of modelled segments, \<open>ClusterAtomic\<close> shows that it keeps the
    contract and states the properties; \<open>ClusterExample\<close> evaluates concrete runs.

  \<^bold>\<open>What the lemmas show.\<close> Each component has the functional behaviour of its operations on every branch, an invariant all
  of them keep, and where the code promises something simpler, a refinement: the reduced deadlock graph is the
  largest stable edge set; conflicting locks are never held by two sessions, no wakeup is lost, and the check a sleeping
  process makes ends its deadlock; visibility equals a specification without hint bits, which stays the same
  while transactions end; the in-progress test equals membership; a probe cycle keeps the
  configuration consistent; readers resolve combo command ids as the writer does; distributed commit is atomic,
  recovery ends every doubt, and a commit reported to the client has happened, provided the transaction
  wrote outside savepoints, for otherwise the code commits in one phase.

  \<^bold>\<open>Bounds and assumptions.\<close> Transaction ids are 32-bit words; comparisons are orders only in windows of 2 ^ 31 ids, which the
  invariants state where they need it. The array of combo command ids has at most 52428800 entries, what
  \<open>MaxAllocSize\<close> leaves. A visibility check reads one state of the system. Network, clock and disk of the fault
  tolerance service are inputs (\<open>FtsIO\<close>, \<open>FtsRound\<close>); file writes of combo command ids that fail are errors of the model.
  The search of the local deadlock detector has fuel for one call more than \<open>MaxBackends\<close>, the length of its array of visited
  processes, and is proved to need no more when the processes that hold or await locks fit into that number
  (\<open>fits\<close>), as they do without prepared transactions; beyond it the model reports the overrun of the array.
  An operation on locks is cut into the sections another backend cannot interleave with; \<open>lock_step\<close> lets the sections
  of all processes follow one another in any order. Its guards are what the callers keep: a process acts only when it does
  not sleep, asks for a mode it does not hold, releases what its local table records, and the fast-path locks moved to
  the shared table are in the way of no lock held there (\<open>transferable\<close>), which the counts of strong locks are for.
  Loops that end have termination proofs; the detection cycle, which may not, returns an option, and its
  result is proved to exist where it does. In the distributed transaction manager every call into a part
  that is not modelled may fail (\<open>faults\<close>), in a critical section with a panic; a crash keeps the
  flushed part of the log and any prefix of the rest; a segment has one process per session, which the
  script of the cluster may replace, and whose node it may restart, before every command; commands and
  answers may be lost; other sessions only add records to the master's log. The dispatch of SQL texts for savepoints is a
  parameter. Redo starts at the beginning of the log: checkpoints are not part of the relation
  \<open>life\<close> (redo of a checkpoint record is defined).

  \<^bold>\<open>Not modelled.\<close> The planners, the executor, parsing, access methods, buffers and storage,
  catalogs, replication, the network layers and clients: they are I/O, drivers over catalogs, or
  later extensions. Of the modelled files: SLRU pages behind the logs; memory, resource owners, locks,
  callbacks and portals of \<open>xact.c\<close>; the state data and resource manager callbacks of \<open>twophase.c\<close>; serialization of
  distributed snapshots; signal handling and start of processes; the locks of prepared transactions in state
  files, virtual transaction locks, the functions behind lock views, the log of exclusive locks for standbys, and
  resource queues (leaving such a queue is the parameter \<open>ResRemoveFromWaitQueue\<close>).
\<close>

end
